(* ===== verification/Prelude.thy ===== *)
theory Prelude
  imports Complex_Main "HOL-Library.Word"
begin

text \<open>
  What every component theory shares: the collections of rewrite rules the proofs are driven by,
  generic facts on lists, words and clamping, and the result type of fallible operations.  Nothing
  here models a line of the firmware.
\<close>

named_theorems flt_simps \<open>pushes the constructor for finite floats outwards\<close>
named_theorems state_simps \<open>state-update rules of the component records\<close>
named_theorems word_bound_simps \<open>bounds of words read as numbers\<close>

type_synonym u8 = "8 word"
type_synonym u16 = "16 word"
type_synonym u32 = "32 word"
type_synonym u64 = "64 word"
type_synonym bytes = "8 word list"

unbundle bit_operations_syntax

section \<open>Lists\<close>

definition index_of :: "('a \<Rightarrow> bool) \<Rightarrow> 'a list \<Rightarrow> nat option" where
  "index_of P xs = (let ys = takeWhile (\<lambda>x. \<not> P x) xs in
     if length ys < length xs then Some (length ys) else None)"

lemma upt4: "[0..<4] = [0, 1, 2, 3]"
  by (simp add: upt_rec)

lemma index_of_Nil [simp]: "index_of P [] = None"
  by (simp add: index_of_def)

lemma index_of_Cons [simp]:
  "index_of P (x # xs) = (if P x then Some 0 else map_option Suc (index_of P xs))"
  by (simp add: index_of_def)

lemma index_of_SomeD:
  "index_of P xs = Some i \<Longrightarrow> i < length xs \<and> P (xs ! i) \<and> (\<forall>j<i. \<not> P (xs ! j))"
proof (induction xs arbitrary: i)
  case Nil
  then show ?case by simp
next
  case (Cons x xs)
  show ?case
  proof (cases "P x")
    case True
    then show ?thesis using Cons.prems by simp
  next
    case False
    then obtain j where "index_of P xs = Some j" "i = Suc j" using Cons.prems by auto
    then show ?thesis using Cons.IH [of j] False by (auto simp: nth_Cons split: nat.splits)
  qed
qed

lemma index_of_None: "index_of P xs = None \<longleftrightarrow> (\<forall>x \<in> set xs. \<not> P x)"
  by (induction xs) auto

lemma nth_all_less_8:
  "length xs = 8 \<Longrightarrow> (\<forall>i < 8. P (xs ! i)) \<longleftrightarrow>
     P (xs!0) \<and> P (xs!1) \<and> P (xs!2) \<and> P (xs!3) \<and> P (xs!4) \<and> P (xs!5) \<and> P (xs!6) \<and> P (xs!7)"
  by (simp add: numeral_eq_Suc All_less_Suc2)

lemma mod_shift_inj:
  assumes "i < j" "j < (n::nat)"
  shows "(t + i) mod n \<noteq> (t + j) mod n"
proof
  assume "(t + i) mod n = (t + j) mod n"
  then have "n dvd t + j - (t + i)" using assms by (metis add_le_cancel_left less_imp_le mod_eq_dvd_iff_nat)
  then show False using assms dvd_imp_le [of n "j - i"] by simp
qed

lemma last_butlast_eq: "xs \<noteq> [] \<Longrightarrow> butlast xs @ [last xs] = xs"
  by simp

section \<open>Words\<close>

lemma unat_u8 [simp, word_bound_simps]: "unat (b :: 8 word) < 256"
  by (rule order_less_le_trans [OF unsigned_less]) simp

lemma unat_u16 [simp, word_bound_simps]: "unat (b :: 16 word) < 65536"
  by (rule order_less_le_trans [OF unsigned_less]) simp

lemma unat_u32 [simp, word_bound_simps]: "unat (b :: 32 word) < 4294967296"
  by (rule order_less_le_trans [OF unsigned_less]) simp

lemma unat_of_nat_u16: "n < 65536 \<Longrightarrow> unat (of_nat n :: 16 word) = n"
  by (simp add: unat_of_nat take_bit_nat_eq_self_iff)

lemma unat_of_nat_u32: "n < 4294967296 \<Longrightarrow> unat (of_nat n :: 32 word) = n"
  by (simp add: unat_of_nat take_bit_nat_eq_self_iff)

lemma unat_of_nat_u8: "n < 256 \<Longrightarrow> unat (of_nat n :: 8 word) = n"
  by (simp add: unat_of_nat take_bit_nat_eq_self_iff)

lemma and_0x7FF: "(x :: 32 word) AND 0x7FF = take_bit 11 x"
  by (simp add: take_bit_eq_mask mask_eq_exp_minus_1)

lemma unat_Suc_u8: "unat (c :: 8 word) < 255 \<Longrightarrow> unat (c + 1) = Suc (unat c)"
  by (simp add: unat_word_ariths)

lemma u8_eq_iff: "(c :: 8 word) = d \<longleftrightarrow> unat c = unat d"
  by (simp add: word_unat_eq_iff)

lemma ucast_of_int_16: "(ucast (of_int k :: 32 word) :: 16 word) = of_int k"
  by (rule bit_word_eqI) (simp add: bit_ucast_iff bit_of_int_iff)

lemma ucast_of_int_8: "(ucast (of_int k :: 32 word) :: 8 word) = of_int k"
  by (rule bit_word_eqI) (simp add: bit_ucast_iff bit_of_int_iff)

section \<open>Clamping reals\<close>

definition clampr :: "real \<Rightarrow> real \<Rightarrow> real \<Rightarrow> real" where
  "clampr v lo hi = (if v < lo then lo else if hi < v then hi else v)"

lemma clampr_bounds: "lo \<le> hi \<Longrightarrow> lo \<le> clampr v lo hi \<and> clampr v lo hi \<le> hi"
  by (simp add: clampr_def)

lemma clampr_abs: "0 \<le> m \<Longrightarrow> \<bar>clampr v (- m) m\<bar> \<le> m"
  by (auto simp: clampr_def abs_if)

lemma clampr_id: "lo \<le> v \<Longrightarrow> v \<le> hi \<Longrightarrow> clampr v lo hi = v"
  by (simp add: clampr_def)

end
