(* ===== verification/Flt.thy ===== *)
theory Flt
  imports Prelude
begin

text \<open>
  The firmware's floating-point numbers.  A value is a finite real, an infinity or not-a-number, and
  the operations follow IEEE 754 on the special values: a comparison with NaN is false, a sum of
  opposite infinities, a product of zero and infinity and the quotient of zero by zero are NaN, and
  a finite number divided by zero is an infinity.  Finite arithmetic is exact: rounding, overflow
  and the sign of zero are idealised away, decimal literals are the numbers they denote.
\<close>

datatype flt = Fin real | PInf | NInf | NaN

definition isnan :: "flt \<Rightarrow> bool" where
  "isnan a = (case a of NaN \<Rightarrow> True | _ \<Rightarrow> False)"

definition isfin :: "flt \<Rightarrow> bool" where
  "isfin a = (case a of Fin _ \<Rightarrow> True | _ \<Rightarrow> False)"

definition val :: "flt \<Rightarrow> real" where
  "val a = (case a of Fin x \<Rightarrow> x | _ \<Rightarrow> 0)"

lemma isnan_simps [simp]:
  "\<not> isnan (Fin x)" "\<not> isnan PInf" "\<not> isnan NInf" "isnan NaN"
  by (simp_all add: isnan_def)

lemma isfin_simps [simp]:
  "isfin (Fin x)" "\<not> isfin PInf" "\<not> isfin NInf" "\<not> isfin NaN"
  by (simp_all add: isfin_def)

lemma val_Fin [simp]: "val (Fin x) = x"
  by (simp add: val_def)

lemma isfin_iff: "isfin a \<longleftrightarrow> (\<exists>x. a = Fin x)"
  by (cases a) auto

lemma isfinE [elim]: "isfin a \<Longrightarrow> (\<And>x. a = Fin x \<Longrightarrow> P) \<Longrightarrow> P"
  by (cases a) auto

lemma Fin_val: "isfin a \<Longrightarrow> Fin (val a) = a"
  by (cases a) auto

section \<open>Arithmetic and comparison\<close>

fun flt_neg :: "flt \<Rightarrow> flt" where
  "flt_neg (Fin x) = Fin (- x)"
| "flt_neg PInf = NInf"
| "flt_neg NInf = PInf"
| "flt_neg NaN = NaN"

fun flt_add :: "flt \<Rightarrow> flt \<Rightarrow> flt" where
  "flt_add NaN b = NaN"
| "flt_add a NaN = NaN"
| "flt_add (Fin x) (Fin y) = Fin (x + y)"
| "flt_add PInf NInf = NaN"
| "flt_add NInf PInf = NaN"
| "flt_add PInf b = PInf"
| "flt_add NInf b = NInf"
| "flt_add (Fin x) b = b"

text \<open>An infinity with the sign of a real; NaN for zero.\<close>
definition inf_sgn :: "real \<Rightarrow> flt" where
  "inf_sgn s = (if s > 0 then PInf else if s < 0 then NInf else NaN)"

fun flt_mul :: "flt \<Rightarrow> flt \<Rightarrow> flt" where
  "flt_mul NaN b = NaN"
| "flt_mul a NaN = NaN"
| "flt_mul (Fin x) (Fin y) = Fin (x * y)"
| "flt_mul (Fin x) PInf = inf_sgn x"
| "flt_mul (Fin x) NInf = inf_sgn (- x)"
| "flt_mul PInf (Fin y) = inf_sgn y"
| "flt_mul NInf (Fin y) = inf_sgn (- y)"
| "flt_mul PInf PInf = PInf"
| "flt_mul NInf NInf = PInf"
| "flt_mul PInf NInf = NInf"
| "flt_mul NInf PInf = NInf"

fun flt_div :: "flt \<Rightarrow> flt \<Rightarrow> flt" where
  "flt_div NaN b = NaN"
| "flt_div a NaN = NaN"
| "flt_div (Fin x) (Fin y) = (if y = 0 then inf_sgn x else Fin (x / y))"
| "flt_div (Fin x) b = Fin 0"
| "flt_div PInf (Fin y) = (if y < 0 then NInf else PInf)"
| "flt_div NInf (Fin y) = (if y < 0 then PInf else NInf)"
| "flt_div a b = NaN"

fun flt_less :: "flt \<Rightarrow> flt \<Rightarrow> bool" where
  "flt_less (Fin x) (Fin y) = (x < y)"
| "flt_less NInf (Fin y) = True"
| "flt_less NInf PInf = True"
| "flt_less (Fin x) PInf = True"
| "flt_less a b = False"

text \<open>The C++ operator ==: NaN differs from everything, itself included.\<close>
definition feq :: "flt \<Rightarrow> flt \<Rightarrow> bool" where
  "feq a b = (\<not> isnan a \<and> a = b)"

instantiation flt :: "{zero,one,plus,minus,uminus,times,inverse,ord}"
begin

definition "0 = Fin 0"
definition "1 = Fin 1"
definition "a + b = flt_add a b"
definition "- a = flt_neg a"
definition "a - b = flt_add a (flt_neg b)" for a b :: flt
definition "a * b = flt_mul a b"
definition "divide a b = flt_div a b"
definition "inverse a = flt_div (Fin 1) a"
definition "a < b = flt_less a b"
definition "a \<le> b = (flt_less a b \<or> feq a b)"

instance ..

end

lemma flt_Fin_ops [simp, flt_simps]:
  "Fin x + Fin y = Fin (x + y)" "Fin x - Fin y = Fin (x - y)" "- Fin x = Fin (- x)"
  "Fin x * Fin y = Fin (x * y)" "(0 :: flt) = Fin 0" "(1 :: flt) = Fin 1"
  "Fin x < Fin y \<longleftrightarrow> x < y" "Fin x \<le> Fin y \<longleftrightarrow> x \<le> y" "feq (Fin x) (Fin y) \<longleftrightarrow> x = y"
  by (simp_all add: plus_flt_def minus_flt_def uminus_flt_def times_flt_def zero_flt_def
      one_flt_def less_flt_def less_eq_flt_def feq_def) auto

lemma flt_Fin_div [simp, flt_simps]: "y \<noteq> 0 \<Longrightarrow> Fin x / Fin y = Fin (x / y)"
  by (simp add: divide_flt_def)

lemma flt_div_zero [simp]: "Fin x / Fin 0 = inf_sgn x"
  by (simp add: divide_flt_def)

lemma flt_NaN_ops [simp]:
  "NaN + b = NaN" "a + NaN = NaN" "NaN - b = NaN" "a - NaN = NaN" "- NaN = NaN"
  "NaN * b = NaN" "a * NaN = NaN" "NaN / b = NaN" "a / NaN = NaN"
  "\<not> NaN < b" "\<not> a < NaN" "\<not> NaN \<le> b" "\<not> a \<le> NaN" "\<not> feq NaN b" "\<not> feq a NaN"
  by (cases a; cases b; simp add: plus_flt_def minus_flt_def uminus_flt_def times_flt_def
      divide_flt_def less_flt_def less_eq_flt_def feq_def)+

lemma flt_inf_less [simp]:
  "NInf < Fin y" "Fin x < PInf" "NInf < PInf" "\<not> Fin x < NInf" "\<not> PInf < Fin y"
  "\<not> PInf < PInf" "\<not> NInf < NInf" "\<not> PInf < NInf"
  by (simp_all add: less_flt_def)

lemma flt_inf_le [simp]:
  "NInf \<le> Fin y" "Fin x \<le> PInf" "NInf \<le> PInf" "\<not> Fin x \<le> NInf" "\<not> PInf \<le> Fin y"
  "PInf \<le> PInf" "NInf \<le> NInf" "\<not> PInf \<le> NInf"
  by (simp_all add: less_eq_flt_def feq_def)

lemma flt_neg_inf [simp]: "- PInf = NInf" "- NInf = PInf"
  by (simp_all add: uminus_flt_def)

lemma isfin_ops [intro]:
  "isfin a \<Longrightarrow> isfin b \<Longrightarrow> isfin (a + b)" "isfin a \<Longrightarrow> isfin b \<Longrightarrow> isfin (a - b)"
  "isfin a \<Longrightarrow> isfin b \<Longrightarrow> isfin (a * b)" "isfin a \<Longrightarrow> isfin (- a)"
  by (auto elim!: isfinE)

section \<open>The C library functions the code calls\<close>

definition fabsf :: "flt \<Rightarrow> flt" where
  "fabsf a = (case a of Fin x \<Rightarrow> Fin \<bar>x\<bar> | NaN \<Rightarrow> NaN | _ \<Rightarrow> PInf)"

definition sqrtf :: "flt \<Rightarrow> flt" where
  "sqrtf a = (case a of Fin x \<Rightarrow> if x < 0 then NaN else Fin (sqrt x)
     | PInf \<Rightarrow> PInf | NInf \<Rightarrow> NaN | NaN \<Rightarrow> NaN)"

definition sinf :: "flt \<Rightarrow> flt" where
  "sinf a = (case a of Fin x \<Rightarrow> Fin (sin x) | _ \<Rightarrow> NaN)"

definition cosf :: "flt \<Rightarrow> flt" where
  "cosf a = (case a of Fin x \<Rightarrow> Fin (cos x) | _ \<Rightarrow> NaN)"

definition tanf :: "flt \<Rightarrow> flt" where
  "tanf a = (case a of Fin x \<Rightarrow> Fin (tan x) | _ \<Rightarrow> NaN)"

definition asinf :: "flt \<Rightarrow> flt" where
  "asinf a = (case a of Fin x \<Rightarrow> if - 1 \<le> x \<and> x \<le> 1 then Fin (arcsin x) else NaN | _ \<Rightarrow> NaN)"

definition acosf :: "flt \<Rightarrow> flt" where
  "acosf a = (case a of Fin x \<Rightarrow> if - 1 \<le> x \<and> x \<le> 1 then Fin (arccos x) else NaN | _ \<Rightarrow> NaN)"

definition ratan2 :: "real \<Rightarrow> real \<Rightarrow> real" where
  "ratan2 y x = (if x > 0 then arctan (y / x)
     else if x < 0 then (if y \<ge> 0 then arctan (y / x) + pi else arctan (y / x) - pi)
     else if y > 0 then pi / 2 else if y < 0 then - (pi / 2) else 0)"

fun atan2f :: "flt \<Rightarrow> flt \<Rightarrow> flt" where
  "atan2f NaN x = NaN"
| "atan2f y NaN = NaN"
| "atan2f (Fin y) (Fin x) = Fin (ratan2 y x)"
| "atan2f (Fin y) PInf = Fin 0"
| "atan2f (Fin y) NInf = Fin (if y \<ge> 0 then pi else - pi)"
| "atan2f PInf (Fin x) = Fin (pi / 2)"
| "atan2f NInf (Fin x) = Fin (- (pi / 2))"
| "atan2f PInf PInf = Fin (pi / 4)"
| "atan2f NInf PInf = Fin (- (pi / 4))"
| "atan2f PInf NInf = Fin (3 * pi / 4)"
| "atan2f NInf NInf = Fin (- (3 * pi / 4))"

definition hypotf :: "flt \<Rightarrow> flt \<Rightarrow> flt" where
  "hypotf a b = (case (a, b) of (Fin x, Fin y) \<Rightarrow> Fin (sqrt (x * x + y * y))
     | _ \<Rightarrow> if a = PInf \<or> a = NInf \<or> b = PInf \<or> b = NInf then PInf else NaN)"

text \<open>C's fmaxf and fminf: a NaN argument is ignored.\<close>
definition fmaxf :: "flt \<Rightarrow> flt \<Rightarrow> flt" where
  "fmaxf a b = (if isnan a then b else if isnan b then a else if a < b then b else a)"

definition fminf :: "flt \<Rightarrow> flt \<Rightarrow> flt" where
  "fminf a b = (if isnan a then b else if isnan b then a else if b < a then b else a)"

lemma flt_fun_Fin [simp, flt_simps]:
  "fabsf (Fin x) = Fin \<bar>x\<bar>" "sinf (Fin x) = Fin (sin x)" "cosf (Fin x) = Fin (cos x)"
  "0 \<le> x \<Longrightarrow> sqrtf (Fin x) = Fin (sqrt x)" "x < 0 \<Longrightarrow> sqrtf (Fin x) = NaN"
  "- 1 \<le> x \<Longrightarrow> x \<le> 1 \<Longrightarrow> asinf (Fin x) = Fin (arcsin x)"
  "- 1 \<le> x \<Longrightarrow> x \<le> 1 \<Longrightarrow> acosf (Fin x) = Fin (arccos x)"
  "tanf (Fin x) = Fin (tan x)" "hypotf (Fin x) (Fin y) = Fin (sqrt (x * x + y * y))"
  by (simp_all add: fabsf_def sinf_def cosf_def sqrtf_def asinf_def acosf_def tanf_def hypotf_def)

lemma fmax_fmin_Fin [simp, flt_simps]:
  "fmaxf (Fin x) (Fin y) = Fin (max x y)" "fminf (Fin x) (Fin y) = Fin (min x y)"
  by (simp_all add: fmaxf_def fminf_def max_def min_def)

lemma flt_fun_NaN [simp]:
  "fabsf NaN = NaN" "sqrtf NaN = NaN" "sinf NaN = NaN" "cosf NaN = NaN" "asinf NaN = NaN"
  "acosf NaN = NaN"
  by (simp_all add: fabsf_def sinf_def cosf_def sqrtf_def asinf_def acosf_def)

section \<open>Casts\<close>

text \<open>A float becomes an integer by truncation towards zero.  Where C++ leaves the result open (an
  infinity, NaN, a value outside the type) the processor's conversion instruction decides: it
  saturates at the bounds of the 32-bit type and turns NaN into zero; a narrower type takes the low
  bits of that.\<close>

definition rtrunc :: "real \<Rightarrow> int" where
  "rtrunc x = (if 0 \<le> x then \<lfloor>x\<rfloor> else \<lceil>x\<rceil>)"

definition sat_int :: "int \<Rightarrow> int \<Rightarrow> flt \<Rightarrow> int" where
  "sat_int lo hi a = (case a of Fin x \<Rightarrow> max lo (min hi (rtrunc x))
     | PInf \<Rightarrow> hi | NInf \<Rightarrow> lo | NaN \<Rightarrow> 0)"

definition cast_i32 :: "flt \<Rightarrow> u32" where
  "cast_i32 a = of_int (sat_int (- 2147483648) 2147483647 a)"

definition cast_u32 :: "flt \<Rightarrow> u32" where
  "cast_u32 a = of_int (sat_int 0 4294967295 a)"

definition cast_i16 :: "flt \<Rightarrow> u16" where
  "cast_i16 a = ucast (cast_i32 a)"

definition cast_u16 :: "flt \<Rightarrow> u16" where
  "cast_u16 a = ucast (cast_u32 a)"

definition cast_u8 :: "flt \<Rightarrow> u8" where
  "cast_u8 a = ucast (cast_u32 a)"

lemma rtrunc_abs_le: "\<bar>of_int (rtrunc x)\<bar> \<le> \<bar>x\<bar>"
proof (cases "0 \<le> x")
  case True
  then show ?thesis using floor_correct [of x] by (simp add: rtrunc_def)
next
  case False
  then have "\<lceil>x\<rceil> \<le> 0" by (simp add: ceiling_le_iff)
  then have "real_of_int \<lceil>x\<rceil> \<le> 0" by simp
  then show ?thesis
    using False le_of_int_ceiling [of x] by (simp only: rtrunc_def False if_False)
qed

lemma rtrunc_bounds: "- of_int n \<le> x \<Longrightarrow> x \<le> of_int m \<Longrightarrow> 0 \<le> n \<Longrightarrow> 0 \<le> m \<Longrightarrow> - n \<le> rtrunc x \<and> rtrunc x \<le> m"
  unfolding rtrunc_def
  by (smt (verit, best) ceiling_le_iff floor_le_iff le_ceiling_iff le_floor_iff of_int_less_iff
      of_int_minus)

lemma sint_cast_i16:
  assumes "- 32768 \<le> rtrunc x" "rtrunc x \<le> 32767"
  shows "sint (cast_i16 (Fin x)) = rtrunc x"
proof -
  have "cast_i16 (Fin x) = of_int (rtrunc x)"
    using assms by (simp add: cast_i16_def cast_i32_def sat_int_def ucast_of_int_16)
  then show ?thesis
    using assms by (simp add: signed_of_int signed_take_bit_int_eq_self_iff)
qed

text \<open>An integer becomes the float of its value.\<close>
definition flt_of_u32 :: "32 word \<Rightarrow> flt" where
  "flt_of_u32 w = Fin (real (unat w))"

definition flt_of_int :: "int \<Rightarrow> flt" where
  "flt_of_int i = Fin (of_int i)"

lemma flt_of_simps [simp, flt_simps]: "flt_of_u32 w = Fin (real (unat w))" "flt_of_int i = Fin (of_int i)"
  by (simp_all add: flt_of_u32_def flt_of_int_def)

end
