(* ===== verification/Sbus.thy ===== *)
theory Sbus
  imports Prelude
begin

text \<open>
  The SBUS receiver of src/src/coms/SBUS.cpp: the byte-wise frame parser, the unpacking of sixteen
  11-bit channels, and the flags the staleness watchdog of the radio thread uses.  The bytes a call
  of update() drains from the serial driver are its argument.
\<close>

datatype sbus_state = WAIT_START | IN_FRAME

record sbus =
  sb_state :: sbus_state
  sb_buf :: bytes
  sb_count :: u8
  sb_ch :: "u16 list"
  sb_frame_lost :: bool
  sb_failsafe :: bool
  sb_frame_received :: bool

definition sbus_new :: sbus where
  "sbus_new = \<lparr>sb_state = WAIT_START, sb_buf = replicate 25 0, sb_count = 0,
     sb_ch = replicate 16 0, sb_frame_lost = True, sb_failsafe = True,
     sb_frame_received = False\<rparr>"

text \<open>Channel n out of the payload: three bytes assembled, shifted and masked.\<close>
definition sbus_unpack1 :: "bytes \<Rightarrow> nat \<Rightarrow> u16" where
  "sbus_unpack1 data n =
    (let bit = n * 11; bi = bit div 8; sh = bit mod 8;
         w = (ucast (data ! bi) :: u32) OR push_bit 8 (ucast (data ! (bi + 1)))
               OR push_bit 16 (ucast (data ! (bi + 2)))
     in ucast (drop_bit sh w AND 0x7FF))"

definition sbus_unpack :: "bytes \<Rightarrow> u16 list" where
  "sbus_unpack data = map (sbus_unpack1 data) [0..<16]"

definition sbus_byte :: "u8 \<Rightarrow> sbus \<Rightarrow> sbus" where
  "sbus_byte b s =
    (case sb_state s of
       WAIT_START \<Rightarrow>
         if b = 0x0F then s\<lparr>sb_buf := (sb_buf s)[0 := b], sb_count := 1, sb_state := IN_FRAME\<rparr>
         else s
     | IN_FRAME \<Rightarrow>
         let s = s\<lparr>sb_buf := (sb_buf s)[unat (sb_count s) := b], sb_count := sb_count s + 1\<rparr> in
         if sb_count s = 25 then
           (let s = (if sb_buf s ! 24 = 0x00 then
                s\<lparr>sb_ch := sbus_unpack (drop 1 (sb_buf s)),
                  sb_frame_lost := (drop_bit 2 (sb_buf s ! 23) AND 0x01 \<noteq> 0),
                  sb_failsafe := (drop_bit 3 (sb_buf s ! 23) AND 0x01 \<noteq> 0),
                  sb_frame_received := True\<rparr>
              else s)
            in s\<lparr>sb_state := WAIT_START, sb_count := 0\<rparr>)
         else s)"

definition sbus_update :: "bytes \<Rightarrow> sbus \<Rightarrow> sbus" where
  "sbus_update rx s = fold sbus_byte rx s"

definition sbus_channel :: "sbus \<Rightarrow> nat \<Rightarrow> u16" where
  "sbus_channel s n = (if n < 16 then sb_ch s ! n else 992)"

definition sbus_take_frame_received :: "sbus \<Rightarrow> bool \<times> sbus" where
  "sbus_take_frame_received s = (sb_frame_received s, s\<lparr>sb_frame_received := False\<rparr>)"

definition sbus_mark_stale :: "sbus \<Rightarrow> sbus" where
  "sbus_mark_stale s = s\<lparr>sb_frame_lost := True, sb_failsafe := True\<rparr>"

section \<open>The invariant of the parser\<close>

text \<open>The write index stays inside the 25-byte buffer, and the channels hold 11-bit values.\<close>
definition sbus_inv :: "sbus \<Rightarrow> bool" where
  "sbus_inv s = (length (sb_buf s) = 25 \<and> length (sb_ch s) = 16 \<and>
     (\<forall>c \<in> set (sb_ch s). c < 2048) \<and>
     (case sb_state s of WAIT_START \<Rightarrow> True
      | IN_FRAME \<Rightarrow> 1 \<le> unat (sb_count s) \<and> unat (sb_count s) < 25))"

lemma sbus_new_inv: "sbus_inv sbus_new"
  by (simp add: sbus_inv_def sbus_new_def)

lemma sbus_unpack1_less: "sbus_unpack1 data n < 2048"
proof -
  have "take_bit 11 k < (2048::nat)" for k
    using take_bit_nat_less_exp [of 11 k] by simp
  then show ?thesis
    by (simp add: sbus_unpack1_def Let_def and_0x7FF word_less_nat_alt unsigned_ucast_eq
        unsigned_take_bit_eq take_bit_take_bit)
qed

lemma sbus_unpack_ok: "length (sbus_unpack data) = 16" "c \<in> set (sbus_unpack data) \<Longrightarrow> c < 2048"
  using sbus_unpack1_less by (auto simp: sbus_unpack_def)

lemma sbus_byte_more:
  assumes "sb_state s = IN_FRAME" "unat (sb_count s) < 24"
  shows "sbus_byte b s = s\<lparr>sb_buf := (sb_buf s)[unat (sb_count s) := b], sb_count := sb_count s + 1\<rparr>"
proof -
  have "sb_count s + 1 \<noteq> 25" using assms unat_Suc_u8 [of "sb_count s"] by (auto simp: u8_eq_iff)
  then show ?thesis using assms by (simp add: sbus_byte_def)
qed

lemma sbus_byte_last:
  assumes "sb_state s = IN_FRAME" "unat (sb_count s) = 24"
  shows "sbus_byte b s =
    (let buf = (sb_buf s)[24 := b];
         s' = s\<lparr>sb_buf := buf, sb_count := 0, sb_state := WAIT_START\<rparr> in
     if buf ! 24 = 0 then s'\<lparr>sb_ch := sbus_unpack (drop 1 buf),
          sb_frame_lost := (drop_bit 2 (buf ! 23) AND 0x01 \<noteq> 0),
          sb_failsafe := (drop_bit 3 (buf ! 23) AND 0x01 \<noteq> 0), sb_frame_received := True\<rparr>
     else s')"
proof -
  have "sb_count s = 24" using assms by (simp add: u8_eq_iff)
  then show ?thesis using assms by (cases s) (simp add: sbus_byte_def Let_def)
qed

lemma sbus_byte_inv:
  assumes "sbus_inv s"
  shows "sbus_inv (sbus_byte b s)"
proof (cases "sb_state s")
  case WAIT_START
  then show ?thesis using assms by (auto simp: sbus_inv_def sbus_byte_def)
next
  case IN_FRAME
  then consider "unat (sb_count s) < 24" | "unat (sb_count s) = 24"
    using assms by (force simp: sbus_inv_def)
  then show ?thesis
  proof cases
    case 1
    then show ?thesis
      using assms IN_FRAME unat_Suc_u8 [of "sb_count s"]
      by (simp add: sbus_byte_more sbus_inv_def)
  next
    case 2
    then show ?thesis
      using assms IN_FRAME sbus_unpack_ok
      by (auto simp: sbus_byte_last sbus_inv_def Let_def)
  qed
qed

lemma sbus_update_inv: "sbus_inv s \<Longrightarrow> sbus_inv (sbus_update rx s)"
  by (induction rx arbitrary: s) (simp_all add: sbus_update_def sbus_byte_inv)

section \<open>Whole frames\<close>

lemma sbus_fill:
  assumes "sb_state s = IN_FRAME" "length (sb_buf s) = 25" "unat (sb_count s) + length d \<le> 24"
  shows "fold sbus_byte d s = s\<lparr>sb_buf := take (unat (sb_count s)) (sb_buf s) @ d
           @ drop (unat (sb_count s) + length d) (sb_buf s),
         sb_count := sb_count s + of_nat (length d)\<rparr>"
  using assms
proof (induction d arbitrary: s)
  case Nil
  then show ?case by simp
next
  case (Cons b d)
  let ?n = "unat (sb_count s)"
  have n: "?n < 24" using Cons.prems(3) by simp
  have u: "unat (sb_count s + 1) = Suc ?n" using n by (intro unat_Suc_u8) simp
  let ?s1 = "s\<lparr>sb_buf := (sb_buf s)[?n := b], sb_count := sb_count s + 1\<rparr>"
  have "fold sbus_byte (b # d) s = fold sbus_byte d ?s1"
    by (simp add: sbus_byte_more [OF Cons.prems(1) n])
  also have "\<dots> = ?s1\<lparr>sb_buf := take (Suc ?n) ((sb_buf s)[?n := b]) @ d
      @ drop (Suc ?n + length d) ((sb_buf s)[?n := b]), sb_count := sb_count s + 1 + of_nat (length d)\<rparr>"
    using Cons.prems by (subst Cons.IH) (simp_all add: u)
  also have "take (Suc ?n) ((sb_buf s)[?n := b]) = take ?n (sb_buf s) @ [b]"
    using n Cons.prems(2) by (simp add: take_Suc_conv_app_nth)
  finally show ?case by (simp add: algebra_simps)
qed

text \<open>A 25-byte frame seen from the idle state.\<close>
lemma sbus_frame:
  assumes "sb_state s = WAIT_START" "length (sb_buf s) = 25" "length d = 22"
  shows "sbus_update (0x0F # d @ [flags, end_byte]) s =
    (let s' = s\<lparr>sb_buf := 0x0F # d @ [flags, end_byte], sb_count := 0\<rparr> in
     if end_byte = 0 then
       s'\<lparr>sb_ch := sbus_unpack (d @ [flags, 0]),
          sb_frame_lost := (drop_bit 2 flags AND 1 \<noteq> 0),
          sb_failsafe := (drop_bit 3 flags AND 1 \<noteq> 0), sb_frame_received := True\<rparr>
     else s')"
proof -
  let ?s0 = "s\<lparr>sb_buf := (sb_buf s)[0 := 0x0F], sb_count := 1, sb_state := IN_FRAME\<rparr>"
  let ?s1 = "?s0\<lparr>sb_buf := 0x0F # d @ [flags] @ drop 24 (sb_buf s), sb_count := 24\<rparr>"
  obtain x xs where buf: "sb_buf s = x # xs" using assms(2) by (cases "sb_buf s") auto
  have "sbus_update (0x0F # d @ [flags, end_byte]) s = sbus_byte end_byte (fold sbus_byte (d @ [flags]) ?s0)"
    using assms(1) by (simp add: sbus_update_def sbus_byte_def)
  also have "fold sbus_byte (d @ [flags]) ?s0 = ?s1"
    using assms(2,3) by (subst sbus_fill) (simp_all add: buf)
  also have "sbus_byte end_byte ?s1 = (let s' = s\<lparr>sb_buf := 0x0F # d @ [flags, end_byte], sb_count := 0\<rparr> in
     if end_byte = 0 then
       s'\<lparr>sb_ch := sbus_unpack (d @ [flags, 0]),
          sb_frame_lost := (drop_bit 2 flags AND 1 \<noteq> 0),
          sb_failsafe := (drop_bit 3 flags AND 1 \<noteq> 0), sb_frame_received := True\<rparr>
     else s')"
  proof -
    have d: "drop 24 (sb_buf s) = [last (sb_buf s)]"
      using assms(2) by (metis Suc_eq_plus1 append_butlast_last_id append_eq_conv_conj diff_Suc_1
          eval_nat_numeral(3) length_0_conv length_butlast nat.distinct(1))
    show ?thesis
      using assms by (subst sbus_byte_last) (simp_all add: d nth_append list_update_append Let_def)
  qed
  finally show ?thesis .
qed

section \<open>The transmitter's packing\<close>

text \<open>The wire format: bit m of payload byte i is bit (8i + m) mod 11 of
  channel (8i + m) div 11.\<close>
definition sbus_pack :: "u16 list \<Rightarrow> bytes" where
  "sbus_pack ch = map (\<lambda>i. horner_sum of_bool 2
     (map (\<lambda>m. bit (ch ! ((8 * i + m) div 11)) ((8 * i + m) mod 11)) [0..<8])) [0..<22]"

lemma length_sbus_pack [simp]: "length (sbus_pack ch) = 22"
  by (simp add: sbus_pack_def)

lemma bit_sbus_pack:
  "i < 22 \<Longrightarrow> m < 8 \<Longrightarrow>
     bit (sbus_pack ch ! i) m = bit (ch ! ((8 * i + m) div 11)) ((8 * i + m) mod 11)"
  by (simp add: sbus_pack_def bit_horner_sum_bit_iff)

lemma bit_three_bytes:
  fixes b0 b1 b2 :: u8
  assumes "k < 24"
  shows "bit ((ucast b0 :: u32) OR push_bit 8 (ucast b1) OR push_bit 16 (ucast b2)) k
    = bit ([b0, b1, b2] ! (k div 8)) (k mod 8)"
proof -
  consider "k < 8" | "8 \<le> k" "k < 16" | "16 \<le> k" "k < 24" using assms by linarith
  then show ?thesis
  proof cases
    case 1
    then show ?thesis by (simp add: bit_simps)
  next
    case 2
    then have "k div 8 = 1" "k mod 8 = k - 8" by presburger+
    then show ?thesis using 2 by (auto simp: bit_simps dest: bit_imp_le_length)
  next
    case 3
    then have "k div 8 = 2" "k mod 8 = k - 16" by presburger+
    then show ?thesis using 3 by (auto simp: bit_simps dest: bit_imp_le_length)
  qed
qed

lemma sbus_unpack1_pack:
  assumes "n < 16" "ch ! n < 2048" "length trail = 2"
  shows "sbus_unpack1 (sbus_pack ch @ trail) n = ch ! n"
proof (rule bit_word_eqI)
  fix j assume j: "j < LENGTH(16)"
  define bi sh where "bi = (n * 11) div 8" and "sh = (n * 11) mod 8"
  let ?d = "sbus_pack ch @ trail"
  have pos: "8 * bi + sh = 11 * n" by (simp add: bi_def sh_def)
  have sh: "sh < 8" by (simp add: sh_def)
  have "\<not> bit (ch ! n) j" if "11 \<le> j"
  proof -
    have "take_bit 11 (ch ! n) = ch ! n"
      using assms(2)
      by (simp add: word_unat_eq_iff unsigned_take_bit_eq take_bit_nat_eq_self_iff word_less_nat_alt)
    then show ?thesis by (metis bit_take_bit_iff not_le that)
  qed
  moreover have "bit (?d ! ((8 * bi + sh + j) div 8)) ((sh + j) mod 8) = bit (ch ! n) j" if "j < 11"
  proof -
    define i m where "i = (11 * n + j) div 8" and "m = (11 * n + j) mod 8"
    have eq: "8 * i + m = 11 * n + j" by (simp add: i_def m_def)
    have "i < 22" using assms(1) that unfolding i_def by (intro less_mult_imp_div_less) linarith
    moreover have "(8 * i + m) div 11 = n" "(8 * i + m) mod 11 = j"
      using that unfolding eq by simp_all
    moreover have "(sh + j) mod 8 = m"
      unfolding m_def using pos by (metis add.assoc mod_mult_self4)
    ultimately show ?thesis
      using bit_sbus_pack [of i m ch] by (simp add: nth_append pos m_def flip: i_def)
  qed
  moreover have "[?d ! bi, ?d ! (bi + 1), ?d ! (bi + 2)] ! ((sh + j) div 8)
      = ?d ! ((8 * bi + sh + j) div 8)" if "j < 11"
  proof -
    have "(sh + j) div 8 < 3" using sh that by linarith
    then have "[?d ! bi, ?d ! (bi + 1), ?d ! (bi + 2)] ! ((sh + j) div 8) = ?d ! (bi + (sh + j) div 8)"
      by (auto simp: numeral_3_eq_3 less_Suc_eq)
    then show ?thesis by (simp add: add.assoc)
  qed
  moreover define w :: u32 where "w = ucast (?d ! bi) OR push_bit 8 (ucast (?d ! (bi + 1)))
      OR push_bit 16 (ucast (?d ! (bi + 2)))"
  have "sbus_unpack1 ?d n = ucast (take_bit 11 (drop_bit sh w))"
    by (simp only: sbus_unpack1_def Let_def and_0x7FF bi_def sh_def w_def)
  then have "bit (sbus_unpack1 ?d n) j = (j < 11 \<and> bit w (sh + j))"
    using j by (simp add: bit_take_bit_iff bit_drop_bit_eq bit_ucast_iff)
  moreover have "bit w (sh + j) = bit ([?d ! bi, ?d ! (bi + 1), ?d ! (bi + 2)] ! ((sh + j) div 8))
      ((sh + j) mod 8)" if "j < 11"
    unfolding w_def using sh that by (intro bit_three_bytes) simp
  ultimately show "bit (sbus_unpack1 ?d n) j = bit (ch ! n) j"
    by (cases "j < 11") simp_all
qed

section \<open>Properties\<close>

text \<open>Whatever bytes arrive, in any number and from any reachable state, the parser never
  writes outside its 25-byte buffer, keeps sixteen channels, and every channel it reports is an
  11-bit value.\<close>
theorem sbus_parser_safe:
  "let s = sbus_update rx sbus_new in
     length (sb_buf s) = 25 \<and> length (sb_ch s) = 16
     \<and> (sb_state s = IN_FRAME \<longrightarrow> unat (sb_count s) < 25) \<and> (\<forall>n. sbus_channel s n < 2048)"
  using sbus_update_inv [OF sbus_new_inv, of rx]
  by (auto simp: sbus_inv_def sbus_channel_def Let_def)

lemma sbus_parser_safe_witness:
  "length (sb_buf (sbus_update [0x0F, 1, 2] sbus_new)) = 25 \<and>
   unat (sb_count (sbus_update [0x0F, 1, 2] sbus_new)) < 25"
  using sbus_parser_safe [of "[0x0F, 1, 2]"]
  by (simp add: Let_def sbus_update_def sbus_byte_def sbus_new_def)

text \<open>C33. A frame round trip: sixteen 11-bit channels packed the way the receiver sends them,
  between the start byte and a zero end byte, are decoded to exactly those channels by a parser
  that was waiting for a frame, and the two flags are bits 2 and 3 of the flags byte.\<close>
theorem sbus_frame_roundtrip:
  assumes "sbus_inv s" "sb_state s = WAIT_START" "length ch = 16" "\<forall>c \<in> set ch. c < 2048"
  shows "let s' = sbus_update (0x0F # sbus_pack ch @ [flags, 0]) s in
    sb_ch s' = ch \<and> sb_frame_received s' \<and> sb_state s' = WAIT_START
    \<and> sb_frame_lost s' = bit flags 2 \<and> sb_failsafe s' = bit flags 3"
proof -
  have "sbus_unpack (sbus_pack ch @ [flags, 0]) = ch"
    using assms(3,4) by (intro nth_equalityI) (simp_all add: sbus_unpack_def sbus_unpack1_pack)
  moreover have "(drop_bit n flags AND 1 \<noteq> 0) = bit flags n" for n
    by (simp add: and_one_eq bit_iff_odd_drop_bit mod_2_eq_odd)
  ultimately show ?thesis
    using assms by (simp add: sbus_frame sbus_inv_def Let_def)
qed

lemma sbus_frame_roundtrip_witness:
  "sb_ch (sbus_update (0x0F # sbus_pack (replicate 16 992) @ [4, 0]) sbus_new) = replicate 16 992"
  using sbus_frame_roundtrip [of sbus_new "replicate 16 992" 4] sbus_new_inv
  by (simp add: Let_def sbus_new_def)

end
