(* ===== verification/Radio.thy ===== *)
theory Radio
  imports Flt Sbus
begin

text \<open>
  The channel map of src/src/coms/Radio.cpp: sticks and switches normalised with a centre deadband,
  and the arm switch, read off the SBUS parser's state.
\<close>

definition STICK_DEADBAND :: flt where
  "STICK_DEADBAND = Fin 0.05"

definition norm_axis :: "u16 \<Rightarrow> flt" where
  "norm_axis v =
    (let x = flt_of_int (uint v - 992) / Fin 819 in
     if - STICK_DEADBAND < x \<and> x < STICK_DEADBAND then Fin 0
     else let mag = (fabsf x - STICK_DEADBAND) / (Fin 1 - STICK_DEADBAND) in
          if Fin 0 < x then mag else - mag)"

definition radio_yaw_stick :: "sbus \<Rightarrow> flt" where
  "radio_yaw_stick s = norm_axis (sbus_channel s 0)"

definition radio_vel_tgt :: "sbus \<Rightarrow> flt" where
  "radio_vel_tgt s = - norm_axis (sbus_channel s 1)"

definition radio_height_set :: "sbus \<Rightarrow> flt" where
  "radio_height_set s = norm_axis (sbus_channel s 2)"

definition radio_leanover :: "sbus \<Rightarrow> flt" where
  "radio_leanover s = norm_axis (sbus_channel s 3)"

definition radio_armed :: "sbus \<Rightarrow> bool" where
  "radio_armed s =
    (if sb_frame_lost s \<or> sb_failsafe s then False else sbus_channel s 4 < 992)"

definition radio_mode_sw :: "sbus \<Rightarrow> flt" where
  "radio_mode_sw s = norm_axis (sbus_channel s 6)"

text \<open>The normalisation in closed form over the reals.\<close>
definition axis_real :: "real \<Rightarrow> real" where
  "axis_real x = (if \<bar>x\<bar> < 0.05 then 0 else sgn x * (\<bar>x\<bar> - 0.05) / 0.95)"

lemma norm_axis_eq: "norm_axis v = Fin (axis_real ((of_int (uint v) - 992) / 819))"
proof -
  define x where "x = (real_of_int (uint v) - 992) / 819"
  have "flt_of_int (uint v - 992) / Fin 819 = Fin x" by (simp add: x_def)
  then show ?thesis
    unfolding norm_axis_def x_def [symmetric]
    by (auto simp: axis_real_def STICK_DEADBAND_def abs_if sgn_if field_simps)
qed

lemma axis_real_mono: "x \<le> y \<Longrightarrow> axis_real x \<le> axis_real y"
  by (auto simp: axis_real_def abs_if sgn_if divide_right_mono)

lemma axis_real_abs: "- 1 \<le> x \<Longrightarrow> x \<le> 1 \<Longrightarrow> \<bar>axis_real x\<bar> \<le> 1"
  by (auto simp: axis_real_def abs_if sgn_if field_simps)

lemma axis_real_zero: "axis_real x = 0 \<longleftrightarrow> - 0.05 \<le> x \<and> x \<le> 0.05"
  by (auto simp: axis_real_def abs_if sgn_if field_simps)

section \<open>Properties\<close>

text \<open>Stick normalisation: over the raw range 173 to 1811 the result is finite and within
  [-1, 1], it is zero exactly inside the deadband around the centre value 992, and it never
  decreases with the raw value.\<close>
theorem norm_axis_shape:
  assumes "173 \<le> uint v" "uint v \<le> 1811"
  shows "\<exists>r. norm_axis v = Fin r \<and> \<bar>r\<bar> \<le> 1 \<and> (r = 0 \<longleftrightarrow> \<bar>uint v - 992\<bar> \<le> 40)
    \<and> (\<forall>w r'. uint v \<le> uint w \<and> norm_axis w = Fin r' \<longrightarrow> r \<le> r')"
proof -
  define n where "n = uint v"
  let ?x = "(real_of_int n - 992) / 819"
  have "real_of_int 173 \<le> real_of_int n" "real_of_int n \<le> real_of_int 1811"
    using assms unfolding n_def by (simp_all only: of_int_le_iff)
  then have "\<bar>axis_real ?x\<bar> \<le> 1" by (intro axis_real_abs) simp_all
  moreover have "axis_real ?x = 0 \<longleftrightarrow> \<bar>n - 992\<bar> \<le> 40"
    unfolding axis_real_zero abs_le_iff by (simp add: field_simps) linarith
  moreover have "axis_real ?x \<le> axis_real ((real_of_int (uint w) - 992) / 819)" if "n \<le> uint w" for w :: u16
    using that by (intro axis_real_mono divide_right_mono diff_right_mono) (simp_all only: of_int_le_iff)
  ultimately show ?thesis
    unfolding norm_axis_eq n_def [symmetric] by auto
qed

lemma norm_axis_shape_witness: "\<exists>r. norm_axis 1811 = Fin r \<and> \<bar>r\<bar> \<le> 1 \<and> r \<noteq> 0"
  using norm_axis_shape [of 1811] by auto

lemma no_frame_no_signal:
  "\<not> sb_frame_received s \<longrightarrow> sb_frame_lost s \<and> sb_failsafe s \<Longrightarrow>
   \<not> sb_frame_received (sbus_byte b s) \<longrightarrow> sb_frame_lost (sbus_byte b s) \<and> sb_failsafe (sbus_byte b s)"
  by (auto simp: sbus_byte_def Let_def split: sbus_state.splits)

lemma no_frame_no_signal_update:
  "\<not> sb_frame_received s \<longrightarrow> sb_frame_lost s \<and> sb_failsafe s \<Longrightarrow>
   \<not> sb_frame_received (sbus_update rx s) \<longrightarrow>
     sb_frame_lost (sbus_update rx s) \<and> sb_failsafe (sbus_update rx s)"
  unfolding sbus_update_def by (induction rx arbitrary: s) (simp_all add: no_frame_no_signal)

text \<open>The arm switch cannot read as armed without a live link: starting from power-up, or from
  the moment the watchdog has marked the link stale and the frame flag has been taken, whatever
  bytes come in, armed implies that a complete valid frame was decoded since.\<close>
theorem radio_armed_needs_frame:
  assumes "s0 = sbus_new \<or> s0 = sbus_mark_stale (snd (sbus_take_frame_received s))"
  shows "radio_armed (sbus_update rx s0) \<longrightarrow> fst (sbus_take_frame_received (sbus_update rx s0))"
  using assms no_frame_no_signal_update [of s0 rx]
  by (auto simp: radio_armed_def sbus_take_frame_received_def sbus_mark_stale_def sbus_new_def
      split: if_splits)

lemma radio_armed_needs_frame_witness:
  "radio_armed (sbus_update (0x0F # sbus_pack (replicate 16 200) @ [0, 0]) sbus_new)
   \<and> fst (sbus_take_frame_received (sbus_update (0x0F # sbus_pack (replicate 16 200) @ [0, 0]) sbus_new))"
proof -
  let ?s = "sbus_update (0x0F # sbus_pack (replicate 16 200) @ [0, 0]) sbus_new"
  have "sbus_unpack (sbus_pack (replicate 16 200) @ [0, 0]) = replicate 16 200"
    by (intro nth_equalityI) (simp_all add: sbus_unpack_def sbus_unpack1_pack)
  then have "radio_armed ?s"
    by (simp add: radio_armed_def sbus_channel_def sbus_frame sbus_new_def Let_def)
  then show ?thesis using radio_armed_needs_frame [of sbus_new] by auto
qed

end
