(* ===== verification/Can.thy ===== *)
theory Can
  imports Flt
begin

text \<open>
  The CAN driver of src/src/coms/CAN.cpp: the per-bus device tables, the dispatch of a received
  frame to every handler that matches, the ID scanner, transmission with its counters, the bus-off
  and FIFO-loss edge detection, and the IMX5 inertial unit's frames.  A handler is a value of a type
  the clients choose, run by an interpreter argument; the state the handlers change is theirs.  The
  driver's answer to a transmission is an oracle of the state, indexed by the number of
  transmissions, and every frame handed to the driver is recorded in can_tx.
\<close>

section \<open>Frames\<close>

datatype canbus = CAN_BUS_1 | CAN_BUS_2

text \<open>The identifier word holds 29 bits; a standard identifier is its upper eleven.\<close>
record can_frame =
  fr_xtd :: bool
  fr_rtr :: bool
  fr_id :: u32
  fr_dlc :: u8
  fr_data :: bytes

definition std_sid :: "can_frame \<Rightarrow> u32" where
  "std_sid f = drop_bit 18 (fr_id f) AND 0x7FF"

definition ext_eid :: "can_frame \<Rightarrow> u32" where
  "ext_eid f = fr_id f AND 0x1FFFFFFF"

definition std_id_word :: "u32 \<Rightarrow> u32" where
  "std_id_word sid = push_bit 18 (sid AND 0x7FF)"

section \<open>Tables and counters\<close>

definition MAX_CAN_DEVICES :: nat where "MAX_CAN_DEVICES = 16"
definition CAN_SCAN_MAX :: nat where "CAN_SCAN_MAX = 48"

record 'cb can_device =
  dev_id :: u32
  dev_mask :: u32
  dev_callback :: 'cb

record can_diag =
  dg_total_rx :: u32
  dg_dispatched :: u32
  dg_last_sid :: u32
  dg_last_eid :: u32
  dg_last_eff :: u8
  dg_last_dlc :: u8
  dg_last_data :: bytes
  dg_tx_ok :: u32
  dg_tx_fail :: u32
  dg_tec :: u8
  dg_rec :: u8
  dg_tec_peak :: u8
  dg_rec_peak :: u8
  dg_busoff_count :: u32
  dg_rx_fifo_lost :: u32

definition can_diag_zero :: can_diag where
  "can_diag_zero = \<lparr>dg_total_rx = 0, dg_dispatched = 0, dg_last_sid = 0, dg_last_eid = 0,
     dg_last_eff = 0, dg_last_dlc = 0, dg_last_data = replicate 8 0, dg_tx_ok = 0, dg_tx_fail = 0,
     dg_tec = 0, dg_rec = 0, dg_tec_peak = 0, dg_rec_peak = 0, dg_busoff_count = 0,
     dg_rx_fifo_lost = 0\<rparr>"

record can_scan_entry =
  sc_id :: u32
  sc_count :: u32
  sc_is_ext :: bool

record 'cb can =
  can_table :: "canbus \<Rightarrow> 'cb can_device list"
  can_diags :: "canbus \<Rightarrow> can_diag"
  can_scan_active :: bool
  can_scan :: "can_scan_entry list"
  can_was_busoff :: "canbus \<Rightarrow> bool"
  can_was_fifo_lost :: "canbus \<Rightarrow> bool"
  can_tx :: "(canbus \<times> can_frame) list"
  can_answer :: "nat \<Rightarrow> bool"

definition can_new :: "(nat \<Rightarrow> bool) \<Rightarrow> 'cb can" where
  "can_new ans = \<lparr>can_table = (\<lambda>b. []), can_diags = (\<lambda>b. can_diag_zero), can_scan_active = False,
     can_scan = [], can_was_busoff = (\<lambda>b. False), can_was_fifo_lost = (\<lambda>b. False), can_tx = [],
     can_answer = ans\<rparr>"

definition upd_diag :: "canbus \<Rightarrow> (can_diag \<Rightarrow> can_diag) \<Rightarrow> 'cb can \<Rightarrow> 'cb can" where
  "upd_diag b f c = c\<lparr>can_diags := (can_diags c)(b := f (can_diags c b))\<rparr>"

definition bprl_can_register_ext :: "canbus \<Rightarrow> u32 \<Rightarrow> u32 \<Rightarrow> 'cb \<Rightarrow> 'cb can \<Rightarrow> 'cb can" where
  "bprl_can_register_ext b eid msk cb c =
    (if length (can_table c b) < MAX_CAN_DEVICES then
       c\<lparr>can_table := (can_table c)(b := can_table c b @
           [\<lparr>dev_id = eid, dev_mask = msk, dev_callback = cb\<rparr>])\<rparr>
     else c)"

definition bprl_can_register :: "canbus \<Rightarrow> u32 \<Rightarrow> 'cb \<Rightarrow> 'cb can \<Rightarrow> 'cb can" where
  "bprl_can_register b sid cb c =
    (if length (can_table c b) < MAX_CAN_DEVICES then
       c\<lparr>can_table := (can_table c)(b := can_table c b @
           [\<lparr>dev_id = sid, dev_mask = 0, dev_callback = cb\<rparr>])\<rparr>
     else c)"

section \<open>The ID scanner\<close>

definition can_scan_start :: "'cb can \<Rightarrow> 'cb can" where
  "can_scan_start c = c\<lparr>can_scan := [], can_scan_active := True\<rparr>"

definition can_scan_stop :: "'cb can \<Rightarrow> 'cb can" where
  "can_scan_stop c = c\<lparr>can_scan_active := False\<rparr>"

definition can_scan_get :: "nat \<Rightarrow> 'cb can \<Rightarrow> can_scan_entry list" where
  "can_scan_get mx c =
     take (if length (can_scan c) < mx then length (can_scan c) else mx) (can_scan c)"

text \<open>The loop over the entries stops at the first one with this identifier.\<close>
primrec scan_bump :: "u32 \<Rightarrow> bool \<Rightarrow> can_scan_entry list \<Rightarrow> bool \<times> can_scan_entry list" where
  "scan_bump i ext [] = (False, [])"
| "scan_bump i ext (e # es) =
    (if sc_id e = i \<and> sc_is_ext e = ext then (True, e\<lparr>sc_count := sc_count e + 1\<rparr> # es)
     else let (found, es') = scan_bump i ext es in (found, e # es'))"

definition scan_note :: "u32 \<Rightarrow> bool \<Rightarrow> can_scan_entry list \<Rightarrow> can_scan_entry list" where
  "scan_note i ext es =
    (let (found, es') = scan_bump i ext es in
     if \<not> found \<and> length es' < CAN_SCAN_MAX
     then es' @ [\<lparr>sc_id = i, sc_count = 1, sc_is_ext = ext\<rparr>] else es')"

section \<open>Dispatch\<close>

definition dev_hit :: "bool \<Rightarrow> u32 \<Rightarrow> 'cb can_device \<Rightarrow> bool" where
  "dev_hit is_ext match dev =
    (if dev_mask dev = 0 then \<not> is_ext \<and> dev_id dev = match
     else is_ext \<and> match AND dev_mask dev = dev_id dev AND dev_mask dev)"

primrec dispatch_loop ::
  "('cb \<Rightarrow> can_frame \<Rightarrow> 's \<Rightarrow> 's) \<Rightarrow> bool \<Rightarrow> u32 \<Rightarrow> can_frame \<Rightarrow> 'cb can_device list \<Rightarrow> bool \<times> 's \<Rightarrow> bool \<times> 's"
where
  "dispatch_loop run is_ext match f [] ms = ms"
| "dispatch_loop run is_ext match f (dev # devs) ms =
    dispatch_loop run is_ext match f devs
      (if dev_hit is_ext match dev then (True, run (dev_callback dev) f (snd ms)) else ms)"

definition note_frame :: "can_frame \<Rightarrow> can_diag \<Rightarrow> can_diag" where
  "note_frame f d = d\<lparr>dg_total_rx := dg_total_rx d + 1, dg_last_sid := std_sid f,
     dg_last_eff := (if fr_xtd f then 1 else 0),
     dg_last_eid := (if fr_xtd f then ext_eid f else 0),
     dg_last_dlc := fr_dlc f, dg_last_data := take 8 (fr_data f)\<rparr>"

definition can_dispatch ::
  "('cb \<Rightarrow> can_frame \<Rightarrow> 's \<Rightarrow> 's) \<Rightarrow> canbus \<Rightarrow> can_frame \<Rightarrow> 'cb can \<times> 's \<Rightarrow> 'cb can \<times> 's" where
  "can_dispatch run b f cs =
    (let (c, s) = cs;
         is_ext = fr_xtd f;
         match = (if is_ext then ext_eid f else std_sid f);
         c = upd_diag b (note_frame f) c;
         c = (if b = CAN_BUS_1 \<and> can_scan_active c
              then c\<lparr>can_scan := scan_note match is_ext (can_scan c)\<rparr> else c);
         (matched, s) = dispatch_loop run is_ext match f (can_table c b) (False, s);
         c = (if matched then upd_diag b (\<lambda>d. d\<lparr>dg_dispatched := dg_dispatched d + 1\<rparr>) c else c)
     in (c, s))"

section \<open>Transmission\<close>

definition can_transmit :: "canbus \<Rightarrow> can_frame \<Rightarrow> 'cb can \<Rightarrow> bool \<times> 'cb can" where
  "can_transmit b txf c =
    (let ok = can_answer c (length (can_tx c));
         c = c\<lparr>can_tx := can_tx c @ [(b, txf)]\<rparr>;
         c = (if ok then upd_diag b (\<lambda>d. d\<lparr>dg_tx_ok := dg_tx_ok d + 1\<rparr>) c
              else upd_diag b (\<lambda>d. d\<lparr>dg_tx_fail := dg_tx_fail d + 1\<rparr>) c)
     in (ok, c))"

definition can_send :: "canbus \<Rightarrow> u32 \<Rightarrow> bytes \<Rightarrow> u8 \<Rightarrow> 'cb can \<Rightarrow> bool \<times> 'cb can" where
  "can_send b sid data dlc c =
    (let n = (if dlc > 8 then 8 else dlc);
         txf = \<lparr>fr_xtd = False, fr_rtr = False, fr_id = std_id_word sid, fr_dlc = dlc AND 0xF,
                fr_data = take (unat n) data @ replicate (8 - unat n) 0\<rparr>
     in can_transmit b txf c)"

definition can_send_rtr :: "canbus \<Rightarrow> u32 \<Rightarrow> u8 \<Rightarrow> 'cb can \<Rightarrow> bool \<times> 'cb can" where
  "can_send_rtr b sid dlc c =
    (let txf = \<lparr>fr_xtd = False, fr_rtr = True, fr_id = std_id_word sid, fr_dlc = dlc AND 0xF,
                fr_data = replicate 8 0\<rparr>
     in can_transmit b txf c)"

section \<open>Bus-off and error counters\<close>

definition FDCAN_PSR_BO :: u32 where "FDCAN_PSR_BO = push_bit 7 1"
definition FDCAN_RXF0S_RF0L :: u32 where "FDCAN_RXF0S_RF0L = push_bit 25 1"

text \<open>The arguments are the registers PSR, ECR and RXF0S; the result says whether CCCR.INIT is
  cleared to start the recovery.\<close>
definition can_check_busoff :: "canbus \<Rightarrow> u32 \<Rightarrow> u32 \<Rightarrow> u32 \<Rightarrow> 'cb can \<Rightarrow> bool \<times> 'cb can" where
  "can_check_busoff b psr ecr rxf0 c =
    (let is_busoff = (psr AND FDCAN_PSR_BO \<noteq> 0);
         fifo_lost = (rxf0 AND FDCAN_RXF0S_RF0L \<noteq> 0);
         tec = ucast (ecr AND 0xFF) :: u8;
         rec = ucast (drop_bit 8 (ecr AND 0x7F00)) :: u8;
         c = upd_diag b (\<lambda>d. d\<lparr>dg_tec := tec, dg_rec := rec\<rparr>) c;
         c = (if tec > dg_tec_peak (can_diags c b) then upd_diag b (\<lambda>d. d\<lparr>dg_tec_peak := tec\<rparr>) c else c);
         c = (if rec > dg_rec_peak (can_diags c b) then upd_diag b (\<lambda>d. d\<lparr>dg_rec_peak := rec\<rparr>) c else c);
         c = (if is_busoff \<and> \<not> can_was_busoff c b
              then upd_diag b (\<lambda>d. d\<lparr>dg_busoff_count := dg_busoff_count d + 1\<rparr>) c else c);
         c = c\<lparr>can_was_busoff := (can_was_busoff c)(b := is_busoff)\<rparr>;
         c = (if fifo_lost \<and> \<not> can_was_fifo_lost c b
              then upd_diag b (\<lambda>d. d\<lparr>dg_rx_fifo_lost := dg_rx_fifo_lost d + 1\<rparr>) c else c);
         c = c\<lparr>can_was_fifo_lost := (can_was_fifo_lost c)(b := fifo_lost)\<rparr>
     in (is_busoff, c))"

definition can_get_diag :: "canbus \<Rightarrow> 'cb can \<Rightarrow> can_diag" where
  "can_get_diag b c = can_diags c b"

section \<open>Register dump\<close>

definition can_regs :: "(string \<times> nat) list" where
  "can_regs = [(''CCCR'', 0x018), (''NBTP'', 0x01C), (''RXGFC'', 0x080), (''RXF0C'', 0x0A0),
     (''RXF0S'', 0x0A4), (''RXESC'', 0x1BC), (''PSR'', 0x044), (''ECR'', 0x040)]"

text \<open>The register file is the argument mem, a 32-bit value at every offset.\<close>
definition can_read_regs :: "(nat \<Rightarrow> u32) \<Rightarrow> int \<Rightarrow> (string \<times> u32) list" where
  "can_read_regs mem mx =
    (if mx < 1 then [] else map (\<lambda>(n, off). (n, mem off)) (take (nat mx) can_regs))"

section \<open>The IMX5 inertial unit\<close>

record can_imu =
  ci_q0 :: flt
  ci_q1 :: flt
  ci_q2 :: flt
  ci_q3 :: flt
  ci_has_new_quat :: bool
  ci_p :: flt
  ci_q :: flt
  ci_r :: flt
  ci_ax :: flt
  ci_ay :: flt
  ci_az :: flt
  ci_has_new_rates :: bool
  ci_valid :: bool

definition can_imu_zero :: can_imu where
  "can_imu_zero = \<lparr>ci_q0 = 0, ci_q1 = 0, ci_q2 = 0, ci_q3 = 0, ci_has_new_quat = False,
     ci_p = 0, ci_q = 0, ci_r = 0, ci_ax = 0, ci_ay = 0, ci_az = 0, ci_has_new_rates = False,
     ci_valid = False\<rparr>"

definition le16 :: "bytes \<Rightarrow> nat \<Rightarrow> u16" where
  "le16 d i = ucast (d ! i) OR push_bit 8 (ucast (d ! (i + 1)))"

definition le16s :: "bytes \<Rightarrow> nat \<Rightarrow> flt" where
  "le16s d i = flt_of_int (sint (le16 d i))"

definition imx5_can_cb :: "can_frame \<Rightarrow> can_imu \<Rightarrow> can_imu" where
  "imx5_can_cb f g =
    (let d = fr_data f; sid = std_sid f in
     if sid = 0x01 then
       g\<lparr>ci_q0 := le16s d 0 * (Fin 1 / Fin 10000), ci_q1 := le16s d 2 * (Fin 1 / Fin 10000),
         ci_q2 := le16s d 4 * (Fin 1 / Fin 10000), ci_q3 := le16s d 6 * (Fin 1 / Fin 10000),
         ci_has_new_quat := True, ci_valid := True\<rparr>
     else if sid = 0x02 then
       g\<lparr>ci_p := le16s d 0 * (Fin 1 / Fin 1000), ci_ax := le16s d 2 * (Fin 1 / Fin 100),
         ci_has_new_rates := True, ci_valid := True\<rparr>
     else if sid = 0x03 then
       g\<lparr>ci_q := le16s d 0 * (Fin 1 / Fin 1000), ci_ay := le16s d 2 * (Fin 1 / Fin 100)\<rparr>
     else if sid = 0x04 then
       g\<lparr>ci_r := le16s d 0 * (Fin 1 / Fin 1000), ci_az := le16s d 2 * (Fin 1 / Fin 100)\<rparr>
     else g)"

text \<open>What the driver's initialisation registers: the four IMX5 identifiers on bus 2.\<close>
definition can_drv_init :: "'cb \<Rightarrow> 'cb can \<Rightarrow> 'cb can" where
  "can_drv_init imx5 c =
    (let c = bprl_can_register CAN_BUS_2 0x01 imx5 c;
         c = bprl_can_register CAN_BUS_2 0x02 imx5 c;
         c = bprl_can_register CAN_BUS_2 0x03 imx5 c
     in bprl_can_register CAN_BUS_2 0x04 imx5 c)"

section \<open>Facts on transmission and dispatch\<close>

lemma upd_diag_sel [simp]:
  "can_table (upd_diag b f c) = can_table c" "can_scan (upd_diag b f c) = can_scan c"
  "can_scan_active (upd_diag b f c) = can_scan_active c" "can_tx (upd_diag b f c) = can_tx c"
  "can_answer (upd_diag b f c) = can_answer c" "can_was_busoff (upd_diag b f c) = can_was_busoff c"
  "can_was_fifo_lost (upd_diag b f c) = can_was_fifo_lost c"
  "can_diags (upd_diag b f c) b' = (if b' = b then f (can_diags c b) else can_diags c b')"
  by (simp_all add: upd_diag_def)

lemma can_transmit_sel [simp]:
  "fst (can_transmit b txf c) = can_answer c (length (can_tx c))"
  "can_tx (snd (can_transmit b txf c)) = can_tx c @ [(b, txf)]"
  "can_table (snd (can_transmit b txf c)) = can_table c"
  "can_answer (snd (can_transmit b txf c)) = can_answer c"
  "can_scan (snd (can_transmit b txf c)) = can_scan c"
  by (simp_all add: can_transmit_def Let_def)

text \<open>The frame an eight-byte command puts on the wire.\<close>
definition data_frame :: "u32 \<Rightarrow> bytes \<Rightarrow> can_frame" where
  "data_frame sid data = \<lparr>fr_xtd = False, fr_rtr = False, fr_id = std_id_word sid, fr_dlc = 8,
     fr_data = data\<rparr>"

lemma can_send_8: "length data = 8 \<Longrightarrow> can_send b sid data 8 c = can_transmit b (data_frame sid data) c"
  by (simp add: can_send_def data_frame_def)

lemma std_sid_word: "sid < 2048 \<Longrightarrow> drop_bit 18 (std_id_word sid) AND 0x7FF = sid"
proof -
  assume "sid < 2048"
  then have s: "take_bit 11 sid = sid"
    by (simp add: word_unat_eq_iff unsigned_take_bit_eq take_bit_nat_eq_self_iff word_less_nat_alt)
  have "take_bit 11 (drop_bit 18 (push_bit 18 (take_bit 11 sid))) = take_bit 11 sid"
    by (rule bit_word_eqI) (auto simp: bit_simps)
  then show ?thesis by (simp add: std_id_word_def and_0x7FF s)
qed

lemma std_sid_data_frame: "sid < 2048 \<Longrightarrow> std_sid (data_frame sid data) = sid"
  by (simp add: std_sid_def data_frame_def std_sid_word)

lemma dispatch_loop_eq:
  "dispatch_loop run ext i f devs (m, s) =
    (m \<or> (\<exists>d \<in> set devs. dev_hit ext i d),
     fold (\<lambda>d. run (dev_callback d) f) (filter (dev_hit ext i) devs) s)"
  by (induction devs arbitrary: m s) auto

abbreviation frame_match :: "can_frame \<Rightarrow> u32" where
  "frame_match f \<equiv> (if fr_xtd f then ext_eid f else std_sid f)"

lemma can_dispatch_sel:
  "snd (can_dispatch run b f (c, s)) =
     fold (\<lambda>d. run (dev_callback d) f) (filter (dev_hit (fr_xtd f) (frame_match f)) (can_table c b)) s"
  "can_table (fst (can_dispatch run b f (c, s))) = can_table c"
  "can_tx (fst (can_dispatch run b f (c, s))) = can_tx c"
  "can_answer (fst (can_dispatch run b f (c, s))) = can_answer c"
  "can_scan_active (fst (can_dispatch run b f (c, s))) = can_scan_active c"
  "can_scan (fst (can_dispatch run b f (c, s))) =
     (if b = CAN_BUS_1 \<and> can_scan_active c then scan_note (frame_match f) (fr_xtd f) (can_scan c)
      else can_scan c)"
  by (simp_all add: can_dispatch_def dispatch_loop_eq Let_def)

section \<open>The contract of the handlers\<close>

text \<open>What the driver needs of the code behind its callbacks: running any handler of the table keeps
  the clients' invariant.  Then so does every dispatch, in whatever order frames arrive.\<close>
locale can_handlers =
  fixes run :: "'cb \<Rightarrow> can_frame \<Rightarrow> 's \<Rightarrow> 's"
    and known :: "'cb \<Rightarrow> bool"
    and inv :: "'s \<Rightarrow> bool"
  assumes run_inv: "known cb \<Longrightarrow> inv s \<Longrightarrow> inv (run cb f s)"
begin

definition table_ok :: "'cb can \<Rightarrow> bool" where
  "table_ok c = (\<forall>b. length (can_table c b) \<le> MAX_CAN_DEVICES \<and>
     (\<forall>d \<in> set (can_table c b). known (dev_callback d)))"

lemma table_ok_new: "table_ok (can_new ans)"
  by (simp add: table_ok_def can_new_def)

lemma table_ok_register:
  "table_ok c \<Longrightarrow> known cb \<Longrightarrow> table_ok (bprl_can_register b i cb c)"
  "table_ok c \<Longrightarrow> known cb \<Longrightarrow> table_ok (bprl_can_register_ext b i m cb c)"
  by (auto simp: table_ok_def bprl_can_register_def bprl_can_register_ext_def)

lemma fold_run_inv:
  "\<forall>d \<in> set devs. known (dev_callback d) \<Longrightarrow> inv s \<Longrightarrow> inv (fold (\<lambda>d. run (dev_callback d) f) devs s)"
  by (induction devs arbitrary: s) (simp_all add: run_inv)

lemma dispatch_inv:
  assumes "table_ok c" "inv s"
  shows "table_ok (fst (can_dispatch run b f (c, s))) \<and> inv (snd (can_dispatch run b f (c, s)))"
  using assms by (auto simp: table_ok_def can_dispatch_sel intro!: fold_run_inv)

lemma dispatch_all_inv:
  assumes "table_ok c" "inv s"
  shows "table_ok (fst (fold (\<lambda>(b, f). can_dispatch run b f) fs (c, s))) \<and>
         inv (snd (fold (\<lambda>(b, f). can_dispatch run b f) fs (c, s)))"
  using assms
proof (induction fs arbitrary: c s)
  case Nil
  then show ?case by simp
next
  case (Cons bf fs)
  obtain c' s' where "can_dispatch run (fst bf) (snd bf) (c, s) = (c', s')" by fastforce
  then show ?case using Cons dispatch_inv [of c s "fst bf" "snd bf"] by (simp add: case_prod_beta)
qed

end

text \<open>The IMX5 handler keeps its four quaternion components, rates and accelerations finite.\<close>
definition imu_fin :: "can_imu \<Rightarrow> bool" where
  "imu_fin g = (isfin (ci_q0 g) \<and> isfin (ci_q1 g) \<and> isfin (ci_q2 g) \<and> isfin (ci_q3 g) \<and>
     isfin (ci_p g) \<and> isfin (ci_q g) \<and> isfin (ci_r g) \<and>
     isfin (ci_ax g) \<and> isfin (ci_ay g) \<and> isfin (ci_az g))"

interpretation imx5: can_handlers "\<lambda>(u :: unit). imx5_can_cb" "\<lambda>_. True" imu_fin
  by unfold_locales (auto simp: imu_fin_def imx5_can_cb_def le16s_def Let_def)

section \<open>Properties\<close>

text \<open>C10. Dispatch runs exactly the registered handlers of that bus whose entry matches the frame,
  each once and in registration order: a standard frame matches the entries without a mask that
  name its identifier, an extended frame the masked ones that agree with it under the mask.  The
  frame counter goes up by one, the dispatch counter by one exactly if some handler ran.\<close>
theorem can_dispatch_runs_matching:
  shows "snd (can_dispatch run b f (c, s)) = fold (\<lambda>d. run (dev_callback d) f)
      (filter (\<lambda>d. if fr_xtd f
          then dev_mask d \<noteq> 0 \<and> ext_eid f AND dev_mask d = dev_id d AND dev_mask d
          else dev_mask d = 0 \<and> dev_id d = std_sid f) (can_table c b)) s
    \<and> dg_total_rx (can_diags (fst (can_dispatch run b f (c, s))) b) = dg_total_rx (can_diags c b) + 1
    \<and> dg_dispatched (can_diags (fst (can_dispatch run b f (c, s))) b) = dg_dispatched (can_diags c b)
        + (if \<exists>d \<in> set (can_table c b). dev_hit (fr_xtd f) (frame_match f) d then 1 else 0)"
proof -
  have "filter (dev_hit (fr_xtd f) (frame_match f)) (can_table c b) = filter (\<lambda>d. if fr_xtd f
          then dev_mask d \<noteq> 0 \<and> ext_eid f AND dev_mask d = dev_id d AND dev_mask d
          else dev_mask d = 0 \<and> dev_id d = std_sid f) (can_table c b)"
    by (intro filter_cong) (auto simp: dev_hit_def)
  moreover have "dg_total_rx (can_diags (fst (can_dispatch run b f (c, s))) b) = dg_total_rx (can_diags c b) + 1"
    "dg_dispatched (can_diags (fst (can_dispatch run b f (c, s))) b) = dg_dispatched (can_diags c b)
        + (if \<exists>d \<in> set (can_table c b). dev_hit (fr_xtd f) (frame_match f) d then 1 else 0)"
    by (auto simp: can_dispatch_def dispatch_loop_eq Let_def note_frame_def)
  ultimately show ?thesis by (simp only: can_dispatch_sel(1))
qed

lemma can_dispatch_runs_matching_witness:
  "snd (can_dispatch (\<lambda>cb f s. s @ [cb]) CAN_BUS_1 (data_frame 0x141 (replicate 8 0))
     (bprl_can_register CAN_BUS_1 0x141 (2::nat) (bprl_can_register CAN_BUS_1 0x141 1
       (bprl_can_register CAN_BUS_1 0x142 0 (can_new (\<lambda>_. True)))), [])) = [1, 2]"
  using std_sid_data_frame [of "0x141" "replicate 8 0"]
  by (subst can_dispatch_runs_matching [THEN conjunct1])
    (simp add: bprl_can_register_def can_new_def MAX_CAN_DEVICES_def data_frame_def)

definition scan_key :: "can_frame \<Rightarrow> u32 \<times> bool" where
  "scan_key f = (frame_match f, fr_xtd f)"

definition entry_key :: "can_scan_entry \<Rightarrow> u32 \<times> bool" where
  "entry_key e = (sc_id e, sc_is_ext e)"

definition bump_key :: "u32 \<times> bool \<Rightarrow> can_scan_entry \<Rightarrow> can_scan_entry" where
  "bump_key k e = (if entry_key e = k then e\<lparr>sc_count := sc_count e + 1\<rparr> else e)"

definition seen :: "can_frame list \<Rightarrow> u32 \<times> bool \<Rightarrow> u32" where
  "seen fs k = of_nat (length (filter (\<lambda>f. scan_key f = k) fs))"

lemma entry_key_bump [simp]: "entry_key (bump_key k e) = entry_key e"
  by (simp add: bump_key_def entry_key_def)

lemma entry_key_comp_bump [simp]: "entry_key \<circ> bump_key k = entry_key"
  by (simp add: fun_eq_iff)

lemma bump_key_hit: "entry_key e = k \<Longrightarrow> bump_key k e = e\<lparr>sc_count := sc_count e + 1\<rparr>"
  and bump_key_miss: "entry_key e \<noteq> k \<Longrightarrow> bump_key k e = e"
  by (simp_all add: bump_key_def)

lemma entry_key_iff: "(sc_id e = i \<and> sc_is_ext e = x) = (entry_key e = (i, x))"
  by (simp add: entry_key_def)

lemma seen_snoc: "seen (fs @ [f]) k = (if scan_key f = k then seen fs k + 1 else seen fs k)"
  by (simp add: seen_def)

lemma seen_none: "k \<notin> scan_key ` set fs \<Longrightarrow> seen fs k = 0"
proof -
  assume "k \<notin> scan_key ` set fs"
  then have none: "filter (\<lambda>f. scan_key f = k) fs = []" by (auto simp: filter_empty_conv)
  show ?thesis unfolding seen_def none by simp
qed

text \<open>What the scan list says of the frames seen since the scan started.\<close>
definition scan_inv :: "can_frame list \<Rightarrow> can_scan_entry list \<Rightarrow> bool" where
  "scan_inv fs es = (length es \<le> CAN_SCAN_MAX \<and> distinct (map entry_key es) \<and>
     (\<forall>e \<in> set es. sc_count e = seen fs (entry_key e)) \<and>
     (length es < CAN_SCAN_MAX \<longrightarrow> scan_key ` set fs \<subseteq> entry_key ` set es) \<and>
     entry_key ` set es \<subseteq> scan_key ` set fs)"

lemma scan_bump_eq:
  "distinct (map entry_key es) \<Longrightarrow> scan_bump i x es =
    ((i, x) \<in> entry_key ` set es, map (bump_key (i, x)) es)"
proof (induction es)
  case Nil
  then show ?case by simp
next
  case (Cons e es)
  show ?case
  proof (cases "entry_key e = (i, x)")
    case True
    then have "\<forall>e' \<in> set es. entry_key e' \<noteq> (i, x)"
      using Cons.prems by (metis distinct.simps(2) image_eqI list.set_map list.simps(9))
    then have "map (bump_key (i, x)) es = es" by (intro map_idI) (simp add: bump_key_miss)
    then show ?thesis using True by (simp add: entry_key_iff bump_key_hit)
  next
    case False
    then have "(i, x) \<in> entry_key ` set (e # es) \<longleftrightarrow> (i, x) \<in> entry_key ` set es" by auto
    then show ?thesis using Cons False by (simp add: entry_key_iff bump_key_miss)
  qed
qed

lemma scan_note_eq:
  assumes "distinct (map entry_key es)"
  shows "scan_note (frame_match f) (fr_xtd f) es =
    (if scan_key f \<in> entry_key ` set es then map (bump_key (scan_key f)) es
     else if length es < CAN_SCAN_MAX
     then es @ [\<lparr>sc_id = frame_match f, sc_count = 1, sc_is_ext = fr_xtd f\<rparr>] else es)"
proof -
  have "scan_key f \<notin> entry_key ` set es \<Longrightarrow> map (bump_key (scan_key f)) es = es"
    by (intro map_idI bump_key_miss) (metis imageI)
  then show ?thesis
    using scan_bump_eq [OF assms, of "frame_match f" "fr_xtd f"]
    by (simp add: scan_note_def flip: scan_key_def)
qed

lemma scan_note_inv:
  assumes "scan_inv fs es"
  shows "scan_inv (fs @ [f]) (scan_note (frame_match f) (fr_xtd f) es)"
proof -
  let ?new = "\<lparr>sc_id = frame_match f, sc_count = 1, sc_is_ext = fr_xtd f\<rparr> :: can_scan_entry"
  have d: "distinct (map entry_key es)" using assms by (simp add: scan_inv_def)
  have new: "entry_key ?new = scan_key f" by (simp add: entry_key_def scan_key_def)
  consider (old) "scan_key f \<in> entry_key ` set es"
    | (room) "scan_key f \<notin> entry_key ` set es" "length es < CAN_SCAN_MAX"
    | (full) "scan_key f \<notin> entry_key ` set es" "\<not> length es < CAN_SCAN_MAX" by blast
  then show ?thesis
  proof cases
    case old
    have "entry_key ` set (map (bump_key (scan_key f)) es) = entry_key ` set es"
      by (simp add: image_image)
    moreover have "map entry_key (map (bump_key (scan_key f)) es) = map entry_key es" by simp
    moreover have "sc_count (bump_key (scan_key f) e) = seen (fs @ [f]) (entry_key e)" if "e \<in> set es" for e
      using assms that by (simp add: scan_inv_def seen_snoc bump_key_def)
    ultimately show ?thesis
      using assms old d unfolding scan_note_eq [OF d] scan_inv_def by auto
  next
    case room
    then have z: "seen fs (scan_key f) = 0" using assms by (intro seen_none) (auto simp: scan_inv_def)
    have "seen (fs @ [f]) (entry_key e) = seen fs (entry_key e)" if "e \<in> set es" for e
      using that room by (auto simp: seen_snoc)
    then show ?thesis
      using assms room d z unfolding scan_note_eq [OF d] scan_inv_def
      by (auto simp: new seen_snoc)
  next
    case full
    have "seen (fs @ [f]) (entry_key e) = seen fs (entry_key e)" if "e \<in> set es" for e
      using that full by (auto simp: seen_snoc)
    then show ?thesis
      using assms full d unfolding scan_note_eq [OF d] scan_inv_def by auto
  qed
qed

lemma scan_run_inv:
  assumes "can_scan_active c" "scan_inv fs0 (can_scan c)"
  shows "scan_inv (fs0 @ fs) (can_scan (fst (fold (can_dispatch run CAN_BUS_1) fs (c, s))))"
  using assms
proof (induction fs arbitrary: c s fs0)
  case Nil
  then show ?case by simp
next
  case (Cons f fs)
  obtain c' s' where cs: "can_dispatch run CAN_BUS_1 f (c, s) = (c', s')" by fastforce
  have "can_scan_active c'" "can_scan c' = scan_note (frame_match f) (fr_xtd f) (can_scan c)"
    using can_dispatch_sel(5,6) [of run CAN_BUS_1 f c s] Cons.prems(1) by (simp_all add: cs)
  moreover have "scan_inv (fs0 @ [f]) (can_scan c')"
    using scan_note_inv [OF Cons.prems(2)] calculation by simp
  ultimately show ?case using Cons.IH [of c' "fs0 @ [f]" s'] by (simp add: cs)
qed

text \<open>The ID scanner, started and then fed any frames on bus 1: it lists at most 48 identifiers
  and each only once, every listed one was really seen, its counter is the number of frames that
  carried it (modulo 2^32), and as long as the list is not full no identifier is missing.\<close>
theorem can_scan_exact:
  "let es = can_scan_get 48 (fst (fold (can_dispatch run CAN_BUS_1) fs (can_scan_start c, s))) in
     length es \<le> 48 \<and> distinct (map entry_key es) \<and> entry_key ` set es \<subseteq> scan_key ` set fs
     \<and> (\<forall>e \<in> set es. sc_count e = of_nat (length (filter (\<lambda>f. scan_key f = entry_key e) fs)))
     \<and> (length es < 48 \<longrightarrow> scan_key ` set fs \<subseteq> entry_key ` set es)"
proof -
  let ?es = "can_scan (fst (fold (can_dispatch run CAN_BUS_1) fs (can_scan_start c, s)))"
  have inv: "scan_inv fs ?es"
    using scan_run_inv [of "can_scan_start c" "[]"] by (simp add: can_scan_start_def scan_inv_def)
  then have "can_scan_get 48 (fst (fold (can_dispatch run CAN_BUS_1) fs (can_scan_start c, s))) = ?es"
    by (simp add: can_scan_get_def scan_inv_def CAN_SCAN_MAX_def)
  then show ?thesis using inv by (simp add: scan_inv_def CAN_SCAN_MAX_def seen_def Let_def)
qed

lemma can_scan_exact_witness:
  "map sc_count (can_scan_get 48 (fst (fold (can_dispatch (\<lambda>_ _ u. u) CAN_BUS_1)
      [data_frame 1 (replicate 8 0), data_frame 2 (replicate 8 0), data_frame 1 (replicate 8 0)]
      (can_scan_start (can_new (\<lambda>_. True) :: unit can), ())))) = [2, 1]"
  using can_scan_exact [of "\<lambda>_ _ u. u" "[data_frame 1 (replicate 8 0), data_frame 2 (replicate 8 0),
      data_frame 1 (replicate 8 0)]" "can_new (\<lambda>_. True) :: unit can" "()"]
  by (simp add: can_scan_get_def can_dispatch_def can_scan_start_def can_new_def upd_diag_def
      scan_note_def std_sid_data_frame data_frame_def std_sid_def std_sid_word
      CAN_SCAN_MAX_def Let_def)

end
