(* ===== verification/Float32.thy ===== *)
theory Float32
  imports Flt
begin

text \<open>
  The 32-bit pattern of a float, for the places where the firmware copies its bytes: motor frames,
  the log and the calibration page.  Decoding follows IEEE 754 binary32; encoding rounds to the
  nearest representable number, ties to the even one, and overflows to an infinity.
\<close>

definition f32_sign :: "u32 \<Rightarrow> bool" where
  "f32_sign w = (unat w \<ge> 2147483648)"

definition f32_mag :: "nat \<Rightarrow> flt" where
  "f32_mag n = (let e = n div 8388608; m = n mod 8388608 in
     if e = 255 then (if m = 0 then PInf else NaN)
     else if e = 0 then Fin (real m / 2 ^ 149)
     else Fin (real (8388608 + m) * 2 ^ e / 2 ^ 150))"

definition f32_of_bits :: "u32 \<Rightarrow> flt" where
  "f32_of_bits w = (let a = f32_mag (unat w mod 2147483648) in if f32_sign w then - a else a)"

text \<open>The biased exponent of a positive number: how many of 2 ^ (e - 127) for e from 1 to
  254 it reaches.\<close>
definition f32_exp :: "real \<Rightarrow> nat" where
  "f32_exp x = length (takeWhile (\<lambda>e. 2 ^ e / 2 ^ 127 \<le> x) [1..<255])"

definition round_even :: "real \<Rightarrow> int" where
  "round_even x = (let n = \<lfloor>x\<rfloor>; r = x - of_int n in
     if r < 1/2 then n else if 1/2 < r then n + 1 else if even n then n else n + 1)"

definition f32_mag_bits :: "real \<Rightarrow> nat" where
  "f32_mag_bits x = (let e = max (f32_exp x) 1;
      n = (e - 1) * 8388608 + nat (round_even (x * 2 ^ 150 / 2 ^ e))
    in min n (255 * 8388608))"

definition f32_bits :: "flt \<Rightarrow> u32" where
  "f32_bits a = (case a of
      Fin x \<Rightarrow> if x < 0 then of_nat (2147483648 + f32_mag_bits (- x)) else of_nat (f32_mag_bits x)
    | PInf \<Rightarrow> 0x7F800000 | NInf \<Rightarrow> 0xFF800000 | NaN \<Rightarrow> 0x7FC00000)"

section \<open>Little-endian bytes\<close>

definition le_bytes16 :: "u16 \<Rightarrow> bytes" where
  "le_bytes16 w = [ucast (w AND 0xFF), ucast (drop_bit 8 w AND 0xFF)]"

definition le_bytes32 :: "u32 \<Rightarrow> bytes" where
  "le_bytes32 w = [ucast (w AND 0xFF), ucast (drop_bit 8 w AND 0xFF),
     ucast (drop_bit 16 w AND 0xFF), ucast (drop_bit 24 w AND 0xFF)]"

definition le_word32 :: "bytes \<Rightarrow> nat \<Rightarrow> u32" where
  "le_word32 d i = ucast (d ! i) OR push_bit 8 (ucast (d ! (i + 1)))
     OR push_bit 16 (ucast (d ! (i + 2))) OR push_bit 24 (ucast (d ! (i + 3)))"

definition f32_bytes :: "flt \<Rightarrow> bytes" where
  "f32_bytes a = le_bytes32 (f32_bits a)"

definition f32_read :: "bytes \<Rightarrow> nat \<Rightarrow> flt" where
  "f32_read d i = f32_of_bits (le_word32 d i)"

lemma length_le_bytes [simp]: "length (le_bytes16 w) = 2" "length (le_bytes32 v) = 4"
  "length (f32_bytes a) = 4"
  by (simp_all add: le_bytes16_def le_bytes32_def f32_bytes_def)

lemma and_0xFF: "(x :: 16 word) AND 0xFF = take_bit 8 x" "(y :: 32 word) AND 0xFF = take_bit 8 y"
  by (simp_all add: take_bit_eq_mask mask_eq_exp_minus_1)

lemma bit_le_word32:
  assumes "j < 32"
  shows "bit (le_word32 [b0, b1, b2, b3] 0) j = bit ([b0, b1, b2, b3] ! (j div 8)) (j mod 8)"
proof -
  consider "j < 8" | "8 \<le> j" "j < 16" | "16 \<le> j" "j < 24" | "24 \<le> j" "j < 32" using assms by linarith
  then show ?thesis
  proof cases
    case 1
    then show ?thesis by (simp add: le_word32_def bit_simps)
  next
    case 2
    then have "j div 8 = 1" "j mod 8 = j - 8" by presburger+
    then show ?thesis using 2 by (auto simp: le_word32_def bit_simps dest: bit_imp_le_length)
  next
    case 3
    then have "j div 8 = 2" "j mod 8 = j - 16" by presburger+
    then show ?thesis using 3 by (auto simp: le_word32_def bit_simps dest: bit_imp_le_length)
  next
    case 4
    then have "j div 8 = 3" "j mod 8 = j - 24" by presburger+
    then show ?thesis using 4 by (auto simp: le_word32_def bit_simps dest: bit_imp_le_length)
  qed
qed

lemma le_word32_bytes: "le_word32 (le_bytes32 w) 0 = w"
proof (rule bit_word_eqI)
  fix j assume "j < LENGTH(32)"
  then have j: "j < 32" by simp
  then consider "j < 8" | "8 \<le> j" "j < 16" | "16 \<le> j" "j < 24" | "24 \<le> j" by linarith
  then show "bit (le_word32 (le_bytes32 w) 0) j = bit w j"
  proof cases
    case 1
    then show ?thesis using j by (simp add: le_bytes32_def bit_le_word32 and_0xFF bit_simps)
  next
    case 2
    then have "j div 8 = 1" "j mod 8 = j - 8" by presburger+
    then show ?thesis using 2 by (auto simp: less_diff_conv2 le_bytes32_def bit_le_word32 and_0xFF bit_simps)
  next
    case 3
    then have "j div 8 = 2" "j mod 8 = j - 16" by presburger+
    then show ?thesis using 3 by (auto simp: less_diff_conv2 le_bytes32_def bit_le_word32 and_0xFF bit_simps)
  next
    case 4
    then have "j div 8 = 3" "j mod 8 = j - 24" using j by presburger+
    then show ?thesis using 4 j by (auto simp: less_diff_conv2 le_bytes32_def bit_le_word32 and_0xFF bit_simps)
  qed
qed

lemma le_word32_shift: "le_word32 (xs @ ys) (length xs) = le_word32 ys 0" if "4 \<le> length ys"
  using that by (simp add: le_word32_def nth_append numeral_eq_Suc)

section \<open>Encoding inverts decoding\<close>

lemma takeWhile_upt_length:
  assumes "e \<le> 254" "\<And>k. 1 \<le> k \<Longrightarrow> k \<le> e \<Longrightarrow> P k" "\<not> P (Suc e)"
  shows "length (takeWhile P [1..<255]) = e"
proof -
  have "[1..<255] = [1..<Suc e] @ [Suc e..<255]"
    using assms(1) upt_add_eq_append [of 1 "Suc e" "254 - e"] by simp
  moreover have "takeWhile P [Suc e..<255] = []"
    using assms(3) by (cases "Suc e < 255") (simp_all add: upt_rec)
  moreover have "takeWhile P ([1..<Suc e] @ [Suc e..<255]) = [1..<Suc e] @ takeWhile P [Suc e..<255]"
    by (rule takeWhile_append2) (use assms(2) in auto)
  ultimately have "takeWhile P [1..<255] = [1..<Suc e]" by simp
  then show ?thesis by simp
qed

lemma round_even_of_nat [simp]: "round_even (real n) = int n"
  by (simp add: round_even_def)

lemma pow_split: "(2::real) ^ 150 = 2 ^ 23 * 2 ^ 127" "(2::real) ^ 150 = 2 * 2 ^ 149"
  by (simp_all flip: power_add power_Suc)

lemma f32_mag_bits_inv:
  assumes "f32_mag n = Fin x" "n < 2147483648"
  shows "f32_mag_bits x = n \<and> 0 \<le> x"
proof -
  define e m where "e = n div 8388608" and "m = n mod 8388608"
  define E M where "E = max e 1" and "M = (if e = 0 then m else 8388608 + m)"
  have n: "n = e * 8388608 + m" "m < 8388608" by (simp_all add: e_def m_def)
  have e255: "e < 255"
    using assms by (auto simp: f32_mag_def Let_def e_def m_def split: if_splits)
  have x: "x = real M * 2 ^ E / 2 ^ 150"
    using assms(1) e255
    by (cases "e = 0"; cases "e = 1") (simp_all add: f32_mag_def Let_def E_def M_def pow_split(2)
        max_def flip: e_def m_def)
  have "length (takeWhile (\<lambda>k. 2 ^ k / 2 ^ 127 \<le> x) [1..<255]) = e"
  proof (rule takeWhile_upt_length)
    fix k :: nat assume k: "1 \<le> k" "k \<le> e"
    then have "(2::real) ^ k \<le> 2 ^ E" by (intro power_increasing) (auto simp: E_def)
    moreover have "(2::real) ^ 23 \<le> real M" using k by (simp add: M_def)
    ultimately have "2 ^ 23 * 2 ^ k \<le> real M * 2 ^ E" by (intro mult_mono) auto
    then show "2 ^ k / 2 ^ 127 \<le> x" unfolding x pow_split(1) by (simp add: field_simps)
  next
    have "real M * 2 ^ E < 2 ^ 23 * 2 ^ Suc e"
      using n(2) by (cases "e = 0") (simp_all add: M_def E_def)
    then show "\<not> 2 ^ Suc e / 2 ^ 127 \<le> x" unfolding x pow_split(1) by (simp add: field_simps)
  qed (use e255 in simp)
  then have fe: "f32_exp x = e" by (simp add: f32_exp_def)
  have "x * 2 ^ 150 / 2 ^ E = real M" by (simp add: x)
  then have "f32_mag_bits x = min ((E - 1) * 8388608 + M) (255 * 8388608)"
    by (simp only: f32_mag_bits_def fe Let_def E_def [symmetric] round_even_of_nat nat_int)
  also have "(E - 1) * 8388608 + M = n"
    using n by (cases e) (simp_all add: E_def M_def)
  also have "min n (255 * 8388608) = n" using n e255 by simp
  finally show ?thesis by (simp add: x)
qed

lemma f32_of_bits_of_nat:
  "n < 2147483648 \<Longrightarrow> f32_of_bits (of_nat n) = f32_mag n"
  "n < 2147483648 \<Longrightarrow> f32_of_bits (of_nat (2147483648 + n)) = - f32_mag n"
  by (simp_all add: f32_of_bits_def f32_sign_def unat_of_nat_u32 flip: of_nat_add)

text \<open>A value that came out of 32 bits survives encoding: sending or storing it loses nothing.\<close>
lemma f32_roundtrip: "f32_of_bits (f32_bits (f32_of_bits w)) = f32_of_bits w"
proof -
  define n where "n = unat w mod 2147483648"
  have n: "n < 2147483648" by (simp add: n_def)
  have special: "f32_mag 0x7F800000 = PInf" "f32_mag 0x7FC00000 = NaN" "f32_mag 0 = Fin 0"
    by (simp_all add: f32_mag_def)
  have inf: "f32_of_bits 0x7F800000 = PInf" "f32_of_bits 0xFF800000 = NInf" "f32_of_bits 0x7FC00000 = NaN"
    by (simp_all add: f32_of_bits_def f32_sign_def special)
  have w: "f32_of_bits w = (if f32_sign w then - f32_mag n else f32_mag n)"
    by (simp add: f32_of_bits_def n_def Let_def)
  show ?thesis
  proof (cases "f32_mag n")
    case (Fin x)
    then have x: "f32_mag_bits x = n" "0 \<le> x" using f32_mag_bits_inv n by blast+
    show ?thesis
    proof (cases "f32_sign w \<and> 0 < x")
      case True
      then show ?thesis using Fin x n by (simp add: w f32_bits_def f32_of_bits_of_nat(2) del: of_nat_add)
    next
      case False
      then have "f32_of_bits w = Fin x" using Fin x by (auto simp: w)
      then show ?thesis using x Fin n by (simp add: f32_bits_def f32_of_bits_of_nat(1))
    qed
  qed (simp_all add: w f32_bits_def inf)
qed

end
