(* ===== verification/CanPower.thy ===== *)
theory CanPower
  imports Can Float32
begin

text \<open>
  The power monitor's receiver of src/src/coms/CANPower.cpp: two consecutive frames of a DroneCAN
  BatteryInfo transfer are joined to a voltage and a current in half precision.
\<close>

record power_mon =
  pw_voltage_V :: flt
  pw_current_A :: flt
  pw_node_id :: u8
  pw_valid :: bool

text \<open>The published reading and the transfer being joined.\<close>
record power_rx =
  px_power :: power_mon
  px_pending_valid :: bool
  px_pending_node_id :: u8
  px_pending_tid :: u8
  px_pending_toggle :: bool
  px_pending_volt_raw :: u16
  px_pending_curr_lo :: u8

definition power_rx_new :: power_rx where
  "power_rx_new = \<lparr>px_power = \<lparr>pw_voltage_V = NaN, pw_current_A = NaN, pw_node_id = 0, pw_valid = False\<rparr>,
     px_pending_valid = False, px_pending_node_id = 0, px_pending_tid = 0, px_pending_toggle = False,
     px_pending_volt_raw = 0, px_pending_curr_lo = 0\<rparr>"

definition f16_to_f32 :: "u16 \<Rightarrow> flt" where
  "f16_to_f32 h =
    (let s = ucast (drop_bit 15 h) AND 1 :: u32;
         e = ucast (drop_bit 10 h) AND 0x1F :: u32;
         m = ucast h AND 0x3FF :: u32
     in if e = 31 then f32_of_bits 0x7FC00000
        else if e = 0 then Fin 0
        else f32_of_bits (push_bit 31 s OR push_bit 23 (e + 112) OR push_bit 13 m))"

definition battery_info_cb :: "can_frame \<Rightarrow> power_rx \<Rightarrow> power_rx" where
  "battery_info_cb f p =
    (if fr_dlc f < 8 then p
     else let tail = fr_data f ! 7;
              sot = (tail AND 0x80 \<noteq> 0);
              toggle = (tail AND 0x20 \<noteq> 0);
              tid = tail AND 0x1F;
              node_id = ucast (ext_eid f AND 0x7F) :: u8
       in if sot then
            p\<lparr>px_pending_valid := True, px_pending_node_id := node_id, px_pending_tid := tid,
              px_pending_toggle := (\<not> toggle),
              px_pending_volt_raw := ucast (fr_data f ! 4) OR push_bit 8 (ucast (fr_data f ! 5)),
              px_pending_curr_lo := fr_data f ! 6\<rparr>
          else if \<not> px_pending_valid p \<or> node_id \<noteq> px_pending_node_id p \<or> tid \<noteq> px_pending_tid p
                  \<or> toggle \<noteq> px_pending_toggle p then p
          else let p = p\<lparr>px_pending_valid := False\<rparr>;
                   curr_raw = ucast (px_pending_curr_lo p) OR push_bit 8 (ucast (fr_data f ! 0)) :: u16
               in p\<lparr>px_power := \<lparr>pw_voltage_V = f16_to_f32 (px_pending_volt_raw p),
                     pw_current_A = f16_to_f32 curr_raw, pw_node_id = node_id, pw_valid = True\<rparr>\<rparr>)"

definition power_mon_init :: "'cb \<Rightarrow> 'cb can \<Rightarrow> 'cb can" where
  "power_mon_init matek c = bprl_can_register_ext CAN_BUS_2 0x00044400 0x00FFFF80 matek c"

text \<open>The half-precision number of sign s, biased exponent e and mantissa m.\<close>
definition f16_value :: "nat \<Rightarrow> nat \<Rightarrow> nat \<Rightarrow> real" where
  "f16_value s e m = (if s = 0 then 1 else - 1) * (1 + real m / 1024) * 2 ^ e / 2 ^ 15"

lemma and_masks: "(x :: u32) AND 1 = take_bit 1 x" "x AND 0x1F = take_bit 5 x" "x AND 0x3FF = take_bit 10 x"
  by (simp_all add: take_bit_eq_mask mask_eq_exp_minus_1)

lemma take_bit_self: "unat (x :: u32) < 2 ^ n \<Longrightarrow> take_bit n x = x"
  by (simp add: word_unat_eq_iff unsigned_take_bit_eq take_bit_nat_eq_self_iff)

lemma unat_push: "unat (x :: u32) < 2 ^ k \<Longrightarrow> k + n \<le> 32 \<Longrightarrow> unat (push_bit n x) = unat x * 2 ^ n"
proof -
  assume x: "unat x < 2 ^ k" and k: "k + n \<le> 32"
  have "unat x * 2 ^ n < 2 ^ k * 2 ^ n" using x by simp
  also have "\<dots> \<le> 2 ^ 32" unfolding power_add [symmetric] using k by (intro power_increasing) auto
  finally have "unat x * 2 ^ n < 2 ^ LENGTH(32)" by simp
  then have "take_bit LENGTH(32) (unat x * 2 ^ n) = unat x * 2 ^ n"
    by (simp add: take_bit_nat_eq_self_iff)
  moreover have "unat (push_bit n x) = take_bit LENGTH(32) (push_bit n (unat x))"
    by (rule unsigned_push_bit_eq)
  ultimately show ?thesis by (simp only: push_bit_eq_mult)
qed

text \<open>Sign, exponent and mantissa packed into 32 bits.\<close>
lemma unat_pack:
  fixes s e m :: u32
  assumes "unat s < 2" "unat e < 256" "unat m < 1024"
  shows "unat (push_bit 31 s OR push_bit 23 e OR push_bit 13 m)
    = unat s * 2147483648 + unat e * 8388608 + unat m * 8192"
proof -
  have bits: "take_bit 1 s = s" "take_bit 8 e = e" "take_bit 10 m = m"
    using take_bit_self [of s 1] take_bit_self [of e 8] take_bit_self [of m 10] assms by simp_all
  have d1: "push_bit 31 (take_bit 1 s) AND push_bit 23 (take_bit 8 e) = 0"
    and d2: "(push_bit 31 (take_bit 1 s) OR push_bit 23 (take_bit 8 e)) AND push_bit 13 (take_bit 10 m) = 0"
    by (rule bit_word_eqI; auto simp: bit_simps)+
  have p: "unat (push_bit 31 s) = unat s * 2147483648" "unat (push_bit 23 e) = unat e * 8388608"
    "unat (push_bit 13 m) = unat m * 8192"
    using unat_push [of s 1 31] unat_push [of e 8 23] unat_push [of m 10 13] assms by simp_all
  have "push_bit 31 s OR push_bit 23 e OR push_bit 13 m = push_bit 31 s + push_bit 23 e + push_bit 13 m"
    using disjunctive_add_eq_or [OF d1] disjunctive_add_eq_or [OF d2]
    unfolding bits by (simp only: or.assoc)
  then show ?thesis using p assms by (simp add: unat_word_ariths)
qed

lemma f16_exponent_field:
  assumes "e < 32" "m < (1024::nat)"
  shows "(s * 32768 + e * 1024 + m) div 1024 mod 32 = e"
proof -
  have "s * 32768 + e * 1024 + m = m + 1024 * (e + 32 * s)" by simp
  then show ?thesis using assms by (simp only: div_mult_self2) simp
qed

lemma f16_mantissa_field:
  assumes "m < (1024::nat)"
  shows "(s * 32768 + e * 1024 + m) mod 1024 = m"
proof -
  have "s * 32768 + e * 1024 + m = m + 1024 * (e + 32 * s)" by simp
  then show ?thesis using assms by (simp only: mod_mult_self2) simp
qed

lemma f32_of_bits_pack:
  "unat W = s * 2147483648 + n \<Longrightarrow> s < 2 \<Longrightarrow> n < 2147483648 \<Longrightarrow>
   f32_of_bits W = (if s = 1 then - f32_mag n else f32_mag n)"
  by (auto simp: f32_of_bits_def f32_sign_def less_2_cases_iff)

lemma f16_to_f32_value:
  assumes "h = of_nat (s * 32768 + e * 1024 + m)" "s < 2" "1 \<le> e" "e \<le> 30" "m < 1024"
  shows "f16_to_f32 h = Fin (f16_value s e m)"
proof -
  have h: "unat h = s * 32768 + e * 1024 + m"
    unfolding assms(1) using assms by (intro unat_of_nat_u16) simp
  have S: "unat (ucast (drop_bit 15 h) AND 1 :: u32) = s"
  proof -
    have "unat (ucast (drop_bit 15 h) AND 1 :: u32) = unat (ucast (drop_bit 15 h) :: u32) AND unat (1 :: u32)"
      by (rule unsigned_and_eq)
    then show ?thesis
      using assms(2-5) h by (simp add: unsigned_ucast_eq unsigned_drop_bit_eq drop_bit_nat_def
          take_bit_nat_def and_one_eq)
  qed
  have E: "unat (ucast (drop_bit 10 h) AND 0x1F :: u32) = e"
    using assms(2-5) h by (simp add: and_masks unsigned_take_bit_eq unsigned_ucast_eq unsigned_drop_bit_eq
        drop_bit_nat_def take_bit_nat_def f16_exponent_field)
  have M: "unat (ucast h AND 0x3FF :: u32) = m"
    using assms(2-5) h by (simp add: and_masks unsigned_take_bit_eq unsigned_ucast_eq take_bit_nat_def
        f16_mantissa_field)
  let ?S = "ucast (drop_bit 15 h) AND 1 :: u32" and ?E = "ucast (drop_bit 10 h) AND 0x1F :: u32"
    and ?M = "ucast h AND 0x3FF :: u32"
  have E112: "unat (?E + 112) = e + 112" using E assms(2-5) by (simp add: unat_word_ariths)
  have ne: "?E \<noteq> 31" "?E \<noteq> 0" using E assms(2-5) by (auto simp: word_unat_eq_iff)
  have u: "unat (push_bit 31 ?S OR push_bit 23 (?E + 112) OR push_bit 13 ?M)
      = s * 2147483648 + ((e + 112) * 8388608 + m * 8192)"
    using unat_pack [of ?S "?E + 112" ?M] S E112 M assms(2-5) by simp
  have mag: "f32_mag ((e + 112) * 8388608 + m * 8192) = Fin ((1 + real m / 1024) * 2 ^ e / 2 ^ 15)"
  proof -
    have shape: "(e + 112) * 8388608 + m * 8192 = m * 8192 + 8388608 * (e + 112)" by simp
    have lt: "m * 8192 < 8388608" using assms(5) by linarith
    have "((e + 112) * 8388608 + m * 8192) div 8388608 = e + 112"
      unfolding shape by (subst div_mult_self2, simp, simp only: div_less [OF lt] add_0_right)
    moreover have "((e + 112) * 8388608 + m * 8192) mod 8388608 = m * 8192"
      unfolding shape by (subst mod_mult_self2) (simp only: mod_less [OF lt])
    ultimately have fields: "((e + 112) * 8388608 + m * 8192) div 8388608 = e + 112"
      "((e + 112) * 8388608 + m * 8192) mod 8388608 = m * 8192" by blast+
    have "f32_mag ((e + 112) * 8388608 + m * 8192) = Fin (real (8388608 + m * 8192) * 2 ^ (e + 112) / 2 ^ 150)"
      unfolding f32_mag_def fields using assms(4) by (simp add: Let_def)
    then show ?thesis by (simp add: power_add field_simps)
  qed
  have n: "(e + 112) * 8388608 + m * 8192 < 2147483648" using assms(2-5) by simp
  have "s = 0 \<or> s = 1" using assms(2) by auto
  then have "f32_of_bits (push_bit 31 ?S OR push_bit 23 (?E + 112) OR push_bit 13 ?M) = Fin (f16_value s e m)"
    unfolding f32_of_bits_pack [OF u assms(2) n] mag by (auto simp: f16_value_def algebra_simps)
  then show ?thesis using ne by (simp add: f16_to_f32_def Let_def)
qed

section \<open>Reassembly\<close>

definition fr_tail :: "can_frame \<Rightarrow> u8" where "fr_tail f = fr_data f ! 7"
definition fr_sot :: "can_frame \<Rightarrow> bool" where "fr_sot f = (fr_tail f AND 0x80 \<noteq> 0)"
definition fr_toggle :: "can_frame \<Rightarrow> bool" where "fr_toggle f = (fr_tail f AND 0x20 \<noteq> 0)"
definition fr_node :: "can_frame \<Rightarrow> u8" where "fr_node f = ucast (ext_eid f AND 0x7F)"

text \<open>The second frame of the transfer that the first one starts.\<close>
definition continues :: "can_frame \<Rightarrow> can_frame \<Rightarrow> bool" where
  "continues f1 g = (fr_node g = fr_node f1 \<and> fr_tail g AND 0x1F = fr_tail f1 AND 0x1F \<and>
     fr_toggle g = (\<not> fr_toggle f1))"

text \<open>A frame that is not part of the transfer and starts none.\<close>
definition unrelated :: "can_frame \<Rightarrow> can_frame \<Rightarrow> bool" where
  "unrelated f1 g = (fr_dlc g < 8 \<or> (\<not> fr_sot g \<and> \<not> continues f1 g))"

definition awaits :: "can_frame \<Rightarrow> power_rx \<Rightarrow> bool" where
  "awaits f p = (px_pending_valid p \<and> px_pending_node_id p = fr_node f \<and>
     px_pending_tid p = fr_tail f AND 0x1F \<and> px_pending_toggle p = (\<not> fr_toggle f) \<and>
     px_pending_volt_raw p = ucast (fr_data f ! 4) OR push_bit 8 (ucast (fr_data f ! 5)) \<and>
     px_pending_curr_lo p = fr_data f ! 6)"

lemmas power_frame_defs = fr_tail_def fr_sot_def fr_toggle_def fr_node_def

lemma battery_start:
  "\<not> fr_dlc f < 8 \<Longrightarrow> fr_sot f \<Longrightarrow> awaits f (battery_info_cb f p) \<and> px_power (battery_info_cb f p) = px_power p"
  by (simp add: battery_info_cb_def awaits_def power_frame_defs Let_def)

lemma battery_skip: "awaits f1 p \<Longrightarrow> unrelated f1 g \<Longrightarrow> battery_info_cb g p = p"
  by (auto simp: battery_info_cb_def awaits_def unrelated_def continues_def power_frame_defs Let_def)

lemma battery_skips: "awaits f1 p \<Longrightarrow> \<forall>g \<in> set gs. unrelated f1 g \<Longrightarrow> fold battery_info_cb gs p = p"
  by (induction gs) (simp_all add: battery_skip)

lemma battery_finish:
  "awaits f1 p \<Longrightarrow> \<not> fr_dlc f2 < 8 \<Longrightarrow> \<not> fr_sot f2 \<Longrightarrow> continues f1 f2 \<Longrightarrow>
   px_power (battery_info_cb f2 p) = \<lparr>pw_voltage_V = f16_to_f32 (ucast (fr_data f1 ! 4) OR push_bit 8 (ucast (fr_data f1 ! 5))),
     pw_current_A = f16_to_f32 (ucast (fr_data f1 ! 6) OR push_bit 8 (ucast (fr_data f2 ! 0))),
     pw_node_id = fr_node f1, pw_valid = True\<rparr>"
  by (auto simp: battery_info_cb_def awaits_def continues_def power_frame_defs Let_def)

section \<open>Properties\<close>

text \<open>Reassembly of a battery report: after a start-of-transfer frame, whatever short frames or
  frames of other transfers come in between, nothing is published until the continuation of the
  same node, transfer and alternated toggle arrives; then the voltage is the half-precision number
  of bytes 4 and 5 of the first frame and the current that of the first frame's byte 6 and the
  second frame's byte 0.\<close>
theorem battery_reassembly:
  assumes "\<not> fr_dlc f1 < 8" "fr_sot f1" "\<forall>g \<in> set gs. unrelated f1 g"
    and "\<not> fr_dlc f2 < 8" "\<not> fr_sot f2" "continues f1 f2"
  shows "px_power (fold battery_info_cb (f1 # gs) p) = px_power p
    \<and> px_power (fold battery_info_cb (f1 # gs @ [f2]) p) =
      \<lparr>pw_voltage_V = f16_to_f32 (ucast (fr_data f1 ! 4) OR push_bit 8 (ucast (fr_data f1 ! 5))),
       pw_current_A = f16_to_f32 (ucast (fr_data f1 ! 6) OR push_bit 8 (ucast (fr_data f2 ! 0))),
       pw_node_id = fr_node f1, pw_valid = True\<rparr>"
  using battery_start [OF assms(1,2), of p] battery_skips [OF _ assms(3), of "battery_info_cb f1 p"]
    battery_finish [OF _ assms(4-6), of "battery_info_cb f1 p"]
  by simp

text \<open>24.5 V and 1.5 A in two frames of node 10.\<close>
definition demo_frame :: "bytes \<Rightarrow> can_frame" where
  "demo_frame d = \<lparr>fr_xtd = True, fr_rtr = False, fr_id = 0x0004440A, fr_dlc = 8, fr_data = d\<rparr>"

lemma battery_reassembly_witness:
  "pw_voltage_V (px_power (fold battery_info_cb [demo_frame [0, 0, 0, 0, 0x20, 0x4E, 0x00, 0x81],
      demo_frame [0x3E, 0, 0, 0, 0, 0, 0, 0x02], demo_frame [0x3E, 0, 0, 0, 0, 0, 0, 0x21]] power_rx_new))
   = Fin 24.5"
proof -
  have v: "f16_to_f32 0x4E20 = Fin 24.5"
    using f16_to_f32_value [of "0x4E20" 0 19 544] by (simp add: f16_value_def)
  let ?f1 = "demo_frame [0, 0, 0, 0, 0x20, 0x4E, 0x00, 0x81]"
  let ?f2 = "demo_frame [0x3E, 0, 0, 0, 0, 0, 0, 0x21]"
  have d: "fr_data (demo_frame d) = d" "fr_dlc (demo_frame d) = 8" "fr_node (demo_frame d) = fr_node (demo_frame e)"
    for d e by (simp_all add: demo_frame_def fr_node_def ext_eid_def)
  have H: "\<not> fr_dlc ?f1 < 8" "fr_sot ?f1" "\<forall>g \<in> set [demo_frame [0x3E, 0, 0, 0, 0, 0, 0, 0x02]]. unrelated ?f1 g"
    "\<not> fr_dlc ?f2 < 8" "\<not> fr_sot ?f2" "continues ?f1 ?f2"
    using d(3) by (auto simp: d(1,2) fr_tail_def fr_sot_def fr_toggle_def unrelated_def continues_def)
  show ?thesis
    using battery_reassembly [OF H, of power_rx_new] by (simp add: d(1) v)
qed

text \<open>The half-precision decoder is exact on every normal number: sign, exponent field 1 to 30
  and ten mantissa bits give plus or minus (1 + m/1024) 2^(e - 15), and the other exponents give
  zero or NaN.\<close>
lemma f16_decode:
  assumes "s < 2" "e < 32" "m < 1024"
  shows "f16_to_f32 (of_nat (s * 32768 + e * 1024 + m)) =
    (if e = 31 then NaN else if e = 0 then Fin 0 else Fin (f16_value s e m))"
proof -
  define h :: u16 where "h = of_nat (s * 32768 + e * 1024 + m)"
  have h: "unat h = s * 32768 + e * 1024 + m"
    unfolding h_def using assms by (intro unat_of_nat_u16) simp
  have E: "unat (ucast (drop_bit 10 h) AND 0x1F :: u32) = e"
    using assms h by (simp add: and_masks unsigned_take_bit_eq unsigned_ucast_eq unsigned_drop_bit_eq
        drop_bit_nat_def take_bit_nat_def f16_exponent_field)
  then have eq: "(ucast (drop_bit 10 h) AND 0x1F = (31 :: u32)) = (e = 31)"
    "(ucast (drop_bit 10 h) AND 0x1F = (0 :: u32)) = (e = 0)"
    by (simp_all only: word_unat_eq_iff) simp_all
  have nan: "f32_of_bits 0x7FC00000 = NaN"
    by (simp add: f32_of_bits_def f32_sign_def f32_mag_def)
  consider "e = 31" | "e = 0" | "1 \<le> e" "e \<le> 30" using assms by linarith
  then have "f16_to_f32 h = (if e = 31 then NaN else if e = 0 then Fin 0 else Fin (f16_value s e m))"
  proof cases
    case 3
    then show ?thesis using f16_to_f32_value [OF h_def assms(1) _ _ assms(3)] by simp
  qed (simp_all add: f16_to_f32_def eq nan Let_def)
  then show ?thesis by (simp only: h_def)
qed

lemma f16_decode_witness: "f16_to_f32 0x3E00 = Fin 1.5"
  using f16_decode [of 0 15 512] by (simp add: f16_value_def)

end
