(* ===== verification/CalFlash.thy ===== *)
theory CalFlash
  imports Float32
begin

text \<open>
  The calibration page of src/src/coms/CalFlash.cpp: 128 bytes in flash, guarded by a magic number,
  a version and a CRC-32 over the first 80 bytes.  The floats are kept as their 32-bit patterns,
  since the code only copies memory.  The flash controller's answers (erase and program succeeded)
  are arguments; a successful erase sets the page to 0xFF, a successful program stores the word.
\<close>

definition CAL_MAGIC :: u32 where "CAL_MAGIC = 0x42525943"
definition CAL_VERSION :: u32 where "CAL_VERSION = 1"

record calib_data =
  cal_magic :: u32
  cal_version :: u32
  cal_gyro_bias :: "u32 list"
  cal_accel_bias :: "u32 list"
  cal_crc32 :: u32
  cal_pad :: bytes

text \<open>The memory image of a record, and the record an image holds.\<close>
definition calib_bytes :: "calib_data \<Rightarrow> bytes" where
  "calib_bytes d = le_bytes32 (cal_magic d) @ le_bytes32 (cal_version d)
     @ concat (map le_bytes32 (cal_gyro_bias d)) @ concat (map le_bytes32 (cal_accel_bias d))
     @ le_bytes32 (cal_crc32 d) @ cal_pad d"

definition calib_read :: "bytes \<Rightarrow> calib_data" where
  "calib_read m = \<lparr>cal_magic = le_word32 m 0, cal_version = le_word32 m 4,
     cal_gyro_bias = map (\<lambda>k. le_word32 m (8 + 4 * k)) [0..<9],
     cal_accel_bias = map (\<lambda>k. le_word32 m (44 + 4 * k)) [0..<9],
     cal_crc32 = le_word32 m 80, cal_pad = take 44 (drop 84 m)\<rparr>"

section \<open>The CRC\<close>

definition crc_shift :: "u32 \<Rightarrow> u32" where
  "crc_shift crc = drop_bit 1 crc XOR (0xEDB88320 AND - (crc AND 1))"

definition crc_byte :: "u8 \<Rightarrow> u32 \<Rightarrow> u32" where
  "crc_byte b crc = (crc_shift ^^ 8) (crc XOR ucast b)"

definition crc32 :: "bytes \<Rightarrow> u32" where
  "crc32 data = fold crc_byte data 0xFFFFFFFF XOR 0xFFFFFFFF"

section \<open>The flash page\<close>

definition crc_len :: nat where "crc_len = 128 - 4 - 44"

definition cal_load :: "bytes \<Rightarrow> calib_data option" where
  "cal_load flash =
    (let d = calib_read flash in
     if cal_magic d \<noteq> CAL_MAGIC then None
     else if cal_version d \<noteq> CAL_VERSION then None
     else if crc32 (take crc_len flash) \<noteq> cal_crc32 d then None
     else Some d)"

text \<open>The record that is written: identification, checksum and padding filled in.\<close>
definition cal_stamp :: "calib_data \<Rightarrow> calib_data" where
  "cal_stamp d =
    (let buf = d\<lparr>cal_magic := CAL_MAGIC, cal_version := CAL_VERSION, cal_pad := replicate 44 0xFF\<rparr>
     in buf\<lparr>cal_crc32 := crc32 (take crc_len (calib_bytes buf))\<rparr>)"

definition b2_erase :: "bool \<Rightarrow> bytes \<Rightarrow> bool \<times> bytes" where
  "b2_erase ok flash = (ok, if ok then replicate (length flash) 0xFF else flash)"

definition b2_program_word :: "bool \<Rightarrow> nat \<Rightarrow> bytes \<Rightarrow> bytes \<Rightarrow> bool \<times> bytes" where
  "b2_program_word ok addr src flash =
     (ok, if ok then take addr flash @ src @ drop (addr + length src) flash else flash)"

text \<open>Programs the words until one fails.\<close>
fun cal_program :: "(nat \<Rightarrow> bool) \<Rightarrow> nat list \<Rightarrow> bytes \<Rightarrow> bytes \<Rightarrow> bool \<times> bytes" where
  "cal_program ans [] img flash = (True, flash)"
| "cal_program ans (w # ws) img flash =
    (let (ok, flash) = b2_program_word (ans w) (w * 32) (take 32 (drop (w * 32) img)) flash
     in if ok then cal_program ans ws img flash else (False, flash))"

definition cal_save :: "bool \<Rightarrow> (nat \<Rightarrow> bool) \<Rightarrow> calib_data \<Rightarrow> bytes \<Rightarrow> bool \<times> bytes" where
  "cal_save erase_ok prog_ok d flash =
    (let img = calib_bytes (cal_stamp d);
         (ok, flash) = b2_erase erase_ok flash
     in if ok then cal_program prog_ok [0..<128 div 32] img flash else (False, flash))"

definition cal_clear :: "bool \<Rightarrow> bytes \<Rightarrow> bytes" where
  "cal_clear erase_ok flash = snd (b2_erase erase_ok flash)"

section \<open>The CRC detects a corrupted byte\<close>

lemma xor_cancel: "(a :: 'a :: ring_bit_operations) XOR b = a XOR c \<longleftrightarrow> b = c" "b XOR a = c XOR a \<longleftrightarrow> b = c"
  by (metis xor.assoc xor.left_neutral xor_self_eq) (metis xor.assoc xor.right_neutral xor_self_eq)

lemma bit31_crc_shift: "bit (crc_shift c) 31 = odd c"
proof (cases "odd c")
  case True
  then have "c AND 1 = 1" by (simp add: and_one_eq mod_2_eq_odd)
  then show ?thesis using True by (auto simp: crc_shift_def bit_simps dest: bit_imp_le_length)
next
  case False
  then have "c AND 1 = 0" by (simp add: and_one_eq mod_2_eq_odd)
  then show ?thesis using False by (auto simp: crc_shift_def bit_simps dest: bit_imp_le_length)
qed

lemma crc_shift_inj: "crc_shift c = crc_shift d \<Longrightarrow> c = d"
proof -
  assume eq: "crc_shift c = crc_shift d"
  then have par: "odd c = odd d" using bit31_crc_shift by metis
  then have lsb: "c AND 1 = d AND 1" by (simp add: and_one_eq mod_2_eq_odd)
  have "drop_bit 1 c = drop_bit 1 d"
    using eq unfolding crc_shift_def lsb xor_cancel(2) .
  then have "c div 2 = d div 2" by (simp add: drop_bit_Suc)
  moreover have "c mod 2 = d mod 2" using par by (simp add: mod_2_eq_odd)
  moreover have "c = c div 2 * 2 + c mod 2" "d = d div 2 * 2 + d mod 2"
    by (simp_all only: div_mult_mod_eq)
  ultimately show "c = d" by (simp only:)
qed

lemma crc_shifts_inj: "(crc_shift ^^ n) c = (crc_shift ^^ n) d \<Longrightarrow> c = d"
  by (induction n) (auto dest: crc_shift_inj)

lemma ucast_u8_u32_inj: "(ucast (a :: u8) :: u32) = ucast b \<longleftrightarrow> a = b"
  proof -
  have "take_bit 32 (unat x) = unat x" for x :: u8
    by (rule take_bit_nat_eq_self) (rule order_less_trans [OF unat_u8], simp)
  then show ?thesis by (simp add: word_unat_eq_iff unsigned_ucast_eq)
qed

lemma crc_byte_inj: "crc_byte b c = crc_byte b' c \<longleftrightarrow> b = b'" "crc_byte b c = crc_byte b d \<longleftrightarrow> c = d"
  by (auto simp: crc_byte_def xor_cancel ucast_u8_u32_inj dest: crc_shifts_inj)

lemma crc_fold_inj: "fold crc_byte xs c = fold crc_byte xs d \<longleftrightarrow> c = d"
  by (induction xs arbitrary: c d) (simp_all add: crc_byte_inj)

lemma crc32_one_byte:
  assumes "b \<noteq> b'"
  shows "crc32 (xs @ b # ys) \<noteq> crc32 (xs @ b' # ys)"
  using assms by (simp add: crc32_def xor_cancel crc_fold_inj crc_byte_inj)

section \<open>Saving and loading\<close>

definition calib_ok :: "calib_data \<Rightarrow> bool" where
  "calib_ok d = (length (cal_gyro_bias d) = 9 \<and> length (cal_accel_bias d) = 9)"

lemma length_concat_le32 [simp]: "length (concat (map le_bytes32 xs)) = 4 * length xs"
  by (induction xs) simp_all

lemma le_word32_at: "length xs = n \<Longrightarrow> le_word32 (xs @ le_bytes32 w @ ys) n = w"
proof -
  assume "length xs = n"
  then have "le_word32 (xs @ le_bytes32 w @ ys) n = le_word32 (le_bytes32 w @ ys) 0"
    using le_word32_shift [of "le_bytes32 w @ ys" xs] by simp
  also have "\<dots> = le_word32 (le_bytes32 w) 0" by (simp add: le_word32_def le_bytes32_def)
  finally show ?thesis by (simp add: le_word32_bytes)
qed

lemma le_word32_list:
  assumes "k < length ws" "length xs = n"
  shows "le_word32 (xs @ concat (map le_bytes32 ws) @ ys) (n + 4 * k) = ws ! k"
proof -
  have "concat (map le_bytes32 ws) = concat (map le_bytes32 (take k ws)) @ le_bytes32 (ws ! k)
      @ concat (map le_bytes32 (drop (Suc k) ws))"
    by (metis assms(1) concat.simps(2) concat_append id_take_nth_drop list.simps(9) map_append)
  then show ?thesis
    using le_word32_at [of "xs @ concat (map le_bytes32 (take k ws))" "n + 4 * k" "ws ! k"] assms
    by (simp add: min_def)
qed

lemma calib_read_bytes:
  assumes "calib_ok d" "length (cal_pad d) = 44"
  shows "calib_read (calib_bytes d) = d"
proof -
  let ?g = "cal_gyro_bias d" and ?a = "cal_accel_bias d"
  let ?m = "le_bytes32 (cal_magic d)" and ?v = "le_bytes32 (cal_version d)"
  have l: "length ?g = 9" "length ?a = 9" using assms by (simp_all add: calib_ok_def)
  have "le_word32 (calib_bytes d) 0 = cal_magic d"
    using le_word32_at [of "[]" 0] by (simp add: calib_bytes_def)
  moreover have "le_word32 (calib_bytes d) 4 = cal_version d"
    using le_word32_at [of ?m 4] by (simp add: calib_bytes_def)
  moreover have "map (\<lambda>k. le_word32 (calib_bytes d) (8 + 4 * k)) [0..<9] = ?g"
    using le_word32_list [of _ ?g "?m @ ?v" 8] l
    by (intro nth_equalityI) (simp_all add: calib_bytes_def)
  moreover have "map (\<lambda>k. le_word32 (calib_bytes d) (44 + 4 * k)) [0..<9] = ?a"
    using le_word32_list [of _ ?a "?m @ ?v @ concat (map le_bytes32 ?g)" 44] l
    by (intro nth_equalityI) (simp_all add: calib_bytes_def)
  moreover have "le_word32 (calib_bytes d) 80 = cal_crc32 d"
    using le_word32_at [of "?m @ ?v @ concat (map le_bytes32 ?g) @ concat (map le_bytes32 ?a)" 80] l
    by (simp add: calib_bytes_def)
  moreover have "take 44 (drop 84 (calib_bytes d)) = cal_pad d"
    using l assms(2) by (simp add: calib_bytes_def)
  ultimately show ?thesis by (simp add: calib_read_def)
qed

lemma length_calib_bytes: "calib_ok d \<Longrightarrow> length (calib_bytes d) = 84 + length (cal_pad d)"
  by (simp add: calib_bytes_def calib_ok_def)

lemma cal_stamp_facts:
  "calib_ok d \<Longrightarrow> calib_ok (cal_stamp d)" "length (cal_pad (cal_stamp d)) = 44"
  "cal_magic (cal_stamp d) = CAL_MAGIC" "cal_version (cal_stamp d) = CAL_VERSION"
  by (simp_all add: cal_stamp_def calib_ok_def Let_def)

text \<open>The checksum's own field is outside the bytes it covers.\<close>
lemma cal_stamp_crc:
  "calib_ok d \<Longrightarrow> crc32 (take crc_len (calib_bytes (cal_stamp d))) = cal_crc32 (cal_stamp d)"
  by (simp add: cal_stamp_def Let_def calib_bytes_def calib_ok_def crc_len_def)

lemma cal_load_stamped: "calib_ok d \<Longrightarrow> cal_load (calib_bytes (cal_stamp d)) = Some (cal_stamp d)"
  by (simp add: cal_load_def calib_read_bytes cal_stamp_facts cal_stamp_crc)

lemma cal_program_all:
  assumes "cal_program ans ws img flash = (True, flash')" "ws = [k..<n]" "length img = 32 * n"
    "length flash = 32 * n" "take (32 * k) flash = take (32 * k) img" "k \<le> n"
  shows "flash' = img"
  using assms
proof (induction "n - k" arbitrary: ws k flash)
  case 0
  then show ?case by simp
next
  case (Suc j)
  let ?w = "take 32 (drop (k * 32) img)"
  have k: "k < n" "[k..<n] = k # [Suc k..<n]" using Suc.hyps(2) by (simp_all add: upt_conv_Cons)
  have lw: "length ?w = 32" using Suc.prems(3) k(1) by simp
  define fl where "fl = take (k * 32) flash @ ?w @ drop (k * 32 + 32) flash"
  have go: "ans k" "cal_program ans [Suc k..<n] img fl = (True, flash')"
    using Suc.prems(1,2) k(2) lw by (auto simp: b2_program_word_def fl_def split: if_splits)
  have "take (32 * k) flash @ ?w = take (32 * Suc k) img"
    using Suc.prems(5) take_add [of "k * 32" 32 img] by (simp add: mult.commute add.commute)
  then have tk: "take (32 * Suc k) fl = take (32 * Suc k) img"
    using lw Suc.prems(4) k(1) by (simp add: fl_def mult.commute)
  show ?case
    by (rule Suc.hyps(1) [OF _ go(2) refl Suc.prems(3) _ tk])
      (use Suc.hyps(2) k lw Suc.prems(4) in \<open>auto simp: fl_def\<close>)
qed

section \<open>Properties\<close>

text \<open>Save and load: if the flash answers that saving succeeded, then loading from that page
  succeeds too and returns exactly the biases that were saved (bit for bit), with the magic number,
  the version and the checksum filled in.\<close>
theorem cal_save_load:
  assumes "calib_ok d" "length flash = 128" "cal_save erase_ok prog_ok d flash = (True, flash')"
  shows "\<exists>d'. cal_load flash' = Some d' \<and> cal_gyro_bias d' = cal_gyro_bias d
    \<and> cal_accel_bias d' = cal_accel_bias d \<and> cal_magic d' = CAL_MAGIC \<and> cal_version d' = CAL_VERSION"
proof -
  let ?img = "calib_bytes (cal_stamp d)"
  have len: "length ?img = 128"
    using assms(1) by (simp add: length_calib_bytes cal_stamp_facts)
  have "cal_program prog_ok [0..<4] ?img (replicate 128 0xFF) = (True, flash')"
    using assms(2,3) by (auto simp: cal_save_def b2_erase_def Let_def split: if_splits)
  then have "flash' = ?img" using cal_program_all [of prog_ok "[0..<4]" ?img "replicate 128 0xFF" flash' 0 4] len by simp
  then show ?thesis
    using assms(1) by (simp add: cal_load_stamped) (simp add: cal_stamp_def Let_def)
qed

definition demo_cal :: calib_data where
  "demo_cal = \<lparr>cal_magic = 0, cal_version = 0, cal_gyro_bias = replicate 9 0x3C23D70A,
     cal_accel_bias = replicate 9 0, cal_crc32 = 0, cal_pad = []\<rparr>"

lemma demo_cal_ok: "calib_ok demo_cal"
  by (simp add: calib_ok_def demo_cal_def)

lemma cal_save_load_witness:
  "\<exists>flash' d'. cal_save True (\<lambda>_. True) demo_cal (replicate 128 0) = (True, flash')
     \<and> cal_load flash' = Some d' \<and> cal_gyro_bias d' = replicate 9 0x3C23D70A"
proof -
  have p: "fst (cal_program (\<lambda>_. True) ws img fl)" for ws img fl
    by (induction ws arbitrary: fl) (simp_all add: b2_program_word_def)
  have "fst (cal_save True (\<lambda>_. True) demo_cal (replicate 128 0))"
    by (simp only: cal_save_def b2_erase_def Let_def case_prod_conv if_True p)
  then obtain flash' where s: "cal_save True (\<lambda>_. True) demo_cal (replicate 128 0) = (True, flash')"
    by (cases "cal_save True (\<lambda>_. True) demo_cal (replicate 128 0)") auto
  then show ?thesis using cal_save_load [OF demo_cal_ok _ s] by (auto simp: demo_cal_def)
qed

text \<open>C30. Corruption is detected: change any one of the 80 protected bytes of a saved page, to any
  other value, and the page is refused; an erased page is refused as well.\<close>
theorem cal_load_rejects:
  assumes "calib_ok d" "k < 80" "b \<noteq> calib_bytes (cal_stamp d) ! k"
  shows "cal_load ((calib_bytes (cal_stamp d))[k := b]) = None \<and> cal_load (cal_clear True (replicate 128 0)) = None"
proof -
  let ?m = "calib_bytes (cal_stamp d)"
  have len: "length ?m = 128" using assms(1) by (simp add: length_calib_bytes cal_stamp_facts)
  have split: "take 80 ?m = take k ?m @ ?m ! k # take (79 - k) (drop (Suc k) ?m)"
    using id_take_nth_drop [of k "take 80 ?m"] assms(2) len by (simp add: min_def drop_take)
  have "take 80 (?m[k := b]) = (take 80 ?m)[k := b]" by (simp add: take_update_swap)
  also have "\<dots> = take k ?m @ b # take (79 - k) (drop (Suc k) ?m)"
    unfolding split using assms(2) len by (simp add: list_update_append)
  finally have "crc32 (take 80 (?m[k := b])) \<noteq> crc32 (take 80 ?m)"
    using crc32_one_byte [OF assms(3)] split by metis
  moreover have "le_word32 (?m[k := b]) 80 = le_word32 ?m 80"
    using assms(2) by (simp add: le_word32_def)
  moreover have "le_word32 ?m 80 = cal_crc32 (cal_stamp d)"
    using calib_read_bytes [of "cal_stamp d"] assms(1) cal_stamp_facts
    by (metis calib_data.select_convs(5) calib_read_def)
  ultimately have "cal_load (?m[k := b]) = None"
    using cal_stamp_crc [OF assms(1)] by (simp add: cal_load_def calib_read_def crc_len_def Let_def)
  moreover have "le_word32 (replicate 128 0xFF) 0 = 0xFFFFFFFF" by (simp add: le_word32_def)
  then have "cal_load (cal_clear True (replicate 128 0)) = None"
    by (simp add: cal_load_def calib_read_def cal_clear_def b2_erase_def CAL_MAGIC_def Let_def)
  ultimately show ?thesis by blast
qed

lemma cal_load_rejects_witness:
  "cal_load ((calib_bytes (cal_stamp demo_cal))[8 := 0xFF]) = None"
proof -
  have "calib_bytes (cal_stamp demo_cal) ! 8 = 0x0A"
  proof -
    have g: "cal_gyro_bias (cal_stamp demo_cal) = 0x3C23D70A # replicate 8 0x3C23D70A"
      by (simp add: cal_stamp_def demo_cal_def Let_def flip: replicate_Suc)
    show ?thesis unfolding calib_bytes_def g by (simp add: nth_append le_bytes32_def)
  qed
  then show ?thesis using cal_load_rejects [OF demo_cal_ok, of 8 "0xFF"] by simp
qed

end
