(* ===== verification/LogRing.thy ===== *)
theory LogRing
  imports Prelude
begin

text \<open>
  The ring buffer of src/src/logging/Logger.cpp and its record writer, against the interface of a
  bounded byte queue: what is accepted comes out once, in order, and a write that does not fit
  changes nothing.
\<close>

section \<open>The interface of a bounded byte queue\<close>

text \<open>An operation of a client: offer a record, or take at most so many bytes.\<close>
datatype fifo_op = Put bytes | Get nat

locale byte_fifo =
  fixes contents :: "'s \<Rightarrow> bytes"
    and put :: "bytes \<Rightarrow> 's \<Rightarrow> bool \<times> 's"
    and get :: "nat \<Rightarrow> 's \<Rightarrow> bytes \<times> 's"
    and invar :: "'s \<Rightarrow> bool"
    and capacity :: nat
  assumes put_ok: "invar s \<Longrightarrow> length (contents s) + length d \<le> capacity \<Longrightarrow>
      fst (put d s) \<and> contents (snd (put d s)) = contents s @ d"
    and put_full: "invar s \<Longrightarrow> \<not> length (contents s) + length d \<le> capacity \<Longrightarrow>
      put d s = (False, s)"
    and put_invar: "invar s \<Longrightarrow> invar (snd (put d s))"
    and get_spec: "invar s \<Longrightarrow> fst (get n s) = take n (contents s) \<and>
      contents (snd (get n s)) = drop n (contents s)"
    and get_invar: "invar s \<Longrightarrow> invar (snd (get n s))"
    and cap: "invar s \<Longrightarrow> length (contents s) \<le> capacity"
begin

text \<open>A run of operations; the accepted and the delivered bytes are accumulated.\<close>
primrec fifo_run :: "fifo_op list \<Rightarrow> 's \<Rightarrow> bytes \<times> bytes \<times> 's" where
  "fifo_run [] s = ([], [], s)"
| "fifo_run (x # xs) s = (case x of
      Put d \<Rightarrow> (let (ok, s1) = put d s; (acc, del, s2) = fifo_run xs s1
               in ((if ok then d else []) @ acc, del, s2))
    | Get n \<Rightarrow> (let (b, s1) = get n s; (acc, del, s2) = fifo_run xs s1 in (acc, b @ del, s2)))"

lemma put_cases:
  assumes "invar s"
  shows "contents (snd (put d s)) = contents s @ (if fst (put d s) then d else [])"
  using assms put_ok [of s d] put_full [of s d] by (cases "length (contents s) + length d \<le> capacity") auto

theorem fifo_order:
  assumes "invar s" "fifo_run xs s = (acc, del, s')"
  shows "contents s @ acc = del @ contents s' \<and> invar s'"
  using assms
proof (induction xs arbitrary: s acc del)
  case Nil
  then show ?case by simp
next
  case (Cons x xs)
  show ?case
  proof (cases x)
    case (Put d)
    obtain acc1 del1 where r: "fifo_run xs (snd (put d s)) = (acc1, del1, s')"
      using Cons.prems(2) by (auto simp: Put split: prod.splits)
    then show ?thesis
      using Cons.IH [OF put_invar [OF Cons.prems(1)] r] put_cases [OF Cons.prems(1), of d] Cons.prems(2)
      by (auto simp: Put split: prod.splits)
  next
    case (Get n)
    obtain acc1 del1 where r: "fifo_run xs (snd (get n s)) = (acc1, del1, s')"
      using Cons.prems(2) by (auto simp: Get split: prod.splits)
    then have "drop n (contents s) @ acc1 = del1 @ contents s' \<and> invar s'"
      using Cons.IH [OF get_invar [OF Cons.prems(1)] r] get_spec [OF Cons.prems(1)] by simp
    then show ?thesis
      using Cons.prems(2) r get_spec [OF Cons.prems(1), of n]
      by (auto simp: Get split: prod.splits)
        (metis append.assoc append_take_drop_id)+
  qed
qed

end

section \<open>The ring buffer\<close>

definition BUF_SIZE :: nat where "BUF_SIZE = 32768"

record ring =
  rg_buf :: bytes
  rg_head :: nat
  rg_tail :: nat

definition ring_new :: ring where
  "ring_new = \<lparr>rg_buf = replicate BUF_SIZE 0, rg_head = 0, rg_tail = 0\<rparr>"

text \<open>memcpy(buf + at, src, n) with n the length of the source.\<close>
definition blit :: "bytes \<Rightarrow> nat \<Rightarrow> bytes \<Rightarrow> bytes" where
  "blit buf pos src = take pos buf @ src @ drop (pos + length src) buf"

definition ring_free :: "ring \<Rightarrow> nat" where
  "ring_free r = (if rg_head r \<ge> rg_tail r then BUF_SIZE - rg_head r + rg_tail r - 1
     else rg_tail r - rg_head r - 1)"

definition ring_write :: "bytes \<Rightarrow> ring \<Rightarrow> bool \<times> ring" where
  "ring_write src r =
    (let n = length src in
     if n > ring_free r then (False, r)
     else if rg_head r + n \<le> BUF_SIZE then
       (True, r\<lparr>rg_buf := blit (rg_buf r) (rg_head r) src, rg_head := (rg_head r + n) mod BUF_SIZE\<rparr>)
     else let first = BUF_SIZE - rg_head r;
              b = blit (rg_buf r) (rg_head r) (take first src);
              b = blit b 0 (drop first src)
          in (True, r\<lparr>rg_buf := b, rg_head := n - first\<rparr>))"

definition ring_avail :: "ring \<Rightarrow> nat" where
  "ring_avail r = (if rg_head r \<ge> rg_tail r then rg_head r - rg_tail r
     else BUF_SIZE - rg_tail r + rg_head r)"

definition ring_read :: "nat \<Rightarrow> ring \<Rightarrow> bytes \<times> ring" where
  "ring_read max_n r =
    (let avail = ring_avail r; n = (if avail < max_n then avail else max_n) in
     if n = 0 then ([], r)
     else if rg_tail r + n \<le> BUF_SIZE then
       (take n (drop (rg_tail r) (rg_buf r)), r\<lparr>rg_tail := (rg_tail r + n) mod BUF_SIZE\<rparr>)
     else let first = BUF_SIZE - rg_tail r
          in (take first (drop (rg_tail r) (rg_buf r)) @ take (n - first) (rg_buf r),
              r\<lparr>rg_tail := n - first\<rparr>))"

definition ring_ok :: "ring \<Rightarrow> bool" where
  "ring_ok r = (length (rg_buf r) = BUF_SIZE \<and> rg_head r < BUF_SIZE \<and> rg_tail r < BUF_SIZE)"

definition ring_contents :: "ring \<Rightarrow> bytes" where
  "ring_contents r = (if rg_head r \<ge> rg_tail r then take (rg_head r - rg_tail r) (drop (rg_tail r) (rg_buf r))
     else drop (rg_tail r) (rg_buf r) @ take (rg_head r) (rg_buf r))"

lemma BUF_SIZE_pos: "0 < BUF_SIZE"
  by (simp add: BUF_SIZE_def)

lemma length_blit [simp]: "pos + length src \<le> length buf \<Longrightarrow> length (blit buf pos src) = length buf"
  by (simp add: blit_def)

lemma nth_blit:
  assumes "pos + length src \<le> length buf" "i < length buf"
  shows "blit buf pos src ! i = (if pos \<le> i \<and> i < pos + length src then src ! (i - pos) else buf ! i)"
  using assms by (auto simp: blit_def nth_append min_def)

lemma length_contents: "ring_ok r \<Longrightarrow> length (ring_contents r) = ring_avail r"
  by (auto simp: ring_ok_def ring_contents_def ring_avail_def)

lemma nth_contents:
  assumes "ring_ok r" "i < ring_avail r"
  shows "ring_contents r ! i = rg_buf r ! ((rg_tail r + i) mod BUF_SIZE)"
proof (cases "rg_head r \<ge> rg_tail r")
  case True
  then have "rg_tail r + i < BUF_SIZE" using assms by (simp add: ring_ok_def ring_avail_def) linarith
  then show ?thesis using True assms by (simp add: ring_contents_def ring_avail_def ring_ok_def)
next
  case False
  show ?thesis
  proof (cases "rg_tail r + i < BUF_SIZE")
    case True
    then have "i < BUF_SIZE - rg_tail r" by linarith
    then show ?thesis using True False assms by (simp add: ring_contents_def ring_ok_def nth_append)
  next
    case wrap: False
    have b: "length (rg_buf r) = BUF_SIZE" "rg_tail r < BUF_SIZE" "rg_head r < BUF_SIZE"
      "i < BUF_SIZE - rg_tail r + rg_head r"
      using assms False by (auto simp: ring_ok_def ring_avail_def)
    then have i: "rg_tail r + i - BUF_SIZE = i - (BUF_SIZE - rg_tail r)" "\<not> i < BUF_SIZE - rg_tail r"
      "i - (BUF_SIZE - rg_tail r) < rg_head r" "rg_tail r + i - BUF_SIZE < BUF_SIZE"
      using wrap by linarith+
    then have "(rg_tail r + i) mod BUF_SIZE = i - (BUF_SIZE - rg_tail r)"
      using wrap by (simp add: mod_if)
    then show ?thesis using False i b by (simp add: ring_contents_def nth_append)
  qed
qed

lemma ring_free_avail: "ring_ok r \<Longrightarrow> ring_free r = BUF_SIZE - 1 - ring_avail r \<and> ring_avail r < BUF_SIZE"
  by (auto simp: ring_ok_def ring_free_def ring_avail_def)

text \<open>Where the source lands: index i of it goes to slot head + i, wrapped; every other slot keeps.\<close>
lemma ring_write_buf:
  assumes "ring_ok r" "length src \<le> ring_free r"
  shows "fst (ring_write src r) \<and> ring_ok (snd (ring_write src r))
    \<and> rg_tail (snd (ring_write src r)) = rg_tail r
    \<and> rg_head (snd (ring_write src r)) = (rg_head r + length src) mod BUF_SIZE
    \<and> (\<forall>i < length src. rg_buf (snd (ring_write src r)) ! ((rg_head r + i) mod BUF_SIZE) = src ! i)
    \<and> (\<forall>j < BUF_SIZE. (\<forall>i < length src. j \<noteq> (rg_head r + i) mod BUF_SIZE) \<longrightarrow>
          rg_buf (snd (ring_write src r)) ! j = rg_buf r ! j)"
proof -
  let ?n = "length src" and ?h = "rg_head r"
  have b: "length (rg_buf r) = BUF_SIZE" "?h < BUF_SIZE" "rg_tail r < BUF_SIZE" "?n < BUF_SIZE"
    using assms ring_free_avail [OF assms(1)] BUF_SIZE_pos by (auto simp: ring_ok_def)
  show ?thesis
  proof (cases "?h + ?n \<le> BUF_SIZE")
    case True
    have keep: False if "\<forall>i < ?n. j \<noteq> ?h + i" "?h \<le> j" "j < ?h + ?n" for j
      using that by (metis add_less_cancel_left le_add_diff_inverse)
    show ?thesis
      using assms True b
      by (auto dest: keep simp: ring_write_def ring_ok_def nth_blit mod_less_divisor BUF_SIZE_pos)
  next
    case False
    define first where "first = BUF_SIZE - ?h"
    have f: "first < ?n" "?h + first = BUF_SIZE" "?n - first \<le> ?h" using False b by (auto simp: first_def)
    define b1 where "b1 = blit (rg_buf r) ?h (take first src)"
    have l1: "length b1 = BUF_SIZE" using f b by (simp add: b1_def min_def)
    have w: "snd (ring_write src r) = r\<lparr>rg_buf := blit b1 0 (drop first src), rg_head := ?n - first\<rparr>"
      "fst (ring_write src r)"
      using assms False by (simp_all add: ring_write_def first_def b1_def Let_def)
    have n1: "b1 ! j = (if ?h \<le> j then src ! (j - ?h) else rg_buf r ! j)" if "j < BUF_SIZE" for j
      using that f b by (simp add: b1_def nth_blit min_def)
    have n2: "blit b1 0 (drop first src) ! j =
        (if j < ?n - first then src ! (first + j) else b1 ! j)" if "j < BUF_SIZE" for j
      using that f b l1 by (simp add: nth_blit)
    have m: "(?h + i) mod BUF_SIZE = (if i < first then ?h + i else i - first)" if "i < ?n" for i
      using that f b by (auto simp: mod_if)
    have "(?h + ?n) mod BUF_SIZE = ?n - first" using f b by (auto simp: mod_if)
    moreover have "\<forall>i < ?n. blit b1 0 (drop first src) ! ((?h + i) mod BUF_SIZE) = src ! i"
      using f b by (auto simp: m n1 n2)
    moreover have "blit b1 0 (drop first src) ! j = rg_buf r ! j"
      if j: "j < BUF_SIZE" "\<forall>i < ?n. j \<noteq> (?h + i) mod BUF_SIZE" for j
    proof -
      have "\<not> ?h \<le> j"
      proof
        assume "?h \<le> j"
        then have "j - ?h < first" "j = ?h + (j - ?h)" using j(1) f by auto
        then show False using j(2) m [of "j - ?h"] f by (metis order_less_trans)
      qed
      moreover have "\<not> j < ?n - first"
      proof
        assume "j < ?n - first"
        then have "first + j < ?n" by simp
        then show False using j(2) m [of "first + j"] by auto
      qed
      ultimately show ?thesis using j(1) by (simp add: n1 n2)
    qed
    ultimately show ?thesis
      using f b l1 unfolding w(1) by (auto simp: w(2) ring_ok_def)
  qed
qed

lemma wrap_distance:
  assumes "t < n" "a < (n::nat)"
  shows "(if (t + a) mod n \<ge> t then (t + a) mod n - t else n - t + (t + a) mod n) = a"
proof (cases "t + a < n")
  case True
  then show ?thesis by simp
next
  case False
  then have "(t + a) mod n = t + a - n" using assms by (simp add: mod_if)
  then show ?thesis using False assms by simp
qed

lemma ring_write_contents:
  assumes "ring_ok r" "length src \<le> ring_free r"
  shows "ring_contents (snd (ring_write src r)) = ring_contents r @ src"
proof -
  let ?r' = "snd (ring_write src r)"
  note w = ring_write_buf [OF assms]
  have ok: "ring_ok ?r'" using w by blast
  have room: "ring_avail r + length src < BUF_SIZE"
    using assms ring_free_avail [OF assms(1)] by linarith
  have r: "rg_head r < BUF_SIZE" "rg_tail r < BUF_SIZE" using assms(1) by (simp_all add: ring_ok_def)
  have head: "rg_head r = (rg_tail r + ring_avail r) mod BUF_SIZE"
    using r by (auto simp: ring_avail_def mod_if)
  have avail: "ring_avail ?r' = ring_avail r + length src"
  proof -
    have h': "rg_head ?r' = (rg_tail r + (ring_avail r + length src)) mod BUF_SIZE"
      using w head by (simp add: mod_simps add.assoc)
    have t': "rg_tail ?r' = rg_tail r" using w by blast
    show ?thesis
      unfolding ring_avail_def [of ?r'] h' t' by (rule wrap_distance [OF r(2) room])
  qed
  show ?thesis
  proof (rule nth_equalityI)
    show "length (ring_contents ?r') = length (ring_contents r @ src)"
      using ok assms(1) by (simp add: length_contents avail)
  next
    fix i assume "i < length (ring_contents ?r')"
    then have i: "i < ring_avail r + length src" using ok by (simp add: length_contents avail)
    have nth: "ring_contents ?r' ! i = rg_buf ?r' ! ((rg_tail r + i) mod BUF_SIZE)"
      using nth_contents [OF ok] i w by (simp add: avail)
    show "ring_contents ?r' ! i = (ring_contents r @ src) ! i"
    proof (cases "i < ring_avail r")
      case True
      have "(rg_tail r + i) mod BUF_SIZE \<noteq> (rg_head r + k) mod BUF_SIZE" if "k < length src" for k
      proof -
        have "(rg_head r + k) mod BUF_SIZE = (rg_tail r + (ring_avail r + k)) mod BUF_SIZE"
          by (simp add: head mod_simps add.assoc)
        moreover have "(rg_tail r + i) mod BUF_SIZE \<noteq> (rg_tail r + (ring_avail r + k)) mod BUF_SIZE"
          by (rule mod_shift_inj) (use True that room in linarith)+
        ultimately show ?thesis by metis
      qed
      then have "rg_buf ?r' ! ((rg_tail r + i) mod BUF_SIZE) = rg_buf r ! ((rg_tail r + i) mod BUF_SIZE)"
        using w BUF_SIZE_pos by simp
      then show ?thesis
        using True nth nth_contents [OF assms(1) True] assms(1) by (simp add: nth_append length_contents)
    next
      case False
      then obtain k where k: "i = ring_avail r + k" "k < length src"
        using i by (metis add_less_cancel_left le_add_diff_inverse linorder_not_less)
      have "(rg_tail r + i) mod BUF_SIZE = (rg_head r + k) mod BUF_SIZE"
        by (simp add: head k mod_simps add.assoc)
      then show ?thesis using w k nth assms(1) by (simp add: nth_append length_contents)
    qed
  qed
qed

lemma ring_read_spec:
  assumes "ring_ok r"
  shows "ring_ok (snd (ring_read m r)) \<and> fst (ring_read m r) = take m (ring_contents r)
    \<and> ring_contents (snd (ring_read m r)) = drop m (ring_contents r)"
proof -
  define n where "n = min (ring_avail r) m"
  have b: "length (rg_buf r) = BUF_SIZE" "rg_head r < BUF_SIZE" "rg_tail r < BUF_SIZE"
    using assms by (auto simp: ring_ok_def)
  have len: "length (ring_contents r) = ring_avail r" by (rule length_contents [OF assms])
  have n_eq: "(if ring_avail r < m then ring_avail r else m) = n" by (simp add: n_def)
  have tk: "take m (ring_contents r) = take n (ring_contents r)"
    "drop m (ring_contents r) = drop n (ring_contents r)"
    using len by (auto simp: n_def min_def)
  have n_le: "n \<le> ring_avail r" by (simp add: n_def)
  show ?thesis
  proof (cases "n = 0")
    case True
    then show ?thesis using assms tk n_eq by (simp add: ring_read_def Let_def)
  next
    case False
    consider (flat) "rg_tail r \<le> rg_head r" | (edge) "rg_head r < rg_tail r" "rg_tail r + n \<le> BUF_SIZE"
      | (wrap) "rg_head r < rg_tail r" "BUF_SIZE < rg_tail r + n" by linarith
    then show ?thesis
    proof cases
      case flat
      then have "rg_tail r + n < BUF_SIZE" "rg_tail r + n \<le> rg_head r"
        using n_le b by (auto simp: ring_avail_def)
      then show ?thesis
        using flat b False unfolding tk
        by (simp add: ring_read_def n_eq Let_def ring_ok_def ring_contents_def min_def drop_take add.commute)
    next
      case edge
      then show ?thesis
        using b False unfolding tk
        by (cases "rg_tail r + n = BUF_SIZE")
          (auto simp: ring_read_def n_eq Let_def ring_ok_def ring_contents_def add.commute)
    next
      case wrap
      then have "n - (BUF_SIZE - rg_tail r) \<le> rg_head r"
        using n_le b by (auto simp: ring_avail_def)
      then show ?thesis
        using wrap b False unfolding tk
        by (auto simp: ring_read_def n_eq Let_def ring_ok_def ring_contents_def min_def drop_take)
    qed
  qed
qed

interpretation log_fifo: byte_fifo ring_contents ring_write ring_read ring_ok "BUF_SIZE - 1"
proof
  fix s d assume "ring_ok s"
  note rf = ring_free_avail [OF this] length_contents [OF this]
  show "length (ring_contents s) + length d \<le> BUF_SIZE - 1 \<Longrightarrow>
      fst (ring_write d s) \<and> ring_contents (snd (ring_write d s)) = ring_contents s @ d"
    using ring_write_contents [OF \<open>ring_ok s\<close>, of d] ring_write_buf [OF \<open>ring_ok s\<close>, of d] rf by simp
  show full: "\<not> length (ring_contents s) + length d \<le> BUF_SIZE - 1 \<Longrightarrow> ring_write d s = (False, s)"
    using rf by (auto simp: ring_write_def Let_def)
  show "ring_ok (snd (ring_write d s))"
    using full rf ring_write_buf [OF \<open>ring_ok s\<close>, of d] \<open>ring_ok s\<close>
    by (cases "length (ring_contents s) + length d \<le> BUF_SIZE - 1") auto
  show "length (ring_contents s) \<le> BUF_SIZE - 1" using rf by linarith
qed (use ring_read_spec in auto)

end
