(* ===== verification/Logger.thy ===== *)
theory Logger
  imports LogRing Float32
begin

text \<open>
  The SD-card logger of src/src/logging/Logger.cpp over the ring buffer of theory LogRing, with the
  message table of LogMessages.hpp.  What the SD driver and the file system answer is an argument;
  the bytes that reached the file are kept in lg_file.
\<close>

section \<open>Messages\<close>

definition LOG_MSG_FMT :: u8 where "LOG_MSG_FMT = 0x80"
definition LOG_MSG_ATT :: u8 where "LOG_MSG_ATT = 0x09"
definition LOG_MSG_LIN :: u8 where "LOG_MSG_LIN = 0x0A"
definition LOG_MSG_RCIN :: u8 where "LOG_MSG_RCIN = 0x05"
definition LOG_MSG_OUTP :: u8 where "LOG_MSG_OUTP = 0x06"
definition LOG_MSG_HIPS :: u8 where "LOG_MSG_HIPS = 0x07"
definition LOG_MSG_HERR :: u8 where "LOG_MSG_HERR = 0x08"
definition LOG_MSG_LEGS :: u8 where "LOG_MSG_LEGS = 0x0B"
definition LOG_MSG_LEGV :: u8 where "LOG_MSG_LEGV = 0x0C"
definition LOG_MSG_MOTV :: u8 where "LOG_MSG_MOTV = 0x0D"
definition LOG_MSG_PWR :: u8 where "LOG_MSG_PWR = 0x0E"
definition LOG_MSG_VNED :: u8 where "LOG_MSG_VNED = 0x0F"

definition le_bytes64 :: "u64 \<Rightarrow> bytes" where
  "le_bytes64 w = map (\<lambda>k. ucast (drop_bit (8 * k) w AND 0xFF)) [0..<8]"

text \<open>A packed body: the time stamp, the rate, then the float fields and the byte fields in order.\<close>
record log_msg =
  lm_id :: u8
  lm_time_us :: u64
  lm_rate_hz :: u16
  lm_floats :: "flt list"
  lm_bytes :: bytes

definition log_body :: "log_msg \<Rightarrow> bytes" where
  "log_body m = le_bytes64 (lm_time_us m) @ le_bytes16 (lm_rate_hz m)
     @ concat (map f32_bytes (lm_floats m)) @ lm_bytes m"

record log_def =
  ld_msg_id :: u8
  ld_name :: string
  ld_fmt :: string
  ld_labels :: string
  ld_body_size :: nat

definition mk_log_def :: "u8 \<Rightarrow> string \<Rightarrow> string \<Rightarrow> string \<Rightarrow> nat \<Rightarrow> log_def" where
  "mk_log_def i n f l b =
     \<lparr>ld_msg_id = i, ld_name = n, ld_fmt = f, ld_labels = l, ld_body_size = b\<rparr>"

definition kLogDefs :: "log_def list" where
  "kLogDefs =
    [mk_log_def LOG_MSG_ATT ''ATT'' ''QHfffffffff''
       ''TimeUS,Rate,Roll,Pitch,Yaw,P,Q,R,Pdot,Qdot,Rdot'' 46,
     mk_log_def LOG_MSG_LIN ''LIN'' ''QHfffffffff''
       ''TimeUS,Rate,X,Y,Z,U,V,W,Udot,Vdot,Wdot'' 46,
     mk_log_def LOG_MSG_RCIN ''RCIN'' ''QHffffBB''
       ''TimeUS,Rate,YawStk,VelStk,HeightStk,LeanStk,Armed,Mode'' 28,
     mk_log_def LOG_MSG_OUTP ''OUTP'' ''QHffff'' ''TimeUS,Rate,Tq0,Tq1,Tq2,Tq3'' 26,
     mk_log_def LOG_MSG_HIPS ''HIPS'' ''QHffffffff''
       ''TimeUS,Rate,Pos0,Pos1,Pos2,Pos3,Volt0,Volt1,Volt2,Volt3'' 42,
     mk_log_def LOG_MSG_HERR ''HERR'' ''QHBBBB'' ''TimeUS,Rate,Err0,Err1,Err2,Err3'' 14,
     mk_log_def LOG_MSG_LEGS ''LEGS'' ''QHffffffff''
       ''TimeUS,Rate,L0,L0dot,ThL0,ThL0dot,L1,L1dot,ThL1,ThL1dot'' 42,
     mk_log_def LOG_MSG_LEGV ''LEGV'' ''QHffff''
       ''TimeUS,Rate,Leg0Xdot,Leg0Zdot,Leg1Xdot,Leg1Zdot'' 26,
     mk_log_def LOG_MSG_MOTV ''MOTV'' ''QHffffff''
       ''TimeUS,Rate,HipVel0,HipVel1,HipVel2,HipVel3,WheelVel0,WheelVel1'' 34,
     mk_log_def LOG_MSG_PWR ''PWR'' ''QHfff'' ''TimeUS,Rate,BattV,PmonV,TotalI'' 22,
     mk_log_def LOG_MSG_VNED ''VNED'' ''QHff'' ''TimeUS,Rate,XdotWorld,ZdotWorld'' 18]"

section \<open>State\<close>

record logger =
  lg_ring :: ring
  lg_open :: bool
  lg_last_init_err :: u8
  lg_last_ff_err :: u8
  lg_sync_count :: nat
  lg_current_path :: string
  lg_file :: bytes
  lg_syncs :: nat

definition SYNC_INTERVAL :: nat where "SYNC_INTERVAL = 100"
definition FLUSH_CHUNK :: nat where "FLUSH_CHUNK = 4096"

definition lg_ring_write :: "bytes \<Rightarrow> logger \<Rightarrow> bool \<times> logger" where
  "lg_ring_write d l = (let (ok, r) = ring_write d (lg_ring l) in (ok, l\<lparr>lg_ring := r\<rparr>))"

text \<open>The header of three bytes is offered first, the body only if the header went in.\<close>
definition logger_write :: "u8 \<Rightarrow> bytes \<Rightarrow> logger \<Rightarrow> bool \<times> logger" where
  "logger_write msg_id body l =
    (if \<not> lg_open l then (False, l)
     else let (ok, l) = lg_ring_write [0xA3, 0x95, msg_id] l in
       if \<not> ok then (False, l) else lg_ring_write body l)"

text \<open>C's strncpy into a zeroed field of n characters, of which the last n - m stay zero.\<close>
definition chars_to_bytes :: "string \<Rightarrow> bytes" where
  "chars_to_bytes s = map (\<lambda>c. of_nat (of_char c)) s"

definition str_field :: "nat \<Rightarrow> nat \<Rightarrow> string \<Rightarrow> bytes" where
  "str_field n m s = (let b = chars_to_bytes (take m s) in b @ replicate (n - length b) 0)"

definition fmt_record :: "log_def \<Rightarrow> bytes" where
  "fmt_record d = [0xA3, 0x95, LOG_MSG_FMT, ld_msg_id d, of_nat (3 + ld_body_size d)]
     @ str_field 4 4 (ld_name d) @ str_field 16 15 (ld_fmt d) @ str_field 64 63 (ld_labels d)"

definition write_schema_header :: "logger \<Rightarrow> bool \<times> logger" where
  "write_schema_header l =
     (True, fold (\<lambda>d l. snd (lg_ring_write (fmt_record d) l)) kLogDefs l)"

text \<open>%04u: four decimal digits, for numbers below 10000.\<close>
definition digit :: "nat \<Rightarrow> char" where
  "digit n = char_of (48 + n mod 10)"

definition log_path :: "nat \<Rightarrow> string" where
  "log_path n = ''/LOGS/LOG'' @ [digit (n div 1000), digit (n div 100), digit (n div 10), digit n]
     @ ''.BIN''"

text \<open>The first free slot, given which slots exist.\<close>
definition find_next_log_index :: "(nat \<Rightarrow> bool) \<Rightarrow> string" where
  "find_next_log_index exists =
    (case find (\<lambda>n. \<not> exists n) [1..<10000] of Some n \<Rightarrow> log_path n | None \<Rightarrow> log_path 9999)"

text \<open>What the SD driver and the file system answer during initialisation.\<close>
record sd_answers =
  sd_start_ok :: bool
  sd_connect_ok :: bool
  sd_mount_result :: u8
  sd_exists :: "nat \<Rightarrow> bool"
  sd_open_ok :: bool

definition logger_init :: "sd_answers \<Rightarrow> logger \<Rightarrow> bool \<times> logger" where
  "logger_init a l =
    (let l = l\<lparr>lg_ring := (lg_ring l)\<lparr>rg_head := 0, rg_tail := 0\<rparr>, lg_open := False,
               lg_sync_count := 0\<rparr> in
     if \<not> sd_start_ok a then (False, l\<lparr>lg_last_init_err := 1\<rparr>)
     else if \<not> sd_connect_ok a then (False, l\<lparr>lg_last_init_err := 2\<rparr>)
     else if sd_mount_result a \<noteq> 0 then
       (False, l\<lparr>lg_last_init_err := 3, lg_last_ff_err := sd_mount_result a\<rparr>)
     else let path = find_next_log_index (sd_exists a) in
     if \<not> sd_open_ok a then (False, l\<lparr>lg_last_init_err := 4\<rparr>)
     else let l = l\<lparr>lg_last_init_err := 5, lg_open := True, lg_current_path := path, lg_file := []\<rparr>;
              (b, l) = write_schema_header l
          in (True, l))"

definition logger_is_ready :: "logger \<Rightarrow> bool" where
  "logger_is_ready l = lg_open l"

definition logger_path :: "logger \<Rightarrow> string option" where
  "logger_path l = (if lg_open l then Some (lg_current_path l) else None)"

text \<open>The answer of f_write and how many bytes it stored.\<close>
definition logger_flush :: "bool \<times> nat \<Rightarrow> logger \<Rightarrow> logger" where
  "logger_flush wr l =
    (if \<not> lg_open l then l
     else let (chunk, r) = ring_read FLUSH_CHUNK (lg_ring l); l = l\<lparr>lg_ring := r\<rparr> in
       if chunk = [] then l
       else let l = l\<lparr>lg_file := lg_file l @ take (snd wr) chunk\<rparr> in
       if \<not> fst wr then l\<lparr>lg_open := False\<rparr>
       else let l = l\<lparr>lg_sync_count := lg_sync_count l + 1\<rparr> in
       if lg_sync_count l \<ge> SYNC_INTERVAL then l\<lparr>lg_sync_count := 0, lg_syncs := lg_syncs l + 1\<rparr> else l)"

definition logger_close :: "bool \<times> nat \<Rightarrow> logger \<Rightarrow> logger" where
  "logger_close wr l =
    (if \<not> lg_open l then l
     else (logger_flush wr l)\<lparr>lg_open := False, lg_syncs := lg_syncs (logger_flush wr l) + 1\<rparr>)"

definition logger_new :: logger where
  "logger_new = \<lparr>lg_ring = ring_new, lg_open = False, lg_last_init_err = 0, lg_last_ff_err = 0,
     lg_sync_count = 0, lg_current_path = [], lg_file = [], lg_syncs = 0\<rparr>"

section \<open>Facts\<close>

lemma length_str_field [simp]: "m \<le> n \<Longrightarrow> length (str_field n m s) = n"
  by (simp add: str_field_def chars_to_bytes_def Let_def min_def)

lemma length_fmt_record [simp]: "length (fmt_record d) = 89"
  by (simp add: fmt_record_def)

lemma length_concat_f32: "length (concat (map f32_bytes xs)) = 4 * length xs"
  by (induction xs) simp_all

lemma length_log_body: "length (log_body m) = 10 + 4 * length (lm_floats m) + length (lm_bytes m)"
  by (simp add: log_body_def le_bytes64_def length_concat_f32)

lemma ring_new_ok: "ring_ok ring_new" "ring_contents ring_new = []"
  by (simp_all add: ring_new_def ring_ok_def ring_contents_def BUF_SIZE_pos)

lemma lg_ring_write_spec:
  assumes "ring_ok (lg_ring l)"
  shows "lg_ring_write d l = (if length (ring_contents (lg_ring l)) + length d \<le> BUF_SIZE - 1
      then (True, l\<lparr>lg_ring := snd (ring_write d (lg_ring l))\<rparr>) else (False, l))"
  using log_fifo.put_ok [OF assms, of d] log_fifo.put_full [OF assms, of d]
  by (auto simp: lg_ring_write_def split: prod.splits)

text \<open>The size of a packed body read off its format string, and the number of labels.\<close>
definition fmt_size :: "string \<Rightarrow> nat" where
  "fmt_size f = sum_list (map (\<lambda>c. if c = CHR ''Q'' then 8 else if c = CHR ''f'' \<or> c = CHR ''i'' then 4
     else if c = CHR ''H'' \<or> c = CHR ''h'' then 2 else 1) f)"

definition label_count :: "string \<Rightarrow> nat" where
  "label_count s = Suc (length (filter (\<lambda>c. c = CHR '','') s))"

section \<open>Properties\<close>

text \<open>C28. Order and loss of the log ring: over any sequence of record writes and drains, starting
  empty, what was delivered is exactly an initial part of what was accepted, byte for byte in
  order, and the rest is still in the buffer; a write that does not fit is refused and leaves the
  buffer as it was.\<close>
theorem log_ring_fifo:
  assumes "log_fifo.fifo_run ops ring_new = (acc, del, r)"
  shows "acc = del @ ring_contents r \<and> ring_ok r \<and> length (ring_contents r) \<le> 32767
    \<and> (\<forall>d. 32767 < length (ring_contents r) + length d \<longrightarrow> ring_write d r = (False, r))"
proof -
  have "acc = del @ ring_contents r" "ring_ok r"
    using log_fifo.fifo_order [OF ring_new_ok(1) assms] ring_new_ok(2) by simp_all
  then show ?thesis
    using log_fifo.cap [of r] log_fifo.put_full [of r] by (simp add: BUF_SIZE_def)
qed

lemma log_ring_fifo_witness:
  "fst (log_fifo.fifo_run [Put [1, 2, 3], Get 2, Put [4], Get 9] ring_new) = [1, 2, 3, 4]"
proof -
  obtain acc del r where run: "log_fifo.fifo_run [Put [1, 2, 3], Get 2, Put [4], Get 9] ring_new = (acc, del, r)"
    by (metis prod.exhaust)
  have "fst (log_fifo.fifo_run [Put [1, 2, 3], Get 2, Put [4], Get 9] ring_new) = [1, 2, 3, 4]"
    by (simp add: ring_write_def ring_read_def ring_new_def ring_free_def ring_avail_def BUF_SIZE_def
        Let_def split: prod.splits)
  then show ?thesis using log_ring_fifo [OF run] by simp
qed

text \<open>The schema describes the records: every entry of the message table has a name, format and
  label string that fit their fields, as many labels as format codes, the time stamp first, a body
  size equal to the sum of its codes' sizes, a length byte that does not overflow, and an
  identifier of its own; each header record is 89 bytes and starts with the sync bytes, the FMT
  identifier, the described identifier and the total record length.\<close>
theorem log_schema_consistent:
  "(\<forall>d \<in> set kLogDefs. length (ld_name d) \<le> 4 \<and> length (ld_fmt d) \<le> 15 \<and> length (ld_labels d) \<le> 63
      \<and> label_count (ld_labels d) = length (ld_fmt d) \<and> take 7 (ld_labels d) = ''TimeUS,''
      \<and> fmt_size (ld_fmt d) = ld_body_size d \<and> 3 + ld_body_size d < 256
      \<and> length (fmt_record d) = 89
      \<and> take 5 (fmt_record d) = [0xA3, 0x95, 0x80, ld_msg_id d, of_nat (3 + ld_body_size d)])
   \<and> distinct (LOG_MSG_FMT # map ld_msg_id kLogDefs)"
proof -
  have "take 5 (fmt_record d) = [0xA3, 0x95, 0x80, ld_msg_id d, of_nat (3 + ld_body_size d)]" for d
    by (simp add: fmt_record_def LOG_MSG_FMT_def)
  moreover have "\<forall>d \<in> set kLogDefs. length (ld_name d) \<le> 4 \<and> length (ld_fmt d) \<le> 15
      \<and> length (ld_labels d) \<le> 63 \<and> label_count (ld_labels d) = length (ld_fmt d)
      \<and> take 7 (ld_labels d) = ''TimeUS,'' \<and> fmt_size (ld_fmt d) = ld_body_size d
      \<and> 3 + ld_body_size d < 256"
    by (simp add: kLogDefs_def mk_log_def_def label_count_def fmt_size_def)
  moreover have "distinct (LOG_MSG_FMT # map ld_msg_id kLogDefs)"
    by (simp add: kLogDefs_def mk_log_def_def LOG_MSG_FMT_def LOG_MSG_ATT_def LOG_MSG_LIN_def
        LOG_MSG_RCIN_def LOG_MSG_OUTP_def LOG_MSG_HIPS_def LOG_MSG_HERR_def LOG_MSG_LEGS_def
        LOG_MSG_LEGV_def LOG_MSG_MOTV_def LOG_MSG_PWR_def LOG_MSG_VNED_def)
  ultimately show ?thesis by simp
qed

lemma log_schema_consistent_witness:
  "mk_log_def LOG_MSG_PWR ''PWR'' ''QHfff'' ''TimeUS,Rate,BattV,PmonV,TotalI'' 22 \<in> set kLogDefs
   \<and> fmt_size ''QHfff'' = 22"
proof -
  have "mk_log_def LOG_MSG_PWR ''PWR'' ''QHfff'' ''TimeUS,Rate,BattV,PmonV,TotalI'' 22 \<in> set kLogDefs"
    unfolding kLogDefs_def by (simp only: list.set insert_iff simp_thms)
  then show ?thesis using log_schema_consistent by (force simp: mk_log_def_def)
qed

text \<open>C29. A record is not written atomically: when the ring has room for the three-byte header but
  not for header and body, the write reports failure and yet leaves the header in the stream, so
  the next record follows a header without its body.\<close>
theorem logger_partial_record:
  assumes "ring_ok (lg_ring l)" "lg_open l"
    and "length (ring_contents (lg_ring l)) + 3 \<le> 32767"
    and "32767 < length (ring_contents (lg_ring l)) + 3 + length body"
  shows "\<not> fst (logger_write i body l)
    \<and> ring_contents (lg_ring (snd (logger_write i body l))) = ring_contents (lg_ring l) @ [0xA3, 0x95, i]"
proof -
  let ?h = "[0xA3, 0x95, i]"
  let ?l1 = "l\<lparr>lg_ring := snd (ring_write ?h (lg_ring l))\<rparr>"
  have h: "ring_contents (lg_ring ?l1) = ring_contents (lg_ring l) @ ?h" "ring_ok (lg_ring ?l1)"
    using log_fifo.put_ok [OF assms(1), of ?h] log_fifo.put_invar [OF assms(1)] assms(3)
    by (simp_all add: BUF_SIZE_def)
  have "lg_ring_write ?h l = (True, ?l1)" "lg_ring_write body ?l1 = (False, ?l1)"
    using lg_ring_write_spec [OF assms(1), of ?h] lg_ring_write_spec [OF h(2), of body] assms(3,4) h(1)
    by (simp_all add: BUF_SIZE_def)
  then show ?thesis using assms(2) h by (simp add: logger_write_def)
qed

lemma logger_partial_record_witness:
  "\<exists>l. \<not> fst (logger_write 5 (replicate 28 0) l) \<and>
     length (ring_contents (lg_ring (snd (logger_write 5 (replicate 28 0) l)))) = 32763"
proof -
  define r where "r = snd (ring_write (replicate 32760 0) ring_new)"
  have "ring_ok r" "ring_contents r = replicate 32760 0"
    using log_fifo.put_ok [OF ring_new_ok(1), of "replicate 32760 0"]
      log_fifo.put_invar [OF ring_new_ok(1)] ring_new_ok(2)
    by (simp_all add: r_def BUF_SIZE_def)
  then show ?thesis
    using logger_partial_record [of "logger_new\<lparr>lg_ring := r, lg_open := True\<rparr>" "replicate 28 0" 5]
    by (intro exI [of _ "logger_new\<lparr>lg_ring := r, lg_open := True\<rparr>"]) simp
qed

end
