(* ===== verification/MathLib.thy ===== *)
theory MathLib
  imports Flt
begin

text \<open>
  The utilities of src/src/math/math.cpp and math.hpp: clamping, the first-order filter, the cross
  product, quaternions (Hamilton, scalar first) and the fixed-size matrix loops.  An output array is
  the returned value; a matrix is a function of its row and column, updated element by element the
  way the loops do it.
\<close>

section \<open>Scalar helpers and signal processing\<close>

definition constrain_float :: "flt \<Rightarrow> flt \<Rightarrow> flt \<Rightarrow> flt" where
  "constrain_float v lo hi = (if v < lo then lo else if hi < v then hi else v)"

definition lowpass_alpha :: "flt \<Rightarrow> flt \<Rightarrow> flt" where
  "lowpass_alpha fc_hz dt_s =
     (let tau = Fin 1 / (Fin 6.2831853 * fc_hz) in dt_s / (dt_s + tau))"

definition lowpass :: "flt \<Rightarrow> flt \<Rightarrow> flt \<Rightarrow> flt" where
  "lowpass input prev_out alpha = alpha * input + (Fin 1 - alpha) * prev_out"

definition derivative :: "flt \<Rightarrow> flt \<Rightarrow> flt \<Rightarrow> flt" where
  "derivative current prev dt_s = (current - prev) / dt_s"

definition integrate :: "flt \<Rightarrow> flt \<Rightarrow> flt" where
  "integrate value dt_s = value * dt_s"

section \<open>Three-vectors\<close>

type_synonym vec3 = "flt \<times> flt \<times> flt"

definition cross3 :: "vec3 \<Rightarrow> vec3 \<Rightarrow> vec3" where
  "cross3 a b = (case (a, b) of ((a0, a1, a2), (b0, b1, b2)) \<Rightarrow>
     (a1 * b2 - a2 * b1, a2 * b0 - a0 * b2, a0 * b1 - a1 * b0))"

section \<open>Quaternions\<close>

record quat =
  qw :: flt
  qx :: flt
  qy :: flt
  qz :: flt

definition mk_quat :: "flt \<Rightarrow> flt \<Rightarrow> flt \<Rightarrow> flt \<Rightarrow> quat" where
  "mk_quat w x y z = \<lparr>qw = w, qx = x, qy = y, qz = z\<rparr>"

definition quat_mul :: "quat \<Rightarrow> quat \<Rightarrow> quat" where
  "quat_mul a b = mk_quat
     (qw a * qw b - qx a * qx b - qy a * qy b - qz a * qz b)
     (qw a * qx b + qx a * qw b + qy a * qz b - qz a * qy b)
     (qw a * qy b - qx a * qz b + qy a * qw b + qz a * qx b)
     (qw a * qz b + qx a * qy b - qy a * qx b + qz a * qw b)"

definition quat_conj :: "quat \<Rightarrow> quat" where
  "quat_conj q = mk_quat (qw q) (- qx q) (- qy q) (- qz q)"

definition quat_norm :: "quat \<Rightarrow> quat" where
  "quat_norm q =
     (let n = sqrtf (qw q * qw q + qx q * qx q + qy q * qy q + qz q * qz q) in
      if n < Fin 0.0000000001 then mk_quat (Fin 1) (Fin 0) (Fin 0) (Fin 0)
      else let inv = Fin 1 / n in mk_quat (qw q * inv) (qx q * inv) (qy q * inv) (qz q * inv))"

definition quat_dot :: "quat \<Rightarrow> quat \<Rightarrow> flt" where
  "quat_dot a b = qw a * qw b + qx a * qx b + qy a * qy b + qz a * qz b"

text \<open>Roll, pitch and yaw of a quaternion, ZYX order.\<close>
definition quat_to_euler :: "quat \<Rightarrow> vec3" where
  "quat_to_euler q =
     (let w = qw q; x = qx q; y = qy q; z = qz q;
          roll = atan2f (Fin 2 * (w * x + y * z)) (Fin 1 - Fin 2 * (x * x + y * y));
          sp = constrain_float (Fin 2 * (w * y - z * x)) (Fin (- 1)) (Fin 1);
          pitch = asinf sp;
          yaw = atan2f (Fin 2 * (w * z + x * y)) (Fin 1 - Fin 2 * (y * y + z * z))
      in (roll, pitch, yaw))"

type_synonym mat = "nat \<Rightarrow> nat \<Rightarrow> flt"

definition mat_upd :: "mat \<Rightarrow> nat \<Rightarrow> nat \<Rightarrow> flt \<Rightarrow> mat" where
  "mat_upd M i j v = M(i := (M i)(j := v))"

definition mat_of_rows :: "flt list list \<Rightarrow> mat" where
  "mat_of_rows rs = (\<lambda>i j. rs ! i ! j)"

definition quat_to_rot_body2ned :: "quat \<Rightarrow> mat" where
  "quat_to_rot_body2ned q =
     (let w = qw q; x = qx q; y = qy q; z = qz q in mat_of_rows
      [[Fin 1 - Fin 2 * (y * y + z * z), Fin 2 * (x * y - w * z), Fin 2 * (x * z + w * y)],
       [Fin 2 * (x * y + w * z), Fin 1 - Fin 2 * (x * x + z * z), Fin 2 * (y * z - w * x)],
       [Fin 2 * (x * z - w * y), Fin 2 * (y * z + w * x), Fin 1 - Fin 2 * (x * x + y * y)]])"

section \<open>Matrix loops\<close>

text \<open>A counted loop for (i = 0; i < n; ++i) over a state.\<close>
abbreviation for_upto :: "nat \<Rightarrow> (nat \<Rightarrow> 's \<Rightarrow> 's) \<Rightarrow> 's \<Rightarrow> 's" where
  "for_upto n body s \<equiv> fold body [0..<n] s"

definition mat_zero :: mat where
  "mat_zero = (\<lambda>i j. Fin 0)"

definition mat_mul :: "nat \<Rightarrow> mat \<Rightarrow> mat \<Rightarrow> mat" where
  "mat_mul n A B =
     for_upto n (\<lambda>i C. for_upto n (\<lambda>k C.
        if feq (A i k) (Fin 0) then C
        else for_upto n (\<lambda>j C. mat_upd C i j (C i j + A i k * B k j)) C) C) mat_zero"

definition mat_add :: "nat \<Rightarrow> mat \<Rightarrow> mat \<Rightarrow> mat \<Rightarrow> mat" where
  "mat_add n A B C =
     for_upto n (\<lambda>i C. for_upto n (\<lambda>j C. mat_upd C i j (A i j + B i j)) C) C"

definition mat_trans :: "nat \<Rightarrow> mat \<Rightarrow> mat \<Rightarrow> mat" where
  "mat_trans n A AT =
     for_upto n (\<lambda>i AT. for_upto n (\<lambda>j AT. mat_upd AT j i (A i j)) AT) AT"

section \<open>Facts the components use\<close>

lemma constrain_float_Fin [simp, flt_simps]:
  "constrain_float (Fin v) (Fin lo) (Fin hi) = Fin (clampr v lo hi)"
  by (simp add: constrain_float_def clampr_def)

lemma constrain_float_NaN [simp]: "constrain_float NaN lo hi = NaN"
  by (simp add: constrain_float_def)

lemma constrain_float_inf [simp]:
  "constrain_float PInf (Fin lo) (Fin hi) = Fin hi" "constrain_float NInf (Fin lo) (Fin hi) = Fin lo"
  by (simp_all add: constrain_float_def)

text \<open>Whatever is not NaN ends between finite bounds.\<close>
lemma constrain_float_range:
  assumes "\<not> isnan v" "lo \<le> hi"
  shows "\<exists>r. constrain_float v (Fin lo) (Fin hi) = Fin r \<and> lo \<le> r \<and> r \<le> hi"
  using assms by (cases v) (auto simp: clampr_def)

lemma constrain_float_isnan: "isnan (constrain_float v (Fin lo) (Fin hi)) \<longleftrightarrow> isnan v"
  by (cases v) auto

lemma lowpass_alpha_unit:
  assumes "0 < fc" "0 < dt"
  shows "\<exists>a. lowpass_alpha (Fin fc) (Fin dt) = Fin a \<and> 0 < a \<and> a < 1"
proof -
  have p: "0 < 1 / (6.2831853 * fc)" using assms by simp
  then have "dt + 1 / (6.2831853 * fc) \<noteq> 0" using assms by linarith
  then show ?thesis
    using p assms by (intro exI [of _ "dt / (dt + 1 / (6.2831853 * fc))"])
      (simp add: lowpass_alpha_def Let_def add_pos_pos)
qed

lemma mat_upd_apply: "mat_upd M i j v a b = (if a = i \<and> b = j then v else M a b)"
  by (simp add: mat_upd_def)

lemma for_upto_Suc: "for_upto (Suc n) f s = f n (for_upto n f s)"
  by simp

lemma row_update_loop:
  "for_upto n (\<lambda>j C. mat_upd C i j (C i j + f j)) C a b =
     (if a = i \<and> b < n then C a b + f b else C a b)"
  by (induction n) (auto simp: mat_upd_apply less_Suc_eq)

lemma row_set_loop:
  "for_upto n (\<lambda>j C. mat_upd C i j (f j)) C a b = (if a = i \<and> b < n then f b else C a b)"
  by (induction n) (auto simp: mat_upd_apply less_Suc_eq)

lemma col_set_loop:
  "for_upto n (\<lambda>j C. mat_upd C j i (f j)) C a b = (if b = i \<and> a < n then f a else C a b)"
  by (induction n) (auto simp: mat_upd_apply less_Suc_eq)

lemma mat_trans_apply: "mat_trans n A AT a b = (if a < n \<and> b < n then A b a else AT a b)"
proof -
  have "for_upto m (\<lambda>i AT. for_upto n (\<lambda>j AT. mat_upd AT j i (A i j)) AT) AT a b =
      (if b < m \<and> a < n then A b a else AT a b)" for m
    by (induction m) (auto simp: col_set_loop less_Suc_eq)
  then show ?thesis by (auto simp: mat_trans_def)
qed

lemma mat_add_apply:
  "mat_add n A B C a b = (if a < n \<and> b < n then A a b + B a b else C a b)"
proof -
  have "for_upto m (\<lambda>i C. for_upto n (\<lambda>j C. mat_upd C i j (A i j + B i j)) C) C a b =
      (if a < m \<and> b < n then A a b + B a b else C a b)" for m
    by (induction m) (auto simp: row_set_loop less_Suc_eq)
  then show ?thesis by (auto simp: mat_add_def)
qed

text \<open>Matrices of finite numbers, read as real matrices.\<close>
definition fin_mat :: "nat \<Rightarrow> mat \<Rightarrow> bool" where
  "fin_mat n M = (\<forall>i < n. \<forall>j < n. isfin (M i j))"

lemma mat_mul_inner:
  assumes A: "\<forall>k < n. isfin (A k)" and B: "\<forall>k < n. isfin (B k b)" and m: "m \<le> n" and b: "b < n"
    and C: "isfin (C i b)"
  shows "for_upto m (\<lambda>k C. if feq (A k) (Fin 0) then C
           else for_upto n (\<lambda>j C. mat_upd C i j (C i j + A k * B k j)) C) C i b
         = Fin (val (C i b) + (\<Sum>k < m. val (A k) * val (B k b)))"
  using m
proof (induction m)
  case 0
  then show ?case using C by (auto elim: isfinE)
next
  case (Suc m)
  obtain x where x: "A m = Fin x" using A Suc.prems by (meson Suc_le_lessD isfinE)
  obtain y where y: "B m b = Fin y" using B Suc.prems by (meson Suc_le_lessD isfinE)
  show ?case using Suc b by (simp add: row_update_loop x y)
qed

lemma mat_mul_frame:
  assumes "a \<noteq> i"
  shows "for_upto m (\<lambda>k C. if feq (A k) (Fin 0) then C
           else for_upto n (\<lambda>j C. mat_upd C i j (C i j + A k * B k j)) C) C a b = C a b"
  using assms by (induction m) (auto simp: row_update_loop)

lemma mat_mul_apply:
  assumes "fin_mat n A" "fin_mat n B" "a < n" "b < n"
  shows "mat_mul n A B a b = Fin (\<Sum>k < n. val (A a k) * val (B k b))"
proof -
  let ?row = "\<lambda>i C. for_upto n (\<lambda>k C. if feq (A i k) (Fin 0) then C
        else for_upto n (\<lambda>j C. mat_upd C i j (C i j + A i k * B k j)) C) C"
  have "for_upto m ?row mat_zero a b =
      (if a < m then Fin (\<Sum>k < n. val (A a k) * val (B k b)) else Fin 0)" if "m \<le> n" for m
    using that
  proof (induction m)
    case 0
    then show ?case by (simp add: mat_zero_def)
  next
    case (Suc m)
    show ?case
    proof (cases "a = m")
      case True
      have "for_upto m ?row mat_zero a b = Fin 0" using Suc True by simp
      then show ?thesis
        using assms Suc.prems
          mat_mul_inner [of n "A m" B b n "for_upto m ?row mat_zero" m]
        by (simp add: fin_mat_def True)
    next
      case False
      then show ?thesis using Suc mat_mul_frame [OF False] by (auto simp: less_Suc_eq)
    qed
  qed
  then show ?thesis using assms by (simp add: mat_mul_def)
qed

lemma mk_quat_sel [simp]:
  "qw (mk_quat w x y z) = w" "qx (mk_quat w x y z) = x" "qy (mk_quat w x y z) = y"
  "qz (mk_quat w x y z) = z"
  by (simp_all add: mk_quat_def)

lemma quat_eq_mk: "q = mk_quat (qw q) (qx q) (qy q) (qz q)"
  by (cases q) (simp add: mk_quat_def)

definition fin_quat :: "quat \<Rightarrow> bool" where
  "fin_quat q = (isfin (qw q) \<and> isfin (qx q) \<and> isfin (qy q) \<and> isfin (qz q))"

lemma fin_quatE:
  assumes "fin_quat q"
  obtains w x y z where "q = mk_quat (Fin w) (Fin x) (Fin y) (Fin z)"
  using assms by (metis fin_quat_def isfinE quat_eq_mk)

definition sqnorm :: "quat \<Rightarrow> real" where
  "sqnorm q = val (qw q) ^ 2 + val (qx q) ^ 2 + val (qy q) ^ 2 + val (qz q) ^ 2"

lemma sqnorm_nonneg: "0 \<le> sqnorm q"
  by (simp add: sqnorm_def)

lemma quat_norm_fin:
  assumes "fin_quat q"
  shows "fin_quat (quat_norm q) \<and> sqnorm (quat_norm q) = 1"
proof -
  obtain w x y z where q: "q = mk_quat (Fin w) (Fin x) (Fin y) (Fin z)"
    using assms by (rule fin_quatE)
  define s where "s = w * w + x * x + y * y + z * z"
  have s0: "0 \<le> s" by (simp add: s_def)
  show ?thesis
  proof (cases "sqrt s < 0.0000000001")
    case True
    then show ?thesis
      using s0 by (simp add: q quat_norm_def fin_quat_def sqnorm_def flip: s_def)
  next
    case False
    then have pos: "0 < s" by (smt (verit) real_sqrt_zero s0 divide_pos_pos zero_less_power
          real_sqrt_gt_0_iff)
    have sq: "(v * (1 / sqrt s))\<^sup>2 = v * v / s" for v
      using pos by (simp add: power_divide power2_eq_square)
    have "(w * (1 / sqrt s))\<^sup>2 + (x * (1 / sqrt s))\<^sup>2 + (y * (1 / sqrt s))\<^sup>2 + (z * (1 / sqrt s))\<^sup>2
        = s / s"
      unfolding sq by (simp only: s_def add_divide_distrib)
    then show ?thesis
      using pos False by (simp add: q quat_norm_def fin_quat_def sqnorm_def Let_def flip: s_def)
  qed
qed

section \<open>Properties\<close>

text \<open>Normalising any finite quaternion gives a finite quaternion of norm exactly one; the
  near-zero guard returns the identity rotation instead of dividing by a vanishing norm.\<close>
lemma quat_norm_unit:
  assumes "fin_quat q"
  shows "fin_quat (quat_norm q) \<and> sqnorm (quat_norm q) = 1"
  using assms by (rule quat_norm_fin)

lemma quat_norm_unit_witness:
  "fin_quat (mk_quat (Fin 3) (Fin 0) (Fin 4) (Fin 0)) \<and>
   sqnorm (quat_norm (mk_quat (Fin 3) (Fin 0) (Fin 4) (Fin 0))) = 1"
  using quat_norm_unit [of "mk_quat (Fin 3) (Fin 0) (Fin 4) (Fin 0)"]
  by (simp add: fin_quat_def)

lemma less3_cases: "a < (3::nat) \<Longrightarrow> a = 0 \<or> a = 1 \<or> a = 2"
  by auto

lemma rot_entries:
  assumes "q = mk_quat (Fin w) (Fin x) (Fin y) (Fin z)"
  shows "a < 3 \<Longrightarrow> b < 3 \<Longrightarrow> quat_to_rot_body2ned q a b = Fin (
    [[1 - 2 * (y * y + z * z), 2 * (x * y - w * z), 2 * (x * z + w * y)],
     [2 * (x * y + w * z), 1 - 2 * (x * x + z * z), 2 * (y * z - w * x)],
     [2 * (x * z - w * y), 2 * (y * z + w * x), 1 - 2 * (x * x + y * y)]] ! a ! b)"
  using assms
  by (auto dest!: less3_cases simp: quat_to_rot_body2ned_def mat_of_rows_def Let_def)

lemma sum_upto_3: "(\<Sum>k<(3::nat). f k) = f 0 + f 1 + (f 2 :: real)"
  by (simp add: numeral_3_eq_3 numeral_2_eq_2)

lemma rot_rows:
  fixes w x y z :: real
  assumes "w\<^sup>2 = 1 - x\<^sup>2 - y\<^sup>2 - z\<^sup>2"
  shows
    "(1 - 2 * (y * y + z * z)) * (1 - 2 * (y * y + z * z)) + 2 * (x * y - w * z) * (2 * (x * y - w * z))
       + 2 * (x * z + w * y) * (2 * (x * z + w * y)) = 1"
    "(1 - 2 * (y * y + z * z)) * (2 * (x * y + w * z)) + 2 * (x * y - w * z) * (1 - 2 * (x * x + z * z))
       + 2 * (x * z + w * y) * (2 * (y * z - w * x)) = 0"
    "(1 - 2 * (y * y + z * z)) * (2 * (x * z - w * y)) + 2 * (x * y - w * z) * (2 * (y * z + w * x))
       + 2 * (x * z + w * y) * (1 - 2 * (x * x + y * y)) = 0"
    "2 * (x * y + w * z) * (1 - 2 * (y * y + z * z)) + (1 - 2 * (x * x + z * z)) * (2 * (x * y - w * z))
       + 2 * (y * z - w * x) * (2 * (x * z + w * y)) = 0"
    "2 * (x * y + w * z) * (2 * (x * y + w * z)) + (1 - 2 * (x * x + z * z)) * (1 - 2 * (x * x + z * z))
       + 2 * (y * z - w * x) * (2 * (y * z - w * x)) = 1"
    "2 * (x * y + w * z) * (2 * (x * z - w * y)) + (1 - 2 * (x * x + z * z)) * (2 * (y * z + w * x))
       + 2 * (y * z - w * x) * (1 - 2 * (x * x + y * y)) = 0"
    "2 * (x * z - w * y) * (1 - 2 * (y * y + z * z)) + 2 * (y * z + w * x) * (2 * (x * y - w * z))
       + (1 - 2 * (x * x + y * y)) * (2 * (x * z + w * y)) = 0"
    "2 * (x * z - w * y) * (2 * (x * y + w * z)) + 2 * (y * z + w * x) * (1 - 2 * (x * x + z * z))
       + (1 - 2 * (x * x + y * y)) * (2 * (y * z - w * x)) = 0"
    "2 * (x * z - w * y) * (2 * (x * z - w * y)) + 2 * (y * z + w * x) * (2 * (y * z + w * x))
       + (1 - 2 * (x * x + y * y)) * (1 - 2 * (x * x + y * y)) = 1"
  using assms(1) by algebra+

text \<open>The rotation matrix built from a unit quaternion is orthogonal: multiplying it by its
  transpose, with the code's own matrix loops, gives the identity, so frame changes preserve
  lengths.\<close>
theorem rot_matrix_orthogonal:
  assumes "fin_quat q" "sqnorm q = 1" "a < 3" "b < 3"
  shows "mat_mul 3 (quat_to_rot_body2ned q) (mat_trans 3 (quat_to_rot_body2ned q) mat_zero) a b
         = (if a = b then Fin 1 else Fin 0)"
proof -
  obtain w x y z where q: "q = mk_quat (Fin w) (Fin x) (Fin y) (Fin z)"
    using assms(1) by (rule fin_quatE)
  have unit: "w\<^sup>2 = 1 - x\<^sup>2 - y\<^sup>2 - z\<^sup>2" using assms(2) by (simp add: q sqnorm_def)
  let ?R = "quat_to_rot_body2ned q"
  have R: "fin_mat 3 ?R" by (simp add: fin_mat_def rot_entries [OF q])
  then have T: "fin_mat 3 (mat_trans 3 ?R mat_zero)"
    by (simp add: fin_mat_def mat_trans_apply)
  have "mat_mul 3 ?R (mat_trans 3 ?R mat_zero) a b = Fin (\<Sum>k<3. val (?R a k) * val (?R b k))"
    using assms(4) by (simp add: mat_mul_apply [OF R T assms(3,4)] mat_trans_apply)
  also have "(\<Sum>k<3. val (?R a k) * val (?R b k)) = (if a = b then 1 else 0)"
    using less3_cases [OF assms(3)] less3_cases [OF assms(4)] rot_rows [OF unit]
    by (elim disjE; simp add: sum_upto_3 rot_entries [OF q])
  finally show ?thesis by simp
qed

lemma rot_matrix_orthogonal_witness:
  "mat_mul 3 (quat_to_rot_body2ned (mk_quat (Fin 0.6) (Fin 0) (Fin 0.8) (Fin 0)))
     (mat_trans 3 (quat_to_rot_body2ned (mk_quat (Fin 0.6) (Fin 0) (Fin 0.8) (Fin 0))) mat_zero) 0 2 = Fin 0"
  by (subst rot_matrix_orthogonal)
    (simp_all add: fin_quat_def sqnorm_def mk_quat_def power2_eq_square)

end
