(* ===== verification/Pid.thy ===== *)
theory Pid
  imports MathLib
begin

text \<open>
  The PID controller of src/src/controllers/PID.cpp: proportional action, a clamped integrator, a
  low-pass filtered derivative, and a restart after 200 ms without a sample.  The 32-bit microsecond
  clock is an argument; its difference wraps.
\<close>

record pid =
  pid_kp :: flt
  pid_ki :: flt
  pid_kd :: flt
  pid_imax :: flt
  pid_fcut_hz :: flt
  pid_integrator :: flt
  pid_last_error :: flt
  pid_last_derivative :: flt
  pid_deriv_valid :: bool
  pid_last_t_us :: u32

definition pid_new :: "flt \<Rightarrow> flt \<Rightarrow> flt \<Rightarrow> flt \<Rightarrow> flt \<Rightarrow> pid" where
  "pid_new kp ki kd imax fcut_hz =
     \<lparr>pid_kp = kp, pid_ki = ki, pid_kd = kd, pid_imax = imax, pid_fcut_hz = fcut_hz,
      pid_integrator = Fin 0, pid_last_error = Fin 0, pid_last_derivative = Fin 0,
      pid_deriv_valid = False, pid_last_t_us = 0\<rparr>"

definition pid_reset :: "pid \<Rightarrow> pid" where
  "pid_reset p = p\<lparr>pid_integrator := Fin 0, pid_last_error := Fin 0,
     pid_last_derivative := Fin 0, pid_deriv_valid := False\<rparr>"

definition pid_set_gains :: "flt \<Rightarrow> flt \<Rightarrow> flt \<Rightarrow> pid \<Rightarrow> pid" where
  "pid_set_gains kp ki kd p = p\<lparr>pid_kp := kp, pid_ki := ki, pid_kd := kd\<rparr>"

definition STALE_TIMEOUT_US :: flt where
  "STALE_TIMEOUT_US = Fin 200000"

definition pid_start :: "u32 \<Rightarrow> flt \<Rightarrow> pid \<Rightarrow> pid" where
  "pid_start now error p =
     p\<lparr>pid_last_t_us := now, pid_last_error := error, pid_deriv_valid := True\<rparr>"

definition pid_update :: "u32 \<Rightarrow> flt \<Rightarrow> pid \<Rightarrow> flt \<times> pid" where
  "pid_update now error p =
    (if \<not> pid_deriv_valid p then (pid_kp p * error, pid_start now error p)
     else let dt = flt_of_u32 (now - pid_last_t_us p) * Fin 0.000001 in
       if STALE_TIMEOUT_US * Fin 0.000001 < dt then
         (pid_kp p * error, pid_start now error (pid_reset p))
       else let
         p = p\<lparr>pid_last_t_us := now\<rparr>;
         p = p\<lparr>pid_integrator := pid_integrator p + pid_ki p * error * dt\<rparr>;
         p = p\<lparr>pid_integrator := constrain_float (pid_integrator p) (- pid_imax p) (pid_imax p)\<rparr>;
         output = pid_kp p * error + pid_integrator p;
         (output, p) =
           (if Fin 0 < dt then
              let raw_d = derivative error (pid_last_error p) dt;
                  alpha = lowpass_alpha (pid_fcut_hz p) dt;
                  p = p\<lparr>pid_last_derivative := lowpass raw_d (pid_last_derivative p) alpha\<rparr>
              in (output + pid_kd p * pid_last_derivative p, p)
            else (output, p))
       in (output, p\<lparr>pid_last_error := error\<rparr>))"

text \<open>The samples of a run, each the clock and the error of one call.\<close>
primrec pid_run :: "(u32 \<times> flt) list \<Rightarrow> pid \<Rightarrow> flt list \<times> pid" where
  "pid_run [] p = ([], p)"
| "pid_run (s # ss) p =
     (let (u, p1) = pid_update (fst s) (snd s) p; (us, p2) = pid_run ss p1 in (u # us, p2))"

text \<open>A controller with finite gains and finite memory, its integrator inside the clamp.\<close>
definition pid_ok :: "pid \<Rightarrow> bool" where
  "pid_ok p = (isfin (pid_kp p) \<and> isfin (pid_ki p) \<and> isfin (pid_kd p) \<and> isfin (pid_imax p) \<and>
     Fin 0 \<le> pid_imax p \<and> isfin (pid_fcut_hz p) \<and> Fin 0 < pid_fcut_hz p \<and>
     isfin (pid_integrator p) \<and> \<bar>val (pid_integrator p)\<bar> \<le> val (pid_imax p) \<and>
     isfin (pid_last_error p) \<and> isfin (pid_last_derivative p))"

lemma lowpass_Fin:
  "lowpass (Fin x) (Fin y) (Fin a) = Fin (a * x + (1 - a) * y)"
  by (simp add: lowpass_def)

lemma pid_okE:
  assumes "pid_ok p"
  obtains kp ki kd m fc i e d where
    "pid_kp p = Fin kp" "pid_ki p = Fin ki" "pid_kd p = Fin kd" "pid_imax p = Fin m"
    "pid_fcut_hz p = Fin fc" "pid_integrator p = Fin i" "pid_last_error p = Fin e"
    "pid_last_derivative p = Fin d" "0 \<le> m" "0 < fc" "\<bar>i\<bar> \<le> m"
  using assms unfolding pid_ok_def by (auto elim!: isfinE)

lemma pid_okI:
  "pid_kp p = Fin kp \<Longrightarrow> pid_ki p = Fin ki \<Longrightarrow> pid_kd p = Fin kd \<Longrightarrow> pid_imax p = Fin m \<Longrightarrow>
   pid_fcut_hz p = Fin fc \<Longrightarrow> pid_integrator p = Fin i \<Longrightarrow> pid_last_error p = Fin e \<Longrightarrow>
   pid_last_derivative p = Fin d \<Longrightarrow> 0 \<le> m \<Longrightarrow> 0 < fc \<Longrightarrow> \<bar>i\<bar> \<le> m \<Longrightarrow> pid_ok p"
  by (simp add: pid_ok_def)

lemma pid_start_ok [intro]: "pid_ok p \<Longrightarrow> isfin e \<Longrightarrow> pid_ok (pid_start now e p)"
  by (simp add: pid_ok_def pid_start_def)

lemma pid_reset_ok [intro]: "pid_ok p \<Longrightarrow> pid_ok (pid_reset p)"
  by (auto simp: pid_ok_def pid_reset_def elim!: isfinE)

definition pid_dt :: "u32 \<Rightarrow> pid \<Rightarrow> real" where
  "pid_dt now p = real (unat (now - pid_last_t_us p)) * 0.000001"

text \<open>The call after a gap: the memory is dropped and only the proportional term is returned.\<close>
lemma pid_update_restart:
  assumes "\<not> pid_deriv_valid p \<or> 0.2 < pid_dt now p"
  shows "fst (pid_update now e p) = pid_kp p * e"
    "pid_integrator (snd (pid_update now e p)) = (if pid_deriv_valid p then Fin 0 else pid_integrator p)"
  using assms
  by (auto simp: pid_update_def pid_dt_def STALE_TIMEOUT_US_def pid_start_def pid_reset_def)

text \<open>The regular step on finite data.\<close>
lemma pid_update_regular:
  assumes v: "pid_deriv_valid p" and dt: "pid_dt now p \<le> 0.2"
    and p: "pid_kp p = Fin kp" "pid_ki p = Fin ki" "pid_kd p = Fin kd" "pid_imax p = Fin m"
      "pid_fcut_hz p = Fin fc" "pid_integrator p = Fin i" "pid_last_error p = Fin e0"
      "pid_last_derivative p = Fin d" "0 < fc"
  shows "\<exists>a. (pid_dt now p > 0 \<longrightarrow> 0 < a \<and> a < 1) \<and>
    pid_update now (Fin e) p =
     (let i' = clampr (i + ki * e * pid_dt now p) (- m) m;
          d' = (if pid_dt now p > 0 then a * ((e - e0) / pid_dt now p) + (1 - a) * d else d)
      in (Fin (kp * e + i' + (if pid_dt now p > 0 then kd * d' else 0)),
          p\<lparr>pid_last_t_us := now, pid_integrator := Fin i', pid_last_derivative := Fin d',
            pid_last_error := Fin e\<rparr>))"
proof (cases "pid_dt now p > 0")
  case True
  then obtain a where a: "lowpass_alpha (Fin fc) (Fin (pid_dt now p)) = Fin a" "0 < a" "a < 1"
    using lowpass_alpha_unit assms by blast
  have q: "flt_of_u32 (now - pid_last_t_us p) * Fin 0.000001 = Fin (pid_dt now p)"
    by (simp add: pid_dt_def)
  show ?thesis
    using v dt True a(2,3) unfolding pid_update_def q
    by (intro exI [of _ a])
      (simp add: p Let_def STALE_TIMEOUT_US_def derivative_def a(1) lowpass_Fin)
next
  case False
  have q: "flt_of_u32 (now - pid_last_t_us p) * Fin 0.000001 = Fin (pid_dt now p)"
    by (simp add: pid_dt_def)
  show ?thesis
    using v dt False unfolding pid_update_def q
    by (intro exI [of _ 0])
      (simp add: p Let_def STALE_TIMEOUT_US_def)
qed

lemma convex_abs_le:
  fixes a :: real
  assumes "0 < a" "a < 1" "\<bar>x\<bar> \<le> B" "\<bar>y\<bar> \<le> B"
  shows "\<bar>a * x + (1 - a) * y\<bar> \<le> B"
proof -
  have "\<bar>a * x + (1 - a) * y\<bar> \<le> a * \<bar>x\<bar> + (1 - a) * \<bar>y\<bar>"
    using assms by (simp add: abs_mult order_trans [OF abs_triangle_ineq])
  also have "\<dots> \<le> a * B + (1 - a) * B"
    using assms by (intro add_mono mult_left_mono) auto
  finally show ?thesis by (simp add: algebra_simps)
qed

text \<open>One sample: well-formedness is kept, and the output is the proportional term plus at most the
  integrator clamp plus the derivative gain times a bound of the error's rate of change.\<close>
lemma pid_update_step:
  assumes ok: "pid_ok p" and err: "isfin error" and D: "\<bar>val (pid_last_derivative p)\<bar> \<le> D"
    and rate: "pid_deriv_valid p \<Longrightarrow>
        \<bar>val error - val (pid_last_error p)\<bar> \<le> D * pid_dt now p"
    and upd: "pid_update now error p = (u, p')"
  shows "pid_ok p' \<and> isfin u \<and> \<bar>val u - val (pid_kp p) * val error\<bar> \<le> val (pid_imax p) + \<bar>val (pid_kd p)\<bar> * D
     \<and> \<bar>val (pid_last_derivative p')\<bar> \<le> D \<and> pid_last_error p' = error \<and> pid_last_t_us p' = now
     \<and> pid_kp p' = pid_kp p \<and> pid_kd p' = pid_kd p \<and> pid_imax p' = pid_imax p"
proof -
  obtain kp ki kd m fc i e0 d where p: "pid_kp p = Fin kp" "pid_ki p = Fin ki" "pid_kd p = Fin kd"
      "pid_imax p = Fin m" "pid_fcut_hz p = Fin fc" "pid_integrator p = Fin i"
      "pid_last_error p = Fin e0" "pid_last_derivative p = Fin d" and m: "0 \<le> m" "0 < fc" "\<bar>i\<bar> \<le> m"
    using pid_okE [OF ok] by metis
  obtain e where e: "error = Fin e" using err by (auto elim: isfinE)
  have D0: "0 \<le> D" using D by linarith
  have kD: "0 \<le> \<bar>kd\<bar> * D" using D0 by simp
  show ?thesis
  proof (cases "\<not> pid_deriv_valid p \<or> 0.2 < pid_dt now p")
    case True
    then have "u = Fin (kp * e)"
      using pid_update_restart(1) [OF True, of error] upd by (simp add: p e)
    moreover have "p' = pid_start now error p \<or> p' = pid_start now error (pid_reset p)"
      using True upd
      by (auto simp: pid_update_def pid_dt_def STALE_TIMEOUT_US_def split: if_splits)
    ultimately show ?thesis
      using ok err m D D0 kD by (auto simp: p e pid_start_def pid_reset_def pid_ok_def)
  next
    case False
    then have v: "pid_deriv_valid p" "pid_dt now p \<le> 0.2" by auto
    define dt where "dt = pid_dt now p"
    obtain a where a: "dt > 0 \<longrightarrow> 0 < a \<and> a < 1"
      and up: "pid_update now (Fin e) p =
       (let i' = clampr (i + ki * e * dt) (- m) m;
            d' = (if dt > 0 then a * ((e - e0) / dt) + (1 - a) * d else d)
        in (Fin (kp * e + i' + (if dt > 0 then kd * d' else 0)),
            p\<lparr>pid_last_t_us := now, pid_integrator := Fin i', pid_last_derivative := Fin d',
              pid_last_error := Fin e\<rparr>))"
      using pid_update_regular [OF v p m(2), of e] unfolding dt_def by blast
    define i' where "i' = clampr (i + ki * e * dt) (- m) m"
    define d' where "d' = (if dt > 0 then a * ((e - e0) / dt) + (1 - a) * d else d)"
    have i': "\<bar>i'\<bar> \<le> m" using m(1) by (simp add: i'_def clampr_abs)
    have d': "\<bar>d'\<bar> \<le> D"
    proof (cases "dt > 0")
      case True
      have "\<bar>(e - e0) / dt\<bar> \<le> D"
        using rate [OF v(1)] True by (simp add: p e dt_def [symmetric] abs_divide divide_le_eq)
      then have "\<bar>a * ((e - e0) / dt) + (1 - a) * d\<bar> \<le> D"
        using a True D p by (intro convex_abs_le) auto
      then show ?thesis using True by (simp add: d'_def)
    qed (use D in \<open>simp add: d'_def p\<close>)
    have u: "u = Fin (kp * e + i' + (if dt > 0 then kd * d' else 0))"
      and p': "p' = p\<lparr>pid_last_t_us := now, pid_integrator := Fin i',
          pid_last_derivative := Fin d', pid_last_error := Fin e\<rparr>"
      using upd unfolding e up Let_def i'_def [symmetric] d'_def [symmetric] by simp_all
    have "\<bar>kd * d'\<bar> \<le> \<bar>kd\<bar> * D" using d' by (simp add: abs_mult mult_left_mono)
    then have "\<bar>i' + (if dt > 0 then kd * d' else 0)\<bar> \<le> m + \<bar>kd\<bar> * D"
      using i' kD by (smt (verit))
    moreover have "pid_ok p'" using m i' by (auto simp: p' p pid_ok_def)
    ultimately show ?thesis using d' by (simp add: u p' p e)
  qed
qed

text \<open>Without a bound on the rate the output is still finite.\<close>
lemma pid_update_fin:
  assumes "pid_ok p" "isfin e"
  shows "pid_ok (snd (pid_update now e p)) \<and> isfin (fst (pid_update now e p))"
proof -
  obtain kp ki kd m fc i e0 d where p: "pid_kp p = Fin kp" "pid_ki p = Fin ki" "pid_kd p = Fin kd"
      "pid_imax p = Fin m" "pid_fcut_hz p = Fin fc" "pid_integrator p = Fin i"
      "pid_last_error p = Fin e0" "pid_last_derivative p = Fin d" and m: "0 \<le> m" "0 < fc" "\<bar>i\<bar> \<le> m"
    using pid_okE [OF assms(1)] by metis
  obtain x where e: "e = Fin x" using assms(2) by (auto elim: isfinE)
  show ?thesis
  proof (cases "\<not> pid_deriv_valid p \<or> 0.2 < pid_dt now p")
    case True
    then have "fst (pid_update now e p) = Fin (kp * x)"
      using pid_update_restart(1) [OF True, of e] by (simp add: p e)
    moreover have "snd (pid_update now e p) = pid_start now e p \<or>
        snd (pid_update now e p) = pid_start now e (pid_reset p)"
      using True by (auto simp: pid_update_def pid_dt_def STALE_TIMEOUT_US_def)
    ultimately show ?thesis
      using pid_start_ok [OF assms] pid_start_ok [OF pid_reset_ok [OF assms(1)] assms(2)]
      by (auto simp del: isfin_simps) simp_all
  next
    case False
    then have v: "pid_deriv_valid p" "pid_dt now p \<le> 0.2" by auto
    have "\<bar>clampr y (- m) m\<bar> \<le> m" for y using m(1) by (simp add: clampr_abs)
    then show ?thesis
      using pid_update_regular [OF v p m(2), of x] m unfolding e Let_def
      by (auto simp: pid_ok_def p)
  qed
qed

text \<open>Consecutive samples whose error changes by at most D per second.\<close>
fun samples_rate :: "real \<Rightarrow> (u32 \<times> flt) list \<Rightarrow> bool" where
  "samples_rate D ((t, e) # (t', e') # ss) =
     (\<bar>val e' - val e\<bar> \<le> D * (real (unat (t' - t)) * 0.000001) \<and> samples_rate D ((t', e') # ss))"
| "samples_rate D _ = True"

lemma pid_run_ok:
  assumes "pid_ok p" "\<forall>s \<in> set ss. isfin (snd s) \<and> \<bar>val (snd s)\<bar> \<le> E"
    "\<bar>val (pid_last_derivative p)\<bar> \<le> D"
    "pid_deriv_valid p \<longrightarrow> samples_rate D ((pid_last_t_us p, pid_last_error p) # ss)"
    "samples_rate D ss" "pid_run ss p = (us, p')"
  shows "pid_ok p' \<and> pid_imax p' = pid_imax p \<and> (\<forall>u \<in> set us. isfin u \<and>
     \<bar>val u\<bar> \<le> \<bar>val (pid_kp p)\<bar> * E + val (pid_imax p) + \<bar>val (pid_kd p)\<bar> * D)"
  using assms
proof (induction ss arbitrary: p us)
  case Nil
  then show ?case by simp
next
  case (Cons s ss)
  obtain t e where s: "s = (t, e)" by (cases s)
  obtain u p1 where u: "pid_update t e p = (u, p1)" by (cases "pid_update t e p")
  obtain us1 where us: "pid_run ss p1 = (us1, p')" "us = u # us1"
    using Cons.prems(6) by (simp add: s u split: prod.splits)
  have step: "pid_ok p1 \<and> isfin u \<and> \<bar>val u - val (pid_kp p) * val e\<bar> \<le> val (pid_imax p) + \<bar>val (pid_kd p)\<bar> * D
     \<and> \<bar>val (pid_last_derivative p1)\<bar> \<le> D \<and> pid_last_error p1 = e \<and> pid_last_t_us p1 = t
     \<and> pid_kp p1 = pid_kp p \<and> pid_kd p1 = pid_kd p \<and> pid_imax p1 = pid_imax p"
    using Cons.prems by (intro pid_update_step [OF _ _ _ _ u]) (auto simp: s pid_dt_def)
  have rest: "samples_rate D ss" "samples_rate D ((t, e) # ss)"
    using Cons.prems(5) by (cases ss; force simp: s)+
  have "\<bar>val (pid_kp p) * val e\<bar> \<le> \<bar>val (pid_kp p)\<bar> * E"
    using Cons.prems(2) by (simp add: s abs_mult mult_left_mono)
  then have "\<bar>val u\<bar> \<le> \<bar>val (pid_kp p)\<bar> * E + val (pid_imax p) + \<bar>val (pid_kd p)\<bar> * D"
    using step by linarith
  moreover have "pid_ok p' \<and> pid_imax p' = pid_imax p1 \<and> (\<forall>u \<in> set us1. isfin u \<and>
     \<bar>val u\<bar> \<le> \<bar>val (pid_kp p1)\<bar> * E + val (pid_imax p1) + \<bar>val (pid_kd p1)\<bar> * D)"
    using Cons.IH [OF _ _ _ _ _ us(1)] Cons.prems(2) step rest by auto
  ultimately show ?case using step by (auto simp: us(2))
qed

lemma pid_new_ok: "0 \<le> m \<Longrightarrow> 0 < fc \<Longrightarrow> pid_ok (pid_new (Fin kp) (Fin ki) (Fin kd) (Fin m) (Fin fc))"
  by (simp add: pid_new_def pid_ok_def)

section \<open>Properties\<close>

text \<open>From construction, over any sequence of samples (gaps included), a PID controller with
  finite gains fed finite errors bounded by E whose rate is bounded by D puts out finite numbers
  bounded by |kp| E + imax + |kd| D: the anti-windup clamp bounds the integral term however long
  the error lasts, and the filtered derivative never exceeds the error's own rate.\<close>
theorem pid_run_output_bound:
  assumes "0 \<le> m" "0 < fc" "0 \<le> D"
    and "\<forall>s \<in> set ss. isfin (snd s) \<and> \<bar>val (snd s)\<bar> \<le> E" "samples_rate D ss"
    and "u \<in> set (fst (pid_run ss (pid_new (Fin kp) (Fin ki) (Fin kd) (Fin m) (Fin fc))))"
  shows "isfin u \<and> \<bar>val u\<bar> \<le> \<bar>kp\<bar> * E + m + \<bar>kd\<bar> * D"
proof -
  let ?p = "pid_new (Fin kp) (Fin ki) (Fin kd) (Fin m) (Fin fc)"
  obtain us p' where run: "pid_run ss ?p = (us, p')" by (cases "pid_run ss ?p")
  show ?thesis
    using pid_run_ok [OF pid_new_ok [OF assms(1,2)] assms(4) _ _ assms(5) run] assms(3,6) run
    by (simp add: pid_new_def)
qed

lemma pid_run_output_bound_witness:
  "\<exists>u. u \<in> set (fst (pid_run [(1000, Fin 1), (11000, Fin 1.5)]
        (pid_new (Fin 2) (Fin 3) (Fin 0) (Fin 4) (Fin 30)))) \<and> \<bar>val u\<bar> \<le> 7"
proof -
  let ?run = "pid_run [(1000, Fin 1), (11000, Fin 1.5)]
        (pid_new (Fin 2) (Fin 3) (Fin 0) (Fin 4) (Fin 30))"
  have "Fin 2 \<in> set (fst ?run)"
    by (simp add: pid_new_def pid_update_def pid_start_def split: prod.splits)
  then show ?thesis
    using pid_run_output_bound [of 4 30 50 "[(1000, Fin 1), (11000, Fin 1.5)]" "1.5" "Fin 2" 2 3 0]
    by auto
qed

text \<open>A sample that arrives more than 200 ms after the last one (the wrapping microsecond
  difference) restarts the controller: the output is the proportional term alone, whatever the
  integrator held, and the state is that of a fresh controller that has seen one sample.\<close>
lemma pid_stale_restart:
  assumes "pid_deriv_valid p" "200000 < unat (now - pid_last_t_us p)"
  shows "pid_update now e p =
    (pid_kp p * e, (pid_new (pid_kp p) (pid_ki p) (pid_kd p) (pid_imax p) (pid_fcut_hz p))
       \<lparr>pid_last_error := e, pid_deriv_valid := True, pid_last_t_us := now\<rparr>)"
proof -
  have "(200000::real) < real (unat (now - pid_last_t_us p))" using assms(2) by linarith
  then show ?thesis
    using assms(1)
    by (cases p) (simp add: pid_update_def STALE_TIMEOUT_US_def pid_start_def pid_reset_def pid_new_def)
qed

lemma pid_stale_restart_witness:
  "fst (pid_update 300000 (Fin 2) ((pid_new (Fin 3) (Fin 1) (Fin 0) (Fin 4) (Fin 30))
     \<lparr>pid_deriv_valid := True, pid_integrator := Fin 4\<rparr>)) = Fin 6"
  using pid_stale_restart [of "(pid_new (Fin 3) (Fin 1) (Fin 0) (Fin 4) (Fin 30))
     \<lparr>pid_deriv_valid := True, pid_integrator := Fin 4\<rparr>" 300000 "Fin 2"]
  by (simp add: pid_new_def)

end
