(* ===== verification/FiveBar.thy ===== *)
theory FiveBar
  imports MathLib
begin

text \<open>
  The leg kinematics of src/src/kinematics/FiveBarIK.cpp: forward and inverse kinematics of the
  five-bar linkage by circle intersection, the finite-difference Jacobian and the foot point in
  north-east-down axes.  A call that reports an unreachable pose returns None.
\<close>

type_synonym vec2 = "flt \<times> flt"

definition v_add :: "vec2 \<Rightarrow> vec2 \<Rightarrow> vec2" where "v_add a b = (fst a + fst b, snd a + snd b)"
definition v_sub :: "vec2 \<Rightarrow> vec2 \<Rightarrow> vec2" where "v_sub a b = (fst a - fst b, snd a - snd b)"
definition v_scale :: "flt \<Rightarrow> vec2 \<Rightarrow> vec2" where "v_scale s v = (s * fst v, s * snd v)"
definition norm2 :: "vec2 \<Rightarrow> flt" where "norm2 v = hypotf (fst v) (snd v)"

record five_bar_params =
  fb_l1 :: flt
  fb_l2 :: flt
  fb_l3 :: flt
  fb_l4 :: flt
  fb_l5 :: flt

record five_bar_pose =
  ps_L0 :: flt
  ps_thL :: flt

record five_bar_vel =
  vl_L0_dot :: flt
  vl_thL_dot :: flt

record foot_point =
  ft_x :: flt
  ft_z :: flt
  ft_x_dot :: flt
  ft_z_dot :: flt

definition LEG_PARAMS :: five_bar_params where
  "LEG_PARAMS = \<lparr>fb_l1 = Fin 0.13, fb_l2 = Fin 0.22, fb_l3 = Fin 0.22, fb_l4 = Fin 0.13, fb_l5 = Fin 0.1\<rparr>"

definition circ_int :: "vec2 \<Rightarrow> flt \<Rightarrow> vec2 \<Rightarrow> flt \<Rightarrow> bool \<Rightarrow> vec2 option" where
  "circ_int P1 r1 P2 r2 pick_left =
    (let dv = v_sub P2 P1; d = norm2 dv in
     if r1 + r2 < d \<or> d < fabsf (r1 - r2) \<or> feq d (Fin 0) then None
     else let a = (r1 * r1 - r2 * r2 + d * d) / (Fin 2 * d);
              h = sqrtf (fmaxf (r1 * r1 - a * a) (Fin 0));
              U = v_scale (Fin 1 / d) dv;
              N = (- snd U, fst U);
              S1 = v_add (v_add P1 (v_scale a U)) (v_scale h N);
              S2 = v_sub (v_add P1 (v_scale a U)) (v_scale h N)
          in Some (if pick_left then (if fst S1 < fst S2 then S1 else S2)
                   else (if fst S2 < fst S1 then S1 else S2)))"

definition rear_hip :: "five_bar_params \<Rightarrow> vec2" where "rear_hip p = (- fb_l5 p / Fin 2, Fin 0)"
definition front_hip :: "five_bar_params \<Rightarrow> vec2" where "front_hip p = (fb_l5 p / Fin 2, Fin 0)"

definition rear_knee :: "five_bar_params \<Rightarrow> flt \<Rightarrow> vec2" where
  "rear_knee p phi1 = v_sub (rear_hip p) (fb_l1 p * cosf phi1, - fb_l1 p * sinf phi1)"

definition front_knee :: "five_bar_params \<Rightarrow> flt \<Rightarrow> vec2" where
  "front_knee p phi4 = v_add (front_hip p) (fb_l4 p * cosf phi4, fb_l4 p * sinf phi4)"

text \<open>The foot: the lower intersection of the circles around the knees.\<close>
definition fk_foot :: "five_bar_params \<Rightarrow> flt \<Rightarrow> flt \<Rightarrow> vec2 option" where
  "fk_foot p phi1 phi4 =
    (let B = rear_knee p phi1; D = front_knee p phi4;
         BD = v_sub D B; d = norm2 BD in
     if fb_l2 p + fb_l3 p < d \<or> d < fabsf (fb_l2 p - fb_l3 p) \<or> feq d (Fin 0) then None
     else let a = (fb_l2 p * fb_l2 p - fb_l3 p * fb_l3 p + d * d) / (Fin 2 * d);
              h = sqrtf (fmaxf (fb_l2 p * fb_l2 p - a * a) (Fin 0));
              Pm = v_add B (v_scale (a / d) BD);
              n = v_scale (Fin 1 / d) (snd BD, - fst BD);
              C1 = v_add Pm (v_scale h n);
              C2 = v_sub Pm (v_scale h n)
          in Some (if snd C1 < snd C2 then C1 else C2))"

definition fk :: "five_bar_params \<Rightarrow> flt \<Rightarrow> flt \<Rightarrow> five_bar_pose option" where
  "fk p phi1 phi4 = map_option (\<lambda>C. \<lparr>ps_L0 = norm2 C, ps_thL = atan2f (fst C) (- snd C)\<rparr>)
     (fk_foot p phi1 phi4)"

text \<open>The two knees of a foot position, and the angles they stand for.\<close>
definition ik_knees :: "five_bar_params \<Rightarrow> vec2 \<Rightarrow> (vec2 \<times> vec2) option" where
  "ik_knees p C =
    (case circ_int (rear_hip p) (fb_l1 p) C (fb_l2 p) True of None \<Rightarrow> None
     | Some B \<Rightarrow> (case circ_int (front_hip p) (fb_l4 p) C (fb_l3 p) False of None \<Rightarrow> None
        | Some D \<Rightarrow> Some (B, D)))"

definition foot_of :: "flt \<Rightarrow> flt \<Rightarrow> vec2" where
  "foot_of L0 thL = (L0 * sinf thL, - L0 * cosf thL)"

definition ik :: "five_bar_params \<Rightarrow> flt \<Rightarrow> flt \<Rightarrow> (flt \<times> flt) option" where
  "ik p L0 thL = map_option (\<lambda>(B, D).
       (atan2f (snd B - snd (rear_hip p)) (fst (rear_hip p) - fst B),
        atan2f (snd D - snd (front_hip p)) (fst D - fst (front_hip p))))
     (ik_knees p (foot_of L0 thL))"

definition JAC_EPS :: flt where "JAC_EPS = Fin 0.0001"

text \<open>Row-major: the first row is leg length, the second leg angle.\<close>
type_synonym jac2 = "(flt \<times> flt) \<times> (flt \<times> flt)"

definition jac :: "five_bar_params \<Rightarrow> flt \<Rightarrow> flt \<Rightarrow> jac2" where
  "jac p phi1 phi4 =
    (case (fk p (phi1 + JAC_EPS) phi4, fk p (phi1 - JAC_EPS) phi4,
           fk p phi1 (phi4 + JAC_EPS), fk p phi1 (phi4 - JAC_EPS)) of
       (Some p1_hi, Some p1_lo, Some p4_hi, Some p4_lo) \<Rightarrow>
         (((ps_L0 p1_hi - ps_L0 p1_lo) / (Fin 2 * JAC_EPS), (ps_L0 p4_hi - ps_L0 p4_lo) / (Fin 2 * JAC_EPS)),
          ((ps_thL p1_hi - ps_thL p1_lo) / (Fin 2 * JAC_EPS), (ps_thL p4_hi - ps_thL p4_lo) / (Fin 2 * JAC_EPS)))
     | _ \<Rightarrow> ((Fin 0, Fin 0), (Fin 0, Fin 0)))"

definition jac_to_vel :: "jac2 \<Rightarrow> flt \<Rightarrow> flt \<Rightarrow> five_bar_vel" where
  "jac_to_vel J phi1_dot phi4_dot =
    \<lparr>vl_L0_dot = fst (fst J) * phi1_dot + snd (fst J) * phi4_dot,
     vl_thL_dot = fst (snd J) * phi1_dot + snd (snd J) * phi4_dot\<rparr>"

definition foot_point_ned :: "five_bar_pose \<Rightarrow> five_bar_vel \<Rightarrow> foot_point" where
  "foot_point_ned pose vel =
    (let s = sinf (ps_thL pose); c = cosf (ps_thL pose) in
     \<lparr>ft_x = ps_L0 pose * s, ft_z = ps_L0 pose * c,
      ft_x_dot = vl_L0_dot vel * s + ps_L0 pose * vl_thL_dot vel * c,
      ft_z_dot = vl_L0_dot vel * c - ps_L0 pose * vl_thL_dot vel * s\<rparr>)"

section \<open>Circle intersection over the reals\<close>

definition rv :: "real \<times> real \<Rightarrow> vec2" where "rv v = (Fin (fst v), Fin (snd v))"

definition dist2 :: "real \<times> real \<Rightarrow> real \<times> real \<Rightarrow> real" where
  "dist2 a b = (fst a - fst b) ^ 2 + (snd a - snd b) ^ 2"

lemma rv_ops [simp]: "v_add (rv a) (rv b) = rv (fst a + fst b, snd a + snd b)"
  "v_sub (rv a) (rv b) = rv (fst a - fst b, snd a - snd b)"
  "v_scale (Fin s) (rv a) = rv (s * fst a, s * snd a)"
  "norm2 (rv a) = Fin (sqrt (fst a * fst a + snd a * snd a))"
  "fst (rv a) = Fin (fst a)" "snd (rv a) = Fin (snd a)"
  by (simp_all add: rv_def v_add_def v_sub_def v_scale_def norm2_def)

lemma rv_eq: "rv a = rv b \<longleftrightarrow> fst a = fst b \<and> snd a = snd b"
  by (simp add: rv_def)

text \<open>The half-chord is real when the centres are neither too far apart nor too close.\<close>
lemma half_chord:
  fixes r1 r2 d :: real
  assumes "d \<le> r1 + r2" "\<bar>r1 - r2\<bar> \<le> d" "0 < d"
  shows "((r1 * r1 - r2 * r2 + d * d) / (2 * d)) ^ 2 \<le> r1 ^ 2"
proof -
  have "(r1 + d) ^ 2 \<ge> r2 ^ 2" "r2 ^ 2 \<ge> (r1 - d) ^ 2"
    using assms by (auto simp: abs_le_square_iff [symmetric] power2_le_iff_abs_le abs_le_iff)
  then have "r1 * r1 - r2 * r2 + d * d \<ge> - (2 * d * r1)" "r1 * r1 - r2 * r2 + d * d \<le> 2 * d * r1"
    by (simp_all add: power2_eq_square algebra_simps)
  then have "\<bar>r1 * r1 - r2 * r2 + d * d\<bar> \<le> 2 * d * r1" by (intro abs_leI) linarith+
  then have "\<bar>(r1 * r1 - r2 * r2 + d * d) / (2 * d)\<bar> \<le> r1"
    using assms(3) by (simp add: abs_divide divide_le_eq mult.commute)
  then show ?thesis by (metis abs_le_square_iff abs_of_nonneg abs_ge_zero order_trans)
qed

text \<open>Both points at distance a along and h across the line of centres lie on both circles.\<close>
lemma chord_points:
  fixes x1 y1 x2 y2 r1 r2 :: real
  defines "d \<equiv> sqrt ((x2 - x1) * (x2 - x1) + (y2 - y1) * (y2 - y1))"
  defines "a \<equiv> (r1 * r1 - r2 * r2 + d * d) / (2 * d)"
  assumes "d \<noteq> 0" "h ^ 2 = r1 ^ 2 - a ^ 2" "s ^ 2 = 1"
  shows "dist2 (x1 + a * ((x2 - x1) / d) - s * h * ((y2 - y1) / d),
                y1 + a * ((y2 - y1) / d) + s * h * ((x2 - x1) / d)) (x1, y1) = r1 ^ 2"
    "dist2 (x1 + a * ((x2 - x1) / d) - s * h * ((y2 - y1) / d),
                y1 + a * ((y2 - y1) / d) + s * h * ((x2 - x1) / d)) (x2, y2) = r2 ^ 2"
proof -
  define u v where "u = (x2 - x1) / d" and "v = (y2 - y1) / d"
  have dd: "d * d = (x2 - x1) * (x2 - x1) + (y2 - y1) * (y2 - y1)" by (simp add: d_def)
  have "u ^ 2 + v ^ 2 = ((x2 - x1) * (x2 - x1) + (y2 - y1) * (y2 - y1)) / (d * d)"
    by (simp add: u_def v_def power_divide power2_eq_square add_divide_distrib)
  then have uv: "u ^ 2 + v ^ 2 = 1" unfolding dd [symmetric] using assms(3) by simp
  have xy: "x2 = x1 + d * u" "y2 = y1 + d * v" using assms(3) by (simp_all add: u_def v_def)
  have ad: "2 * a * d = r1 ^ 2 - r2 ^ 2 + d ^ 2" using assms(3) by (simp add: a_def power2_eq_square)
  have "(a * u - s * h * v) ^ 2 + (a * v + s * h * u) ^ 2 = (a ^ 2 + s ^ 2 * h ^ 2) * (u ^ 2 + v ^ 2)"
    by algebra
  also have "\<dots> = r1 ^ 2" using assms(4,5) uv by simp
  finally have one: "(a * u - s * h * v) ^ 2 + (a * v + s * h * u) ^ 2 = r1 ^ 2" .
  then show "dist2 (x1 + a * ((x2 - x1) / d) - s * h * ((y2 - y1) / d),
                y1 + a * ((y2 - y1) / d) + s * h * ((x2 - x1) / d)) (x1, y1) = r1 ^ 2"
    by (simp add: dist2_def algebra_simps flip: u_def v_def)
  have "(x1 + a * u - s * h * v - x2) ^ 2 + (y1 + a * v + s * h * u - y2) ^ 2
      = (a * u - s * h * v) ^ 2 + (a * v + s * h * u) ^ 2 - (2 * a * d - d ^ 2) * (u ^ 2 + v ^ 2)"
    unfolding xy by algebra
  also have "\<dots> = r2 ^ 2" unfolding one uv ad by simp
  finally show "dist2 (x1 + a * ((x2 - x1) / d) - s * h * ((y2 - y1) / d),
                y1 + a * ((y2 - y1) / d) + s * h * ((x2 - x1) / d)) (x2, y2) = r2 ^ 2"
    by (simp add: dist2_def algebra_simps flip: u_def v_def)
qed

text \<open>A point on both circles is one of those two, and it fixes the guards of the code.\<close>
lemma chord_point_only:
  fixes x1 y1 x2 y2 r1 r2 qx qy :: real
  defines "d \<equiv> sqrt ((x2 - x1) * (x2 - x1) + (y2 - y1) * (y2 - y1))"
  defines "a \<equiv> (r1 * r1 - r2 * r2 + d * d) / (2 * d)"
  defines "t \<equiv> ((qx - x1) * (y2 - y1) - (qy - y1) * (x2 - x1)) / d"
  assumes "d \<noteq> 0" "dist2 (qx, qy) (x1, y1) = r1 ^ 2" "dist2 (qx, qy) (x2, y2) = r2 ^ 2"
  shows "qx = x1 + a * ((x2 - x1) / d) + t * ((y2 - y1) / d)"
    "qy = y1 + a * ((y2 - y1) / d) - t * ((x2 - x1) / d)"
    "t ^ 2 = r1 ^ 2 - a ^ 2"
proof -
  define u v where "u = (x2 - x1) / d" and "v = (y2 - y1) / d"
  define p q where "p = qx - x1" and "q = qy - y1"
  have dd: "d * d = (x2 - x1) * (x2 - x1) + (y2 - y1) * (y2 - y1)" by (simp add: d_def)
  have "u ^ 2 + v ^ 2 = ((x2 - x1) * (x2 - x1) + (y2 - y1) * (y2 - y1)) / (d * d)"
    by (simp add: u_def v_def power_divide power2_eq_square add_divide_distrib)
  then have uv: "u ^ 2 + v ^ 2 = 1" unfolding dd [symmetric] using assms(4) by simp
  have xy: "x2 - x1 = d * u" "y2 - y1 = d * v" using assms(4) by (simp_all add: u_def v_def)
  have t: "t = p * v - q * u"
    unfolding t_def xy p_def q_def using assms(4) by (simp add: field_simps)
  have r: "p ^ 2 + q ^ 2 = r1 ^ 2" "(p - d * u) ^ 2 + (q - d * v) ^ 2 = r2 ^ 2"
    using assms(5,6) by (simp_all add: dist2_def p_def q_def flip: xy)
  have "2 * d * (p * u + q * v) = r1 ^ 2 - r2 ^ 2 + d ^ 2 * (u ^ 2 + v ^ 2)"
    unfolding r [symmetric] by algebra
  then have "r1 * r1 - r2 * r2 + d * d = 2 * d * (p * u + q * v)"
    unfolding uv by (simp add: power2_eq_square)
  then have a: "a = p * u + q * v" using assms(4) by (simp add: a_def)
  have "p * (u ^ 2 + v ^ 2) = (p * u + q * v) * u + (p * v - q * u) * v"
    "q * (u ^ 2 + v ^ 2) = (p * u + q * v) * v - (p * v - q * u) * u" by algebra+
  then show "qx = x1 + a * ((x2 - x1) / d) + t * ((y2 - y1) / d)"
    "qy = y1 + a * ((y2 - y1) / d) - t * ((x2 - x1) / d)"
    unfolding uv a t u_def [symmetric] v_def [symmetric] by (simp_all add: p_def q_def)
  have "(p * v - q * u) ^ 2 + (p * u + q * v) ^ 2 = (p ^ 2 + q ^ 2) * (u ^ 2 + v ^ 2)" by algebra
  then show "t ^ 2 = r1 ^ 2 - a ^ 2" unfolding uv r a t by simp
qed

text \<open>Two circles that meet satisfy the code's range checks.\<close>
lemma chord_guards:
  fixes r1 r2 d t :: real
  assumes "t ^ 2 = r1 ^ 2 - ((r1 * r1 - r2 * r2 + d * d) / (2 * d)) ^ 2" "0 < d" "0 \<le> r1" "0 \<le> r2"
  shows "d \<le> r1 + r2" "\<bar>r1 - r2\<bar> \<le> d"
proof -
  have "((r1 * r1 - r2 * r2 + d * d) / (2 * d)) ^ 2 \<le> r1 ^ 2"
    using assms(1) zero_le_power2 [of t] by linarith
  then have "\<bar>(r1 * r1 - r2 * r2 + d * d) / (2 * d)\<bar> \<le> r1" using assms(3)
    by (simp add: power2_le_iff_abs_le)
  then have "\<bar>r1 * r1 - r2 * r2 + d * d\<bar> \<le> r1 * (2 * d)"
    using assms(2) by (simp add: abs_divide divide_le_eq)
  then have "(d - r1) ^ 2 \<le> r2 ^ 2" "r2 ^ 2 \<le> (d + r1) ^ 2"
    by (simp_all add: power2_eq_square algebra_simps abs_le_iff)
  then have "\<bar>d - r1\<bar> \<le> r2" "r2 \<le> d + r1"
    using assms by (simp_all add: power2_le_iff_abs_le abs_le_square_iff [symmetric])
  then show "d \<le> r1 + r2" "\<bar>r1 - r2\<bar> \<le> d" by (simp_all add: abs_le_iff)
qed

section \<open>Forward kinematics\<close>

definition fin_params :: "five_bar_params \<Rightarrow> real \<Rightarrow> real \<Rightarrow> real \<Rightarrow> real \<Rightarrow> real \<Rightarrow> bool" where
  "fin_params p l1 l2 l3 l4 l5 \<longleftrightarrow> p = \<lparr>fb_l1 = Fin l1, fb_l2 = Fin l2, fb_l3 = Fin l3,
     fb_l4 = Fin l4, fb_l5 = Fin l5\<rparr> \<and> 0 < l1 \<and> 0 < l2 \<and> 0 < l3 \<and> 0 < l4"

definition rB :: "real \<Rightarrow> real \<Rightarrow> real \<Rightarrow> real \<times> real" where
  "rB l1 l5 x = (- l5 / 2 - l1 * cos x, l1 * sin x)"

definition rD :: "real \<Rightarrow> real \<Rightarrow> real \<Rightarrow> real \<times> real" where
  "rD l4 l5 x = (l5 / 2 + l4 * cos x, l4 * sin x)"

lemma knees_rv: "fin_params p l1 l2 l3 l4 l5 \<Longrightarrow> rear_knee p (Fin x) = rv (rB l1 l5 x)"
  "fin_params p l1 l2 l3 l4 l5 \<Longrightarrow> front_knee p (Fin x) = rv (rD l4 l5 x)"
  by (simp_all add: fin_params_def rear_knee_def front_knee_def rear_hip_def front_hip_def v_sub_def
      v_add_def rv_def rB_def rD_def)

lemma fk_foot_rv:
  fixes l1 l2 l3 l4 l5 x y :: real
  assumes "fin_params p l1 l2 l3 l4 l5"
  defines "B \<equiv> rB l1 l5 x" and "D \<equiv> rD l4 l5 y"
  defines "d \<equiv> sqrt ((fst D - fst B) * (fst D - fst B) + (snd D - snd B) * (snd D - snd B))"
  defines "a \<equiv> (l2 * l2 - l3 * l3 + d * d) / (2 * d)"
  defines "h \<equiv> sqrt (max (l2 * l2 - a * a) 0)"
  shows "fk_foot p (Fin x) (Fin y) =
    (if l2 + l3 < d \<or> d < \<bar>l2 - l3\<bar> \<or> d = 0 then None
     else Some (let s = (if 0 < h * (fst D - fst B) then 1 else - 1) in
       rv (fst B + a * ((fst D - fst B) / d) + s * h * ((snd D - snd B) / d),
           snd B + a * ((snd D - snd B) / d) - s * h * ((fst D - fst B) / d))))"
proof -
  have l: "fb_l2 p = Fin l2" "fb_l3 p = Fin l3" using assms(1) by (simp_all add: fin_params_def)
  have dn: "norm2 (rv (fst D - fst B, snd D - snd B)) = Fin d" by (simp add: d_def)
  show ?thesis
  proof (cases "l2 + l3 < d \<or> d < \<bar>l2 - l3\<bar> \<or> d = 0")
    case True
    then show ?thesis
      unfolding fk_foot_def knees_rv [OF assms(1)] B_def [symmetric] D_def [symmetric] Let_def rv_ops(2) dn l
      by auto
  next
    case False
    then have d: "d \<noteq> 0" "0 < d" by (auto simp: d_def less_le)
    have neg: "(rv (fst D - fst B, snd D - snd B)) = (Fin (fst D - fst B), Fin (snd D - snd B))"
      by (simp add: rv_def)
    have n: "v_scale (Fin 1 / Fin d) (snd (rv (fst D - fst B, snd D - snd B)), - fst (rv (fst D - fst B, snd D - snd B)))
        = rv ((snd D - snd B) / d, - (fst D - fst B) / d)"
      using d by (simp add: rv_def v_scale_def)
    have h: "sqrtf (fmaxf (Fin l2 * Fin l2 - Fin a * Fin a) (Fin 0)) = Fin h" by (simp add: h_def)
    have a: "(Fin l2 * Fin l2 - Fin l3 * Fin l3 + Fin d * Fin d) / (Fin 2 * Fin d) = Fin a"
      using d by (simp add: a_def)
    define C where "C s = (fst B + a * ((fst D - fst B) / d) + s * h * ((snd D - snd B) / d),
      snd B + a * ((snd D - snd B) / d) - s * h * ((fst D - fst B) / d))" for s :: real
    from d have C1: "v_add (v_add (rv B) (v_scale (Fin a / Fin d) (rv (fst D - fst B, snd D - snd B))))
        (v_scale (Fin h) (rv ((snd D - snd B) / d, - (fst D - fst B) / d))) = rv (C 1)"
      by (simp add: C_def rv_eq field_simps)
    from d have C2: "v_sub (v_add (rv B) (v_scale (Fin a / Fin d) (rv (fst D - fst B, snd D - snd B))))
        (v_scale (Fin h) (rv ((snd D - snd B) / d, - (fst D - fst B) / d))) = rv (C (- 1))"
      by (simp add: C_def rv_eq field_simps)
    have "snd (C 1) < snd (C (- 1)) \<longleftrightarrow> 0 < h * (fst D - fst B) / d"
      by (simp add: C_def)
    then have cmp: "snd (rv (C 1)) < snd (rv (C (- 1))) \<longleftrightarrow> 0 < h * (fst D - fst B)"
      using d by (simp add: zero_less_divide_iff)
    from False have g: "\<not> (Fin l2 + Fin l3 < Fin d \<or> Fin d < fabsf (Fin l2 - Fin l3) \<or> feq (Fin d) (Fin 0))"
      by simp
    show ?thesis
      unfolding fk_foot_def knees_rv [OF assms(1)] B_def [symmetric] D_def [symmetric] Let_def rv_ops(2) dn l
        a h n C1 C2 cmp if_not_P [OF g] if_not_P [OF False] by (simp add: C_def)
  qed
qed

text \<open>Whatever the guards let through, the half-chord is the real one.\<close>
lemma fk_foot_Some:
  fixes l1 l2 l3 l4 l5 x y :: real
  assumes "fin_params p l1 l2 l3 l4 l5" "fk_foot p (Fin x) (Fin y) = Some C"
  defines "B \<equiv> rB l1 l5 x" and "D \<equiv> rD l4 l5 y"
  obtains c where "C = rv c" "dist2 c B = l2 ^ 2" "dist2 c D = l3 ^ 2"
    "\<And>q. dist2 q B = l2 ^ 2 \<Longrightarrow> dist2 q D = l3 ^ 2 \<Longrightarrow> snd c \<le> snd q"
proof -
  define d where "d = sqrt ((fst D - fst B) * (fst D - fst B) + (snd D - snd B) * (snd D - snd B))"
  define a where "a = (l2 * l2 - l3 * l3 + d * d) / (2 * d)"
  define h where "h = sqrt (max (l2 * l2 - a * a) 0)"
  define s :: real where "s = (if 0 < h * (fst D - fst B) then 1 else - 1)"
  define c where "c = (fst B + a * ((fst D - fst B) / d) + s * h * ((snd D - snd B) / d),
           snd B + a * ((snd D - snd B) / d) - s * h * ((fst D - fst B) / d))"
  note eq = fk_foot_rv [OF assms(1), of x y, folded B_def D_def, folded d_def, folded a_def,
      folded h_def, folded s_def, unfolded Let_def, folded c_def]
  have g: "\<not> (l2 + l3 < d \<or> d < \<bar>l2 - l3\<bar> \<or> d = 0)"
    using assms(2) eq by (metis option.simps(3))
  have C: "C = rv c" using assms(2) unfolding eq if_not_P [OF g] by simp
  have d: "0 < d" using g by (simp add: d_def less_le)
  have "a ^ 2 \<le> l2 ^ 2" unfolding a_def using half_chord [of d l2 l3] g d by linarith
  then have h2: "h ^ 2 = l2 ^ 2 - a ^ 2" by (simp add: h_def power2_eq_square)
  have s2: "(- s) ^ 2 = 1" by (simp add: s_def)
  note cp = chord_points [of "fst D" "fst B" "snd D" "snd B" h l2 l3 "- s", folded d_def, folded a_def,
      OF _ h2 s2]
  have on: "dist2 c B = l2 ^ 2" "dist2 c D = l3 ^ 2"
    using cp d by (simp_all add: c_def)
  have low: "snd c \<le> snd q" if q: "dist2 q B = l2 ^ 2" "dist2 q D = l3 ^ 2" for q
  proof -
    define t where "t = ((fst q - fst B) * (snd D - snd B) - (snd q - snd B) * (fst D - fst B)) / d"
    note co = chord_point_only [of "fst D" "fst B" "snd D" "snd B" "fst q" "snd q" l2 l3,
        folded d_def, folded a_def t_def, unfolded prod.collapse]
    have d0: "d \<noteq> 0" using d by simp
    have t: "snd q = snd B + a * ((snd D - snd B) / d) - t * ((fst D - fst B) / d)" "t ^ 2 = l2 ^ 2 - a ^ 2"
      using co(2,3) [OF d0 q] by simp_all
    then have "\<bar>t\<bar> = \<bar>h\<bar>" using h2 by (metis power2_eq_iff abs_eq_iff)
    then have th: "- h \<le> t" "t \<le> h" by (simp_all add: h_def abs_le_iff)
    have h0: "0 \<le> h" by (simp add: h_def)
    have "t * (fst D - fst B) \<le> s * h * (fst D - fst B)"
    proof (cases "0 < fst D - fst B")
      case True
      then have "t * (fst D - fst B) \<le> h * (fst D - fst B)" using th(2) by (intro mult_right_mono) simp_all
      moreover have "s * h = h" using True h0 by (cases "h = 0") (simp_all add: s_def less_le)
      ultimately show ?thesis by metis
    next
      case False
      then have "t * (fst D - fst B) \<le> - h * (fst D - fst B)" using th(1) by (intro mult_right_mono_neg) simp_all
      moreover have "\<not> 0 < h * (fst D - fst B)" using False h0 by (simp add: mult_le_0_iff not_less)
      ultimately show ?thesis by (simp add: s_def)
    qed
    then have "t * ((fst D - fst B) / d) \<le> s * h * ((fst D - fst B) / d)"
      using d by (simp add: divide_right_mono)
    then show ?thesis unfolding t(1) by (simp add: c_def)
  qed
  from C on low show ?thesis by (rule that)
qed

text \<open>If any point lies on both circles, the guards let the pose through.\<close>
lemma fk_foot_exists:
  fixes l1 l2 l3 l4 l5 x y :: real
  assumes "fin_params p l1 l2 l3 l4 l5"
  defines "B \<equiv> rB l1 l5 x" and "D \<equiv> rD l4 l5 y"
  assumes "B \<noteq> D" "dist2 q B = l2 ^ 2" "dist2 q D = l3 ^ 2"
  shows "fk_foot p (Fin x) (Fin y) \<noteq> None"
proof -
  define d where "d = sqrt ((fst D - fst B) * (fst D - fst B) + (snd D - snd B) * (snd D - snd B))"
  have "0 < (fst D - fst B) * (fst D - fst B) + (snd D - snd B) * (snd D - snd B)"
    using assms(4) by (metis eq_iff_diff_eq_0 prod.expand sum_squares_gt_zero_iff)
  then have d: "0 < d" by (simp add: d_def)
  then have d0: "d \<noteq> 0" by simp
  note co = chord_point_only [of "fst D" "fst B" "snd D" "snd B" "fst q" "snd q" l2 l3,
        folded d_def, unfolded prod.collapse, OF d0 assms(5,6)]
  have "0 \<le> l2" "0 \<le> l3" using assms(1) by (simp_all add: fin_params_def)
  note chord_guards [OF co(3) d this]
  then show ?thesis unfolding fk_foot_rv [OF assms(1)] B_def [symmetric] D_def [symmetric] d_def [symmetric]
    using d by simp
qed

lemma cos_sin_ratan2:
  assumes "x ^ 2 + y ^ 2 = r ^ 2" "0 < r"
  shows "r * cos (ratan2 y x) = x" "r * sin (ratan2 y x) = y"
proof -
  have r: "r = sqrt (x ^ 2 + y ^ 2)" using assms by (simp add: real_sqrt_unique)
  have sq: "\<bar>x\<bar> * sqrt (1 + (y / x) ^ 2) = r" if "x \<noteq> 0"
  proof -
    have "\<bar>x\<bar> * sqrt (1 + (y / x) ^ 2) = sqrt (x ^ 2 * (1 + (y / x) ^ 2))"
      by (simp add: real_sqrt_mult)
    also have "x ^ 2 * (1 + (y / x) ^ 2) = x ^ 2 + y ^ 2" using that by (simp add: field_simps)
    finally show ?thesis by (simp add: r)
  qed
  have pos: "0 < sqrt (1 + (y / x) ^ 2)" by (simp add: add_pos_nonneg)
  consider "x > 0" | "x < 0" | "x = 0" by linarith
  then have "r * cos (ratan2 y x) = x \<and> r * sin (ratan2 y x) = y"
  proof cases
    case 1
    then have "r = x * sqrt (1 + (y / x) ^ 2)" using sq by simp
    then show ?thesis using 1 pos by (simp add: ratan2_def cos_arctan sin_arctan)
  next
    case 2
    then have "r = - x * sqrt (1 + (y / x) ^ 2)" using sq by simp
    then show ?thesis using 2 pos by (simp add: ratan2_def cos_arctan sin_arctan)
  next
    case 3
    then have "\<bar>y\<bar> = r" using r by simp
    then show ?thesis using 3 assms(2) by (auto simp: ratan2_def)
  qed
  then show "r * cos (ratan2 y x) = x" "r * sin (ratan2 y x) = y" by simp_all
qed

lemma ratan2_range: "- pi < ratan2 y x \<and> ratan2 y x \<le> pi"
proof -
  have "- (pi / 2) < arctan (y / x)" "arctan (y / x) < pi / 2"
    by (rule arctan_lbound, rule arctan_ubound)
  moreover have "arctan (y / x) \<le> 0" if "x < 0" "0 \<le> y" using that by (simp add: divide_nonneg_neg)
  moreover have "0 < arctan (y / x)" if "x < 0" "y < 0" using that by (simp add: divide_neg_neg)
  moreover have "0 < pi" by simp
  ultimately show ?thesis by (auto simp: ratan2_def not_le)
qed

lemma ratan2_cos_sin:
  assumes "0 < r" "- pi < t" "t \<le> pi"
  shows "ratan2 (r * sin t) (r * cos t) = t"
proof -
  have "(r * cos t) ^ 2 + (r * sin t) ^ 2 = r ^ 2"
    by (simp add: power_mult_distrib flip: distrib_left)
  note cs = cos_sin_ratan2 [OF this assms(1)]
  define u where "u = ratan2 (r * sin t) (r * cos t)"
  have b: "- pi < u" "u \<le> pi" using ratan2_range by (simp_all add: u_def)
  have "cos u = cos t" "sin u = sin t" using cs assms(1) by (simp_all add: u_def)
  then have "cos (u - t) = 1" by (simp add: cos_diff flip: power2_eq_square)
  then obtain n :: int where n: "u - t = of_int n * 2 * pi" by (auto simp: cos_one_2pi_int)
  have "\<bar>u - t\<bar> < 2 * pi" using b assms by linarith
  then have "\<bar>real_of_int n\<bar> * (2 * pi) < 1 * (2 * pi)" unfolding n by (simp add: abs_mult)
  then have "\<bar>real_of_int n\<bar> < 1" by (simp only: mult_less_cancel_right_pos pi_gt_zero zero_less_mult_iff zero_less_numeral simp_thms)
  then have "n = 0" by linarith
  then show ?thesis using n by (simp add: u_def)
qed

section \<open>What the kinematics compute\<close>

text \<open>C34. Forward kinematics closes the linkage: the foot it returns is at shin length from both
knees, and of the points that are it is the lowest; and it reports failure only when no such point
exists (or the knees coincide).\<close>
theorem fk_closes_linkage:
  assumes "fin_params p l1 l2 l3 l4 l5" "rB l1 l5 x \<noteq> rD l4 l5 y"
  shows "case fk_foot p (Fin x) (Fin y) of
     None \<Rightarrow> \<nexists>q. dist2 q (rB l1 l5 x) = l2 ^ 2 \<and> dist2 q (rD l4 l5 y) = l3 ^ 2
   | Some C \<Rightarrow> \<exists>c. C = rv c \<and> dist2 c (rB l1 l5 x) = l2 ^ 2 \<and> dist2 c (rD l4 l5 y) = l3 ^ 2 \<and>
       (\<forall>q. dist2 q (rB l1 l5 x) = l2 ^ 2 \<longrightarrow> dist2 q (rD l4 l5 y) = l3 ^ 2 \<longrightarrow> snd c \<le> snd q)"
proof (cases "fk_foot p (Fin x) (Fin y)")
  case None
  then show ?thesis using fk_foot_exists [OF assms] by auto
next
  case (Some C)
  show ?thesis unfolding Some option.simps(5)
    by (rule fk_foot_Some [OF assms(1) Some]) blast
qed

lemma leg_fin: "fin_params LEG_PARAMS 0.13 0.22 0.22 0.13 0.1"
  by (simp add: fin_params_def LEG_PARAMS_def)

theorem fk_closes_linkage_witness: "\<exists>c. fk_foot LEG_PARAMS (Fin 0) (Fin 0) = Some (rv c) \<and>
    dist2 c (- 0.18, 0) = 0.22 ^ 2 \<and> dist2 c (0.18, 0) = 0.22 ^ 2"
proof -
  have eq: "rB 0.13 0.1 0 = (- 0.18, 0)" "rD 0.13 0.1 0 = (0.18, 0)" by (simp_all add: rB_def rD_def)
  have q: "dist2 (0, sqrt (0.22 ^ 2 - 0.18 ^ 2)) (- 0.18, 0) = 0.22 ^ 2"
    "dist2 (0, sqrt (0.22 ^ 2 - 0.18 ^ 2)) (0.18, 0) = 0.22 ^ 2"
    by (simp_all add: dist2_def power2_eq_square)
  have ne: "rB 0.13 0.1 0 \<noteq> rD 0.13 0.1 0" unfolding eq by simp
  note th = fk_closes_linkage [OF leg_fin ne, unfolded eq]
  show ?thesis
  proof (cases "fk_foot LEG_PARAMS (Fin 0) (Fin 0)")
    case None
    from th [unfolded None option.simps(4)] q show ?thesis by blast
  next
    case (Some C)
    from th [unfolded Some option.simps(5)] show ?thesis unfolding Some by blast
  qed
qed

text \<open>The circle intersection of the inverse kinematics, on finite inputs.\<close>
lemma circ_int_Some:
  fixes P1 P2 :: "real \<times> real"
  assumes "circ_int (rv P1) (Fin r1) (rv P2) (Fin r2) left = Some Q"
  obtains q where "Q = rv q" "dist2 q P1 = r1 ^ 2" "dist2 q P2 = r2 ^ 2"
proof -
  define d where "d = sqrt ((fst P2 - fst P1) * (fst P2 - fst P1) + (snd P2 - snd P1) * (snd P2 - snd P1))"
  define a where "a = (r1 * r1 - r2 * r2 + d * d) / (2 * d)"
  define h where "h = sqrt (max (r1 * r1 - a * a) 0)"
  define C where "C s = (fst P1 + a * ((fst P2 - fst P1) / d) - s * h * ((snd P2 - snd P1) / d),
      snd P1 + a * ((snd P2 - snd P1) / d) + s * h * ((fst P2 - fst P1) / d))" for s :: real
  have dn: "norm2 (rv (fst P2 - fst P1, snd P2 - snd P1)) = Fin d" by (simp add: d_def)
  have g: "\<not> (Fin r1 + Fin r2 < Fin d \<or> Fin d < fabsf (Fin r1 - Fin r2) \<or> feq (Fin d) (Fin 0))"
    using assms unfolding circ_int_def Let_def rv_ops(2) dn by (metis option.simps(3))
  then have g': "d \<le> r1 + r2" "\<bar>r1 - r2\<bar> \<le> d" "d \<noteq> 0" by auto
  then have d: "0 < d" by (simp add: d_def less_le)
  have a: "(Fin r1 * Fin r1 - Fin r2 * Fin r2 + Fin d * Fin d) / (Fin 2 * Fin d) = Fin a"
    using d by (simp add: a_def)
  have h: "sqrtf (fmaxf (Fin r1 * Fin r1 - Fin a * Fin a) (Fin 0)) = Fin h" by (simp add: h_def)
  have U: "v_scale (Fin 1 / Fin d) (rv (fst P2 - fst P1, snd P2 - snd P1))
      = rv ((fst P2 - fst P1) / d, (snd P2 - snd P1) / d)" using d by simp
  have N: "(- Fin ((snd P2 - snd P1) / d), Fin ((fst P2 - fst P1) / d))
      = rv (- ((snd P2 - snd P1) / d), (fst P2 - fst P1) / d)" by (simp add: rv_def)
  have S: "v_add (v_add (rv P1) (v_scale (Fin a) (rv ((fst P2 - fst P1) / d, (snd P2 - snd P1) / d))))
        (v_scale (Fin h) (rv (- ((snd P2 - snd P1) / d), (fst P2 - fst P1) / d))) = rv (C 1)"
    "v_sub (v_add (rv P1) (v_scale (Fin a) (rv ((fst P2 - fst P1) / d, (snd P2 - snd P1) / d))))
        (v_scale (Fin h) (rv (- ((snd P2 - snd P1) / d), (fst P2 - fst P1) / d))) = rv (C (- 1))"
    by (simp_all add: C_def)
  have "Q = rv (C 1) \<or> Q = rv (C (- 1))"
    using assms unfolding circ_int_def Let_def rv_ops(2) dn if_not_P [OF g] a h U rv_ops(5,6)
      fst_conv snd_conv N S by (auto split: if_splits)
  then obtain s :: real where s: "Q = rv (C s)" "s ^ 2 = 1"
    using that by (metis one_power2 power2_minus)
  have "a ^ 2 \<le> r1 ^ 2" unfolding a_def using half_chord g' d by blast
  then have h2: "h ^ 2 = r1 ^ 2 - a ^ 2" by (simp add: h_def power2_eq_square)
  note cp = chord_points [of "fst P2" "fst P1" "snd P2" "snd P1" h r1 r2 s, folded d_def, folded a_def,
      OF g'(3) h2 s(2), unfolded prod.collapse, folded C_def]
  show ?thesis by (rule that [OF s(1) cp])
qed

lemma ik_knees_angles:
  assumes "fin_params p l1 l2 l3 l4 l5" "ik_knees p (foot_of (Fin L0) (Fin th)) = Some (rv B, rv D)"
  defines "c \<equiv> (L0 * sin th, - L0 * cos th)"
  obtains x y where "ik p (Fin L0) (Fin th) = Some (Fin x, Fin y)" "rB l1 l5 x = B" "rD l4 l5 y = D"
    "dist2 c B = l2 ^ 2" "dist2 c D = l3 ^ 2"
proof -
  have l: "fb_l1 p = Fin l1" "fb_l2 p = Fin l2" "fb_l3 p = Fin l3" "fb_l4 p = Fin l4" "0 < l1" "0 < l4"
    "rear_hip p = rv (- l5 / 2, 0)" "front_hip p = rv (l5 / 2, 0)"
    using assms(1) by (simp_all add: fin_params_def rear_hip_def front_hip_def rv_def)
  have C: "foot_of (Fin L0) (Fin th) = rv c" by (simp add: foot_of_def rv_def c_def)
  from assms(2) have k: "circ_int (rv (- l5 / 2, 0)) (Fin l1) (rv c) (Fin l2) True = Some (rv B)"
    "circ_int (rv (l5 / 2, 0)) (Fin l4) (rv c) (Fin l3) False = Some (rv D)"
    by (simp_all add: ik_knees_def l C split: option.splits)
  have B: "dist2 B (- l5 / 2, 0) = l1 ^ 2" "dist2 c B = l2 ^ 2"
    by (rule circ_int_Some [OF k(1)]; simp add: rv_eq prod_eq_iff [symmetric]; simp add: dist2_def power2_commute)+
  have D: "dist2 D (l5 / 2, 0) = l4 ^ 2" "dist2 c D = l3 ^ 2"
    by (rule circ_int_Some [OF k(2)]; simp add: rv_eq prod_eq_iff [symmetric]; simp add: dist2_def power2_commute)+
  define x y where "x = ratan2 (snd B) (- l5 / 2 - fst B)" and "y = ratan2 (snd D) (fst D - l5 / 2)"
  have "(- l5 / 2 - fst B) ^ 2 + snd B ^ 2 = l1 ^ 2" using B(1) by (simp add: dist2_def power2_commute)
  note cs = cos_sin_ratan2 [OF this l(5), folded x_def]
  have "(fst D - l5 / 2) ^ 2 + snd D ^ 2 = l4 ^ 2" using D(1) by (simp add: dist2_def)
  note cs' = cos_sin_ratan2 [OF this l(6), folded y_def]
  have "ik p (Fin L0) (Fin th) = Some (Fin x, Fin y)" by (simp add: ik_def assms(2) l x_def y_def)
  moreover have "rB l1 l5 x = B" "rD l4 l5 y = D"
    by (simp_all add: rB_def rD_def cs cs' prod_eq_iff)
  ultimately show ?thesis using that B(2) D(2) by blast
qed

text \<open>Strictly below a knee line that runs rear to front there is only one such point.\<close>
lemma lower_point_unique:
  fixes B D c c' :: "real \<times> real"
  assumes "dist2 c B = r1 ^ 2" "dist2 c D = r2 ^ 2" "dist2 c' B = r1 ^ 2" "dist2 c' D = r2 ^ 2"
    "fst B < fst D" "(snd c - snd B) * (fst D - fst B) < (fst c - fst B) * (snd D - snd B)"
    "snd c' \<le> snd c"
  shows "c' = c"
proof -
  define d where "d = sqrt ((fst D - fst B) * (fst D - fst B) + (snd D - snd B) * (snd D - snd B))"
  define t where "t c = ((fst c - fst B) * (snd D - snd B) - (snd c - snd B) * (fst D - fst B)) / d"
    for c :: "real \<times> real"
  have "0 < (fst D - fst B) * (fst D - fst B) + (snd D - snd B) * (snd D - snd B)"
    using assms(5) by (simp add: add_pos_nonneg)
  then have d: "0 < d" by (simp add: d_def)
  then have d0: "d \<noteq> 0" by simp
  note one = chord_point_only [of "fst D" "fst B" "snd D" "snd B" "fst c" "snd c" r1 r2,
      folded d_def, folded t_def, unfolded prod.collapse, OF d0 assms(1,2)]
  note two = chord_point_only [of "fst D" "fst B" "snd D" "snd B" "fst c'" "snd c'" r1 r2,
      folded d_def, folded t_def, unfolded prod.collapse, OF d0 assms(3,4)]
  have "0 < t c" using assms(6) d by (simp add: t_def)
  moreover have "t c * ((fst D - fst B) / d) \<le> t c' * ((fst D - fst B) / d)"
    using one(2) two(2) assms(7) by linarith
  then have "t c \<le> t c'" using d assms(5) by (simp add: divide_le_cancel)
  ultimately have "t c' = t c" using one(3) two(3) by (metis order_less_le_trans less_imp_le power2_eq_iff_nonneg)
  then show ?thesis using one(1,2) two(1,2) by (simp add: prod_eq_iff)
qed

text \<open>C35. Inverse kinematics followed by forward kinematics is the identity: when the inverse
kinematics find knees for a leg pose, rear knee behind front knee and the foot below the line
through them, the forward kinematics of the angles they return is that leg length and leg angle.\<close>
theorem ik_fk_roundtrip:
  assumes "fin_params p l1 l2 l3 l4 l5" "0 < L0" "- pi < th" "th \<le> pi"
    "ik_knees p (foot_of (Fin L0) (Fin th)) = Some (rv B, rv D)" "fst B < fst D"
    "(- L0 * cos th - snd B) * (fst D - fst B) < (L0 * sin th - fst B) * (snd D - snd B)"
  shows "\<exists>x y. ik p (Fin L0) (Fin th) = Some (Fin x, Fin y) \<and>
    fk p (Fin x) (Fin y) = Some \<lparr>ps_L0 = Fin L0, ps_thL = Fin th\<rparr>"
proof (rule ik_knees_angles [OF assms(1,5)])
  fix x y
  let ?c = "(L0 * sin th, - L0 * cos th)"
  assume ik: "ik p (Fin L0) (Fin th) = Some (Fin x, Fin y)" and BD: "rB l1 l5 x = B" "rD l4 l5 y = D"
    and on: "dist2 ?c B = l2 ^ 2" "dist2 ?c D = l3 ^ 2"
  have "B \<noteq> D" using assms(6) by auto
  then obtain C where C: "fk_foot p (Fin x) (Fin y) = Some C"
    using fk_foot_exists [OF assms(1), of x y ?c] on unfolding BD by blast
  have "C = rv ?c"
  proof (rule fk_foot_Some [OF assms(1) C], unfold BD)
    fix c
    assume c: "C = rv c" "dist2 c B = l2\<^sup>2" "dist2 c D = l3\<^sup>2"
      and low: "\<And>q. dist2 q B = l2\<^sup>2 \<Longrightarrow> dist2 q D = l3\<^sup>2 \<Longrightarrow> snd c \<le> snd q"
    have "c = ?c" by (rule lower_point_unique [OF on c(2,3) assms(6) _ low [OF on]]) (use assms(7) in simp)
    then show ?thesis using c(1) by simp
  qed
  moreover have "sqrt (L0 * sin th * (L0 * sin th) + L0 * cos th * (L0 * cos th)) = L0"
    using assms(2) by (intro real_sqrt_unique) (simp_all add: power2_eq_square [symmetric]
        power_mult_distrib flip: distrib_left)
  ultimately have "fk p (Fin x) (Fin y) = Some \<lparr>ps_L0 = Fin L0, ps_thL = Fin th\<rparr>"
    using assms(2-4) by (simp add: fk_def C ratan2_cos_sin)
  with ik show ?thesis by blast
qed

definition demo_leg :: five_bar_params where
  "demo_leg = \<lparr>fb_l1 = Fin 0.3, fb_l2 = Fin 0.4, fb_l3 = Fin 0.4, fb_l4 = Fin 0.3, fb_l5 = Fin 0.6\<rparr>"

lemma sqrt_rat: "sqrt (1 / 4) = 1 / 2" "sqrt (36 / 625) = 6 / 25"
  by (rule real_sqrt_unique; simp add: power2_eq_square)+

lemma demo_knees: "ik_knees demo_leg (foot_of (Fin 0.4) (Fin 0)) =
    Some (rv (- 0.384, - 0.288), rv (0.384, - 0.288))"
  by (simp add: ik_knees_def circ_int_def demo_leg_def foot_of_def rear_hip_def front_hip_def rv_def
      v_sub_def v_add_def v_scale_def norm2_def Let_def sqrt_rat)

lemma demo_fin: "fin_params demo_leg 0.3 0.4 0.4 0.3 0.6"
  by (simp add: fin_params_def demo_leg_def)

theorem ik_fk_roundtrip_witness: "\<exists>x y. ik demo_leg (Fin 0.4) (Fin 0) = Some (Fin x, Fin y) \<and>
    fk demo_leg (Fin x) (Fin y) = Some \<lparr>ps_L0 = Fin 0.4, ps_thL = Fin 0\<rparr>"
  by (rule ik_fk_roundtrip [OF demo_fin _ _ _ demo_knees]) simp_all

text \<open>With both hips at the same angle the leg stands straight down: for every angle but the
one where the knees coincide the robot's leg reports leg angle zero, and its length is the shin's
height under the knees less the thighs' rise.\<close>
theorem fk_symmetric_pose:
  assumes "cos x \<noteq> - (5 / 13)"
  shows "fk LEG_PARAMS (Fin x) (Fin x) = Some
    \<lparr>ps_L0 = Fin (sqrt (0.22 ^ 2 - (0.05 + 0.13 * cos x) ^ 2) - 0.13 * sin x), ps_thL = Fin 0\<rparr>"
proof -
  define w :: real where "w = 5 / 100 + 13 / 100 * cos x"
  have w0: "w \<noteq> 0" using assms by (simp add: w_def field_simps)
  have w: "\<bar>w\<bar> \<le> 18 / 100"
    using cos_le_one [of x] cos_ge_minus_one [of x] unfolding w_def by (intro abs_leI) linarith+
  then have "w ^ 2 \<le> (18 / 100) ^ 2" by (simp add: abs_le_square_iff [symmetric])
  then have w2: "w * w \<le> 484 / 10000" by (simp add: power2_eq_square)
  define h where "h = sqrt (484 / 10000 - w * w)"
  have s: "13 / 100 * sin x < h"
    unfolding h_def
  proof (rule real_less_rsqrt)
    have "(13 / 100 * sin x) ^ 2 = (13 / 100) ^ 2 * (1 - (cos x) ^ 2)"
      by (simp only: power_mult_distrib sin_squared_eq)
    moreover have "13 * cos x < 29" using cos_le_one [of x] by linarith
    ultimately show "(13 / 100 * sin x) ^ 2 < 484 / 10000 - w * w"
      by (simp add: w_def power2_eq_square algebra_simps)
  qed
  have h0: "0 \<le> h" using w2 by (simp add: h_def)
  have BD: "rB (13 / 100) (1 / 10) x = (- w, 13 / 100 * sin x)"
    "rD (13 / 100) (1 / 10) x = (w, 13 / 100 * sin x)"
    by (simp_all add: rB_def rD_def w_def)
  have d: "sqrt ((w - - w) * (w - - w) + (13 / 100 * sin x - 13 / 100 * sin x) * (13 / 100 * sin x - 13 / 100 * sin x)) = 2 * \<bar>w\<bar>"
    by (intro real_sqrt_unique) (simp_all add: power2_eq_square)
  have a: "(22 / 100 * (22 / 100) - 22 / 100 * (22 / 100) + 2 * \<bar>w\<bar> * (2 * \<bar>w\<bar>)) / (2 * (2 * \<bar>w\<bar>)) = \<bar>w\<bar>"
    using w0 by (simp add: abs_if)
  have hh: "sqrt (max (22 / 100 * (22 / 100) - \<bar>w\<bar> * \<bar>w\<bar>) 0) = h" using w2 by (simp add: h_def)
  have g: "\<not> (22 / 100 + 22 / 100 < 2 * \<bar>w\<bar> \<or> 2 * \<bar>w\<bar> < \<bar>22 / 100 - 22 / 100\<bar> \<or> 2 * \<bar>w\<bar> = 0)"
    using w w0 by simp
  have hs: "(if 0 < h * (w - - w) then 1 else - 1) * h * ((w - - w) / (2 * \<bar>w\<bar>)) = h"
    using w0 h0 by (cases "0 < w"; cases "h = 0") (auto simp: zero_less_mult_iff)
  have fin: "fin_params LEG_PARAMS (13 / 100) (22 / 100) (22 / 100) (13 / 100) (1 / 10)"
    using leg_fin by simp
  have "fk_foot LEG_PARAMS (Fin x) (Fin x) = Some (rv (0, 13 / 100 * sin x - h))"
    unfolding fk_foot_rv [OF fin] BD fst_conv snd_conv d a hh if_not_P [OF g] Let_def hs
    using w0 by simp
  moreover have "sqrt ((13 / 100 * sin x - h) * (13 / 100 * sin x - h)) = h - 13 / 100 * sin x"
    using s by simp
  moreover have "h = sqrt (0.22 ^ 2 - (0.05 + 0.13 * cos x) ^ 2)"
    by (simp add: h_def w_def power2_eq_square)
  ultimately show ?thesis using s by (simp add: fk_def ratan2_def)
qed

theorem fk_symmetric_pose_witness: "fk LEG_PARAMS (Fin 0) (Fin 0) = Some
    \<lparr>ps_L0 = Fin (sqrt (0.22 ^ 2 - (0.05 + 0.13 * cos 0) ^ 2) - 0.13 * sin 0), ps_thL = Fin 0\<rparr>"
  by (rule fk_symmetric_pose) simp

end
