(* ===== verification/CanMotor.thy ===== *)
theory CanMotor
  imports MathLib Float32 Can
begin

text \<open>
  The motor driver of src/src/coms/CANMotor.cpp: registration, the safety gate every hip command
  passes, the RMD and ODrive frame formats in both directions, mode switching, encoder and status
  requests.  The state holds the driver of theory Can, the registered entries (their number is the
  list's length), the table of eight motor states, the torque scale and the round-robin index.
  Waiting between frames is not modelled; the order of the frames is.
\<close>

section \<open>State\<close>

datatype can_motor_proto = CAN_MOTOR_RMD | CAN_MOTOR_SDC102 | CAN_MOTOR_ODRIVE

text \<open>The callbacks the firmware registers, with their context.\<close>
datatype can_cb = CB_IMX5 | CB_MATEK | CB_RMD nat | CB_SDC102 nat | CB_ODRIVE nat

record motor_state =
  pos_rad :: flt
  vel_rads :: flt
  torque_Nm :: flt
  temp_C :: flt
  voltage_V :: flt
  error_flags :: u8
  mvalid :: bool
  mtx_ok :: u32
  mtx_fail :: u32
  rx_count :: u32

definition motor_state_zero :: motor_state where
  "motor_state_zero = \<lparr>pos_rad = Fin 0, vel_rads = Fin 0, torque_Nm = Fin 0, temp_C = Fin 0,
     voltage_V = Fin 0, error_flags = 0, mvalid = False, mtx_ok = 0, mtx_fail = 0, rx_count = 0\<rparr>"

record motor_entry =
  me_id :: u8
  me_proto :: can_motor_proto
  me_registered :: bool
  me_node_id :: u8
  me_sign :: flt

definition CAN_MOTOR_MAX :: nat where "CAN_MOTOR_MAX = 8"

record motorsys =
  ms_can :: "can_cb can"
  ms_entries :: "motor_entry list"
  ms_motors :: "motor_state list"
  ms_scale :: flt
  ms_next :: nat

definition find_entry :: "motorsys \<Rightarrow> u8 \<Rightarrow> nat option" where
  "find_entry ms i = index_of (\<lambda>e. me_id e = i) (ms_entries ms)"

definition upd_motor :: "nat \<Rightarrow> (motor_state \<Rightarrow> motor_state) \<Rightarrow> motorsys \<Rightarrow> motorsys" where
  "upd_motor i f ms = ms\<lparr>ms_motors := (ms_motors ms)[i := f (ms_motors ms ! i)]\<rparr>"

definition ms_send :: "u32 \<Rightarrow> bytes \<Rightarrow> motorsys \<Rightarrow> bool \<times> motorsys" where
  "ms_send sid data ms =
    (let (ok, c) = can_send CAN_BUS_1 sid data 8 (ms_can ms) in (ok, ms\<lparr>ms_can := c\<rparr>))"

definition RMD_TORQUE_SCALE_DEFAULT :: flt where "RMD_TORQUE_SCALE_DEFAULT = Fin 83.3"
definition RMD_TORQUE_RATIO_MAX :: int where "RMD_TORQUE_RATIO_MAX = 2048"
definition RMD_SPEED_DPS_MAX :: flt where "RMD_SPEED_DPS_MAX = Fin 24000"
definition PI_F :: flt where "PI_F = Fin 3.14159265"

definition can_motor_set_rmd_torque_scale :: "flt \<Rightarrow> motorsys \<Rightarrow> motorsys" where
  "can_motor_set_rmd_torque_scale r ms = ms\<lparr>ms_scale := r\<rparr>"

definition can_motor_get_rmd_torque_scale :: "motorsys \<Rightarrow> flt" where
  "can_motor_get_rmd_torque_scale ms = ms_scale ms"

section \<open>The hip safety gate\<close>

definition clampf :: "flt \<Rightarrow> flt \<Rightarrow> flt \<Rightarrow> flt" where
  "clampf x lo hi = (if x < lo then lo else if hi < x then hi else x)"

definition HIP_SIGN :: "flt list" where
  "HIP_SIGN = [Fin (- 1), Fin 1, Fin (- 1), Fin 1]"

definition HIP_OFFSET_RAD :: "flt list" where
  "HIP_OFFSET_RAD = [Fin 3.33, Fin 3.22, Fin 3.18, Fin 3.74]"

definition HIP_ANGLE_MIN_RAD :: "flt list" where
  "HIP_ANGLE_MIN_RAD = [Fin (- 1.45), Fin (- 1.45), Fin (- 1.45), Fin (- 1.45)]"

definition HIP_ANGLE_MAX_RAD :: "flt list" where
  "HIP_ANGLE_MAX_RAD = [Fin 0.44, Fin 0.44, Fin 0.44, Fin 0.44]"

definition HIP_ANGLE_SOFT_MARGIN_RAD :: flt where "HIP_ANGLE_SOFT_MARGIN_RAD = Fin 0.175"
definition HIP_VEL_LIMIT_RADS :: flt where "HIP_VEL_LIMIT_RADS = Fin 20"
definition HIP_VEL_SOFT_MARGIN_RADS :: flt where "HIP_VEL_SOFT_MARGIN_RADS = Fin 4"
definition HIP_TORQUE_LIMIT_NM :: flt where "HIP_TORQUE_LIMIT_NM = Fin 12"

text \<open>An array indexed by the hip's identifier, 1 to 4.\<close>
definition at_hip :: "flt list \<Rightarrow> u8 \<Rightarrow> flt" where
  "at_hip xs i = xs ! (unat i - 1)"

definition hip_to_robot_frame :: "u8 \<Rightarrow> flt \<Rightarrow> flt" where
  "hip_to_robot_frame i raw_rad = at_hip HIP_SIGN i * (raw_rad - at_hip HIP_OFFSET_RAD i)"

definition hip_to_raw :: "u8 \<Rightarrow> flt \<Rightarrow> flt" where
  "hip_to_raw i robot_frame_rad = at_hip HIP_OFFSET_RAD i + at_hip HIP_SIGN i * robot_frame_rad"

definition hip_limit_scale :: "flt \<Rightarrow> flt \<Rightarrow> flt \<Rightarrow> flt \<Rightarrow> flt \<Rightarrow> flt" where
  "hip_limit_scale value lo hi margin signed_qty =
    (if Fin 0 < signed_qty then clampf ((hi - value) / margin) (Fin 0) (Fin 1)
     else if signed_qty < Fin 0 then clampf ((value - lo) / margin) (Fin 0) (Fin 1)
     else Fin 1)"

definition hip_soft_scale :: "u8 \<Rightarrow> flt \<Rightarrow> flt \<Rightarrow> flt \<Rightarrow> flt" where
  "hip_soft_scale i pos vel signed_qty =
    (let angle_scale = hip_limit_scale pos (at_hip HIP_ANGLE_MIN_RAD i) (at_hip HIP_ANGLE_MAX_RAD i)
                         HIP_ANGLE_SOFT_MARGIN_RAD signed_qty;
         vel_scale = hip_limit_scale vel (- HIP_VEL_LIMIT_RADS) HIP_VEL_LIMIT_RADS
                         HIP_VEL_SOFT_MARGIN_RADS signed_qty
     in angle_scale * vel_scale)"

definition hip_clamp_velocity :: "u8 \<Rightarrow> flt \<Rightarrow> flt \<Rightarrow> flt" where
  "hip_clamp_velocity i vel pos =
    (let scale = hip_limit_scale pos (at_hip HIP_ANGLE_MIN_RAD i) (at_hip HIP_ANGLE_MAX_RAD i)
                   HIP_ANGLE_SOFT_MARGIN_RAD vel
     in clampf (vel * scale) (- HIP_VEL_LIMIT_RADS) HIP_VEL_LIMIT_RADS)"

definition hip_clamp_position_target :: "u8 \<Rightarrow> flt \<Rightarrow> flt" where
  "hip_clamp_position_target i target =
     clampf target (at_hip HIP_ANGLE_MIN_RAD i) (at_hip HIP_ANGLE_MAX_RAD i)"

text \<open>Validity, position and velocity of a table entry.\<close>
definition hip_current_state :: "motorsys \<Rightarrow> nat \<Rightarrow> bool \<times> flt \<times> flt" where
  "hip_current_state ms i =
    (let m = ms_motors ms ! i in (mvalid m, pos_rad m, vel_rads m))"

definition motor_record_tx :: "nat \<Rightarrow> bool \<Rightarrow> motorsys \<Rightarrow> motorsys" where
  "motor_record_tx i ok ms =
    (if ok then upd_motor i (\<lambda>m. m\<lparr>mtx_ok := mtx_ok m + 1\<rparr>) ms
     else upd_motor i (\<lambda>m. m\<lparr>mtx_fail := mtx_fail m + 1\<rparr>) ms)"

section \<open>RMD frames\<close>

definition rmd_ratio_clamp :: "u16 \<Rightarrow> u16" where
  "rmd_ratio_clamp ratio =
    (let ratio = (if sint ratio > RMD_TORQUE_RATIO_MAX then of_int RMD_TORQUE_RATIO_MAX else ratio)
     in if sint ratio < - RMD_TORQUE_RATIO_MAX then of_int (- RMD_TORQUE_RATIO_MAX) else ratio)"

definition rmd_torque_data :: "u16 \<Rightarrow> bytes" where
  "rmd_torque_data ratio = [0xA1, 0, 0, 0] @ le_bytes16 ratio @ [0, 0]"

definition rmd_send_torque_raw :: "u8 \<Rightarrow> u16 \<Rightarrow> motorsys \<Rightarrow> bool \<times> motorsys" where
  "rmd_send_torque_raw i ratio ms =
     ms_send (0x140 + ucast i) (rmd_torque_data (rmd_ratio_clamp ratio)) ms"

definition rmd_send_torque :: "u8 \<Rightarrow> flt \<Rightarrow> motorsys \<Rightarrow> bool \<times> motorsys" where
  "rmd_send_torque i torque ms =
    (let ratio = cast_i16 (clampf (torque * ms_scale ms) (flt_of_int (- RMD_TORQUE_RATIO_MAX))
                             (flt_of_int RMD_TORQUE_RATIO_MAX))
     in rmd_send_torque_raw i ratio ms)"

definition rmd_send_torque_broadcast :: "u16 list \<Rightarrow> motorsys \<Rightarrow> bool \<times> motorsys" where
  "rmd_send_torque_broadcast ratio ms =
     ms_send 0x280 (concat (map (\<lambda>k. le_bytes16 (ratio ! k)) [0..<4])) ms"

definition rmd_velocity_lsb :: "flt \<Rightarrow> u32" where
  "rmd_velocity_lsb vel =
    (let dps = clampf (vel * (Fin 180 / PI_F)) (- RMD_SPEED_DPS_MAX) RMD_SPEED_DPS_MAX
     in cast_i32 (dps * Fin 100))"

definition rmd_send_velocity :: "u8 \<Rightarrow> flt \<Rightarrow> motorsys \<Rightarrow> bool \<times> motorsys" where
  "rmd_send_velocity i vel ms =
     ms_send (0x140 + ucast i) ([0xA2, 0, 0, 0] @ le_bytes32 (rmd_velocity_lsb vel)) ms"

text \<open>C's fmodf: the remainder has the sign of the dividend.\<close>
definition fmodf :: "flt \<Rightarrow> flt \<Rightarrow> flt" where
  "fmodf a b = (case (a, b) of
      (Fin x, Fin y) \<Rightarrow> if y = 0 then NaN else Fin (x - of_int (rtrunc (x / y)) * y)
    | (Fin x, NaN) \<Rightarrow> NaN | (Fin x, _) \<Rightarrow> Fin x | _ \<Rightarrow> NaN)"

definition rmd_send_position_single_turn :: "u8 \<Rightarrow> flt \<Rightarrow> flt \<Rightarrow> bool \<Rightarrow> motorsys \<Rightarrow> bool \<times> motorsys" where
  "rmd_send_position_single_turn i angle maxspeed cw ms =
    (let angle = fmodf angle (Fin 2 * PI_F);
         angle = (if angle < Fin 0 then angle + Fin 2 * PI_F else angle);
         maxspeed_dps = cast_u16 (maxspeed * (Fin 180 / PI_F));
         angle_lsb = cast_u32 (angle * (Fin 180 / PI_F) * Fin 100)
     in ms_send (0x140 + ucast i)
          ([0xA6, if cw then 0 else 1] @ le_bytes16 maxspeed_dps @ le_bytes32 angle_lsb) ms)"

definition rmd_send_status_request :: "u8 \<Rightarrow> motorsys \<Rightarrow> motorsys" where
  "rmd_send_status_request i ms = snd (ms_send (0x140 + ucast i) [0x9A, 0, 0, 0, 0, 0, 0, 0] ms)"

text \<open>The decode of a torque or velocity command's reply, and of a status reply.\<close>
definition rmd_motion_update :: "flt \<Rightarrow> u8 \<Rightarrow> bytes \<Rightarrow> motor_state \<Rightarrow> motor_state" where
  "rmd_motion_update scale hip_id d m =
    (let raw_iq = le16s d 2;
         raw_speed = le16s d 4;
         raw_enc = flt_of_int (uint (le16 d 6));
         temp = flt_of_int (uint (d ! 1));
         raw_pos = raw_enc * (PI_F / Fin 32768);
         sign = at_hip HIP_SIGN hip_id
     in m\<lparr>torque_Nm := (if Fin 0 < scale then sign * raw_iq / scale else Fin 0),
          vel_rads := sign * raw_speed * (PI_F / Fin 180),
          pos_rad := hip_to_robot_frame hip_id raw_pos,
          temp_C := temp, mvalid := True\<rparr>)"

definition rmd_status_update :: "bytes \<Rightarrow> motor_state \<Rightarrow> motor_state" where
  "rmd_status_update d m =
    (let temp = flt_of_int (sint (d ! 1)); volt = flt_of_int (uint (le16 d 2))
     in m\<lparr>temp_C := temp, voltage_V := volt * Fin 0.01, error_flags := d ! 7, mvalid := True\<rparr>)"

definition rmd_rx_cb :: "nat \<Rightarrow> can_frame \<Rightarrow> motorsys \<Rightarrow> motorsys" where
  "rmd_rx_cb idx f ms =
    (if fr_dlc f < 8 then ms
     else let ms = upd_motor idx (\<lambda>m. m\<lparr>rx_count := rx_count m + 1\<rparr>) ms; d = fr_data f in
       if d ! 0 = 0xA1 \<or> d ! 0 = 0xA2 then
         upd_motor idx (rmd_motion_update (ms_scale ms) (me_id (ms_entries ms ! idx)) d) ms
       else if d ! 0 = 0x9A then upd_motor idx (rmd_status_update d) ms
       else ms)"

section \<open>ODrive frames\<close>

definition ODRIVE_CMD_HEARTBEAT :: u8 where "ODRIVE_CMD_HEARTBEAT = 0x01"
definition ODRIVE_CMD_SET_AXIS_STATE :: u8 where "ODRIVE_CMD_SET_AXIS_STATE = 0x07"
definition ODRIVE_CMD_GET_ENCODER_EST :: u8 where "ODRIVE_CMD_GET_ENCODER_EST = 0x09"
definition ODRIVE_CMD_SET_CONTROLLER_MODE :: u8 where "ODRIVE_CMD_SET_CONTROLLER_MODE = 0x0B"
definition ODRIVE_CMD_SET_INPUT_VEL :: u8 where "ODRIVE_CMD_SET_INPUT_VEL = 0x0D"
definition ODRIVE_CMD_SET_INPUT_TORQUE :: u8 where "ODRIVE_CMD_SET_INPUT_TORQUE = 0x0E"
definition ODRIVE_AXIS_STATE_IDLE :: u32 where "ODRIVE_AXIS_STATE_IDLE = 1"
definition ODRIVE_AXIS_STATE_CLOSED_LOOP :: u32 where "ODRIVE_AXIS_STATE_CLOSED_LOOP = 8"
definition ODRIVE_CONTROL_MODE_TORQUE :: u32 where "ODRIVE_CONTROL_MODE_TORQUE = 1"
definition ODRIVE_CONTROL_MODE_VELOCITY :: u32 where "ODRIVE_CONTROL_MODE_VELOCITY = 2"
definition ODRIVE_INPUT_MODE_PASSTHROUGH :: u32 where "ODRIVE_INPUT_MODE_PASSTHROUGH = 1"
definition ODRIVE_TORQUE_LIMIT_NM :: flt where "ODRIVE_TORQUE_LIMIT_NM = Fin 8"
definition ODRIVE_GEAR_RATIO :: flt where "ODRIVE_GEAR_RATIO = Fin 8"

definition odrive_arb_id :: "u8 \<Rightarrow> u8 \<Rightarrow> u32" where
  "odrive_arb_id node_id cmd_id = push_bit 5 (ucast node_id) OR ucast cmd_id"

definition odrive_set_axis_state :: "u8 \<Rightarrow> u32 \<Rightarrow> motorsys \<Rightarrow> motorsys" where
  "odrive_set_axis_state i state ms =
     snd (ms_send (odrive_arb_id i ODRIVE_CMD_SET_AXIS_STATE) (le_bytes32 state @ [0, 0, 0, 0]) ms)"

definition odrive_set_controller_mode :: "u8 \<Rightarrow> u32 \<Rightarrow> u32 \<Rightarrow> motorsys \<Rightarrow> motorsys" where
  "odrive_set_controller_mode i control_mode input_mode ms =
     snd (ms_send (odrive_arb_id i ODRIVE_CMD_SET_CONTROLLER_MODE)
       (le_bytes32 control_mode @ le_bytes32 input_mode) ms)"

definition odrive_init_axis :: "u8 \<Rightarrow> motorsys \<Rightarrow> motorsys" where
  "odrive_init_axis i ms =
    (let ms = odrive_set_controller_mode i ODRIVE_CONTROL_MODE_TORQUE ODRIVE_INPUT_MODE_PASSTHROUGH ms
     in odrive_set_axis_state i ODRIVE_AXIS_STATE_CLOSED_LOOP ms)"

definition odrive_send_torque :: "u8 \<Rightarrow> flt \<Rightarrow> motorsys \<Rightarrow> bool \<times> motorsys" where
  "odrive_send_torque i torque ms =
    (let torque = clampf torque (- ODRIVE_TORQUE_LIMIT_NM) ODRIVE_TORQUE_LIMIT_NM;
         motor_torque = torque / ODRIVE_GEAR_RATIO
     in ms_send (odrive_arb_id i ODRIVE_CMD_SET_INPUT_TORQUE) (f32_bytes motor_torque @ [0, 0, 0, 0]) ms)"

definition odrive_send_velocity :: "u8 \<Rightarrow> flt \<Rightarrow> motorsys \<Rightarrow> bool \<times> motorsys" where
  "odrive_send_velocity i vel ms =
    (let motor_cmd = vel * ODRIVE_GEAR_RATIO; torque_ff = Fin 0
     in ms_send (odrive_arb_id i ODRIVE_CMD_SET_INPUT_VEL) (f32_bytes motor_cmd @ f32_bytes torque_ff) ms)"

definition odrive_estimate_update :: "flt \<Rightarrow> bytes \<Rightarrow> motor_state \<Rightarrow> motor_state" where
  "odrive_estimate_update sign d m =
    (let pos_turns = f32_read d 0; vel_turns_s = f32_read d 4
     in m\<lparr>pos_rad := sign * pos_turns * (Fin 2 * PI_F) / ODRIVE_GEAR_RATIO,
          vel_rads := sign * vel_turns_s * (Fin 2 * PI_F) / ODRIVE_GEAR_RATIO,
          mvalid := True\<rparr>)"

definition odrive_rx_cb :: "nat \<Rightarrow> can_frame \<Rightarrow> motorsys \<Rightarrow> motorsys" where
  "odrive_rx_cb idx f ms =
    (if fr_dlc f < 8 then ms
     else let cmd = ucast (std_sid f AND 0x1F) :: u8;
              ms = upd_motor idx (\<lambda>m. m\<lparr>rx_count := rx_count m + 1\<rparr>) ms in
       if cmd = ODRIVE_CMD_GET_ENCODER_EST then
         upd_motor idx (odrive_estimate_update (me_sign (ms_entries ms ! idx)) (fr_data f)) ms
       else if cmd = ODRIVE_CMD_HEARTBEAT then upd_motor idx (\<lambda>m. m\<lparr>mvalid := True\<rparr>) ms
       else ms)"

text \<open>The SDC102 driver is a stub in the source: it sends and decodes nothing.\<close>
definition sdc102_send_torque :: "u8 \<Rightarrow> flt \<Rightarrow> motorsys \<Rightarrow> motorsys" where
  "sdc102_send_torque i torque ms = ms"
definition sdc102_send_velocity :: "u8 \<Rightarrow> flt \<Rightarrow> motorsys \<Rightarrow> motorsys" where
  "sdc102_send_velocity i vel ms = ms"
definition sdc102_rx_cb :: "nat \<Rightarrow> can_frame \<Rightarrow> motorsys \<Rightarrow> motorsys" where
  "sdc102_rx_cb idx f ms = ms"

section \<open>Registration\<close>

definition ms_register :: "u32 \<Rightarrow> can_cb \<Rightarrow> motorsys \<Rightarrow> motorsys" where
  "ms_register sid cb ms = ms\<lparr>ms_can := bprl_can_register CAN_BUS_1 sid cb (ms_can ms)\<rparr>"

definition can_motor_register :: "u8 \<Rightarrow> can_motor_proto \<Rightarrow> u8 \<Rightarrow> flt \<Rightarrow> motorsys \<Rightarrow> motorsys" where
  "can_motor_register i proto node_id sign ms =
    (if length (ms_entries ms) \<ge> CAN_MOTOR_MAX then ms
     else let wire_id = (if node_id \<noteq> 0 then node_id else i);
              idx = length (ms_entries ms);
              ms = ms\<lparr>ms_entries := ms_entries ms @ [\<lparr>me_id = i, me_proto = proto,
                     me_registered = True, me_node_id = wire_id, me_sign = sign\<rparr>]\<rparr>
       in case proto of
            CAN_MOTOR_RMD \<Rightarrow> ms_register (0x140 + ucast i) (CB_RMD idx) ms
          | CAN_MOTOR_SDC102 \<Rightarrow> ms_register (0x300 + ucast i) (CB_SDC102 idx) ms
          | CAN_MOTOR_ODRIVE \<Rightarrow>
              (let ms = ms_register (odrive_arb_id wire_id ODRIVE_CMD_HEARTBEAT) (CB_ODRIVE idx) ms;
                   ms = ms_register (odrive_arb_id wire_id ODRIVE_CMD_GET_ENCODER_EST) (CB_ODRIVE idx) ms
               in odrive_init_axis wire_id ms))"

definition motorsys_new :: "can_cb can \<Rightarrow> motorsys" where
  "motorsys_new c = \<lparr>ms_can = c, ms_entries = [], ms_motors = replicate CAN_MOTOR_MAX motor_state_zero,
     ms_scale = RMD_TORQUE_SCALE_DEFAULT, ms_next = 0\<rparr>"

section \<open>The command interface\<close>

definition entry :: "motorsys \<Rightarrow> nat \<Rightarrow> motor_entry" where
  "entry ms i = ms_entries ms ! i"

definition record_after :: "nat \<Rightarrow> bool \<times> motorsys \<Rightarrow> motorsys" where
  "record_after i r = motor_record_tx i (fst r) (snd r)"

text \<open>The torque a hip command is reduced to, in the robot frame.\<close>
definition hip_gated_torque :: "motorsys \<Rightarrow> nat \<Rightarrow> u8 \<Rightarrow> flt \<Rightarrow> flt" where
  "hip_gated_torque ms idx i torque =
    (let (valid, pos, vel) = hip_current_state ms idx in
     if valid then clampf (torque * hip_soft_scale i pos vel torque) (- HIP_TORQUE_LIMIT_NM) HIP_TORQUE_LIMIT_NM
     else Fin 0)"

definition can_motor_set_torque :: "u8 \<Rightarrow> flt \<Rightarrow> motorsys \<Rightarrow> bool \<times> motorsys" where
  "can_motor_set_torque i torque ms =
    (case find_entry ms i of None \<Rightarrow> (False, ms)
     | Some k \<Rightarrow> (True, case me_proto (entry ms k) of
         CAN_MOTOR_RMD \<Rightarrow>
           record_after k (rmd_send_torque i (hip_gated_torque ms k i torque * at_hip HIP_SIGN i) ms)
       | CAN_MOTOR_SDC102 \<Rightarrow> sdc102_send_torque i torque ms
       | CAN_MOTOR_ODRIVE \<Rightarrow>
           record_after k (odrive_send_torque (me_node_id (entry ms k)) (torque * me_sign (entry ms k)) ms)))"

text \<open>The entry of a hip identifier, when it is one of the RMD drives.\<close>
definition rmd_entry :: "motorsys \<Rightarrow> u8 \<Rightarrow> nat option" where
  "rmd_entry ms i = (case find_entry ms i of None \<Rightarrow> None
     | Some k \<Rightarrow> if me_proto (entry ms k) \<noteq> CAN_MOTOR_RMD then None else Some k)"

definition broadcast_ratio :: "motorsys \<Rightarrow> nat \<Rightarrow> u8 \<Rightarrow> flt \<Rightarrow> u16" where
  "broadcast_ratio ms k i torque =
     cast_i16 (clampf (hip_gated_torque ms k i torque * ms_scale ms * at_hip HIP_SIGN i)
        (flt_of_int (- RMD_TORQUE_RATIO_MAX)) (flt_of_int RMD_TORQUE_RATIO_MAX))"

definition can_motor_set_hip_torques_broadcast :: "flt list \<Rightarrow> motorsys \<Rightarrow> bool \<times> motorsys" where
  "can_motor_set_hip_torques_broadcast torques ms =
    (case (rmd_entry ms 1, rmd_entry ms 2, rmd_entry ms 3, rmd_entry ms 4) of
       (Some k1, Some k2, Some k3, Some k4) \<Rightarrow>
         (let ratio = [broadcast_ratio ms k1 1 (torques ! 0), broadcast_ratio ms k2 2 (torques ! 1),
                       broadcast_ratio ms k3 3 (torques ! 2), broadcast_ratio ms k4 4 (torques ! 3)];
              (ok, ms) = rmd_send_torque_broadcast ratio ms
          in (ok, fold (\<lambda>k. motor_record_tx k ok) [k1, k2, k3, k4] ms))
     | _ \<Rightarrow> (False, ms))"

definition can_motor_set_torque_raw :: "u8 \<Rightarrow> u16 \<Rightarrow> motorsys \<Rightarrow> bool \<times> motorsys" where
  "can_motor_set_torque_raw i ratio ms =
    (case rmd_entry ms i of None \<Rightarrow> (False, ms)
     | Some k \<Rightarrow>
        (let (valid, pos, vel) = hip_current_state ms k;
             r = flt_of_int (sint ratio);
             ratio_out = (if valid then
                cast_i16 (clampf (r * hip_soft_scale i pos vel r)
                  (- flt_of_int RMD_TORQUE_RATIO_MAX) (flt_of_int RMD_TORQUE_RATIO_MAX)) else 0)
         in (True, record_after k (rmd_send_torque_raw i
               (cast_i16 (flt_of_int (sint ratio_out) * at_hip HIP_SIGN i)) ms))))"

definition can_motor_set_velocity :: "u8 \<Rightarrow> flt \<Rightarrow> motorsys \<Rightarrow> bool \<times> motorsys" where
  "can_motor_set_velocity i vel ms =
    (case find_entry ms i of None \<Rightarrow> (False, ms)
     | Some k \<Rightarrow> (True, case me_proto (entry ms k) of
         CAN_MOTOR_RMD \<Rightarrow>
           (let (valid, pos, cur) = hip_current_state ms k;
                vel = (if valid then hip_clamp_velocity i vel pos else Fin 0)
            in record_after k (rmd_send_velocity i (vel * at_hip HIP_SIGN i) ms))
       | CAN_MOTOR_SDC102 \<Rightarrow> sdc102_send_velocity i vel ms
       | CAN_MOTOR_ODRIVE \<Rightarrow>
           record_after k (odrive_send_velocity (me_node_id (entry ms k)) (vel * me_sign (entry ms k)) ms)))"

definition can_motor_set_odrive_mode :: "u8 \<Rightarrow> bool \<Rightarrow> motorsys \<Rightarrow> bool \<times> motorsys" where
  "can_motor_set_odrive_mode i velocity_mode ms =
    (case find_entry ms i of None \<Rightarrow> (False, ms)
     | Some k \<Rightarrow> if me_proto (entry ms k) \<noteq> CAN_MOTOR_ODRIVE then (False, ms)
       else let wire_id = me_node_id (entry ms k);
                ms = odrive_set_axis_state wire_id ODRIVE_AXIS_STATE_IDLE ms;
                ms = odrive_set_controller_mode wire_id
                  (if velocity_mode then ODRIVE_CONTROL_MODE_VELOCITY else ODRIVE_CONTROL_MODE_TORQUE)
                  ODRIVE_INPUT_MODE_PASSTHROUGH ms;
                ms = odrive_set_axis_state wire_id ODRIVE_AXIS_STATE_CLOSED_LOOP ms
            in (True, ms))"

definition can_motor_set_position :: "u8 \<Rightarrow> flt \<Rightarrow> flt \<Rightarrow> bool \<Rightarrow> motorsys \<Rightarrow> bool \<times> motorsys" where
  "can_motor_set_position i target maxspeed cw ms =
    (case rmd_entry ms i of None \<Rightarrow> (False, ms)
     | Some k \<Rightarrow>
        (let target = hip_clamp_position_target i target;
             maxspeed = clampf maxspeed (Fin 0) HIP_VEL_LIMIT_RADS;
             wire_cw = (if Fin 0 < at_hip HIP_SIGN i then cw else \<not> cw)
         in (True, snd (rmd_send_position_single_turn i (hip_to_raw i target) maxspeed wire_cw ms))))"

definition can_motor_request_encoder :: "u8 \<Rightarrow> motorsys \<Rightarrow> bool \<times> motorsys" where
  "can_motor_request_encoder i ms =
    (case find_entry ms i of None \<Rightarrow> (False, ms)
     | Some k \<Rightarrow> if me_proto (entry ms k) \<noteq> CAN_MOTOR_ODRIVE then (False, ms)
       else let (ok, c) = can_send_rtr CAN_BUS_1
                  (odrive_arb_id (me_node_id (entry ms k)) ODRIVE_CMD_GET_ENCODER_EST) 8 (ms_can ms)
            in (ok, motor_record_tx k ok (ms\<lparr>ms_can := c\<rparr>)))"

definition can_motor_get_state :: "u8 \<Rightarrow> motorsys \<Rightarrow> motor_state option" where
  "can_motor_get_state i ms = map_option (\<lambda>k. ms_motors ms ! k) (find_entry ms i)"

definition can_motor_request_status :: "u8 \<Rightarrow> motorsys \<Rightarrow> bool \<times> motorsys" where
  "can_motor_request_status i ms =
    (case rmd_entry ms i of None \<Rightarrow> (False, ms) | Some k \<Rightarrow> (True, rmd_send_status_request i ms))"

definition can_motor_hip_angle_min :: "u8 \<Rightarrow> flt" where
  "can_motor_hip_angle_min i = (if i < 1 \<or> i > 4 then Fin 0 else at_hip HIP_ANGLE_MIN_RAD i)"

definition can_motor_hip_angle_max :: "u8 \<Rightarrow> flt" where
  "can_motor_hip_angle_max i = (if i < 1 \<or> i > 4 then Fin 0 else at_hip HIP_ANGLE_MAX_RAD i)"

definition can_motor_poll_status_round_robin :: "motorsys \<Rightarrow> motorsys" where
  "can_motor_poll_status_round_robin ms =
    (let n = length (ms_entries ms) in
     if n = 0 then ms
     else case find (\<lambda>i. me_proto (entry ms i) = CAN_MOTOR_RMD) (map (\<lambda>k. (ms_next ms + k) mod n) [0..<n]) of
       None \<Rightarrow> ms
     | Some i \<Rightarrow> (rmd_send_status_request (me_id (entry ms i)) ms)\<lparr>ms_next := (i + 1) mod n\<rparr>)"

text \<open>The callback a CAN frame runs, of those the motor driver registers.\<close>
definition run_motor_cb :: "can_cb \<Rightarrow> can_frame \<Rightarrow> motorsys \<Rightarrow> motorsys" where
  "run_motor_cb cb f ms = (case cb of CB_RMD k \<Rightarrow> rmd_rx_cb k f ms | CB_SDC102 k \<Rightarrow> sdc102_rx_cb k f ms
     | CB_ODRIVE k \<Rightarrow> odrive_rx_cb k f ms | _ \<Rightarrow> ms)"

end
