(* ===== verification/SoftLimit.thy ===== *)
theory SoftLimit
  imports MathLib
begin

text \<open>
  The direction-aware soft limit the firmware uses in two places (hip_limit_scale in CANMotor.cpp,
  limit_scale in ActuatorSafety.cpp): a factor for a signed command, given where a measured value
  stands in its range.  The locale states the contract; each user interprets it on its own
  definition and gets the facts about the scaled command from here.
\<close>

locale soft_limit =
  fixes factor :: "flt \<Rightarrow> flt \<Rightarrow> flt"
    and lo hi margin :: real
  assumes unit: "\<exists>s. factor (Fin v) (Fin q) = Fin s \<and> 0 \<le> s \<and> s \<le> 1"
    and stop_hi: "hi \<le> v \<Longrightarrow> 0 < q \<Longrightarrow> factor (Fin v) (Fin q) = Fin 0"
    and stop_lo: "v \<le> lo \<Longrightarrow> q < 0 \<Longrightarrow> factor (Fin v) (Fin q) = Fin 0"
    and free: "lo + margin \<le> v \<or> 0 < q \<Longrightarrow> v \<le> hi - margin \<or> q < 0 \<Longrightarrow>
       factor (Fin v) (Fin q) = Fin 1"
    and order: "lo < hi" "0 < margin"
begin

definition fac :: "real \<Rightarrow> real \<Rightarrow> real" where
  "fac v q = val (factor (Fin v) (Fin q))"

lemma factor_fac: "factor (Fin v) (Fin q) = Fin (fac v q)"
  using unit [of v q] by (auto simp: fac_def)

lemma fac_unit: "0 \<le> fac v q" "fac v q \<le> 1"
  using unit [of v q] by (auto simp: fac_def)

lemma fac_stop: "hi \<le> v \<Longrightarrow> 0 < q \<Longrightarrow> fac v q = 0" "v \<le> lo \<Longrightarrow> q < 0 \<Longrightarrow> fac v q = 0"
  by (simp_all add: fac_def stop_hi stop_lo)

lemma fac_free: "lo + margin \<le> v \<Longrightarrow> v \<le> hi - margin \<Longrightarrow> fac v q = 1"
  by (simp add: fac_def free)

text \<open>The scaled command never grows, keeps its sign, and does not push past a bound.\<close>
lemma scaled_abs: "\<bar>q * fac v q\<bar> \<le> \<bar>q\<bar>"
  using fac_unit [of v q] by (simp add: abs_mult mult_left_le)

lemma scaled_sign: "0 \<le> q \<Longrightarrow> 0 \<le> q * fac v q" "q \<le> 0 \<Longrightarrow> q * fac v q \<le> 0"
  using fac_unit [of v q] by (simp_all add: mult_nonpos_nonneg)

lemma scaled_inward:
  "hi \<le> v \<Longrightarrow> q * fac v q \<le> 0" "v \<le> lo \<Longrightarrow> 0 \<le> q * fac v q"
  by (cases "0 < q"; simp add: fac_stop scaled_sign(2)) (cases "q < 0"; simp add: fac_stop scaled_sign(1))

end

text \<open>The formula both places share.\<close>
definition ramp_factor :: "flt \<Rightarrow> flt \<Rightarrow> flt \<Rightarrow> flt \<Rightarrow> flt \<Rightarrow> flt" where
  "ramp_factor value lo hi margin q =
    (if Fin 0 < q then constrain_float ((hi - value) / margin) (Fin 0) (Fin 1)
     else if q < Fin 0 then constrain_float ((value - lo) / margin) (Fin 0) (Fin 1)
     else Fin 1)"

lemma ramp_factor_soft_limit:
  assumes "lo < hi" "0 < m"
  shows "soft_limit (\<lambda>v q. ramp_factor v (Fin lo) (Fin hi) (Fin m) q) lo hi m"
proof
  fix v q :: real
  show "\<exists>s. ramp_factor (Fin v) (Fin lo) (Fin hi) (Fin m) (Fin q) = Fin s \<and> 0 \<le> s \<and> s \<le> 1"
    using assms by (simp add: ramp_factor_def clampr_bounds)
next
  fix v q :: real assume "hi \<le> v" "0 < q"
  then show "ramp_factor (Fin v) (Fin lo) (Fin hi) (Fin m) (Fin q) = Fin 0"
    using assms by (auto simp: ramp_factor_def clampr_def zero_le_divide_iff divide_less_0_iff divide_le_0_iff not_less)
next
  fix v q :: real assume "v \<le> lo" "q < 0"
  then show "ramp_factor (Fin v) (Fin lo) (Fin hi) (Fin m) (Fin q) = Fin 0"
    using assms by (auto simp: ramp_factor_def clampr_def zero_le_divide_iff divide_less_0_iff divide_le_0_iff not_less)
next
  fix v q :: real assume "lo + m \<le> v \<or> 0 < q" "v \<le> hi - m \<or> q < 0"
  then show "ramp_factor (Fin v) (Fin lo) (Fin hi) (Fin m) (Fin q) = Fin 1"
    using assms by (auto simp: ramp_factor_def clampr_def field_simps)
qed (use assms in auto)

end
