(* ===== verification/HipGate.thy ===== *)
theory HipGate
  imports CanMotor SoftLimit
begin

text \<open>
  What the motor driver guarantees: the safety gate of the hip commands, the equivalence of the
  broadcast frame with the single commands, the position target on the wire, the table's invariant
  under every received frame, and the ODrive command sequences.
\<close>

lemma clampf_constrain: "clampf = constrain_float"
  by (simp add: fun_eq_iff clampf_def constrain_float_def)

lemma hip_limit_ramp: "hip_limit_scale v lo hi m q = ramp_factor v lo hi m q"
  by (simp add: hip_limit_scale_def ramp_factor_def clampf_constrain)

interpretation hip_angle: soft_limit
  "\<lambda>v q. hip_limit_scale v (Fin (- 1.45)) (Fin 0.44) HIP_ANGLE_SOFT_MARGIN_RAD q" "- 1.45" "0.44" "0.175"
  unfolding hip_limit_ramp HIP_ANGLE_SOFT_MARGIN_RAD_def by (rule ramp_factor_soft_limit) simp_all

interpretation hip_vel: soft_limit
  "\<lambda>v q. hip_limit_scale v (- HIP_VEL_LIMIT_RADS) HIP_VEL_LIMIT_RADS HIP_VEL_SOFT_MARGIN_RADS q" "- 20" "20" "4"
  unfolding hip_limit_ramp HIP_VEL_LIMIT_RADS_def HIP_VEL_SOFT_MARGIN_RADS_def
  using ramp_factor_soft_limit [of "- 20" 20 4] by simp

section \<open>Identifiers and arrays\<close>

definition hip_id :: "u8 \<Rightarrow> bool" where
  "hip_id i = (1 \<le> unat i \<and> unat i \<le> 4)"

lemma hip_id_cases: "hip_id i \<Longrightarrow> i = 1 \<or> i = 2 \<or> i = 3 \<or> i = 4"
proof -
  assume "hip_id i"
  then have "unat i = 1 \<or> unat i = 2 \<or> unat i = 3 \<or> unat i = 4" by (auto simp: hip_id_def)
  then show ?thesis by (auto simp: u8_eq_iff)
qed

lemma hip_bounds [simp]:
  "hip_id i \<Longrightarrow> at_hip HIP_ANGLE_MIN_RAD i = Fin (- 1.45)"
  "hip_id i \<Longrightarrow> at_hip HIP_ANGLE_MAX_RAD i = Fin 0.44"
  by (auto dest!: hip_id_cases simp: at_hip_def HIP_ANGLE_MIN_RAD_def HIP_ANGLE_MAX_RAD_def)

definition hsign :: "u8 \<Rightarrow> real" where "hsign i = val (at_hip HIP_SIGN i)"
definition hoffset :: "u8 \<Rightarrow> real" where "hoffset i = val (at_hip HIP_OFFSET_RAD i)"

lemma hip_sign: "hip_id i \<Longrightarrow> at_hip HIP_SIGN i = Fin (hsign i)" "hip_id i \<Longrightarrow> \<bar>hsign i\<bar> = 1"
    "hip_id i \<Longrightarrow> hsign i * hsign i = 1" "hip_id i \<Longrightarrow> hsign i = 1 \<or> hsign i = - 1"
  by (auto dest!: hip_id_cases simp: at_hip_def HIP_SIGN_def hsign_def)

lemma hip_offset: "hip_id i \<Longrightarrow> at_hip HIP_OFFSET_RAD i = Fin (hoffset i)"
    "hip_id i \<Longrightarrow> 3.18 \<le> hoffset i \<and> hoffset i \<le> 3.74"
  by (auto dest!: hip_id_cases simp: at_hip_def HIP_OFFSET_RAD_def hoffset_def)

section \<open>The gate\<close>

text \<open>The gate over the reals, for a verified position and velocity.\<close>
definition gate :: "real \<Rightarrow> real \<Rightarrow> real \<Rightarrow> real" where
  "gate pos vel q = clampr (q * (hip_angle.fac pos q * hip_vel.fac vel q)) (- 12) 12"

lemma hip_gated_torque_valid:
  assumes "hip_id i" "mvalid (ms_motors ms ! k)" "pos_rad (ms_motors ms ! k) = Fin p"
    "vel_rads (ms_motors ms ! k) = Fin v"
  shows "hip_gated_torque ms k i (Fin q) = Fin (gate p v q)"
  using assms hip_angle.factor_fac [of p q] hip_vel.factor_fac [of v q]
  by (simp add: hip_gated_torque_def hip_current_state_def hip_soft_scale_def Let_def
      clampf_constrain HIP_TORQUE_LIMIT_NM_def gate_def)

lemma hip_gated_torque_invalid:
  "\<not> mvalid (ms_motors ms ! k) \<Longrightarrow> hip_gated_torque ms k i q = Fin 0"
  by (simp add: hip_gated_torque_def hip_current_state_def Let_def)

lemma clampr_pres: "a \<le> 0 \<Longrightarrow> lo \<le> 0 \<Longrightarrow> clampr a lo hi \<le> max 0 lo" "0 \<le> a \<Longrightarrow> 0 \<le> hi \<Longrightarrow> min 0 hi \<le> clampr a lo hi"
  by (auto simp: clampr_def)

lemma gate_safe:
  shows "\<bar>gate p v q\<bar> \<le> 12" "\<bar>gate p v q\<bar> \<le> \<bar>q\<bar>"
    "0.44 \<le> p \<or> 20 \<le> v \<Longrightarrow> gate p v q \<le> 0" "p \<le> - 1.45 \<or> v \<le> - 20 \<Longrightarrow> 0 \<le> gate p v q"
proof -
  let ?a = "hip_angle.fac p q" and ?b = "hip_vel.fac v q"
  have u: "0 \<le> ?a" "?a \<le> 1" "0 \<le> ?b" "?b \<le> 1" by (rule hip_angle.fac_unit hip_vel.fac_unit)+
  have ab: "0 \<le> ?a * ?b" "?a * ?b \<le> 1" using u by (simp_all add: mult_le_one)
  show "\<bar>gate p v q\<bar> \<le> 12" by (simp add: gate_def clampr_abs)
  have "\<bar>q * (?a * ?b)\<bar> \<le> \<bar>q\<bar>" using ab by (simp add: abs_mult mult_left_le)
  then show "\<bar>gate p v q\<bar> \<le> \<bar>q\<bar>" by (auto simp: gate_def clampr_def)
  have neg: "q \<le> 0 \<Longrightarrow> q * (?a * ?b) \<le> 0" and pos: "0 \<le> q \<Longrightarrow> 0 \<le> q * (?a * ?b)"
    using ab by (simp_all add: mult_nonpos_nonneg)
  show "gate p v q \<le> 0" if "0.44 \<le> p \<or> 20 \<le> v"
  proof (cases "0 < q")
    case True
    then have "?a = 0 \<or> ?b = 0" using that hip_angle.fac_stop(1) hip_vel.fac_stop(1) by blast
    then show ?thesis by (auto simp: gate_def clampr_def)
  next
    case False
    then show ?thesis using neg by (auto simp: gate_def clampr_def)
  qed
  show "0 \<le> gate p v q" if "p \<le> - 1.45 \<or> v \<le> - 20"
  proof (cases "q < 0")
    case True
    then have "?a = 0 \<or> ?b = 0" using that hip_angle.fac_stop(2) hip_vel.fac_stop(2) by blast
    then show ?thesis by (auto simp: gate_def clampr_def)
  next
    case False
    then show ?thesis using pos by (auto simp: gate_def clampr_def)
  qed
qed

section \<open>What a command puts on the bus\<close>

lemma ms_send_sel [simp]:
  "ms_entries (snd (ms_send sid d ms)) = ms_entries ms"
  "ms_motors (snd (ms_send sid d ms)) = ms_motors ms"
  "ms_scale (snd (ms_send sid d ms)) = ms_scale ms"
  "ms_next (snd (ms_send sid d ms)) = ms_next ms"
  by (simp_all add: ms_send_def case_prod_beta)

lemma ms_send_tx [simp]:
  "length d = 8 \<Longrightarrow> can_tx (ms_can (snd (ms_send sid d ms))) = can_tx (ms_can ms) @ [(CAN_BUS_1, data_frame sid d)]"
  by (simp add: ms_send_def can_send_8 case_prod_beta)

lemma motor_record_tx_sel [simp]:
  "ms_can (motor_record_tx k ok ms) = ms_can ms" "ms_entries (motor_record_tx k ok ms) = ms_entries ms"
  "ms_scale (motor_record_tx k ok ms) = ms_scale ms"
  by (simp_all add: motor_record_tx_def upd_motor_def)

lemma record_after_sel [simp]:
  "ms_can (record_after k r) = ms_can (snd r)" "ms_entries (record_after k r) = ms_entries (snd r)"
  by (simp_all add: record_after_def)

lemma length_rmd_data [simp]: "length (rmd_torque_data r) = 8"
  by (simp add: rmd_torque_data_def)

text \<open>A ratio inside the drive's range passes the integer clamp unchanged.\<close>
lemma ratio_word:
  assumes "\<bar>x\<bar> \<le> 2048"
  shows "rmd_ratio_clamp (cast_i16 (Fin x)) = cast_i16 (Fin x)" "sint (cast_i16 (Fin x)) = rtrunc x"
    "\<bar>rtrunc x\<bar> \<le> 2048"
proof -
  have "- 2048 \<le> rtrunc x \<and> rtrunc x \<le> 2048"
    using assms rtrunc_bounds [of 2048 x 2048] by (simp add: abs_le_iff)
  then show b: "\<bar>rtrunc x\<bar> \<le> 2048" by (auto simp: abs_le_iff)
  then show s: "sint (cast_i16 (Fin x)) = rtrunc x" by (intro sint_cast_i16) simp_all
  show "rmd_ratio_clamp (cast_i16 (Fin x)) = cast_i16 (Fin x)"
    using b by (simp add: rmd_ratio_clamp_def s RMD_TORQUE_RATIO_MAX_def abs_le_iff)
qed

lemma rmd_send_torque_eq:
  assumes "ms_scale ms = Fin sc"
  shows "rmd_send_torque i (Fin t) ms = ms_send (0x140 + ucast i)
     (rmd_torque_data (cast_i16 (Fin (clampr (t * sc) (- 2048) 2048)))) ms"
  using ratio_word(1) [of "clampr (t * sc) (- 2048) 2048"] clampr_abs [of 2048]
  by (simp add: rmd_send_torque_def assms clampf_constrain RMD_TORQUE_RATIO_MAX_def Let_def
      rmd_send_torque_raw_def)

lemma find_entry_Some:
  "find_entry ms i = Some k \<Longrightarrow> k < length (ms_entries ms) \<and> me_id (entry ms k) = i"
  using index_of_SomeD [of "\<lambda>e. me_id e = i"] by (auto simp: find_entry_def entry_def)

lemma rmd_entry_Some:
  "rmd_entry ms i = Some k \<longleftrightarrow> find_entry ms i = Some k \<and> me_proto (entry ms k) = CAN_MOTOR_RMD"
  by (auto simp: rmd_entry_def split: option.splits if_splits)

section \<open>Properties of the gate\<close>

text \<open>What a torque command to a hip sends, with verified feedback and without.\<close>
lemma set_torque_frame:
  assumes "hip_id i" "rmd_entry ms i = Some k" "ms_scale ms = Fin sc"
    and "hip_gated_torque ms k i q = Fin t"
  shows "fst (can_motor_set_torque i q ms)"
    "can_tx (ms_can (snd (can_motor_set_torque i q ms))) = can_tx (ms_can ms) @ [(CAN_BUS_1,
       data_frame (0x140 + ucast i)
         (rmd_torque_data (cast_i16 (Fin (clampr (t * hsign i * sc) (- 2048) 2048)))))]"
  using assms
  by (simp_all add: can_motor_set_torque_def rmd_entry_Some hip_sign rmd_send_torque_eq)

text \<open>C8. The hip safety gate: whoever asks for whatever finite torque on a registered hip, the one
  frame that goes out is a torque command to that drive whose raw value stays within +-2048 and
  stands for a torque t (before the mirror sign and the drive's scale) that is at most 12 Nm and at
  most what was asked; t is never positive at or beyond the upper angle bound or the upper velocity
  limit, never negative at or beyond the lower ones, and zero while the hip has no verified
  feedback.\<close>
theorem hip_torque_gate:
  assumes "hip_id i" "rmd_entry ms i = Some k" "ms_scale ms = Fin sc"
    and "pos_rad (ms_motors ms ! k) = Fin p" "vel_rads (ms_motors ms ! k) = Fin v"
  shows "\<exists>t r. can_tx (ms_can (snd (can_motor_set_torque i (Fin q) ms))) =
        can_tx (ms_can ms) @ [(CAN_BUS_1, data_frame (0x140 + ucast i) (rmd_torque_data r))]
    \<and> sint r = rtrunc (clampr (t * hsign i * sc) (- 2048) 2048) \<and> \<bar>sint r\<bar> \<le> 2048
    \<and> \<bar>t\<bar> \<le> 12 \<and> \<bar>t\<bar> \<le> \<bar>q\<bar>
    \<and> (0.44 \<le> p \<or> 20 \<le> v \<longrightarrow> t \<le> 0) \<and> (p \<le> - 1.45 \<or> v \<le> - 20 \<longrightarrow> 0 \<le> t)
    \<and> (\<not> mvalid (ms_motors ms ! k) \<longrightarrow> t = 0)"
proof -
  define t where "t = (if mvalid (ms_motors ms ! k) then gate p v q else 0)"
  have t: "hip_gated_torque ms k i (Fin q) = Fin t"
    using hip_gated_torque_valid [OF assms(1) _ assms(4,5), of q] hip_gated_torque_invalid
    by (simp add: t_def)
  let ?x = "clampr (t * hsign i * sc) (- 2048) 2048"
  have "\<bar>?x\<bar> \<le> 2048" by (simp add: clampr_abs)
  note w = ratio_word [OF this]
  have "\<bar>t\<bar> \<le> 12 \<and> \<bar>t\<bar> \<le> \<bar>q\<bar> \<and> (0.44 \<le> p \<or> 20 \<le> v \<longrightarrow> t \<le> 0) \<and> (p \<le> - 1.45 \<or> v \<le> - 20 \<longrightarrow> 0 \<le> t)"
    using gate_safe [of p v q] by (simp add: t_def)
  then show ?thesis
    using set_torque_frame(2) [OF assms(1-3) t] w(2,3)
    by (intro exI [of _ t] exI [of _ "cast_i16 (Fin ?x)"]) (simp add: t_def)
qed

text \<open>Four hips at the zero pose and two wheels, as the witnesses use them.\<close>
definition hip_state :: "real \<Rightarrow> real \<Rightarrow> motor_state" where
  "hip_state p v = motor_state_zero\<lparr>pos_rad := Fin p, vel_rads := Fin v, mvalid := True\<rparr>"

definition demo_ms :: motorsys where
  "demo_ms = (motorsys_new (can_new (\<lambda>_. True)))
     \<lparr>ms_entries := map (\<lambda>i. \<lparr>me_id = i, me_proto = CAN_MOTOR_RMD, me_registered = True,
         me_node_id = i, me_sign = Fin 1\<rparr>) [1, 2, 3, 4],
      ms_motors := [hip_state 0.5 0, hip_state 0 0, hip_state (- 0.3) 3, motor_state_zero]
         @ replicate 4 motor_state_zero\<rparr>"

lemma demo_entries: "rmd_entry demo_ms 1 = Some 0" "rmd_entry demo_ms 2 = Some 1"
  "rmd_entry demo_ms 3 = Some 2" "rmd_entry demo_ms 4 = Some 3" "ms_scale demo_ms = Fin 83.3"
  "can_tx (ms_can demo_ms) = []"
  by (simp_all add: demo_ms_def rmd_entry_def find_entry_def entry_def motorsys_new_def can_new_def
      RMD_TORQUE_SCALE_DEFAULT_def)

lemma demo_motors: "ms_motors demo_ms = [hip_state 0.5 0, hip_state 0 0, hip_state (- 0.3) 3,
    motor_state_zero, motor_state_zero, motor_state_zero, motor_state_zero, motor_state_zero]"
  by (simp add: demo_ms_def motorsys_new_def numeral_eq_Suc)

lemma hip_state_sel [simp]: "pos_rad (hip_state p v) = Fin p" "vel_rads (hip_state p v) = Fin v"
  "mvalid (hip_state p v)"
  by (simp_all add: hip_state_def)

lemma hip_torque_gate_witness:
  "\<exists>r. can_tx (ms_can (snd (can_motor_set_torque 1 (Fin 5) demo_ms))) =
     [(CAN_BUS_1, data_frame 0x141 (rmd_torque_data r))] \<and> \<bar>sint r\<bar> \<le> 2048"
  using hip_torque_gate [of 1 demo_ms 0 "83.3" "0.5" 0 5]
  by (auto simp: demo_entries demo_motors hip_id_def)

text \<open>C9. One broadcast frame does what four single commands do: its eight payload bytes are, hip by
  hip, exactly the two ratio bytes the single torque command to that hip would carry from the same
  state, for any finite torques.\<close>
theorem hip_broadcast_equiv:
  assumes "rmd_entry ms 1 = Some k1" "rmd_entry ms 2 = Some k2" "rmd_entry ms 3 = Some k3"
    "rmd_entry ms 4 = Some k4" "ms_scale ms = Fin sc"
    and "\<forall>k \<in> {k1, k2, k3, k4}. isfin (pos_rad (ms_motors ms ! k)) \<and> isfin (vel_rads (ms_motors ms ! k))"
  shows "can_tx (ms_can (snd (can_motor_set_hip_torques_broadcast [Fin a, Fin b, Fin c, Fin d] ms))) =
     can_tx (ms_can ms) @ [(CAN_BUS_1, data_frame 0x280 (concat (map
       (\<lambda>(i, q). take 2 (drop 4 (fr_data (snd (last (can_tx (ms_can (snd (can_motor_set_torque i (Fin q) ms)))))))))
       [(1, a), (2, b), (3, c), (4, d)])))]"
proof -
  have single: "take 2 (drop 4 (fr_data (snd (last (can_tx (ms_can (snd (can_motor_set_torque i (Fin q) ms))))))))
      = le_bytes16 (broadcast_ratio ms k i (Fin q))"
    if H: "hip_id i" "rmd_entry ms i = Some k" "k \<in> {k1, k2, k3, k4}" for i k q
  proof -
    obtain p v where pv: "pos_rad (ms_motors ms ! k) = Fin p" "vel_rads (ms_motors ms ! k) = Fin v"
      using assms(6) H(3) by (meson isfinE)
    obtain t where t: "hip_gated_torque ms k i (Fin q) = Fin t"
      using hip_gated_torque_valid [OF H(1) _ pv] hip_gated_torque_invalid by metis
    show ?thesis
      unfolding set_torque_frame(2) [OF H(1,2) assms(5) t]
      by (simp add: data_frame_def rmd_torque_data_def broadcast_ratio_def t assms(5)
          hip_sign(1) [OF H(1)] clampf_constrain RMD_TORQUE_RATIO_MAX_def le_bytes16_def ac_simps)
  qed
  have len: "length (concat (map (\<lambda>k. le_bytes16 (xs ! k)) [0..<4])) = 8" for xs
    by (simp add: numeral_eq_Suc)
  have up4: "[0..<4] = [0, 1, 2, 3::nat]" by (simp add: numeral_eq_Suc)
  show ?thesis
    using assms(1-4) single [of 1 k1 a] single [of 2 k2 b] single [of 3 k3 c] single [of 4 k4 d]
    by (simp add: can_motor_set_hip_torques_broadcast_def rmd_send_torque_broadcast_def up4
        hip_id_def case_prod_beta Let_def)
qed

lemma hip_broadcast_equiv_witness:
  "length (can_tx (ms_can (snd (can_motor_set_hip_torques_broadcast [Fin 5, Fin 1, Fin 0, Fin 3] demo_ms)))) = 1"
  using hip_broadcast_equiv [of demo_ms 0 1 2 3 "83.3" 5 1 0 3]
  by (simp add: demo_entries demo_motors motor_state_zero_def)

section \<open>Frames of the robot and of the drive\<close>

lemma hip_frames_inverse:
  "hip_id i \<Longrightarrow> hip_to_robot_frame i (hip_to_raw i (Fin x)) = Fin x"
  "hip_id i \<Longrightarrow> hip_to_raw i (hip_to_robot_frame i (Fin x)) = Fin x"
  using hip_sign(4) [of i] by (auto simp: hip_to_robot_frame_def hip_to_raw_def hip_sign(1) hip_offset(1))

lemma le_word32_frame: "length xs = 4 \<Longrightarrow> le_word32 (xs @ le_bytes32 w) 4 = w"
  using le_word32_shift [of "le_bytes32 w" xs] by (simp add: le_word32_bytes)

text \<open>A position command cannot send a hip outside its angle window, and the angle on the wire
  is the angle meant: for any finite target the 0xA6 frame carries a single-turn angle of fewer than
  36000 hundredths of a degree which, read back through the offset and the mirror sign, is within a
  hundredth of a degree of the target clamped to [-1.45, 0.44] rad.\<close>
theorem hip_position_on_wire:
  assumes "hip_id i" "rmd_entry ms i = Some k"
  shows "\<exists>d n. can_tx (ms_can (snd (can_motor_set_position i (Fin x) (Fin vmax) cw ms))) =
        can_tx (ms_can ms) @ [(CAN_BUS_1, data_frame (0x140 + ucast i) d)]
    \<and> d ! 0 = 0xA6 \<and> unat (le_word32 d 4) = n \<and> n < 36000
    \<and> (\<exists>y. hip_to_robot_frame i (Fin (real n * (3.14159265 / 18000))) = Fin y
          \<and> \<bar>y - clampr x (- 1.45) 0.44\<bar> \<le> 3.14159265 / 18000)"
proof -
  define t where "t = clampr x (- 1.45) 0.44"
  define raw where "raw = hoffset i + hsign i * t"
  define n where "n = \<lfloor>raw * (180 / 3.14159265) * 100\<rfloor>"
  have t: "- 1.45 \<le> t" "t \<le> 0.44" using clampr_bounds [of "- 1.45" "0.44" x] by (simp_all add: t_def)
  have raw: "1.7 \<le> raw" "raw \<le> 5.2"
    using t hip_offset(2) [OF assms(1)] hip_sign(4) [OF assms(1)] by (auto simp: raw_def)
  have fm: "fmodf (Fin raw) (Fin 2 * PI_F) = Fin raw"
  proof -
    have "0 \<le> raw / (2 * 3.14159265)" "raw / (2 * 3.14159265) < 1" using raw by simp_all
    then have "rtrunc (raw / (2 * 3.14159265)) = 0" by (simp add: rtrunc_def floor_eq_iff)
    then show ?thesis by (simp add: fmodf_def PI_F_def)
  qed
  have n0: "0 \<le> n" unfolding n_def using raw by simp
  have n1: "n < 36000" unfolding n_def using raw by (simp add: floor_less_iff)
  have cast: "cast_u32 (Fin raw * (Fin 180 / PI_F) * Fin 100) = of_int n"
    using n0 n1 raw by (simp add: cast_u32_def sat_int_def rtrunc_def PI_F_def n_def)
  define d where "d = [0xA6, if (if Fin 0 < at_hip HIP_SIGN i then cw else \<not> cw) then 0 else 1]
      @ le_bytes16 (cast_u16 (clampf (Fin vmax) (Fin 0) HIP_VEL_LIMIT_RADS * (Fin 180 / PI_F)))
      @ le_bytes32 (of_int n)"
  have "hip_to_raw i (hip_clamp_position_target i (Fin x)) = Fin raw"
    using assms(1) by (simp add: hip_to_raw_def hip_clamp_position_target_def clampf_constrain
        hip_sign(1) hip_offset(1) t_def raw_def)
  then have "snd (can_motor_set_position i (Fin x) (Fin vmax) cw ms) = snd (ms_send (0x140 + ucast i) d ms)"
    using assms raw by (simp add: can_motor_set_position_def rmd_send_position_single_turn_def Let_def
        fm cast d_def)
  then have "can_tx (ms_can (snd (can_motor_set_position i (Fin x) (Fin vmax) cw ms))) =
        can_tx (ms_can ms) @ [(CAN_BUS_1, data_frame (0x140 + ucast i) d)]"
    by (simp add: d_def)
  moreover have "le_word32 d 4 = of_int n"
    using le_word32_frame [of "[0xA6, if (if Fin 0 < at_hip HIP_SIGN i then cw else \<not> cw) then 0 else 1]
      @ le_bytes16 (cast_u16 (clampf (Fin vmax) (Fin 0) HIP_VEL_LIMIT_RADS * (Fin 180 / PI_F)))" "of_int n"]
    by (simp add: d_def)
  moreover have "take_bit 32 n = n" using n0 n1 by (simp add: take_bit_int_eq_self)
  ultimately have "unat (le_word32 d 4) = nat n" by (simp add: unsigned_of_int)
  moreover have "\<exists>y. hip_to_robot_frame i (Fin (real (nat n) * (3.14159265 / 18000))) = Fin y
          \<and> \<bar>y - t\<bar> \<le> 3.14159265 / 18000"
  proof -
    let ?a = "real (nat n) * (3.14159265 / 18000)"
    have nr: "real (nat n) = real_of_int n" using n0 by simp
    have "real_of_int n \<le> raw * (18000 / 3.14159265)" "raw * (18000 / 3.14159265) < real_of_int n + 1"
      unfolding n_def by linarith+
    then have "\<bar>?a - raw\<bar> \<le> 3.14159265 / 18000" unfolding nr by (simp add: abs_le_iff field_simps)
    moreover have "hsign i * (?a - hoffset i) - t = hsign i * (?a - raw)"
      using hip_sign(3) [OF assms(1)] by (simp add: raw_def algebra_simps)
    ultimately have "\<bar>hsign i * (?a - hoffset i) - t\<bar> \<le> 3.14159265 / 18000"
      using hip_sign(2) [OF assms(1)] by (simp add: abs_mult)
    then show ?thesis using assms(1) by (simp add: hip_to_robot_frame_def hip_sign(1) hip_offset(1))
  qed
  moreover note \<open>can_tx (ms_can (snd (can_motor_set_position i (Fin x) (Fin vmax) cw ms))) =
        can_tx (ms_can ms) @ [(CAN_BUS_1, data_frame (0x140 + ucast i) d)]\<close>
  ultimately show ?thesis
    using n0 n1 unfolding t_def [symmetric]
    by (intro exI [of _ d] exI [of _ "nat n"]) (simp add: d_def)
qed

lemma hip_position_on_wire_witness:
  "\<exists>d. can_tx (ms_can (snd (can_motor_set_position 2 (Fin 3) (Fin 1) True demo_ms))) =
     [(CAN_BUS_1, data_frame 0x142 d)] \<and> d ! 0 = 0xA6"
  using hip_position_on_wire [of 2 demo_ms 1 3 1 True] by (auto simp: demo_entries hip_id_def)

section \<open>The motor table under received frames\<close>

text \<open>Eight states, hips registered with the identifiers 1 to 4 only, a finite torque scale, and
  every hip's reading finite.\<close>
definition motors_ok :: "motorsys \<Rightarrow> bool" where
  "motors_ok ms = (length (ms_motors ms) = 8 \<and> length (ms_entries ms) \<le> 8 \<and> isfin (ms_scale ms) \<and>
     (\<forall>k < length (ms_entries ms). me_proto (entry ms k) = CAN_MOTOR_RMD \<longrightarrow>
        hip_id (me_id (entry ms k)) \<and> isfin (pos_rad (ms_motors ms ! k)) \<and>
        isfin (vel_rads (ms_motors ms ! k)) \<and> isfin (torque_Nm (ms_motors ms ! k))))"

text \<open>The context of a hip callback is the index of an RMD entry, that of a wheel callback is not.\<close>
definition cb_ok :: "motorsys \<Rightarrow> can_cb \<Rightarrow> bool" where
  "cb_ok ms cb = (case cb of
      CB_RMD k \<Rightarrow> k < length (ms_entries ms) \<and> me_proto (entry ms k) = CAN_MOTOR_RMD
    | CB_ODRIVE k \<Rightarrow> k < length (ms_entries ms) \<and> me_proto (entry ms k) = CAN_MOTOR_ODRIVE
    | _ \<Rightarrow> True)"

lemma upd_motor_sel [simp]:
  "ms_entries (upd_motor k f ms) = ms_entries ms" "ms_scale (upd_motor k f ms) = ms_scale ms"
  "ms_can (upd_motor k f ms) = ms_can ms" "ms_next (upd_motor k f ms) = ms_next ms"
  "length (ms_motors (upd_motor k f ms)) = length (ms_motors ms)"
  "entry (upd_motor k f ms) j = entry ms j"
  by (simp_all add: upd_motor_def entry_def)

lemma upd_motor_nth:
  "j < length (ms_motors ms) \<Longrightarrow>
   ms_motors (upd_motor k f ms) ! j = (if j = k then f (ms_motors ms ! k) else ms_motors ms ! j)"
  by (simp add: upd_motor_def nth_list_update)

lemma upd_motor_ok:
  assumes "motors_ok ms"
    and "me_proto (entry ms k) = CAN_MOTOR_RMD \<Longrightarrow> k < length (ms_entries ms) \<Longrightarrow>
      isfin (pos_rad (f (ms_motors ms ! k))) \<and> isfin (vel_rads (f (ms_motors ms ! k))) \<and>
      isfin (torque_Nm (f (ms_motors ms ! k)))"
  shows "motors_ok (upd_motor k f ms)"
  using assms by (auto simp: motors_ok_def upd_motor_nth)

lemma rmd_motion_fin:
  assumes "hip_id i" "isfin sc"
  shows "isfin (pos_rad (rmd_motion_update sc i d m))" "isfin (vel_rads (rmd_motion_update sc i d m))"
    "isfin (torque_Nm (rmd_motion_update sc i d m))"
  using assms
  by (auto simp: rmd_motion_update_def Let_def hip_sign(1) le16s_def PI_F_def hip_to_robot_frame_def
      hip_offset(1))

lemma rmd_status_keeps [simp]:
  "pos_rad (rmd_status_update d m) = pos_rad m" "vel_rads (rmd_status_update d m) = vel_rads m"
  "torque_Nm (rmd_status_update d m) = torque_Nm m"
  by (simp_all add: rmd_status_update_def Let_def)

lemma motors_okD:
  "motors_ok ms \<Longrightarrow> k < length (ms_entries ms) \<Longrightarrow> me_proto (entry ms k) = CAN_MOTOR_RMD \<Longrightarrow>
   hip_id (me_id (entry ms k)) \<and> isfin (ms_scale ms) \<and> isfin (pos_rad (ms_motors ms ! k)) \<and>
   isfin (vel_rads (ms_motors ms ! k)) \<and> isfin (torque_Nm (ms_motors ms ! k))"
  by (simp add: motors_ok_def)

lemma rmd_rx_ok:
  assumes "motors_ok ms" "k < length (ms_entries ms)" "me_proto (entry ms k) = CAN_MOTOR_RMD"
  shows "motors_ok (rmd_rx_cb k f ms)"
proof -
  define ms1 where "ms1 = upd_motor k (\<lambda>m. m\<lparr>rx_count := rx_count m + 1\<rparr>) ms"
  have ok: "motors_ok ms1"
    unfolding ms1_def using motors_okD [OF assms] by (intro upd_motor_ok [OF assms(1)]) simp
  have k: "k < length (ms_entries ms1)" "me_proto (entry ms1 k) = CAN_MOTOR_RMD"
    using assms by (simp_all add: ms1_def)
  note d = motors_okD [OF ok k]
  have "motors_ok (upd_motor k (rmd_motion_update (ms_scale ms1) (me_id (entry ms1 k)) (fr_data f)) ms1)"
    "motors_ok (upd_motor k (rmd_status_update (fr_data f)) ms1)"
    using d by (auto intro!: upd_motor_ok [OF ok] rmd_motion_fin)
  then show ?thesis
    using assms(1) ok by (simp add: rmd_rx_cb_def Let_def entry_def flip: ms1_def)
qed

lemma odrive_rx_ok:
  assumes "motors_ok ms" "me_proto (entry ms k) = CAN_MOTOR_ODRIVE"
  shows "motors_ok (odrive_rx_cb k f ms)"
proof -
  define ms1 where "ms1 = upd_motor k (\<lambda>m. m\<lparr>rx_count := rx_count m + 1\<rparr>) ms"
  have ok: "motors_ok (upd_motor k g m)" if "motors_ok m" "ms_entries m = ms_entries ms" for g m
    using that assms(2) by (intro upd_motor_ok) (simp_all add: entry_def)
  have "motors_ok ms1" "ms_entries ms1 = ms_entries ms" using ok [OF assms(1)] by (simp_all add: ms1_def)
  then show ?thesis
    using assms(1) ok by (simp add: odrive_rx_cb_def Let_def flip: ms1_def)
qed

lemma rx_cb_frame [simp]:
  "ms_entries (rmd_rx_cb k f ms) = ms_entries ms" "ms_can (rmd_rx_cb k f ms) = ms_can ms"
  "ms_entries (odrive_rx_cb k f ms) = ms_entries ms" "ms_can (odrive_rx_cb k f ms) = ms_can ms"
  by (simp_all add: rmd_rx_cb_def odrive_rx_cb_def Let_def)

lemma motor_callbacks_ok:
  assumes "motors_ok ms" "cb_ok ms cb"
  shows "motors_ok (run_motor_cb cb f ms) \<and> ms_entries (run_motor_cb cb f ms) = ms_entries ms \<and>
     ms_can (run_motor_cb cb f ms) = ms_can ms"
  using assms
  by (cases cb) (simp_all add: run_motor_cb_def cb_ok_def sdc102_rx_cb_def rmd_rx_ok odrive_rx_ok)

text \<open>The driver's handler contract holds of the motor callbacks, for any fixed set of entries.\<close>
definition ms_with :: "motor_entry list \<Rightarrow> motorsys \<Rightarrow> bool" where
  "ms_with es ms = (motors_ok ms \<and> ms_entries ms = es)"

definition cb_for :: "motor_entry list \<Rightarrow> can_cb \<Rightarrow> bool" where
  "cb_for es cb = (case cb of
      CB_RMD k \<Rightarrow> k < length es \<and> me_proto (es ! k) = CAN_MOTOR_RMD
    | CB_ODRIVE k \<Rightarrow> k < length es \<and> me_proto (es ! k) = CAN_MOTOR_ODRIVE
    | _ \<Rightarrow> True)"

interpretation motor_cbs: can_handlers run_motor_cb "cb_for es" "ms_with es" for es
proof
  fix cb s f assume "cb_for es cb" "ms_with es s"
  then show "ms_with es (run_motor_cb cb f s)"
    using motor_callbacks_ok [of s cb f] by (auto simp: ms_with_def cb_for_def cb_ok_def entry_def split: can_cb.splits)
qed

section \<open>ODrive commands\<close>

text \<open>A mode switch of a wheel drive is always the three frames idle, new controller mode with
  pass-through input, closed loop, in this order and to the drive's own node, and nothing else; an
  unknown identifier or a drive of another kind sends nothing and is refused.\<close>
theorem odrive_mode_sequence:
  "case find_entry ms i of
     Some k \<Rightarrow> if me_proto (entry ms k) = CAN_MOTOR_ODRIVE
       then fst (can_motor_set_odrive_mode i vel ms) \<and>
         can_tx (ms_can (snd (can_motor_set_odrive_mode i vel ms))) = can_tx (ms_can ms) @
         map (Pair CAN_BUS_1)
          [data_frame (odrive_arb_id (me_node_id (entry ms k)) 0x07) ([1, 0, 0, 0] @ [0, 0, 0, 0]),
           data_frame (odrive_arb_id (me_node_id (entry ms k)) 0x0B)
             ([if vel then 2 else 1, 0, 0, 0] @ [1, 0, 0, 0]),
           data_frame (odrive_arb_id (me_node_id (entry ms k)) 0x07) ([8, 0, 0, 0] @ [0, 0, 0, 0])]
       else can_motor_set_odrive_mode i vel ms = (False, ms)
   | None \<Rightarrow> can_motor_set_odrive_mode i vel ms = (False, ms)"
proof -
  have b: "le_bytes32 1 = [1, 0, 0, 0]" "le_bytes32 2 = [2, 0, 0, 0]" "le_bytes32 8 = [8, 0, 0, 0]"
    by (simp_all add: le_bytes32_def)
  show ?thesis
    by (simp split: option.split add: can_motor_set_odrive_mode_def odrive_set_axis_state_def
        odrive_set_controller_mode_def ODRIVE_CMD_SET_AXIS_STATE_def ODRIVE_CMD_SET_CONTROLLER_MODE_def
        ODRIVE_AXIS_STATE_IDLE_def ODRIVE_AXIS_STATE_CLOSED_LOOP_def ODRIVE_CONTROL_MODE_TORQUE_def
        ODRIVE_CONTROL_MODE_VELOCITY_def ODRIVE_INPUT_MODE_PASSTHROUGH_def Let_def b)
qed

text \<open>A wheel drive, registered the way the left wheel is.\<close>
definition wheel_ms :: motorsys where
  "wheel_ms = (motorsys_new (can_new (\<lambda>_. True)))
     \<lparr>ms_entries := [\<lparr>me_id = 5, me_proto = CAN_MOTOR_ODRIVE, me_registered = True,
         me_node_id = 2, me_sign = Fin (- 1)\<rparr>]\<rparr>"

lemma wheel_entry: "find_entry wheel_ms 5 = Some 0" "me_proto (entry wheel_ms 0) = CAN_MOTOR_ODRIVE"
  "me_node_id (entry wheel_ms 0) = 2" "me_sign (entry wheel_ms 0) = Fin (- 1)"
  "can_tx (ms_can wheel_ms) = []"
  by (simp_all add: wheel_ms_def find_entry_def entry_def motorsys_new_def can_new_def)

lemma odrive_mode_sequence_witness:
  "length (can_tx (ms_can (snd (can_motor_set_odrive_mode 5 True wheel_ms)))) = 3
   \<and> find_entry wheel_ms 5 = Some 0"
  using odrive_mode_sequence [where ms = wheel_ms and i = 5 and vel = True] by (simp add: wheel_entry)

text \<open>The two directions of the wheel drive's velocity are in different units: if the drive
  reports back, in the field for turns per second, exactly the number the firmware sent as its
  velocity command, the decoded wheel speed is 2 pi (3.14159265) times the commanded one, for
  either mirror sign and every command the 32-bit format represents.\<close>
theorem odrive_velocity_units:
  assumes "find_entry ms i = Some k" "me_proto (entry ms k) = CAN_MOTOR_ODRIVE"
    "me_sign (entry ms k) = Fin s" "s * s = 1" "f32_of_bits w = Fin (v * s * 8)"
  shows "\<exists>d. can_tx (ms_can (snd (can_motor_set_velocity i (Fin v) ms))) =
      can_tx (ms_can ms) @ [(CAN_BUS_1, data_frame (odrive_arb_id (me_node_id (entry ms k)) 0x0D) d)]
    \<and> (\<forall>pos. length pos = 4 \<longrightarrow>
          vel_rads (odrive_estimate_update (Fin s) (pos @ take 4 d) m) = Fin (2 * 3.14159265 * v))"
proof -
  define d where "d = f32_bytes (Fin (v * s * 8)) @ f32_bytes (Fin 0)"
  have "can_tx (ms_can (snd (can_motor_set_velocity i (Fin v) ms))) =
      can_tx (ms_can ms) @ [(CAN_BUS_1, data_frame (odrive_arb_id (me_node_id (entry ms k)) 0x0D) d)]"
    using assms by (simp add: can_motor_set_velocity_def odrive_send_velocity_def ODRIVE_GEAR_RATIO_def
        ODRIVE_CMD_SET_INPUT_VEL_def Let_def d_def)
  moreover have "f32_read (pos @ take 4 d) 4 = Fin (v * s * 8)" if "length pos = 4" for pos
    using le_word32_frame [OF that, of "f32_bits (Fin (v * s * 8))"] f32_roundtrip [of w] assms(5)
    by (simp add: f32_read_def d_def f32_bytes_def)
  ultimately show ?thesis
    using assms(4) by (intro exI [of _ d])
      (simp add: odrive_estimate_update_def PI_F_def ODRIVE_GEAR_RATIO_def algebra_simps Let_def)
qed

lemma odrive_velocity_units_witness:
  "\<exists>d. can_tx (ms_can (snd (can_motor_set_velocity 5 (Fin 2) wheel_ms))) =
      [(CAN_BUS_1, data_frame (odrive_arb_id 2 0x0D) d)]
    \<and> vel_rads (odrive_estimate_update (Fin (- 1)) ([0, 0, 0, 0] @ take 4 d) motor_state_zero)
        = Fin (2 * 3.14159265 * 2)"
proof -
  have "f32_of_bits 0xC1800000 = Fin (- 16)"
    by (simp add: f32_of_bits_def f32_mag_def f32_sign_def Let_def)
  then obtain d where "can_tx (ms_can (snd (can_motor_set_velocity 5 (Fin 2) wheel_ms))) =
      can_tx (ms_can wheel_ms) @ [(CAN_BUS_1, data_frame (odrive_arb_id (me_node_id (entry wheel_ms 0)) 0x0D) d)]"
    "\<forall>pos. length pos = 4 \<longrightarrow> vel_rads (odrive_estimate_update (Fin (- 1)) (pos @ take 4 d) motor_state_zero)
        = Fin (2 * 3.14159265 * 2)"
    using odrive_velocity_units [OF wheel_entry(1,2,4), of "0xC1800000" 2] by auto
  from this(1) this(2) [THEN spec, of "[0, 0, 0, 0]"] show ?thesis
    by (intro exI [of _ d]) (simp add: wheel_entry)
qed

end
