(* ===== verification/HipLock.thy ===== *)
theory HipLock
  imports Pid FiveBar HipGate
begin

text \<open>
  The hip position hold of src/src/controllers/HipLock.cpp: one PID per hip drives the joint to a
  fixed angle, or to the angles inverse kinematics give for a commanded leg length.  The clock each
  PID reads is an argument, one value per hip in the order of the loop.
\<close>

definition HIP_IDS :: "u8 list" where "HIP_IDS = [1, 2, 3, 4]"

definition HL_TORQUE_LIMIT_NM :: flt where "HL_TORQUE_LIMIT_NM = Fin 8"

text \<open>The four PIDs, front left, front right, rear left, rear right.\<close>
type_synonym hip_lock = "pid list"

definition hip_lock_new :: hip_lock where
  "hip_lock_new = replicate 4 (pid_new (Fin 8) (Fin 0) (Fin 0.3) (Fin 2) (Fin 30))"

definition hip_lock_reset :: "hip_lock \<Rightarrow> hip_lock" where
  "hip_lock_reset ps = map pid_reset ps"

text \<open>The body of both loops: torque and PID of one hip.\<close>
definition hip_hold :: "u32 \<Rightarrow> motorsys \<Rightarrow> u8 \<Rightarrow> flt \<Rightarrow> pid \<Rightarrow> flt \<times> pid" where
  "hip_hold now ms i target p =
    (case can_motor_get_state i ms of None \<Rightarrow> (Fin 0, p)
     | Some s \<Rightarrow> if \<not> mvalid s then (Fin 0, p)
       else let error = target - pos_rad s; (u, p) = pid_update now error p
            in (constrain_float u (- HL_TORQUE_LIMIT_NM) HL_TORQUE_LIMIT_NM, p))"

definition hip_lock_drive :: "(nat \<Rightarrow> u32) \<Rightarrow> motorsys \<Rightarrow> flt list \<Rightarrow> hip_lock \<Rightarrow> flt list \<times> hip_lock" where
  "hip_lock_drive clk ms targets ps =
    (let rs = map (\<lambda>i. hip_hold (clk i) ms (HIP_IDS ! i) (targets ! i) (ps ! i)) [0..<4]
     in (map fst rs, map snd rs))"

definition hip_lock_update :: "(nat \<Rightarrow> u32) \<Rightarrow> motorsys \<Rightarrow> hip_lock \<Rightarrow> flt list \<times> hip_lock" where
  "hip_lock_update clk ms ps = hip_lock_drive clk ms (replicate 4 (Fin 0)) ps"

definition hip_lock_update_leg :: "(nat \<Rightarrow> u32) \<Rightarrow> motorsys \<Rightarrow> flt \<Rightarrow> flt \<Rightarrow> hip_lock \<Rightarrow> flt list \<times> hip_lock" where
  "hip_lock_update_leg clk ms L_target thL_target ps =
    (case ik LEG_PARAMS L_target thL_target of None \<Rightarrow> (replicate 4 (Fin 0), ps)
     | Some (phi1, phi4) \<Rightarrow> hip_lock_drive clk ms [phi4, phi4, phi1, phi1] ps)"

section \<open>Bounded commands\<close>

text \<open>A command that a symmetric clamp lets through: not a number, or inside the clamp.\<close>
definition cmd_le :: "real \<Rightarrow> flt \<Rightarrow> bool" where
  "cmd_le b t \<longleftrightarrow> isnan t \<or> (isfin t \<and> \<bar>val t\<bar> \<le> b)"

lemma cmd_le_Fin [simp]: "cmd_le b (Fin x) \<longleftrightarrow> \<bar>x\<bar> \<le> b" "cmd_le b NaN"
  by (simp_all add: cmd_le_def)

lemma cmd_le_mono: "cmd_le a t \<Longrightarrow> a \<le> b \<Longrightarrow> cmd_le b t"
  by (auto simp: cmd_le_def)

lemma cmd_le_constrain: "0 \<le> b \<Longrightarrow> cmd_le b (constrain_float v (Fin (- b)) (Fin b))"
  by (cases v) (auto simp: constrain_float_def cmd_le_def abs_le_iff)

lemma cmd_le_add: "cmd_le a s \<Longrightarrow> cmd_le b t \<Longrightarrow> cmd_le (a + b) (s + t)"
  by (cases s; cases t) (auto simp: cmd_le_def)

lemma cmd_le_scale: "cmd_le a t \<Longrightarrow> 0 \<le> k \<Longrightarrow> cmd_le (k * a) (Fin k * t)"
  by (cases t) (auto simp: cmd_le_def abs_mult mult_left_mono)

lemma cmd_le_fin: "cmd_le b t \<Longrightarrow> isfin t \<Longrightarrow> \<bar>val t\<bar> \<le> b"
  by (auto simp: cmd_le_def)

section \<open>The hold\<close>

definition lock_ok :: "hip_lock \<Rightarrow> bool" where
  "lock_ok ps \<longleftrightarrow> length ps = 4 \<and> (\<forall>p \<in> set ps. pid_ok p)"

lemma hip_hold_le: "cmd_le 8 (fst (hip_hold now ms i target p))"
  by (auto simp: hip_hold_def HL_TORQUE_LIMIT_NM_def Let_def cmd_le_constrain split: option.split prod.split)

lemma hip_hold_fin:
  assumes "pid_ok p" "isfin target" "\<forall>s. can_motor_get_state i ms = Some s \<longrightarrow> mvalid s \<longrightarrow> isfin (pos_rad s)"
  shows "pid_ok (snd (hip_hold now ms i target p))" "isfin (fst (hip_hold now ms i target p))"
proof -
  have "isfin (target - pos_rad s)" if "can_motor_get_state i ms = Some s" "mvalid s" for s
    using assms that by blast
  note fin = pid_update_fin [OF assms(1) this]
  have con: "isfin (constrain_float u (Fin (- 8)) (Fin 8))" if "isfin u" for u
    using that by (auto elim!: isfinE)
  show "pid_ok (snd (hip_hold now ms i target p))" "isfin (fst (hip_hold now ms i target p))"
    using fin assms(1) con
    by (simp_all add: hip_hold_def HL_TORQUE_LIMIT_NM_def Let_def split: option.split prod.split)
      (metis fst_conv snd_conv)+
qed

lemma hip_lock_drive_le:
  "length (fst (hip_lock_drive clk ms targets ps)) = 4 \<and>
   length (snd (hip_lock_drive clk ms targets ps)) = 4 \<and>
   (\<forall>t \<in> set (fst (hip_lock_drive clk ms targets ps)). cmd_le 8 t)"
  by (auto simp: hip_lock_drive_def hip_hold_le)


lemma hip_lock_leg_le:
  "length (fst (hip_lock_update_leg clk ms L th ps)) = 4 \<and>
   (\<forall>t \<in> set (fst (hip_lock_update_leg clk ms L th ps)). cmd_le 8 t)"
  using hip_lock_drive_le by (auto simp: hip_lock_update_leg_def split: option.split prod.split)

text \<open>Every hip that answers has a finite position.\<close>
definition hips_fin :: "motorsys \<Rightarrow> bool" where
  "hips_fin ms \<longleftrightarrow> (\<forall>i \<in> set HIP_IDS. \<forall>s. can_motor_get_state i ms = Some s \<longrightarrow> mvalid s \<longrightarrow> isfin (pos_rad s))"

lemma hip_lock_drive_fin:
  assumes "lock_ok ps" "\<forall>t \<in> set targets. isfin t" "length targets = 4" "hips_fin ms"
  shows "lock_ok (snd (hip_lock_drive clk ms targets ps))"
    "\<forall>t \<in> set (fst (hip_lock_drive clk ms targets ps)). isfin t"
proof -
  have h: "pid_ok (snd (hip_hold (clk i) ms (HIP_IDS ! i) (targets ! i) (ps ! i))) \<and>
      isfin (fst (hip_hold (clk i) ms (HIP_IDS ! i) (targets ! i) (ps ! i)))" if "i < 4" for i
  proof -
    have "HIP_IDS ! i \<in> set HIP_IDS" using that by (intro nth_mem) (simp add: HIP_IDS_def)
    then show ?thesis using assms that
      by (intro conjI hip_hold_fin) (auto simp: lock_ok_def hips_fin_def)
  qed
  then show "lock_ok (snd (hip_lock_drive clk ms targets ps))"
    "\<forall>t \<in> set (fst (hip_lock_drive clk ms targets ps)). isfin t"
    by (auto simp: hip_lock_drive_def lock_ok_def)
qed

lemma ik_fin:
  assumes "ik LEG_PARAMS (Fin L) (Fin th) = Some (a, b)"
  shows "isfin a" "isfin b"
proof -
  from assms obtain Q R where k: "circ_int (rv (- 1 / 20, 0)) (Fin (13 / 100))
      (rv (L * sin th, - L * cos th)) (Fin (22 / 100)) True = Some Q"
    "circ_int (rv (1 / 20, 0)) (Fin (13 / 100)) (rv (L * sin th, - L * cos th)) (Fin (22 / 100)) False = Some R"
    and eq: "a = atan2f (snd Q - Fin 0) (Fin (- 1 / 20) - fst Q)" "b = atan2f (snd R - Fin 0) (fst R - Fin (1 / 20))"
    by (auto simp: ik_def ik_knees_def LEG_PARAMS_def foot_of_def rear_hip_def front_hip_def rv_def
        split: option.splits)
  show "isfin a" by (rule circ_int_Some [OF k(1)]) (simp add: eq)
  show "isfin b" by (rule circ_int_Some [OF k(2)]) (simp add: eq)
qed

lemma hip_lock_leg_fin:
  assumes "lock_ok ps" "hips_fin ms" "isfin L" "isfin th"
  shows "lock_ok (snd (hip_lock_update_leg clk ms L th ps))"
    "\<forall>t \<in> set (fst (hip_lock_update_leg clk ms L th ps)). isfin t"
proof -
  obtain l h where lh: "L = Fin l" "th = Fin h" using assms(3,4) by (auto elim!: isfinE)
  have d: "lock_ok (snd (hip_lock_drive clk ms [b, b, a, a] ps)) \<and>
      (\<forall>t \<in> set (fst (hip_lock_drive clk ms [b, b, a, a] ps)). isfin t)"
    if "ik LEG_PARAMS L th = Some (a, b)" for a b
  proof -
    have t: "\<forall>t \<in> set [b, b, a, a]. isfin t" using ik_fin [OF that [unfolded lh]] by simp
    show ?thesis using hip_lock_drive_fin [OF assms(1) t _ assms(2)] by simp
  qed
  show "lock_ok (snd (hip_lock_update_leg clk ms L th ps))"
    "\<forall>t \<in> set (fst (hip_lock_update_leg clk ms L th ps)). isfin t"
    using d assms(1) unfolding hip_lock_update_leg_def
    by (cases "ik LEG_PARAMS L th"; force)+
qed

lemma hip_lock_new_ok: "lock_ok hip_lock_new"
  by (simp add: lock_ok_def hip_lock_new_def pid_new_ok)

lemma hip_lock_reset_ok: "lock_ok ps \<Longrightarrow> lock_ok (hip_lock_reset ps)"
  by (auto simp: lock_ok_def hip_lock_reset_def)

end
