(* ===== verification/WheelLqr.thy ===== *)
theory WheelLqr
  imports MathLib
begin

text \<open>
  The gain-scheduled balance law of src/src/controllers/WheelBalanceLQR.cpp and its generated table
  (WheelBalanceGainTable.hpp): eight gains, each a cubic in the normalised leg length, evaluated by
  Horner's rule on the clamped length and applied to leg angle, body pitch and their rates.
\<close>

definition LMID :: flt where "LMID = Fin 0.155"
definition LHALF :: flt where "LHALF = Fin 0.065"

definition GAIN_TABLE :: "flt list list list" where
  "GAIN_TABLE =
    [[[Fin 0.08502192485, Fin (- 0.4310499173), Fin 2.209975412, Fin 12.91434993],
      [Fin 0.003738295724, Fin (- 0.02433993598), Fin 0.4716317516, Fin 2.257063503],
      [Fin (- 0.2706358581), Fin 0.7837599404, Fin (- 1.964976246), Fin 3.725633086],
      [Fin (- 0.02867492574), Fin 0.08544545275, Fin (- 0.2315406793), Fin 0.7699461515]],
     [[Fin 0.009772806254, Fin (- 0.08362981857), Fin 0.5709972871, Fin 3.442110677],
      [Fin (- 0.004702715616), Fin 0.01352124785, Fin (- 0.03386403959), Fin 0.05854680631],
      [Fin (- 0.04754249418), Fin 0.121954366, Fin (- 0.3540668357), Fin (- 19.10812115)],
      [Fin (- 0.004999325135), Fin 0.01280556685, Fin (- 0.03732861766), Fin (- 2.119130833)]]]"

definition lqr_clampf :: "flt \<Rightarrow> flt \<Rightarrow> flt \<Rightarrow> flt" where
  "lqr_clampf x lo hi = (if x < lo then lo else if hi < x then hi else x)"

text \<open>Coefficients highest degree first.\<close>
definition horner :: "flt list \<Rightarrow> flt \<Rightarrow> flt" where
  "horner c u = foldl (\<lambda>v ck. v * u + ck) (c ! 0) (drop 1 c)"

definition eval_gains :: "flt \<Rightarrow> flt list list" where
  "eval_gains L =
    (let L_min = LMID - LHALF; L_max = LMID + LHALF;
         L = lqr_clampf L L_min L_max;
         u = (L - LMID) / LHALF
     in map (map (\<lambda>c. horner c u)) GAIN_TABLE)"

record wheel_balance_output =
  wb_ax :: flt
  wb_Tp :: flt

definition wheel_balance_lqr :: "flt \<Rightarrow> flt \<Rightarrow> flt \<Rightarrow> flt \<Rightarrow> flt \<Rightarrow> wheel_balance_output" where
  "wheel_balance_lqr L theta thetadot phi phidot =
    (let K = eval_gains L; x = [theta, thetadot, phi, phidot] in
     \<lparr>wb_ax = foldl (\<lambda>a j. a - K ! 0 ! j * x ! j) (Fin 0) [0..<4],
      wb_Tp = foldl (\<lambda>a j. a - K ! 1 ! j * x ! j) (Fin 0) [0..<4]\<rparr>)"

section \<open>Gains on the fitted range\<close>

lemma horner4: "horner [a, b, c, d] u = ((a * u + b) * u + c) * u + d"
  by (simp add: horner_def)

definition norm_len :: "real \<Rightarrow> real" where
  "norm_len L = (clampr L 0.09 0.22 - 0.155) / 0.065"

lemma norm_len_unit: "\<bar>norm_len L\<bar> \<le> 1"
  by (simp add: norm_len_def clampr_def abs_le_iff)

text \<open>A cubic on the unit interval stays within the other coefficients' weight of its constant.\<close>
lemma cubic_bound:
  fixes a b c d u :: real
  assumes "\<bar>u\<bar> \<le> 1"
  shows "\<bar>((a * u + b) * u + c) * u + d - d\<bar> \<le> \<bar>a\<bar> + \<bar>b\<bar> + \<bar>c\<bar>"
proof -
  have m: "\<bar>x * u\<bar> \<le> \<bar>x\<bar>" for x :: real using assms by (simp add: abs_mult mult_left_le)
  have "\<bar>((a * u + b) * u + c) * u\<bar> \<le> \<bar>(a * u + b) * u + c\<bar>" by (rule m)
  also have "\<dots> \<le> \<bar>(a * u + b) * u\<bar> + \<bar>c\<bar>" by (rule abs_triangle_ineq)
  also have "\<dots> \<le> \<bar>a * u + b\<bar> + \<bar>c\<bar>" using m by simp
  also have "\<dots> \<le> \<bar>a * u\<bar> + \<bar>b\<bar> + \<bar>c\<bar>" using abs_triangle_ineq [of "a * u" b] by simp
  also have "\<dots> \<le> \<bar>a\<bar> + \<bar>b\<bar> + \<bar>c\<bar>" using m [of a] by simp
  finally show ?thesis by simp
qed

lemma eval_gains_Fin:
  "eval_gains (Fin L) = map (map (\<lambda>c. horner c (Fin (norm_len L)))) GAIN_TABLE"
  by (simp add: eval_gains_def LMID_def LHALF_def lqr_clampf_def norm_len_def clampr_def Let_def)

text \<open>The real numbers of one gain.\<close>
definition gain :: "nat \<Rightarrow> nat \<Rightarrow> real \<Rightarrow> real" where
  "gain i j L = val (eval_gains (Fin L) ! i ! j)"

lemma gain_near:
  assumes "GAIN_TABLE ! i ! j = [Fin a, Fin b, Fin c, Fin d]" "i < 2" "j < 4"
  shows "eval_gains (Fin L) ! i ! j = Fin (gain i j L)" "\<bar>gain i j L - d\<bar> \<le> \<bar>a\<bar> + \<bar>b\<bar> + \<bar>c\<bar>"
proof -
  have "length GAIN_TABLE = 2" "length (GAIN_TABLE ! i) = 4"
    using assms(2) by (auto simp: GAIN_TABLE_def less_Suc_eq numeral_eq_Suc)
  then have e: "eval_gains (Fin L) ! i ! j = Fin (((a * norm_len L + b) * norm_len L + c) * norm_len L + d)"
    using assms by (simp add: eval_gains_Fin horner4)
  show "eval_gains (Fin L) ! i ! j = Fin (gain i j L)" by (simp add: gain_def e)
  show "\<bar>gain i j L - d\<bar> \<le> \<bar>a\<bar> + \<bar>b\<bar> + \<bar>c\<bar>"
    using cubic_bound [OF norm_len_unit [of L], of a b c d] by (simp add: gain_def e)
qed

lemma gain_table:
  "GAIN_TABLE ! 0 ! 0 = [Fin (0.08502192485), Fin (- 0.4310499173), Fin (2.209975412), Fin (12.91434993)]"
  "GAIN_TABLE ! 0 ! 1 = [Fin (0.003738295724), Fin (- 0.02433993598), Fin (0.4716317516), Fin (2.257063503)]"
  "GAIN_TABLE ! 0 ! 2 = [Fin (- 0.2706358581), Fin (0.7837599404), Fin (- 1.964976246), Fin (3.725633086)]"
  "GAIN_TABLE ! 0 ! 3 = [Fin (- 0.02867492574), Fin (0.08544545275), Fin (- 0.2315406793), Fin (0.7699461515)]"
  "GAIN_TABLE ! 1 ! 0 = [Fin (0.009772806254), Fin (- 0.08362981857), Fin (0.5709972871), Fin (3.442110677)]"
  "GAIN_TABLE ! 1 ! 1 = [Fin (- 0.004702715616), Fin (0.01352124785), Fin (- 0.03386403959), Fin (0.05854680631)]"
  "GAIN_TABLE ! 1 ! 2 = [Fin (- 0.04754249418), Fin (0.121954366), Fin (- 0.3540668357), Fin (- 19.10812115)]"
  "GAIN_TABLE ! 1 ! 3 = [Fin (- 0.004999325135), Fin (0.01280556685), Fin (- 0.03732861766), Fin (- 2.119130833)]"
  by (simp_all add: GAIN_TABLE_def numeral_eq_Suc)

lemma near_mono: "\<bar>x - d\<bar> \<le> r \<Longrightarrow> \<bar>d - e\<bar> + r \<le> s \<Longrightarrow> \<bar>x - e\<bar> \<le> (s :: real)"
  by linarith

text \<open>Centre and radius of every entry.\<close>
lemma gains_near:
  "\<bar>gain 0 0 L - 12.914\<bar> \<le> 2.8" "\<bar>gain 0 1 L - 2.257\<bar> \<le> 0.6" "\<bar>gain 0 2 L - 3.725\<bar> \<le> 3.1"
  "\<bar>gain 0 3 L - 0.769\<bar> \<le> 0.4" "\<bar>gain 1 0 L - 3.442\<bar> \<le> 0.7" "\<bar>gain 1 1 L - 0.0585\<bar> \<le> 0.0525"
  "\<bar>gain 1 2 L - (- 19.108)\<bar> \<le> 0.6" "\<bar>gain 1 3 L - (- 2.119)\<bar> \<le> 0.1"
  subgoal by (rule near_mono [OF gain_near(2) [OF gain_table(1)]]) simp_all
  subgoal by (rule near_mono [OF gain_near(2) [OF gain_table(2)]]) simp_all
  subgoal by (rule near_mono [OF gain_near(2) [OF gain_table(3)]]) simp_all
  subgoal by (rule near_mono [OF gain_near(2) [OF gain_table(4)]]) simp_all
  subgoal by (rule near_mono [OF gain_near(2) [OF gain_table(5)]]) simp_all
  subgoal by (rule near_mono [OF gain_near(2) [OF gain_table(6)]]) simp_all
  subgoal by (rule near_mono [OF gain_near(2) [OF gain_table(7)]]) simp_all
  subgoal by (rule near_mono [OF gain_near(2) [OF gain_table(8)]]) simp_all
  done

lemma wheel_balance_lqr_Fin:
  "wheel_balance_lqr (Fin L) (Fin th) (Fin thd) (Fin ph) (Fin phd) =
       \<lparr>wb_ax = Fin (- (gain 0 0 L * th + gain 0 1 L * thd + gain 0 2 L * ph + gain 0 3 L * phd)),
        wb_Tp = Fin (- (gain 1 0 L * th + gain 1 1 L * thd + gain 1 2 L * ph + gain 1 3 L * phd))\<rparr>"
proof -
  have K: "eval_gains (Fin L) ! i ! j = Fin (gain i j L)" if "i < 2" "j < 4" for i j
  proof -
    have "i = 0 \<or> i = 1" "j = 0 \<or> j = 1 \<or> j = 2 \<or> j = 3" using that by auto
    then show ?thesis using gain_table [THEN gain_near(1)] by auto
  qed
  show ?thesis by (simp add: wheel_balance_lqr_def K upt4)
qed

text \<open>Whatever finite leg length the estimator reports, the zero of an invalid estimate included,
the balance law answers with the linear feedback of the design's signs: the wheels accelerate against
leg angle, body pitch and both rates with gains between the fit's bounds, and the hips push against
leg angle and with body pitch.\<close>
theorem wheel_lqr_gains:
  "\<exists>k0 k1 k2 k3 h0 h1 h2 h3.
     wheel_balance_lqr (Fin L) (Fin th) (Fin thd) (Fin ph) (Fin phd) =
       \<lparr>wb_ax = Fin (- (k0 * th + k1 * thd + k2 * ph + k3 * phd)),
        wb_Tp = Fin (- (h0 * th + h1 * thd + h2 * ph + h3 * phd))\<rparr> \<and>
     10 < k0 \<and> k0 < 16 \<and> 1 < k1 \<and> k1 < 3 \<and> 0 < k2 \<and> k2 < 7 \<and> 0 < k3 \<and> k3 < 2 \<and>
     2 < h0 \<and> h0 < 5 \<and> 0 < h1 \<and> h1 < 1 \<and> - 20 < h2 \<and> h2 < - 18 \<and> - 3 < h3 \<and> h3 < - 2"
proof (intro exI conjI)
  show "wheel_balance_lqr (Fin L) (Fin th) (Fin thd) (Fin ph) (Fin phd) =
       \<lparr>wb_ax = Fin (- (gain 0 0 L * th + gain 0 1 L * thd + gain 0 2 L * ph + gain 0 3 L * phd)),
        wb_Tp = Fin (- (gain 1 0 L * th + gain 1 1 L * thd + gain 1 2 L * ph + gain 1 3 L * phd))\<rparr>"
    by (rule wheel_balance_lqr_Fin)
  note n = gains_near [of L, unfolded abs_le_iff]
  show "10 < gain 0 0 L" "gain 0 0 L < 16" using n(1) by simp_all
  show "1 < gain 0 1 L" "gain 0 1 L < 3" using n(2) by simp_all
  show "0 < gain 0 2 L" "gain 0 2 L < 7" using n(3) by simp_all
  show "0 < gain 0 3 L" "gain 0 3 L < 2" using n(4) by simp_all
  show "2 < gain 1 0 L" "gain 1 0 L < 5" using n(5) by simp_all
  show "0 < gain 1 1 L" "gain 1 1 L < 1" using n(6) by simp_all
  show "- 20 < gain 1 2 L" "gain 1 2 L < - 18" using n(7) by simp_all
  show "- 3 < gain 1 3 L" "gain 1 3 L < - 2" using n(8) by simp_all
qed

end
