(* ===== verification/Balance.thy ===== *)
theory Balance
  imports HipLock WheelLqr
begin

text \<open>
  The balance controllers: StandUpController.cpp, LqrBalanceController.cpp, PidBalanceController.cpp
  and BalanceController.cpp of src/src/controllers.  The state vector and the inputs are lists read
  at the indices of RobotState.hpp; a controller takes the motor table it reads, the clock values
  its PIDs read and its own memory, and returns the six motor torques and its new memory.
\<close>

section \<open>Indices of the shared vectors\<close>

definition ST_U :: nat where "ST_U = 3"
definition ST_Q0 :: nat where "ST_Q0 = 9"
definition ST_Q :: nat where "ST_Q = 14"
definition ST_LEG_L :: nat where "ST_LEG_L = 19"
definition ST_LEG_PITCH :: nat where "ST_LEG_PITCH = 21"
definition ST_LEG_PITCH_DOT :: nat where "ST_LEG_PITCH_DOT = 22"
definition ST_N :: nat where "ST_N = 23"
definition IN_YAW_STICK :: nat where "IN_YAW_STICK = 0"
definition IN_VEL_TGT :: nat where "IN_VEL_TGT = 1"
definition IN_HEIGHT_SET :: nat where "IN_HEIGHT_SET = 2"
definition IN_LEANOVER :: nat where "IN_LEANOVER = 3"
definition IN_MODE_SW :: nat where "IN_MODE_SW = 4"
definition N_INPUTS :: nat where "N_INPUTS = 5"

lemmas idx_defs = ST_U_def ST_Q0_def ST_Q_def ST_LEG_L_def ST_LEG_PITCH_def ST_LEG_PITCH_DOT_def ST_N_def
  IN_YAW_STICK_def IN_VEL_TGT_def IN_HEIGHT_SET_def IN_LEANOVER_def IN_MODE_SW_def N_INPUTS_def

type_synonym svec = "flt list"

definition body_pitch :: "svec \<Rightarrow> flt" where
  "body_pitch st = fst (snd (quat_to_euler
     (mk_quat (st ! ST_Q0) (st ! (ST_Q0 + 1)) (st ! (ST_Q0 + 2)) (st ! (ST_Q0 + 3)))))"

section \<open>Standing up\<close>

definition STATEMGR_WHEEL_RADIUS_M :: flt where "STATEMGR_WHEEL_RADIUS_M = Fin 0.092"
definition L_STAND_M :: flt where "L_STAND_M = Fin 0.152"
definition SU_TAU_L_S :: flt where "SU_TAU_L_S = Fin 1"
definition DT_S :: flt where "DT_S = Fin 0.01"
definition VEL_DAMP_KV :: flt where "VEL_DAMP_KV = Fin 1.5"
definition WHEEL_ACCEL_LIMIT :: flt where "WHEEL_ACCEL_LIMIT = Fin 4"
definition WHEEL_VEL_LIMIT_RADS :: flt where "WHEEL_VEL_LIMIT_RADS = Fin 55"
definition LUMPED_TORQUE_LIMIT_NM :: flt where "LUMPED_TORQUE_LIMIT_NM = Fin 4"
definition STAND_PHI_MAX_RAD :: flt where "STAND_PHI_MAX_RAD = Fin 0.0872665"
definition STAND_VEL_MAX_MPS :: flt where "STAND_VEL_MAX_MPS = Fin 0.05"
definition STAND_L_TOL_M :: flt where "STAND_L_TOL_M = Fin 0.005"

text \<open>StandUpController and LqrBalanceController keep the same memory.\<close>
record leg_ctrl =
  lc_L_cmd :: flt
  lc_init :: bool
  lc_vel_L :: flt
  lc_vel_R :: flt
  lc_hip :: hip_lock

definition leg_ctrl_new :: leg_ctrl where
  "leg_ctrl_new = \<lparr>lc_L_cmd = L_STAND_M, lc_init = False, lc_vel_L = Fin 0, lc_vel_R = Fin 0,
     lc_hip = hip_lock_new\<rparr>"

definition standup_reset :: "svec \<Rightarrow> leg_ctrl \<Rightarrow> leg_ctrl" where
  "standup_reset st c =
    (let measured_L = st ! ST_LEG_L in
     c\<lparr>lc_hip := hip_lock_reset (lc_hip c),
       lc_L_cmd := (if Fin 0.01 < measured_L then measured_L else L_STAND_M),
       lc_init := True, lc_vel_L := Fin 0, lc_vel_R := Fin 0\<rparr>)"

text \<open>The velocity setpoint of one wheel: its own measured speed plus the step, clamped; zero
without feedback.\<close>
definition wheel_setpoint :: "motorsys \<Rightarrow> u8 \<Rightarrow> flt \<Rightarrow> flt" where
  "wheel_setpoint ms i dv_rads =
    (case can_motor_get_state i ms of None \<Rightarrow> Fin 0
     | Some w \<Rightarrow> if mvalid w then constrain_float (vel_rads w + dv_rads) (- WHEEL_VEL_LIMIT_RADS) WHEEL_VEL_LIMIT_RADS
         else Fin 0)"

definition standup_update :: "(nat \<Rightarrow> u32) \<Rightarrow> motorsys \<Rightarrow> svec \<Rightarrow> leg_ctrl \<Rightarrow> flt list \<times> leg_ctrl" where
  "standup_update clk ms st c =
    (let c = (if \<not> lc_init c then standup_reset st c else c);
         phi = body_pitch st;
         phidot = st ! ST_Q;
         theta = st ! ST_LEG_PITCH;
         thetadot = st ! ST_LEG_PITCH_DOT;
         vel_meas = st ! ST_U;
         bal = wheel_balance_lqr (st ! ST_LEG_L) theta thetadot phi phidot;
         ax_vel = - VEL_DAMP_KV * vel_meas;
         ax = constrain_float (wb_ax bal + ax_vel) (- WHEEL_ACCEL_LIMIT) WHEEL_ACCEL_LIMIT;
         Tp = constrain_float (wb_Tp bal) (- LUMPED_TORQUE_LIMIT_NM) LUMPED_TORQUE_LIMIT_NM;
         L_cmd = lc_L_cmd c + DT_S / SU_TAU_L_S * (L_STAND_M - lc_L_cmd c);
         (hip_torques, hips) = hip_lock_update_leg clk ms L_cmd (Fin 0) (lc_hip c);
         dv_rads = ax * DT_S / STATEMGR_WHEEL_RADIUS_M
     in (map (\<lambda>t. t + Fin 0.25 * Tp) hip_torques @ [Fin 0, Fin 0],
         c\<lparr>lc_L_cmd := L_cmd, lc_hip := hips,
           lc_vel_L := wheel_setpoint ms 5 dv_rads, lc_vel_R := wheel_setpoint ms 6 dv_rads\<rparr>))"

definition is_standing :: "svec \<Rightarrow> leg_ctrl \<Rightarrow> bool" where
  "is_standing st c =
    (let phi = body_pitch st; vel = st ! ST_U in
     lc_init c \<and> fabsf phi < STAND_PHI_MAX_RAD \<and> fabsf vel < STAND_VEL_MAX_MPS \<and>
     fabsf (st ! ST_LEG_L - L_STAND_M) < STAND_L_TOL_M)"

section \<open>The LQR balance controller\<close>

definition HEIGHT_RANGE_M :: flt where "HEIGHT_RANGE_M = Fin 0.05"
definition L_MIN_M :: flt where "L_MIN_M = Fin 0.1"
definition L_MAX_M :: flt where "L_MAX_M = Fin 0.2"
definition LQ_TAU_L_S :: flt where "LQ_TAU_L_S = Fin 0.5"
definition MAX_VELOCITY_MPS :: flt where "MAX_VELOCITY_MPS = Fin 1"
definition LQ_VEL_KP :: flt where "LQ_VEL_KP = Fin 1.5"

definition lqr_reset :: "svec \<Rightarrow> leg_ctrl \<Rightarrow> leg_ctrl" where
  "lqr_reset st c =
    (let measured_L = st ! ST_LEG_L in
     c\<lparr>lc_hip := hip_lock_reset (lc_hip c),
       lc_L_cmd := (if Fin 0.01 < measured_L then measured_L else L_STAND_M),
       lc_init := True, lc_vel_L := Fin 0, lc_vel_R := Fin 0\<rparr>)"

definition lqr_update :: "(nat \<Rightarrow> u32) \<Rightarrow> motorsys \<Rightarrow> svec \<Rightarrow> flt list \<Rightarrow> leg_ctrl \<Rightarrow> flt list \<times> leg_ctrl" where
  "lqr_update clk ms st inp c =
    (let c = (if \<not> lc_init c then lqr_reset st c else c);
         phi = body_pitch st;
         phidot = st ! ST_Q;
         theta = st ! ST_LEG_PITCH;
         thetadot = st ! ST_LEG_PITCH_DOT;
         vel_meas = st ! ST_U;
         vel_tgt = inp ! IN_VEL_TGT * MAX_VELOCITY_MPS;
         bal = wheel_balance_lqr (st ! ST_LEG_L) theta thetadot phi phidot;
         ax_vel = LQ_VEL_KP * (vel_tgt - vel_meas);
         ax = constrain_float (wb_ax bal + ax_vel) (- WHEEL_ACCEL_LIMIT) WHEEL_ACCEL_LIMIT;
         Tp = constrain_float (wb_Tp bal) (- LUMPED_TORQUE_LIMIT_NM) LUMPED_TORQUE_LIMIT_NM;
         L_target_raw = constrain_float (L_STAND_M + inp ! IN_HEIGHT_SET * HEIGHT_RANGE_M) L_MIN_M L_MAX_M;
         L_cmd = lc_L_cmd c + DT_S / LQ_TAU_L_S * (L_target_raw - lc_L_cmd c);
         (hip_torques, hips) = hip_lock_update_leg clk ms L_cmd (Fin 0) (lc_hip c);
         dv_rads = ax * DT_S / STATEMGR_WHEEL_RADIUS_M
     in (map (\<lambda>t. t + Fin 0.25 * Tp) hip_torques @ [Fin 0, Fin 0],
         c\<lparr>lc_L_cmd := L_cmd, lc_hip := hips,
           lc_vel_L := wheel_setpoint ms 5 dv_rads, lc_vel_R := wheel_setpoint ms 6 dv_rads\<rparr>))"

section \<open>The PID balance controller\<close>

definition MAX_LEAN_RAD :: flt where "MAX_LEAN_RAD = Fin 0.35"
definition PB_WHEEL_TORQUE_LIMIT_NM :: flt where "PB_WHEEL_TORQUE_LIMIT_NM = Fin 4"

record pid_balance =
  pb_vel :: pid
  pb_pitch :: pid
  pb_hip :: hip_lock

definition pid_balance_new :: pid_balance where
  "pid_balance_new =
    \<lparr>pb_vel = pid_new (Fin (- 0.15)) (Fin (- 0)) (Fin (- 0)) MAX_LEAN_RAD (Fin 30),
     pb_pitch = pid_new (Fin 15) (Fin 0) (Fin 0.5) PB_WHEEL_TORQUE_LIMIT_NM (Fin 30),
     pb_hip = hip_lock_new\<rparr>"

definition pid_balance_reset :: "pid_balance \<Rightarrow> pid_balance" where
  "pid_balance_reset c = \<lparr>pb_vel = pid_reset (pb_vel c), pb_pitch = pid_reset (pb_pitch c),
     pb_hip = hip_lock_reset (pb_hip c)\<rparr>"

text \<open>The clock is read by the velocity PID, the pitch PID and then by the hips.\<close>
definition pid_balance_update :: "(nat \<Rightarrow> u32) \<Rightarrow> motorsys \<Rightarrow> svec \<Rightarrow> flt list \<Rightarrow> pid_balance \<Rightarrow> flt list \<times> pid_balance" where
  "pid_balance_update clk ms st inp c =
    (let pitch = body_pitch st;
         vel_meas = st ! ST_U;
         vel_tgt = inp ! IN_VEL_TGT * MAX_VELOCITY_MPS;
         vel_err = vel_tgt - vel_meas;
         (pitch_sp, velp) = pid_update (clk 0) vel_err (pb_vel c);
         pitch_sp = constrain_float pitch_sp (- MAX_LEAN_RAD) MAX_LEAN_RAD;
         pitch_err = pitch_sp - pitch;
         (u, pitchp) = pid_update (clk 1) pitch_err (pb_pitch c);
         wheel_torque = constrain_float u (- PB_WHEEL_TORQUE_LIMIT_NM) PB_WHEEL_TORQUE_LIMIT_NM;
         (hip_torques, hips) = hip_lock_update (\<lambda>i. clk (i + 2)) ms (pb_hip c)
     in (hip_torques @ [wheel_torque, wheel_torque],
         \<lparr>pb_vel = velp, pb_pitch = pitchp, pb_hip = hips\<rparr>))"

section \<open>The controller the build selects\<close>

datatype balance_ctrl = BALANCE_CTRL_PID | BALANCE_CTRL_LQR

record balance =
  bc_pid :: pid_balance
  bc_lqr :: leg_ctrl

definition balance_new :: balance where
  "balance_new = \<lparr>bc_pid = pid_balance_new, bc_lqr = leg_ctrl_new\<rparr>"

definition USES_WHEEL_VELOCITY :: "balance_ctrl \<Rightarrow> bool" where
  "USES_WHEEL_VELOCITY cfg = (cfg = BALANCE_CTRL_LQR)"

definition balance_update :: "balance_ctrl \<Rightarrow> (nat \<Rightarrow> u32) \<Rightarrow> motorsys \<Rightarrow> svec \<Rightarrow> flt list \<Rightarrow> balance \<Rightarrow> flt list \<times> balance" where
  "balance_update cfg clk ms st inp b =
    (if cfg = BALANCE_CTRL_LQR then
       let (ts, c) = lqr_update clk ms st inp (bc_lqr b) in (ts, b\<lparr>bc_lqr := c\<rparr>)
     else let (ts, c) = pid_balance_update clk ms st inp (bc_pid b) in (ts, b\<lparr>bc_pid := c\<rparr>))"

definition balance_reset :: "balance_ctrl \<Rightarrow> svec \<Rightarrow> balance \<Rightarrow> balance" where
  "balance_reset cfg st b = (if cfg = BALANCE_CTRL_LQR then b\<lparr>bc_lqr := lqr_reset st (bc_lqr b)\<rparr> else b)"

end
