(* ===== verification/TorqueSource.thy ===== *)
theory TorqueSource
  imports Balance
begin

text \<open>
  What the state machine relies on when it hands the motors to a controller: six torques, each
  acceptable, and a memory that stays well-formed.  The locale states the contract, a run of ticks is
  proved safe once, and the three controllers are interpreted on it.
\<close>

locale torque_source =
  fixes step :: "'i \<Rightarrow> 'c \<Rightarrow> flt list \<times> 'c"
    and inv :: "'c \<Rightarrow> bool"
    and inp :: "'i \<Rightarrow> bool"
    and good :: "flt \<Rightarrow> bool"
  assumes keeps: "inv c \<Longrightarrow> inp i \<Longrightarrow> inv (snd (step i c))"
    and six: "length (fst (step i c)) = 6"
    and sound: "inv c \<Longrightarrow> inp i \<Longrightarrow> \<forall>t \<in> set (fst (step i c)). good t"
begin

primrec run :: "'i list \<Rightarrow> 'c \<Rightarrow> flt list list \<times> 'c" where
  "run [] c = ([], c)"
| "run (i # is) c = (let (ts, c1) = step i c; (tss, c2) = run is c1 in (ts # tss, c2))"

lemma run_sound:
  assumes "inv c" "\<forall>i \<in> set is. inp i"
  shows "inv (snd (run is c)) \<and> (\<forall>ts \<in> set (fst (run is c)). length ts = 6 \<and> (\<forall>t \<in> set ts. good t))"
  using assms
proof (induction "is" arbitrary: c)
  case (Cons i "is")
  have "inv (snd (step i c))" using keeps Cons.prems by simp
  then show ?case using Cons.IH [of "snd (step i c)"] Cons.prems six [of i c] sound [of c i]
    by (auto simp: Let_def split: prod.split)
qed simp

end

section \<open>Bounds that hold on any input\<close>

lemma lumped_le: "cmd_le 1 (Fin 0.25 * constrain_float v (- LUMPED_TORQUE_LIMIT_NM) LUMPED_TORQUE_LIMIT_NM)"
  using cmd_le_scale [OF cmd_le_constrain [of 4 v], of "0.25"] by (simp add: LUMPED_TORQUE_LIMIT_NM_def)

definition leg_torques :: "flt list \<Rightarrow> flt \<Rightarrow> flt list" where
  "leg_torques hs v = map (\<lambda>t. t + Fin 0.25 *
     constrain_float v (- LUMPED_TORQUE_LIMIT_NM) LUMPED_TORQUE_LIMIT_NM) hs @ [Fin 0, Fin 0]"

lemma leg_torques_any:
  "length (leg_torques (fst (hip_lock_update_leg clk ms L th ps)) v) = 6"
  "\<forall>t \<in> set (leg_torques (fst (hip_lock_update_leg clk ms L th ps)) v). cmd_le 9 t"
proof -
  note h = hip_lock_leg_le [of clk ms L th ps]
  then show "length (leg_torques (fst (hip_lock_update_leg clk ms L th ps)) v) = 6"
    by (simp add: leg_torques_def)
  have "cmd_le (8 + 1) (t + Fin 0.25 * constrain_float v (- LUMPED_TORQUE_LIMIT_NM) LUMPED_TORQUE_LIMIT_NM)"
    if "t \<in> set (fst (hip_lock_update_leg clk ms L th ps))" for t
    using h that by (intro cmd_le_add lumped_le) blast
  then show "\<forall>t \<in> set (leg_torques (fst (hip_lock_update_leg clk ms L th ps)) v). cmd_le 9 t"
    by (simp add: leg_torques_def ball_Un)
qed

lemma wheel_setpoint_le: "cmd_le 55 (wheel_setpoint ms i dv)"
proof -
  have "cmd_le 55 (constrain_float v (- WHEEL_VEL_LIMIT_RADS) WHEEL_VEL_LIMIT_RADS)" for v
    using cmd_le_constrain [of 55 v] by (simp add: WHEEL_VEL_LIMIT_RADS_def)
  then show ?thesis by (simp add: wheel_setpoint_def split: option.split)
qed

text \<open>Both leg controllers end the same way, whatever the balance law says.\<close>
definition standup_mem :: "svec \<Rightarrow> leg_ctrl \<Rightarrow> leg_ctrl" where
  "standup_mem st c = (if \<not> lc_init c then standup_reset st c else c)"

definition lqr_mem :: "svec \<Rightarrow> leg_ctrl \<Rightarrow> leg_ctrl" where
  "lqr_mem st c = (if \<not> lc_init c then lqr_reset st c else c)"

definition balance_law :: "svec \<Rightarrow> wheel_balance_output" where
  "balance_law st = wheel_balance_lqr (st ! ST_LEG_L) (st ! ST_LEG_PITCH) (st ! ST_LEG_PITCH_DOT)
     (body_pitch st) (st ! ST_Q)"

definition wheel_step :: "flt \<Rightarrow> flt" where
  "wheel_step a = constrain_float a (- WHEEL_ACCEL_LIMIT) WHEEL_ACCEL_LIMIT * DT_S / STATEMGR_WHEEL_RADIUS_M"

definition ramp :: "flt \<Rightarrow> flt \<Rightarrow> flt \<Rightarrow> flt" where
  "ramp tau target L = L + DT_S / tau * (target - L)"

definition lqr_height :: "flt list \<Rightarrow> flt" where
  "lqr_height inp = constrain_float (L_STAND_M + inp ! IN_HEIGHT_SET * HEIGHT_RANGE_M) L_MIN_M L_MAX_M"

lemmas leg_shape_defs = leg_torques_def standup_mem_def lqr_mem_def balance_law_def wheel_step_def
  ramp_def lqr_height_def

lemma standup_shape:
  "standup_update clk ms st c =
    (let c = standup_mem st c; bal = balance_law st;
         L = ramp SU_TAU_L_S L_STAND_M (lc_L_cmd c);
         r = hip_lock_update_leg clk ms L (Fin 0) (lc_hip c);
         dv = wheel_step (wb_ax bal + - VEL_DAMP_KV * st ! ST_U)
     in (leg_torques (fst r) (wb_Tp bal),
         c\<lparr>lc_L_cmd := L, lc_hip := snd r, lc_vel_L := wheel_setpoint ms 5 dv, lc_vel_R := wheel_setpoint ms 6 dv\<rparr>))"
  unfolding standup_update_def Let_def case_prod_beta leg_shape_defs by (rule refl)

lemma lqr_shape:
  "lqr_update clk ms st inp c =
    (let c = lqr_mem st c; bal = balance_law st;
         L = ramp LQ_TAU_L_S (lqr_height inp) (lc_L_cmd c);
         r = hip_lock_update_leg clk ms L (Fin 0) (lc_hip c);
         dv = wheel_step (wb_ax bal + LQ_VEL_KP * (inp ! IN_VEL_TGT * MAX_VELOCITY_MPS - st ! ST_U))
     in (leg_torques (fst r) (wb_Tp bal),
         c\<lparr>lc_L_cmd := L, lc_hip := snd r, lc_vel_L := wheel_setpoint ms 5 dv, lc_vel_R := wheel_setpoint ms 6 dv\<rparr>))"
  unfolding lqr_update_def Let_def case_prod_beta leg_shape_defs by (rule refl)

lemma standup_any:
  "length (fst (standup_update clk ms st c)) = 6" "\<forall>t \<in> set (fst (standup_update clk ms st c)). cmd_le 9 t"
  "cmd_le 55 (lc_vel_L (snd (standup_update clk ms st c)))" "cmd_le 55 (lc_vel_R (snd (standup_update clk ms st c)))"
  by (simp_all add: standup_shape Let_def leg_torques_any wheel_setpoint_le)

lemma lqr_any:
  "length (fst (lqr_update clk ms st inp c)) = 6" "\<forall>t \<in> set (fst (lqr_update clk ms st inp c)). cmd_le 9 t"
  "cmd_le 55 (lc_vel_L (snd (lqr_update clk ms st inp c)))" "cmd_le 55 (lc_vel_R (snd (lqr_update clk ms st inp c)))"
  by (simp_all add: lqr_shape Let_def leg_torques_any wheel_setpoint_le)

lemma pid_balance_any:
  "length (fst (pid_balance_update clk ms st inp c)) = 6"
  "\<forall>t \<in> set (fst (pid_balance_update clk ms st inp c)). cmd_le 8 t"
proof -
  have w: "cmd_le 8 (constrain_float v (- PB_WHEEL_TORQUE_LIMIT_NM) PB_WHEEL_TORQUE_LIMIT_NM)" for v
    using cmd_le_mono [OF cmd_le_constrain [of 4 v], of 8] by (simp add: PB_WHEEL_TORQUE_LIMIT_NM_def)
  show "length (fst (pid_balance_update clk ms st inp c)) = 6"
    "\<forall>t \<in> set (fst (pid_balance_update clk ms st inp c)). cmd_le 8 t"
    unfolding pid_balance_update_def Let_def case_prod_beta fst_conv hip_lock_update_def
    using hip_lock_drive_le w by (simp_all add: ball_Un)
qed

section \<open>Finite inputs give finite torques\<close>

definition st_fin :: "svec \<Rightarrow> bool" where
  "st_fin st \<longleftrightarrow> length st = ST_N \<and> (\<forall>x \<in> set st. isfin x)"

definition inp_fin :: "flt list \<Rightarrow> bool" where
  "inp_fin inp \<longleftrightarrow> length inp = N_INPUTS \<and> (\<forall>x \<in> set inp. isfin x)"

definition wheels_fin :: "motorsys \<Rightarrow> bool" where
  "wheels_fin ms \<longleftrightarrow> (\<forall>i \<in> {5, 6}. \<forall>s. can_motor_get_state i ms = Some s \<longrightarrow> mvalid s \<longrightarrow> isfin (vel_rads s))"

lemma st_fin_nth: "st_fin st \<Longrightarrow> k < 23 \<Longrightarrow> isfin (st ! k)"
  by (simp add: st_fin_def ST_N_def)

lemma inp_fin_nth: "inp_fin inp \<Longrightarrow> k < 5 \<Longrightarrow> isfin (inp ! k)"
  by (simp add: inp_fin_def N_INPUTS_def)

lemma isfin_constrain: "isfin v \<Longrightarrow> isfin (constrain_float v (Fin a) (Fin b))"
  by (auto elim!: isfinE)

lemma quat_to_euler_pitch_fin:
  assumes "isfin (qw q)" "isfin (qx q)" "isfin (qy q)" "isfin (qz q)"
  shows "isfin (fst (snd (quat_to_euler q)))"
proof -
  have "isfin (Fin 2 * (qw q * qy q - qz q * qx q))" using assms by (intro isfin_ops) auto
  then obtain v where "Fin 2 * (qw q * qy q - qz q * qx q) = Fin v" by (auto elim: isfinE)
  then show ?thesis using clampr_bounds [of "- 1" 1 v] by (simp add: quat_to_euler_def Let_def)
qed

lemma body_pitch_fin: "st_fin st \<Longrightarrow> isfin (body_pitch st)"
  unfolding body_pitch_def by (rule quat_to_euler_pitch_fin) (simp_all add: mk_quat_def idx_defs st_fin_nth)

lemma balance_law_fin:
  assumes "st_fin st"
  shows "isfin (wb_ax (balance_law st)) \<and> isfin (wb_Tp (balance_law st))"
proof -
  have "isfin (st ! ST_LEG_L)" "isfin (st ! ST_LEG_PITCH)" "isfin (st ! ST_LEG_PITCH_DOT)" "isfin (st ! ST_Q)"
    using st_fin_nth [OF assms] by (simp_all add: idx_defs)
  then show ?thesis using body_pitch_fin [OF assms] unfolding balance_law_def isfin_iff
    by (metis wheel_balance_lqr_Fin wheel_balance_output.select_convs(1,2))
qed

definition leg_ok :: "leg_ctrl \<Rightarrow> bool" where
  "leg_ok c \<longleftrightarrow> lock_ok (lc_hip c) \<and> isfin (lc_L_cmd c) \<and> isfin (lc_vel_L c) \<and> isfin (lc_vel_R c)"

lemma leg_ctrl_new_ok: "leg_ok leg_ctrl_new"
  by (simp add: leg_ok_def leg_ctrl_new_def hip_lock_new_ok L_STAND_M_def)

lemma standup_reset_ok: "leg_ok c \<Longrightarrow> st_fin st \<Longrightarrow> leg_ok (standup_reset st c)"
  using st_fin_nth [of st 19]
  by (simp add: leg_ok_def standup_reset_def Let_def hip_lock_reset_ok L_STAND_M_def ST_LEG_L_def)

lemma lqr_reset_eq: "lqr_reset = standup_reset"
  by (intro ext) (simp add: lqr_reset_def standup_reset_def)

lemma ramp_fin: "isfin L \<Longrightarrow> \<tau> \<noteq> 0 \<Longrightarrow> isfin (ramp (Fin \<tau>) (Fin x) L)"
  by (auto simp: ramp_def DT_S_def elim!: isfinE)

lemma wheel_step_fin: "isfin a \<Longrightarrow> isfin (wheel_step a)"
  by (auto simp: wheel_step_def WHEEL_ACCEL_LIMIT_def DT_S_def STATEMGR_WHEEL_RADIUS_M_def elim!: isfinE)

lemma wheel_setpoint_fin: "wheels_fin ms \<Longrightarrow> i = 5 \<or> i = 6 \<Longrightarrow> isfin dv \<Longrightarrow> isfin (wheel_setpoint ms i dv)"
  by (auto simp: wheel_setpoint_def wheels_fin_def WHEEL_VEL_LIMIT_RADS_def split: option.split
      intro!: isfin_constrain)

lemma leg_torques_fin:
  assumes "\<forall>t \<in> set hs. isfin t" "isfin v"
  shows "\<forall>t \<in> set (leg_torques hs v). isfin t"
proof -
  have "isfin (t + Fin 0.25 * constrain_float v (- LUMPED_TORQUE_LIMIT_NM) LUMPED_TORQUE_LIMIT_NM)"
    if "isfin t" for t
    using that assms(2) by (auto simp: LUMPED_TORQUE_LIMIT_NM_def elim!: isfinE)
  then show ?thesis using assms(1) by (auto simp: leg_torques_def)
qed

definition motors_fin :: "motorsys \<Rightarrow> bool" where
  "motors_fin ms \<longleftrightarrow> hips_fin ms \<and> wheels_fin ms"

definition fin_le :: "real \<Rightarrow> flt \<Rightarrow> bool" where
  "fin_le b t \<longleftrightarrow> isfin t \<and> cmd_le b t"

lemma leg_step_fin:
  assumes "lock_ok hl" "motors_fin ms" "isfin L"
  shows "lock_ok (snd (hip_lock_update_leg clk ms L (Fin 0) hl)) \<and>
    (\<forall>t \<in> set (fst (hip_lock_update_leg clk ms L (Fin 0) hl)). isfin t)"
  using hip_lock_leg_fin [of hl ms L "Fin 0" clk] assms by (simp add: motors_fin_def)

lemma standup_fin:
  assumes "leg_ok c" "st_fin st" "motors_fin ms"
  shows "leg_ok (snd (standup_update clk ms st c))" "\<forall>t \<in> set (fst (standup_update clk ms st c)). isfin t"
proof -
  let ?c = "standup_mem st c" and ?L = "ramp SU_TAU_L_S L_STAND_M (lc_L_cmd (standup_mem st c))"
  have c: "leg_ok ?c" using assms standup_reset_ok by (simp add: standup_mem_def)
  then have L: "isfin ?L" by (simp add: leg_ok_def SU_TAU_L_S_def L_STAND_M_def ramp_fin)
  have lk: "lock_ok (lc_hip ?c)" using c by (simp add: leg_ok_def)
  note r = leg_step_fin [OF lk assms(3) L, of clk]
  note b = balance_law_fin [OF assms(2)]
  have "isfin (st ! ST_U)" using st_fin_nth [OF assms(2)] by (simp add: ST_U_def)
  then have dv: "isfin (wheel_step (wb_ax (balance_law st) + - VEL_DAMP_KV * st ! ST_U))"
    using b by (intro wheel_step_fin isfin_ops) (simp_all add: VEL_DAMP_KV_def)
  show "leg_ok (snd (standup_update clk ms st c))"
    using c r L dv assms(3) by (simp add: standup_shape Let_def leg_ok_def wheel_setpoint_fin motors_fin_def)
  show "\<forall>t \<in> set (fst (standup_update clk ms st c)). isfin t"
    using leg_torques_fin [OF r [THEN conjunct2] b [THEN conjunct2]] by (simp add: standup_shape Let_def)
qed

lemma lqr_fin:
  assumes "leg_ok c" "st_fin st" "motors_fin ms" "inp_fin inp"
  shows "leg_ok (snd (lqr_update clk ms st inp c))" "\<forall>t \<in> set (fst (lqr_update clk ms st inp c)). isfin t"
proof -
  let ?c = "lqr_mem st c" and ?L = "ramp LQ_TAU_L_S (lqr_height inp) (lc_L_cmd (lqr_mem st c))"
  have c: "leg_ok ?c" using assms standup_reset_ok by (simp add: lqr_mem_def lqr_reset_eq)
  obtain h where "inp ! IN_HEIGHT_SET = Fin h"
    using inp_fin_nth [OF assms(4), of 2] by (auto simp: IN_HEIGHT_SET_def elim: isfinE)
  then have "\<exists>x. lqr_height inp = Fin x"
    by (simp add: lqr_height_def L_STAND_M_def HEIGHT_RANGE_M_def L_MIN_M_def L_MAX_M_def)
  then have L: "isfin ?L" using c by (auto simp: leg_ok_def LQ_TAU_L_S_def ramp_fin)
  have lk: "lock_ok (lc_hip ?c)" using c by (simp add: leg_ok_def)
  note r = leg_step_fin [OF lk assms(3) L, of clk]
  note b = balance_law_fin [OF assms(2)]
  have "isfin (st ! ST_U)" "isfin (inp ! IN_VEL_TGT)"
    using st_fin_nth [OF assms(2)] inp_fin_nth [OF assms(4)] by (simp_all add: ST_U_def IN_VEL_TGT_def)
  then have dv: "isfin (wheel_step (wb_ax (balance_law st) +
      LQ_VEL_KP * (inp ! IN_VEL_TGT * MAX_VELOCITY_MPS - st ! ST_U)))"
    using b by (intro wheel_step_fin isfin_ops) (simp_all add: LQ_VEL_KP_def MAX_VELOCITY_MPS_def)
  show "leg_ok (snd (lqr_update clk ms st inp c))"
    using c r L dv assms(3) by (simp add: lqr_shape Let_def leg_ok_def wheel_setpoint_fin motors_fin_def)
  show "\<forall>t \<in> set (fst (lqr_update clk ms st inp c)). isfin t"
    using leg_torques_fin [OF r [THEN conjunct2] b [THEN conjunct2]] by (simp add: lqr_shape Let_def)
qed

definition pidb_ok :: "pid_balance \<Rightarrow> bool" where
  "pidb_ok c \<longleftrightarrow> pid_ok (pb_vel c) \<and> pid_ok (pb_pitch c) \<and> lock_ok (pb_hip c)"

lemma pid_balance_new_ok: "pidb_ok pid_balance_new"
  by (simp add: pidb_ok_def pid_balance_new_def pid_new_ok hip_lock_new_ok MAX_LEAN_RAD_def
      PB_WHEEL_TORQUE_LIMIT_NM_def)

lemma pid_balance_fin:
  assumes "pidb_ok c" "st_fin st" "motors_fin ms" "inp_fin inp"
  shows "pidb_ok (snd (pid_balance_update clk ms st inp c))"
    "\<forall>t \<in> set (fst (pid_balance_update clk ms st inp c)). isfin t"
proof -
  define e where "e = inp ! IN_VEL_TGT * MAX_VELOCITY_MPS - st ! ST_U"
  define r where "r = pid_update (clk 0) e (pb_vel c)"
  define e2 where "e2 = constrain_float (fst r) (- MAX_LEAN_RAD) MAX_LEAN_RAD - body_pitch st"
  define r2 where "r2 = pid_update (clk 1) e2 (pb_pitch c)"
  define h where "h = hip_lock_update (\<lambda>i. clk (i + 2)) ms (pb_hip c)"
  have eq: "pid_balance_update clk ms st inp c =
      (fst h @ replicate 2 (constrain_float (fst r2) (- PB_WHEEL_TORQUE_LIMIT_NM) PB_WHEEL_TORQUE_LIMIT_NM),
       \<lparr>pb_vel = snd r, pb_pitch = snd r2, pb_hip = snd h\<rparr>)"
    unfolding pid_balance_update_def Let_def case_prod_beta e_def r_def e2_def r2_def h_def
    by (simp add: numeral_2_eq_2)
  have "isfin e" unfolding e_def using st_fin_nth [OF assms(2), of 3] inp_fin_nth [OF assms(4), of 1]
    by (intro isfin_ops) (simp_all add: MAX_VELOCITY_MPS_def ST_U_def IN_VEL_TGT_def)
  then have r: "pid_ok (snd r)" "isfin (fst r)" using pid_update_fin assms(1) by (simp_all add: r_def pidb_ok_def)
  have "isfin e2" unfolding e2_def using r(2) body_pitch_fin [OF assms(2)] isfin_constrain [of "fst r" "- 0.35" "0.35"]
    by (intro isfin_ops) (simp_all add: MAX_LEAN_RAD_def)
  then have r2: "pid_ok (snd r2)" "isfin (fst r2)" using pid_update_fin assms(1) by (simp_all add: r2_def pidb_ok_def)
  have h: "lock_ok (snd h)" "\<forall>t \<in> set (fst h). isfin t"
    unfolding h_def hip_lock_update_def
    using hip_lock_drive_fin [of "pb_hip c" "replicate 4 (Fin 0)" ms] assms(1,3)
    by (simp_all add: pidb_ok_def motors_fin_def)
  show "pidb_ok (snd (pid_balance_update clk ms st inp c))"
    "\<forall>t \<in> set (fst (pid_balance_update clk ms st inp c)). isfin t"
    using r r2 h isfin_constrain [OF r2(2), of "- 4" 4]
    by (simp_all add: eq pidb_ok_def ball_Un PB_WHEEL_TORQUE_LIMIT_NM_def)
qed

section \<open>The controllers honour the contract\<close>

type_synonym tick_in = "(nat \<Rightarrow> u32) \<times> motorsys \<times> svec \<times> flt list"

definition tick_fin :: "tick_in \<Rightarrow> bool" where
  "tick_fin i = (case i of (clk, ms, st, inp) \<Rightarrow> st_fin st \<and> motors_fin ms \<and> inp_fin inp)"

definition standup_step :: "tick_in \<Rightarrow> leg_ctrl \<Rightarrow> flt list \<times> leg_ctrl" where
  "standup_step i c = (case i of (clk, ms, st, inp) \<Rightarrow> standup_update clk ms st c)"

definition balance_step :: "balance_ctrl \<Rightarrow> tick_in \<Rightarrow> balance \<Rightarrow> flt list \<times> balance" where
  "balance_step cfg i b = (case i of (clk, ms, st, inp) \<Rightarrow> balance_update cfg clk ms st inp b)"

definition balance_ok :: "balance \<Rightarrow> bool" where
  "balance_ok b \<longleftrightarrow> pidb_ok (bc_pid b) \<and> leg_ok (bc_lqr b)"

lemma balance_new_ok: "balance_ok balance_new"
  by (simp add: balance_ok_def balance_new_def pid_balance_new_ok leg_ctrl_new_ok)

interpretation standup: torque_source standup_step leg_ok tick_fin "fin_le 9"
  by unfold_locales
    (auto simp: standup_step_def tick_fin_def fin_le_def standup_fin standup_any split: prod.splits)

lemma balance_update_cases:
  "balance_update BALANCE_CTRL_LQR clk ms st inp b = (fst (lqr_update clk ms st inp (bc_lqr b)),
     b\<lparr>bc_lqr := snd (lqr_update clk ms st inp (bc_lqr b))\<rparr>)"
  "balance_update BALANCE_CTRL_PID clk ms st inp b = (fst (pid_balance_update clk ms st inp (bc_pid b)),
     b\<lparr>bc_pid := snd (pid_balance_update clk ms st inp (bc_pid b))\<rparr>)"
  by (simp_all add: balance_update_def case_prod_beta Let_def)

lemma balance_any:
  "length (fst (balance_update cfg clk ms st inp b)) = 6"
  "\<forall>t \<in> set (fst (balance_update cfg clk ms st inp b)). cmd_le 9 t"
proof -
  have p: "\<forall>t \<in> set (fst (pid_balance_update clk ms st inp c)). cmd_le 9 t" for c
    by (intro ballI cmd_le_mono [OF pid_balance_any(2) [rule_format]]) simp_all
  show "length (fst (balance_update cfg clk ms st inp b)) = 6"
    using lqr_any(1) pid_balance_any(1) by (cases cfg) (simp_all only: balance_update_cases fst_conv)
  show "\<forall>t \<in> set (fst (balance_update cfg clk ms st inp b)). cmd_le 9 t"
  proof (cases cfg)
    case BALANCE_CTRL_PID
    show ?thesis unfolding BALANCE_CTRL_PID balance_update_cases fst_conv by (rule p)
  next
    case BALANCE_CTRL_LQR
    show ?thesis unfolding BALANCE_CTRL_LQR balance_update_cases fst_conv by (rule lqr_any(2))
  qed
qed

lemma balance_fin:
  assumes "balance_ok b" "st_fin st" "motors_fin ms" "inp_fin inp"
  shows "balance_ok (snd (balance_update cfg clk ms st inp b))"
    "\<forall>t \<in> set (fst (balance_update cfg clk ms st inp b)). isfin t"
proof -
  have b: "pidb_ok (bc_pid b)" "leg_ok (bc_lqr b)" using assms(1) by (simp_all add: balance_ok_def)
  note p = pid_balance_fin [OF b(1) assms(2-4), of clk] and l = lqr_fin [OF b(2) assms(2-4), of clk]
  show "balance_ok (snd (balance_update cfg clk ms st inp b))"
    using b p(1) l(1) by (cases cfg) (simp_all add: balance_update_cases balance_ok_def)
  show "\<forall>t \<in> set (fst (balance_update cfg clk ms st inp b)). isfin t"
    using p(2) l(2) by (cases cfg) (simp_all only: balance_update_cases fst_conv)
qed

interpretation balancing: torque_source "balance_step cfg" balance_ok tick_fin "fin_le 9" for cfg
  by unfold_locales
    (auto simp: balance_step_def tick_fin_def fin_le_def balance_fin balance_any split: prod.splits)

end
