(* ===== verification/Actuators.thy ===== *)
theory Actuators
  imports TorqueSource SoftLimit
begin

text \<open>
  The other writers of motor commands in src/src/controllers: the car's velocity mixer
  (CarController.cpp), the last gate in front of the motors (ActuatorSafety.cpp) and the bench sweep
  of one motor (MotorTest.cpp).
\<close>

section \<open>The car\<close>

definition MAX_WHEEL_VEL_RADS :: flt where "MAX_WHEEL_VEL_RADS = Fin 10"
definition YAW_MIX_RADS :: flt where "YAW_MIX_RADS = Fin 5"
definition CAR_WHEEL_VEL_LIMIT_RADS :: flt where "CAR_WHEEL_VEL_LIMIT_RADS = Fin 55"

record car =
  car_vel_L :: flt
  car_vel_R :: flt

definition car_reset :: "car \<Rightarrow> car" where
  "car_reset c = c\<lparr>car_vel_L := Fin 0, car_vel_R := Fin 0\<rparr>"

definition car_new :: car where
  "car_new = \<lparr>car_vel_L = Fin 0, car_vel_R = Fin 0\<rparr>"

definition car_update :: "flt list \<Rightarrow> car \<Rightarrow> car" where
  "car_update inp c =
    (let vel_cmd = inp ! IN_VEL_TGT * MAX_WHEEL_VEL_RADS;
         yaw_cmd = inp ! IN_YAW_STICK * YAW_MIX_RADS
     in c\<lparr>car_vel_L := constrain_float (vel_cmd + yaw_cmd) (- CAR_WHEEL_VEL_LIMIT_RADS) CAR_WHEEL_VEL_LIMIT_RADS,
          car_vel_R := constrain_float (vel_cmd - yaw_cmd) (- CAR_WHEEL_VEL_LIMIT_RADS) CAR_WHEEL_VEL_LIMIT_RADS\<rparr>)"

section \<open>The actuator gate\<close>

definition MOTOR_IDS :: "u8 list" where "MOTOR_IDS = [1, 2, 3, 4, 5, 6]"
definition AS_WHEEL_VEL_LIMIT_RADS :: flt where "AS_WHEEL_VEL_LIMIT_RADS = Fin 60"
definition AS_WHEEL_VEL_SOFT_MARGIN_RADS :: flt where "AS_WHEEL_VEL_SOFT_MARGIN_RADS = Fin 10"
definition AS_WHEEL_TORQUE_LIMIT_NM :: flt where "AS_WHEEL_TORQUE_LIMIT_NM = Fin 8"

definition limit_scale :: "flt \<Rightarrow> flt \<Rightarrow> flt \<Rightarrow> flt \<Rightarrow> flt \<Rightarrow> flt" where
  "limit_scale value lo hi margin torque =
    (if Fin 0 < torque then constrain_float ((hi - value) / margin) (Fin 0) (Fin 1)
     else if torque < Fin 0 then constrain_float ((value - lo) / margin) (Fin 0) (Fin 1)
     else Fin 1)"

definition actuator_gate :: "motorsys \<Rightarrow> nat \<Rightarrow> flt \<Rightarrow> flt" where
  "actuator_gate ms i t =
    (case can_motor_get_state (MOTOR_IDS ! i) ms of None \<Rightarrow> Fin 0
     | Some s \<Rightarrow> if \<not> mvalid s then Fin 0
       else if i < 4 then t
       else let vel_scale = limit_scale (vel_rads s) (- AS_WHEEL_VEL_LIMIT_RADS) AS_WHEEL_VEL_LIMIT_RADS
                  AS_WHEEL_VEL_SOFT_MARGIN_RADS t
            in constrain_float (t * vel_scale) (- AS_WHEEL_TORQUE_LIMIT_NM) AS_WHEEL_TORQUE_LIMIT_NM)"

definition actuator_apply :: "motorsys \<Rightarrow> flt list \<Rightarrow> flt list" where
  "actuator_apply ms ts = map (\<lambda>i. actuator_gate ms i (ts ! i)) [0..<6]"

section \<open>The motor test\<close>

definition HIP_SWEEP_TORQUE_LIMIT_NM :: flt where "HIP_SWEEP_TORQUE_LIMIT_NM = Fin 3"
definition HIP_SWEEP_ARRIVE_EPS_RAD :: flt where "HIP_SWEEP_ARRIVE_EPS_RAD = Fin 0.03"
definition WHEEL_SWEEP_VEL_RADS :: flt where "WHEEL_SWEEP_VEL_RADS = Fin 1"

record motor_test =
  mt_active :: bool
  mt_motor_id :: u8
  mt_is_hip :: bool
  mt_dir :: int
  mt_hip_pid :: pid
  mt_start_pos :: flt
  mt_vel_target :: flt

definition motor_test_new :: motor_test where
  "motor_test_new = \<lparr>mt_active = False, mt_motor_id = 0, mt_is_hip = False, mt_dir = 1,
     mt_hip_pid = pid_new (Fin 3) (Fin 0) (Fin 0.15) (Fin 1) (Fin 30), mt_start_pos = Fin 0,
     mt_vel_target = Fin 0\<rparr>"

definition motor_test_start :: "u8 \<Rightarrow> motorsys \<Rightarrow> motor_test \<Rightarrow> bool \<times> motorsys \<times> motor_test" where
  "motor_test_start motor_id ms m =
    (if motor_id < 1 \<or> 6 < motor_id then (False, ms, m)
     else let m = m\<lparr>mt_active := True, mt_motor_id := motor_id, mt_is_hip := (motor_id \<le> 4),
                   mt_dir := 1, mt_hip_pid := pid_reset (mt_hip_pid m)\<rparr>;
              ms = (if \<not> mt_is_hip m then snd (can_motor_set_odrive_mode motor_id True ms) else ms);
              pos = (case can_motor_get_state motor_id ms of None \<Rightarrow> Fin 0
                     | Some s \<Rightarrow> if mvalid s then pos_rad s else Fin 0)
          in (True, ms, m\<lparr>mt_start_pos := pos\<rparr>))"

definition motor_test_stop :: "motorsys \<Rightarrow> motor_test \<Rightarrow> motorsys \<times> motor_test" where
  "motor_test_stop ms m =
    (let ms = (if \<not> mt_is_hip m then snd (can_motor_set_odrive_mode (mt_motor_id m) False ms) else ms)
     in (ms, m\<lparr>mt_active := False\<rparr>))"

definition sweep_target :: "motor_test \<Rightarrow> flt" where
  "sweep_target m = (if 0 < mt_dir m then can_motor_hip_angle_max (mt_motor_id m)
     else can_motor_hip_angle_min (mt_motor_id m))"

definition motor_test_update :: "u32 \<Rightarrow> motorsys \<Rightarrow> motor_test \<Rightarrow> flt list \<times> motor_test" where
  "motor_test_update now ms m =
    (let torques = replicate 6 (Fin 0) in
     if \<not> mt_active m then (torques, m)
     else case can_motor_get_state (mt_motor_id m) ms of None \<Rightarrow> (torques, m)
     | Some s \<Rightarrow>
       if \<not> mvalid s then (torques, m)
       else if mt_is_hip m then
         let m = (if fabsf (pos_rad s - sweep_target m) < HIP_SWEEP_ARRIVE_EPS_RAD
                  then m\<lparr>mt_dir := - mt_dir m, mt_hip_pid := pid_reset (mt_hip_pid m)\<rparr> else m);
             error = sweep_target m - pos_rad s;
             (u, p) = pid_update now error (mt_hip_pid m)
         in (torques[unat (mt_motor_id m) - 1 :=
               constrain_float u (- HIP_SWEEP_TORQUE_LIMIT_NM) HIP_SWEEP_TORQUE_LIMIT_NM],
             m\<lparr>mt_hip_pid := p\<rparr>)
       else
         let m = (if Fin (2 * 3.14159265) \<le> fabsf (pos_rad s - mt_start_pos m)
                  then m\<lparr>mt_dir := - mt_dir m, mt_start_pos := pos_rad s\<rparr> else m)
         in (torques, m\<lparr>mt_vel_target := flt_of_int (mt_dir m) * WHEEL_SWEEP_VEL_RADS\<rparr>))"

section \<open>Mode frames of a wheel drive\<close>

definition mode_frames :: "u8 \<Rightarrow> bool \<Rightarrow> (canbus \<times> can_frame) list" where
  "mode_frames node vel = map (Pair CAN_BUS_1)
     [data_frame (odrive_arb_id node 0x07) (le_bytes32 1 @ [0, 0, 0, 0]),
      data_frame (odrive_arb_id node 0x0B) (le_bytes32 (if vel then 2 else 1) @ le_bytes32 1),
      data_frame (odrive_arb_id node 0x07) (le_bytes32 8 @ [0, 0, 0, 0])]"

lemma set_mode_tx:
  "find_entry ms i = Some k \<Longrightarrow> me_proto (entry ms k) = CAN_MOTOR_ODRIVE \<Longrightarrow>
   can_tx (ms_can (snd (can_motor_set_odrive_mode i vel ms))) =
     can_tx (ms_can ms) @ mode_frames (me_node_id (entry ms k)) vel"
  by (simp add: mode_frames_def can_motor_set_odrive_mode_def odrive_set_axis_state_def
        odrive_set_controller_mode_def ODRIVE_CMD_SET_AXIS_STATE_def ODRIVE_CMD_SET_CONTROLLER_MODE_def
        ODRIVE_AXIS_STATE_IDLE_def ODRIVE_AXIS_STATE_CLOSED_LOOP_def ODRIVE_CONTROL_MODE_TORQUE_def
        ODRIVE_CONTROL_MODE_VELOCITY_def ODRIVE_INPUT_MODE_PASSTHROUGH_def Let_def)

lemma set_mode_sel [simp]:
  "ms_entries (snd (can_motor_set_odrive_mode i vel ms)) = ms_entries ms"
  "ms_motors (snd (can_motor_set_odrive_mode i vel ms)) = ms_motors ms"
  "find_entry (snd (can_motor_set_odrive_mode i vel ms)) j = find_entry ms j"
  "entry (snd (can_motor_set_odrive_mode i vel ms)) n = entry ms n"
  "can_motor_get_state j (snd (can_motor_set_odrive_mode i vel ms)) = can_motor_get_state j ms"
  by (simp_all add: can_motor_set_odrive_mode_def odrive_set_axis_state_def odrive_set_controller_mode_def
      Let_def find_entry_def entry_def can_motor_get_state_def split: option.split)

section \<open>Bounds\<close>

interpretation wheel_vel: soft_limit
  "\<lambda>v q. limit_scale v (- AS_WHEEL_VEL_LIMIT_RADS) AS_WHEEL_VEL_LIMIT_RADS AS_WHEEL_VEL_SOFT_MARGIN_RADS q"
  "- 60" 60 10
proof -
  have "(\<lambda>v q. limit_scale v (- AS_WHEEL_VEL_LIMIT_RADS) AS_WHEEL_VEL_LIMIT_RADS AS_WHEEL_VEL_SOFT_MARGIN_RADS q)
      = (\<lambda>v q. ramp_factor v (Fin (- 60)) (Fin 60) (Fin 10) q)"
    by (simp add: limit_scale_def ramp_factor_def AS_WHEEL_VEL_LIMIT_RADS_def AS_WHEEL_VEL_SOFT_MARGIN_RADS_def)
  then show "soft_limit (\<lambda>v q. limit_scale v (- AS_WHEEL_VEL_LIMIT_RADS) AS_WHEEL_VEL_LIMIT_RADS
      AS_WHEEL_VEL_SOFT_MARGIN_RADS q) (- 60) 60 10"
    using ramp_factor_soft_limit [of "- 60" 60 10] by simp
qed

lemma car_update_le:
  "cmd_le 55 (car_vel_L (car_update inp c))" "cmd_le 55 (car_vel_R (car_update inp c))"
proof -
  have "cmd_le 55 (constrain_float v (- CAR_WHEEL_VEL_LIMIT_RADS) CAR_WHEEL_VEL_LIMIT_RADS)" for v
    using cmd_le_constrain [of 55 v] by (simp add: CAR_WHEEL_VEL_LIMIT_RADS_def)
  then show "cmd_le 55 (car_vel_L (car_update inp c))" "cmd_le 55 (car_vel_R (car_update inp c))"
    by (simp_all add: car_update_def Let_def)
qed

lemma car_update_fin:
  "inp_fin inp \<Longrightarrow> isfin (car_vel_L (car_update inp c)) \<and> isfin (car_vel_R (car_update inp c))"
  using inp_fin_nth [of inp 0] inp_fin_nth [of inp 1]
  by (auto simp: car_update_def Let_def idx_defs CAR_WHEEL_VEL_LIMIT_RADS_def MAX_WHEEL_VEL_RADS_def
      YAW_MIX_RADS_def elim!: isfinE)

text \<open>C15. The gate in front of the motors: without valid feedback a motor gets zero; a hip's torque
passes unchanged; a wheel's torque is at most 8 Nm and never larger than asked, cannot speed a wheel
up that already turns at 60 rad/s in that direction, and is left alone below 50 rad/s.\<close>
theorem actuator_gate_safe:
  assumes "i < 6"
  shows "(case can_motor_get_state (MOTOR_IDS ! i) ms of
      None \<Rightarrow> actuator_apply ms ts ! i = Fin 0
    | Some s \<Rightarrow> (\<not> mvalid s \<longrightarrow> actuator_apply ms ts ! i = Fin 0) \<and>
       (mvalid s \<longrightarrow> i < 4 \<longrightarrow> actuator_apply ms ts ! i = ts ! i) \<and>
       (\<forall>v q. mvalid s \<and> 4 \<le> i \<and> vel_rads s = Fin v \<and> ts ! i = Fin q \<longrightarrow>
         (\<exists>q'. actuator_apply ms ts ! i = Fin q' \<and> \<bar>q'\<bar> \<le> 8 \<and> \<bar>q'\<bar> \<le> \<bar>q\<bar> \<and>
            (60 \<le> v \<longrightarrow> q' \<le> 0) \<and> (v \<le> - 60 \<longrightarrow> 0 \<le> q') \<and> (\<bar>v\<bar> \<le> 50 \<and> \<bar>q\<bar> \<le> 8 \<longrightarrow> q' = q))))"
proof -
  have at: "actuator_apply ms ts ! i = actuator_gate ms i (ts ! i)"
    using assms by (simp add: actuator_apply_def)
  have wheel: "\<exists>q'. constrain_float (Fin q * limit_scale (Fin v) (- AS_WHEEL_VEL_LIMIT_RADS)
        AS_WHEEL_VEL_LIMIT_RADS AS_WHEEL_VEL_SOFT_MARGIN_RADS (Fin q))
        (- AS_WHEEL_TORQUE_LIMIT_NM) AS_WHEEL_TORQUE_LIMIT_NM = Fin q' \<and> \<bar>q'\<bar> \<le> 8 \<and> \<bar>q'\<bar> \<le> \<bar>q\<bar> \<and>
        (60 \<le> v \<longrightarrow> q' \<le> 0) \<and> (v \<le> - 60 \<longrightarrow> 0 \<le> q') \<and> (\<bar>v\<bar> \<le> 50 \<and> \<bar>q\<bar> \<le> 8 \<longrightarrow> q' = q)" for v q
  proof -
    define r where "r = q * wheel_vel.fac v q"
    have r: "\<bar>r\<bar> \<le> \<bar>q\<bar>" "60 \<le> v \<Longrightarrow> r \<le> 0" "v \<le> - 60 \<Longrightarrow> 0 \<le> r" "\<bar>v\<bar> \<le> 50 \<Longrightarrow> r = q"
      using wheel_vel.scaled_abs [of q v] wheel_vel.scaled_inward [of v q]
      by (simp_all add: r_def wheel_vel.fac_free abs_le_iff)
    then show ?thesis
      unfolding wheel_vel.factor_fac AS_WHEEL_TORQUE_LIMIT_NM_def
      by (intro exI [of _ "clampr r (- 8) 8"]) (auto simp: clampr_def abs_if r_def [symmetric])
  qed
  then show ?thesis unfolding at by (auto simp: actuator_gate_def Let_def split: option.split)
qed

theorem actuator_gate_safe_witness:
  "actuator_apply (demo_ms\<lparr>ms_motors := replicate 8 (hip_state 0 0)\<rparr>) [Fin 7, Fin 0, Fin 0, Fin 0, Fin 5, Fin 5] ! 0 = Fin 7"
  using actuator_gate_safe [of 0 "demo_ms\<lparr>ms_motors := replicate 8 (hip_state 0 0)\<rparr>"
      "[Fin 7, Fin 0, Fin 0, Fin 0, Fin 5, Fin 5]"]
  by (simp add: MOTOR_IDS_def can_motor_get_state_def find_entry_def demo_ms_def)

section \<open>The bench sweep\<close>

text \<open>What the test object goes through: starts, stops and updates, each with whatever the motor
table holds at that time.\<close>
inductive sweep_reach :: "motor_test \<Rightarrow> bool" where
  sweep_new: "sweep_reach motor_test_new"
| sweep_start: "sweep_reach m \<Longrightarrow> sweep_reach (snd (snd (motor_test_start i ms m)))"
| sweep_stop: "sweep_reach m \<Longrightarrow> sweep_reach (snd (motor_test_stop ms m))"
| sweep_update: "sweep_reach m \<Longrightarrow> sweep_reach (snd (motor_test_update now ms m))"

definition sweep_ok :: "motor_test \<Rightarrow> bool" where
  "sweep_ok m \<longleftrightarrow> (mt_dir m = 1 \<or> mt_dir m = - 1) \<and>
     (mt_active m \<longrightarrow> mt_motor_id m \<noteq> 0 \<and> mt_motor_id m \<le> 6 \<and> (mt_is_hip m \<longleftrightarrow> mt_motor_id m \<le> 4))"

lemma motor_test_update_frame:
  "mt_active (snd (motor_test_update now ms m)) = mt_active m"
  "mt_motor_id (snd (motor_test_update now ms m)) = mt_motor_id m"
  "mt_is_hip (snd (motor_test_update now ms m)) = mt_is_hip m"
  "mt_dir (snd (motor_test_update now ms m)) = mt_dir m \<or> mt_dir (snd (motor_test_update now ms m)) = - mt_dir m"
  by (simp_all add: motor_test_update_def Let_def case_prod_beta split: option.split)

lemma sweep_reach_ok: "sweep_reach m \<Longrightarrow> sweep_ok m"
proof (induction rule: sweep_reach.induct)
  case sweep_new
  show ?case by (simp add: sweep_ok_def motor_test_new_def)
next
  case (sweep_start m i ms)
  then show ?case by (auto simp: sweep_ok_def motor_test_start_def Let_def not_less)
next
  case (sweep_stop m ms)
  then show ?case by (simp add: sweep_ok_def motor_test_stop_def Let_def)
next
  case (sweep_update m now ms)
  then show ?case using motor_test_update_frame [of now ms m] by (auto simp: sweep_ok_def)
qed

text \<open>However a bench sweep is started, stopped and updated, it commands at most one motor: every
other torque is zero, a hip under test gets at most 3 Nm, and a wheel under test gets no torque at
all but, with feedback, a velocity target of plus or minus 1 rad/s.\<close>
theorem sweep_one_motor:
  assumes "sweep_reach m" "motor_test_update now ms m = (ts, m')"
  shows "length ts = 6 \<and> (\<forall>j<6. ts ! j \<noteq> Fin 0 \<longrightarrow>
       mt_active m \<and> mt_is_hip m \<and> Suc j = unat (mt_motor_id m) \<and> cmd_le 3 (ts ! j)) \<and>
     (\<forall>s. mt_active m \<and> \<not> mt_is_hip m \<and> can_motor_get_state (mt_motor_id m) ms = Some s \<and> mvalid s \<longrightarrow>
       mt_vel_target m' = Fin 1 \<or> mt_vel_target m' = Fin (- 1))"
proof -
  have ok: "sweep_ok m" using assms(1) by (rule sweep_reach_ok)
  have le: "cmd_le 3 (constrain_float u (- HIP_SWEEP_TORQUE_LIMIT_NM) HIP_SWEEP_TORQUE_LIMIT_NM)" for u
    using cmd_le_constrain [of 3 u] by (simp add: HIP_SWEEP_TORQUE_LIMIT_NM_def)
  have id: "1 \<le> unat (mt_motor_id m)" if "mt_active m"
    using ok that by (simp add: sweep_ok_def Suc_leI unat_gt_0)
  have z: "replicate 6 (Fin 0) ! j = Fin 0" if "j < 6" for j using that by simp
  have hot: "(replicate 6 (Fin 0))[k := v] ! j = (if k = j then v else Fin 0)" if "j < 6" for k v j
    using that by simp
  show ?thesis
  proof (cases "mt_active m \<and> mt_is_hip m")
    case True
    then show ?thesis using assms(2) id le z hot
      by (auto simp: motor_test_update_def Let_def case_prod_beta split: option.splits if_splits)
  next
    case False
    then show ?thesis using assms(2) ok z
      by (auto simp: motor_test_update_def Let_def case_prod_beta sweep_ok_def WHEEL_SWEEP_VEL_RADS_def
          split: option.splits if_splits)
  qed
qed

theorem sweep_one_motor_witness: "length (fst (motor_test_update 0 demo_ms motor_test_new)) = 6"
  using sweep_one_motor [OF sweep_new, of 0 demo_ms] by (metis prod.collapse)

text \<open>The sweep turns round: a hip under test that comes within 0.03 rad of the bound it is
driven towards is driven back at once, with the full 3 Nm the sweep allows.\<close>
theorem sweep_turns_round:
  assumes "mt_active m" "mt_is_hip m" "hip_id (mt_motor_id m)" "pid_kp (mt_hip_pid m) = Fin 3"
    "can_motor_get_state (mt_motor_id m) ms = Some s" "mvalid s" "pos_rad s = Fin x"
    "mt_dir m = 1 \<and> \<bar>x - 0.44\<bar> < 0.03 \<or> mt_dir m = - 1 \<and> \<bar>x + 1.45\<bar> < 0.03"
  shows "fst (motor_test_update now ms m) ! (unat (mt_motor_id m) - 1) = Fin (- 3 * of_int (mt_dir m)) \<and>
     mt_dir (snd (motor_test_update now ms m)) = - mt_dir m"
proof -
  define i where "i = mt_motor_id m"
  have i: "unat i - 1 < 6" using hip_id_cases [OF assms(3)] by (auto simp: i_def)
  have b: "can_motor_hip_angle_max i = Fin 0.44" "can_motor_hip_angle_min i = Fin (- 1.45)"
    using hip_id_cases [OF assms(3)] unfolding i_def
    by (auto simp: can_motor_hip_angle_max_def can_motor_hip_angle_min_def at_hip_def HIP_ANGLE_MAX_RAD_def
        HIP_ANGLE_MIN_RAD_def)
  have u: "fst (pid_update now e (pid_reset p)) = pid_kp p * e" for e p
    by (simp add: pid_update_def pid_reset_def)
  have arrive: "fabsf (Fin x - sweep_target m) < HIP_SWEEP_ARRIVE_EPS_RAD"
    using assms(8) b by (auto simp: sweep_target_def i_def HIP_SWEEP_ARRIVE_EPS_RAD_def)
  show ?thesis
    using assms(1-7) arrive i b assms(8)
    by (auto simp: motor_test_update_def Let_def case_prod_beta u sweep_target_def i_def
        HIP_SWEEP_TORQUE_LIMIT_NM_def clampr_def)
qed

theorem sweep_turns_round_witness:
  "fst (motor_test_update 0 (demo_ms\<lparr>ms_motors := replicate 8 (hip_state 0.43 0)\<rparr>)
     (motor_test_new\<lparr>mt_active := True, mt_is_hip := True, mt_motor_id := 1\<rparr>)) ! 0 = Fin (- 3)"
  using sweep_turns_round [of "motor_test_new\<lparr>mt_active := True, mt_is_hip := True, mt_motor_id := 1\<rparr>"
      "demo_ms\<lparr>ms_motors := replicate 8 (hip_state 0.43 0)\<rparr>" "hip_state 0.43 0" "0.43" 0]
  by (simp add: motor_test_new_def pid_new_def hip_id_def can_motor_get_state_def find_entry_def demo_ms_def)

end
