(* ===== verification/StateMachine.thy ===== *)
theory StateMachine
  imports Actuators
begin

text \<open>
  The robot's mode machine (src/src/controllers/RobotStateMachine.cpp) and the registration of the
  six motors at start-up (src/main.cpp).  A tick decides the mode, runs the entry actions of an edge
  (reset a controller, switch the wheel drives between torque and velocity mode) and lets the
  controller of the mode compute the torques.
\<close>

datatype robot_mode = ROBOT_IDLE | ROBOT_STANDING_UP | ROBOT_BALANCING | ROBOT_CAR

record rsm =
  rsm_mode :: robot_mode
  rsm_balance :: balance
  rsm_car :: car
  rsm_standup :: leg_ctrl

definition rsm_new :: rsm where
  "rsm_new = \<lparr>rsm_mode = ROBOT_IDLE, rsm_balance = balance_new, rsm_car = car_new,
     rsm_standup = leg_ctrl_new\<rparr>"

definition wants_wheel_velocity :: "balance_ctrl \<Rightarrow> robot_mode \<Rightarrow> bool" where
  "wants_wheel_velocity cfg m =
    (m = ROBOT_CAR \<or> m = ROBOT_STANDING_UP \<or> m = ROBOT_BALANCING \<and> USES_WHEEL_VELOCITY cfg)"

definition rsm_next_mode :: "svec \<Rightarrow> flt list \<Rightarrow> bool \<Rightarrow> rsm \<Rightarrow> robot_mode" where
  "rsm_next_mode st inp armed r =
    (let prev_mode = rsm_mode r in
     if \<not> armed then ROBOT_IDLE
     else if inp ! IN_MODE_SW < Fin 0 then ROBOT_CAR
     else if prev_mode = ROBOT_IDLE \<or> prev_mode = ROBOT_CAR then ROBOT_STANDING_UP
     else if prev_mode = ROBOT_STANDING_UP then
       (if is_standing st (rsm_standup r) then ROBOT_BALANCING else ROBOT_STANDING_UP)
     else ROBOT_BALANCING)"

definition rsm_enter :: "balance_ctrl \<Rightarrow> svec \<Rightarrow> robot_mode \<Rightarrow> robot_mode \<Rightarrow> rsm \<Rightarrow> rsm" where
  "rsm_enter cfg st prev_mode mode r =
    (if mode = ROBOT_STANDING_UP then r\<lparr>rsm_standup := standup_reset st (rsm_standup r)\<rparr>
     else if mode = ROBOT_BALANCING \<and> prev_mode = ROBOT_STANDING_UP
       then r\<lparr>rsm_balance := balance_reset cfg st (rsm_balance r)\<rparr>
     else if mode = ROBOT_CAR then r\<lparr>rsm_car := car_reset (rsm_car r)\<rparr>
     else r)"

definition both_wheels_mode :: "bool \<Rightarrow> motorsys \<Rightarrow> motorsys" where
  "both_wheels_mode vel ms =
     snd (can_motor_set_odrive_mode 6 vel (snd (can_motor_set_odrive_mode 5 vel ms)))"

definition rsm_switch :: "balance_ctrl \<Rightarrow> robot_mode \<Rightarrow> robot_mode \<Rightarrow> motorsys \<Rightarrow> motorsys" where
  "rsm_switch cfg prev_mode mode ms =
    (let was_vel = wants_wheel_velocity cfg prev_mode; now_vel = wants_wheel_velocity cfg mode in
     if now_vel \<and> \<not> was_vel then both_wheels_mode True ms
     else if \<not> now_vel \<and> was_vel then both_wheels_mode False ms
     else ms)"

definition rsm_run_mode ::
  "balance_ctrl \<Rightarrow> (nat \<Rightarrow> u32) \<Rightarrow> svec \<Rightarrow> flt list \<Rightarrow> motorsys \<Rightarrow> rsm \<Rightarrow> flt list \<times> rsm" where
  "rsm_run_mode cfg clk st inp ms r =
    (case rsm_mode r of
       ROBOT_STANDING_UP \<Rightarrow>
         (let (ts, c) = standup_update clk ms st (rsm_standup r) in (ts, r\<lparr>rsm_standup := c\<rparr>))
     | ROBOT_BALANCING \<Rightarrow>
         (let (ts, b) = balance_update cfg clk ms st inp (rsm_balance r) in (ts, r\<lparr>rsm_balance := b\<rparr>))
     | ROBOT_CAR \<Rightarrow> (replicate 6 (Fin 0), r\<lparr>rsm_car := car_update inp (rsm_car r)\<rparr>)
     | ROBOT_IDLE \<Rightarrow> (replicate 6 (Fin 0), r))"

definition rsm_update :: "balance_ctrl \<Rightarrow> (nat \<Rightarrow> u32) \<Rightarrow> svec \<Rightarrow> flt list \<Rightarrow> bool \<Rightarrow>
    motorsys \<times> rsm \<Rightarrow> flt list \<times> motorsys \<times> rsm" where
  "rsm_update cfg clk st inp armed s =
    (case s of (ms, r) \<Rightarrow>
     let prev_mode = rsm_mode r; mode = rsm_next_mode st inp armed r;
         r = r\<lparr>rsm_mode := mode\<rparr>;
         r = (if mode \<noteq> prev_mode then rsm_enter cfg st prev_mode mode r else r);
         ms = (if mode \<noteq> prev_mode then rsm_switch cfg prev_mode mode ms else ms)
     in if \<not> armed then (replicate 6 (Fin 0), ms, r)
        else let (ts, r) = rsm_run_mode cfg clk st inp ms r in (ts, ms, r))"

definition rsm_wheel_velocity_mode :: "balance_ctrl \<Rightarrow> rsm \<Rightarrow> bool" where
  "rsm_wheel_velocity_mode cfg r = wants_wheel_velocity cfg (rsm_mode r)"

definition rsm_wheel_vel_L :: "rsm \<Rightarrow> flt" where
  "rsm_wheel_vel_L r = (case rsm_mode r of ROBOT_CAR \<Rightarrow> car_vel_L (rsm_car r)
     | ROBOT_STANDING_UP \<Rightarrow> lc_vel_L (rsm_standup r)
     | ROBOT_BALANCING \<Rightarrow> lc_vel_L (bc_lqr (rsm_balance r)) | ROBOT_IDLE \<Rightarrow> Fin 0)"

definition rsm_wheel_vel_R :: "rsm \<Rightarrow> flt" where
  "rsm_wheel_vel_R r = (case rsm_mode r of ROBOT_CAR \<Rightarrow> car_vel_R (rsm_car r)
     | ROBOT_STANDING_UP \<Rightarrow> lc_vel_R (rsm_standup r)
     | ROBOT_BALANCING \<Rightarrow> lc_vel_R (bc_lqr (rsm_balance r)) | ROBOT_IDLE \<Rightarrow> Fin 0)"

text \<open>The motors registered in main, in its order.\<close>
definition main_motors :: "motorsys \<Rightarrow> motorsys" where
  "main_motors ms =
     can_motor_register 6 CAN_MOTOR_ODRIVE 3 (Fin 1)
    (can_motor_register 5 CAN_MOTOR_ODRIVE 2 (Fin (- 1))
    (can_motor_register 4 CAN_MOTOR_RMD 0 (Fin 1)
    (can_motor_register 3 CAN_MOTOR_RMD 0 (Fin 1)
    (can_motor_register 2 CAN_MOTOR_RMD 0 (Fin 1)
    (can_motor_register 1 CAN_MOTOR_RMD 0 (Fin 1) ms)))))"

section \<open>One tick\<close>

lemma rsm_run_mode_keeps: "rsm_mode (snd (rsm_run_mode cfg clk st inp ms r)) = rsm_mode r"
  by (simp add: rsm_run_mode_def case_prod_beta Let_def split: robot_mode.split)

lemma rsm_enter_mode [simp]: "rsm_mode (rsm_enter cfg st p m r) = rsm_mode r"
  by (simp add: rsm_enter_def)

lemma rsm_update_mode: "rsm_mode (snd (snd (rsm_update cfg clk st inp armed (ms, r)))) = rsm_next_mode st inp armed r"
  by (simp add: rsm_update_def case_prod_beta Let_def rsm_run_mode_keeps)

lemma rsm_update_ms: "fst (snd (rsm_update cfg clk st inp armed (ms, r))) =
    rsm_switch cfg (rsm_mode r) (rsm_next_mode st inp armed r) ms"
proof -
  have "rsm_switch cfg m m ms = ms" for m by (simp add: rsm_switch_def)
  then show ?thesis by (auto simp: rsm_update_def case_prod_beta Let_def)
qed

lemma both_wheels_sel [simp]:
  "find_entry (both_wheels_mode v ms) j = find_entry ms j" "entry (both_wheels_mode v ms) k = entry ms k"
  "can_motor_get_state j (both_wheels_mode v ms) = can_motor_get_state j ms"
  by (simp_all add: both_wheels_mode_def)

lemma rsm_switch_sel [simp]:
  "find_entry (rsm_switch cfg p m ms) j = find_entry ms j" "entry (rsm_switch cfg p m ms) k = entry ms k"
  "can_motor_get_state j (rsm_switch cfg p m ms) = can_motor_get_state j ms"
  by (simp_all add: rsm_switch_def Let_def)

text \<open>A tick that is armed is the controller's step on the entered memory.\<close>
definition rsm_entered :: "balance_ctrl \<Rightarrow> svec \<Rightarrow> flt list \<Rightarrow> bool \<Rightarrow> rsm \<Rightarrow> rsm" where
  "rsm_entered cfg st inp armed r =
    (let m = rsm_next_mode st inp armed r; r1 = r\<lparr>rsm_mode := m\<rparr>
     in if m \<noteq> rsm_mode r then rsm_enter cfg st (rsm_mode r) m r1 else r1)"

lemma rsm_entered_mode: "rsm_mode (rsm_entered cfg st inp armed r) = rsm_next_mode st inp armed r"
  by (simp add: rsm_entered_def Let_def)

lemma rsm_update_armed: "rsm_update cfg clk st inp True (ms, r) =
   (let ms' = rsm_switch cfg (rsm_mode r) (rsm_next_mode st inp True r) ms;
        x = rsm_run_mode cfg clk st inp ms' (rsm_entered cfg st inp True r)
    in (fst x, ms', snd x))"
proof -
  have "rsm_switch cfg m m ms = ms" for m by (simp add: rsm_switch_def)
  then show ?thesis by (simp add: rsm_update_def rsm_entered_def case_prod_beta Let_def)
qed

lemma rsm_update_disarmed: "rsm_update cfg clk st inp False (ms, r) =
   (replicate 6 (Fin 0), rsm_switch cfg (rsm_mode r) ROBOT_IDLE ms, r\<lparr>rsm_mode := ROBOT_IDLE\<rparr>)"
proof -
  have "rsm_switch cfg m m ms = ms" for m by (simp add: rsm_switch_def)
  moreover have "rsm_next_mode st inp False r = ROBOT_IDLE" by (simp add: rsm_next_mode_def)
  ultimately show ?thesis by (auto simp: rsm_update_def Let_def rsm_enter_def)
qed

section \<open>The registered motors\<close>

definition wheel_node :: "u8 \<Rightarrow> bool" where "wheel_node n \<longleftrightarrow> n = 2 \<or> n = 3"

definition main_entries :: "motor_entry list" where
  "main_entries = map (\<lambda>i. \<lparr>me_id = i, me_proto = CAN_MOTOR_RMD, me_registered = True, me_node_id = i,
      me_sign = Fin 1\<rparr>) [1, 2, 3, 4] @
    [\<lparr>me_id = 5, me_proto = CAN_MOTOR_ODRIVE, me_registered = True, me_node_id = 2, me_sign = Fin (- 1)\<rparr>,
     \<lparr>me_id = 6, me_proto = CAN_MOTOR_ODRIVE, me_registered = True, me_node_id = 3, me_sign = Fin 1\<rparr>]"

lemma main_find:
  assumes "ms_entries ms = main_entries"
  shows "find_entry ms 5 = Some 4" "find_entry ms 6 = Some 5"
    "me_proto (entry ms 4) = CAN_MOTOR_ODRIVE" "me_proto (entry ms 5) = CAN_MOTOR_ODRIVE"
    "me_node_id (entry ms 4) = 2" "me_node_id (entry ms 5) = 3"
    "find_entry ms i = Some k \<Longrightarrow> me_proto (entry ms k) = CAN_MOTOR_RMD \<Longrightarrow> hip_id i"
    "find_entry ms i = Some k \<Longrightarrow> me_proto (entry ms k) = CAN_MOTOR_ODRIVE \<Longrightarrow> wheel_node (me_node_id (entry ms k))"
    "find_entry ms i = Some k \<Longrightarrow> me_proto (entry ms k) \<noteq> CAN_MOTOR_SDC102"
  using assms
  by (auto simp: find_entry_def entry_def main_entries_def hip_id_def wheel_node_def nth_Cons'
      split: if_splits)

lemma ms_register_sel [simp]: "ms_entries (ms_register sid cb ms) = ms_entries ms"
  "can_tx (ms_can (ms_register sid cb ms)) = can_tx (ms_can ms)"
  by (simp_all add: ms_register_def bprl_can_register_def)

lemma init_axis_sel: "ms_entries (odrive_init_axis n ms) = ms_entries ms"
  "can_tx (ms_can (odrive_init_axis n ms)) = can_tx (ms_can ms) @ tl (mode_frames n False)"
  by (simp_all add: odrive_init_axis_def odrive_set_axis_state_def odrive_set_controller_mode_def Let_def
      mode_frames_def ODRIVE_CMD_SET_AXIS_STATE_def ODRIVE_CMD_SET_CONTROLLER_MODE_def
      ODRIVE_AXIS_STATE_CLOSED_LOOP_def ODRIVE_CONTROL_MODE_TORQUE_def ODRIVE_INPUT_MODE_PASSTHROUGH_def)

lemma main_motors_new:
  "ms_entries (main_motors (motorsys_new c)) = main_entries"
  "can_tx (ms_can (main_motors (motorsys_new c))) = can_tx c @ tl (mode_frames 2 False) @ tl (mode_frames 3 False)"
  by (simp_all add: main_motors_def can_motor_register_def motorsys_new_def CAN_MOTOR_MAX_def init_axis_sel
      Let_def main_entries_def)

lemma both_wheels_mode_tx:
  assumes "ms_entries ms = main_entries"
  shows "ms_entries (both_wheels_mode v ms) = main_entries"
    "can_tx (ms_can (both_wheels_mode v ms)) = can_tx (ms_can ms) @ mode_frames 2 v @ mode_frames 3 v"
  using main_find [OF assms] assms by (simp_all add: both_wheels_mode_def set_mode_tx)

section \<open>Runs\<close>

text \<open>One tick's inputs: the clock, the estimated state, the stick inputs and the arm switch.\<close>
type_synonym tick = "(nat \<Rightarrow> u32) \<times> svec \<times> flt list \<times> bool"

definition rsm_tick :: "balance_ctrl \<Rightarrow> tick \<Rightarrow> motorsys \<times> rsm \<Rightarrow> motorsys \<times> rsm" where
  "rsm_tick cfg i s = (case i of (clk, st, inp, armed) \<Rightarrow> snd (rsm_update cfg clk st inp armed s))"

definition rsm_run :: "balance_ctrl \<Rightarrow> tick list \<Rightarrow> motorsys \<times> rsm \<Rightarrow> motorsys \<times> rsm" where
  "rsm_run cfg is s = fold (rsm_tick cfg) is s"

lemma rsm_run_simps [simp]: "rsm_run cfg [] s = s" "rsm_run cfg (is @ [i]) s = rsm_tick cfg i (rsm_run cfg is s)"
  "rsm_run cfg (i # is) s = rsm_run cfg is (rsm_tick cfg i s)"
  by (simp_all add: rsm_run_def)

lemma rsm_tick_eq: "rsm_tick cfg (clk, st, inp, armed) s =
   (rsm_switch cfg (rsm_mode (snd s)) (rsm_next_mode st inp armed (snd s)) (fst s),
    snd (snd (rsm_update cfg clk st inp armed s)))"
  using rsm_update_ms [of cfg clk st inp armed "fst s" "snd s"] by (simp add: rsm_tick_def prod_eq_iff)

lemma rsm_tick_mode: "rsm_mode (snd (rsm_tick cfg (clk, st, inp, armed) s)) = rsm_next_mode st inp armed (snd s)"
  using rsm_update_mode [of cfg clk st inp armed "fst s" "snd s"] by (simp add: rsm_tick_def)

text \<open>C11. The robot never starts balancing unless it has stood up: in every run from start-up that
is balancing now, there was a tick in the stand-up mode at which the stand-up controller judged the
robot upright, still and extended, and at that tick and at every one since the arm switch was on and
the mode switch did not ask for the car.\<close>
theorem balancing_after_standing:
  assumes "rsm_mode (snd (rsm_run cfg is (ms, rsm_new))) = ROBOT_BALANCING"
  shows "\<exists>pre clk st inp armed post. is = pre @ (clk, st, inp, armed) # post \<and>
     rsm_mode (snd (rsm_run cfg pre (ms, rsm_new))) = ROBOT_STANDING_UP \<and>
     is_standing st (rsm_standup (snd (rsm_run cfg pre (ms, rsm_new)))) \<and>
     (\<forall>(clk, st, inp, armed) \<in> set ((clk, st, inp, armed) # post). armed \<and> \<not> inp ! IN_MODE_SW < Fin 0)"
  using assms
proof (induction "is" rule: rev_induct)
  case Nil
  then show ?case by (simp add: rsm_new_def)
next
  case (snoc i "is")
  obtain clk st inp armed where i: "i = (clk, st, inp, armed)" by (cases i) auto
  let ?s = "rsm_run cfg is (ms, rsm_new)"
  have next_mode: "rsm_next_mode st inp armed (snd ?s) = ROBOT_BALANCING"
    using snoc.prems by (simp add: i rsm_tick_mode)
  then have g: "armed" "\<not> inp ! IN_MODE_SW < Fin 0"
    "rsm_mode (snd ?s) = ROBOT_STANDING_UP \<and> is_standing st (rsm_standup (snd ?s)) \<or>
     rsm_mode (snd ?s) = ROBOT_BALANCING"
    by (cases "rsm_mode (snd ?s)"; simp add: rsm_next_mode_def Let_def split: if_splits)+
  from g(3) show ?case
  proof
    assume "rsm_mode (snd ?s) = ROBOT_STANDING_UP \<and> is_standing st (rsm_standup (snd ?s))"
    then show ?thesis using g(1,2)
      by (intro exI [of _ "is"] exI [of _ clk] exI [of _ st] exI [of _ inp] exI [of _ armed] exI [of _ "[]"])
        (simp add: i)
  next
    assume "rsm_mode (snd ?s) = ROBOT_BALANCING"
    from snoc.IH [OF this] obtain pre c s n a post where
      "is = pre @ (c, s, n, a) # post" "rsm_mode (snd (rsm_run cfg pre (ms, rsm_new))) = ROBOT_STANDING_UP"
      "is_standing s (rsm_standup (snd (rsm_run cfg pre (ms, rsm_new))))"
      "\<forall>(clk, st, inp, armed) \<in> set ((c, s, n, a) # post). armed \<and> \<not> inp ! IN_MODE_SW < Fin 0" by blast
    then show ?thesis using g(1,2)
      by (intro exI [of _ pre] exI [of _ c] exI [of _ s] exI [of _ n] exI [of _ a] exI [of _ "post @ [i]"])
        (simp add: i)
  qed
qed

text \<open>A standing robot: level, still, legs at the standing length.\<close>
definition standing_state :: svec where
  "standing_state = (replicate 23 (Fin 0))[9 := Fin 1, 19 := Fin 0.152]"

definition armed_tick :: tick where
  "armed_tick = ((\<lambda>_. 0), standing_state, replicate 5 (Fin 0), True)"

lemma armed_tick_modes:
  "rsm_mode (snd (rsm_tick cfg armed_tick (ms, rsm_new))) = ROBOT_STANDING_UP"
  by (simp add: armed_tick_def rsm_tick_mode rsm_next_mode_def rsm_new_def Let_def idx_defs)

lemma standing_pitch: "body_pitch standing_state = Fin 0"
  by (simp add: body_pitch_def standing_state_def idx_defs quat_to_euler_def mk_quat_def Let_def clampr_def)

lemma standing_standup: "lc_init c \<Longrightarrow> is_standing standing_state c"
  unfolding is_standing_def Let_def standing_pitch
  by (simp add: standing_state_def idx_defs L_STAND_M_def STAND_PHI_MAX_RAD_def STAND_VEL_MAX_MPS_def
      STAND_L_TOL_M_def)

lemma standup_update_init: "lc_init (snd (standup_update clk ms st c))"
  by (simp add: standup_shape Let_def standup_mem_def standup_reset_def)

lemma armed_tick_init: "lc_init (rsm_standup (snd (rsm_tick cfg armed_tick (ms, rsm_new))))"
proof -
  have m: "rsm_mode (rsm_entered cfg standing_state (replicate 5 (Fin 0)) True rsm_new) = ROBOT_STANDING_UP"
    by (simp add: rsm_entered_mode rsm_next_mode_def rsm_new_def Let_def idx_defs)
  show ?thesis
    by (simp add: armed_tick_def rsm_tick_def rsm_update_armed Let_def rsm_run_mode_def m case_prod_beta
        standup_update_init)
qed

theorem balancing_after_standing_witness:
  "rsm_mode (snd (rsm_run BALANCE_CTRL_LQR [armed_tick, armed_tick] (demo_ms, rsm_new))) = ROBOT_BALANCING \<and>
   (\<exists>pre post. [armed_tick, armed_tick] = pre @ armed_tick # post \<and>
     rsm_mode (snd (rsm_run BALANCE_CTRL_LQR pre (demo_ms, rsm_new))) = ROBOT_STANDING_UP)"
proof -
  let ?s = "rsm_tick BALANCE_CTRL_LQR armed_tick (demo_ms, rsm_new)"
  have "rsm_mode (snd (rsm_tick BALANCE_CTRL_LQR armed_tick ?s)) = ROBOT_BALANCING"
    using armed_tick_modes [of BALANCE_CTRL_LQR demo_ms] standing_standup [OF armed_tick_init [of BALANCE_CTRL_LQR demo_ms]]
    unfolding armed_tick_def rsm_tick_mode [of BALANCE_CTRL_LQR _ _ _ _ "rsm_tick BALANCE_CTRL_LQR _ (demo_ms, rsm_new)"]
    by (simp add: rsm_next_mode_def Let_def idx_defs)
  then have b: "rsm_mode (snd (rsm_run BALANCE_CTRL_LQR [armed_tick, armed_tick] (demo_ms, rsm_new))) = ROBOT_BALANCING" by simp
  from balancing_after_standing [OF this] obtain pre t post where
    "[armed_tick, armed_tick] = pre @ t # post" "rsm_mode (snd (rsm_run BALANCE_CTRL_LQR pre (demo_ms, rsm_new))) = ROBOT_STANDING_UP"
    by blast
  moreover from this(1) have "t = armed_tick" by (auto simp: Cons_eq_append_conv)
  ultimately show ?thesis using b by blast
qed

text \<open>Disarming stops everything in the same tick: whatever the mode, the inputs and the estimate,
the tick answers six zero torques and zero wheel speeds, the mode is idle, and if the wheels were in
velocity mode both drives, left then right, are ordered back into torque mode and nothing else is sent.\<close>
theorem disarm_stops:
  assumes "ms_entries ms = main_entries"
    "rsm_update cfg clk st inp False (ms, r) = (ts, ms', r')"
  shows "ts = replicate 6 (Fin 0) \<and> rsm_mode r' = ROBOT_IDLE \<and> rsm_wheel_vel_L r' = Fin 0 \<and>
    rsm_wheel_vel_R r' = Fin 0 \<and> \<not> rsm_wheel_velocity_mode cfg r' \<and>
    can_tx (ms_can ms') = can_tx (ms_can ms) @
      (if rsm_wheel_velocity_mode cfg r then mode_frames 2 False @ mode_frames 3 False else [])"
  using assms
  by (auto simp: rsm_update_disarmed rsm_wheel_vel_L_def rsm_wheel_vel_R_def rsm_wheel_velocity_mode_def
      wants_wheel_velocity_def rsm_switch_def Let_def both_wheels_mode_tx)

theorem disarm_stops_witness:
  "rsm_mode (snd (snd (rsm_update BALANCE_CTRL_LQR (\<lambda>_. 0) [] [] False
     (main_motors (motorsys_new (can_new (\<lambda>_. True))), rsm_new\<lparr>rsm_mode := ROBOT_CAR\<rparr>)))) = ROBOT_IDLE"
proof -
  let ?ms = "main_motors (motorsys_new (can_new (\<lambda>_. True)))"
  obtain ts ms' r' where x: "rsm_update BALANCE_CTRL_LQR (\<lambda>_. 0) [] [] False
      (?ms, rsm_new\<lparr>rsm_mode := ROBOT_CAR\<rparr>) = (ts, ms', r')" by (rule prod_cases3)
  show ?thesis using disarm_stops [OF main_motors_new(1) x] unfolding x snd_conv by blast
qed

end
