(* ===== verification/DriveMode.thy ===== *)
theory DriveMode
  imports StateMachine
begin

text \<open>
  Which controller mode the wheel drives have been commanded into, read off the frames sent: the
  state machine and the drives agree in every reachable state of the interleaved system of ticks,
  motor commands of the sending threads, status polls and received frames; a bench test breaks that (TestStop).
\<close>

section \<open>Reading the mode off the bus\<close>

definition mode_cmd :: "u8 \<Rightarrow> canbus \<times> can_frame \<Rightarrow> bool option" where
  "mode_cmd node bf = (if \<not> fr_xtd (snd bf) \<and> std_sid (snd bf) = odrive_arb_id node 0x0B
     then Some (fr_data (snd bf) ! 0 = 2) else None)"

definition drive_mode :: "u8 \<Rightarrow> (canbus \<times> can_frame) list \<Rightarrow> bool option" where
  "drive_mode node tx = fold (\<lambda>bf m. case mode_cmd node bf of None \<Rightarrow> m | Some v \<Rightarrow> Some v) tx None"

lemma drive_mode_snoc [simp]:
  "drive_mode node (tx @ [bf]) = (case mode_cmd node bf of None \<Rightarrow> drive_mode node tx | Some v \<Rightarrow> Some v)"
  by (simp add: drive_mode_def split: option.split)

lemma arb_ids: "wheel_node n \<Longrightarrow> odrive_arb_id n 0x07 < 2048 \<and> odrive_arb_id n 0x0B < 2048 \<and>
    odrive_arb_id n 0x0D < 2048 \<and> odrive_arb_id n 0x0E < 2048"
  by (auto simp: wheel_node_def odrive_arb_id_def)

lemma arb_neq: "wheel_node n \<Longrightarrow> wheel_node m \<Longrightarrow> c \<in> {0x07, 0x0D, 0x0E} \<Longrightarrow>
    odrive_arb_id n c \<noteq> odrive_arb_id m 0x0B"
  "wheel_node n \<Longrightarrow> wheel_node m \<Longrightarrow> odrive_arb_id n 0x0B = odrive_arb_id m 0x0B \<longleftrightarrow> n = m"
  by (auto simp: wheel_node_def odrive_arb_id_def)

lemma mode_cmd_data: "sid < 2048 \<Longrightarrow> mode_cmd node (b, data_frame sid d) =
    (if sid = odrive_arb_id node 0x0B then Some (d ! 0 = 2) else None)"
  using std_sid_data_frame [of sid d] by (simp add: mode_cmd_def) (simp add: data_frame_def)

lemma drive_mode_frames:
  assumes "wheel_node n" "wheel_node m"
  shows "drive_mode m (tx @ mode_frames n vel) = (if n = m then Some vel else drive_mode m tx)"
proof -
  have split: "tx @ mode_frames n vel = ((tx @ [mode_frames n vel ! 0]) @ [mode_frames n vel ! 1]) @ [mode_frames n vel ! 2]"
    by (simp add: mode_frames_def)
  show ?thesis
    unfolding split drive_mode_snoc
    using arb_ids [OF assms(1)] arb_neq(1) [OF assms, of 7] arb_neq(2) [OF assms]
    by (auto simp: mode_frames_def mode_cmd_data le_bytes32_def)
qed

section \<open>Commands that are not mode commands\<close>

text \<open>A step that leaves the table alone and sends no mode command to a wheel drive.\<close>
definition mode_silent :: "motorsys \<Rightarrow> motorsys \<Rightarrow> bool" where
  "mode_silent ms ms' \<longleftrightarrow> ms_entries ms' = ms_entries ms \<and>
     (\<forall>n. wheel_node n \<longrightarrow> drive_mode n (can_tx (ms_can ms')) = drive_mode n (can_tx (ms_can ms)))"

lemma mode_silent_refl [simp]: "mode_silent ms ms"
  by (simp add: mode_silent_def)

lemma mode_silent_trans: "mode_silent a b \<Longrightarrow> mode_silent b c \<Longrightarrow> mode_silent a c"
  by (simp add: mode_silent_def)

lemma mode_silent_tx: "ms_can ms' = ms_can ms \<Longrightarrow> ms_entries ms' = ms_entries ms \<Longrightarrow> mode_silent ms ms'"
  by (simp add: mode_silent_def)

lemma mode_silent_send:
  assumes "length d = 8" "sid < 2048" "sid \<noteq> odrive_arb_id 2 0x0B" "sid \<noteq> odrive_arb_id 3 0x0B"
  shows "mode_silent ms (snd (ms_send sid d ms))"
  using assms by (auto simp: mode_silent_def mode_cmd_data wheel_node_def)

lemma mode_silent_record: "mode_silent ms (snd r) \<Longrightarrow> mode_silent ms (record_after k r)"
  by (simp add: mode_silent_def)

lemma hip_sid: "hip_id i \<Longrightarrow> (0x140 + ucast i :: u32) < 2048 \<and> 0x140 + ucast i \<noteq> odrive_arb_id 2 0x0B \<and>
    (0x140 + ucast i :: u32) \<noteq> odrive_arb_id 3 0x0B"
  using hip_id_cases [of i] by (auto simp: odrive_arb_id_def)

lemma length_f32_bytes [simp]: "length (f32_bytes x) = 4"
  by (simp add: f32_bytes_def le_bytes32_def)

lemma wheel_silent_send:
  assumes "wheel_node n" "c = 0x0D \<or> c = 0x0E" "length d = 8"
  shows "mode_silent ms (snd (ms_send (odrive_arb_id n c) d ms))"
proof (rule mode_silent_send [OF assms(3)])
  have w: "wheel_node 2" "wheel_node 3" by (simp_all add: wheel_node_def)
  show "odrive_arb_id n c < 2048" using assms(2) arb_ids [OF assms(1)] by auto
  show "odrive_arb_id n c \<noteq> odrive_arb_id 2 0x0B" "odrive_arb_id n c \<noteq> odrive_arb_id 3 0x0B"
    using assms(2) arb_neq(1) [OF assms(1) w(1), of c] arb_neq(1) [OF assms(1) w(2), of c] by auto
qed

lemma set_torque_silent:
  assumes "ms_entries ms = main_entries"
  shows "mode_silent ms (snd (can_motor_set_torque i t ms))"
proof (cases "find_entry ms i")
  case None
  then show ?thesis by (simp add: can_motor_set_torque_def)
next
  case (Some k)
  note m = main_find(7-9) [OF assms Some]
  show ?thesis
  proof (cases "me_proto (entry ms k)")
    case CAN_MOTOR_RMD
    then show ?thesis using Some hip_sid [OF m(1)]
      by (simp add: can_motor_set_torque_def rmd_send_torque_def rmd_send_torque_raw_def Let_def
          mode_silent_record mode_silent_send)
  next
    case CAN_MOTOR_ODRIVE
    then show ?thesis using Some m(2)
      by (simp add: can_motor_set_torque_def odrive_send_torque_def Let_def ODRIVE_CMD_SET_INPUT_TORQUE_def
          mode_silent_record wheel_silent_send)
  qed (use m in simp)
qed

lemma set_velocity_silent:
  assumes "ms_entries ms = main_entries"
  shows "mode_silent ms (snd (can_motor_set_velocity i v ms))"
proof (cases "find_entry ms i")
  case None
  then show ?thesis by (simp add: can_motor_set_velocity_def)
next
  case (Some k)
  note m = main_find(7-9) [OF assms Some]
  show ?thesis
  proof (cases "me_proto (entry ms k)")
    case CAN_MOTOR_RMD
    then show ?thesis using Some hip_sid [OF m(1)]
      by (simp add: can_motor_set_velocity_def rmd_send_velocity_def Let_def le_bytes32_def
          case_prod_beta mode_silent_record mode_silent_send)
  next
    case CAN_MOTOR_ODRIVE
    then show ?thesis using Some m(2)
      by (simp add: can_motor_set_velocity_def odrive_send_velocity_def Let_def ODRIVE_CMD_SET_INPUT_VEL_def
          mode_silent_record wheel_silent_send)
  qed (use m in simp)
qed

lemma broadcast_silent: "mode_silent ms (snd (can_motor_set_hip_torques_broadcast ts ms))"
proof -
  have rec: "mode_silent a (fold (\<lambda>k. motor_record_tx k ok) ks b)" if "mode_silent a b" for a b ok ks
    using that
  proof (induction ks arbitrary: b)
    case (Cons k ks)
    have "mode_silent b (motor_record_tx k ok b)" by (rule mode_silent_tx) simp_all
    then show ?case using Cons mode_silent_trans by simp
  qed simp
  have send: "mode_silent ms (snd (rmd_send_torque_broadcast r ms))" for r
    unfolding rmd_send_torque_broadcast_def
    by (intro mode_silent_send) (simp_all add: upt4 le_bytes16_def odrive_arb_id_def)
  show ?thesis
    by (cases "rmd_entry ms 1"; cases "rmd_entry ms 2"; cases "rmd_entry ms 3"; cases "rmd_entry ms 4")
      (simp_all only: can_motor_set_hip_torques_broadcast_def option.simps(4,5) prod.case Let_def case_prod_beta
        fst_conv snd_conv mode_silent_refl rec send)
qed

lemma poll_silent:
  assumes "ms_entries ms = main_entries"
  shows "mode_silent ms (can_motor_poll_status_round_robin ms)"
proof -
  have silent: "mode_silent ms (rmd_send_status_request i ms)" if "hip_id i" for i
    using hip_sid [OF that] by (auto simp: rmd_send_status_request_def intro!: mode_silent_send)
  have id: "hip_id (me_id (entry ms k))" if "me_proto (entry ms k) = CAN_MOTOR_RMD" "k < 6" for k
    using that assms by (auto simp: entry_def main_entries_def hip_id_def nth_Cons' split: if_splits)
  define xs where "xs = map (\<lambda>k. (ms_next ms + k) mod length (ms_entries ms)) [0..<length (ms_entries ms)]"
  have len: "length (ms_entries ms) = 6" using assms by (simp add: main_entries_def)
  have "hip_id (me_id (entry ms i))" if "find (\<lambda>i. me_proto (entry ms i) = CAN_MOTOR_RMD) xs = Some i" for i
    using that len by (intro id) (auto simp: find_Some_iff xs_def)
  then have "mode_silent ms (case find (\<lambda>i. me_proto (entry ms i) = CAN_MOTOR_RMD) xs of None \<Rightarrow> ms
      | Some i \<Rightarrow> (rmd_send_status_request (me_id (entry ms i)) ms)\<lparr>ms_next := (i + 1) mod length (ms_entries ms)\<rparr>)"
    using silent by (auto simp: mode_silent_def split: option.split)
  moreover have "can_motor_poll_status_round_robin ms =
      (case find (\<lambda>i. me_proto (entry ms i) = CAN_MOTOR_RMD) xs of None \<Rightarrow> ms
      | Some i \<Rightarrow> (rmd_send_status_request (me_id (entry ms i)) ms)\<lparr>ms_next := (i + 1) mod length (ms_entries ms)\<rparr>)"
    using len by (auto simp: can_motor_poll_status_round_robin_def Let_def xs_def split: option.split)
  ultimately show ?thesis by (simp only:)
qed

lemma rx_silent: "mode_silent ms (run_motor_cb cb f ms)"
  by (rule mode_silent_tx)
    (simp_all add: run_motor_cb_def rmd_rx_cb_def odrive_rx_cb_def sdc102_rx_cb_def upd_motor_def Let_def
      split: can_cb.split)

section \<open>The reachable states\<close>

text \<open>The control thread's ticks, interleaved in any order with the motor commands of the sending
threads, the status poll and the receive callbacks.\<close>
inductive robot_reach :: "balance_ctrl \<Rightarrow> motorsys \<Rightarrow> rsm \<Rightarrow> bool" for cfg where
  boot: "can_tx c = [] \<Longrightarrow> robot_reach cfg (main_motors (motorsys_new c)) rsm_new"
| tick: "robot_reach cfg ms r \<Longrightarrow> rsm_update cfg clk st inp armed (ms, r) = (ts, ms', r') \<Longrightarrow>
     robot_reach cfg ms' r'"
| torque: "robot_reach cfg ms r \<Longrightarrow> robot_reach cfg (snd (can_motor_set_torque i t ms)) r"
| velocity: "robot_reach cfg ms r \<Longrightarrow> robot_reach cfg (snd (can_motor_set_velocity i v ms)) r"
| broadcast: "robot_reach cfg ms r \<Longrightarrow> robot_reach cfg (snd (can_motor_set_hip_torques_broadcast ts ms)) r"
| poll: "robot_reach cfg ms r \<Longrightarrow> robot_reach cfg (can_motor_poll_status_round_robin ms) r"
| rx: "robot_reach cfg ms r \<Longrightarrow> robot_reach cfg (run_motor_cb cb f ms) r"

definition drive_inv :: "balance_ctrl \<Rightarrow> motorsys \<Rightarrow> rsm \<Rightarrow> bool" where
  "drive_inv cfg ms r \<longleftrightarrow> ms_entries ms = main_entries \<and>
     (\<forall>n. wheel_node n \<longrightarrow> drive_mode n (can_tx (ms_can ms)) = Some (wants_wheel_velocity cfg (rsm_mode r)))"

lemma drive_inv_silent: "drive_inv cfg ms r \<Longrightarrow> (ms_entries ms = main_entries \<Longrightarrow> mode_silent ms ms') \<Longrightarrow>
    drive_inv cfg ms' r"
  by (simp add: drive_inv_def mode_silent_def)

lemma both_wheels_drive:
  assumes "ms_entries ms = main_entries" "wheel_node n"
  shows "drive_mode n (can_tx (ms_can (both_wheels_mode v ms))) = Some v"
proof -
  have "drive_mode n ((can_tx (ms_can ms) @ mode_frames 2 v) @ mode_frames 3 v) = Some v"
    using assms(2) drive_mode_frames [of 3 n] drive_mode_frames [of 2 n]
    by (auto simp: wheel_node_def simp del: append_assoc)
  then show ?thesis by (simp only: both_wheels_mode_tx(2) [OF assms(1)] append_assoc)
qed

lemma drive_inv_switch:
  assumes "drive_inv cfg ms r" "rsm_mode r' = m"
  shows "drive_inv cfg (rsm_switch cfg (rsm_mode r) m ms) r'"
  using assms both_wheels_mode_tx(1) both_wheels_drive
  by (auto simp: drive_inv_def rsm_switch_def Let_def)

lemma drive_inv_boot:
  assumes "can_tx c = []"
  shows "drive_inv cfg (main_motors (motorsys_new c)) rsm_new"
proof -
  have "drive_mode n (tl (mode_frames 2 False) @ tl (mode_frames 3 False)) = Some False" if "n = 2 \<or> n = 3" for n
    using that by (elim disjE)
      (simp_all add: drive_mode_def mode_frames_def mode_cmd_data odrive_arb_id_def le_bytes32_def)
  then show ?thesis
    by (simp add: drive_inv_def main_motors_new assms wheel_node_def rsm_new_def wants_wheel_velocity_def)
qed

lemma robot_reach_drive_inv: "robot_reach cfg ms r \<Longrightarrow> drive_inv cfg ms r"
proof (induction rule: robot_reach.induct)
  case (boot c)
  then show ?case by (rule drive_inv_boot)
next
  case (tick ms r clk st inp armed ts ms' r')
  have "ms' = rsm_switch cfg (rsm_mode r) (rsm_next_mode st inp armed r) ms"
    "rsm_mode r' = rsm_next_mode st inp armed r"
    using rsm_update_ms [of cfg clk st inp armed ms r] rsm_update_mode [of cfg clk st inp armed ms r] tick(2)
    by (simp_all only: fst_conv snd_conv)
  then show ?case using drive_inv_switch [OF tick.IH] by (simp only:)
next
  case (torque ms r i t)
  show ?case by (rule drive_inv_silent [OF torque.IH set_torque_silent])
next
  case (velocity ms r i v)
  show ?case by (rule drive_inv_silent [OF velocity.IH set_velocity_silent])
next
  case (broadcast ms r ts)
  show ?case by (rule drive_inv_silent [OF broadcast.IH broadcast_silent])
next
  case (poll ms r)
  show ?case by (rule drive_inv_silent [OF poll.IH poll_silent])
next
  case (rx ms r cb f)
  show ?case by (rule drive_inv_silent [OF rx.IH rx_silent])
qed

text \<open>C12. The mode the wheel drives were last ordered into is always the one the state machine works
with: from start-up, however its ticks interleave with torque and velocity commands, hip broadcasts,
status polls and received frames, both drives are in velocity mode exactly when the state machine
sends velocities.\<close>
theorem drive_mode_tracks:
  assumes "robot_reach cfg ms r"
  shows "drive_mode 2 (can_tx (ms_can ms)) = Some (rsm_wheel_velocity_mode cfg r) \<and>
    drive_mode 3 (can_tx (ms_can ms)) = Some (rsm_wheel_velocity_mode cfg r)"
  using robot_reach_drive_inv [OF assms]
  by (simp add: drive_inv_def wheel_node_def rsm_wheel_velocity_mode_def)

definition boot_ms :: motorsys where
  "boot_ms = main_motors (motorsys_new (can_new (\<lambda>_. True)))"

definition car_tick :: tick where
  "car_tick = ((\<lambda>_. 0), standing_state, (replicate 5 (Fin 0))[4 := Fin (- 1)], True)"

lemma boot_reach: "robot_reach cfg boot_ms rsm_new"
  unfolding boot_ms_def by (rule boot) (simp add: can_new_def)

lemma tick_reach: "robot_reach cfg ms r \<Longrightarrow>
    robot_reach cfg (fst (rsm_tick cfg i (ms, r))) (snd (rsm_tick cfg i (ms, r)))"
proof (cases i)
  case (fields clk st inp armed)
  obtain ts ms' r' where u: "rsm_update cfg clk st inp armed (ms, r) = (ts, ms', r')" by (rule prod_cases3)
  assume "robot_reach cfg ms r"
  from robot_reach.tick [OF this u] show ?thesis by (simp add: fields rsm_tick_def u)
qed

lemma car_tick_mode: "rsm_mode (snd (rsm_tick cfg car_tick s)) = ROBOT_CAR"
  by (simp add: car_tick_def rsm_tick_mode rsm_next_mode_def idx_defs)

theorem drive_mode_tracks_witness:
  "drive_mode 2 (can_tx (ms_can (fst (rsm_tick BALANCE_CTRL_LQR car_tick (boot_ms, rsm_new))))) = Some True"
  using drive_mode_tracks [OF tick_reach [OF boot_reach], of BALANCE_CTRL_LQR car_tick]
  by (simp add: rsm_wheel_velocity_mode_def car_tick_mode wants_wheel_velocity_def)

section \<open>Every run is bounded\<close>

text \<open>The memory of all controllers well-formed, every wheel target finite and within 55 rad/s.\<close>
definition rsm_ok :: "rsm \<Rightarrow> bool" where
  "rsm_ok r \<longleftrightarrow> balance_ok (rsm_balance r) \<and> leg_ok (rsm_standup r) \<and>
     fin_le 55 (lc_vel_L (rsm_standup r)) \<and> fin_le 55 (lc_vel_R (rsm_standup r)) \<and>
     fin_le 55 (lc_vel_L (bc_lqr (rsm_balance r))) \<and> fin_le 55 (lc_vel_R (bc_lqr (rsm_balance r))) \<and>
     fin_le 55 (car_vel_L (rsm_car r)) \<and> fin_le 55 (car_vel_R (rsm_car r))"

lemma fin_le_Fin [simp]: "fin_le b (Fin x) \<longleftrightarrow> \<bar>x\<bar> \<le> b" by (simp add: fin_le_def)

lemma rsm_new_ok: "rsm_ok rsm_new"
  by (simp add: rsm_ok_def rsm_new_def balance_new_ok leg_ctrl_new_ok) (simp add: leg_ctrl_new_def
      balance_new_def car_new_def)

lemma standup_reset_vel [simp]: "lc_vel_L (standup_reset st c) = Fin 0" "lc_vel_R (standup_reset st c) = Fin 0"
  by (simp_all add: standup_reset_def Let_def)

lemma rsm_enter_ok: "rsm_ok r \<Longrightarrow> st_fin st \<Longrightarrow> rsm_ok (rsm_enter cfg st p m r)"
  by (simp add: rsm_ok_def rsm_enter_def balance_reset_def balance_ok_def standup_reset_ok lqr_reset_eq
      car_reset_def)

lemma rsm_entered_ok: "rsm_ok r \<Longrightarrow> st_fin st \<Longrightarrow> rsm_ok (rsm_entered cfg st inp armed r)"
  using rsm_enter_ok [of "r\<lparr>rsm_mode := m\<rparr>" st for m] by (simp add: rsm_entered_def Let_def rsm_ok_def)

lemma rsm_run_mode_ok:
  assumes "rsm_ok r" "st_fin st" "motors_fin ms" "inp_fin inp"
  shows "rsm_ok (snd (rsm_run_mode cfg clk st inp ms r)) \<and> length (fst (rsm_run_mode cfg clk st inp ms r)) = 6 \<and>
    (\<forall>t \<in> set (fst (rsm_run_mode cfg clk st inp ms r)). fin_le 9 t)"
proof (cases "rsm_mode r")
  case ROBOT_IDLE
  then show ?thesis using assms by (simp add: rsm_run_mode_def)
next
  case ROBOT_STANDING_UP
  have c: "leg_ok (rsm_standup r)" using assms(1) by (simp add: rsm_ok_def)
  note f = standup_fin [OF c assms(2,3), of clk] and a = standup_any [of clk ms st "rsm_standup r"]
  have "fin_le 55 (lc_vel_L (snd (standup_update clk ms st (rsm_standup r))))"
    "fin_le 55 (lc_vel_R (snd (standup_update clk ms st (rsm_standup r))))"
    using f(1) a(3,4) by (simp_all add: fin_le_def leg_ok_def)
  then show ?thesis using assms(1) f a(1,2) ROBOT_STANDING_UP
    by (simp add: rsm_run_mode_def case_prod_beta Let_def rsm_ok_def fin_le_def)
next
  case ROBOT_BALANCING
  have b: "balance_ok (rsm_balance r)" using assms(1) by (simp add: rsm_ok_def)
  note f = balance_fin [OF b assms(2-4), of cfg clk] and a = balance_any [of cfg clk ms st inp "rsm_balance r"]
  have "leg_ok (bc_lqr (snd (balance_update cfg clk ms st inp (rsm_balance r))))"
    using f(1) by (simp add: balance_ok_def)
  then have "fin_le 55 (lc_vel_L (bc_lqr (snd (balance_update cfg clk ms st inp (rsm_balance r)))))"
    "fin_le 55 (lc_vel_R (bc_lqr (snd (balance_update cfg clk ms st inp (rsm_balance r)))))"
    using assms(1) lqr_any(3,4) [of clk ms st inp "bc_lqr (rsm_balance r)"]
    by (cases cfg; simp add: balance_update_cases fin_le_def leg_ok_def rsm_ok_def)+
  then show ?thesis using assms(1) f a(1,2) ROBOT_BALANCING
    by (simp add: rsm_run_mode_def case_prod_beta Let_def rsm_ok_def fin_le_def)
next
  case ROBOT_CAR
  then show ?thesis using assms(1) car_update_le [of inp] car_update_fin [OF assms(4)]
    by (simp add: rsm_run_mode_def rsm_ok_def fin_le_def)
qed

text \<open>The state machine as a source of torques: each tick with the motor table it finds.\<close>
type_synonym rsm_in = "(nat \<Rightarrow> u32) \<times> motorsys \<times> svec \<times> flt list \<times> bool"

definition rsm_step :: "balance_ctrl \<Rightarrow> rsm_in \<Rightarrow> rsm \<Rightarrow> flt list \<times> rsm" where
  "rsm_step cfg i r = (case i of (clk, ms, st, inp, armed) \<Rightarrow>
     let (ts, s) = rsm_update cfg clk st inp armed (ms, r) in (ts, snd s))"

definition rsm_in_fin :: "rsm_in \<Rightarrow> bool" where
  "rsm_in_fin i = (case i of (clk, ms, st, inp, armed) \<Rightarrow> tick_fin (clk, ms, st, inp))"

lemma motors_fin_switch: "motors_fin (rsm_switch cfg p m ms) = motors_fin ms"
  by (simp add: motors_fin_def hips_fin_def wheels_fin_def)

lemma rsm_step_ok:
  assumes "rsm_ok r" "rsm_in_fin i"
  shows "rsm_ok (snd (rsm_step cfg i r)) \<and> (\<forall>t \<in> set (fst (rsm_step cfg i r)). fin_le 9 t)"
proof -
  obtain clk ms st inp armed where i: "i = (clk, ms, st, inp, armed)" by (cases i) auto
  have fin: "st_fin st" "motors_fin ms" "inp_fin inp" using assms(2) by (simp_all add: i rsm_in_fin_def tick_fin_def)
  show ?thesis
  proof (cases armed)
    case True
    have ms: "motors_fin (rsm_switch cfg (rsm_mode r) (rsm_next_mode st inp True r) ms)"
      using fin(2) by (simp add: motors_fin_switch)
    have ok: "rsm_ok (rsm_entered cfg st inp True r)" by (rule rsm_entered_ok [OF assms(1) fin(1)])
    show ?thesis
      using rsm_run_mode_ok [OF ok fin(1) ms fin(3), of cfg clk] True
      by (simp add: i rsm_step_def rsm_update_armed Let_def case_prod_beta)
  next
    case False
    then show ?thesis using assms(1) by (simp add: i rsm_step_def rsm_update_disarmed rsm_ok_def)
  qed
qed

lemma rsm_step_six: "length (fst (rsm_step cfg i r)) = 6"
proof -
  obtain clk ms st inp armed where i: "i = (clk, ms, st, inp, armed)" by (cases i) auto
  have "length (fst (rsm_run_mode cfg clk st inp ms r)) = 6" for ms r
    using standup_any(1) balance_any(1) by (cases "rsm_mode r") (simp_all add: rsm_run_mode_def case_prod_beta Let_def)
  then show ?thesis
    by (cases armed) (simp_all add: i rsm_step_def rsm_update_armed rsm_update_disarmed Let_def case_prod_beta)
qed

interpretation robot: torque_source "rsm_step cfg" rsm_ok rsm_in_fin "fin_le 9" for cfg
  by unfold_locales (simp_all add: rsm_step_ok rsm_step_six)

text \<open>Bounded commands over every run: from start-up, whatever modes the robot goes through and
whichever balance controller is built in, as long as the estimates, stick inputs and motor readings
are finite numbers every torque of every tick is a finite number of at most 9 Nm, and the wheel speeds
offered to the wheel thread are finite and at most 55 rad/s.\<close>
theorem robot_run_bounded:
  assumes "\<forall>i \<in> set is. rsm_in_fin i" "robot.run cfg is rsm_new = (tss, r)"
  shows "(\<forall>ts \<in> set tss. length ts = 6 \<and> (\<forall>t \<in> set ts. \<exists>x. t = Fin x \<and> \<bar>x\<bar> \<le> 9)) \<and>
    (\<exists>x y. rsm_wheel_vel_L r = Fin x \<and> rsm_wheel_vel_R r = Fin y \<and> \<bar>x\<bar> \<le> 55 \<and> \<bar>y\<bar> \<le> 55)"
proof -
  have run: "rsm_ok r" "\<forall>ts \<in> set tss. length ts = 6 \<and> (\<forall>t \<in> set ts. fin_le 9 t)"
    using robot.run_sound [OF rsm_new_ok assms(1), of cfg] assms(2) by simp_all
  have "fin_le b t \<Longrightarrow> \<exists>x. t = Fin x \<and> \<bar>x\<bar> \<le> b" for b t by (auto simp: fin_le_def elim: isfinE)
  moreover have "fin_le 55 (rsm_wheel_vel_L r)" "fin_le 55 (rsm_wheel_vel_R r)"
    using run(1) by (cases "rsm_mode r"; simp add: rsm_ok_def rsm_wheel_vel_L_def rsm_wheel_vel_R_def)+
  ultimately show ?thesis using run(2) by metis
qed

definition demo_in :: rsm_in where
  "demo_in = ((\<lambda>_. 0), motorsys_new (can_new (\<lambda>_. True)), standing_state, replicate 5 (Fin 0), True)"

theorem robot_run_bounded_witness:
  "\<exists>ts. fst (robot.run BALANCE_CTRL_LQR [demo_in] rsm_new) = [ts] \<and> length ts = 6 \<and> (\<forall>t \<in> set ts. \<exists>x. t = Fin x \<and> \<bar>x\<bar> \<le> 9)"
proof -
  have "can_motor_get_state i (motorsys_new c) = None" for i c
    by (simp add: can_motor_get_state_def find_entry_def motorsys_new_def)
  then have "rsm_in_fin demo_in"
    by (simp add: demo_in_def rsm_in_fin_def tick_fin_def motors_fin_def hips_fin_def wheels_fin_def
        st_fin_def inp_fin_def standing_state_def ST_N_def N_INPUTS_def numeral_eq_Suc)
  then show ?thesis
    using robot_run_bounded [of "[demo_in]" BALANCE_CTRL_LQR] by (auto simp: Let_def case_prod_beta)
qed

end
