(* ===== verification/LegRamp.thy ===== *)
theory LegRamp
  imports TorqueSource
begin

text \<open>
  The leg-length ramps of the stand-up and the LQR controller over whole runs of ticks.
\<close>

definition standup_run :: "tick_in list \<Rightarrow> leg_ctrl \<Rightarrow> leg_ctrl" where
  "standup_run is c = fold (\<lambda>i c. snd (standup_step i c)) is c"

definition lqr_run :: "tick_in list \<Rightarrow> leg_ctrl \<Rightarrow> leg_ctrl" where
  "lqr_run is c = fold (\<lambda>(clk, ms, st, inp) c. snd (lqr_update clk ms st inp c)) is c"

lemma standup_step_ramp:
  assumes "lc_init c" "lc_L_cmd c = Fin (0.152 + e)"
  shows "lc_init (snd (standup_step i c)) \<and> lc_L_cmd (snd (standup_step i c)) = Fin (0.152 + 0.99 * e)"
  using assms by (cases i)
    (simp add: standup_step_def standup_shape Let_def standup_mem_def ramp_def SU_TAU_L_S_def L_STAND_M_def DT_S_def)

lemma standup_run_ramp:
  assumes "lc_init c" "lc_L_cmd c = Fin (0.152 + e)"
  shows "lc_L_cmd (standup_run is c) = Fin (0.152 + 0.99 ^ length is * e)"
  using assms
proof (induction "is" arbitrary: c e)
  case (Cons i "is")
  from standup_step_ramp [OF Cons.prems, of i]
  have "lc_L_cmd (standup_run is (snd (standup_step i c))) = Fin (0.152 + 0.99 ^ length is * (0.99 * e))"
    using Cons.IH by blast
  then show ?case by (simp add: standup_run_def mult.assoc mult.left_commute)
qed (simp add: standup_run_def)

lemma pow_99_400: "(99 / 100 :: real) ^ 400 * (1 / 4) < 1 / 200"
proof -
  have "(99 / 100 :: real) ^ 20 \<le> 82 / 100" by (simp add: power_divide)
  then have "((99 / 100 :: real) ^ 20) ^ 20 \<le> (82 / 100) ^ 20" by (rule power_mono) simp
  also have "(82 / 100 :: real) ^ 20 < 1 / 50" by (simp add: power_divide)
  finally have "(99 / 100 :: real) ^ (20 * 20) < 1 / 50" unfolding power_mult .
  then have "(99 / 100 :: real) ^ 400 < 1 / 50" unfolding numeral_times_numeral num_double semiring_norm
    by simp
  then show ?thesis by simp
qed

text \<open>C16. Standing up is a ramp that arrives: whatever the robot measures meanwhile, the commanded leg
length after n ticks is the standing length plus 0.99 to the n of the initial offset, and from any
length within 25 cm of it 400 ticks (four seconds at the tick of 10 ms) bring it within the 5 mm
tolerance of the standing test and keep it there.\<close>
theorem standup_ramp_arrives:
  assumes "lc_init c" "lc_L_cmd c = Fin L"
  shows "\<exists>x. lc_L_cmd (standup_run is c) = Fin x \<and> x = 0.152 + 0.99 ^ length is * (L - 0.152) \<and>
    (\<bar>L - 0.152\<bar> \<le> 0.25 \<and> 400 \<le> length is \<longrightarrow> \<bar>x - 0.152\<bar> < 0.005)"
proof -
  let ?p = "(99 / 100 :: real) ^ length is"
  have "lc_L_cmd c = Fin (0.152 + (L - 0.152))" using assms(2) by simp
  note run = standup_run_ramp [OF assms(1) this, of "is"]
  have "\<bar>?p * e\<bar> < 1 / 200" if "\<bar>e\<bar> \<le> 1 / 4" "400 \<le> length is" for e
  proof -
    have "?p \<le> (99 / 100) ^ 400" using that(2) by (intro power_decreasing) simp_all
    then have "?p * \<bar>e\<bar> \<le> (99 / 100) ^ 400 * (1 / 4)" using that(1) by (intro mult_mono) simp_all
    also note pow_99_400
    finally show ?thesis by (simp add: abs_mult)
  qed
  then show ?thesis using run by simp
qed

theorem standup_ramp_arrives_witness:
  "\<exists>x. lc_L_cmd (standup_run (replicate 400 ((\<lambda>_. 0), demo_ms, replicate 23 (Fin 0), replicate 5 (Fin 0)))
      (leg_ctrl_new\<lparr>lc_init := True, lc_L_cmd := Fin 0.1\<rparr>)) = Fin x \<and> \<bar>x - 0.152\<bar> < 0.005"
proof -
  define c :: leg_ctrl where "c = leg_ctrl_new\<lparr>lc_init := True, lc_L_cmd := Fin 0.1\<rparr>"
  define i :: "tick_in list" where "i = replicate 400 ((\<lambda>_. 0 :: u32), demo_ms, replicate 23 (Fin 0), replicate 5 (Fin 0))"
  have "lc_init c" "lc_L_cmd c = Fin 0.1" by (simp_all add: c_def)
  from standup_ramp_arrives [OF this, of i]
  obtain x where x: "lc_L_cmd (standup_run i c) = Fin x"
    "\<bar>0.1 - 0.152\<bar> \<le> (0.25 :: real) \<and> 400 \<le> length i \<longrightarrow> \<bar>x - 0.152\<bar> < 0.005" by blast
  have "400 \<le> length i" unfolding i_def length_replicate by (rule order.refl)
  with x(2) have "\<bar>x - 0.152\<bar> < 0.005" by simp
  with x(1) show ?thesis unfolding i_def c_def by blast
qed

text \<open>The height stick cannot take the leg out of its range: from a commanded length between 10 and
20 cm every run of the LQR controller, with any finite stick positions, however far outside their
nominal range, keeps the command between 10 and 20 cm.\<close>
theorem lqr_height_range:
  assumes "lc_init c" "lc_L_cmd c = Fin L" "0.1 \<le> L" "L \<le> 0.2"
    "\<forall>(clk, ms, st, inp) \<in> set is. isfin (inp ! IN_HEIGHT_SET)"
  shows "\<exists>x. lc_L_cmd (lqr_run is c) = Fin x \<and> 0.1 \<le> x \<and> x \<le> 0.2"
  using assms
proof (induction "is" arbitrary: c L)
  case (Cons i "is")
  obtain clk ms st inp where i: "i = (clk, ms, st, inp)" by (cases i) auto
  obtain h where h: "inp ! IN_HEIGHT_SET = Fin h" using Cons.prems(5) by (auto simp: i elim: isfinE)
  define t where "t = clampr (0.152 + h * 0.05) 0.1 0.2"
  have t: "0.1 \<le> t" "t \<le> 0.2" using clampr_bounds [of "0.1" "0.2"] by (simp_all add: t_def)
  have "lqr_height inp = Fin t"
    by (simp add: lqr_height_def h t_def L_STAND_M_def HEIGHT_RANGE_M_def L_MIN_M_def L_MAX_M_def)
  then have s: "lc_init (snd (lqr_update clk ms st inp c))"
    "lc_L_cmd (snd (lqr_update clk ms st inp c)) = Fin (L + 0.02 * (t - L))"
    using Cons.prems by (simp_all add: lqr_shape Let_def lqr_mem_def ramp_def LQ_TAU_L_S_def DT_S_def)
  have e: "L + 0.02 * (t - L) = 49 / 50 * L + 1 / 50 * t" by (simp add: field_simps)
  have "0.1 \<le> L + 0.02 * (t - L)" "L + 0.02 * (t - L) \<le> 0.2"
    unfolding e using t Cons.prems(3,4) by (simp_all add: field_simps)
  from Cons.IH [OF s this] Cons.prems(5) show ?case by (simp add: lqr_run_def i)
qed (simp add: lqr_run_def)

theorem lqr_height_range_witness:
  "\<exists>x. lc_L_cmd (lqr_run [((\<lambda>_. 0), demo_ms, replicate 23 (Fin 0), [Fin 0, Fin 0, Fin 7, Fin 0, Fin 0])]
      (leg_ctrl_new\<lparr>lc_init := True\<rparr>)) = Fin x \<and> 0.1 \<le> x \<and> x \<le> 0.2"
  by (rule lqr_height_range [where L = "0.152"]) (simp_all add: leg_ctrl_new_def L_STAND_M_def IN_HEIGHT_SET_def)

end
