(* ===== verification/Ekf.thy ===== *)
theory Ekf
  imports MathLib
begin

text \<open>
  The extended Kalman filter of one IMU lane (src/src/state_estimator/EKF.cpp and EKF.hpp): sixteen
  states, their covariance, the prediction from accelerometer and gyroscope and the measurement
  updates.  The state vector is a function of the index, a matrix one of row and column, and every
  loop of the source is a loop here.  A local measurement array (innov, R_diag) is a list.
\<close>

section \<open>State\<close>

type_synonym vec = "nat \<Rightarrow> flt"

abbreviation EKF_N :: nat where "EKF_N \<equiv> 16"
abbreviation iX :: nat where "iX \<equiv> 0"
abbreviation iY :: nat where "iY \<equiv> 1"
abbreviation iZ :: nat where "iZ \<equiv> 2"
abbreviation iU :: nat where "iU \<equiv> 3"
abbreviation iV :: nat where "iV \<equiv> 4"
abbreviation iW :: nat where "iW \<equiv> 5"
abbreviation iQ0 :: nat where "iQ0 \<equiv> 6"
abbreviation iQ1 :: nat where "iQ1 \<equiv> 7"
abbreviation iQ2 :: nat where "iQ2 \<equiv> 8"
abbreviation iQ3 :: nat where "iQ3 \<equiv> 9"
abbreviation iBax :: nat where "iBax \<equiv> 10"
abbreviation iBay :: nat where "iBay \<equiv> 11"
abbreviation iBaz :: nat where "iBaz \<equiv> 12"
abbreviation iBgx :: nat where "iBgx \<equiv> 13"
abbreviation iBgy :: nat where "iBgy \<equiv> 14"
abbreviation iBgz :: nat where "iBgz \<equiv> 15"

definition GRAVITY :: flt where "GRAVITY = Fin 9.80665"
definition P0_POS :: flt where "P0_POS = Fin 1"
definition P0_VEL :: flt where "P0_VEL = Fin 0.5"
definition P0_QUAT :: flt where "P0_QUAT = Fin 0.1"
definition P0_BIAS_A :: flt where "P0_BIAS_A = Fin 0.01"
definition P0_BIAS_G :: flt where "P0_BIAS_G = Fin (1 / 10 ^ 4)"
definition Q_POS :: flt where "Q_POS = Fin (1 / 10 ^ 4)"
definition Q_VEL :: flt where "Q_VEL = Fin (1 / 10 ^ 3)"
definition Q_QUAT :: flt where "Q_QUAT = Fin (1 / 10 ^ 5)"
definition Q_BIAS_G :: flt where "Q_BIAS_G = Fin (1 / 10 ^ 9)"
definition Q_BIAS_A :: flt where "Q_BIAS_A = Fin (1 / 10 ^ 7)"
definition GRAV_HARD_GATE :: flt where "GRAV_HARD_GATE = Fin 3 * GRAVITY"
definition GRAV_CHI2_GATE :: flt where "GRAV_CHI2_GATE = Fin 5"
definition GRAV_R_VIBE :: flt where "GRAV_R_VIBE = Fin 0.25"
definition GRAV_VIBE_ALPHA :: flt where "GRAV_VIBE_ALPHA = Fin 0.02"
definition P_MIN_BIAS_G :: flt where "P_MIN_BIAS_G = Fin (1 / 10 ^ 12)"
definition P_MAX_BIAS_G :: flt where "P_MAX_BIAS_G = Fin 0.25"
definition P_MIN_BIAS_A :: flt where "P_MIN_BIAS_A = Fin (1 / 10 ^ 12)"
definition P_MAX_BIAS_A :: flt where "P_MAX_BIAS_A = Fin 1"
definition P_MIN_QUAT :: flt where "P_MIN_QUAT = Fin (1 / 10 ^ 12)"
definition INNOV_SMOOTH :: flt where "INNOV_SMOOTH = Fin 0.9"

lemmas ekf_consts = GRAVITY_def P0_POS_def P0_VEL_def P0_QUAT_def P0_BIAS_A_def P0_BIAS_G_def
  Q_POS_def Q_VEL_def Q_QUAT_def Q_BIAS_G_def Q_BIAS_A_def GRAV_HARD_GATE_def GRAV_CHI2_GATE_def
  GRAV_R_VIBE_def GRAV_VIBE_ALPHA_def P_MIN_BIAS_G_def P_MAX_BIAS_G_def P_MIN_BIAS_A_def
  P_MAX_BIAS_A_def P_MIN_QUAT_def INNOV_SMOOTH_def

record ekf =
  ek_imu :: int
  ek_init :: bool
  ek_innov_norm :: flt
  ek_vibe :: flt
  ek_x :: vec
  ek_P :: mat
  ek_Q :: mat
  ek_F :: mat
  ek_wA :: mat
  ek_wB :: mat

definition ekf_new :: ekf where
  "ekf_new = \<lparr>ek_imu = 0, ek_init = False, ek_innov_norm = Fin 0, ek_vibe = Fin 0, ek_x = (\<lambda>_. Fin 0),
     ek_P = mat_zero, ek_Q = mat_zero, ek_F = mat_zero, ek_wA = mat_zero, ek_wB = mat_zero\<rparr>"

text \<open>A loop for (i = a; i <= b; ++i).\<close>
abbreviation for_to :: "nat \<Rightarrow> nat \<Rightarrow> (nat \<Rightarrow> 's \<Rightarrow> 's) \<Rightarrow> 's \<Rightarrow> 's" where
  "for_to a b body s \<equiv> fold body [a..<Suc b] s"

definition ekf_init :: "int \<Rightarrow> ekf \<Rightarrow> ekf" where
  "ekf_init imu_index e =
    (let x = (\<lambda>_. Fin 0)(iQ0 := Fin 1);
         P = for_upto EKF_N (\<lambda>i P.
           let p0 = (if i \<le> iZ then P0_POS else if i \<le> iW then P0_VEL else if i \<le> iQ3 then P0_QUAT
                     else if i \<le> iBaz then P0_BIAS_A else P0_BIAS_G)
           in mat_upd P i i p0) mat_zero;
         Q = for_to iX iZ (\<lambda>i Q. mat_upd Q i i Q_POS) mat_zero;
         Q = for_to iU iW (\<lambda>i Q. mat_upd Q i i Q_VEL) Q;
         Q = for_to iQ0 iQ3 (\<lambda>i Q. mat_upd Q i i Q_QUAT) Q;
         Q = for_to iBax iBaz (\<lambda>i Q. mat_upd Q i i Q_BIAS_A) Q;
         Q = for_to iBgx iBgz (\<lambda>i Q. mat_upd Q i i Q_BIAS_G) Q
     in e\<lparr>ek_imu := imu_index, ek_innov_norm := Fin 0, ek_vibe := Fin 0, ek_x := x, ek_P := P, ek_Q := Q,
          ek_init := True\<rparr>)"

definition get_quat :: "vec \<Rightarrow> quat" where
  "get_quat x = mk_quat (x iQ0) (x iQ1) (x iQ2) (x iQ3)"

definition put_quat :: "quat \<Rightarrow> vec \<Rightarrow> vec" where
  "put_quat q x = x(iQ0 := qw q, iQ1 := qx q, iQ2 := qy q, iQ3 := qz q)"

definition normalize_quat :: "ekf \<Rightarrow> ekf" where
  "normalize_quat e = e\<lparr>ek_x := put_quat (quat_norm (get_quat (ek_x e))) (ek_x e)\<rparr>"

text \<open>Component access of a three-array, and the writes M[i][j] = v and M[i][j] += v of a list.\<close>
definition v3 :: "vec3 \<Rightarrow> nat \<Rightarrow> flt" where
  "v3 v i = (case v of (a, b, c) \<Rightarrow> [a, b, c] ! i)"

definition mat_sets :: "(nat \<times> nat \<times> flt) list \<Rightarrow> mat \<Rightarrow> mat" where
  "mat_sets es M = fold (\<lambda>(i, j, v) M. mat_upd M i j v) es M"

definition mat_adds :: "(nat \<times> nat \<times> flt) list \<Rightarrow> mat \<Rightarrow> mat" where
  "mat_adds es M = fold (\<lambda>(i, j, v) M. mat_upd M i j (M i j + v)) es M"

section \<open>Prediction\<close>

definition build_F :: "flt \<Rightarrow> vec3 \<Rightarrow> vec \<Rightarrow> mat" where
  "build_F dt gyro x =
    (let F = for_upto EKF_N (\<lambda>i F. mat_upd F i i (Fin 1)) mat_zero;
         R = quat_to_rot_body2ned (get_quat x);
         F = for_upto 3 (\<lambda>i F. for_upto 3 (\<lambda>j F. mat_upd F (iX + i) (iU + j) (R i j * dt)) F) F;
         u = x iU; v = x iV; w = x iW; qw = x iQ0; qx = x iQ1; qy = x iQ2; qz = x iQ3;
         F = mat_sets
          [(iX, iQ0, dt * Fin 2 * (qy*w - qz*v)),
           (iY, iQ0, dt * Fin 2 * (qz*u - qx*w)),
           (iZ, iQ0, dt * Fin 2 * (qx*v - qy*u)),
           (iX, iQ1, dt * Fin 2 * (qy*v + qz*w)),
           (iY, iQ1, dt * Fin 2 * (qy*u - Fin 2*qx*v - qw*w)),
           (iZ, iQ1, dt * Fin 2 * (qz*u + qw*v - Fin 2*qx*w)),
           (iX, iQ2, dt * Fin 2 * (- Fin 2*qy*u + qx*v + qw*w)),
           (iY, iQ2, dt * Fin 2 * (qx*u + qz*w)),
           (iZ, iQ2, dt * Fin 2 * (- qw*u + qz*v - Fin 2*qy*w)),
           (iX, iQ3, dt * Fin 2 * (- Fin 2*qz*u - qw*v + qy*w)),
           (iY, iQ3, dt * Fin 2 * (qw*u - Fin 2*qz*v + qy*w)),
           (iZ, iQ3, dt * Fin 2 * (qx*u + qy*v))] F;
         gx = v3 gyro 0; gy = v3 gyro 1; gz = v3 gyro 2; h = Fin 0.5 * dt;
         F = mat_adds
          [(iQ0, iQ1, - gx*h), (iQ0, iQ2, - gy*h), (iQ0, iQ3, - gz*h),
           (iQ1, iQ0, gx*h), (iQ1, iQ2, gz*h), (iQ1, iQ3, - gy*h),
           (iQ2, iQ0, gy*h), (iQ2, iQ1, - gz*h), (iQ2, iQ3, gx*h),
           (iQ3, iQ0, gz*h), (iQ3, iQ1, gy*h), (iQ3, iQ2, - gx*h)] F;
         F = for_upto 3 (\<lambda>k F. mat_upd F (iU + k) (iBax + k) (- dt)) F
     in mat_sets
          [(iQ0, iBgx, h*qx), (iQ0, iBgy, h*qy), (iQ0, iBgz, h*qz),
           (iQ1, iBgx, - h*qw), (iQ1, iBgy, h*qz), (iQ1, iBgz, - h*qy),
           (iQ2, iBgx, - h*qz), (iQ2, iBgy, - h*qw), (iQ2, iBgz, h*qx),
           (iQ3, iBgx, h*qy), (iQ3, iBgy, - h*qx), (iQ3, iBgz, - h*qw)] F)"

definition predict_x :: "flt \<Rightarrow> vec3 \<Rightarrow> vec3 \<Rightarrow> vec \<Rightarrow> vec" where
  "predict_x dt accel_corr gyro_corr x =
    (let R = quat_to_rot_body2ned (get_quat x);
         g_body = (R 2 0 * GRAVITY, R 2 1 * GRAVITY, R 2 2 * GRAVITY);
         omega_x_v = cross3 gyro_corr (x iU, x iV, x iW);
         a_true = (\<lambda>i. v3 accel_corr i + v3 g_body i - v3 omega_x_v i);
         x = for_upto 3 (\<lambda>i x. x(iX + i := x (iX + i) + (R i 0 * x iU + R i 1 * x iV + R i 2 * x iW) * dt)) x;
         x = for_upto 3 (\<lambda>i x. x(iU + i := x (iU + i) + a_true i * dt)) x;
         dq = mk_quat (Fin 1) (Fin 0.5 * v3 gyro_corr 0 * dt) (Fin 0.5 * v3 gyro_corr 1 * dt)
                (Fin 0.5 * v3 gyro_corr 2 * dt)
     in put_quat (quat_norm (quat_mul (get_quat x) dq)) x)"

definition ekf_predict :: "flt \<Rightarrow> vec3 \<Rightarrow> vec3 \<Rightarrow> ekf \<Rightarrow> ekf" where
  "ekf_predict dt accel gyro e =
    (if \<not> ek_init e then e
     else
      let x = ek_x e;
          accel_corr = (v3 accel 0 - x iBax, v3 accel 1 - x iBay, v3 accel 2 - x iBaz);
          gyro_corr = (v3 gyro 0 - x iBgx, v3 gyro 1 - x iBgy, v3 gyro 2 - x iBgz);
          x = predict_x dt accel_corr gyro_corr x;
          F = build_F dt gyro_corr x;
          wA = mat_mul EKF_N F (ek_P e);
          wB = mat_trans EKF_N F (ek_wB e);
          P = mat_mul EKF_N wA wB;
          P = mat_add EKF_N P (ek_Q e) P
      in e\<lparr>ek_x := x, ek_F := F, ek_wA := wA, ek_wB := wB, ek_P := P\<rparr>)"

section \<open>The generic measurement update\<close>

definition upd_PHt :: "nat \<Rightarrow> mat \<Rightarrow> mat \<Rightarrow> mat" where
  "upd_PHt m P H =
     for_upto m (\<lambda>j A. for_upto EKF_N (\<lambda>i A. for_upto EKF_N (\<lambda>k A.
       mat_upd A i j (A i j + P i k * H j k)) A) A) mat_zero"

definition upd_S :: "nat \<Rightarrow> mat \<Rightarrow> flt list \<Rightarrow> mat \<Rightarrow> mat" where
  "upd_S m H R_diag PHt =
     for_upto m (\<lambda>i S. for_upto m (\<lambda>j S.
       let S = for_upto EKF_N (\<lambda>k S. mat_upd S i j (S i j + H i k * PHt k j)) S
       in if i = j then mat_upd S i j (S i j + R_diag ! i) else S) S) mat_zero"

definition gj_pivot :: "nat \<Rightarrow> mat \<Rightarrow> nat \<Rightarrow> nat" where
  "gj_pivot m Sw col =
     fold (\<lambda>row piv. if fabsf (Sw row col) > fabsf (Sw piv col) then row else piv) [col + 1..<m] col"

definition swap_rows :: "nat \<Rightarrow> nat \<Rightarrow> nat \<Rightarrow> mat \<Rightarrow> mat" where
  "swap_rows m col piv M =
     for_upto m (\<lambda>j M. let t = M col j; M = mat_upd M col j (M piv j) in mat_upd M piv j t) M"

definition scale_row :: "nat \<Rightarrow> nat \<Rightarrow> flt \<Rightarrow> mat \<Rightarrow> mat" where
  "scale_row m col inv_d M = for_upto m (\<lambda>j M. mat_upd M col j (M col j * inv_d)) M"

definition sub_row :: "nat \<Rightarrow> nat \<Rightarrow> nat \<Rightarrow> flt \<Rightarrow> mat \<Rightarrow> mat" where
  "sub_row m col row fac M = for_upto m (\<lambda>j M. mat_upd M row j (M row j - fac * M col j)) M"

definition gj_step :: "nat \<Rightarrow> nat \<Rightarrow> mat \<times> mat \<Rightarrow> (mat \<times> mat) option" where
  "gj_step m col W = (case W of (Sw, Sinv) \<Rightarrow>
     let piv = gj_pivot m Sw col; Sw = swap_rows m col piv Sw; Sinv = swap_rows m col piv Sinv;
         diag = Sw col col
     in if fabsf diag < Fin (1 / 10 ^ 12) then None
        else let inv_d = Fin 1 / diag; Sw = scale_row m col inv_d Sw; Sinv = scale_row m col inv_d Sinv
        in Some (for_upto m (\<lambda>row (Sw, Sinv). if row = col then (Sw, Sinv)
             else let fac = Sw row col in (sub_row m col row fac Sw, sub_row m col row fac Sinv)) (Sw, Sinv)))"

definition gauss_jordan :: "nat \<Rightarrow> mat \<Rightarrow> mat option" where
  "gauss_jordan m S =
    (let (Sw, Sinv) = for_upto m (\<lambda>i (Sw, Sinv).
           (for_upto m (\<lambda>j Sw. mat_upd Sw i j (S i j)) Sw, mat_upd Sinv i i (Fin 1))) (mat_zero, mat_zero)
     in map_option snd (fold (\<lambda>col W. case W of None \<Rightarrow> None | Some W \<Rightarrow> gj_step m col W) [0..<m]
          (Some (Sw, Sinv))))"

definition upd_K :: "nat \<Rightarrow> mat \<Rightarrow> mat \<Rightarrow> mat" where
  "upd_K m PHt Sinv =
     for_upto EKF_N (\<lambda>i K. for_upto m (\<lambda>j K. for_upto m (\<lambda>k K.
       mat_upd K i j (K i j + PHt i k * Sinv k j)) K) K) mat_zero"

definition upd_x :: "nat \<Rightarrow> mat \<Rightarrow> flt list \<Rightarrow> vec \<Rightarrow> vec" where
  "upd_x m K innov x =
     for_upto EKF_N (\<lambda>i x. for_upto m (\<lambda>j x. x(i := x i + K i j * innov ! j)) x) x"

definition upd_IKH :: "nat \<Rightarrow> mat \<Rightarrow> mat \<Rightarrow> mat \<Rightarrow> mat" where
  "upd_IKH m K H wA =
     for_upto EKF_N (\<lambda>i A. for_upto EKF_N (\<lambda>j A.
       let A = mat_upd A i j (if i = j then Fin 1 else Fin 0)
       in for_upto m (\<lambda>k A. mat_upd A i j (A i j - K i k * H k j)) A) A) wA"

definition upd_joseph :: "nat \<Rightarrow> mat \<Rightarrow> flt list \<Rightarrow> mat \<Rightarrow> mat \<Rightarrow> mat" where
  "upd_joseph m K R_diag wA wB =
    (let P = for_upto EKF_N (\<lambda>i P. for_upto EKF_N (\<lambda>j P. for_upto EKF_N (\<lambda>k P.
           mat_upd P i j (P i j + wB i k * wA j k)) P) P) mat_zero
     in for_upto m (\<lambda>k P. for_upto EKF_N (\<lambda>i P. for_upto EKF_N (\<lambda>j P.
           mat_upd P i j (P i j + K i k * R_diag ! k * K j k)) P) P) P)"

definition symmetrize :: "mat \<Rightarrow> mat" where
  "symmetrize P =
     for_upto EKF_N (\<lambda>i P. for_upto i (\<lambda>j P.
       let avg = Fin 0.5 * (P i j + P j i) in mat_upd (mat_upd P i j avg) j i avg) P) P"

definition floor_diag :: "flt \<Rightarrow> nat \<Rightarrow> mat \<Rightarrow> mat" where
  "floor_diag lo i P = (if P i i < lo then mat_upd P i i lo else P)"

definition ceil_diag :: "flt \<Rightarrow> nat \<Rightarrow> mat \<Rightarrow> mat" where
  "ceil_diag hi i P = (if P i i > hi then mat_upd P i i hi else P)"

definition constrain_variances :: "mat \<Rightarrow> mat" where
  "constrain_variances P =
    (let P = for_to iQ0 iQ3 (floor_diag P_MIN_QUAT) P;
         P = for_to iBax iBaz (\<lambda>i P. ceil_diag P_MAX_BIAS_A i (floor_diag P_MIN_BIAS_A i P)) P
     in for_to iBgx iBgz (\<lambda>i P. ceil_diag P_MAX_BIAS_G i (floor_diag P_MIN_BIAS_G i P)) P)"

definition ekf_correct :: "nat \<Rightarrow> mat \<Rightarrow> flt list \<Rightarrow> flt list \<Rightarrow> ekf \<Rightarrow> ekf" where
  "ekf_correct m H R_diag innov e =
    (let PHt = upd_PHt m (ek_P e) H; S = upd_S m H R_diag PHt in
     case gauss_jordan m S of None \<Rightarrow> e
     | Some Sinv \<Rightarrow>
        let K = upd_K m PHt Sinv;
            wA = upd_IKH m K H (ek_wA e);
            wB = mat_mul EKF_N wA (ek_P e);
            P = upd_joseph m K R_diag wA wB
        in e\<lparr>ek_x := upd_x m K innov (ek_x e), ek_wA := wA, ek_wB := wB,
             ek_P := constrain_variances (symmetrize P)\<rparr>)"

section \<open>The measurement updates\<close>

definition shorter_arc :: "quat \<Rightarrow> quat \<Rightarrow> quat" where
  "shorter_arc q_meas q_pred =
    (if quat_dot q_meas q_pred < Fin 0 then mk_quat (- qw q_meas) (- qx q_meas) (- qy q_meas) (- qz q_meas)
     else q_meas)"

definition ekf_update_quaternion :: "quat \<Rightarrow> flt \<Rightarrow> ekf \<Rightarrow> ekf" where
  "ekf_update_quaternion q_meas_in R_var e =
    (if \<not> ek_init e then e
     else
      let q_pred = get_quat (ek_x e);
          q_meas = shorter_arc q_meas_in q_pred;
          H = mat_sets [(0, iQ0, Fin 1), (1, iQ1, Fin 1), (2, iQ2, Fin 1), (3, iQ3, Fin 1)] mat_zero;
          R_diag = [R_var, R_var, R_var, R_var];
          i0 = qw q_meas - qw q_pred; i1 = qx q_meas - qx q_pred;
          i2 = qy q_meas - qy q_pred; i3 = qz q_meas - qz q_pred;
          imag = i0 * i0 + i1 * i1 + i2 * i2 + i3 * i3;
          e = e\<lparr>ek_innov_norm := INNOV_SMOOTH * ek_innov_norm e + (Fin 1 - INNOV_SMOOTH) * imag\<rparr>
      in normalize_quat (ekf_correct 4 H R_diag [i0, i1, i2, i3] e))"

definition grav_S_ii :: "mat \<Rightarrow> mat \<Rightarrow> flt \<Rightarrow> nat \<Rightarrow> flt" where
  "grav_S_ii P H R_eff row =
    (let nz = [iQ0, iQ1, iQ2, iQ3, iBax + row] in
     for_upto 5 (\<lambda>a S_ii.
       let ph = for_upto 5 (\<lambda>b ph. ph + P (nz ! a) (nz ! b) * H row (nz ! b)) (Fin 0)
       in S_ii + H row (nz ! a) * ph) R_eff)"

definition grav_gate :: "mat \<Rightarrow> mat \<Rightarrow> flt \<Rightarrow> flt list \<Rightarrow> bool" where
  "grav_gate P H R_eff innov =
    (let (innov_sq_sum, S_sum) = for_upto 3 (\<lambda>row (isq, ss).
           (isq + innov ! row * innov ! row, ss + grav_S_ii P H R_eff row)) (Fin 0, Fin 0);
         gate_sq = GRAV_CHI2_GATE * GRAV_CHI2_GATE
     in \<not> (S_sum < Fin (1 / 10 ^ 10) \<or> innov_sq_sum > S_sum * gate_sq))"

definition grav_H :: "vec \<Rightarrow> mat" where
  "grav_H x =
    (let g = GRAVITY; qw = x iQ0; qx = x iQ1; qy = x iQ2; qz = x iQ3 in
     mat_sets
      [(0, iQ0, Fin 2*qy*g), (0, iQ1, Fin (-2)*qz*g), (0, iQ2, Fin 2*qw*g), (0, iQ3, Fin (-2)*qx*g),
       (1, iQ0, Fin (-2)*qx*g), (1, iQ1, Fin (-2)*qw*g), (1, iQ2, Fin (-2)*qz*g), (1, iQ3, Fin (-2)*qy*g),
       (2, iQ0, Fin 0), (2, iQ1, Fin 4*qx*g), (2, iQ2, Fin 4*qy*g), (2, iQ3, Fin 0),
       (0, iBax, Fin 1), (1, iBay, Fin 1), (2, iBaz, Fin 1)] mat_zero)"

definition grav_innov :: "vec3 \<Rightarrow> vec \<Rightarrow> flt list" where
  "grav_innov accel x =
    (let R_rot = quat_to_rot_body2ned (get_quat x);
         g_pred = (- R_rot 2 0 * GRAVITY, - R_rot 2 1 * GRAVITY, - R_rot 2 2 * GRAVITY)
     in [v3 accel 0 - v3 g_pred 0 - x iBax, v3 accel 1 - v3 g_pred 1 - x iBay,
         v3 accel 2 - v3 g_pred 2 - x iBaz])"

definition ekf_update_gravity :: "vec3 \<Rightarrow> flt \<Rightarrow> ekf \<Rightarrow> ekf" where
  "ekf_update_gravity accel R_var e =
    (if \<not> ek_init e then e
     else
      let norm = sqrtf (v3 accel 0 * v3 accel 0 + v3 accel 1 * v3 accel 1 + v3 accel 2 * v3 accel 2)
      in if norm > GRAV_HARD_GATE \<or> norm < Fin 0.1 then e
      else
       let dev = norm - GRAVITY;
           e = e\<lparr>ek_vibe := GRAV_VIBE_ALPHA * (dev * dev) + (Fin 1 - GRAV_VIBE_ALPHA) * ek_vibe e\<rparr>;
           R_eff = R_var + GRAV_R_VIBE * ek_vibe e;
           innov = grav_innov accel (ek_x e);
           H = grav_H (ek_x e)
       in if \<not> grav_gate (ek_P e) H R_eff innov then e
          else normalize_quat (ekf_correct 3 H [R_eff, R_eff, R_eff] innov e))"

definition ekf_update_position :: "vec3 \<Rightarrow> flt \<Rightarrow> ekf \<Rightarrow> ekf" where
  "ekf_update_position xyz R_var e =
    (if \<not> ek_init e then e
     else
      let H = mat_sets [(0, iX, Fin 1), (1, iY, Fin 1), (2, iZ, Fin 1)] mat_zero;
          innov = [v3 xyz 0 - ek_x e iX, v3 xyz 1 - ek_x e iY, v3 xyz 2 - ek_x e iZ]
      in ekf_correct 3 H [R_var, R_var, R_var] innov e)"

definition ekf_update_ned_vel :: "vec3 \<Rightarrow> flt \<Rightarrow> ekf \<Rightarrow> ekf" where
  "ekf_update_ned_vel vel_ned R_var e =
    (if \<not> ek_init e then e
     else
      let R = quat_to_rot_body2ned (get_quat (ek_x e));
          v_body = (R 0 0 * v3 vel_ned 0 + R 1 0 * v3 vel_ned 1 + R 2 0 * v3 vel_ned 2,
                    R 0 1 * v3 vel_ned 0 + R 1 1 * v3 vel_ned 1 + R 2 1 * v3 vel_ned 2,
                    R 0 2 * v3 vel_ned 0 + R 1 2 * v3 vel_ned 1 + R 2 2 * v3 vel_ned 2);
          H = mat_sets [(0, iU, Fin 1), (1, iV, Fin 1), (2, iW, Fin 1)] mat_zero;
          innov = [v3 v_body 0 - ek_x e iU, v3 v_body 1 - ek_x e iV, v3 v_body 2 - ek_x e iW]
      in ekf_correct 3 H [R_var, R_var, R_var] innov e)"

definition ekf_update_wheel_velocity :: "flt \<Rightarrow> flt \<Rightarrow> ekf \<Rightarrow> ekf" where
  "ekf_update_wheel_velocity u_meas R_var e =
    (if \<not> ek_init e then e
     else ekf_correct 1 (mat_sets [(0, iU, Fin 1)] mat_zero) [R_var] [u_meas - ek_x e iU] e)"

definition ekf_update_leg_wheel_velocity :: "flt \<Rightarrow> flt \<Rightarrow> flt \<Rightarrow> flt \<Rightarrow> ekf \<Rightarrow> ekf" where
  "ekf_update_leg_wheel_velocity u_meas w_meas Ru Rw e =
    (if \<not> ek_init e then e
     else ekf_correct 2 (mat_sets [(0, iU, Fin 1), (1, iW, Fin 1)] mat_zero) [Ru, Rw]
            [u_meas - ek_x e iU, w_meas - ek_x e iW] e)"

end
