(* ===== verification/FltMatrix.thy ===== *)
theory FltMatrix
  imports MathLib
begin

text \<open>
  Sums and matrix loops over floating-point numbers.  Addition of the model's numbers is associative
  and commutative with neutral element zero, infinities and NaN included, so an accumulating loop is
  a sum of the library, and a nest of element updates is one update per element.  Finite matrices
  are read as real ones, for which products, transposes and quadratic forms are the usual sums.
\<close>

section \<open>Sums\<close>

instantiation flt :: comm_monoid_add
begin

instance
proof
  fix a b c :: flt
  show "a + b + c = a + (b + c)"
    by (cases a; cases b; cases c; simp add: plus_flt_def)
  show "a + b = b + a"
    by (cases a; cases b; simp add: plus_flt_def)
  show "0 + a = a"
    by (cases a; simp add: plus_flt_def zero_flt_def)
qed

end

lemma Fin0_add [simp]: "Fin 0 + a = a" "a + Fin 0 = a"
  using add_0 [of a] add_0_right [of a] by (simp_all add: zero_flt_def)

lemma flt_minus_add: "(a :: flt) - b = a + (- b)"
  by (simp add: minus_flt_def plus_flt_def uminus_flt_def)

lemma flt_minus_0 [simp]: "a - Fin 0 = a"
  by (simp add: flt_minus_add)

lemma sum_Fin: "(\<Sum>i \<in> A. Fin (f i)) = Fin (\<Sum>i \<in> A. f i)"
  by (induction A rule: infinite_finite_induct) auto

lemma sum_Fin_eq:
  assumes "\<And>i. i \<in> A \<Longrightarrow> f i = Fin (g i)"
  shows "sum f A = Fin (sum g A)"
  using assms by (simp add: sum_Fin cong: sum.cong)

section \<open>Loops\<close>

lemma acc_loop:
  "for_upto n (\<lambda>k A. mat_upd A i j (A i j + f k)) A = mat_upd A i j (A i j + (\<Sum>k<n. f k))"
proof (induction n)
  case 0
  then show ?case by (auto simp: mat_upd_def)
next
  case (Suc n)
  then show ?case by (auto simp: mat_upd_def fun_eq_iff add.assoc)
qed

lemma acc_loop_sub:
  "for_upto n (\<lambda>k A. mat_upd A i j (A i j - f k)) A = mat_upd A i j (A i j + (\<Sum>k<n. - f k))"
  using acc_loop [of i j "\<lambda>k. - f k" n A] by (simp add: flt_minus_add)

lemma row_loop:
  "for_upto n (\<lambda>j A. mat_upd A i j (g j (A i j))) A a b = (if a = i \<and> b < n then g b (A a b) else A a b)"
  by (induction n) (auto simp: mat_upd_apply less_Suc_eq)

lemma col_loop:
  "for_upto n (\<lambda>i A. mat_upd A i j (g i (A i j))) A a b = (if b = j \<and> a < n then g a (A a b) else A a b)"
  by (induction n) (auto simp: mat_upd_apply less_Suc_eq)

lemma grid_loop:
  "for_upto n (\<lambda>i A. for_upto m (\<lambda>j A. mat_upd A i j (g i j (A i j))) A) A a b =
     (if a < n \<and> b < m then g a b (A a b) else A a b)"
  by (induction n) (auto simp: row_loop less_Suc_eq)

lemma grid_loop':
  "for_upto m (\<lambda>j A. for_upto n (\<lambda>i A. mat_upd A i j (g i j (A i j))) A) A a b =
     (if a < n \<and> b < m then g a b (A a b) else A a b)"
proof (induction m)
  case (Suc m)
  show ?case
    using Suc col_loop [of m "\<lambda>i. g i m" n _ a b] by (cases "b = m") (auto simp: less_Suc_eq)
qed simp

lemma fold_cong_id: "(\<And>x s. x \<in> set xs \<Longrightarrow> f x s = s) \<Longrightarrow> fold f xs s = s"
  by (induction xs) auto

section \<open>Finite matrices\<close>

text \<open>The first n rows and m columns are finite.\<close>
definition fmat :: "nat \<Rightarrow> nat \<Rightarrow> mat \<Rightarrow> bool" where
  "fmat n m M \<longleftrightarrow> (\<forall>i<n. \<forall>j<m. isfin (M i j))"

type_synonym rmat = "nat \<Rightarrow> nat \<Rightarrow> real"

definition rm :: "mat \<Rightarrow> rmat" where
  "rm M = (\<lambda>i j. val (M i j))"

lemma fmatD: "fmat n m M \<Longrightarrow> i < n \<Longrightarrow> j < m \<Longrightarrow> M i j = Fin (rm M i j)"
  by (simp add: fmat_def rm_def Fin_val)

lemma fmatI: "(\<And>i j. i < n \<Longrightarrow> j < m \<Longrightarrow> M i j = Fin (R i j)) \<Longrightarrow> fmat n m M"
  by (simp add: fmat_def)

lemma fmat_fin: "fmat n n M \<longleftrightarrow> fin_mat n M"
  by (simp add: fmat_def fin_mat_def)

section \<open>Real matrices\<close>

definition rmul :: "nat \<Rightarrow> rmat \<Rightarrow> rmat \<Rightarrow> rmat" where
  "rmul n A B = (\<lambda>i j. \<Sum>k<n. A i k * B k j)"

definition rtr :: "rmat \<Rightarrow> rmat" where
  "rtr A = (\<lambda>i j. A j i)"

definition radd :: "rmat \<Rightarrow> rmat \<Rightarrow> rmat" where
  "radd A B = (\<lambda>i j. A i j + B i j)"

definition rsub :: "rmat \<Rightarrow> rmat \<Rightarrow> rmat" where
  "rsub A B = (\<lambda>i j. A i j - B i j)"

definition rid :: rmat where
  "rid = (\<lambda>i j. if i = j then 1 else 0)"

text \<open>Equality on the entries that exist.\<close>
definition meq :: "nat \<Rightarrow> nat \<Rightarrow> rmat \<Rightarrow> rmat \<Rightarrow> bool" where
  "meq n m A B \<longleftrightarrow> (\<forall>i<n. \<forall>j<m. A i j = B i j)"

lemma rmul_assoc: "rmul m (rmul n A B) C = rmul n A (rmul m B C)"
proof (intro ext)
  fix i j
  have "rmul m (rmul n A B) C i j = (\<Sum>k<m. \<Sum>l<n. A i l * B l k * C k j)"
    by (simp add: rmul_def sum_distrib_right)
  also have "\<dots> = (\<Sum>l<n. \<Sum>k<m. A i l * B l k * C k j)" by (rule sum.swap)
  also have "\<dots> = rmul n A (rmul m B C) i j"
    by (simp add: rmul_def sum_distrib_left mult.assoc)
  finally show "rmul m (rmul n A B) C i j = rmul n A (rmul m B C) i j" .
qed

lemma rmul_radd: "rmul n A (radd B C) = radd (rmul n A B) (rmul n A C)"
  "rmul n (radd B C) A = radd (rmul n B A) (rmul n C A)"
  by (simp_all add: rmul_def radd_def fun_eq_iff sum.distrib algebra_simps)

lemma rmul_rsub: "rmul n A (rsub B C) = rsub (rmul n A B) (rmul n A C)"
  "rmul n (rsub B C) A = rsub (rmul n B A) (rmul n C A)"
  by (simp_all add: rmul_def rsub_def fun_eq_iff sum_subtractf algebra_simps)

lemma rtr_rmul: "rtr (rmul n A B) = rmul n (rtr B) (rtr A)"
  by (simp add: rtr_def rmul_def fun_eq_iff mult.commute)

lemma rtr_simps [simp]: "rtr (rtr A) = A" "rtr rid = rid" "rtr (rsub A B) = rsub (rtr A) (rtr B)"
  "rtr (radd A B) = radd (rtr A) (rtr B)"
  by (auto simp: rtr_def rid_def rsub_def radd_def fun_eq_iff)

lemma rid_sum:
  "(\<Sum>k<n. (if i = k then (1::real) else 0) * f k) = (if i < (n::nat) then f i else 0)"
  by (simp add: if_distrib [of "\<lambda>c. c * _"] cong: if_cong)

lemma rmul_rid: "i < n \<Longrightarrow> rmul n rid A i j = A i j" "j < n \<Longrightarrow> rmul n A rid i j = A i j"
  using rid_sum [of i "\<lambda>k. A k j" n] rid_sum [of j "\<lambda>k. A i k" n]
  by (simp_all add: rmul_def rid_def mult.commute eq_commute [of _ j])

lemma rmul_cong:
  "(\<And>k. k < n \<Longrightarrow> A i k = A' i k) \<Longrightarrow> (\<And>k. k < n \<Longrightarrow> B k j = B' k j) \<Longrightarrow> rmul n A B i j = rmul n A' B' i j"
  by (simp add: rmul_def)

lemma mat_mul_rm:
  assumes "fmat n n A" "fmat n n B"
  shows "fmat n n (mat_mul n A B)" "meq n n (rm (mat_mul n A B)) (rmul n (rm A) (rm B))"
  using assms mat_mul_apply [of n A B]
  by (simp_all add: fmat_def fin_mat_def meq_def rm_def rmul_def)

end
