(* ===== verification/EkfLoops.thy ===== *)
theory EkfLoops
  imports Ekf FltMatrix
begin

text \<open>
  What the loops of the filter's measurement update compute: every nest is a sum per element, for
  all values, infinities and NaN included.
\<close>

lemma upd_PHt_apply:
  assumes "i < EKF_N" "j < m"
  shows "upd_PHt m P H i j = (\<Sum>k<EKF_N. P i k * H j k)"
proof -
  have "upd_PHt m P H = for_upto m (\<lambda>j A. for_upto EKF_N (\<lambda>i A.
      mat_upd A i j (A i j + (\<Sum>k<EKF_N. P i k * H j k))) A) mat_zero"
    unfolding upd_PHt_def acc_loop ..
  then show ?thesis
    using assms grid_loop' [where m = m and n = EKF_N and g = "\<lambda>i j v. v + (\<Sum>k<EKF_N. P i k * H j k)" and A = mat_zero and a = i and b = j]
    by (simp only: if_True simp_thms mat_zero_def Fin0_add)
qed

lemma upd_S_apply:
  assumes "i < m" "j < m"
  shows "upd_S m H R PHt i j = (\<Sum>k<EKF_N. H i k * PHt k j) + (if i = j then R ! i else Fin 0)"
proof -
  let ?f = "\<lambda>i j. (\<Sum>k<EKF_N. H i k * PHt k j) + (if i = j then R ! i else Fin 0)"
  have s: "(let S = for_upto EKF_N (\<lambda>k S. mat_upd S i j (S i j + H i k * PHt k j)) S
      in if i = j then mat_upd S i j (S i j + R ! i) else S) = mat_upd S i j (S i j + ?f i j)" for i j S
    unfolding acc_loop by (auto simp: Let_def mat_upd_def fun_eq_iff add.assoc)
  have "upd_S m H R PHt = for_upto m (\<lambda>i S. for_upto m (\<lambda>j S. mat_upd S i j (S i j + ?f i j)) S) mat_zero"
    unfolding upd_S_def s ..
  then show ?thesis
    using assms grid_loop [where n = m and m = m and g = "\<lambda>i j v. v + ?f i j" and A = mat_zero and a = i and b = j]
    by (simp only: if_True simp_thms mat_zero_def Fin0_add)
qed

lemma upd_K_apply:
  assumes "i < EKF_N" "j < m"
  shows "upd_K m PHt Sinv i j = (\<Sum>k<m. PHt i k * Sinv k j)"
proof -
  have "upd_K m PHt Sinv = for_upto EKF_N (\<lambda>i A. for_upto m (\<lambda>j A.
      mat_upd A i j (A i j + (\<Sum>k<m. PHt i k * Sinv k j))) A) mat_zero"
    unfolding upd_K_def acc_loop ..
  then show ?thesis
    using assms grid_loop [where n = EKF_N and m = m and g = "\<lambda>i j v. v + (\<Sum>k<m. PHt i k * Sinv k j)" and A = mat_zero and a = i and b = j]
    by (simp only: if_True simp_thms mat_zero_def Fin0_add)
qed

lemma upd_x_row:
  "for_upto m (\<lambda>j x. x(i := x i + K i j * v ! j)) x = x(i := x i + (\<Sum>j<m. K i j * v ! j))"
proof (induction m)
  case 0
  then show ?case by simp
next
  case (Suc m)
  show ?case unfolding for_upto_Suc Suc.IH by (simp add: add.assoc)
qed

lemma vec_loop: "for_upto n (\<lambda>i x. fun_upd x i (x i + f i)) x a = (if a < n then x a + f a else x a)"
proof (induction n)
  case (Suc n)
  obtain y where y: "for_upto n (\<lambda>i x. fun_upd x i (x i + f i)) x = y" by blast
  then have "y a = (if a < n then x a + f a else x a)" using Suc.IH by blast
  then show ?case unfolding for_upto_Suc y by (auto simp: less_Suc_eq)
qed simp

lemma upd_x_apply: "upd_x m K v x i = (if i < EKF_N then x i + (\<Sum>j<m. K i j * v ! j) else x i)"
  unfolding upd_x_def upd_x_row by (rule vec_loop)

lemma upd_IKH_apply:
  assumes "i < EKF_N" "j < EKF_N"
  shows "upd_IKH m K H wA i j = (if i = j then Fin 1 else Fin 0) + (\<Sum>k<m. - (K i k * H k j))"
proof -
  let ?f = "\<lambda>i j. (if i = j then Fin 1 else Fin 0) + (\<Sum>k<m. - (K i k * H k j))"
  have s: "(let A = mat_upd A i j (if i = j then Fin 1 else Fin 0)
      in for_upto m (\<lambda>k A. mat_upd A i j (A i j - K i k * H k j)) A) = mat_upd A i j (?f i j)" for i j A
    unfolding acc_loop_sub by (auto simp: Let_def mat_upd_def fun_eq_iff)
  have "upd_IKH m K H wA = for_upto EKF_N (\<lambda>i S. for_upto EKF_N (\<lambda>j S. mat_upd S i j (?f i j)) S) wA"
    unfolding upd_IKH_def s ..
  then show ?thesis
    using assms grid_loop [where n = EKF_N and m = EKF_N and g = "\<lambda>i j v. ?f i j" and A = wA and a = i and b = j] by (simp only: if_True simp_thms)
qed

lemma upd_joseph_apply:
  assumes "i < EKF_N" "j < EKF_N"
  shows "upd_joseph m K R wA wB i j =
    (\<Sum>k<EKF_N. wB i k * wA j k) + (\<Sum>k<m. K i k * R ! k * K j k)"
proof -
  let ?P = "for_upto EKF_N (\<lambda>i P. for_upto EKF_N (\<lambda>j P. for_upto EKF_N (\<lambda>k P.
           mat_upd P i j (P i j + wB i k * wA j k)) P) P) mat_zero"
  have "?P = for_upto EKF_N (\<lambda>i P. for_upto EKF_N (\<lambda>j P.
      mat_upd P i j (P i j + (\<Sum>k<EKF_N. wB i k * wA j k))) P) mat_zero"
    unfolding acc_loop ..
  then have P: "?P i j = (\<Sum>k<EKF_N. wB i k * wA j k)"
    using assms grid_loop [where n = EKF_N and m = EKF_N and g = "\<lambda>i j v. v + (\<Sum>k<EKF_N. wB i k * wA j k)" and A = mat_zero and a = i and b = j]
    by (simp only: if_True simp_thms mat_zero_def Fin0_add)
  have "for_upto n (\<lambda>k P. for_upto EKF_N (\<lambda>i P. for_upto EKF_N (\<lambda>j P.
      mat_upd P i j (P i j + K i k * R ! k * K j k)) P) P) Q i j =
      Q i j + (\<Sum>k<n. K i k * R ! k * K j k)" for n Q
  proof (induction n)
    case (Suc n)
    show ?case
      using Suc assms grid_loop [where n = EKF_N and m = EKF_N and g = "\<lambda>i j v. v + K i n * R ! n * K j n" and a = i and b = j]
      by (simp add: add.assoc)
  qed simp
  then show ?thesis unfolding upd_joseph_def Let_def P [symmetric] by blast
qed

section \<open>Symmetrising and clamping\<close>

lemma symmetrize_row:
  "k \<le> i \<Longrightarrow> for_upto k (\<lambda>j P. let avg = h * (P i j + P j i) in mat_upd (mat_upd P i j avg) j i avg) P a b =
     (if a = i \<and> b < k \<or> b = i \<and> a < k then h * (P a b + P b a) else P a b)"
proof (induction k arbitrary: a b)
  case (Suc k)
  obtain Q where Q: "for_upto k (\<lambda>j P. let avg = h * (P i j + P j i) in mat_upd (mat_upd P i j avg) j i avg) P = Q"
    by blast
  have IH: "Q a b = (if a = i \<and> b < k \<or> b = i \<and> a < k then h * (P a b + P b a) else P a b)" for a b
    using Suc.IH [of a b] Suc.prems unfolding Q by simp
  show ?case
    unfolding for_upto_Suc unfolding Q unfolding Let_def mat_upd_apply
    using Suc.prems by (auto simp: IH less_Suc_eq add.commute)
qed simp

lemma symmetrize_rows:
  "for_upto n (\<lambda>i P. for_upto i (\<lambda>j P. let avg = h * (P i j + P j i)
      in mat_upd (mat_upd P i j avg) j i avg) P) P a b =
      (if a \<noteq> b \<and> a < n \<and> b < n then h * (P a b + P b a) else P a b)"
proof (induction n arbitrary: a b)
  case (Suc n)
  obtain Q where Q: "for_upto n (\<lambda>i P. for_upto i (\<lambda>j P. let avg = h * (P i j + P j i)
      in mat_upd (mat_upd P i j avg) j i avg) P) P = Q" by blast
  have IH: "Q a b = (if a \<noteq> b \<and> a < n \<and> b < n then h * (P a b + P b a) else P a b)" for a b
    using Suc.IH [of a b] unfolding Q .
  show ?case
    unfolding for_upto_Suc unfolding Q unfolding symmetrize_row [OF order.refl]
    by (auto simp: IH less_Suc_eq)
qed simp

lemma symmetrize_apply:
  assumes "a < EKF_N" "b < EKF_N"
  shows "symmetrize P a b = (if a = b then P a a else Fin 0.5 * (P a b + P b a))"
  unfolding symmetrize_def symmetrize_rows using assms by simp

lemma floor_diag_apply: "floor_diag lo i P a b = (if a = i \<and> b = i \<and> P i i < lo then lo else P a b)"
  by (simp add: floor_diag_def mat_upd_apply)

lemma ceil_diag_apply: "ceil_diag hi i P a b = (if a = i \<and> b = i \<and> hi < P i i then hi else P a b)"
  by (simp add: ceil_diag_def mat_upd_apply)

text \<open>The clamp of one diagonal entry: each entry has its own floor and, for the biases, a ceiling.\<close>
definition clamp_var :: "nat \<Rightarrow> flt \<Rightarrow> flt" where
  "clamp_var i v =
    (if iQ0 \<le> i \<and> i \<le> iQ3 then (if v < P_MIN_QUAT then P_MIN_QUAT else v)
     else if iBax \<le> i \<and> i \<le> iBaz then constrain_float v P_MIN_BIAS_A P_MAX_BIAS_A
     else if iBgx \<le> i \<and> i \<le> iBgz then constrain_float v P_MIN_BIAS_G P_MAX_BIAS_G
     else v)"

lemma diag_loop:
  assumes "\<And>i P a b. f i P a b = (if a = i \<and> b = i then h (P i i) else P a b)"
  shows "fold f [s..<t] P a b = (if a = b \<and> s \<le> a \<and> a < t then h (P a a) else P a b)"
proof (induction t)
  case (Suc t)
  then show ?case by (cases "s \<le> t") (auto simp: assms less_Suc_eq)
qed simp

lemma constrain_variances_apply:
  "constrain_variances P a b = (if a = b then clamp_var a (P a a) else P a b)"
proof -
  have q: "fold (floor_diag P_MIN_QUAT) [iQ0..<Suc iQ3] P a b = (if a = b \<and> iQ0 \<le> a \<and> a < Suc iQ3
      then if P a a < P_MIN_QUAT then P_MIN_QUAT else P a a else P a b)" for P a b
    by (rule diag_loop) (simp add: floor_diag_apply)
  have c: "fold (\<lambda>i P. ceil_diag (Fin hi) i (floor_diag (Fin lo) i P)) [s..<t] P a b =
      (if a = b \<and> s \<le> a \<and> a < t then constrain_float (P a a) (Fin lo) (Fin hi) else P a b)"
    if "lo \<le> hi" for lo hi s t P a b
    by (rule diag_loop) (use that in \<open>auto simp: floor_diag_apply ceil_diag_apply constrain_float_def\<close>)
  have l: "(1 / 10 ^ 12 :: real) \<le> 1" "(1 / 10 ^ 12 :: real) \<le> 0.25" by simp_all
  show ?thesis
    unfolding constrain_variances_def Let_def P_MIN_BIAS_A_def P_MAX_BIAS_A_def P_MIN_BIAS_G_def
      P_MAX_BIAS_G_def q c [OF l(1)] c [OF l(2)] clamp_var_def
    by auto
qed

end
