(* ===== verification/GaussJordan.thy ===== *)
theory GaussJordan
  imports EkfLoops
begin

text \<open>
  The matrix inversion inside the measurement update (EKF.cpp, _update): Gauss-Jordan elimination
  with row pivoting.  Row operations act on the working copy and on the accumulated inverse alike,
  so their product with the input stays the working copy, whose first columns become those of the
  identity.
\<close>

section \<open>Row operations\<close>

lemma swap_rows_apply:
  "swap_rows m c p M i j = (if j < m then M (if i = c then p else if i = p then c else i) j else M i j)"
proof -
  have "for_upto n (\<lambda>j M. let t = M c j; M = mat_upd M c j (M p j) in mat_upd M p j t) M i j =
      (if j < n then M (if i = c then p else if i = p then c else i) j else M i j)" for n i j
  proof (induction n arbitrary: i j)
    case (Suc n)
    obtain Q where Q: "for_upto n (\<lambda>j M. let t = M c j; M = mat_upd M c j (M p j) in mat_upd M p j t) M = Q"
      by blast
    have IH: "Q i j = (if j < n then M (if i = c then p else if i = p then c else i) j else M i j)" for i j
      using Suc.IH [of i j] unfolding Q .
    show ?case unfolding for_upto_Suc unfolding Q by (auto simp: Let_def mat_upd_apply IH less_Suc_eq)
  qed simp
  then show ?thesis unfolding swap_rows_def by blast
qed

lemma scale_row_apply: "scale_row m c d M i j = (if i = c \<and> j < m then M i j * d else M i j)"
  unfolding scale_row_def using row_loop [where i = c and g = "\<lambda>j v. v * d" and n = m and A = M]
  by simp

lemma sub_row_apply:
  assumes "row \<noteq> c"
  shows "sub_row m c row f M i j = (if i = row \<and> j < m then M i j - f * M c j else M i j)"
proof -
  have "for_upto n (\<lambda>j M. mat_upd M row j (M row j - f * M c j)) M i j =
      (if i = row \<and> j < n then M i j - f * M c j else M i j)" for n i j
  proof (induction n arbitrary: i j)
    case (Suc n)
    obtain Q where Q: "for_upto n (\<lambda>j M. mat_upd M row j (M row j - f * M c j)) M = Q" by blast
    have IH: "Q i j = (if i = row \<and> j < n then M i j - f * M c j else M i j)" for i j
      using Suc.IH [of i j] unfolding Q .
    show ?case unfolding for_upto_Suc unfolding Q using assms by (auto simp: mat_upd_apply IH less_Suc_eq)
  qed simp
  then show ?thesis unfolding sub_row_def by blast
qed

lemma eliminate_apply:
  fixes A B :: mat
  assumes "for_upto m (\<lambda>row (A, B). if row = c then (A, B)
      else let fac = A row c in (sub_row m c row fac A, sub_row m c row fac B)) (A, B) = (A', B')" "c < m"
  shows "j < m \<Longrightarrow> A' i j = (if i < m \<and> i \<noteq> c then A i j - A i c * A c j else A i j)"
    "j < m \<Longrightarrow> B' i j = (if i < m \<and> i \<noteq> c then B i j - A i c * B c j else B i j)"
proof -
  let ?f = "\<lambda>row (A, B). if row = c then (A, B)
      else let fac = A row c in (sub_row m c row fac A, sub_row m c row fac B)"
  have "\<exists>A' B'. for_upto n ?f (A, B) = (A', B') \<and>
      (\<forall>i. \<forall>j<m. A' i j = (if i < n \<and> i \<noteq> c then A i j - A i c * A c j else A i j)) \<and>
      (\<forall>i. \<forall>j<m. B' i j = (if i < n \<and> i \<noteq> c then B i j - A i c * B c j else B i j))" for n
  proof (induction n)
    case (Suc n)
    then obtain A' B' where IH: "for_upto n ?f (A, B) = (A', B')"
      "\<forall>i. \<forall>j<m. A' i j = (if i < n \<and> i \<noteq> c then A i j - A i c * A c j else A i j)"
      "\<forall>i. \<forall>j<m. B' i j = (if i < n \<and> i \<noteq> c then B i j - A i c * B c j else B i j)" by blast
    show ?case
    proof (cases "n = c")
      case True
      then show ?thesis using IH by (auto simp: less_Suc_eq)
    next
      case False
      then show ?thesis
        using IH \<open>c < m\<close> unfolding for_upto_Suc IH(1)
        by (auto simp: Let_def sub_row_apply less_Suc_eq)
    qed
  qed simp
  from this [of m] assms show "j < m \<Longrightarrow> A' i j = (if i < m \<and> i \<noteq> c then A i j - A i c * A c j else A i j)"
    "j < m \<Longrightarrow> B' i j = (if i < m \<and> i \<noteq> c then B i j - A i c * B c j else B i j)"
    by auto
qed

lemma gj_pivot_range: "c < m \<Longrightarrow> c \<le> gj_pivot m A c \<and> gj_pivot m A c < m"
proof -
  assume "c < m"
  have "c \<le> p \<and> p < m \<Longrightarrow> set xs \<subseteq> {c..<m} \<Longrightarrow>
      c \<le> fold (\<lambda>row piv. if fabsf (A row c) > fabsf (A piv c) then row else piv) xs p \<and>
      fold (\<lambda>row piv. if fabsf (A row c) > fabsf (A piv c) then row else piv) xs p < m" for xs p
    by (induction xs arbitrary: p) auto
  then show ?thesis unfolding gj_pivot_def using \<open>c < m\<close> by simp
qed

section \<open>One column\<close>

definition gj_inv :: "nat \<Rightarrow> rmat \<Rightarrow> nat \<Rightarrow> mat \<times> mat \<Rightarrow> bool" where
  "gj_inv m S c W \<longleftrightarrow> fmat m m (fst W) \<and> fmat m m (snd W) \<and>
     meq m m (rmul m (rm (snd W)) S) (rm (fst W)) \<and> meq m c (rm (fst W)) rid"

lemma gj_step_real:
  assumes A: "fmat m m A" and B: "fmat m m B" and c: "c < m"
    and st: "gj_step m c (A, B) = Some (A', B')"
  obtains p d where "c \<le> p" "p < m" "d \<noteq> 0" "rm A p c = d"
    "\<forall>i<m. \<forall>j<m. A' i j = Fin (if i = c then rm A p j / d
        else rm A (if i = p then c else i) j - rm A (if i = p then c else i) c * (rm A p j / d))"
    "\<forall>i<m. \<forall>j<m. B' i j = Fin (if i = c then rm B p j / d
        else rm B (if i = p then c else i) j - rm A (if i = p then c else i) c * (rm B p j / d))"
proof -
  define p where "p = gj_pivot m A c"
  have p: "c \<le> p" "p < m" using gj_pivot_range [OF c] by (simp_all add: p_def)
  define d where "d = rm A p c"
  let ?s = "\<lambda>i. if i = c then p else if i = p then c else i"
  define A1 B1 where "A1 = swap_rows m c p A" and "B1 = swap_rows m c p B"
  have s: "?s i < m" if "i < m" for i using that p c by auto
  have A1: "A1 i j = Fin (rm A (?s i) j)" "B1 i j = Fin (rm B (?s i) j)" if "i < m" "j < m" for i j
    using fmatD [OF A s [OF that(1)] that(2)] fmatD [OF B s [OF that(1)] that(2)] that
    by (simp_all add: A1_def B1_def swap_rows_apply)
  have dA: "A1 c c = Fin d" using A1 c by (simp add: d_def)
  have nz: "\<not> fabsf (Fin d) < Fin (1 / 10 ^ 12)"
    using st by (auto simp: gj_step_def Let_def dA simp flip: p_def A1_def split: if_splits)
  then have d: "d \<noteq> 0" by auto
  have e: "for_upto m (\<lambda>row (A, B). if row = c then (A, B)
      else let fac = A row c in (sub_row m c row fac A, sub_row m c row fac B))
      (scale_row m c (Fin 1 / Fin d) A1, scale_row m c (Fin 1 / Fin d) B1) = (A', B')"
    using st nz unfolding gj_step_def prod.case Let_def p_def [symmetric] A1_def [symmetric]
      B1_def [symmetric] dA by (simp only: if_False option.inject)
  have "A' i j = Fin (if i = c then rm A p j / d
        else rm A (?s i) j - rm A (?s i) c * (rm A p j / d))"
    "B' i j = Fin (if i = c then rm B p j / d
        else rm B (?s i) j - rm A (?s i) c * (rm B p j / d))" if "i < m" "j < m" for i j
    using eliminate_apply [OF e c that(2), of i] A1 [OF that] A1 [OF c that(2)] A1 [OF that(1) c] that c d
    by (simp_all add: scale_row_apply)
  then show ?thesis using that [OF p d d_def [symmetric]] by (simp cong: if_cong)
qed

lemma rmul_comb:
  "rmul n (\<lambda>i j. x i * A (f i) j - y i * B (g i) j) S i j = x i * rmul n A S (f i) j - y i * rmul n B S (g i) j"
  by (simp add: rmul_def sum_subtractf sum_distrib_left left_diff_distrib mult.assoc)

lemma gj_step_inv:
  assumes inv: "gj_inv m S c (A, B)" and c: "c < m" and st: "gj_step m c (A, B) = Some (A', B')"
  shows "gj_inv m S (Suc c) (A', B')"
proof -
  from inv have f: "fmat m m A" "fmat m m B" and mul: "meq m m (rmul m (rm B) S) (rm A)"
    and unit: "meq m c (rm A) rid" by (simp_all add: gj_inv_def)
  obtain p d where p: "c \<le> p" "p < m" "d \<noteq> 0" "rm A p c = d"
    and A': "\<forall>i<m. \<forall>j<m. A' i j = Fin (if i = c then rm A p j / d
        else rm A (if i = p then c else i) j - rm A (if i = p then c else i) c * (rm A p j / d))"
    and B': "\<forall>i<m. \<forall>j<m. B' i j = Fin (if i = c then rm B p j / d
        else rm B (if i = p then c else i) j - rm A (if i = p then c else i) c * (rm B p j / d))"
    by (rule gj_step_real [OF f c st])
  define s where "s i = (if i = p then c else i)" for i
  have s: "s i < m" if "i < m" for i using that c by (simp add: s_def)
  note A' = A' [folded s_def, rule_format] and B' = B' [folded s_def, rule_format]
  note A'' = A' and B'' = B'
  have fin: "fmat m m A'" "fmat m m B'" by (rule fmatI, erule (1) A', rule fmatI, erule (1) B')
  have "rmul m (rm B') S i j = rm A' i j" if ij: "i < m" "j < m" for i j
  proof -
    have pj: "rmul m (rm B) S p j = rm A p j" and sj: "rmul m (rm B) S (s i) j = rm A (s i) j"
      using mul ij p s by (simp_all add: meq_def)
    show ?thesis
    proof (cases "i = c")
      case True
      have "rmul m (rm B') S i j = (\<Sum>k<m. rm B p k / d * S k j)"
        using ij True by (simp add: rmul_def rm_def B')
      also have "\<dots> = rmul m (rm B) S p j / d" by (simp add: rmul_def sum_divide_distrib)
      finally show ?thesis using ij True by (simp add: pj) (simp add: rm_def A')
    next
      case False
      have "rmul m (rm B') S i j = (\<Sum>k<m. (rm B (s i) k - rm A (s i) c * (rm B p k / d)) * S k j)"
        unfolding rmul_def by (rule sum.cong) (use ij False in \<open>simp_all add: rm_def B''\<close>)
      also have "\<dots> = rmul m (rm B) S (s i) j - rm A (s i) c * (rmul m (rm B) S p j / d)"
        by (simp add: rmul_def sum_subtractf sum_distrib_left sum_divide_distrib left_diff_distrib mult.assoc)
      finally show ?thesis using ij False by (simp add: pj sj) (simp add: rm_def A'')
    qed
  qed
  moreover have "rm A' i j = rid i j" if ij: "i < m" "j < Suc c" for i j
  proof -
    have j: "j < m" using ij c by simp
    have u: "j < c \<Longrightarrow> rm A k j = (if k = j then 1 else 0)" if "k < m" for k
      using unit that by (simp add: meq_def rid_def)
    have val: "rm A' i j = (if i = c then rm A p j / d else rm A (s i) j - rm A (s i) c * (rm A p j / d))"
      using A'' [OF ij(1) j] by (simp add: rm_def)
    show ?thesis
    proof (cases "j = c")
      case True
      then show ?thesis unfolding val using p by (auto simp: rid_def)
    next
      case False
      then have jc: "j < c" using ij by simp
      then have "rm A p j = 0" using u [OF p(2) jc] p(1) by simp
      then show ?thesis using u [OF s [OF ij(1)] jc] jc p(1) by (auto simp: val rid_def s_def)
    qed
  qed
  ultimately show ?thesis using fin by (simp add: gj_inv_def meq_def)
qed

section \<open>The whole elimination\<close>

lemma gj_start:
  assumes "for_upto m (\<lambda>i (Sw, Sinv). (for_upto m (\<lambda>j Sw. mat_upd Sw i j (S i j)) Sw,
      mat_upd Sinv i i (Fin 1))) (mat_zero, mat_zero) = (A, B)" "fmat m m S"
  shows "gj_inv m (rm S) 0 (A, B)"
proof -
  let ?f = "\<lambda>i (Sw, Sinv). (for_upto m (\<lambda>j Sw. mat_upd Sw i j (S i j)) Sw, mat_upd Sinv i i (Fin 1))"
  have "\<exists>A B. for_upto n ?f (mat_zero, mat_zero) = (A, B) \<and>
      (\<forall>i j. A i j = (if i < n \<and> j < m then S i j else Fin 0)) \<and>
      (\<forall>i j. B i j = (if i = j \<and> i < n then Fin 1 else Fin 0))" for n
  proof (induction n)
    case 0
    show ?case by (simp add: mat_zero_def)
  next
    case (Suc n)
    then obtain A B where IH: "for_upto n ?f (mat_zero, mat_zero) = (A, B)"
      "\<forall>i j. A i j = (if i < n \<and> j < m then S i j else Fin 0)"
      "\<forall>i j. B i j = (if i = j \<and> i < n then Fin 1 else Fin 0)" by blast
    then show ?case unfolding for_upto_Suc IH(1) by (auto simp: row_set_loop mat_upd_apply less_Suc_eq)
  qed
  from this [of m] assms(1) have A: "\<And>i j. A i j = (if i < m \<and> j < m then S i j else Fin 0)"
    and B: "\<And>i j. B i j = (if i = j \<and> i < m then Fin 1 else Fin 0)" by auto
  have "rmul m (rm B) (rm S) i j = rm A i j" if "i < m" "j < m" for i j
  proof -
    have "rmul m (rm B) (rm S) i j = rmul m rid (rm S) i j"
      by (rule rmul_cong) (use that in \<open>simp_all add: rm_def B rid_def\<close>)
    then show ?thesis using that by (simp add: rmul_rid) (simp add: rm_def A)
  qed
  then show ?thesis using assms(2) by (simp add: gj_inv_def meq_def) (simp add: fmat_def A B)
qed

lemma gj_fold:
  assumes "gj_inv m S 0 W" "n \<le> m"
    "fold (\<lambda>col W. case W of None \<Rightarrow> None | Some W \<Rightarrow> gj_step m col W) [0..<n] (Some W) = Some W'"
  shows "gj_inv m S n W'"
  using assms(2,3)
proof (induction n arbitrary: W')
  case 0
  then show ?case using assms(1) by simp
next
  case (Suc n)
  then obtain V where V: "fold (\<lambda>col W. case W of None \<Rightarrow> None | Some W \<Rightarrow> gj_step m col W) [0..<n] (Some W) = Some V"
    "gj_step m n V = Some W'" by (auto split: option.splits)
  then show ?case using Suc gj_step_inv [of m S n "fst V" "snd V" "fst W'" "snd W'"] by simp
qed

text \<open>What comes back is finite and is the inverse.\<close>
lemma gauss_jordan_left:
  assumes "gauss_jordan m S = Some T" "fmat m m S"
  shows "fmat m m T" "meq m m (rmul m (rm T) (rm S)) rid"
proof -
  obtain A B where AB: "for_upto m (\<lambda>i (Sw, Sinv). (for_upto m (\<lambda>j Sw. mat_upd Sw i j (S i j)) Sw,
      mat_upd Sinv i i (Fin 1))) (mat_zero, mat_zero) = (A, B)" by (rule prod.exhaust)
  from assms(1) obtain W where W: "fold (\<lambda>col W. case W of None \<Rightarrow> None | Some W \<Rightarrow> gj_step m col W) [0..<m]
      (Some (A, B)) = Some W" "T = snd W" unfolding gauss_jordan_def Let_def AB prod.case by blast
  have "gj_inv m (rm S) m W" by (rule gj_fold [OF gj_start [OF AB assms(2)] order.refl W(1)])
  then show "fmat m m T" "meq m m (rmul m (rm T) (rm S)) rid" by (simp_all add: gj_inv_def W(2) meq_def)
qed

end
