(* ===== verification/RealMatrix.thy ===== *)
theory RealMatrix
  imports FltMatrix
begin

text \<open>
  The algebra of the Kalman update on real matrices: positive semidefinite forms, and the Joseph
  form of the posterior covariance, which is the textbook form P - K H P when the gain is optimal.
\<close>

section \<open>Positive semidefinite matrices\<close>

text \<open>The quadratic form of a column (any matrix whose first column is meant).\<close>
definition psd :: "nat \<Rightarrow> rmat \<Rightarrow> bool" where
  "psd n A \<longleftrightarrow> (\<forall>V. 0 \<le> rmul n (rtr V) (rmul n A V) 0 0)"

lemma psdD: "psd n A \<Longrightarrow> 0 \<le> rmul n (rtr V) (rmul n A V) 0 0"
  by (simp add: psd_def)

lemma psd_cong:
  assumes "meq n n A B" "psd n A"
  shows "psd n B"
proof -
  have "rmul n (rtr V) (rmul n B V) 0 0 = rmul n (rtr V) (rmul n A V) 0 0" for V
    by (rule rmul_cong, simp, rule rmul_cong) (use assms(1) in \<open>simp_all add: meq_def\<close>)
  then show ?thesis using assms(2) by (simp add: psd_def)
qed

lemma psd_congr: "psd k P \<Longrightarrow> psd n (rmul k (rmul k A P) (rtr A))"
  unfolding psd_def
proof
  fix V
  assume P: "\<forall>V. 0 \<le> rmul k (rtr V) (rmul k P V) 0 0"
  have "rmul n (rtr V) (rmul n (rmul k (rmul k A P) (rtr A)) V) =
      rmul k (rtr (rmul n (rtr A) V)) (rmul k P (rmul n (rtr A) V))"
    by (simp add: rmul_assoc rtr_rmul)
  then show "0 \<le> rmul n (rtr V) (rmul n (rmul k (rmul k A P) (rtr A)) V) 0 0" using P by simp
qed

lemma psd_radd: "psd n A \<Longrightarrow> psd n B \<Longrightarrow> psd n (radd A B)"
  by (simp add: psd_def rmul_radd) (simp add: radd_def)

definition rdiag :: "(nat \<Rightarrow> real) \<Rightarrow> rmat" where
  "rdiag d = (\<lambda>i j. if i = j then d i else 0)"

lemma rmul_rdiag: "i < n \<Longrightarrow> rmul n (rdiag d) V i j = d i * V i j"
  using rid_sum [of i "\<lambda>k. d i * V k j" n]
  by (simp add: rmul_def rdiag_def if_distrib [of "\<lambda>c. c * _"] cong: if_cong)

lemma psd_rdiag: "(\<And>i. i < n \<Longrightarrow> 0 \<le> d i) \<Longrightarrow> psd n (rdiag d)"
  unfolding psd_def
proof
  fix V :: rmat
  assume "\<And>i. i < n \<Longrightarrow> 0 \<le> d i"
  then have "0 \<le> (\<Sum>i<n. V i 0 * (d i * V i 0))"
    by (intro sum_nonneg) (simp add: mult.left_commute [of _ "d _"])
  also have "\<dots> = rmul n (rtr V) (rmul n (rdiag d) V) 0 0"
    unfolding rmul_def [of n "rtr V"] by (rule sum.cong) (simp_all add: rmul_rdiag rtr_def)
  finally show "0 \<le> rmul n (rtr V) (rmul n (rdiag d) V) 0 0" .
qed

lemma psd_diag_entry:
  assumes "psd n A" "i < n"
  shows "0 \<le> A i i"
proof -
  define V :: rmat where "V = (\<lambda>k _. if i = k then 1 else 0)"
  have "rmul n A V k 0 = A k i" for k
    using rid_sum [of i "\<lambda>l. A k l" n] assms(2) by (simp add: rmul_def V_def mult.commute)
  then have "rmul n (rtr V) (rmul n A V) 0 0 = A i i"
    using rid_sum [of i "\<lambda>k. A k i" n] assms(2) unfolding rmul_def [of n "rtr V"]
    by (simp add: V_def rtr_def)
  then show ?thesis using psdD [OF assms(1), of V] by simp
qed

section \<open>The posterior covariance\<close>

lemma joseph_short:
  assumes KS: "meq n m (rmul m K (radd (rmul n H (rmul n P (rtr H))) R)) (rmul n P (rtr H))"
  shows "meq n n (radd (rmul n (rmul n (rsub rid (rmul m K H)) P) (rtr (rsub rid (rmul m K H))))
      (rmul m (rmul m K R) (rtr K))) (rsub P (rmul m K (rmul n H P)))"
  unfolding meq_def
proof (intro allI impI)
  fix i j assume i: "i < n" and j: "j < n"
  let ?G = "rmul m K H"
  let ?X = "rmul n (rsub rid ?G) P"
  have X: "?X i k = rsub P (rmul n ?G P) i k" for k
    using i by (simp add: rmul_rsub) (simp add: rsub_def rmul_rid)
  have "rmul n ?X (rtr (rsub rid ?G)) i j = ?X i j - rmul n ?X (rtr ?G) i j"
    using j by (simp add: rmul_rsub) (simp add: rsub_def rmul_rid)
  also have "rmul n ?X (rtr ?G) i j = rmul n (rsub P (rmul n ?G P)) (rtr ?G) i j"
    by (rule rmul_cong) (simp_all add: X)
  also have "\<dots> = rmul n P (rtr ?G) i j - rmul n (rmul n ?G P) (rtr ?G) i j"
    by (simp add: rmul_rsub) (simp add: rsub_def)
  also have "rmul n P (rtr ?G) i j = rmul m (rmul n P (rtr H)) (rtr K) i j"
    by (simp add: rtr_rmul rmul_assoc)
  also have "\<dots> = rmul m (rmul m K (radd (rmul n H (rmul n P (rtr H))) R)) (rtr K) i j"
    by (rule rmul_cong) (use KS i in \<open>simp_all add: meq_def\<close>)
  also have "\<dots> = rmul n (rmul n ?G P) (rtr ?G) i j + rmul m (rmul m K R) (rtr K) i j"
    by (simp add: rmul_radd rtr_rmul rmul_assoc) (simp add: radd_def)
  finally have "rmul n ?X (rtr (rsub rid ?G)) i j + rmul m (rmul m K R) (rtr K) i j = ?X i j" by simp
  then show "radd (rmul n ?X (rtr (rsub rid ?G))) (rmul m (rmul m K R) (rtr K)) i j =
      rsub P (rmul m K (rmul n H P)) i j"
    unfolding radd_def X by (simp add: rmul_assoc)
qed

text \<open>The amount by which the update lowers a variance is a value of the innovation form.\<close>
lemma gain_reduction:
  assumes KS: "meq n m (rmul m K S) (rmul n P (rtr H))" and sym: "meq n n P (rtr P)"
    and S: "psd m S" and i: "i < n"
  shows "0 \<le> rmul m K (rmul n H P) i i"
proof -
  have "rmul m K (rmul n H P) i i = rmul m K (rmul n H (rtr P)) i i"
    by (rule rmul_cong, simp, rule rmul_cong) (use sym i in \<open>simp_all add: meq_def\<close>)
  also have "\<dots> = rmul m K (rtr (rmul n P (rtr H))) i i" by (simp add: rtr_rmul)
  also have "\<dots> = rmul m K (rtr (rmul m K S)) i i"
    by (rule rmul_cong) (use KS i in \<open>simp_all add: meq_def rtr_def\<close>)
  also have "\<dots> = rmul m (rmul m K (rtr S)) (rtr K) i i" by (simp add: rtr_rmul rmul_assoc)
  also have "\<dots> = rmul m (rmul m K S) (rtr K) i i"
    unfolding rmul_def rtr_def
    by (simp add: sum_distrib_left sum_distrib_right) (subst sum.swap, simp add: mult_ac)
  finally have e: "rmul m K (rmul n H P) i i = rmul m (rmul m K S) (rtr K) i i" .
  define V :: rmat where "V = (\<lambda>k _. K i k)"
  have "rmul m (rtr V) (rmul m S V) 0 0 = rmul m (rmul m K S) (rtr K) i i"
    by (simp add: rmul_assoc) (simp add: rmul_def rtr_def V_def)
  then show ?thesis using psdD [OF S, of V] e by simp
qed

end
