(* ===== verification/EkfSafe.thy ===== *)
theory EkfSafe
  imports EkfUpdate
begin

text \<open>
  The filter over whole runs: its events, and the invariant that every event keeps.  An update can
  only lower a variance, so the ceilings of the clamp never bind before the predictions' process
  noise has pushed a bias variance up to them, and until then the covariance stays positive
  semidefinite.
\<close>

section \<open>One update keeps the covariance sound\<close>

definition floor_at :: "nat \<Rightarrow> real" where
  "floor_at i = (if iQ0 \<le> i \<and> i \<le> iQ3 \<or> iBax \<le> i \<and> i \<le> iBgz then 1 / 10 ^ 12 else 0)"

definition below_ceiling :: "rmat \<Rightarrow> bool" where
  "below_ceiling P \<longleftrightarrow> (\<forall>i. (iBax \<le> i \<and> i \<le> iBaz \<longrightarrow> P i i \<le> 1) \<and> (iBgx \<le> i \<and> i \<le> iBgz \<longrightarrow> P i i \<le> 1 / 4))"

definition cov_ok :: "ekf \<Rightarrow> bool" where
  "cov_ok e \<longleftrightarrow> ekf_fin e \<and> sym (PR e) \<and> psd EKF_N (PR e)"

lemma clamp_var_below:
  assumes "0 \<le> v" "iBax \<le> i \<and> i \<le> iBaz \<Longrightarrow> v \<le> 1" "iBgx \<le> i \<and> i \<le> iBgz \<Longrightarrow> v \<le> 1 / 4"
  shows "clamp_var i (Fin v) = Fin (v + (if v < floor_at i then floor_at i - v else 0))"
proof -
  have n: "(i::nat) \<le> 9 \<Longrightarrow> \<not> 10 \<le> i" "13 \<le> i \<Longrightarrow> \<not> i \<le> 12" by auto
  show ?thesis
    using assms by (auto simp: clamp_var_def floor_at_def P_MIN_QUAT_def P_MIN_BIAS_A_def P_MAX_BIAS_A_def
        P_MIN_BIAS_G_def P_MAX_BIAS_G_def clampr_def)
qed

lemma correct_keeps_x:
  assumes "ekf_fin e" "fmat m EKF_N H" "length r = m" "length v = m"
  shows "\<forall>i<EKF_N. isfin (ek_x (ekf_correct m H (map Fin r) (map Fin v) e) i)"
proof (cases "gauss_jordan m (upd_S m H (map Fin r) (upd_PHt m (ek_P e) H))")
  case None
  then show ?thesis using assms(1) by (simp add: ekf_correct_def Let_def ekf_fin_def)
next
  case (Some T)
  obtain K where "\<forall>i<EKF_N. ek_x (ekf_correct m H (map Fin r) (map Fin v) e) i =
       Fin (val (ek_x e i) + (\<Sum>j<m. K i j * v ! j))"
    by (rule correct_real [OF assms Some])
  then show ?thesis by simp
qed

lemma correct_P:
  assumes "gauss_jordan m (upd_S m H R (upd_PHt m (ek_P e) H)) = Some T"
  shows "ek_P (ekf_correct m H R v e) i j =
    (if i = j then clamp_var i (joseph_P m H R T e i i) else joseph_P m H R T e i j)"
  unfolding ekf_correct_def Let_def assms option.case joseph_P_def
  by (simp add: constrain_variances_apply)

lemma innov_cov_psd:
  assumes "psd EKF_N P" "\<forall>x \<in> set r. 0 \<le> x" "length r = m"
  shows "psd m (innov_cov H P r)"
proof -
  have "psd m (rmul EKF_N (rmul EKF_N H P) (rtr H))" using psd_congr [OF assms(1)] .
  moreover have "psd m (diag_of r)"
    unfolding diag_of_def by (rule psd_rdiag) (use assms in simp)
  ultimately show ?thesis unfolding innov_cov_def rmul_assoc by (rule psd_radd)
qed

lemma posterior_facts:
  assumes P: "psd EKF_N P" "sym P" and r: "\<forall>x \<in> set r. 0 \<le> x" "length r = m"
    and K: "kalman_gain m H P r K"
    and J: "meq EKF_N EKF_N (posterior m H P K)
      (radd (rmul EKF_N (rmul EKF_N (rsub rid (rmul m K H)) P) (rtr (rsub rid (rmul m K H))))
        (rmul m (rmul m K (diag_of r)) (rtr K)))"
  shows "psd EKF_N (posterior m H P K)" "i < EKF_N \<Longrightarrow> posterior m H P K i i \<le> P i i"
proof -
  have "psd m (diag_of r)" unfolding diag_of_def by (rule psd_rdiag) (use r in simp)
  then have "psd EKF_N (radd (rmul EKF_N (rmul EKF_N (rsub rid (rmul m K H)) P) (rtr (rsub rid (rmul m K H))))
        (rmul m (rmul m K (diag_of r)) (rtr K)))"
    by (intro psd_radd psd_congr P)
  moreover have "meq EKF_N EKF_N B A" if "meq EKF_N EKF_N A B" for A B using that by (simp add: meq_def)
  ultimately show "psd EKF_N (posterior m H P K)" using J psd_cong by blast
  show "posterior m H P K i i \<le> P i i" if "i < EKF_N"
    using gain_reduction [OF K [unfolded kalman_gain_def] P(2) [unfolded sym_def] innov_cov_psd [OF P(1) r] that]
    by (simp add: posterior_def rsub_def)
qed

lemma correct_keeps_cov:
  assumes e: "cov_ok e" "below_ceiling (PR e)" and H: "fmat m EKF_N H" and r: "length r = m" "\<forall>x \<in> set r. 0 \<le> x"
    and v: "length v = m"
  shows "cov_ok (ekf_correct m H (map Fin r) (map Fin v) e)"
    "i < EKF_N \<Longrightarrow> PR (ekf_correct m H (map Fin r) (map Fin v) e) i i \<le> max (PR e i i) (floor_at i)"
proof -
  let ?e = "ekf_correct m H (map Fin r) (map Fin v) e"
  have ef: "ekf_fin e" and es: "sym (PR e)" and ep: "psd EKF_N (PR e)" using e(1) by (simp_all add: cov_ok_def)
  have "cov_ok ?e \<and> (\<forall>i<EKF_N. PR ?e i i \<le> max (PR e i i) (floor_at i))"
  proof (cases "gauss_jordan m (upd_S m H (map Fin r) (upd_PHt m (ek_P e) H))")
    case None
    then have "?e = e" by (simp add: ekf_correct_def Let_def)
    then show ?thesis using e(1) by (simp add: le_max_iff_disj)
  next
    case (Some T)
    obtain K where K: "kalman_gain m (rm H) (PR e) r K"
      and J: "\<forall>i<EKF_N. \<forall>j<EKF_N. joseph_P m H (map Fin r) T e i j = Fin (posterior m (rm H) (PR e) K i j)"
      and JJ: "meq EKF_N EKF_N (posterior m (rm H) (PR e) K)
      (radd (rmul EKF_N (rmul EKF_N (rsub rid (rmul m K (rm H))) (PR e)) (rtr (rsub rid (rmul m K (rm H)))))
        (rmul m (rmul m K (diag_of r)) (rtr K)))"
      by (rule correct_real [OF ef H r(1) v Some]) (use es in blast)
    define Q where "Q = posterior m (rm H) (PR e) K"
    note Q = posterior_facts [OF ep es r(2,1) K JJ, folded Q_def]
    define d where "d i = (if Q i i < floor_at i then floor_at i - Q i i else 0)" for i
    have nn: "0 \<le> Q i i" if "i < EKF_N" for i by (rule psd_diag_entry [OF Q(1) that])
    have ceil: "iBax \<le> i \<and> i \<le> iBaz \<Longrightarrow> Q i i \<le> 1" "iBgx \<le> i \<and> i \<le> iBgz \<Longrightarrow> Q i i \<le> 1 / 4"
      if "i < EKF_N" for i
      using Q(2) [OF that] e(2) unfolding below_ceiling_def by (blast intro: order_trans)+
    have ent: "ek_P ?e i j = Fin (radd Q (rdiag d) i j)" if ij: "i < EKF_N" "j < EKF_N" for i j
    proof (cases "i = j")
      case True
      have "ek_P ?e i i = clamp_var i (Fin (Q i i))"
        using J ij unfolding correct_P [OF Some] by (simp add: Q_def)
      also have "\<dots> = Fin (Q i i + d i)"
        unfolding d_def by (rule clamp_var_below [OF nn [OF ij(1)] ceil [OF ij(1)]])
      finally show ?thesis by (simp add: True radd_def rdiag_def)
    next
      case False
      then show ?thesis using J ij unfolding correct_P [OF Some] by (simp add: Q_def radd_def rdiag_def)
    qed
    have fin: "ekf_fin ?e"
      using correct_keeps_x [OF ef H r(1) v] ent by (simp add: ekf_fin_def fmat_def)
    have pr: "PR ?e i j = radd Q (rdiag d) i j" if "i < EKF_N" "j < EKF_N" for i j
      using ent [OF that] by (simp add: rm_def)
    have "psd EKF_N (rdiag d)" by (rule psd_rdiag) (simp add: d_def)
    then have "psd EKF_N (radd Q (rdiag d))" using Q(1) by (intro psd_radd)
    then have p: "psd EKF_N (PR ?e)" by (rule psd_cong [rotated]) (simp add: meq_def pr)
    have sq: "Q i j = Q j i" if "i < EKF_N" "j < EKF_N" for i j
    proof -
      have "joseph_P m H (map Fin r) T e i j = joseph_P m H (map Fin r) T e j i"
        unfolding joseph_P_def Let_def symmetrize_apply [OF that] symmetrize_apply [OF that(2,1)]
        by (simp add: add.commute)
      then show ?thesis using J that by (simp add: Q_def)
    qed
    have "sym (PR ?e)" using sq by (auto simp: sym_def meq_def rtr_def pr radd_def rdiag_def)
    moreover have "PR ?e i i \<le> max (PR e i i) (floor_at i)" if "i < EKF_N" for i
      using Q(2) [OF that] by (simp add: pr that radd_def rdiag_def d_def max_def)
    ultimately show ?thesis using fin p by (simp add: cov_ok_def)
  qed
  then show "cov_ok ?e" "i < EKF_N \<Longrightarrow> PR ?e i i \<le> max (PR e i i) (floor_at i)" by blast+
qed

end
