(* ===== verification/EkfPredict.thy ===== *)
theory EkfPredict
  imports EkfSafe
begin

text \<open>
  The prediction step on finite data: the state stays finite, the attitude is normalised, and the
  covariance becomes F P F' + Q, in which the rows of F that belong to the biases are those of the
  identity.
\<close>

lemma mat_sets_Cons: "mat_sets ((i, j, v) # es) M = mat_sets es (mat_upd M i j v)"
  by (simp add: mat_sets_def)

lemma mat_sets_fmat: "fmat n m M \<Longrightarrow> \<forall>(i, j, v) \<in> set es. isfin v \<Longrightarrow> fmat n m (mat_sets es M)"
proof (induction es arbitrary: M)
  case (Cons e es)
  obtain i j v where e: "e = (i, j, v)" by (cases e) auto
  have "fmat n m (mat_upd M i j v)" using Cons.prems by (auto simp: fmat_def mat_upd_apply e)
  then show ?case using Cons by (simp add: e mat_sets_Cons)
qed (simp add: mat_sets_def)

lemma mat_sets_row: "\<forall>(a, b, v) \<in> set es. a \<noteq> i \<Longrightarrow> mat_sets es M i j = M i j"
  by (induction es arbitrary: M) (auto simp: mat_sets_def mat_upd_apply)

lemma mat_adds_fmat: "fmat n m M \<Longrightarrow> \<forall>(i, j, v) \<in> set es. isfin v \<Longrightarrow> fmat n m (mat_adds es M)"
proof (induction es arbitrary: M)
  case (Cons e es)
  obtain i j v where e: "e = (i, j, v)" by (cases e) auto
  have "fmat n m (mat_upd M i j (M i j + v))"
    using Cons.prems isfin_ops(1) [of "M i j" v] by (auto simp: fmat_def mat_upd_apply e)
  then show ?case using Cons by (simp add: e mat_adds_def)
qed (simp add: mat_adds_def)

lemma mat_adds_row: "\<forall>(a, b, v) \<in> set es. a \<noteq> i \<Longrightarrow> mat_adds es M i j = M i j"
  by (induction es arbitrary: M) (auto simp: mat_adds_def mat_upd_apply)

definition fin3 :: "vec3 \<Rightarrow> bool" where
  "fin3 v \<longleftrightarrow> isfin (v3 v 0) \<and> isfin (v3 v 1) \<and> isfin (v3 v 2)"

lemma fin3_iff [simp]: "fin3 (a, b, c) \<longleftrightarrow> isfin a \<and> isfin b \<and> isfin c"
  by (simp add: fin3_def v3_def)

lemma v3_simps [simp]: "v3 (a, b, c) 0 = a" "v3 (a, b, c) (Suc 0) = b" "v3 (a, b, c) 1 = b" "v3 (a, b, c) 2 = c"
  by (simp_all add: v3_def)

lemma isfin_arith [simp]:
  "isfin a \<Longrightarrow> isfin b \<Longrightarrow> isfin (a + b)" "isfin a \<Longrightarrow> isfin b \<Longrightarrow> isfin (a - b)"
  "isfin a \<Longrightarrow> isfin b \<Longrightarrow> isfin (a * b)" "isfin a \<Longrightarrow> isfin (- a)"
  by (rule isfin_ops; assumption)+

lemma fin_get_quat: "\<forall>i<EKF_N. isfin (x i) \<Longrightarrow> fin_quat (get_quat x)"
  by (simp add: get_quat_def fin_quat_def)

lemma rot_fin:
  assumes "fin_quat q" "i < 3" "j < 3"
  shows "isfin (quat_to_rot_body2ned q i j)"
proof -
  obtain w x y z where "q = mk_quat (Fin w) (Fin x) (Fin y) (Fin z)" using assms(1) by (rule fin_quatE)
  then show ?thesis using rot_entries [of q w x y z i j] assms by simp
qed

lemma upt_3: "[0..<3] = [0, 1, 2]" by (simp add: upt_rec)

section \<open>The Jacobian\<close>

lemma F_diag: "for_upto n (\<lambda>i F. mat_upd F i i (Fin 1)) mat_zero i j = Fin (if i = j \<and> i < n then 1 else 0)"
  by (induction n) (auto simp: mat_upd_apply mat_zero_def less_Suc_eq)

lemma build_F_fin:
  assumes x: "\<forall>i<EKF_N. isfin (x i)" and "isfin dt" "fin3 gyro"
  shows "fmat EKF_N EKF_N (build_F dt gyro x)"
proof -
  note R = rot_fin [OF fin_get_quat [OF x]]
  have g: "isfin (v3 gyro 0)" "isfin (v3 gyro 1)" "isfin (v3 gyro 2)" using assms(3) by (simp_all add: fin3_def)
  have xs: "isfin (x iU)" "isfin (x iV)" "isfin (x iW)" "isfin (x iQ0)" "isfin (x iQ1)" "isfin (x iQ2)" "isfin (x iQ3)"
    using x by simp_all
  have u: "fmat EKF_N EKF_N (mat_upd M i j v)" if "fmat EKF_N EKF_N M" "isfin v" for M i j v
    using that by (simp add: fmat_def mat_upd_apply)
  show ?thesis
    unfolding build_F_def Let_def upt_3 fold_simps
    apply (rule mat_sets_fmat)
     apply (intro u mat_adds_fmat mat_sets_fmat)
    using xs g R assms(2) by (simp_all add: fmat_def F_diag)
qed

lemma build_F_bias_row:
  assumes "iBax \<le> i" "i < EKF_N"
  shows "build_F dt gyro x i j = Fin (if i = j then 1 else 0)"
  unfolding build_F_def Let_def upt_3 fold_simps
  using assms by (simp add: mat_sets_row mat_adds_row mat_upd_apply F_diag)

section \<open>The state\<close>

lemma cross3_fin: "fin3 a \<Longrightarrow> fin3 b \<Longrightarrow> fin3 (cross3 a b)"
  by (cases a; cases b) (simp add: cross3_def)

lemma put_quat_fin: "fin_quat q \<Longrightarrow> \<forall>i<EKF_N. isfin (x i) \<Longrightarrow> \<forall>i<EKF_N. isfin (put_quat q x i)"
  by (simp add: put_quat_def fin_quat_def)

lemma get_put_quat [simp]: "get_quat (put_quat q x) = q"
  by (simp add: get_quat_def put_quat_def mk_quat_def)

lemma normalize_fin:
  assumes "\<forall>i<EKF_N. isfin (ek_x e i)"
  shows "\<forall>i<EKF_N. isfin (ek_x (normalize_quat e) i)" "sqnorm (get_quat (ek_x (normalize_quat e))) = 1"
  using quat_norm_fin [OF fin_get_quat [OF assms]] put_quat_fin [OF _ assms]
  by (simp_all add: normalize_quat_def)

lemma quat_mul_fin: "fin_quat p \<Longrightarrow> fin_quat q \<Longrightarrow> fin_quat (quat_mul p q)"
  by (simp add: fin_quat_def quat_mul_def)

lemma predict_x_fin:
  assumes x: "\<forall>i<EKF_N. isfin (x i)" and dt: "isfin dt" and a: "fin3 a" and g: "fin3 g"
  shows "\<forall>i<EKF_N. isfin (predict_x dt a g x i)" "sqnorm (get_quat (predict_x dt a g x)) = 1"
proof -
  define R where "R = quat_to_rot_body2ned (get_quat x)"
  have R: "isfin (R i j)" if "i < 3" "j < 3" for i j
    unfolding R_def by (rule rot_fin [OF fin_get_quat [OF x] that])
  define w where "w = cross3 g (x iU, x iV, x iW)"
  have w: "fin3 w" unfolding w_def by (rule cross3_fin [OF g]) (use x in simp)
  define acc where "acc i = v3 a i + v3 (R 2 0 * GRAVITY, R 2 1 * GRAVITY, R 2 2 * GRAVITY) i - v3 w i" for i
  have acc: "isfin (acc i)" if "i < 3" for i
  proof -
    from that consider "i = 0" | "i = 1" | "i = 2" by linarith
    then show ?thesis using a w R by cases (simp_all add: acc_def fin3_def GRAVITY_def)
  qed
  define y where "y = for_upto 3 (\<lambda>i x. x(iX + i := x (iX + i) + (R i 0 * x iU + R i 1 * x iV + R i 2 * x iW) * dt)) x"
  have y: "\<forall>i<EKF_N. isfin (y i)"
    unfolding y_def upt_3 fold_simps using x R dt by simp
  define z where "z = for_upto 3 (\<lambda>i x. x(iU + i := x (iU + i) + acc i * dt)) y"
  have z: "\<forall>i<EKF_N. isfin (z i)"
    unfolding z_def upt_3 fold_simps using y acc dt by simp
  define q where "q = quat_mul (get_quat z) (mk_quat (Fin 1) (Fin 0.5 * v3 g 0 * dt) (Fin 0.5 * v3 g 1 * dt) (Fin 0.5 * v3 g 2 * dt))"
  have q: "fin_quat q"
    unfolding q_def by (rule quat_mul_fin [OF fin_get_quat [OF z]]) (use g dt in \<open>simp add: fin_quat_def fin3_def\<close>)
  have "predict_x dt a g x = put_quat (quat_norm q) z"
    unfolding predict_x_def Let_def q_def z_def y_def acc_def w_def R_def ..
  then show "\<forall>i<EKF_N. isfin (predict_x dt a g x i)" "sqnorm (get_quat (predict_x dt a g x)) = 1"
    using quat_norm_fin [OF q] put_quat_fin [OF _ z] by simp_all
qed

section \<open>The whole step\<close>

definition q_diag :: "nat \<Rightarrow> real" where
  "q_diag i = (if i \<le> iZ then 1 / 10 ^ 4 else if i \<le> iW then 1 / 10 ^ 3 else if i \<le> iQ3 then 1 / 10 ^ 5
     else if i \<le> iBaz then 1 / 10 ^ 7 else 1 / 10 ^ 9)"

definition q_ok :: "ekf \<Rightarrow> bool" where
  "q_ok e \<longleftrightarrow> (\<forall>i<EKF_N. \<forall>j<EKF_N. ek_Q e i j = Fin (rdiag q_diag i j))"

lemma predict_P:
  assumes e: "ekf_fin e" and q: "q_ok e" and F: "fmat EKF_N EKF_N F"
    and P': "P' = mat_mul EKF_N (mat_mul EKF_N F (ek_P e)) (mat_trans EKF_N F wB)"
    and ij: "i < EKF_N" "j < EKF_N"
  shows "mat_add EKF_N P' (ek_Q e) P' i j =
    Fin (radd (rmul EKF_N (rmul EKF_N (rm F) (PR e)) (rtr (rm F))) (rdiag q_diag) i j)"
proof -
  have P: "fmat EKF_N EKF_N (ek_P e)" using e by (simp add: ekf_fin_def)
  note A = mat_mul_rm [OF F P]
  have T: "fmat EKF_N EKF_N (mat_trans EKF_N F wB)" using F by (simp add: fmat_def mat_trans_apply)
  note B = mat_mul_rm [OF A(1) T]
  have "rm P' i j = rmul EKF_N (rm (mat_mul EKF_N F (ek_P e))) (rm (mat_trans EKF_N F wB)) i j"
    using B(2) ij by (simp add: meq_def P')
  also have "\<dots> = rmul EKF_N (rmul EKF_N (rm F) (PR e)) (rtr (rm F)) i j"
    by (rule rmul_cong) (use A(2) ij in \<open>simp_all add: meq_def\<close>, simp add: rm_def rtr_def mat_trans_apply)
  finally have "P' i j = Fin (rmul EKF_N (rmul EKF_N (rm F) (PR e)) (rtr (rm F)) i j)"
    using fmatD [OF B(1) ij] by (simp add: P')
  then show ?thesis using q ij by (simp add: mat_add_apply q_ok_def radd_def)
qed

lemma sym_congr: "sym P \<Longrightarrow> meq EKF_N EKF_N (rmul EKF_N (rmul EKF_N F P) (rtr F)) (rtr (rmul EKF_N (rmul EKF_N F P) (rtr F)))"
  unfolding meq_def
proof (intro allI impI)
  fix i j :: nat assume P: "sym P" and i: "i < EKF_N" "j < EKF_N"
  have "rmul EKF_N (rmul EKF_N F P) (rtr F) i j = rmul EKF_N F (rmul EKF_N P (rtr F)) i j" by (simp only: rmul_assoc)
  also have "\<dots> = rmul EKF_N F (rmul EKF_N (rtr P) (rtr F)) i j"
    by (rule rmul_cong, simp, rule rmul_cong) (use P i in \<open>simp_all add: sym_def meq_def\<close>)
  also have "\<dots> = rtr (rmul EKF_N (rmul EKF_N F P) (rtr F)) i j" by (simp add: rtr_rmul rmul_assoc)
  finally show "rmul EKF_N (rmul EKF_N F P) (rtr F) i j = rtr (rmul EKF_N (rmul EKF_N F P) (rtr F)) i j" .
qed

lemma predict_keeps_cov:
  assumes e: "cov_ok e" and q: "q_ok e" and "ek_init e" and i: "isfin dt" "fin3 a" "fin3 g"
  shows "cov_ok (ekf_predict dt a g e)" "sqnorm (get_quat (ek_x (ekf_predict dt a g e))) = 1"
    "iBax \<le> k \<Longrightarrow> k < EKF_N \<Longrightarrow> PR (ekf_predict dt a g e) k k = PR e k k + q_diag k"
proof -
  have x: "\<forall>i<EKF_N. isfin (ek_x e i)" and ef: "ekf_fin e" and P: "sym (PR e)" "psd EKF_N (PR e)"
    using e by (simp_all add: cov_ok_def ekf_fin_def)
  define ac where "ac = (v3 a 0 - ek_x e iBax, v3 a 1 - ek_x e iBay, v3 a 2 - ek_x e iBaz)"
  define gc where "gc = (v3 g 0 - ek_x e iBgx, v3 g 1 - ek_x e iBgy, v3 g 2 - ek_x e iBgz)"
  have c: "fin3 ac" "fin3 gc" using i x by (simp_all add: ac_def gc_def fin3_def)
  define y where "y = predict_x dt ac gc (ek_x e)"
  note y = predict_x_fin [OF x i(1) c, folded y_def]
  define F where "F = build_F dt gc y"
  have F: "fmat EKF_N EKF_N F" unfolding F_def by (rule build_F_fin [OF y(1) i(1) c(2)])
  let ?e = "ekf_predict dt a g e"
  have X: "ek_x ?e = y"
    using assms(3) by (simp add: ekf_predict_def Let_def y_def ac_def gc_def)
  have PP: "ek_P ?e i j = Fin (radd (rmul EKF_N (rmul EKF_N (rm F) (PR e)) (rtr (rm F))) (rdiag q_diag) i j)"
    if "i < EKF_N" "j < EKF_N" for i j
    using assms(3) predict_P [OF ef q F refl that, of "ek_wB e"]
    by (simp add: ekf_predict_def Let_def F_def y_def ac_def gc_def)
  let ?M = "rmul EKF_N (rmul EKF_N (rm F) (PR e)) (rtr (rm F))"
  have pr: "meq EKF_N EKF_N (radd ?M (rdiag q_diag)) (PR ?e)" by (simp add: meq_def rm_def PP)
  have "psd EKF_N (radd ?M (rdiag q_diag))"
    by (intro psd_radd psd_congr P(2) psd_rdiag) (simp add: q_diag_def)
  then have p: "psd EKF_N (PR ?e)" by (rule psd_cong [OF pr])
  have s: "sym (PR ?e)"
  proof -
    have "PR ?e i j = PR ?e j i" if ij: "i < EKF_N" "j < EKF_N" for i j
    proof -
      have "PR ?e i j = ?M i j + rdiag q_diag i j" "PR ?e j i = ?M j i + rdiag q_diag j i"
        using pr ij by (simp_all add: meq_def radd_def)
      moreover have "?M i j = ?M j i" using sym_congr [OF P(1), of "rm F"] ij
        by (simp only: meq_def rtr_def [of ?M])
      ultimately show ?thesis by (simp add: rdiag_def)
    qed
    then show ?thesis by (simp add: sym_def meq_def rtr_def)
  qed
  have "ekf_fin ?e" unfolding ekf_fin_def X using y(1) PP by (simp add: fmat_def)
  then show "cov_ok ?e" using p s by (simp add: cov_ok_def)
  show "sqnorm (get_quat (ek_x ?e)) = 1" unfolding X by (rule y(2))
  show "PR ?e k k = PR e k k + q_diag k" if "iBax \<le> k" "k < EKF_N"
  proof -
    have Fk: "rm F k j = rid k j" for j
      using build_F_bias_row [OF that, of dt gc y j] by (simp add: F_def rm_def rid_def)
    have "?M k k = rmul EKF_N (rmul EKF_N rid (PR e)) (rtr rid) k k"
      by (rule rmul_cong, rule rmul_cong) (simp_all add: Fk, auto simp: rtr_def Fk rid_def)
    then have "?M k k = PR e k k" using that by (simp add: rmul_rid)
    then show ?thesis
      using pr [unfolded meq_def, rule_format, OF that(2) that(2)] by (simp add: radd_def rdiag_def)
  qed
qed

end
