(* ===== verification/EkfRun.thy ===== *)
theory EkfRun
  imports EkfPredict
begin

text \<open>
  The filter as a machine: the calls the state manager makes are its events, and a run is any
  sequence of them.
\<close>

datatype ekf_event =
    EvPredict flt vec3 vec3
  | EvQuaternion quat flt
  | EvGravity vec3 flt
  | EvPosition vec3 flt
  | EvNedVel vec3 flt
  | EvWheel flt flt
  | EvLegWheel flt flt flt flt

fun ekf_step :: "ekf_event \<Rightarrow> ekf \<Rightarrow> ekf" where
  "ekf_step (EvPredict dt a g) e = ekf_predict dt a g e"
| "ekf_step (EvQuaternion q r) e = ekf_update_quaternion q r e"
| "ekf_step (EvGravity a r) e = ekf_update_gravity a r e"
| "ekf_step (EvPosition p r) e = ekf_update_position p r e"
| "ekf_step (EvNedVel v r) e = ekf_update_ned_vel v r e"
| "ekf_step (EvWheel u r) e = ekf_update_wheel_velocity u r e"
| "ekf_step (EvLegWheel u w ru rw) e = ekf_update_leg_wheel_velocity u w ru rw e"

definition ekf_run :: "ekf_event list \<Rightarrow> ekf \<Rightarrow> ekf" where
  "ekf_run evs e = fold ekf_step evs e"

text \<open>Finite data and a noise variance that is not negative.\<close>
definition noise_ok :: "flt \<Rightarrow> bool" where
  "noise_ok r \<longleftrightarrow> isfin r \<and> Fin 0 \<le> r"

fun ekf_ev_ok :: "ekf_event \<Rightarrow> bool" where
  "ekf_ev_ok (EvPredict dt a g) = (isfin dt \<and> fin3 a \<and> fin3 g)"
| "ekf_ev_ok (EvQuaternion q r) = (fin_quat q \<and> noise_ok r)"
| "ekf_ev_ok (EvGravity a r) = (fin3 a \<and> noise_ok r)"
| "ekf_ev_ok (EvPosition p r) = (fin3 p \<and> noise_ok r)"
| "ekf_ev_ok (EvNedVel v r) = (fin3 v \<and> noise_ok r)"
| "ekf_ev_ok (EvWheel u r) = (isfin u \<and> noise_ok r)"
| "ekf_ev_ok (EvLegWheel u w ru rw) = (isfin u \<and> isfin w \<and> noise_ok ru \<and> noise_ok rw)"

fun is_predict :: "ekf_event \<Rightarrow> bool" where
  "is_predict (EvPredict dt a g) = True"
| "is_predict ev = False"

section \<open>The invariant\<close>

definition bias_bound :: "nat \<Rightarrow> nat \<Rightarrow> real" where
  "bias_bound n i = (if i \<le> iBaz then 1 / 100 + real n / 10 ^ 7 else 1 / 10 ^ 4 + real n / 10 ^ 9)"

text \<open>After n predictions.\<close>
definition run_inv :: "nat \<Rightarrow> ekf \<Rightarrow> bool" where
  "run_inv n e \<longleftrightarrow> ek_init e \<and> cov_ok e \<and> q_ok e \<and> noise_ok (ek_vibe e) \<and>
     (\<forall>i. iBax \<le> i \<and> i < EKF_N \<longrightarrow> PR e i i \<le> bias_bound n i)"

lemma bias_bound_ceiling:
  assumes "run_inv n e" "n \<le> 9900000"
  shows "below_ceiling (PR e)"
proof -
  have "PR e i i \<le> bias_bound n i" if "iBax \<le> i" "i < EKF_N" for i
    using assms(1) that by (simp add: run_inv_def)
  moreover have "bias_bound n i \<le> (if i \<le> iBaz then 1 else 1 / 4)" for i
    using assms(2) by (simp add: bias_bound_def field_simps)
  ultimately have "PR e i i \<le> (if i \<le> iBaz then 1 else 1 / 4)" if "iBax \<le> i" "i < EKF_N" for i
    using that by (meson order_trans)
  note b = this
  show ?thesis unfolding below_ceiling_def
  proof (intro allI conjI impI)
    fix i :: nat
    show "PR e i i \<le> 1" if "iBax \<le> i \<and> i \<le> iBaz" using b [of i] that by simp
    show "PR e i i \<le> 1 / 4" if "iBgx \<le> i \<and> i \<le> iBgz" using b [of i] that by simp
  qed
qed

lemma correct_sel [simp]:
  "ek_init (ekf_correct m H R v e) = ek_init e" "ek_Q (ekf_correct m H R v e) = ek_Q e"
  "ek_vibe (ekf_correct m H R v e) = ek_vibe e"
  by (simp_all add: ekf_correct_def Let_def split: option.splits)

lemma normalize_sel [simp]:
  "ek_init (normalize_quat e) = ek_init e" "ek_Q (normalize_quat e) = ek_Q e"
  "ek_vibe (normalize_quat e) = ek_vibe e" "ek_P (normalize_quat e) = ek_P e"
  by (simp_all add: normalize_quat_def)

lemma normalize_inv: "run_inv n e \<Longrightarrow> run_inv n (normalize_quat e)"
  using normalize_fin(1) [of e]
  by (simp add: run_inv_def cov_ok_def ekf_fin_def q_ok_def)

lemma correct_inv:
  assumes inv: "run_inv n e" and n: "n \<le> 9900000" and H: "fmat m EKF_N H"
    and r: "length r = m" "\<forall>x \<in> set r. 0 \<le> x" and v: "length v = m"
  shows "run_inv n (ekf_correct m H (map Fin r) (map Fin v) e)"
proof -
  have e: "cov_ok e" using inv by (simp add: run_inv_def)
  note k = correct_keeps_cov [OF e bias_bound_ceiling [OF inv n] H r v]
  have "PR (ekf_correct m H (map Fin r) (map Fin v) e) i i \<le> bias_bound n i" if i: "iBax \<le> i" "i < EKF_N" for i
  proof -
    have "floor_at i \<le> bias_bound n i" by (simp add: floor_at_def bias_bound_def)
    moreover have "PR e i i \<le> bias_bound n i" using inv i by (simp add: run_inv_def)
    ultimately show ?thesis using k(2) [OF i(2)] by linarith
  qed
  then show ?thesis using inv k(1) by (simp add: run_inv_def q_ok_def)
qed

lemma noise_okE: "noise_ok r \<Longrightarrow> (\<And>x. r = Fin x \<Longrightarrow> 0 \<le> x \<Longrightarrow> P) \<Longrightarrow> P"
  by (cases r) (simp_all add: noise_ok_def)

lemma all_fin_list: "\<forall>x \<in> set vs. isfin x \<Longrightarrow> \<exists>ws. vs = map Fin ws"
  by (rule exI [of _ "map val vs"]) (auto simp: Fin_val intro: map_idI [symmetric])

lemma all_noise_list: "\<forall>x \<in> set vs. noise_ok x \<Longrightarrow> \<exists>ws. vs = map Fin ws \<and> (\<forall>x \<in> set ws. 0 \<le> x)"
proof -
  assume a: "\<forall>x \<in> set vs. noise_ok x"
  then have "vs = map Fin (map val vs)" by (auto simp: Fin_val noise_ok_def intro: map_idI [symmetric])
  moreover have "\<forall>x \<in> set (map val vs). 0 \<le> x" using a by (fastforce elim!: noise_okE)
  ultimately show ?thesis by blast
qed

text \<open>The form in which the events use it.\<close>
lemma correct_inv':
  assumes "run_inv n e" "n \<le> 9900000" "fmat m EKF_N H" "length R = m" "length V = m"
    "\<forall>x \<in> set R. noise_ok x" "\<forall>x \<in> set V. isfin x"
  shows "run_inv n (ekf_correct m H R V e)"
proof -
  obtain r where r: "R = map Fin r" "\<forall>x \<in> set r. 0 \<le> x" using all_noise_list [OF assms(6)] by blast
  obtain v where v: "V = map Fin v" using all_fin_list [OF assms(7)] by blast
  show ?thesis unfolding r(1) v by (rule correct_inv [OF assms(1-3)]) (use r v assms in simp_all)
qed

lemma zero_fmat: "fmat n m mat_zero" by (simp add: fmat_def mat_zero_def)

lemma meas_fmat: "\<forall>(i, j, v) \<in> set es. isfin v \<Longrightarrow> fmat m EKF_N (mat_sets es mat_zero)"
  by (rule mat_sets_fmat [OF zero_fmat])

lemma run_inv_x: "run_inv n e \<Longrightarrow> i < EKF_N \<Longrightarrow> isfin (ek_x e i)"
  by (simp add: run_inv_def cov_ok_def ekf_fin_def)

lemma shorter_arc_fin: "fin_quat q \<Longrightarrow> fin_quat (shorter_arc q p)"
  by (simp add: shorter_arc_def fin_quat_def)

lemma quaternion_inv:
  assumes inv: "run_inv n e" and n: "n \<le> 9900000" and q: "fin_quat q" "noise_ok r"
  shows "run_inv n (ekf_update_quaternion q r e)"
proof -
  have "run_inv n (e\<lparr>ek_innov_norm := c\<rparr>)" for c
    using inv by (simp add: run_inv_def cov_ok_def ekf_fin_def q_ok_def)
  note i = normalize_inv [OF correct_inv' [OF this n]]
  have s: "fin_quat (shorter_arc q (get_quat (ek_x e)))" using q(1) by (rule shorter_arc_fin)
  have p: "fin_quat (get_quat (ek_x e))" by (rule fin_get_quat) (use inv in \<open>simp add: run_inv_x\<close>)
  show ?thesis
    unfolding ekf_update_quaternion_def Let_def
    using inv s p q(2) by (simp add: run_inv_def [of n e]) (intro i meas_fmat, simp_all add: fin_quat_def)
qed

lemma gravity_inv:
  assumes inv: "run_inv n e" and n: "n \<le> 9900000" and a: "fin3 a" "noise_ok r"
  shows "run_inv n (ekf_update_gravity a r e)"
proof -
  define nrm where "nrm = sqrtf (v3 a 0 * v3 a 0 + v3 a 1 * v3 a 1 + v3 a 2 * v3 a 2)"
  obtain x y z where xyz: "v3 a 0 = Fin x" "v3 a 1 = Fin y" "v3 a 2 = Fin z"
    using a(1) by (auto simp: fin3_def elim!: isfinE)
  have "nrm = Fin (sqrt (x * x + y * y + z * z))" by (simp only: nrm_def xyz flt_Fin_ops) simp
  then obtain s where s: "nrm = Fin s" by blast
  obtain vb where vb: "ek_vibe e = Fin vb" "0 \<le> vb" using inv by (auto simp: run_inv_def elim: noise_okE)
  define vibe where "vibe = GRAV_VIBE_ALPHA * ((nrm - GRAVITY) * (nrm - GRAVITY)) + (Fin 1 - GRAV_VIBE_ALPHA) * ek_vibe e"
  have vibe: "noise_ok vibe"
    using vb by (simp add: vibe_def s noise_ok_def ekf_consts)
  define e1 where "e1 = e\<lparr>ek_vibe := vibe\<rparr>"
  have e1: "run_inv n e1" using inv vibe by (simp add: e1_def run_inv_def cov_ok_def ekf_fin_def q_ok_def)
  have sel: "ek_x e1 = ek_x e" "ek_P e1 = ek_P e" by (simp_all add: e1_def)
  define R_eff where "R_eff = r + GRAV_R_VIBE * vibe"
  have R: "noise_ok R_eff"
    using a(2) vibe by (auto simp: R_eff_def noise_ok_def GRAV_R_VIBE_def elim!: isfinE)
  have x: "isfin (ek_x e i)" if "i < EKF_N" for i using run_inv_x [OF inv that] .
  have p: "fin_quat (get_quat (ek_x e))" by (rule fin_get_quat) (use x in simp)
  have innov: "\<forall>x \<in> set (grav_innov a (ek_x e)). isfin x" "length (grav_innov a (ek_x e)) = 3"
    using rot_fin [OF p] x a(1) by (simp_all add: grav_innov_def Let_def fin3_def GRAVITY_def)
  have H: "fmat 3 EKF_N (grav_H (ek_x e))"
    unfolding grav_H_def Let_def by (rule meas_fmat) (use x in \<open>simp add: GRAVITY_def\<close>)
  have "ekf_update_gravity a r e =
      (if nrm > GRAV_HARD_GATE \<or> nrm < Fin 0.1 then e
       else if \<not> grav_gate (ek_P e) (grav_H (ek_x e)) R_eff (grav_innov a (ek_x e)) then e1
       else normalize_quat (ekf_correct 3 (grav_H (ek_x e)) [R_eff, R_eff, R_eff] (grav_innov a (ek_x e)) e1))"
    using inv by (simp add: ekf_update_gravity_def Let_def run_inv_def nrm_def R_eff_def vibe_def e1_def)
  moreover have "run_inv n (normalize_quat (ekf_correct 3 (grav_H (ek_x e)) [R_eff, R_eff, R_eff] (grav_innov a (ek_x e)) e1))"
    by (intro normalize_inv correct_inv' [OF e1 n H]) (use R innov in simp_all)
  ultimately show ?thesis using inv e1 by simp
qed

lemma ekf_step_inv:
  assumes inv: "run_inv n e" and n: "n \<le> 9900000" and ok: "ekf_ev_ok ev"
  shows "run_inv (if is_predict ev then Suc n else n) (ekf_step ev e)"
proof -
  have x: "isfin (ek_x e i)" if "i < EKF_N" for i using run_inv_x [OF inv that] .
  have i: "ek_init e" using inv by (simp add: run_inv_def)
  show ?thesis
  proof (cases ev)
    case (EvPredict dt a g)
    have e: "cov_ok e" "q_ok e" using inv by (simp_all add: run_inv_def)
    from ok EvPredict have "isfin dt" "fin3 a" "fin3 g" by simp_all
    note p = predict_keeps_cov [OF e i this]
    have "PR (ekf_predict dt a g e) k k \<le> bias_bound (Suc n) k" if "iBax \<le> k" "k < EKF_N" for k
    proof -
      have "PR e k k \<le> bias_bound n k" using inv that by (simp add: run_inv_def)
      moreover have "bias_bound n k + q_diag k = bias_bound (Suc n) k"
        using that by (simp add: bias_bound_def q_diag_def field_simps)
      ultimately show ?thesis using p(3) [OF that] by simp
    qed
    moreover have "ek_Q (ekf_predict dt a g e) = ek_Q e" "ek_vibe (ekf_predict dt a g e) = ek_vibe e"
      "ek_init (ekf_predict dt a g e) = ek_init e" by (simp_all add: ekf_predict_def Let_def)
    ultimately show ?thesis using inv p(1) by (simp add: EvPredict run_inv_def q_ok_def)
  next
    case (EvQuaternion q r)
    then show ?thesis using quaternion_inv [OF inv n] ok by simp
  next
    case (EvGravity a r)
    then show ?thesis using gravity_inv [OF inv n] ok by simp
  next
    case (EvPosition p r)
    have "run_inv n (ekf_update_position p r e)"
      unfolding ekf_update_position_def Let_def using i ok x
      by (simp add: EvPosition) (intro correct_inv' [OF inv n] meas_fmat, simp_all add: fin3_def)
    then show ?thesis by (simp add: EvPosition)
  next
    case (EvNedVel v r)
    have R: "isfin (quat_to_rot_body2ned (get_quat (ek_x e)) a b)" if "a < 3" "b < 3" for a b
      by (rule rot_fin [OF fin_get_quat that]) (use x in simp)
    have "run_inv n (ekf_update_ned_vel v r e)"
      unfolding ekf_update_ned_vel_def Let_def using i ok x R
      by (simp add: EvNedVel) (intro correct_inv' [OF inv n] meas_fmat, simp_all add: fin3_def)
    then show ?thesis by (simp add: EvNedVel)
  next
    case (EvWheel u r)
    have "run_inv n (ekf_update_wheel_velocity u r e)"
      unfolding ekf_update_wheel_velocity_def using i ok x
      by (simp add: EvWheel) (intro correct_inv' [OF inv n] meas_fmat, simp_all)
    then show ?thesis by (simp add: EvWheel)
  next
    case (EvLegWheel u w ru rw)
    have "run_inv n (ekf_update_leg_wheel_velocity u w ru rw e)"
      unfolding ekf_update_leg_wheel_velocity_def using i ok x
      by (simp add: EvLegWheel) (intro correct_inv' [OF inv n] meas_fmat, simp_all)
    then show ?thesis by (simp add: EvLegWheel)
  qed
qed

lemma ekf_run_inv:
  "run_inv n e \<Longrightarrow> \<forall>ev \<in> set evs. ekf_ev_ok ev \<Longrightarrow> n + length (filter is_predict evs) \<le> 9900000 \<Longrightarrow>
   run_inv (n + length (filter is_predict evs)) (ekf_run evs e)"
proof (induction evs arbitrary: n e)
  case (Cons ev evs)
  have "run_inv (if is_predict ev then Suc n else n) (ekf_step ev e)"
    by (rule ekf_step_inv) (use Cons.prems in \<open>simp_all split: if_splits\<close>)
  then have "run_inv ((if is_predict ev then Suc n else n) + length (filter is_predict evs)) (ekf_run evs (ekf_step ev e))"
    by (rule Cons.IH) (use Cons.prems in \<open>simp_all split: if_splits\<close>)
  then show ?case by (simp add: ekf_run_def split: if_splits)
qed (simp add: ekf_run_def)

section \<open>Initialisation\<close>

lemma init_diag:
  "fold (\<lambda>i Q. mat_upd Q i i (f i)) [a..<b] M i j = (if i = j \<and> a \<le> i \<and> i < b then f i else M i j)"
proof (induction b)
  case (Suc b)
  then show ?case by (cases "a \<le> b") (auto simp: mat_upd_apply less_Suc_eq)
qed simp

definition p0_diag :: "nat \<Rightarrow> real" where
  "p0_diag i = (if i \<le> iZ then 1 else if i \<le> iW then 1 / 2 else if i \<le> iQ3 then 1 / 10
     else if i \<le> iBaz then 1 / 100 else 1 / 10 ^ 4)"

lemma ekf_init_sel:
  "ek_init (ekf_init k e)" "ek_vibe (ekf_init k e) = Fin 0"
  "ek_x (ekf_init k e) i = Fin (if i = iQ0 then 1 else 0)"
  "i < EKF_N \<Longrightarrow> ek_P (ekf_init k e) i j = Fin (rdiag p0_diag i j)"
  "i < EKF_N \<Longrightarrow> ek_Q (ekf_init k e) i j = Fin (rdiag q_diag i j)"
proof -
  show "ek_init (ekf_init k e)" "ek_vibe (ekf_init k e) = Fin 0" by (simp_all add: ekf_init_def Let_def)
  show "ek_x (ekf_init k e) i = Fin (if i = iQ0 then 1 else 0)" by (simp add: ekf_init_def Let_def)
  have P: "ek_P (ekf_init k e) = for_upto EKF_N (\<lambda>i P. mat_upd P i i
      (if i \<le> iZ then P0_POS else if i \<le> iW then P0_VEL else if i \<le> iQ3 then P0_QUAT
       else if i \<le> iBaz then P0_BIAS_A else P0_BIAS_G)) mat_zero"
    unfolding ekf_init_def Let_def by (cases e) (simp only: ekf.simps)
  show "ek_P (ekf_init k e) i j = Fin (rdiag p0_diag i j)" if "i < EKF_N"
    using that unfolding P init_diag by (auto simp: rdiag_def p0_diag_def ekf_consts mat_zero_def)
  have Q: "ek_Q (ekf_init k e) =
     for_to iBgx iBgz (\<lambda>i Q. mat_upd Q i i Q_BIAS_G) (for_to iBax iBaz (\<lambda>i Q. mat_upd Q i i Q_BIAS_A)
      (for_to iQ0 iQ3 (\<lambda>i Q. mat_upd Q i i Q_QUAT) (for_to iU iW (\<lambda>i Q. mat_upd Q i i Q_VEL)
        (for_to iX iZ (\<lambda>i Q. mat_upd Q i i Q_POS) mat_zero))))"
    unfolding ekf_init_def Let_def by (cases e) (simp only: ekf.simps)
  show "ek_Q (ekf_init k e) i j = Fin (rdiag q_diag i j)" if "i < EKF_N"
    using that unfolding Q init_diag by (auto simp: rdiag_def q_diag_def ekf_consts mat_zero_def)
qed

lemma psd_p0: "psd EKF_N (rdiag p0_diag)"
  by (rule psd_rdiag) (simp add: p0_diag_def)

lemma ekf_init_inv: "run_inv 0 (ekf_init k e)"
proof -
  have P: "PR (ekf_init k e) i j = rdiag p0_diag i j" if "i < EKF_N" for i j
    using ekf_init_sel(4) [OF that] by (simp add: rm_def)
  have "psd EKF_N (PR (ekf_init k e))" by (rule psd_cong [OF _ psd_p0]) (simp add: meq_def P)
  moreover have "sym (PR (ekf_init k e))" by (auto simp: sym_def meq_def P rtr_def rdiag_def)
  moreover have "PR (ekf_init k e) i i \<le> bias_bound 0 i" if "iBax \<le> i" "i < EKF_N" for i
    using that by (simp add: P rdiag_def p0_diag_def bias_bound_def)
  ultimately show ?thesis
    by (simp add: run_inv_def cov_ok_def ekf_fin_def fmat_def ekf_init_sel q_ok_def noise_ok_def)
qed

end
