(* ===== verification/Pivot.thy ===== *)
theory Pivot
  imports EkfSafe
begin

text \<open>
  When the measurement update is skipped: the elimination of _update gives up on a column whose
  entries from the diagonal down are all below the threshold, and on nothing else; an innovation
  covariance whose noise variances are not vanishing never has such a column.
\<close>

section \<open>The elimination column by column\<close>

definition gj_init :: "nat \<Rightarrow> mat \<Rightarrow> mat \<times> mat" where
  "gj_init m S = for_upto m (\<lambda>i (Sw, Sinv). (for_upto m (\<lambda>j Sw. mat_upd Sw i j (S i j)) Sw,
     mat_upd Sinv i i (Fin 1))) (mat_zero, mat_zero)"

definition gj_upto :: "nat \<Rightarrow> mat \<Rightarrow> nat \<Rightarrow> (mat \<times> mat) option" where
  "gj_upto m S n = fold (\<lambda>col W. case W of None \<Rightarrow> None | Some W \<Rightarrow> gj_step m col W) [0..<n] (Some (gj_init m S))"

text \<open>The first column that has no usable pivot left, if there is one.\<close>
definition small_pivot :: "nat \<Rightarrow> mat \<Rightarrow> bool" where
  "small_pivot m S \<longleftrightarrow> list_ex (\<lambda>c. case gj_upto m S c of None \<Rightarrow> False
     | Some (A, B) \<Rightarrow> list_all (\<lambda>r. fabsf (A r c) < Fin (1 / 10 ^ 12)) [c..<m]) [0..<m]"

lemma gauss_jordan_upto: "gauss_jordan m S = map_option snd (gj_upto m S m)"
  by (simp add: gauss_jordan_def gj_upto_def gj_init_def Let_def case_prod_unfold)

lemma gj_upto_Suc: "gj_upto m S (Suc n) = (case gj_upto m S n of None \<Rightarrow> None | Some W \<Rightarrow> gj_step m n W)"
  by (simp add: gj_upto_def)

lemma gj_upto_None:
  "gj_upto m S n = None \<longleftrightarrow> (\<exists>c<n. \<exists>W. gj_upto m S c = Some W \<and> gj_step m c W = None)"
proof (induction n)
  case 0
  then show ?case by (simp add: gj_upto_def)
next
  case (Suc n)
  then show ?case unfolding gj_upto_Suc by (cases "gj_upto m S n") (auto simp: less_Suc_eq)
qed

lemma gj_upto_inv:
  assumes "fmat m m S" "n \<le> m" "gj_upto m S n = Some W"
  shows "gj_inv m (rm S) n W"
proof -
  have "gj_inv m (rm S) 0 (fst (gj_init m S), snd (gj_init m S))"
    by (rule gj_start [OF _ assms(1)]) (simp add: gj_init_def)
  then have "gj_inv m (rm S) 0 (gj_init m S)" by simp
  from gj_fold [OF this assms(2)] assms(3) show ?thesis by (simp add: gj_upto_def)
qed

lemma gj_pivot_max:
  assumes A: "fmat m m A" and c: "c < m" and r: "c \<le> r" "r < m"
  shows "\<bar>rm A r c\<bar> \<le> \<bar>rm A (gj_pivot m A c) c\<bar>"
proof -
  let ?f = "\<lambda>row piv. if fabsf (A row c) > fabsf (A piv c) then row else piv"
  have f: "A k c = Fin (rm A k c)" if "k < m" for k using fmatD [OF A that c] .
  have "fold ?f xs p < m \<and> (\<forall>k \<in> insert p (set xs). \<bar>rm A k c\<bar> \<le> \<bar>rm A (fold ?f xs p) c\<bar>)"
    if "p < m" "set xs \<subseteq> {..<m}" for xs p
    using that
  proof (induction xs arbitrary: p)
    case (Cons x xs)
    have q: "?f x p < m" "\<bar>rm A x c\<bar> \<le> \<bar>rm A (?f x p) c\<bar>" "\<bar>rm A p c\<bar> \<le> \<bar>rm A (?f x p) c\<bar>"
      using Cons.prems f [of x] f [of p] by auto
    with Cons.IH [OF q(1)] Cons.prems show ?case by force
  qed simp
  from this [of c "[c + 1..<m]"] c
  have "\<forall>k \<in> insert c {c + 1..<m}. \<bar>rm A k c\<bar> \<le> \<bar>rm A (gj_pivot m A c) c\<bar>"
    unfolding gj_pivot_def by (simp add: subset_eq)
  moreover have "r \<in> insert c {c + 1..<m}" using r by auto
  ultimately show ?thesis by blast
qed

lemma gj_step_None:
  assumes A: "fmat m m A" and c: "c < m"
  shows "gj_step m c (A, B) = None \<longleftrightarrow> (\<forall>r. c \<le> r \<and> r < m \<longrightarrow> fabsf (A r c) < Fin (1 / 10 ^ 12))"
proof -
  let ?p = "gj_pivot m A c"
  have f: "A k c = Fin (rm A k c)" if "k < m" for k using fmatD [OF A that c] .
  have p: "c \<le> ?p" "?p < m" using gj_pivot_range [OF c] by simp_all
  have "gj_step m c (A, B) = None \<longleftrightarrow> fabsf (A ?p c) < Fin (1 / 10 ^ 12)"
    using c by (simp add: gj_step_def Let_def swap_rows_apply)
  also have "\<dots> \<longleftrightarrow> \<bar>rm A ?p c\<bar> < 1 / 10 ^ 12" by (simp add: f [OF p(2)])
  also have "\<dots> \<longleftrightarrow> (\<forall>r. c \<le> r \<and> r < m \<longrightarrow> \<bar>rm A r c\<bar> < 1 / 10 ^ 12)"
    using gj_pivot_max [OF A c] p le_less_trans by blast
  also have "\<dots> \<longleftrightarrow> (\<forall>r. c \<le> r \<and> r < m \<longrightarrow> fabsf (A r c) < Fin (1 / 10 ^ 12))"
    using f by fastforce
  finally show ?thesis .
qed

lemma gauss_jordan_None:
  assumes "fmat m m S"
  shows "gauss_jordan m S = None \<longleftrightarrow> small_pivot m S"
proof -
  have s: "gj_step m c W = None \<longleftrightarrow> (\<forall>r. c \<le> r \<and> r < m \<longrightarrow> fabsf (fst W r c) < Fin (1 / 10 ^ 12))"
    if "c < m" "gj_upto m S c = Some W" for c W
    using gj_step_None [of m "fst W" c "snd W"] gj_upto_inv [OF assms _ that(2)] that(1)
    by (simp add: gj_inv_def)
  have "gauss_jordan m S = None \<longleftrightarrow> (\<exists>c<m. \<exists>W. gj_upto m S c = Some W \<and> gj_step m c W = None)"
    by (simp add: gauss_jordan_upto gj_upto_None)
  also have "\<dots> \<longleftrightarrow> (\<exists>c<m. case gj_upto m S c of None \<Rightarrow> False
     | Some (A, B) \<Rightarrow> list_all (\<lambda>r. fabsf (A r c) < Fin (1 / 10 ^ 12)) [c..<m])"
    by (rule ex_cong1) (auto simp: s list_all_iff split: option.splits)
  also have "\<dots> \<longleftrightarrow> small_pivot m S"
    unfolding small_pivot_def list_ex_iff by auto
  finally show ?thesis .
qed

section \<open>A noisy measurement always has a pivot\<close>

text \<open>Column c of the working copy, seen through a vector that the copy's first rows annihilate: what
the input makes of that vector is what the copy makes of it, up to the order of the rows.\<close>
definition mv :: "nat \<Rightarrow> rmat \<Rightarrow> (nat \<Rightarrow> real) \<Rightarrow> nat \<Rightarrow> real" where
  "mv m A x i = (\<Sum>j<m. A i j * x j)"

definition row_inv :: "nat \<Rightarrow> rmat \<Rightarrow> nat \<Rightarrow> rmat \<Rightarrow> bool" where
  "row_inv m S c A \<longleftrightarrow> (\<forall>x. (\<forall>k<c. mv m A x k = 0) \<longrightarrow> (\<forall>i<m. \<exists>k<m. mv m S x i = mv m A x k))"

lemma gj_step_rows:
  assumes A: "fmat m m A" and B: "fmat m m B" and c: "c < m"
    and st: "gj_step m c (A, B) = Some (A', B')" and inv: "row_inv m S c (rm A)"
  shows "row_inv m S (Suc c) (rm A')"
  unfolding row_inv_def
proof (intro allI impI)
  fix x i assume z: "\<forall>k<Suc c. mv m (rm A') x k = 0" and i: "i < m"
  obtain p d where p: "c \<le> p" "p < m" "d \<noteq> 0" "rm A p c = d"
    and A': "\<forall>i<m. \<forall>j<m. A' i j = Fin (if i = c then rm A p j / d
        else rm A (if i = p then c else i) j - rm A (if i = p then c else i) c * (rm A p j / d))"
    by (rule gj_step_real [OF A B c st]) blast
  define s where "s i = (if i = p then c else i)" for i
  have "mv m (rm A') x c = (\<Sum>j<m. rm A p j / d * x j)"
    unfolding mv_def by (rule sum.cong) (use A' c in \<open>simp_all add: rm_def [of A']\<close>)
  then have "mv m (rm A') x c = mv m (rm A) x p / d" by (simp add: mv_def sum_divide_distrib)
  with z p have p0: "mv m (rm A) x p = 0" by simp
  have row: "mv m (rm A') x k = mv m (rm A) x (s k)" if k: "k < m" "k \<noteq> c" for k
  proof -
    have "mv m (rm A') x k = (\<Sum>j<m. (rm A (s k) j - rm A (s k) c * (rm A p j / d)) * x j)"
      unfolding mv_def by (rule sum.cong) (use A' k in \<open>simp_all add: rm_def [of A'] s_def\<close>)
    also have "\<dots> = mv m (rm A) x (s k) - rm A (s k) c * (mv m (rm A) x p / d)"
      by (simp add: mv_def sum_subtractf sum_distrib_left sum_divide_distrib left_diff_distrib mult.assoc)
    finally show ?thesis by (simp add: p0)
  qed
  have "mv m (rm A) x k = 0" if "k < c" for k
    using row [of k] z that c p(1) by (simp add: s_def)
  then obtain k where k: "k < m" "mv m S x i = mv m (rm A) x k" using inv i unfolding row_inv_def by blast
  show "\<exists>k<m. mv m S x i = mv m (rm A') x k"
  proof (cases "k = p")
    case True
    then show ?thesis using k p0 z c by auto
  next
    case False
    show ?thesis
    proof (cases "k = c")
      case True
      then show ?thesis using k row [of p] False p by (auto simp: s_def intro!: exI [of _ p])
    next
      case kc: False
      then show ?thesis using k row [of k] False by (auto simp: s_def)
    qed
  qed
qed

lemma gj_init_copy:
  assumes "i < m" "j < m"
  shows "fst (gj_init m S) i j = S i j"
proof -
  let ?f = "\<lambda>i (Sw, Sinv). (for_upto m (\<lambda>j Sw. mat_upd Sw i j (S i j)) Sw, mat_upd Sinv i i (Fin 1))"
  have "fst (for_upto n ?f (mat_zero, mat_zero)) i j = (if i < n \<and> j < m then S i j else Fin 0)" for n
    by (induction n) (auto simp: mat_zero_def row_set_loop less_Suc_eq case_prod_unfold)
  then show ?thesis using assms by (simp add: gj_init_def)
qed

lemma gj_upto_rows:
  assumes S: "fmat m m S"
  shows "n \<le> m \<Longrightarrow> gj_upto m S n = Some W \<Longrightarrow> row_inv m (rm S) n (rm (fst W))"
proof (induction n arbitrary: W)
  case 0
  then have "mv m (rm S) x i = mv m (rm (fst W)) x i" if "i < m" for x i
    using that by (auto simp: gj_upto_def mv_def rm_def gj_init_copy intro: sum.cong)
  then show ?case by (auto simp: row_inv_def)
next
  case (Suc n)
  obtain V where V: "gj_upto m S n = Some V" "gj_step m n (fst V, snd V) = Some (fst W, snd W)"
    using Suc.prems(2) by (auto simp: gj_upto_Suc split: option.splits)
  have "gj_inv m (rm S) n V" by (rule gj_upto_inv [OF S _ V(1)]) (use Suc.prems(1) in simp)
  then have f: "fmat m m (fst V)" "fmat m m (snd V)" by (simp_all add: gj_inv_def)
  show ?case by (rule gj_step_rows [OF f _ V(2)]) (use Suc.prems(1) Suc.IH [OF _ V(1)] in simp_all)
qed

lemma posdef_pivot:
  fixes S :: mat
  assumes S: "fmat m m S" and eps: "real m / 10 ^ 12 \<le> eps"
    and pd: "\<And>x. eps * (\<Sum>i<m. x i * x i) \<le> (\<Sum>i<m. x i * mv m (rm S) x i)"
  shows "\<not> small_pivot m S"
proof
  assume "small_pivot m S"
  then obtain c A B where c: "c < m" "gj_upto m S c = Some (A, B)"
    and low: "\<And>r. c \<le> r \<Longrightarrow> r < m \<Longrightarrow> fabsf (A r c) < Fin (1 / 10 ^ 12)"
    by (auto simp: small_pivot_def list_ex_iff list_all_iff split: option.splits)
  have inv: "gj_inv m (rm S) c (A, B)" by (rule gj_upto_inv [OF S _ c(2)]) (use c in simp)
  have low': "\<bar>rm A r c\<bar> < 1 / 10 ^ 12" if "c \<le> r" "r < m" for r
    using low [OF that] fmatD [of m m A r c] inv that c by (simp add: gj_inv_def)
  define x where "x j = (if j = c then 1 else if j < c then - rm A j c else 0)" for j
  have mvA: "mv m (rm A) x k = (if k < c then 0 else rm A k c)" if k: "k < m" for k
  proof -
    have "mv m (rm A) x k = (\<Sum>j<m. (if j = c then rm A k c else 0) + (if j = k then (if k < c then - rm A k c else 0) else 0))"
      unfolding mv_def by (rule sum.cong) (use inv k in \<open>auto simp: x_def gj_inv_def meq_def rid_def\<close>)
    then show ?thesis using c k by (simp add: sum.distrib sum.delta)
  qed
  have "row_inv m (rm S) c (rm A)" using gj_upto_rows [OF S _ c(2)] c by simp
  then have "\<exists>k<m. mv m (rm S) x i = mv m (rm A) x k" if "i < m" for i
    using mvA c that unfolding row_inv_def by simp
  then have small: "\<bar>mv m (rm S) x i\<bar> < 1 / 10 ^ 12" if "i < m" for i
    using mvA low' that by (fastforce split: if_splits)
  have one: "x c = 1" by (simp add: x_def)
  have half: "\<bar>t\<bar> \<le> (1 + t * t) / 2" for t :: real
    using zero_le_square [of "\<bar>t\<bar> - 1"] by (simp add: algebra_simps)
  have le: "x i * mv m (rm S) x i \<le> (1 + x i * x i) / 2 * (1 / 10 ^ 12)" if "i < m" for i
  proof -
    have "x i * mv m (rm S) x i \<le> \<bar>x i\<bar> * \<bar>mv m (rm S) x i\<bar>" by (simp flip: abs_mult)
    also have "\<dots> \<le> (1 + x i * x i) / 2 * (1 / 10 ^ 12)"
      by (rule mult_mono) (use half [of "x i"] small [OF that] in simp_all)
    finally show ?thesis .
  qed
  have "(\<Sum>i<m. x i * mv m (rm S) x i) < (\<Sum>i<m. (1 + x i * x i) / 2 * (1 / 10 ^ 12))"
    by (rule sum_strict_mono_ex1) (use le c small [OF c(1)] one in \<open>auto intro!: bexI [of _ c]\<close>)
  also have "\<dots> = (real m + (\<Sum>i<m. x i * x i)) / 2 * (1 / 10 ^ 12)"
    by (simp add: sum.distrib flip: sum_divide_distrib)
  finally have lt: "(\<Sum>i<m. x i * mv m (rm S) x i) < (real m + (\<Sum>i<m. x i * x i)) / 2 * (1 / 10 ^ 12)" .
  define X where "X = (\<Sum>i<m. x i * x i)"
  have X1: "1 \<le> X" using member_le_sum [of c "{..<m}" "\<lambda>i. x i * x i"] c one by (simp add: X_def)
  moreover have m1: "1 \<le> real m" using c by simp
  ultimately have "0 \<le> real m * (X - 1)" "0 \<le> (real m - 1) * X" by simp_all
  then have "(real m + X) / 2 * (1 / 10 ^ 12) \<le> real m * X * (1 / 10 ^ 12)" by (simp add: algebra_simps)
  also have "\<dots> \<le> eps * X" using mult_right_mono [OF eps, of X] X1 by simp
  also have "\<dots> \<le> (\<Sum>i<m. x i * mv m (rm S) x i)" using pd by (simp add: X_def)
  finally show False using lt by (simp add: X_def)
qed

text \<open>The innovation covariance of a measurement.\<close>
lemma noisy_pivot:
  assumes e: "ekf_fin e" "psd EKF_N (PR e)" and H: "fmat m EKF_N H" and r: "length r = m"
    and eps: "\<And>i. i < m \<Longrightarrow> real m / 10 ^ 12 \<le> r ! i"
  shows "\<not> small_pivot m (upd_S m H (map Fin r) (upd_PHt m (ek_P e) H))"
proof (rule posdef_pivot [OF _ order.refl])
  let ?S = "upd_S m H (map Fin r) (upd_PHt m (ek_P e) H)" and ?eps = "real m / 10 ^ 12"
  have P: "fmat EKF_N EKF_N (ek_P e)" using e by (simp add: ekf_fin_def)
  note S = S_real [OF P H r]
  show "fmat m m ?S" using S by (simp add: fmat_def)
  fix x :: "nat \<Rightarrow> real"
  define V :: rmat where "V = (\<lambda>i j. x i)"
  let ?Q = "radd (rmul EKF_N (rmul EKF_N (rm H) (PR e)) (rtr (rm H))) (rdiag (\<lambda>i. r ! i - ?eps))"
  have "psd m ?Q" by (intro psd_radd psd_congr e(2) psd_rdiag) (use eps in simp)
  then have q: "0 \<le> rmul m (rtr V) (rmul m ?Q V) 0 0" by (rule psdD)
  have row: "rmul m ?Q V i 0 = mv m (rm ?S) x i - ?eps * x i" if "i < m" for i
  proof -
    have "?Q i j = rm ?S i j - (if i = j then ?eps else 0)" if "j < m" for j
      using S [OF \<open>i < m\<close> that] by (simp add: rm_def innov_cov_def radd_def rdiag_def diag_of_def rmul_assoc)
    then have "rmul m ?Q V i 0 = (\<Sum>j<m. rm ?S i j * x j - (if j = i then ?eps * x i else 0))"
      unfolding rmul_def [of m ?Q] V_def by (intro sum.cong) (auto simp: left_diff_distrib)
    then show ?thesis using that by (simp add: mv_def sum_subtractf sum.delta)
  qed
  have "rmul m (rtr V) (rmul m ?Q V) 0 0 = (\<Sum>i<m. x i * rmul m ?Q V i 0)"
    by (subst rmul_def) (simp add: rtr_def V_def)
  also have "\<dots> = (\<Sum>i<m. x i * mv m (rm ?S) x i - ?eps * (x i * x i))"
    by (rule sum.cong, rule refl, subst row, simp, simp only: right_diff_distrib mult.left_commute)
  finally have "0 \<le> (\<Sum>i<m. x i * mv m (rm ?S) x i - ?eps * (x i * x i))" using q by simp
  then show "?eps * (\<Sum>i<m. x i * x i) \<le> (\<Sum>i<m. x i * mv m (rm ?S) x i)"
    by (simp add: sum_subtractf sum_distrib_left)
qed

end
