(* ===== verification/EkfProps.thy ===== *)
theory EkfProps
  imports EkfRun Pivot
begin

text \<open>
  The properties of the filter, each on the model of EKF.cpp.
\<close>

lemma qf_sum: "rmul n (rtr (\<lambda>i j. v i)) (rmul n A (\<lambda>i j. v i)) 0 0 = (\<Sum>i<n. \<Sum>j<n. v i * A i j * v j)"
  by (simp add: rmul_def rtr_def sum_distrib_left mult.assoc)

lemma cov_okD:
  assumes "cov_ok e"
  shows "\<forall>i<EKF_N. isfin (ek_x e i)" "\<forall>i<EKF_N. \<forall>j<EKF_N. isfin (ek_P e i j) \<and> ek_P e i j = ek_P e j i"
    "0 \<le> (\<Sum>i<EKF_N. \<Sum>j<EKF_N. v i * val (ek_P e i j) * v j)"
proof -
  show "\<forall>i<EKF_N. isfin (ek_x e i)" using assms by (simp add: cov_ok_def ekf_fin_def)
  have f: "fmat EKF_N EKF_N (ek_P e)" and s: "sym (PR e)" using assms by (simp_all add: cov_ok_def ekf_fin_def)
  show "\<forall>i<EKF_N. \<forall>j<EKF_N. isfin (ek_P e i j) \<and> ek_P e i j = ek_P e j i"
  proof (intro allI impI)
    fix i j :: nat assume ij: "i < EKF_N" "j < EKF_N"
    show "isfin (ek_P e i j) \<and> ek_P e i j = ek_P e j i"
      using fmatD [OF f ij] fmatD [OF f ij(2,1)] s ij by (simp add: sym_def meq_def rtr_def)
  qed
  have "0 \<le> (\<Sum>i<EKF_N. \<Sum>j<EKF_N. v i * PR e i j * v j)"
    using psdD [of EKF_N "PR e" "\<lambda>i j. v i"] assms unfolding qf_sum by (simp add: cov_ok_def)
  then show "0 \<le> (\<Sum>i<EKF_N. \<Sum>j<EKF_N. v i * val (ek_P e i j) * v j)" by (simp add: rm_def)
qed

section \<open>Properties\<close>

text \<open>C17. The filter never breaks its own covariance: after initialisation, whatever finite
measurements with nonnegative noise variances arrive in whatever order, and for the first 9.9 million
predictions (five and a half hours at 500 Hz), every state is finite and the covariance is finite,
symmetric and positive semidefinite: the variance ceilings of the clamp, which could destroy that,
never come into play, because an update never raises a variance and a prediction adds a known amount
to those of the biases.\<close>
theorem ekf_run_sound:
  fixes e :: ekf and k :: int
  assumes "\<forall>ev \<in> set evs. ekf_ev_ok ev" "length (filter is_predict evs) \<le> 9900000"
  defines "e' \<equiv> ekf_run evs (ekf_init k e)"
  shows "(\<forall>i<EKF_N. isfin (ek_x e' i)) \<and>
    (\<forall>i<EKF_N. \<forall>j<EKF_N. isfin (ek_P e' i j) \<and> ek_P e' i j = ek_P e' j i) \<and>
    (\<forall>v. 0 \<le> (\<Sum>i<EKF_N. \<Sum>j<EKF_N. v i * val (ek_P e' i j) * v j))"
proof -
  have "run_inv (0 + length (filter is_predict evs)) e'"
    unfolding e'_def by (rule ekf_run_inv [OF ekf_init_inv]) (use assms in simp_all)
  then have "cov_ok e'" by (simp add: run_inv_def)
  from cov_okD [OF this] show ?thesis by blast
qed

theorem ekf_run_sound_witness:
  "0 \<le> (\<Sum>i<EKF_N. \<Sum>j<EKF_N. 1 * val (ek_P (ekf_run [EvPredict (Fin 0.002) (Fin 0, Fin 0, Fin (- 9.8)) (Fin 0, Fin 1, Fin 0),
      EvWheel (Fin 1) (Fin 0.01)] (ekf_init 0 ekf_new)) i j) * 1)"
proof -
  let ?evs = "[EvPredict (Fin 0.002) (Fin 0, Fin 0, Fin (- 9.8)) (Fin 0, Fin 1, Fin 0), EvWheel (Fin 1) (Fin 0.01)]"
  have "\<forall>ev \<in> set ?evs. ekf_ev_ok ev" by (simp add: noise_ok_def)
  moreover have "length (filter is_predict ?evs) \<le> 9900000" by simp
  ultimately have "\<forall>v. 0 \<le> (\<Sum>i<EKF_N. \<Sum>j<EKF_N. v i * val (ek_P (ekf_run ?evs (ekf_init 0 ekf_new)) i j) * v j)"
    using ekf_run_sound [of ?evs 0 ekf_new] by blast
  from spec [OF this, of "\<lambda>_. 1"] show ?thesis .
qed

text \<open>One measurement of the forward speed, as the wheels give it.\<close>
definition wheel_H :: mat where
  "wheel_H = mat_sets [(0, iU, Fin 1)] mat_zero"

lemma wheel_H_rm: "rm wheel_H i j = (if i = 0 \<and> j = iU then 1 else 0)"
  by (simp add: rm_def wheel_H_def mat_sets_def mat_upd_apply mat_zero_def)

lemma wheel_H_fmat: "fmat m EKF_N wheel_H"
  unfolding wheel_H_def by (rule meas_fmat) simp

text \<open>C18. The generic measurement update is the Kalman update of the textbook.  Take finite data and a
symmetric covariance.  If the elimination of S = H P H' + R comes to a column whose entries from the
diagonal down are all below 1e-12 in absolute value, the filter is left exactly as it was.  In every
other case there is a gain K with K S = P H' such that the state becomes x + K innov and the
covariance, computed in Joseph form, symmetrised and clamped, is P - K H P off the diagonal and its
clamp on it.  And that other case is the normal one: when P is positive semidefinite and each of the m
noise variances is at least m times 1e-12, no column is that small and the update is carried out.\<close>
theorem ekf_correct_textbook:
  assumes "ekf_fin e" "sym (PR e)" "fmat m EKF_N H" "length r = m" "length v = m"
  defines "e' \<equiv> ekf_correct m H (map Fin r) (map Fin v) e"
    and "S \<equiv> upd_S m H (map Fin r) (upd_PHt m (ek_P e) H)"
  shows "(small_pivot m S \<longrightarrow> e' = e) \<and>
    (\<not> small_pivot m S \<longrightarrow> (\<exists>K. kalman_gain m (rm H) (PR e) r K \<and>
      (\<forall>i<EKF_N. ek_x e' i = Fin (val (ek_x e i) + (\<Sum>j<m. K i j * v ! j))) \<and>
      (\<forall>i<EKF_N. \<forall>j<EKF_N. ek_P e' i j =
         (if i = j then clamp_var i else id) (Fin (posterior m (rm H) (PR e) K i j))))) \<and>
    (psd EKF_N (PR e) \<and> (\<forall>i<m. real m / 10 ^ 12 \<le> r ! i) \<longrightarrow> \<not> small_pivot m S)"
proof (intro conjI impI)
  have fS: "fmat m m S"
    using S_real [OF _ assms(3,4)] assms(1) by (simp add: S_def ekf_fin_def fmat_def)
  show "e' = e" if "small_pivot m S"
    using that gauss_jordan_None [OF fS] by (simp add: e'_def S_def ekf_correct_def Let_def)
  show "\<exists>K. kalman_gain m (rm H) (PR e) r K \<and>
      (\<forall>i<EKF_N. ek_x e' i = Fin (val (ek_x e i) + (\<Sum>j<m. K i j * v ! j))) \<and>
      (\<forall>i<EKF_N. \<forall>j<EKF_N. ek_P e' i j =
         (if i = j then clamp_var i else id) (Fin (posterior m (rm H) (PR e) K i j)))"
    if ns: "\<not> small_pivot m S"
  proof -
    obtain T where T: "gauss_jordan m (upd_S m H (map Fin r) (upd_PHt m (ek_P e) H)) = Some T"
      using ns gauss_jordan_None [OF fS] unfolding S_def by auto
    obtain K where K: "kalman_gain m (rm H) (PR e) r K"
      "\<forall>i<EKF_N. ek_x e' i = Fin (val (ek_x e i) + (\<Sum>j<m. K i j * v ! j))"
      "\<forall>i<EKF_N. \<forall>j<EKF_N. joseph_P m H (map Fin r) T e i j = Fin (posterior m (rm H) (PR e) K i j)"
      unfolding e'_def by (rule correct_real [OF assms(1,3-5) T]) (use assms(2) in blast)
    have "\<forall>i<EKF_N. \<forall>j<EKF_N. ek_P e' i j =
         (if i = j then clamp_var i else id) (Fin (posterior m (rm H) (PR e) K i j))"
      unfolding e'_def correct_P [OF T] using K(3) by simp
    with K(1,2) show ?thesis by blast
  qed
  show "\<not> small_pivot m S" if "psd EKF_N (PR e) \<and> (\<forall>i<m. real m / 10 ^ 12 \<le> r ! i)"
    unfolding S_def using noisy_pivot [OF assms(1) _ assms(3,4)] that by blast
qed

theorem ekf_correct_textbook_witness:
  "\<exists>K. kalman_gain 1 (rm wheel_H) (PR (ekf_init 0 ekf_new)) [0.5] K \<and>
    (\<forall>i<EKF_N. ek_x (ekf_correct 1 wheel_H (map Fin [0.5]) (map Fin [1]) (ekf_init 0 ekf_new)) i =
      Fin (val (ek_x (ekf_init 0 ekf_new) i) + (\<Sum>j<1. K i j * [1] ! j))) \<and>
    (\<forall>i<EKF_N. \<forall>j<EKF_N. ek_P (ekf_correct 1 wheel_H (map Fin [0.5]) (map Fin [1]) (ekf_init 0 ekf_new)) i j =
       (if i = j then clamp_var i else id) (Fin (posterior 1 (rm wheel_H) (PR (ekf_init 0 ekf_new)) K i j)))"
proof -
  have c: "cov_ok (ekf_init 0 ekf_new)" using ekf_init_inv [of 0 ekf_new] by (simp add: run_inv_def)
  then have "psd EKF_N (PR (ekf_init 0 ekf_new)) \<and> (\<forall>i<1. real 1 / 10 ^ 12 \<le> [0.5 :: real] ! i)"
    by (simp add: cov_ok_def)
  then show ?thesis
    using ekf_correct_textbook [of "ekf_init 0 ekf_new" 1 wheel_H "[0.5]" "[1]"] c
    unfolding cov_ok_def by (simp only: wheel_H_fmat list.size One_nat_def [symmetric] add_0) blast
qed

text \<open>The attitude is a rotation after every step that touches it deliberately: a prediction and a
quaternion measurement leave a quaternion of norm exactly one, and a gravity measurement either leaves
the state alone or does the same.\<close>
theorem ekf_attitude_unit:
  assumes "ekf_fin e" "ek_init e" "isfin dt" "fin3 a" "fin3 g" "fin_quat q" "isfin r" "isfin (ek_vibe e)"
  shows "sqnorm (get_quat (ek_x (ekf_predict dt a g e))) = 1 \<and>
    sqnorm (get_quat (ek_x (ekf_update_quaternion q r e))) = 1 \<and>
    (ek_x (ekf_update_gravity a r e) = ek_x e \<or> sqnorm (get_quat (ek_x (ekf_update_gravity a r e))) = 1)"
proof (intro conjI)
  have x: "\<forall>i<EKF_N. isfin (ek_x e i)" using assms(1) by (simp add: ekf_fin_def)
  have c: "fin3 (v3 a 0 - ek_x e iBax, v3 a 1 - ek_x e iBay, v3 a 2 - ek_x e iBaz)"
    "fin3 (v3 g 0 - ek_x e iBgx, v3 g 1 - ek_x e iBgy, v3 g 2 - ek_x e iBgz)"
    using x assms(4,5) by (simp_all add: fin3_def)
  show "sqnorm (get_quat (ek_x (ekf_predict dt a g e))) = 1"
    using predict_x_fin(2) [OF x assms(3) c] assms(2) by (simp add: ekf_predict_def Let_def)
  have cx: "\<forall>i<EKF_N. isfin (ek_x (ekf_correct m H R V e') i)"
    if "ekf_fin e'" "fmat m EKF_N H" "length R = m" "length V = m" "\<forall>x \<in> set R. isfin x" "\<forall>x \<in> set V. isfin x"
    for m H R V e'
  proof -
    have "R = map Fin (map val R)" "V = map Fin (map val V)"
      using that(5,6) by (auto simp: Fin_val intro: map_idI [symmetric])
    then show ?thesis using correct_keeps_x [OF that(1,2), of "map val R" "map val V"] that(3,4) by simp
  qed
  have n: "sqnorm (get_quat (ek_x (normalize_quat (ekf_correct m H R V e')))) = 1"
    if "ekf_fin e'" "fmat m EKF_N H" "length R = m" "length V = m" "\<forall>x \<in> set R. isfin x" "\<forall>x \<in> set V. isfin x"
    for m H R V e' by (rule normalize_fin(2) [OF cx [OF that]])
  have p: "fin_quat (get_quat (ek_x e))" by (rule fin_get_quat [OF x])
  have fin': "ekf_fin (e\<lparr>ek_innov_norm := c\<rparr>)" "ekf_fin (e\<lparr>ek_vibe := c\<rparr>)" for c
    using assms(1) by (simp_all add: ekf_fin_def)
  show "sqnorm (get_quat (ek_x (ekf_update_quaternion q r e))) = 1"
    unfolding ekf_update_quaternion_def Let_def
    using shorter_arc_fin [OF assms(6), of "get_quat (ek_x e)"] p assms(2,7)
    by simp (intro n fin' meas_fmat, simp_all add: fin_quat_def)
  show "ek_x (ekf_update_gravity a r e) = ek_x e \<or> sqnorm (get_quat (ek_x (ekf_update_gravity a r e))) = 1"
  proof -
    define nrm where "nrm = sqrtf (v3 a 0 * v3 a 0 + v3 a 1 * v3 a 1 + v3 a 2 * v3 a 2)"
    obtain x' y z where xyz: "v3 a 0 = Fin x'" "v3 a 1 = Fin y" "v3 a 2 = Fin z"
      using assms(4) by (auto simp: fin3_def elim!: isfinE)
    have "nrm = Fin (sqrt (x' * x' + y * y + z * z))" by (simp only: nrm_def xyz flt_Fin_ops) simp
    then have s: "isfin nrm" by simp
    define vibe where "vibe = GRAV_VIBE_ALPHA * ((nrm - GRAVITY) * (nrm - GRAVITY)) + (Fin 1 - GRAV_VIBE_ALPHA) * ek_vibe e"
    have vibe: "isfin vibe" using s assms(8) by (simp add: vibe_def ekf_consts)
    define R_eff where "R_eff = r + GRAV_R_VIBE * vibe"
    have R: "isfin R_eff" using assms(7) vibe by (simp add: R_eff_def GRAV_R_VIBE_def)
    have innov: "\<forall>x \<in> set (grav_innov a (ek_x e)). isfin x" "length (grav_innov a (ek_x e)) = 3"
      using rot_fin [OF p] x assms(4) by (simp_all add: grav_innov_def Let_def fin3_def GRAVITY_def)
    have H: "fmat 3 EKF_N (grav_H (ek_x e))"
      unfolding grav_H_def Let_def by (rule meas_fmat) (use x in \<open>simp add: GRAVITY_def\<close>)
    have "ekf_update_gravity a r e =
      (if nrm > GRAV_HARD_GATE \<or> nrm < Fin 0.1 then e
       else if \<not> grav_gate (ek_P e) (grav_H (ek_x e)) R_eff (grav_innov a (ek_x e)) then e\<lparr>ek_vibe := vibe\<rparr>
       else normalize_quat (ekf_correct 3 (grav_H (ek_x e)) [R_eff, R_eff, R_eff] (grav_innov a (ek_x e)) (e\<lparr>ek_vibe := vibe\<rparr>)))"
      using assms(2) by (simp add: ekf_update_gravity_def Let_def nrm_def R_eff_def vibe_def)
    moreover have "sqnorm (get_quat (ek_x (normalize_quat (ekf_correct 3 (grav_H (ek_x e)) [R_eff, R_eff, R_eff]
        (grav_innov a (ek_x e)) (e\<lparr>ek_vibe := vibe\<rparr>))))) = 1"
      by (rule n [OF fin'(2) H]) (use R innov in simp_all)
    ultimately show ?thesis by simp
  qed
qed

theorem ekf_attitude_unit_witness:
  "sqnorm (get_quat (ek_x (ekf_predict (Fin 0.002) (Fin 0, Fin 0, Fin (- 9.8)) (Fin 1, Fin 2, Fin 3) (ekf_init 0 ekf_new)))) = 1"
  using ekf_attitude_unit [of "ekf_init 0 ekf_new" "Fin 0.002" "(Fin 0, Fin 0, Fin (- 9.8))" "(Fin 1, Fin 2, Fin 3)"
      "mk_quat (Fin 1) (Fin 0) (Fin 0) (Fin 0)" "Fin 1"] ekf_init_inv [of 0 ekf_new]
  by (simp add: run_inv_def cov_ok_def fin_quat_def ekf_init_sel)

text \<open>A quaternion and its negative are the same attitude, and the filter treats them so: unless a
measured quaternion is exactly orthogonal to the predicted one, it and its negative have the same
effect, and the one used lies on the side of the prediction.\<close>
theorem ekf_quaternion_antipodal:
  assumes "fin_quat q" "fin_quat (get_quat (ek_x e))" "\<not> feq (quat_dot q (get_quat (ek_x e))) (Fin 0)"
  shows "ekf_update_quaternion (mk_quat (- qw q) (- qx q) (- qy q) (- qz q)) r e = ekf_update_quaternion q r e \<and>
    Fin 0 < quat_dot (shorter_arc q (get_quat (ek_x e))) (get_quat (ek_x e))"
proof -
  obtain w x y z where q: "q = mk_quat (Fin w) (Fin x) (Fin y) (Fin z)" using assms(1) by (rule fin_quatE)
  obtain a b c d where p: "get_quat (ek_x e) = mk_quat (Fin a) (Fin b) (Fin c) (Fin d)" using assms(2) by (rule fin_quatE)
  have "shorter_arc (mk_quat (- qw q) (- qx q) (- qy q) (- qz q)) (get_quat (ek_x e)) = shorter_arc q (get_quat (ek_x e))"
    "Fin 0 < quat_dot (shorter_arc q (get_quat (ek_x e))) (get_quat (ek_x e))"
    using assms(3) unfolding p q by (auto simp: shorter_arc_def quat_dot_def)
  then show ?thesis by (simp add: ekf_update_quaternion_def Let_def)
qed

theorem ekf_quaternion_antipodal_witness:
  "ekf_update_quaternion (mk_quat (- Fin (- 1)) (- Fin 0) (- Fin 0) (- Fin 0)) (Fin 1) (ekf_init 0 ekf_new) =
   ekf_update_quaternion (mk_quat (Fin (- 1)) (Fin 0) (Fin 0) (Fin 0)) (Fin 1) (ekf_init 0 ekf_new)"
  using ekf_quaternion_antipodal [of "mk_quat (Fin (- 1)) (Fin 0) (Fin 0) (Fin 0)" "ekf_init 0 ekf_new" "Fin 1"]
  by (simp add: fin_quat_def get_quat_def ekf_init_sel quat_dot_def)

lemma gauss_jordan_1:
  assumes "S 0 0 = Fin s" "1 / 10 ^ 12 \<le> s"
  shows "gauss_jordan 1 S \<noteq> None"
proof -
  have u: "[0..<1] = [0::nat]" "[0 + 1..<1] = ([] :: nat list)" by simp_all
  have "\<not> fabsf (Fin s) < Fin (1 / 10 ^ 12)" using assms(2) by simp
  then show ?thesis
    unfolding gauss_jordan_def u fold_simps prod.case option.case Let_def gj_step_def gj_pivot_def swap_rows_def
    by (simp add: mat_upd_apply assms(1))
qed

lemma rmul_1: "rmul 1 A B i j = A i 0 * B 0 j"
  by (simp add: rmul_def)

lemma wheel_H_col: "rmul EKF_N M (rtr (rm wheel_H)) k 0 = M k iU"
proof -
  have e: "M k l * (if (0::nat) = 0 \<and> l = iU then 1 else 0) = (if l = iU then M k l else 0)" for l by simp
  show ?thesis unfolding rmul_def rtr_def wheel_H_rm e by (simp add: sum.delta)
qed

lemma wheel_H_row: "rmul EKF_N (rm wheel_H) M 0 k = M iU k"
proof -
  have e: "(if (0::nat) = 0 \<and> l = iU then 1 else 0) * M l k = (if l = iU then M l k else 0)" for l by simp
  show ?thesis unfolding rmul_def wheel_H_rm e by (simp add: sum.delta)
qed

text \<open>The wheel odometer is blended by its reliability: with forward-speed variance p and noise r, the
new forward speed is the average of prediction and measurement weighted by r and p, so it lies between
them, the new variance is p r / (p + r), and every other state moves in proportion to its covariance
with the forward speed.\<close>
theorem ekf_wheel_blend:
  assumes e: "ekf_fin e" "sym (PR e)" "ek_init e" and u: "ek_x e iU = Fin u" and P: "ek_P e iU iU = Fin p"
    and pr: "0 \<le> p" "0 \<le> r" "1 / 10 ^ 12 \<le> p + r" and i: "i < EKF_N"
  shows "ek_x (ekf_update_wheel_velocity (Fin z) (Fin r) e) i =
      Fin (val (ek_x e i) + val (ek_P e i iU) / (p + r) * (z - u)) \<and>
    ek_x (ekf_update_wheel_velocity (Fin z) (Fin r) e) iU = Fin ((r * u + p * z) / (p + r)) \<and>
    ek_P (ekf_update_wheel_velocity (Fin z) (Fin r) e) iU iU = Fin (p * r / (p + r))"
proof -
  let ?S = "upd_S 1 wheel_H (map Fin [r]) (upd_PHt 1 (ek_P e) wheel_H)"
  note c = wheel_H_col and w = wheel_H_row
  have p: "PR e iU iU = p" using P by (simp add: rm_def)
  have S: "innov_cov (rm wheel_H) (PR e) [r] 0 0 = p + r"
    by (simp add: innov_cov_def radd_def c w p diag_of_def rdiag_def)
  have fP: "fmat EKF_N EKF_N (ek_P e)" using e(1) by (simp add: ekf_fin_def)
  have S0: "?S 0 0 = Fin (p + r)" using S_real [OF fP wheel_H_fmat, of "[r]" 1 0 0] S by simp
  have "gauss_jordan 1 ?S \<noteq> None"
    by (rule gauss_jordan_1 [where s = "p + r"]) (rule S0, rule pr(3))
  then obtain T where T: "gauss_jordan 1 ?S = Some T" by blast
  have eq: "ekf_update_wheel_velocity (Fin z) (Fin r) e = ekf_correct 1 wheel_H (map Fin [r]) (map Fin [z - u]) e"
    using e(3) u by (simp add: ekf_update_wheel_velocity_def wheel_H_def)
  have l: "length [r] = 1" "length [z - u] = 1" by simp_all
  obtain K where K: "kalman_gain 1 (rm wheel_H) (PR e) [r] K"
    "\<forall>i<EKF_N. ek_x (ekf_correct 1 wheel_H (map Fin [r]) (map Fin [z - u]) e) i = Fin (val (ek_x e i) + (\<Sum>j<1. K i j * [z - u] ! j))"
    "\<forall>i<EKF_N. \<forall>j<EKF_N. joseph_P 1 wheel_H (map Fin [r]) T e i j = Fin (posterior 1 (rm wheel_H) (PR e) K i j)"
    by (rule correct_real [OF e(1) wheel_H_fmat l T]) (use e(2) in blast)
  have "p + r \<noteq> 0" using pr(3) by auto
  then have gain: "K k 0 = PR e k iU / (p + r)" if "k < EKF_N" for k
  proof -
    have "K k 0 * (p + r) = PR e k iU"
      using K(1) that S by (simp add: kalman_gain_def meq_def c) (simp add: rmul_def)
    then show ?thesis using \<open>p + r \<noteq> 0\<close> by (simp add: field_simps)
  qed
  have x: "ek_x (ekf_update_wheel_velocity (Fin z) (Fin r) e) k = Fin (val (ek_x e k) + PR e k iU / (p + r) * (z - u))"
    if "k < EKF_N" for k unfolding eq using K(2) that gain [OF that] by simp
  have "posterior 1 (rm wheel_H) (PR e) K iU iU = p - K iU 0 * p"
    unfolding posterior_def rsub_def rmul_1 w p ..
  also have "\<dots> = p * r / (p + r)" using \<open>p + r \<noteq> 0\<close> gain [of iU] p by (simp add: field_simps)
  finally have "joseph_P 1 wheel_H (map Fin [r]) T e iU iU = Fin (p * r / (p + r))" using K(3) by simp
  moreover have "clamp_var iU v = v" for v by (simp add: clamp_var_def)
  ultimately have PP: "ek_P (ekf_update_wheel_velocity (Fin z) (Fin r) e) iU iU = Fin (p * r / (p + r))"
    unfolding eq correct_P [OF T] by simp
  have "u + p / (p + r) * (z - u) = (r * u + p * z) / (p + r)" using \<open>p + r \<noteq> 0\<close> by (simp add: field_simps)
  then show ?thesis using x [OF i] x [of iU] PP u p by (simp add: rm_def)
qed

theorem ekf_wheel_blend_witness:
  "ek_x (ekf_update_wheel_velocity (Fin 3) (Fin 0.5) (ekf_init 0 ekf_new)) iU = Fin ((0.5 * 0 + 0.5 * 3) / (0.5 + 0.5))"
proof -
  have "ekf_fin (ekf_init 0 ekf_new)" "sym (PR (ekf_init 0 ekf_new))" "ek_init (ekf_init 0 ekf_new)"
    using ekf_init_inv [of 0 ekf_new] by (simp_all add: run_inv_def cov_ok_def)
  moreover have "ek_x (ekf_init 0 ekf_new) iU = Fin 0" "ek_P (ekf_init 0 ekf_new) iU iU = Fin 0.5"
    by (simp_all add: ekf_init_sel rdiag_def p0_diag_def)
  ultimately show ?thesis
    using ekf_wheel_blend [of "ekf_init 0 ekf_new" 0 "0.5" "0.5" 0 3] by simp
qed

end
