(* ===== verification/StateMgr.thy ===== *)
theory StateMgr
  imports EkfRun FiveBar CanPower CanMotor Balance
begin

text \<open>
  The state estimator around the filter lanes (src/src/state_estimator/StateManager.cpp): three lanes,
  one per onboard IMU, the choice of the primary lane, the blending of rates and accelerations, the
  leg kinematics with the wheel velocity fusion, and the state vector handed to the controllers; and
  the telemetry snapshot built from it (src/src/RobotTelemetry.cpp).  The sensor snapshots the thread
  takes are arguments.
\<close>

section \<open>Sensor data\<close>

record imu_raw =
  im_accel :: vec3
  im_gyro :: vec3
  im_valid :: bool

record mocap_raw =
  mc_xyz :: vec3
  mc_vel :: vec3
  mc_has_new :: bool
  mc_valid :: bool

definition STATEMGR_LP_UVWDOT_HZ :: flt where "STATEMGR_LP_UVWDOT_HZ = Fin 50"
definition STATEMGR_LP_PQRDOT_HZ :: flt where "STATEMGR_LP_PQRDOT_HZ = Fin 50"
definition STATEMGR_IMX5_RATE_WEIGHT :: flt where "STATEMGR_IMX5_RATE_WEIGHT = Fin 0.3"
definition STATEMGR_WHEEL_SIGN :: "flt list" where "STATEMGR_WHEEL_SIGN = [Fin 1, Fin 1]"
definition R_QUAT :: flt where "R_QUAT = Fin 0.001"
definition R_GRAVITY :: flt where "R_GRAVITY = Fin 0.5"
definition R_MOCAP_POS :: flt where "R_MOCAP_POS = Fin 0.001"
definition R_MOCAP_VEL :: flt where "R_MOCAP_VEL = Fin 0.01"
definition R_WHEEL_VEL :: flt where "R_WHEEL_VEL = Fin 0.002"
definition R_LEG_WHEEL_U :: flt where "R_LEG_WHEEL_U = Fin 0.005"
definition R_LEG_WHEEL_W :: flt where "R_LEG_WHEEL_W = Fin 0.02"

text \<open>The largest finite float.\<close>
definition FLT_MAX :: flt where "FLT_MAX = Fin (2 ^ 128 - 2 ^ 104)"

text \<open>The hips (CAN ids from 1) that carry the rear and the front thigh of each leg.\<close>
definition LEG_HIP_MAP :: "(nat \<times> nat) list" where
  "LEG_HIP_MAP = [(3, 1), (4, 2)]"

abbreviation NUM_LANES :: nat where "NUM_LANES \<equiv> 3"

record leg_state =
  ls_L0 :: flt
  ls_L0_dot :: flt
  ls_thL :: flt
  ls_thL_dot :: flt
  ls_x_dot :: flt
  ls_z_dot :: flt
  ls_valid :: bool

definition leg_state_zero :: leg_state where
  "leg_state_zero = \<lparr>ls_L0 = Fin 0, ls_L0_dot = Fin 0, ls_thL = Fin 0, ls_thL_dot = Fin 0,
     ls_x_dot = Fin 0, ls_z_dot = Fin 0, ls_valid = False\<rparr>"

section \<open>The manager\<close>

abbreviation zero3 :: vec3 where "zero3 \<equiv> (Fin 0, Fin 0, Fin 0)"

record state_mgr =
  sg_lanes :: "ekf list"
  sg_primary :: nat
  sg_init :: bool
  sg_rates :: vec3
  sg_acc :: vec3
  sg_prev :: vec3
  sg_pqrdot :: vec3
  sg_uvwdot :: vec3
  sg_lane_pqr :: "vec3 list"
  sg_leg :: "leg_state list"
  sg_L_avg :: flt
  sg_L_dot_avg :: flt
  sg_theta_avg :: flt
  sg_theta_dot_avg :: flt
  sg_leg_avg_valid :: bool

definition sm_new :: state_mgr where
  "sm_new = \<lparr>sg_lanes = replicate NUM_LANES ekf_new, sg_primary = 0, sg_init = False, sg_rates = zero3,
     sg_acc = zero3, sg_prev = zero3, sg_pqrdot = zero3, sg_uvwdot = zero3,
     sg_lane_pqr = replicate NUM_LANES zero3, sg_leg = replicate 2 leg_state_zero, sg_L_avg = Fin 0,
     sg_L_dot_avg = Fin 0, sg_theta_avg = Fin 0, sg_theta_dot_avg = Fin 0, sg_leg_avg_valid = False\<rparr>"

definition sm_init :: "state_mgr \<Rightarrow> state_mgr" where
  "sm_init s = \<lparr>sg_lanes = map (\<lambda>i. ekf_init (int i) (sg_lanes s ! i)) [0..<NUM_LANES], sg_primary = 0,
     sg_init = True, sg_rates = zero3, sg_acc = zero3, sg_prev = zero3, sg_pqrdot = zero3,
     sg_uvwdot = zero3, sg_lane_pqr = replicate NUM_LANES zero3, sg_leg = replicate 2 leg_state_zero,
     sg_L_avg = Fin 0, sg_L_dot_avg = Fin 0, sg_theta_avg = Fin 0, sg_theta_dot_avg = Fin 0,
     sg_leg_avg_valid = False\<rparr>"

text \<open>The best lane: the initialised one with the smallest innovation norm, the previous one if none is.\<close>
definition select_primary :: "ekf list \<Rightarrow> nat \<Rightarrow> nat" where
  "select_primary lanes primary =
     fst (for_upto NUM_LANES (\<lambda>i (best, best_score).
       if \<not> ek_init (lanes ! i) then (best, best_score)
       else let score = ek_innov_norm (lanes ! i) in
            if score < best_score then (i, score) else (best, best_score)) (primary, FLT_MAX))"

definition lane_weights :: "ekf list \<Rightarrow> nat \<Rightarrow> flt list" where
  "lane_weights lanes primary =
    (let (w, w_sum) = for_upto NUM_LANES (\<lambda>i (w, w_sum).
           if \<not> ek_init (lanes ! i) then (w, w_sum)
           else let wi = Fin 1 / (Fin (1 / 10 ^ 4) + ek_innov_norm (lanes ! i)) in (w[i := wi], w_sum + wi))
         (replicate NUM_LANES (Fin 0), Fin 0)
     in if w_sum > Fin (1 / 10 ^ 10) then for_upto NUM_LANES (\<lambda>i w. w[i := w ! i / w_sum]) w
        else w[primary := Fin 1])"

text \<open>b += w * v on three components, and the bias-corrected rates of a lane.\<close>
definition acc3 :: "vec3 \<Rightarrow> flt \<Rightarrow> vec3 \<Rightarrow> vec3" where
  "acc3 b w v = (v3 b 0 + w * v3 v 0, v3 b 1 + w * v3 v 1, v3 b 2 + w * v3 v 2)"

definition lane_rates :: "imu_raw \<Rightarrow> vec \<Rightarrow> vec3" where
  "lane_rates im st = (v3 (im_gyro im) 0 - st iBgx, v3 (im_gyro im) 1 - st iBgy, v3 (im_gyro im) 2 - st iBgz)"

definition blend_rates :: "imu_raw list \<Rightarrow> ekf list \<Rightarrow> flt list \<Rightarrow> vec3 list \<Rightarrow> vec3 \<times> vec3 list" where
  "blend_rates imu lanes w lane_pqr =
     for_upto NUM_LANES (\<lambda>i (b, lp).
       if \<not> im_valid (imu ! i) \<or> \<not> ek_init (lanes ! i) then (b, lp[i := zero3])
       else let l = lane_rates (imu ! i) (ek_x (lanes ! i)) in
            (if w ! i < Fin (1 / 10 ^ 15) then b else acc3 b (w ! i) l, lp[i := l])) (zero3, lane_pqr)"

definition imx5_blend :: "can_imu \<Rightarrow> vec \<Rightarrow> vec3 \<Rightarrow> vec3" where
  "imx5_blend ci st b =
    (if \<not> ci_valid ci then b
     else
      let R = quat_to_rot_body2ned (get_quat st);
          p_b = R 0 0 * ci_p ci + R 1 0 * ci_q ci + R 2 0 * ci_r ci;
          q_b = R 0 1 * ci_p ci + R 1 1 * ci_q ci + R 2 1 * ci_r ci;
          r_b = R 0 2 * ci_p ci + R 1 2 * ci_q ci + R 2 2 * ci_r ci;
          k = STATEMGR_IMX5_RATE_WEIGHT
      in ((Fin 1 - k) * v3 b 0 + k * p_b, (Fin 1 - k) * v3 b 1 + k * q_b, (Fin 1 - k) * v3 b 2 + k * r_b))"

definition lane_accel :: "imu_raw \<Rightarrow> vec \<Rightarrow> vec3" where
  "lane_accel im st =
    (let R = quat_to_rot_body2ned (get_quat st);
         g_body = (R 2 0 * GRAVITY, R 2 1 * GRAVITY, R 2 2 * GRAVITY);
         oxv = cross3 (lane_rates im st) (st iU, st iV, st iW)
     in (v3 (im_accel im) 0 - st iBax + v3 g_body 0 - v3 oxv 0,
         v3 (im_accel im) 1 - st iBay + v3 g_body 1 - v3 oxv 1,
         v3 (im_accel im) 2 - st iBaz + v3 g_body 2 - v3 oxv 2))"

definition blend_accel :: "imu_raw list \<Rightarrow> ekf list \<Rightarrow> flt list \<Rightarrow> vec3" where
  "blend_accel imu lanes w =
     for_upto NUM_LANES (\<lambda>i b.
       if w ! i < Fin (1 / 10 ^ 15) \<or> \<not> im_valid (imu ! i) then b
       else acc3 b (w ! i) (lane_accel (imu ! i) (ek_x (lanes ! i)))) zero3"

definition lowpass3 :: "vec3 \<Rightarrow> vec3 \<Rightarrow> flt \<Rightarrow> vec3" where
  "lowpass3 v f a = (lowpass (v3 v 0) (v3 f 0) a, lowpass (v3 v 1) (v3 f 1) a, lowpass (v3 v 2) (v3 f 2) a)"

definition derivative3 :: "vec3 \<Rightarrow> vec3 \<Rightarrow> flt \<Rightarrow> vec3" where
  "derivative3 v p dt = (derivative (v3 v 0) (v3 p 0) dt, derivative (v3 v 1) (v3 p 1) dt, derivative (v3 v 2) (v3 p 2) dt)"

text \<open>The lanes after the measurements of a tick, before and after the motion capture.\<close>
definition sm_predict :: "flt \<Rightarrow> imu_raw list \<Rightarrow> can_imu \<Rightarrow> ekf list \<Rightarrow> ekf list" where
  "sm_predict dt imu ci lanes =
    (let lanes = map (\<lambda>i. if im_valid (imu ! i)
           then ekf_predict dt (im_accel (imu ! i)) (im_gyro (imu ! i)) (lanes ! i) else lanes ! i) [0..<NUM_LANES];
         lanes = map (\<lambda>i. if im_valid (imu ! i)
           then ekf_update_gravity (im_accel (imu ! i)) R_GRAVITY (lanes ! i) else lanes ! i) [0..<NUM_LANES]
     in if ci_valid ci \<and> ci_has_new_quat ci
        then map (ekf_update_quaternion (mk_quat (ci_q0 ci) (ci_q1 ci) (ci_q2 ci) (ci_q3 ci)) R_QUAT) lanes
        else lanes)"

definition sm_mocap :: "mocap_raw \<Rightarrow> ekf list \<Rightarrow> ekf list" where
  "sm_mocap mc lanes =
    (if mc_valid mc \<and> mc_has_new mc
     then map (\<lambda>e. if \<not> ek_init e then e
       else ekf_update_ned_vel (mc_vel mc) R_MOCAP_VEL (ekf_update_position (mc_xyz mc) R_MOCAP_POS e)) lanes
     else lanes)"

definition sm_update :: "flt \<Rightarrow> imu_raw list \<Rightarrow> can_imu \<Rightarrow> mocap_raw \<Rightarrow> state_mgr \<Rightarrow> state_mgr" where
  "sm_update dt imu ci mc s =
    (if \<not> sg_init s then s
     else
      let lanes = sm_predict dt imu ci (sg_lanes s);
          primary = select_primary lanes (sg_primary s);
          w = lane_weights lanes primary;
          lanes = sm_mocap mc lanes;
          (b, lane_pqr) = blend_rates imu lanes w (sg_lane_pqr s);
          b = imx5_blend ci (ek_x (lanes ! primary)) b;
          acc = blend_accel imu lanes w;
          uvwdot = lowpass3 acc (sg_uvwdot s) (lowpass_alpha STATEMGR_LP_UVWDOT_HZ dt);
          pqrdot = lowpass3 (derivative3 b (sg_prev s) dt) (sg_pqrdot s) (lowpass_alpha STATEMGR_LP_PQRDOT_HZ dt)
      in s\<lparr>sg_lanes := lanes, sg_primary := primary, sg_rates := b, sg_lane_pqr := lane_pqr, sg_acc := acc,
           sg_uvwdot := uvwdot, sg_pqrdot := pqrdot, sg_prev := b\<rparr>)"

section \<open>Attitude\<close>

definition primary_quat :: "state_mgr \<Rightarrow> quat" where
  "primary_quat s = get_quat (ek_x (sg_lanes s ! sg_primary s))"

definition sm_roll :: "state_mgr \<Rightarrow> flt" where "sm_roll s = fst (quat_to_euler (primary_quat s))"
definition sm_pitch :: "state_mgr \<Rightarrow> flt" where "sm_pitch s = fst (snd (quat_to_euler (primary_quat s)))"
definition sm_yaw :: "state_mgr \<Rightarrow> flt" where "sm_yaw s = snd (snd (quat_to_euler (primary_quat s)))"

definition get_lane_euler :: "int \<Rightarrow> state_mgr \<Rightarrow> vec3" where
  "get_lane_euler lane s =
    (if lane < 0 \<or> int NUM_LANES \<le> lane \<or> \<not> ek_init (sg_lanes s ! nat lane) then zero3
     else quat_to_euler (get_quat (ek_x (sg_lanes s ! nat lane))))"

definition get_lane_pqr :: "int \<Rightarrow> state_mgr \<Rightarrow> vec3" where
  "get_lane_pqr lane s = (if lane < 0 \<or> int NUM_LANES \<le> lane then zero3 else sg_lane_pqr s ! nat lane)"

section \<open>Legs and wheels\<close>

text \<open>One leg: its state and foot point, when both hips report and the linkage closes.\<close>
definition leg_fk :: "motor_state list \<Rightarrow> nat \<Rightarrow> (leg_state \<times> foot_point) option" where
  "leg_fk hips leg =
    (let (phi1_id, phi4_id) = LEG_HIP_MAP ! leg; h1 = hips ! (phi1_id - 1); h4 = hips ! (phi4_id - 1) in
     if \<not> mvalid h1 \<or> \<not> mvalid h4 then None
     else case fk LEG_PARAMS (pos_rad h1) (pos_rad h4) of None \<Rightarrow> None
     | Some pose \<Rightarrow>
        let vel = jac_to_vel (jac LEG_PARAMS (pos_rad h1) (pos_rad h4)) (vel_rads h1) (vel_rads h4);
            ft = foot_point_ned pose vel
        in Some (\<lparr>ls_L0 = ps_L0 pose, ls_L0_dot = vl_L0_dot vel, ls_thL = ps_thL pose,
             ls_thL_dot = vl_thL_dot vel, ls_x_dot = ft_x_dot ft, ls_z_dot = ft_z_dot ft, ls_valid = True\<rparr>, ft))"

definition average_legs :: "(leg_state \<times> foot_point) option list \<Rightarrow> state_mgr \<Rightarrow> state_mgr" where
  "average_legs legs s =
    (let phi = sm_pitch s;
         (L, Ld, th, thd, n) = fold (\<lambda>l (L, Ld, th, thd, n). case l of None \<Rightarrow> (L, Ld, th, thd, n)
           | Some (l, ft) \<Rightarrow> (L + ls_L0 l, Ld + ls_L0_dot l, th + (phi - ls_thL l),
               thd + (v3 (sg_rates s) 1 - ls_thL_dot l), n + 1)) legs (Fin 0, Fin 0, Fin 0, Fin 0, 0 :: int);
         s = s\<lparr>sg_leg := map (\<lambda>l. case l of None \<Rightarrow> leg_state_zero | Some (l, ft) \<Rightarrow> l) legs\<rparr>
     in if 0 < n then s\<lparr>sg_L_avg := L / flt_of_int n, sg_L_dot_avg := Ld / flt_of_int n,
          sg_theta_avg := th / flt_of_int n, sg_theta_dot_avg := thd / flt_of_int n, sg_leg_avg_valid := True\<rparr>
        else s\<lparr>sg_leg_avg_valid := False\<rparr>)"

definition u_roll :: "motor_state list \<Rightarrow> nat \<Rightarrow> flt" where
  "u_roll wheels i = STATEMGR_WHEEL_SIGN ! i * vel_rads (wheels ! i) * STATEMGR_WHEEL_RADIUS_M"

definition leg_wheel_meas :: "(leg_state \<times> foot_point) option list \<Rightarrow> motor_state list \<Rightarrow> flt \<Rightarrow> flt \<times> flt \<times> int" where
  "leg_wheel_meas legs wheels Q =
     for_upto 2 (\<lambda>leg (u_sum, w_sum, n). case legs ! leg of None \<Rightarrow> (u_sum, w_sum, n)
       | Some (l, ft) \<Rightarrow> if \<not> mvalid (wheels ! leg) then (u_sum, w_sum, n)
           else (u_sum + (u_roll wheels leg - Q * ft_z ft - ft_x_dot ft),
                 w_sum + (Q * ft_x ft - ft_z_dot ft), n + 1)) (Fin 0, Fin 0, 0)"

definition wheel_meas :: "motor_state list \<Rightarrow> flt \<times> int" where
  "wheel_meas wheels =
     for_upto 2 (\<lambda>i (u_sum, n). if mvalid (wheels ! i) then (u_sum + u_roll wheels i, n + 1) else (u_sum, n)) (Fin 0, 0)"

definition fuse_wheels :: "(leg_state \<times> foot_point) option list \<Rightarrow> motor_state list \<Rightarrow> flt \<Rightarrow> ekf list \<Rightarrow> ekf list" where
  "fuse_wheels legs wheels Q lanes =
    (let (u_sum, w_sum, n) = leg_wheel_meas legs wheels Q in
     if 0 < n then map (\<lambda>e. if \<not> ek_init e then e
       else ekf_update_leg_wheel_velocity (u_sum / flt_of_int n) (w_sum / flt_of_int n) R_LEG_WHEEL_U R_LEG_WHEEL_W e) lanes
     else if mvalid (wheels ! 0) \<or> mvalid (wheels ! 1) then
       let (u_sum2, n2) = wheel_meas wheels
       in map (\<lambda>e. if \<not> ek_init e then e
            else ekf_update_wheel_velocity (u_sum2 / flt_of_int n2) R_WHEEL_VEL e) lanes
     else lanes)"

definition sm_legs_and_wheels :: "motor_state list \<Rightarrow> motor_state list \<Rightarrow> state_mgr \<Rightarrow> state_mgr" where
  "sm_legs_and_wheels hips wheels s =
    (let legs = map (leg_fk hips) [0, 1]; s = average_legs legs s
     in s\<lparr>sg_lanes := fuse_wheels legs wheels (v3 (sg_rates s) 1) (sg_lanes s)\<rparr>)"

definition get_leg_state :: "int \<Rightarrow> state_mgr \<Rightarrow> leg_state" where
  "get_leg_state leg s = (if leg < 0 \<or> 1 < leg then leg_state_zero else sg_leg s ! nat leg)"

definition get_state :: "state_mgr \<Rightarrow> flt list" where
  "get_state s =
    (let e = ek_x (sg_lanes s ! sg_primary s); v = sg_leg_avg_valid s in
     [e iX, e iY, e iZ, e iU, e iV, e iW,
      v3 (sg_uvwdot s) 0, v3 (sg_uvwdot s) 1, v3 (sg_uvwdot s) 2,
      e iQ0, e iQ1, e iQ2, e iQ3,
      v3 (sg_rates s) 0, v3 (sg_rates s) 1, v3 (sg_rates s) 2,
      v3 (sg_pqrdot s) 0, v3 (sg_pqrdot s) 1, v3 (sg_pqrdot s) 2,
      if v then sg_L_avg s else Fin 0, if v then sg_L_dot_avg s else Fin 0,
      if v then sg_theta_avg s else Fin 0, if v then sg_theta_dot_avg s else Fin 0])"

section \<open>Telemetry\<close>

record telemetry =
  tl_legs :: "leg_state list"
  tl_hip_pos :: "flt list"
  tl_hip_vel :: "flt list"
  tl_wheel_vel :: "flt list"
  tl_battery_V :: flt
  tl_power_V :: flt
  tl_current_A :: flt
  tl_x_dot :: flt
  tl_z_dot :: flt
  tl_valid :: bool

definition hip_voltage :: "motor_state list \<Rightarrow> flt" where
  "hip_voltage hips =
    (let (vsum, vn) = for_upto 4 (\<lambda>i (vsum, vn).
           if mvalid (hips ! i) then (vsum + voltage_V (hips ! i), vn + 1) else (vsum, vn)) (Fin 0, 0 :: int)
     in if 0 < vn then vsum / flt_of_int vn else Fin 0)"

definition telemetry_update ::
  "flt list \<Rightarrow> state_mgr \<Rightarrow> motor_state list \<Rightarrow> motor_state list \<Rightarrow> power_mon \<Rightarrow> telemetry" where
  "telemetry_update state s hips wheels pwr =
    (let R = quat_to_rot_body2ned (mk_quat (state ! ST_Q0) (state ! (ST_Q0 + 1)) (state ! (ST_Q0 + 2)) (state ! (ST_Q0 + 3)));
         U = state ! ST_U; V = state ! (ST_U + 1); W = state ! (ST_U + 2)
     in \<lparr>tl_legs = [get_leg_state 0 s, get_leg_state 1 s], tl_hip_pos = map (\<lambda>i. pos_rad (hips ! i)) [0..<4],
         tl_hip_vel = map (\<lambda>i. vel_rads (hips ! i)) [0..<4], tl_wheel_vel = map (\<lambda>i. vel_rads (wheels ! i)) [0..<2],
         tl_battery_V = hip_voltage hips, tl_power_V = pw_voltage_V pwr, tl_current_A = pw_current_A pwr,
         tl_x_dot = R 0 0 * U + R 0 1 * V + R 0 2 * W, tl_z_dot = R 2 0 * U + R 2 1 * V + R 2 2 * W,
         tl_valid = True\<rparr>)"

end
