(* ===== verification/EstRun.thy ===== *)
theory EstRun
  imports StateMgr TorqueSource
begin

text \<open>
  The estimator over whole runs: with finite sensor data every tick keeps the three lanes sound and
  everything the manager stores finite, so the state vector handed to the controllers is finite.
\<close>

section \<open>Lanes\<close>

definition lane_ok :: "nat \<Rightarrow> ekf \<Rightarrow> bool" where
  "lane_ok n e \<longleftrightarrow> run_inv n e \<and> noise_ok (ek_innov_norm e)"

lemma run_inv_Suc: "run_inv n e \<Longrightarrow> run_inv (Suc n) e"
proof -
  assume a: "run_inv n e"
  have "PR e i i \<le> bias_bound (Suc n) i" if "iBax \<le> i" "i < EKF_N" for i
  proof -
    have "PR e i i \<le> bias_bound n i" using a that by (simp add: run_inv_def)
    also have "\<dots> \<le> bias_bound (Suc n) i" by (simp add: bias_bound_def divide_right_mono)
    finally show ?thesis .
  qed
  then show ?thesis using a by (simp add: run_inv_def)
qed

lemma innov_norm_kept:
  "ek_innov_norm (ekf_correct m H R v e) = ek_innov_norm e" "ek_innov_norm (normalize_quat e) = ek_innov_norm e"
  "ek_innov_norm (ekf_predict dt a g e) = ek_innov_norm e" "ek_innov_norm (ekf_update_gravity a r e) = ek_innov_norm e"
  "ek_innov_norm (ekf_update_position p r e) = ek_innov_norm e" "ek_innov_norm (ekf_update_ned_vel p r e) = ek_innov_norm e"
  "ek_innov_norm (ekf_update_wheel_velocity u r e) = ek_innov_norm e"
  "ek_innov_norm (ekf_update_leg_wheel_velocity u w r r' e) = ek_innov_norm e"
proof -
  show c: "ek_innov_norm (ekf_correct m H R v e) = ek_innov_norm e" for m H R v e
    by (simp add: ekf_correct_def Let_def split: option.split)
  show n: "ek_innov_norm (normalize_quat e) = ek_innov_norm e" for e by (simp add: normalize_quat_def)
  show "ek_innov_norm (ekf_predict dt a g e) = ek_innov_norm e" by (simp add: ekf_predict_def Let_def)
  show "ek_innov_norm (ekf_update_gravity a r e) = ek_innov_norm e" by (simp add: ekf_update_gravity_def Let_def c n)
  show "ek_innov_norm (ekf_update_position p r e) = ek_innov_norm e" by (simp add: ekf_update_position_def Let_def c)
  show "ek_innov_norm (ekf_update_ned_vel p r e) = ek_innov_norm e" by (simp add: ekf_update_ned_vel_def Let_def c)
  show "ek_innov_norm (ekf_update_wheel_velocity u r e) = ek_innov_norm e" by (simp add: ekf_update_wheel_velocity_def c)
  show "ek_innov_norm (ekf_update_leg_wheel_velocity u w r r' e) = ek_innov_norm e"
    by (simp add: ekf_update_leg_wheel_velocity_def c)
qed

lemma quaternion_norm_ok:
  assumes "run_inv n e" "noise_ok (ek_innov_norm e)" "fin_quat q"
  shows "noise_ok (ek_innov_norm (ekf_update_quaternion q r e))"
proof -
  have i: "ek_init e" using assms(1) by (simp add: run_inv_def)
  have p: "fin_quat (get_quat (ek_x e))" by (rule fin_get_quat) (use assms(1) in \<open>simp add: run_inv_x\<close>)
  obtain m where m: "ek_innov_norm e = Fin m" "0 \<le> m" using assms(2) by (rule noise_okE)
  obtain w x y z where s: "shorter_arc q (get_quat (ek_x e)) = mk_quat (Fin w) (Fin x) (Fin y) (Fin z)"
    using shorter_arc_fin [OF assms(3)] by (rule fin_quatE)
  obtain a b c d where g: "get_quat (ek_x e) = mk_quat (Fin a) (Fin b) (Fin c) (Fin d)" using p by (rule fin_quatE)
  have "0 \<le> (w - a) * (w - a) + (x - b) * (x - b) + (y - c) * (y - c) + (z - d) * (z - d)" by simp
  then show ?thesis
    using i m by (simp add: ekf_update_quaternion_def Let_def s [unfolded g] g innov_norm_kept noise_ok_def INNOV_SMOOTH_def)
qed

lemma lane_step:
  assumes "lane_ok n e" "n \<le> 9900000" "ekf_ev_ok ev"
  shows "lane_ok (if is_predict ev then Suc n else n) (ekf_step ev e)"
  using assms ekf_step_inv [OF _ assms(2,3), of e] quaternion_norm_ok [of n e]
  by (cases ev) (simp_all add: lane_ok_def innov_norm_kept)

section \<open>Sensor data\<close>

record est_in =
  ei_dt :: flt
  ei_imu :: "imu_raw list"
  ei_can :: can_imu
  ei_mocap :: mocap_raw
  ei_hips :: "motor_state list"
  ei_wheels :: "motor_state list"

definition est_tick :: "est_in \<Rightarrow> state_mgr \<Rightarrow> state_mgr" where
  "est_tick i s = sm_legs_and_wheels (ei_hips i) (ei_wheels i)
     (sm_update (ei_dt i) (ei_imu i) (ei_can i) (ei_mocap i) s)"

definition est_run :: "est_in list \<Rightarrow> state_mgr \<Rightarrow> state_mgr" where
  "est_run is s = fold est_tick is s"

definition motor_fin :: "motor_state \<Rightarrow> bool" where
  "motor_fin m \<longleftrightarrow> isfin (pos_rad m) \<and> isfin (vel_rads m)"

definition est_in_fin :: "est_in \<Rightarrow> bool" where
  "est_in_fin i \<longleftrightarrow> isfin (ei_dt i) \<and> Fin 0 < ei_dt i \<and>
     length (ei_imu i) = 3 \<and> (\<forall>m \<in> set (ei_imu i). fin3 (im_accel m) \<and> fin3 (im_gyro m)) \<and>
     imu_fin (ei_can i) \<and> fin3 (mc_xyz (ei_mocap i)) \<and> fin3 (mc_vel (ei_mocap i)) \<and>
     length (ei_hips i) = 4 \<and> (\<forall>m \<in> set (ei_hips i). motor_fin m) \<and>
     length (ei_wheels i) = 2 \<and> (\<forall>m \<in> set (ei_wheels i). motor_fin m)"

definition est_inv :: "nat \<Rightarrow> state_mgr \<Rightarrow> bool" where
  "est_inv n s \<longleftrightarrow> sg_init s \<and> length (sg_lanes s) = 3 \<and> (\<forall>e \<in> set (sg_lanes s). lane_ok n e) \<and>
     sg_primary s < 3 \<and> fin3 (sg_rates s) \<and> fin3 (sg_prev s) \<and> fin3 (sg_pqrdot s) \<and> fin3 (sg_uvwdot s) \<and>
     isfin (sg_L_avg s) \<and> isfin (sg_L_dot_avg s) \<and> isfin (sg_theta_avg s) \<and> isfin (sg_theta_dot_avg s)"

section \<open>The parts of a tick\<close>

lemma noise_consts: "noise_ok R_QUAT" "noise_ok R_GRAVITY" "noise_ok R_MOCAP_POS" "noise_ok R_MOCAP_VEL"
  "noise_ok R_WHEEL_VEL" "noise_ok R_LEG_WHEEL_U" "noise_ok R_LEG_WHEEL_W"
  by (simp_all add: noise_ok_def R_QUAT_def R_GRAVITY_def R_MOCAP_POS_def R_MOCAP_VEL_def R_WHEEL_VEL_def
      R_LEG_WHEEL_U_def R_LEG_WHEEL_W_def)

lemma lane_init: "lane_ok n e \<Longrightarrow> ek_init e" by (simp add: lane_ok_def run_inv_def)

lemma lane_x: "lane_ok n e \<Longrightarrow> i < EKF_N \<Longrightarrow> isfin (ek_x e i)" by (auto simp: lane_ok_def intro: run_inv_x)

lemma sm_predict_ok:
  assumes l: "\<forall>e \<in> set lanes. lane_ok n e" "length lanes = 3" and n: "Suc n \<le> 9900000"
    and dt: "isfin dt" and imu: "length imu = 3" "\<forall>m \<in> set imu. fin3 (im_accel m) \<and> fin3 (im_gyro m)" and ci: "imu_fin ci"
  shows "\<forall>e \<in> set (sm_predict dt imu ci lanes). lane_ok (Suc n) e" "length (sm_predict dt imu ci lanes) = 3"
proof -
  define l1 where "l1 = map (\<lambda>i. if im_valid (imu ! i)
           then ekf_predict dt (im_accel (imu ! i)) (im_gyro (imu ! i)) (lanes ! i) else lanes ! i) [0..<NUM_LANES]"
  define l2 where "l2 = map (\<lambda>i. if im_valid (imu ! i)
           then ekf_update_gravity (im_accel (imu ! i)) R_GRAVITY (l1 ! i) else l1 ! i) [0..<NUM_LANES]"
  have eq: "sm_predict dt imu ci lanes = (if ci_valid ci \<and> ci_has_new_quat ci
        then map (ekf_update_quaternion (mk_quat (ci_q0 ci) (ci_q1 ci) (ci_q2 ci) (ci_q3 ci)) R_QUAT) l2 else l2)"
    unfolding sm_predict_def Let_def l2_def l1_def ..
  have im: "fin3 (im_accel (imu ! i))" "fin3 (im_gyro (imu ! i))" if "i < 3" for i using imu that by simp_all
  have 1: "lane_ok (Suc n) (l1 ! i)" if i: "i < 3" for i
  proof -
    have "lane_ok n (lanes ! i)" using l i by simp
    then show ?thesis
      using lane_step [of n "lanes ! i" "EvPredict dt (im_accel (imu ! i)) (im_gyro (imu ! i))"] im [OF i] dt n i
        run_inv_Suc by (simp add: l1_def lane_ok_def)
  qed
  have 2: "lane_ok (Suc n) (l2 ! i)" if i: "i < 3" for i
    using lane_step [OF 1 [OF i] n, of "EvGravity (im_accel (imu ! i)) R_GRAVITY"] 1 [OF i] im [OF i] i noise_consts
    by (simp add: l2_def)
  have len: "length l2 = 3" by (simp add: l2_def)
  then have l2: "\<forall>e \<in> set l2. lane_ok (Suc n) e" using 2 by (metis in_set_conv_nth)
  have "lane_ok (Suc n) (ekf_update_quaternion (mk_quat (ci_q0 ci) (ci_q1 ci) (ci_q2 ci) (ci_q3 ci)) R_QUAT e)"
    if "e \<in> set l2" for e
    using lane_step [OF bspec [OF l2 that] n, of "EvQuaternion (mk_quat (ci_q0 ci) (ci_q1 ci) (ci_q2 ci) (ci_q3 ci)) R_QUAT"]
      noise_consts ci by (simp add: imu_fin_def fin_quat_def)
  then show "\<forall>e \<in> set (sm_predict dt imu ci lanes). lane_ok (Suc n) e" "length (sm_predict dt imu ci lanes) = 3"
    unfolding eq using l2 len by auto
qed

lemma sm_mocap_ok:
  assumes l: "\<forall>e \<in> set lanes. lane_ok n e" and n: "n \<le> 9900000" and m: "fin3 (mc_xyz mc)" "fin3 (mc_vel mc)"
  shows "\<forall>e \<in> set (sm_mocap mc lanes). lane_ok n e" "length (sm_mocap mc lanes) = length lanes"
proof -
  have "lane_ok n (ekf_update_ned_vel (mc_vel mc) R_MOCAP_VEL (ekf_update_position (mc_xyz mc) R_MOCAP_POS e))"
    if "e \<in> set lanes" for e
  proof -
    have "lane_ok n (ekf_update_position (mc_xyz mc) R_MOCAP_POS e)"
      using lane_step [OF bspec [OF l that] n, of "EvPosition (mc_xyz mc) R_MOCAP_POS"] m noise_consts by simp
    from lane_step [OF this n, of "EvNedVel (mc_vel mc) R_MOCAP_VEL"] show ?thesis using m noise_consts by simp
  qed
  then show "\<forall>e \<in> set (sm_mocap mc lanes). lane_ok n e" "length (sm_mocap mc lanes) = length lanes"
    using l by (auto simp: sm_mocap_def)
qed

lemma select_primary_less: "p < 3 \<Longrightarrow> select_primary lanes p < 3"
  unfolding select_primary_def upt_3 fold_simps Let_def by simp

lemma isfin_div: "isfin a \<Longrightarrow> isfin b \<Longrightarrow> b \<noteq> Fin 0 \<Longrightarrow> isfin (a / b)"
  by (elim isfinE) simp

lemma upt_3_map: "length xs = 3 \<Longrightarrow> xs = [xs ! 0, xs ! 1, xs ! 2]"
  by (auto simp: length_Suc_conv numeral_3_eq_3)

lemma lane_weights_fin:
  assumes "\<forall>e \<in> set lanes. lane_ok n e" "length lanes = 3" "p < 3"
  shows "length (lane_weights lanes p) = 3" "\<forall>w \<in> set (lane_weights lanes p). isfin w"
proof -
  obtain e0 e1 e2 where l: "lanes = [e0, e1, e2]" using upt_3_map [OF assms(2)] by blast
  have i: "ek_init e0" "ek_init e1" "ek_init e2" using assms(1) by (auto simp: l dest: lane_init)
  have q: "isfin (Fin 1 / (Fin (1 / 10 ^ 4) + ek_innov_norm e))" if "e \<in> set lanes" for e
  proof -
    have "noise_ok (ek_innov_norm e)" using assms(1) that by (simp add: lane_ok_def)
    then obtain m where m: "ek_innov_norm e = Fin m" "0 \<le> m" by (rule noise_okE)
    then have "1 / 10 ^ 4 + m \<noteq> 0" by (smt (verit) divide_pos_pos zero_less_power)
    then show ?thesis by (simp add: m)
  qed
  define w where "w = map (\<lambda>e. Fin 1 / (Fin (1 / 10 ^ 4) + ek_innov_norm e)) lanes"
  have w: "isfin (w ! i)" if "i < 3" for i using q assms(2) that by (simp add: w_def)
  define W where "W = Fin 0 + w ! 0 + w ! 1 + w ! 2"
  have W: "isfin W" using w by (simp add: W_def)
  have eq: "lane_weights lanes p = (if W > Fin (1 / 10 ^ 10) then [w ! 0 / W, w ! 1 / W, w ! 2 / W] else w[p := Fin 1])"
    unfolding lane_weights_def upt_3 fold_simps Let_def using i
    by (simp add: l w_def W_def numeral_3_eq_3 del: Fin0_add)
  have "w = [w ! 0, w ! 1, w ! 2]" by (simp add: w_def l)
  have d: "isfin (w ! i / W)" if "i < 3" "W > Fin (1 / 10 ^ 10)" for i
    by (rule isfin_div [OF w [OF that(1)] W]) (use that(2) in auto)
  have "\<forall>v \<in> set (w[p := Fin 1]). isfin v"
  proof -
    have "\<forall>v \<in> set w. isfin v" using q by (simp add: w_def)
    then show ?thesis using set_update_subset_insert [of w p "Fin 1"] by auto
  qed
  then show "length (lane_weights lanes p) = 3" "\<forall>w \<in> set (lane_weights lanes p). isfin w"
    unfolding eq using d [of 0] d [of 1] d [of 2] assms(2) by (simp_all add: w_def)
qed

lemma acc3_fin: "fin3 b \<Longrightarrow> isfin w \<Longrightarrow> fin3 v \<Longrightarrow> fin3 (acc3 b w v)"
  by (simp add: acc3_def fin3_def)

lemma lane_rates_fin: "fin3 (im_gyro im) \<Longrightarrow> \<forall>i<EKF_N. isfin (x i) \<Longrightarrow> fin3 (lane_rates im x)"
  by (simp add: lane_rates_def fin3_def)

lemma lane_accel_fin:
  assumes "fin3 (im_accel im)" "fin3 (im_gyro im)" "\<forall>i<EKF_N. isfin (x i)"
  shows "fin3 (lane_accel im x)"
proof -
  have "fin3 (cross3 (lane_rates im x) (x iU, x iV, x iW))"
    by (rule cross3_fin [OF lane_rates_fin]) (use assms in simp_all)
  then show ?thesis
    using assms rot_fin [OF fin_get_quat [OF assms(3)]]
    by (simp add: lane_accel_def Let_def fin3_def GRAVITY_def)
qed

lemma blend_fin:
  assumes w: "\<And>i. i < 3 \<Longrightarrow> isfin (w ! i)" and im: "\<And>i. i < 3 \<Longrightarrow> fin3 (im_accel (imu ! i)) \<and> fin3 (im_gyro (imu ! i))"
    and x: "\<And>i. i < 3 \<Longrightarrow> \<forall>k<EKF_N. isfin (ek_x (lanes ! i) k)"
  shows "fin3 (fst (blend_rates imu lanes w lp))" "fin3 (blend_accel imu lanes w)"
proof -
  let ?f = "\<lambda>i (b, lp). if \<not> im_valid (imu ! i) \<or> \<not> ek_init (lanes ! i) then (b, lp[i := zero3])
       else let l = lane_rates (imu ! i) (ek_x (lanes ! i)) in
            (if w ! i < Fin (1 / 10 ^ 15) then b else acc3 b (w ! i) l, lp[i := l])"
  have f: "fin3 (fst (?f i s))" if "i < 3" "fin3 (fst s)" for i s
    using acc3_fin [OF that(2) w [OF that(1)] lane_rates_fin [OF _ x [OF that(1)]]] im [OF that(1)] that(2)
    by (cases s) (simp add: Let_def)
  have "fin3 (fst (for_upto n ?f (zero3, lp)))" if "n \<le> 3" for n
    using that by (induction n) (simp, use f in simp)
  then show "fin3 (fst (blend_rates imu lanes w lp))" unfolding blend_rates_def by blast
  let ?g = "\<lambda>i b. if w ! i < Fin (1 / 10 ^ 15) \<or> \<not> im_valid (imu ! i) then b
       else acc3 b (w ! i) (lane_accel (imu ! i) (ek_x (lanes ! i)))"
  have g: "fin3 (?g i b)" if "i < 3" "fin3 b" for i b
    using acc3_fin [OF that(2) w [OF that(1)] lane_accel_fin [OF _ _ x [OF that(1)]]] im [OF that(1)] that(2) by simp
  have "fin3 (for_upto n ?g zero3)" if "n \<le> 3" for n
    using that by (induction n) (simp, use g in simp)
  then show "fin3 (blend_accel imu lanes w)" unfolding blend_accel_def by blast
qed

lemma imx5_blend_fin:
  assumes "imu_fin ci" "\<forall>i<EKF_N. isfin (x i)" "fin3 b"
  shows "fin3 (imx5_blend ci x b)"
  using assms rot_fin [OF fin_get_quat [OF assms(2)]]
  by (simp add: imx5_blend_def Let_def fin3_def imu_fin_def STATEMGR_IMX5_RATE_WEIGHT_def)

lemma alpha_fin:
  assumes "isfin dt" "Fin 0 < dt"
  shows "isfin (lowpass_alpha (Fin 50) dt)"
proof -
  obtain d where "dt = Fin d" "0 < d" using assms by (auto elim!: isfinE)
  then show ?thesis using lowpass_alpha_unit [of 50 d] by auto
qed

lemma lowpass3_fin: "fin3 v \<Longrightarrow> fin3 f \<Longrightarrow> isfin a \<Longrightarrow> fin3 (lowpass3 v f a)"
  by (simp add: lowpass3_def lowpass_def fin3_def)

lemma derivative3_fin:
  assumes "fin3 v" "fin3 p" "isfin dt" "Fin 0 < dt"
  shows "fin3 (derivative3 v p dt)"
proof -
  have "dt \<noteq> Fin 0" using assms(4) by auto
  then show ?thesis
    using assms by (simp add: derivative3_def derivative_def fin3_def isfin_div)
qed

lemma sm_update_ok:
  assumes inv: "est_inv n s" and n: "Suc n \<le> 9900000" and i: "est_in_fin i"
  shows "est_inv (Suc n) (sm_update (ei_dt i) (ei_imu i) (ei_can i) (ei_mocap i) s)"
proof -
  from inv have l: "\<forall>e \<in> set (sg_lanes s). lane_ok n e" "length (sg_lanes s) = 3" and p: "sg_primary s < 3"
    and s: "sg_init s" "fin3 (sg_prev s)" "fin3 (sg_pqrdot s)" "fin3 (sg_uvwdot s)" by (simp_all add: est_inv_def)
  from i have dt: "isfin (ei_dt i)" "Fin 0 < ei_dt i" and imu: "length (ei_imu i) = 3"
      "\<forall>m \<in> set (ei_imu i). fin3 (im_accel m) \<and> fin3 (im_gyro m)" and ci: "imu_fin (ei_can i)"
    and mc: "fin3 (mc_xyz (ei_mocap i))" "fin3 (mc_vel (ei_mocap i))" by (simp_all add: est_in_fin_def)
  define l1 where "l1 = sm_predict (ei_dt i) (ei_imu i) (ei_can i) (sg_lanes s)"
  note l1 = sm_predict_ok [OF l n dt(1) imu ci, folded l1_def]
  define pr where "pr = select_primary l1 (sg_primary s)"
  have pr: "pr < 3" unfolding pr_def by (rule select_primary_less [OF p])
  define w where "w = lane_weights l1 pr"
  note w = lane_weights_fin [OF l1 pr, folded w_def]
  define l2 where "l2 = sm_mocap (ei_mocap i) l1"
  note l2 = sm_mocap_ok [OF l1(1) n mc, folded l2_def]
  have x: "\<forall>k<EKF_N. isfin (ek_x (l2 ! j) k)" if "j < 3" for j
  proof -
    have "l2 ! j \<in> set l2" using l2(2) l1(2) that by simp
    then show ?thesis using l2(1) lane_x by blast
  qed
  define b0 where "b0 = blend_rates (ei_imu i) l2 w (sg_lane_pqr s)"
  have im: "fin3 (im_accel (ei_imu i ! j)) \<and> fin3 (im_gyro (ei_imu i ! j))" if "j < 3" for j using imu that by simp
  have wj: "isfin (w ! j)" if "j < 3" for j using w that by simp
  note bl = blend_fin [OF wj im x]
  define b where "b = imx5_blend (ei_can i) (ek_x (l2 ! pr)) (fst b0)"
  have b: "fin3 b" unfolding b_def b0_def by (rule imx5_blend_fin [OF ci x [OF pr] bl(1)])
  have a: "isfin (lowpass_alpha STATEMGR_LP_UVWDOT_HZ (ei_dt i))" "isfin (lowpass_alpha STATEMGR_LP_PQRDOT_HZ (ei_dt i))"
    using alpha_fin [OF dt] by (simp_all add: STATEMGR_LP_UVWDOT_HZ_def STATEMGR_LP_PQRDOT_HZ_def)
  define uvw where "uvw = lowpass3 (blend_accel (ei_imu i) l2 w) (sg_uvwdot s) (lowpass_alpha STATEMGR_LP_UVWDOT_HZ (ei_dt i))"
  have uvw: "fin3 uvw" unfolding uvw_def by (rule lowpass3_fin [OF bl(2) s(4) a(1)])
  define pqr where "pqr = lowpass3 (derivative3 b (sg_prev s) (ei_dt i)) (sg_pqrdot s) (lowpass_alpha STATEMGR_LP_PQRDOT_HZ (ei_dt i))"
  have pqr: "fin3 pqr" unfolding pqr_def by (rule lowpass3_fin [OF derivative3_fin [OF b s(2) dt] s(3) a(2)])
  have "sm_update (ei_dt i) (ei_imu i) (ei_can i) (ei_mocap i) s =
      s\<lparr>sg_lanes := l2, sg_primary := pr, sg_rates := b, sg_lane_pqr := snd b0,
        sg_acc := blend_accel (ei_imu i) l2 w, sg_uvwdot := uvw, sg_pqrdot := pqr, sg_prev := b\<rparr>"
    unfolding sm_update_def Let_def l1_def [symmetric] pr_def [symmetric] w_def [symmetric] l2_def [symmetric]
      b0_def [symmetric] case_prod_beta b_def [symmetric] uvw_def [symmetric] pqr_def [symmetric] using s(1) by simp
  then show ?thesis using inv l2 l1(2) pr b uvw pqr by (simp add: est_inv_def)
qed

section \<open>Legs and wheels\<close>

lemma fk_fin:
  assumes "isfin a" "isfin b" "fk LEG_PARAMS a b = Some pose"
  shows "isfin (ps_L0 pose)" "isfin (ps_thL pose)"
proof -
  obtain x y where xy: "a = Fin x" "b = Fin y" using assms(1,2) by (auto elim!: isfinE)
  from assms(3) obtain C where C: "fk_foot LEG_PARAMS (Fin x) (Fin y) = Some C"
    "pose = \<lparr>ps_L0 = norm2 C, ps_thL = atan2f (fst C) (- snd C)\<rparr>" unfolding fk_def xy by auto
  obtain c where "C = rv c" by (rule fk_foot_Some [OF leg_fin C(1)]) blast
  then show "isfin (ps_L0 pose)" "isfin (ps_thL pose)" by (simp_all add: C(2) norm2_def rv_def)
qed

lemma jac_fin:
  assumes "isfin a" "isfin b"
  shows "isfin (fst (fst (jac LEG_PARAMS a b)))" "isfin (snd (fst (jac LEG_PARAMS a b)))"
    "isfin (fst (snd (jac LEG_PARAMS a b)))" "isfin (snd (snd (jac LEG_PARAMS a b)))"
proof -
  have e: "isfin JAC_EPS" "isfin (Fin 2 * JAC_EPS)" "Fin 2 * JAC_EPS \<noteq> Fin 0" by (simp_all add: JAC_EPS_def)
  have f: "isfin (a + JAC_EPS)" "isfin (a - JAC_EPS)" "isfin (b + JAC_EPS)" "isfin (b - JAC_EPS)" using assms e by simp_all
  show "isfin (fst (fst (jac LEG_PARAMS a b)))" "isfin (snd (fst (jac LEG_PARAMS a b)))"
    "isfin (fst (snd (jac LEG_PARAMS a b)))" "isfin (snd (snd (jac LEG_PARAMS a b)))"
    using fk_fin [OF f(1) assms(2)] fk_fin [OF f(2) assms(2)] fk_fin [OF assms(1) f(3)] fk_fin [OF assms(1) f(4)] e
    by (auto simp: jac_def split: option.split intro!: isfin_div)
qed

definition leg_fin_out :: "(leg_state \<times> foot_point) option \<Rightarrow> bool" where
  "leg_fin_out l = (case l of None \<Rightarrow> True | Some (l, ft) \<Rightarrow>
     isfin (ls_L0 l) \<and> isfin (ls_L0_dot l) \<and> isfin (ls_thL l) \<and> isfin (ls_thL_dot l) \<and>
     isfin (ft_x ft) \<and> isfin (ft_z ft) \<and> isfin (ft_x_dot ft) \<and> isfin (ft_z_dot ft))"

lemma sin_cos_fin: "isfin a \<Longrightarrow> isfin (sinf a)" "isfin a \<Longrightarrow> isfin (cosf a)"
  by (auto elim!: isfinE)

lemma leg_fk_fin:
  assumes "\<forall>m \<in> set hips. motor_fin m" "length hips = 4" "leg < 2"
  shows "leg_fin_out (leg_fk hips leg)"
proof -
  obtain j1 j4 where j: "LEG_HIP_MAP ! leg = (j1, j4)" "0 < j1" "j1 \<le> 4" "0 < j4" "j4 \<le> 4"
    using assms(3) by (auto simp: LEG_HIP_MAP_def less_Suc_eq numeral_2_eq_2)
  have h: "motor_fin (hips ! (j1 - 1))" "motor_fin (hips ! (j4 - 1))" using assms j by simp_all
  then have f: "isfin (pos_rad (hips ! (j1 - 1)))" "isfin (pos_rad (hips ! (j4 - 1)))"
    "isfin (vel_rads (hips ! (j1 - 1)))" "isfin (vel_rads (hips ! (j4 - 1)))" by (simp_all add: motor_fin_def)
  show ?thesis
    unfolding leg_fk_def Let_def j(1) prod.case leg_fin_out_def
    using fk_fin [OF f(1,2)] jac_fin [OF f(1,2)] f(3,4)
    by (auto simp: jac_to_vel_def foot_point_ned_def Let_def sin_cos_fin split: option.split)
qed

lemma pitch_fin:
  assumes "est_inv n s"
  shows "isfin (sm_pitch s)"
proof -
  have "sg_lanes s ! sg_primary s \<in> set (sg_lanes s)" using assms by (simp add: est_inv_def)
  then have "\<forall>i<EKF_N. isfin (ek_x (sg_lanes s ! sg_primary s) i)"
    using assms lane_x unfolding est_inv_def by blast
  then show ?thesis unfolding sm_pitch_def primary_quat_def by (intro quat_to_euler_pitch_fin) (simp_all add: get_quat_def)
qed

definition avg_ok :: "flt \<times> flt \<times> flt \<times> flt \<times> int \<Rightarrow> bool" where
  "avg_ok a = (case a of (L, Ld, th, thd, n) \<Rightarrow> isfin L \<and> isfin Ld \<and> isfin th \<and> isfin thd)"

lemma average_legs_ok:
  assumes inv: "est_inv n s" and l: "\<forall>l \<in> set legs. leg_fin_out l"
  shows "est_inv n (average_legs legs s)"
proof -
  have p: "isfin (sm_pitch s)" using pitch_fin [OF inv] .
  have q: "isfin (v3 (sg_rates s) 1)" using inv by (simp add: est_inv_def fin3_def)
  define f where "f = (\<lambda>l (L, Ld, th, thd, n). case l of None \<Rightarrow> (L, Ld, th, thd, n)
           | Some (l :: leg_state, ft :: foot_point) \<Rightarrow> (L + ls_L0 l, Ld + ls_L0_dot l, th + (sm_pitch s - ls_thL l),
               thd + (v3 (sg_rates s) 1 - ls_thL_dot l), n + 1 :: int))"
  have step: "avg_ok (f l a)" if "avg_ok a" "leg_fin_out l" for l a
    using that p q by (cases a; cases l) (auto simp: f_def avg_ok_def leg_fin_out_def)
  have "avg_ok (fold f ls a)" if "avg_ok a" "\<forall>l \<in> set ls. leg_fin_out l" for ls a
    using that by (induction ls arbitrary: a) (simp_all add: step)
  then have a: "avg_ok (fold f legs (Fin 0, Fin 0, Fin 0, Fin 0, 0))" using l by (simp add: avg_ok_def)
  obtain L Ld th thd k where e0: "fold f legs (Fin 0, Fin 0, Fin 0, Fin 0, 0) = (L, Ld, th, thd, k)"
    by (rule prod_cases5)
  with a have "isfin L" "isfin Ld" "isfin th" "isfin thd" by (simp_all add: avg_ok_def)
  note e = e0 this
  have k: "0 < k \<Longrightarrow> isfin (flt_of_int k)" "0 < k \<Longrightarrow> flt_of_int k \<noteq> Fin 0" by simp_all
  have eq: "average_legs legs s =
      (let s = s\<lparr>sg_leg := map (\<lambda>l. case l of None \<Rightarrow> leg_state_zero | Some (l, ft) \<Rightarrow> l) legs\<rparr>
       in if 0 < k then s\<lparr>sg_L_avg := L / flt_of_int k, sg_L_dot_avg := Ld / flt_of_int k,
          sg_theta_avg := th / flt_of_int k, sg_theta_dot_avg := thd / flt_of_int k, sg_leg_avg_valid := True\<rparr>
        else s\<lparr>sg_leg_avg_valid := False\<rparr>)"
    unfolding average_legs_def Let_def f_def [symmetric] e(1) prod.case ..
  show ?thesis
  proof (cases "0 < k")
    case True
    note d = isfin_div [OF _ k(1) [OF True] k(2) [OF True]]
    show ?thesis unfolding eq using True inv d [OF e(2)] d [OF e(3)] d [OF e(4)] d [OF e(5)]
      by (simp add: est_inv_def Let_def)
  next
    case False
    then show ?thesis unfolding eq using inv by (simp add: est_inv_def Let_def)
  qed
qed

lemma u_roll_fin:
  assumes "\<forall>m \<in> set wheels. motor_fin m" "length wheels = 2" "i < 2"
  shows "isfin (u_roll wheels i)"
proof -
  have "motor_fin (wheels ! i)" using assms by simp
  then show ?thesis
    using assms(3) by (auto simp: u_roll_def motor_fin_def STATEMGR_WHEEL_SIGN_def STATEMGR_WHEEL_RADIUS_M_def
        less_Suc_eq numeral_2_eq_2)
qed

lemma upt_2: "[0..<2] = [0, 1]" by (simp add: upt_rec)

lemma leg_wheel_meas_fin:
  assumes w: "\<forall>m \<in> set wheels. motor_fin m" "length wheels = 2"
    and l: "\<forall>l \<in> set legs. leg_fin_out l" "length legs = 2" and Q: "isfin Q"
    and e: "leg_wheel_meas legs wheels Q = (us, ws, n)"
  shows "isfin us" "isfin ws"
proof -
  let ?f = "\<lambda>leg (u_sum, w_sum, n). case legs ! leg of None \<Rightarrow> (u_sum, w_sum, n)
       | Some (l, ft) \<Rightarrow> if \<not> mvalid (wheels ! leg) then (u_sum, w_sum, n)
           else (u_sum + (u_roll wheels leg - Q * ft_z ft - ft_x_dot ft),
                 w_sum + (Q * ft_x ft - ft_z_dot ft), n + 1 :: int)"
  have step: "isfin (fst (?f leg a)) \<and> isfin (fst (snd (?f leg a)))"
    if "isfin (fst a)" "isfin (fst (snd a))" "leg < 2" for leg a
  proof -
    have "leg_fin_out (legs ! leg)" using l that by simp
    then show ?thesis
      using that u_roll_fin [OF w that(3)] Q by (cases a; cases "legs ! leg") (auto simp: leg_fin_out_def)
  qed
  have "isfin (fst (for_upto k ?f (Fin 0, Fin 0, 0))) \<and> isfin (fst (snd (for_upto k ?f (Fin 0, Fin 0, 0))))" if "k \<le> 2" for k
    using that
  proof (induction k)
    case (Suc k)
    then show ?case unfolding for_upto_Suc by (intro step) simp_all
  qed simp
  from this [of 2] show "isfin us" "isfin ws" using e unfolding leg_wheel_meas_def by simp_all
qed

lemma wheel_meas_fin:
  assumes w: "\<forall>m \<in> set wheels. motor_fin m" "length wheels = 2"
    and v: "mvalid (wheels ! 0) \<or> mvalid (wheels ! 1)" and e: "wheel_meas wheels = (us, n)"
  shows "isfin us" "0 < n"
  using v e u_roll_fin [OF w, of 0] u_roll_fin [OF w, of 1]
  unfolding wheel_meas_def upt_2 fold_simps by (auto split: if_splits)

lemma fuse_wheels_ok:
  assumes lanes: "\<forall>e \<in> set lanes. lane_ok k e" and k: "k \<le> 9900000"
    and w: "\<forall>m \<in> set wheels. motor_fin m" "length wheels = 2"
    and l: "\<forall>l \<in> set legs. leg_fin_out l" "length legs = 2" and Q: "isfin Q"
  shows "\<forall>e \<in> set (fuse_wheels legs wheels Q lanes). lane_ok k e" "length (fuse_wheels legs wheels Q lanes) = length lanes"
proof -
  obtain us ws n where e: "leg_wheel_meas legs wheels Q = (us, ws, n)" by (rule prod_cases3)
  note m = leg_wheel_meas_fin [OF w l Q e]
  have lw: "lane_ok k (ekf_update_leg_wheel_velocity (us / flt_of_int n) (ws / flt_of_int n) R_LEG_WHEEL_U R_LEG_WHEEL_W e)"
    if "e \<in> set lanes" "0 < n" for e
    using lane_step [OF bspec [OF lanes that(1)] k, of "EvLegWheel (us / flt_of_int n) (ws / flt_of_int n) R_LEG_WHEEL_U R_LEG_WHEEL_W"]
      m that(2) noise_consts by (simp add: isfin_div)
  obtain us2 n2 where e2: "wheel_meas wheels = (us2, n2)" by (rule prod.exhaust)
  have ww: "lane_ok k (ekf_update_wheel_velocity (us2 / flt_of_int n2) R_WHEEL_VEL e)"
    if "e \<in> set lanes" "mvalid (wheels ! 0) \<or> mvalid (wheels ! 1)" for e
    using lane_step [OF bspec [OF lanes that(1)] k, of "EvWheel (us2 / flt_of_int n2) R_WHEEL_VEL"]
      wheel_meas_fin [OF w that(2) e2] noise_consts by (simp add: isfin_div)
  show "\<forall>e \<in> set (fuse_wheels legs wheels Q lanes). lane_ok k e" "length (fuse_wheels legs wheels Q lanes) = length lanes"
    unfolding fuse_wheels_def e e2 Let_def prod.case using lw ww lanes by auto
qed

lemma est_tick_ok:
  assumes inv: "est_inv n s" and n: "Suc n \<le> 9900000" and i: "est_in_fin i"
  shows "est_inv (Suc n) (est_tick i s)"
proof -
  from i have h: "length (ei_hips i) = 4" "\<forall>m \<in> set (ei_hips i). motor_fin m"
    and w: "\<forall>m \<in> set (ei_wheels i). motor_fin m" "length (ei_wheels i) = 2" by (simp_all add: est_in_fin_def)
  define s1 where "s1 = sm_update (ei_dt i) (ei_imu i) (ei_can i) (ei_mocap i) s"
  have s1: "est_inv (Suc n) s1" unfolding s1_def by (rule sm_update_ok [OF inv n i])
  define legs where "legs = map (leg_fk (ei_hips i)) [0, 1]"
  have legs: "\<forall>l \<in> set legs. leg_fin_out l" "length legs = 2"
    using leg_fk_fin [OF h(2,1)] by (simp_all add: legs_def)
  define s2 where "s2 = average_legs legs s1"
  have s2: "est_inv (Suc n) s2" unfolding s2_def by (rule average_legs_ok [OF s1 legs(1)])
  have Q: "isfin (v3 (sg_rates s2) 1)" using s2 by (simp add: est_inv_def fin3_def)
  have l: "\<forall>e \<in> set (sg_lanes s2). lane_ok (Suc n) e" using s2 by (simp add: est_inv_def)
  have "est_tick i s = s2\<lparr>sg_lanes := fuse_wheels legs (ei_wheels i) (v3 (sg_rates s2) 1) (sg_lanes s2)\<rparr>"
    unfolding est_tick_def s1_def [symmetric] sm_legs_and_wheels_def Let_def legs_def [symmetric] s2_def [symmetric] ..
  then show ?thesis using fuse_wheels_ok [OF l n w legs Q] s2 by (simp add: est_inv_def)
qed

lemma sm_init_inv: "est_inv 0 (sm_init s)"
proof -
  have "lane_ok 0 (ekf_init k e)" for k e
    using ekf_init_inv [of k e] by (simp add: lane_ok_def noise_ok_def) (simp add: ekf_init_def Let_def)
  then show ?thesis by (simp add: sm_init_def est_inv_def)
qed

lemma est_run_ok:
  "est_inv n s \<Longrightarrow> \<forall>i \<in> set is. est_in_fin i \<Longrightarrow> n + length is \<le> 9900000 \<Longrightarrow> est_inv (n + length is) (est_run is s)"
proof (induction "is" arbitrary: n s)
  case (Cons i "is")
  have "est_inv (Suc n) (est_tick i s)" by (rule est_tick_ok) (use Cons.prems in simp_all)
  from Cons.IH [OF this] Cons.prems show ?case by (simp add: est_run_def)
qed (simp add: est_run_def)

lemma get_state_fin:
  assumes "est_inv n s"
  shows "st_fin (get_state s)"
proof -
  have "sg_lanes s ! sg_primary s \<in> set (sg_lanes s)" using assms by (simp add: est_inv_def)
  then have "isfin (ek_x (sg_lanes s ! sg_primary s) k)" if "k < EKF_N" for k
    using assms lane_x that unfolding est_inv_def by blast
  then show ?thesis using assms
    by (simp add: st_fin_def get_state_def Let_def ST_N_def est_inv_def fin3_def)
qed

end
