(* ===== verification/EstProps.thy ===== *)
theory EstProps
  imports EstRun
begin

text \<open>
  What the lane logic of the state manager does when an onboard IMU drops out.
\<close>

section \<open>Blending\<close>

lemma lane_weights_eq:
  assumes l: "length lanes = 3" and e: "\<forall>i<3. ek_init (lanes ! i)"
    and m': "\<forall>i<3. ek_innov_norm (lanes ! i) = Fin (m i) \<and> 0 \<le> m i \<and> m i \<le> 1000"
  defines "v \<equiv> \<lambda>i. 1 / (1 / 10 ^ 4 + m i)"
  shows "lane_weights lanes p = map (\<lambda>i. Fin (v i / (v 0 + v 1 + v 2))) [0, 1, 2]"
    "i < 3 \<Longrightarrow> 1 / 2000 \<le> v i" "i < 3 \<Longrightarrow> v i \<le> 10 ^ 4"
proof -
  note m = m' [rule_format]
  have lo: "1 / 2000 \<le> v i" if "i < 3" for i
    using m [OF that] unfolding v_def by (intro divide_left_mono) (auto intro: add_pos_nonneg)
  then show "i < 3 \<Longrightarrow> 1 / 2000 \<le> v i" .
  show "i < 3 \<Longrightarrow> v i \<le> 10 ^ 4"
    using m [of i] unfolding v_def by (simp add: field_simps)
  have v: "Fin 1 / (Fin (1 / 10 ^ 4) + ek_innov_norm (lanes ! i)) = Fin (v i)" if "i < 3" for i
  proof -
    have "1 / 10 ^ 4 + m i \<noteq> 0" using m [OF that] by (smt (verit) divide_pos_pos zero_less_power)
    then show ?thesis using m [OF that] by (simp add: v_def)
  qed
  note v3 = v [of 0] v [of 1] v [of 2]
  have "1 / 10 ^ 10 < v 0 + v 1 + v 2" using lo [of 0] lo [of 1] lo [of 2] by simp
  then have s: "Fin (v 0 + v 1 + v 2) > Fin (1 / 10 ^ 10)" "v 0 + v 1 + v 2 \<noteq> 0" by simp_all
  show "lane_weights lanes p = map (\<lambda>i. Fin (v i / (v 0 + v 1 + v 2))) [0, 1, 2]"
    unfolding lane_weights_def upt_3 fold_simps Let_def using e s v3
    by (simp add: numeral_3_eq_3 numeral_2_eq_2)
qed

lemma acc3_same: "acc3 (Fin (c * p), Fin (c * q), Fin (c * r)) (Fin w) (Fin p, Fin q, Fin r) =
    (Fin ((c + w) * p), Fin ((c + w) * q), Fin ((c + w) * r))"
  by (simp add: acc3_def distrib_right)

text \<open>C19. The blended rates are scaled down when an IMU drops out.  The weights are normalised over every
initialised lane, but the sum runs over the lanes whose IMU reports: when all reporting IMUs agree on
the body rates, the blend is those rates times a factor that is one only if all three report, and
smaller otherwise.\<close>
theorem blend_underweights:
  fixes m :: "nat \<Rightarrow> real" and p q r :: real
  assumes l: "length lanes = 3" "\<forall>i<3. ek_init (lanes ! i)"
    and m: "\<forall>i<3. ek_innov_norm (lanes ! i) = Fin (m i) \<and> 0 \<le> m i \<and> m i \<le> 1000"
    and agree: "\<forall>i<3. im_valid (imu ! i) \<longrightarrow> lane_rates (imu ! i) (ek_x (lanes ! i)) = (Fin p, Fin q, Fin r)"
  shows "\<exists>c. fst (blend_rates imu lanes (lane_weights lanes k) lp) = (Fin (c * p), Fin (c * q), Fin (c * r)) \<and>
    0 \<le> c \<and> c \<le> 1 \<and> (c = 1 \<longleftrightarrow> (\<forall>i<3. im_valid (imu ! i)))"
proof -
  define v where "v i = 1 / (1 / 10 ^ 4 + m i)" for i
  define W where "W i = v i / (v 0 + v 1 + v 2)" for i
  note lw = lane_weights_eq [OF l m, folded v_def]
  have w: "lane_weights lanes k = map (\<lambda>i. Fin (W i)) [0, 1, 2]" unfolding W_def by (rule lw(1))
  have pos: "0 < v i" "v i \<le> 10 ^ 4" "1 / 2000 \<le> v i" if "i < 3" for i using lw(2,3) [OF that] by linarith+
  have s: "0 < v 0 + v 1 + v 2" using pos(1) [of 0] pos(1) [of 1] pos(1) [of 2] by simp
  have sum: "W 0 + W 1 + W 2 = 1" using s unfolding W_def by (simp flip: add_divide_distrib)
  have big: "1 / 10 ^ 15 \<le> W i" if "i < 3" for i
  proof -
    have "v 0 + v 1 + v 2 \<le> 3 * 10 ^ 4" using pos(2) [of 0] pos(2) [of 1] pos(2) [of 2] by simp
    then have "(1 / 2000) / (3 * 10 ^ 4) \<le> W i"
      unfolding W_def using pos(3) [OF that] s by (intro frac_le) simp_all
    then show ?thesis by simp
  qed
  then have wp: "0 < W i" if "i < 3" for i using that by (smt (verit) divide_pos_pos zero_less_power)
  define u where "u i = (if im_valid (imu ! i) then W i else 0)" for i
  let ?f = "\<lambda>i (b, lp). if \<not> im_valid (imu ! i) \<or> \<not> ek_init (lanes ! i) then (b, lp[i := zero3])
       else let l = lane_rates (imu ! i) (ek_x (lanes ! i)) in
            (if lane_weights lanes k ! i < Fin (1 / 10 ^ 15) then b else acc3 b (lane_weights lanes k ! i) l, lp[i := l])"
  have step: "fst (?f i ((Fin (c * p), Fin (c * q), Fin (c * r)), lp)) =
      (Fin ((c + u i) * p), Fin ((c + u i) * q), Fin ((c + u i) * r))" if "i < 3" for i c lp
  proof -
    from that consider "i = 0" | "i = 1" | "i = 2" by linarith
    then have "lane_weights lanes k ! i = Fin (W i)" by cases (simp_all add: w)
    moreover have "\<not> Fin (W i) < Fin (1 / 10 ^ 15)" using big [OF that] by simp
    ultimately show ?thesis
      using l(2) agree that by (simp add: u_def Let_def acc3_same)
  qed
  have run: "fst (for_upto n ?f (zero3, lp)) =
      (Fin ((\<Sum>i<n. u i) * p), Fin ((\<Sum>i<n. u i) * q), Fin ((\<Sum>i<n. u i) * r))" if "n \<le> 3" for n
    using that
  proof (induction n)
    case (Suc n)
    obtain a b where ab: "for_upto n ?f (zero3, lp) = (a, b)" by (rule prod.exhaust)
    have "a = (Fin ((\<Sum>i<n. u i) * p), Fin ((\<Sum>i<n. u i) * q), Fin ((\<Sum>i<n. u i) * r))"
      using Suc.IH Suc.prems unfolding ab by simp
    then show ?case unfolding for_upto_Suc ab sum.lessThan_Suc by (simp only:) (rule step, use Suc.prems in simp)
  qed simp
  have c: "(\<Sum>i<3. u i) = u 0 + u 1 + u 2" by (simp add: numeral_3_eq_3 numeral_2_eq_2)
  have u: "im_valid (imu ! i) \<longleftrightarrow> u i = W i" "0 \<le> u i" "u i \<le> W i" if "i < 3" for i
    using wp [OF that] by (auto simp: u_def)
  have l3: "0 < (3::nat)" "1 < (3::nat)" "2 < (3::nat)" by simp_all
  note ub = u(2,3) [OF l3(1)] u(2,3) [OF l3(2)] u(2,3) [OF l3(3)]
  have all: "(\<forall>i<3. im_valid (imu ! i)) \<longleftrightarrow> u 0 = W 0 \<and> u 1 = W 1 \<and> u 2 = W 2"
    unfolding u(1) [OF l3(1), symmetric] u(1) [OF l3(2), symmetric] u(1) [OF l3(3), symmetric]
    by (auto simp: numeral_3_eq_3 numeral_2_eq_2 less_Suc_eq)
  have "u 0 + u 1 + u 2 = 1 \<longleftrightarrow> (\<forall>i<3. im_valid (imu ! i))"
    unfolding all using ub sum by (intro iffI conjI) linarith+
  moreover have "0 \<le> u 0 + u 1 + u 2" "u 0 + u 1 + u 2 \<le> 1" using ub sum by linarith+
  ultimately have "0 \<le> u 0 + u 1 + u 2" "u 0 + u 1 + u 2 \<le> 1"
    "u 0 + u 1 + u 2 = 1 \<longleftrightarrow> (\<forall>i<3. im_valid (imu ! i))" by blast+
  then show ?thesis
    using run [of 3] unfolding blend_rates_def c by blast
qed

definition level_imu :: "bool \<Rightarrow> imu_raw" where
  "level_imu v = \<lparr>im_accel = (Fin 0, Fin 0, Fin (- 9.8)), im_gyro = (Fin 1, Fin 2, Fin 3), im_valid = v\<rparr>"

theorem blend_underweights_witness:
  "\<exists>c<1. fst (blend_rates [level_imu True, level_imu True, level_imu False] (sg_lanes (sm_init sm_new))
      (lane_weights (sg_lanes (sm_init sm_new)) 0) []) = (Fin (c * 1), Fin (c * 2), Fin (c * 3))"
proof -
  let ?l = "sg_lanes (sm_init sm_new)" and ?im = "[level_imu True, level_imu True, level_imu False]"
  have "length ?l = 3" by (simp add: sm_init_def)
  moreover have n: "ek_innov_norm (ekf_init k e) = Fin 0" for k e by (simp add: ekf_init_def Let_def)
  have "\<forall>i<3. ek_init (?l ! i)" by (simp add: sm_init_def ekf_init_sel)
  moreover have "\<forall>i<3. ek_innov_norm (?l ! i) = Fin ((\<lambda>_. 0) i) \<and> (0::real) \<le> (\<lambda>_. 0) i \<and> (\<lambda>_. 0) i \<le> (1000::real)"
    by (simp add: sm_init_def n)
  moreover have "\<forall>i<3. im_valid (?im ! i) \<longrightarrow> lane_rates (?im ! i) (ek_x (?l ! i)) = (Fin 1, Fin 2, Fin 3)"
    by (auto simp: sm_init_def ekf_init_sel level_imu_def lane_rates_def less_Suc_eq numeral_3_eq_3)
  ultimately obtain c where c: "fst (blend_rates ?im ?l (lane_weights ?l 0) []) = (Fin (c * 1), Fin (c * 2), Fin (c * 3))"
    "c \<le> 1" "c = 1 \<longleftrightarrow> (\<forall>i<3. im_valid (?im ! i))"
    using blend_underweights [of ?l "\<lambda>_. 0" ?im 1 2 3 0 "[]"] by blast
  have "\<not> (\<forall>i<3. im_valid (?im ! i))" by (auto simp: level_imu_def intro!: exI [of _ 2])
  then show ?thesis using c by (intro exI [of _ c]) auto
qed

section \<open>A lane without its IMU\<close>

text \<open>A lane that has never predicted: diagonal covariance and level attitude.\<close>
definition level_quat :: quat where
  "level_quat = mk_quat (Fin 1) (Fin 0) (Fin 0) (Fin 0)"

definition diag_P :: "ekf \<Rightarrow> bool" where
  "diag_P e \<longleftrightarrow> (\<forall>i<EKF_N. \<forall>j<EKF_N. i \<noteq> j \<longrightarrow> ek_P e i j = Fin 0)"

definition dead_lane :: "ekf \<Rightarrow> bool" where
  "dead_lane e \<longleftrightarrow> diag_P e \<and> get_quat (ek_x e) = level_quat"

text \<open>A measurement of single states, each with its own row, leaves the other states alone.\<close>
lemma selector_update:
  fixes u :: "nat \<Rightarrow> nat"
  assumes e: "lane_ok n e" "dead_lane e" and H: "fmat m EKF_N H"
    and u: "\<And>k l. k < m \<Longrightarrow> rm H k l = (if l = u k then 1 else 0)" "\<And>k. k < m \<Longrightarrow> u k < iQ0" "inj_on u {..<m}"
    and r: "length r = m" "\<forall>x \<in> set r. 0 < x" and v: "length v = m"
  shows "dead_lane (ekf_correct m H (map Fin r) (map Fin v) e)"
proof (cases "gauss_jordan m (upd_S m H (map Fin r) (upd_PHt m (ek_P e) H))")
  case None
  then show ?thesis using e(2) by (simp add: ekf_correct_def Let_def)
next
  case (Some T)
  let ?e = "ekf_correct m H (map Fin r) (map Fin v) e"
  have ok: "ekf_fin e" "sym (PR e)" "psd EKF_N (PR e)" using e(1) by (simp_all add: lane_ok_def run_inv_def cov_ok_def)
  obtain K where K: "kalman_gain m (rm H) (PR e) r K"
    "\<forall>i<EKF_N. ek_x ?e i = Fin (val (ek_x e i) + (\<Sum>j<m. K i j * v ! j))"
    "\<forall>i<EKF_N. \<forall>j<EKF_N. joseph_P m H (map Fin r) T e i j = Fin (posterior m (rm H) (PR e) K i j)"
    by (rule correct_real [OF ok(1) H r(1) v Some]) (use ok(2) in blast)
  have P: "PR e i j = 0" if "i < EKF_N" "j < EKF_N" "i \<noteq> j" for i j
    using e(2) that by (simp add: dead_lane_def diag_P_def rm_def)
  have uk: "u k < EKF_N" if "k < m" for k using u(2) [OF that] by simp
  have col: "rmul EKF_N M (rtr (rm H)) i k = M i (u k)" if "k < m" for M i k
  proof -
    have "M i l * rm H k l = (if l = u k then M i l else 0)" for l by (simp add: u(1) [OF that])
    then show ?thesis using uk [OF that] unfolding rmul_def rtr_def by (simp add: sum.delta)
  qed
  have row: "rmul EKF_N (rm H) M k j = M (u k) j" if "k < m" for M k j
  proof -
    have "rm H k l * M l j = (if l = u k then M l j else 0)" for l by (simp add: u(1) [OF that])
    then show ?thesis using uk [OF that] unfolding rmul_def by (simp add: sum.delta)
  qed
  have S: "innov_cov (rm H) (PR e) r k l = (if k = l then PR e (u k) (u k) + r ! k else 0)" if "k < m" "l < m" for k l
  proof -
    have "u k = u l \<longleftrightarrow> k = l" using u(3) that by (simp add: inj_on_eq_iff)
    then show ?thesis
      using P [OF uk uk] that by (simp add: innov_cov_def radd_def row col diag_of_def rdiag_def)
  qed
  have K0: "K i l = 0" if "i < EKF_N" "l < m" "i \<noteq> u l" for i l
  proof -
    have "rmul m K (innov_cov (rm H) (PR e) r) i l = (\<Sum>k<m. if k = l then K i k * (PR e (u k) (u k) + r ! k) else 0)"
      unfolding rmul_def by (rule sum.cong) (use S that(2) in auto)
    then have "K i l * (PR e (u l) (u l) + r ! l) = PR e i (u l)"
      using K(1) that col by (simp add: kalman_gain_def meq_def sum.delta)
    moreover have "0 \<le> PR e (u l) (u l)" by (rule psd_diag_entry [OF ok(3) uk [OF that(2)]])
    moreover have "0 < r ! l" using r that(2) by simp
    ultimately show ?thesis using P [OF that(1) uk [OF that(2)] that(3)] by auto
  qed
  have q: "ek_x ?e i = ek_x e i" if "iQ0 \<le> i" "i < EKF_N" for i
  proof -
    have "(\<Sum>j<m. K i j * v ! j) = 0"
      by (rule sum.neutral) (use K0 [OF that(2)] u(2) that(1) in \<open>fastforce\<close>)
    moreover have "isfin (ek_x e i)" using ok(1) that by (simp add: ekf_fin_def)
    ultimately show ?thesis using K(2) that by (auto elim!: isfinE)
  qed
  have "posterior m (rm H) (PR e) K i j = 0" if ij: "i < EKF_N" "j < EKF_N" "i \<noteq> j" for i j
  proof -
    have "K i k * PR e (u k) j = 0" if "k < m" for k
      using K0 [OF ij(1) that] P [OF uk [OF that] ij(2)] ij(3) by (cases "i = u k") auto
    then have "rmul m K (rmul EKF_N (rm H) (PR e)) i j = 0"
      unfolding rmul_def [of m] by (intro sum.neutral) (simp add: row)
    then show ?thesis using P [OF ij] by (simp add: posterior_def rsub_def)
  qed
  then have "diag_P ?e" unfolding diag_P_def correct_P [OF Some] using K(3) by simp
  moreover have "get_quat (ek_x ?e) = get_quat (ek_x e)" by (simp add: get_quat_def q)
  ultimately show ?thesis using e(2) by (simp add: dead_lane_def)
qed

lemma leg_H_rm: "k < 2 \<Longrightarrow> rm (mat_sets [(0, iU, Fin 1), (1, iW, Fin 1)] mat_zero) k l =
    (if l = (if k = 0 then iU else iW) then 1 else 0)"
  by (auto simp: rm_def mat_sets_def mat_upd_apply mat_zero_def less_Suc_eq numeral_2_eq_2)

lemma leg_wheel_dead:
  assumes "lane_ok n e" "dead_lane e"
  shows "dead_lane (ekf_update_leg_wheel_velocity (Fin a) (Fin b) R_LEG_WHEEL_U R_LEG_WHEEL_W e)"
proof -
  have i: "ek_init e" using assms(1) by (rule lane_init)
  have f: "isfin (ek_x e iU)" "isfin (ek_x e iW)" using lane_x [OF assms(1)] by simp_all
  obtain x where x1: "ek_x e iU = Fin x" using f(1) by (rule isfinE)
  obtain y where x2: "ek_x e iW = Fin y" using f(2) by (rule isfinE)
  note x = x1 x2
  have "dead_lane (ekf_correct 2 (mat_sets [(0, iU, Fin 1), (1, iW, Fin 1)] mat_zero) (map Fin [0.005, 0.02]) (map Fin [a - x, b - y]) e)"
    by (rule selector_update [OF assms meas_fmat leg_H_rm]) (auto simp: inj_on_def less_Suc_eq numeral_2_eq_2 split: if_splits)
  then show ?thesis
    using i x by (simp add: ekf_update_leg_wheel_velocity_def R_LEG_WHEEL_U_def R_LEG_WHEEL_W_def)
qed

lemma wheel_dead:
  assumes "lane_ok n e" "dead_lane e"
  shows "dead_lane (ekf_update_wheel_velocity (Fin a) R_WHEEL_VEL e)"
proof -
  have i: "ek_init e" using assms(1) by (rule lane_init)
  have "isfin (ek_x e iU)" using lane_x [OF assms(1)] by simp
  then obtain x where x: "ek_x e iU = Fin x" by (rule isfinE)
  have "dead_lane (ekf_correct 1 (mat_sets [(0, iU, Fin 1)] mat_zero) (map Fin [0.002]) (map Fin [a - x]) e)"
    by (rule selector_update [where u = "\<lambda>_. iU", OF assms meas_fmat])
      (auto simp: rm_def mat_sets_def mat_upd_apply mat_zero_def inj_on_def)
  then show ?thesis using i x by (simp add: ekf_update_wheel_velocity_def R_WHEEL_VEL_def)
qed

text \<open>The manager when IMU 0 has never reported and no absolute attitude has arrived.\<close>
definition dead_est :: "state_mgr \<Rightarrow> bool" where
  "dead_est s \<longleftrightarrow> dead_lane (sg_lanes s ! 0) \<and> sg_primary s = 0 \<and> (\<forall>i<3. ek_innov_norm (sg_lanes s ! i) = Fin 0)"

definition no_imu0 :: "est_in \<Rightarrow> bool" where
  "no_imu0 i \<longleftrightarrow> \<not> im_valid (ei_imu i ! 0) \<and> \<not> (ci_valid (ei_can i) \<and> ci_has_new_quat (ei_can i)) \<and>
     \<not> (mc_valid (ei_mocap i) \<and> mc_has_new (ei_mocap i))"

lemma select_primary_zero:
  assumes "ek_init (lanes ! 0)" "\<forall>i<3. ek_innov_norm (lanes ! i) = Fin 0"
  shows "select_primary lanes p = 0"
  using assms unfolding select_primary_def upt_3 fold_simps Let_def
  by (simp add: FLT_MAX_def)

lemma fuse_dead:
  assumes l: "\<forall>e \<in> set lanes. lane_ok k e" "length lanes = 3" and d: "dead_lane (lanes ! 0)"
    and w: "\<forall>m \<in> set wheels. motor_fin m" "length wheels = 2"
    and g: "\<forall>l \<in> set legs. leg_fin_out l" "length legs = 2" and Q: "isfin Q"
  shows "dead_lane (fuse_wheels legs wheels Q lanes ! 0)"
    "i < 3 \<Longrightarrow> ek_innov_norm (fuse_wheels legs wheels Q lanes ! i) = ek_innov_norm (lanes ! i)"
proof -
  have l0: "lane_ok k (lanes ! 0)" using l by simp
  obtain us ws n where e: "leg_wheel_meas legs wheels Q = (us, ws, n)" by (rule prod_cases3)
  obtain us2 n2 where e2: "wheel_meas wheels = (us2, n2)" by (rule prod.exhaust)
  have 1: "dead_lane (ekf_update_leg_wheel_velocity (us / flt_of_int n) (ws / flt_of_int n) R_LEG_WHEEL_U R_LEG_WHEEL_W (lanes ! 0))"
    if "0 < n"
  proof -
    obtain a b where "us = Fin a" "ws = Fin b" using leg_wheel_meas_fin [OF w g Q e] by (auto elim!: isfinE)
    then show ?thesis using leg_wheel_dead [OF l0 d] that by simp
  qed
  have 2: "dead_lane (ekf_update_wheel_velocity (us2 / flt_of_int n2) R_WHEEL_VEL (lanes ! 0))"
    if "mvalid (wheels ! 0) \<or> mvalid (wheels ! 1)"
  proof -
    note m = wheel_meas_fin [OF w that e2]
    then obtain a where "us2 = Fin a" by (auto elim!: isfinE)
    then show ?thesis using wheel_dead [OF l0 d] m(2) by simp
  qed
  show "dead_lane (fuse_wheels legs wheels Q lanes ! 0)"
    unfolding fuse_wheels_def e e2 Let_def prod.case using 1 2 d l(2) lane_init [OF l0] by simp
  show "i < 3 \<Longrightarrow> ek_innov_norm (fuse_wheels legs wheels Q lanes ! i) = ek_innov_norm (lanes ! i)"
    unfolding fuse_wheels_def e e2 Let_def prod.case using l(2) by (simp add: innov_norm_kept)
qed

lemma average_legs_sel [simp]:
  "sg_lanes (average_legs legs s) = sg_lanes s" "sg_primary (average_legs legs s) = sg_primary s"
  "sg_rates (average_legs legs s) = sg_rates s"
  by (simp_all add: average_legs_def Let_def case_prod_beta)

lemma dead_est_tick:
  assumes inv: "est_inv n s" and n: "Suc n \<le> 9900000" and i: "est_in_fin i" "no_imu0 i" and d: "dead_est s"
  shows "dead_est (est_tick i s)"
proof -
  from inv have l: "\<forall>e \<in> set (sg_lanes s). lane_ok n e" "length (sg_lanes s) = 3" and init: "sg_init s"
    by (simp_all add: est_inv_def)
  from i have dt: "isfin (ei_dt i)" and imu: "length (ei_imu i) = 3"
      "\<forall>m \<in> set (ei_imu i). fin3 (im_accel m) \<and> fin3 (im_gyro m)" and ci: "imu_fin (ei_can i)"
    and h: "length (ei_hips i) = 4" "\<forall>m \<in> set (ei_hips i). motor_fin m"
    and w: "\<forall>m \<in> set (ei_wheels i). motor_fin m" "length (ei_wheels i) = 2" by (simp_all add: est_in_fin_def)
  define l1 where "l1 = sm_predict (ei_dt i) (ei_imu i) (ei_can i) (sg_lanes s)"
  note l1 = sm_predict_ok [OF l n dt imu ci, folded l1_def]
  have l1_0: "l1 ! 0 = sg_lanes s ! 0" "\<And>j. j < 3 \<Longrightarrow> ek_innov_norm (l1 ! j) = ek_innov_norm (sg_lanes s ! j)"
    using i(2) by (auto simp: l1_def sm_predict_def Let_def no_imu0_def innov_norm_kept)
  have l10: "lane_ok (Suc n) (l1 ! 0)" using l1 by simp
  define s1 where "s1 = sm_update (ei_dt i) (ei_imu i) (ei_can i) (ei_mocap i) s"
  have s1: "sg_lanes s1 = l1" "sg_primary s1 = select_primary l1 (sg_primary s)"
    using init i(2) by (auto simp: s1_def sm_update_def Let_def l1_def case_prod_beta sm_mocap_def no_imu0_def)
  have s1i: "est_inv (Suc n) s1" unfolding s1_def by (rule sm_update_ok [OF inv n i(1)])
  have pr: "sg_primary s1 = 0" unfolding s1(2)
    by (rule select_primary_zero [OF lane_init [OF l10]]) (use l1_0(2) d in \<open>simp add: dead_est_def\<close>)
  define legs where "legs = map (leg_fk (ei_hips i)) [0, 1]"
  have legs: "\<forall>l \<in> set legs. leg_fin_out l" "length legs = 2"
    using leg_fk_fin [OF h(2,1)] by (simp_all add: legs_def)
  have Q: "isfin (v3 (sg_rates s1) 1)" using s1i by (simp add: est_inv_def fin3_def)
  have dl: "dead_lane (l1 ! 0)" using d l1_0(1) by (simp add: dead_est_def)
  note f = fuse_dead [OF l1 dl w legs Q]
  have "est_tick i s = (average_legs legs s1)\<lparr>sg_lanes := fuse_wheels legs (ei_wheels i) (v3 (sg_rates s1) 1) l1\<rparr>"
    unfolding est_tick_def s1_def [symmetric] sm_legs_and_wheels_def Let_def legs_def [symmetric]
    by (simp add: s1)
  then show ?thesis using f l1_0(2) d pr by (simp add: dead_est_def)
qed

lemma dead_est_run:
  "est_inv n s \<Longrightarrow> dead_est s \<Longrightarrow> \<forall>i \<in> set is. est_in_fin i \<and> no_imu0 i \<Longrightarrow> n + length is \<le> 9900000 \<Longrightarrow>
   dead_est (est_run is s)"
proof (induction "is" arbitrary: n s)
  case (Cons i "is")
  have i: "est_in_fin i" "no_imu0 i" "Suc n \<le> 9900000" using Cons.prems by simp_all
  from Cons.IH [OF est_tick_ok [OF Cons.prems(1) i(3,1)] dead_est_tick [OF Cons.prems(1) i(3,1,2) Cons.prems(2)]] Cons.prems
  show ?case by (simp add: est_run_def)
qed (simp add: est_run_def)

lemma dead_est_init: "dead_est (sm_init s)"
proof -
  have "ek_innov_norm (ekf_init k e) = Fin 0" for k e by (simp add: ekf_init_def Let_def)
  moreover have "diag_P (ekf_init k e)" for k e by (simp add: diag_P_def ekf_init_sel rdiag_def)
  moreover have "get_quat (ek_x (ekf_init k e)) = level_quat" for k e
    by (simp add: get_quat_def ekf_init_sel level_quat_def)
  ultimately show ?thesis by (simp add: dead_est_def dead_lane_def sm_init_def)
qed

text \<open>C20. A dead first IMU is not noticed.  Only the external quaternion updates change a lane's innovation
norm, so without them all norms stay zero and lane 0 stays the primary lane whether or not its IMU
reports.  If IMU 0 never does, and no external attitude and no motion capture comes in, then whatever
finite numbers the other two IMUs, the legs and the wheels measure, the published attitude is level and
straight ahead after each of the first 9.9 million ticks (five and a half hours at 500 Hz, the bound of the
covariance's invariant), each of a positive length.  Readings that are infinite or not a number, which the
frame of a wheel drive can carry, are not covered.\<close>
theorem dead_imu_level_attitude:
  assumes "\<forall>i \<in> set is. est_in_fin i \<and> no_imu0 i" "length is \<le> 9900000"
  shows "take 4 (drop ST_Q0 (get_state (est_run is (sm_init s)))) = [Fin 1, Fin 0, Fin 0, Fin 0] \<and>
    sg_primary (est_run is (sm_init s)) = 0"
proof -
  have d: "dead_est (est_run is (sm_init s))"
    by (rule dead_est_run [OF sm_init_inv dead_est_init assms(1)]) (use assms(2) in simp)
  then have "get_quat (ek_x (sg_lanes (est_run is (sm_init s)) ! 0)) = level_quat" by (simp add: dead_est_def dead_lane_def)
  then show ?thesis
    using d by (simp add: get_state_def Let_def dead_est_def ST_Q0_def get_quat_def level_quat_def mk_quat_def numeral_eq_Suc)
qed

definition demo_motor :: motor_state where
  "demo_motor = motor_state_zero\<lparr>mvalid := True\<rparr>"

definition demo_est :: est_in where
  "demo_est = \<lparr>ei_dt = Fin 0.002, ei_imu = [level_imu False, level_imu True, level_imu True],
     ei_can = can_imu_zero, ei_mocap = \<lparr>mc_xyz = zero3, mc_vel = zero3, mc_has_new = False, mc_valid = False\<rparr>,
     ei_hips = replicate 4 demo_motor, ei_wheels = replicate 2 demo_motor\<rparr>"

lemma demo_est_ok: "est_in_fin demo_est" "no_imu0 demo_est"
  by (simp_all add: demo_est_def est_in_fin_def no_imu0_def level_imu_def imu_fin_def can_imu_zero_def
      motor_fin_def demo_motor_def motor_state_zero_def)

theorem dead_imu_level_attitude_witness:
  "take 4 (drop ST_Q0 (get_state (est_run [demo_est, demo_est] (sm_init sm_new)))) = [Fin 1, Fin 0, Fin 0, Fin 0]"
  using dead_imu_level_attitude [of "[demo_est, demo_est]" sm_new] demo_est_ok by simp

end
