(* ===== verification/Shared.thy ===== *)
theory Shared
  imports DriveMode EstRun CalFlash Logger Radio
begin

text \<open>
  The memory the threads of src/src/threads.cpp share, and the threads that bring sensor data in: the
  SPI thread with the three inertial units, the CAN thread, the state estimator and the radio.  One
  iteration of a thread's loop is one step on the shared memory; the critical sections under a mutex
  are the only places where the loops touch it, and what a driver answers is an argument.
\<close>

section \<open>Shared memory\<close>

definition calib_zero :: calib_data where
  "calib_zero = \<lparr>cal_magic = 0, cal_version = 0, cal_gyro_bias = replicate 9 0, cal_accel_bias = replicate 9 0,
     cal_crc32 = 0, cal_pad = replicate 44 0\<rparr>"

definition imu_zero :: imu_raw where
  "imu_zero = \<lparr>im_accel = zero3, im_gyro = zero3, im_valid = False\<rparr>"

definition telemetry_zero :: telemetry where
  "telemetry_zero = \<lparr>tl_legs = replicate 2 leg_state_zero, tl_hip_pos = replicate 4 (Fin 0),
     tl_hip_vel = replicate 4 (Fin 0), tl_wheel_vel = replicate 2 (Fin 0), tl_battery_V = Fin 0,
     tl_power_V = Fin 0, tl_current_A = Fin 0, tl_x_dot = Fin 0, tl_z_dot = Fin 0, tl_valid = False\<rparr>"

text \<open>The local variables that live across the iterations of the control and the radio thread.\<close>
record ctl_thr =
  ct_torques :: "flt list"
  ct_tick :: u32
  ct_poll :: u32

record radio_thr =
  rd_hold :: bool
  rd_stale :: u32

record sys =
  sy_imu :: "imu_raw list"
  sy_can_imu :: can_imu
  sy_mocap :: mocap_raw
  sy_state :: "flt list"
  sy_euler :: vec3
  sy_input :: "flt list"
  sy_torques :: "flt list"
  sy_armed :: bool
  sy_tel :: telemetry
  sy_cal :: calib_data
  sy_cal_valid :: bool
  sy_cal_stage :: calib_data
  sy_flash :: bytes
  sy_ms :: motorsys
  sy_power :: power_rx
  sy_sbus :: sbus
  sy_logger :: logger
  sy_mgr :: state_mgr
  sy_rsm :: rsm
  sy_test :: motor_test
  sy_can_stale :: u32
  sy_ctl :: ctl_thr
  sy_radio :: radio_thr
  sy_line :: string

text \<open>The memory when the threads start: the drivers of main initialised, the motors registered, the
estimator's thread past its own initialisation.\<close>
definition start_up :: "(nat \<Rightarrow> bool) \<Rightarrow> bytes \<Rightarrow> sys" where
  "start_up ans flash = \<lparr>sy_imu = replicate 3 imu_zero, sy_can_imu = can_imu_zero\<lparr>ci_q0 := Fin 1\<rparr>,
     sy_mocap = \<lparr>mc_xyz = zero3, mc_vel = zero3, mc_has_new = False, mc_valid = False\<rparr>,
     sy_state = replicate ST_N (Fin 0), sy_euler = zero3, sy_input = replicate N_INPUTS (Fin 0),
     sy_torques = replicate 6 (Fin 0), sy_armed = False, sy_tel = telemetry_zero,
     sy_cal = calib_zero, sy_cal_valid = False, sy_cal_stage = calib_zero, sy_flash = flash,
     sy_ms = main_motors (motorsys_new (power_mon_init CB_MATEK (can_drv_init CB_IMX5 (can_new ans)))),
     sy_power = power_rx_new, sy_sbus = sbus_new, sy_logger = logger_new, sy_mgr = sm_init sm_new,
     sy_rsm = rsm_new, sy_test = motor_test_new, sy_can_stale = 0,
     sy_ctl = \<lparr>ct_torques = replicate 6 (Fin 0), ct_tick = 0, ct_poll = 0\<rparr>,
     sy_radio = \<lparr>rd_hold = True, rd_stale = 0\<rparr>, sy_line = []\<rparr>"

section \<open>The SPI thread\<close>

text \<open>The calibration read once at the start of the thread.\<close>
definition spi_start :: "sys \<Rightarrow> sys" where
  "spi_start s = (case cal_load (sy_flash s) of
     None \<Rightarrow> s\<lparr>sy_cal := calib_zero, sy_cal_valid := False\<rparr>
   | Some d \<Rightarrow> s\<lparr>sy_cal := d, sy_cal_valid := True\<rparr>)"

definition RS :: flt where "RS = Fin 0.70710678"

text \<open>The axes of each unit turned into those of the body.\<close>
definition imu1_align :: "vec3 \<Rightarrow> vec3" where
  "imu1_align a = (RS * (v3 a 1 - v3 a 0), RS * (v3 a 1 + v3 a 0), - v3 a 2)"
definition imu2_align :: "vec3 \<Rightarrow> vec3" where
  "imu2_align a = (- v3 a 1, v3 a 0, v3 a 2)"
definition imu3_align :: "vec3 \<Rightarrow> vec3" where
  "imu3_align a = (- v3 a 1, - v3 a 0, - v3 a 2)"

definition cal_bias :: "u32 list \<Rightarrow> nat \<Rightarrow> vec3" where
  "cal_bias w i = (f32_of_bits (w ! (3 * i)), f32_of_bits (w ! (3 * i + 1)), f32_of_bits (w ! (3 * i + 2)))"

definition sub3 :: "vec3 \<Rightarrow> vec3 \<Rightarrow> vec3" where
  "sub3 a b = (v3 a 0 - v3 b 0, v3 a 1 - v3 b 1, v3 a 2 - v3 b 2)"

definition publish_imu :: "nat \<Rightarrow> (vec3 \<Rightarrow> vec3) \<Rightarrow> (vec3 \<times> vec3) option \<Rightarrow> sys \<Rightarrow> sys" where
  "publish_imu i align reading s =
    (case reading of None \<Rightarrow> s
     | Some (a, g) \<Rightarrow> s\<lparr>sy_imu := (sy_imu s)[i :=
         \<lparr>im_accel = sub3 (align a) (cal_bias (cal_accel_bias (sy_cal s)) i),
          im_gyro = sub3 (align g) (cal_bias (cal_gyro_bias (sy_cal s)) i), im_valid = True\<rparr>]\<rparr>)"

text \<open>The arguments are what the three drivers answer, None when a read fails.\<close>
definition spi_tick :: "(vec3 \<times> vec3) option \<Rightarrow> (vec3 \<times> vec3) option \<Rightarrow> (vec3 \<times> vec3) option \<Rightarrow> sys \<Rightarrow> sys" where
  "spi_tick r1 r2 r3 s =
     publish_imu 2 imu3_align r3 (publish_imu 1 imu2_align r2 (publish_imu 0 imu1_align r1 s))"

section \<open>The CAN thread\<close>

text \<open>The handler of a frame, among all that are registered.\<close>
definition run_cb :: "can_cb \<Rightarrow> can_frame \<Rightarrow> sys \<Rightarrow> sys" where
  "run_cb cb f s = (case cb of
      CB_IMX5 \<Rightarrow> s\<lparr>sy_can_imu := imx5_can_cb f (sy_can_imu s)\<rparr>
    | CB_MATEK \<Rightarrow> s\<lparr>sy_power := battery_info_cb f (sy_power s)\<rparr>
    | _ \<Rightarrow> s\<lparr>sy_ms := run_motor_cb cb f (sy_ms s)\<rparr>)"

definition set_can :: "can_cb can \<Rightarrow> sys \<Rightarrow> sys" where
  "set_can c s = s\<lparr>sy_ms := (sy_ms s)\<lparr>ms_can := c\<rparr>\<rparr>"

definition receive :: "canbus \<Rightarrow> can_frame option \<Rightarrow> sys \<Rightarrow> sys" where
  "receive b rx s = (case rx of None \<Rightarrow> s
     | Some f \<Rightarrow> let (c, s') = can_dispatch run_cb b f (ms_can (sy_ms s), s) in set_can c s')"

definition check_busoff :: "canbus \<Rightarrow> u32 \<times> u32 \<times> u32 \<Rightarrow> sys \<Rightarrow> sys" where
  "check_busoff b regs s = (case regs of (psr, ecr, rxf0) \<Rightarrow>
     set_can (snd (can_check_busoff b psr ecr rxf0 (ms_can (sy_ms s)))) s)"

text \<open>What the mailboxes of the two buses answer, None on a timeout, and the registers of each.\<close>
definition can_tick :: "can_frame option \<Rightarrow> u32 \<times> u32 \<times> u32 \<Rightarrow> can_frame option \<Rightarrow> u32 \<times> u32 \<times> u32 \<Rightarrow> sys \<Rightarrow> sys" where
  "can_tick rx1 regs1 rx2 regs2 s =
     check_busoff CAN_BUS_2 regs2 (receive CAN_BUS_2 rx2 (check_busoff CAN_BUS_1 regs1 (receive CAN_BUS_1 rx1 s)))"

section \<open>The state estimator's thread\<close>

definition CAN_TIMEOUT_TICKS :: u32 where "CAN_TIMEOUT_TICKS = 500"

text \<open>The snapshot of the external unit: the new-data flags are taken, and a unit silent for more than
500 ticks is marked invalid.\<close>
definition take_can_imu :: "sys \<Rightarrow> can_imu \<times> sys" where
  "take_can_imu s =
    (let snap = sy_can_imu s;
         s = s\<lparr>sy_can_imu := snap\<lparr>ci_has_new_quat := False, ci_has_new_rates := False\<rparr>\<rparr>
     in if ci_has_new_quat snap \<or> ci_has_new_rates snap then (snap, s\<lparr>sy_can_stale := 0\<rparr>)
        else let s = s\<lparr>sy_can_stale := sy_can_stale s + 1\<rparr> in
          if CAN_TIMEOUT_TICKS < sy_can_stale s
          then (snap\<lparr>ci_valid := False\<rparr>, s\<lparr>sy_can_imu := (sy_can_imu s)\<lparr>ci_valid := False\<rparr>\<rparr>)
          else (snap, s))"

definition take_mocap :: "sys \<Rightarrow> mocap_raw \<times> sys" where
  "take_mocap s = (sy_mocap s, s\<lparr>sy_mocap := (sy_mocap s)\<lparr>mc_has_new := False\<rparr>\<rparr>)"

definition motor_snap :: "u8 \<Rightarrow> motorsys \<Rightarrow> motor_state" where
  "motor_snap i ms = (case can_motor_get_state i ms of None \<Rightarrow> motor_state_zero | Some m \<Rightarrow> m)"

definition est_thread_tick :: "flt \<Rightarrow> sys \<Rightarrow> sys" where
  "est_thread_tick dt s =
    (let (can, s) = take_can_imu s;
         (mocap, s) = take_mocap s;
         hips = map (\<lambda>i. motor_snap i (sy_ms s)) [1, 2, 3, 4];
         wheels = map (\<lambda>i. motor_snap i (sy_ms s)) [5, 6];
         mgr = sm_legs_and_wheels hips wheels (sm_update dt (sy_imu s) can mocap (sy_mgr s));
         st = get_state mgr
     in s\<lparr>sy_mgr := mgr, sy_state := st, sy_euler := (sm_roll mgr, sm_pitch mgr, sm_yaw mgr),
          sy_tel := telemetry_update st mgr hips wheels (px_power (sy_power s))\<rparr>)"

section \<open>The radio thread\<close>

definition SBUS_TIMEOUT_TICKS :: u32 where "SBUS_TIMEOUT_TICKS = 50"

text \<open>The staleness watchdog of the link.\<close>
definition radio_watchdog :: "sbus \<Rightarrow> u32 \<Rightarrow> sbus \<times> u32" where
  "radio_watchdog sb stale =
    (let (got, sb) = sbus_take_frame_received sb in
     if got then (sb, 0)
     else let stale = stale + 1 in
       if SBUS_TIMEOUT_TICKS < stale then (sbus_mark_stale sb, stale) else (sb, stale))"

text \<open>The height stick is held at zero while disarmed and, once armed, until it has been seen at zero.\<close>
definition height_hold :: "bool \<Rightarrow> flt \<Rightarrow> bool \<Rightarrow> bool" where
  "height_hold armed_now height_raw hold =
    (if \<not> armed_now then True else if hold \<and> height_raw = Fin 0 then False else hold)"

text \<open>The argument is the bytes the serial driver holds.\<close>
definition radio_tick :: "bytes \<Rightarrow> sys \<Rightarrow> sys" where
  "radio_tick rx s =
    (let sb = sbus_update rx (sy_sbus s);
         (sb, stale) = radio_watchdog sb (rd_stale (sy_radio s));
         height_raw = radio_height_set sb;
         armed_now = radio_armed sb;
         hold = height_hold armed_now height_raw (rd_hold (sy_radio s));
         height_tgt = (if hold then Fin 0 else height_raw)
     in s\<lparr>sy_sbus := sb, sy_radio := \<lparr>rd_hold = hold, rd_stale = stale\<rparr>,
          sy_input := (sy_input s)[IN_YAW_STICK := radio_yaw_stick sb, IN_VEL_TGT := radio_vel_tgt sb,
            IN_HEIGHT_SET := height_tgt, IN_LEANOVER := radio_leanover sb, IN_MODE_SW := radio_mode_sw sb],
          sy_armed := armed_now\<rparr>)"

end
