(* ===== verification/Scan.thy ===== *)
theory Scan
  imports Flt
begin

text \<open>
  The conversions of C's sscanf that the command line uses: %d and %u saturate at the bounds of 32
  bits the way strtol and strtoul do, %f reads a decimal number with an optional exponent, an
  infinity or a not-a-number (hexadecimal floats are not read).  A conversion takes the rest of the
  string and answers the value with what follows it.
\<close>

definition is_space :: "char \<Rightarrow> bool" where
  "is_space c = (c \<in> {CHR '' '', CHR 0x09, CHR 0x0A, CHR 0x0B, CHR 0x0C, CHR 0x0D})"

definition is_digit :: "char \<Rightarrow> bool" where
  "is_digit c = (48 \<le> (of_char c :: nat) \<and> (of_char c :: nat) \<le> 57)"

definition digits_val :: "string \<Rightarrow> nat" where
  "digits_val ds = fold (\<lambda>c n. 10 * n + ((of_char c :: nat) - 48)) ds 0"

definition skip_space :: "string \<Rightarrow> string" where
  "skip_space s = dropWhile is_space s"

definition scan_sign :: "string \<Rightarrow> bool \<times> string" where
  "scan_sign s = (case s of [] \<Rightarrow> (False, s)
     | c # r \<Rightarrow> if c = CHR ''-'' then (True, r) else if c = CHR ''+'' then (False, r) else (False, s))"

definition scan_digits :: "string \<Rightarrow> (nat \<times> string) option" where
  "scan_digits s = (let ds = takeWhile is_digit s in
     if ds = [] then None else Some (digits_val ds, dropWhile is_digit s))"

text \<open>%d\<close>
definition scan_int :: "string \<Rightarrow> (int \<times> string) option" where
  "scan_int s = (let (neg, s) = scan_sign (skip_space s) in
     map_option (\<lambda>(n, r). (if neg then max (- int n) (- (2 ^ 31)) else min (int n) (2 ^ 31 - 1), r)) (scan_digits s))"

text \<open>%u\<close>
definition scan_uint :: "string \<Rightarrow> (nat \<times> string) option" where
  "scan_uint s = (let (neg, s) = scan_sign (skip_space s) in
     map_option (\<lambda>(n, r). (if 2 ^ 32 \<le> n then 2 ^ 32 - 1 else if neg then (2 ^ 32 - n) mod 2 ^ 32 else n, r))
       (scan_digits s))"

definition lower :: "char \<Rightarrow> char" where
  "lower c = (if 65 \<le> (of_char c :: nat) \<and> (of_char c :: nat) \<le> 90 then char_of ((of_char c :: nat) + 32) else c)"

text \<open>A word in either case at the front of the string.\<close>
definition scan_word :: "string \<Rightarrow> string \<Rightarrow> string option" where
  "scan_word w s = (if length w \<le> length s \<and> map lower (take (length w) s) = w then Some (drop (length w) s) else None)"

text \<open>The mantissa: digits, then a point and digits; at least one digit in all.  The second component
counts the digits behind the point.\<close>
definition scan_mantissa :: "string \<Rightarrow> ((nat \<times> nat) \<times> string) option" where
  "scan_mantissa s =
    (let ip = takeWhile is_digit s; r = dropWhile is_digit s in
     case r of
       c # r' \<Rightarrow> if c = CHR ''.'' then
           (let fp = takeWhile is_digit r' in
            if ip = [] \<and> fp = [] then None else Some ((digits_val (ip @ fp), length fp), dropWhile is_digit r'))
         else if ip = [] then None else Some ((digits_val ip, 0), r)
     | [] \<Rightarrow> if ip = [] then None else Some ((digits_val ip, 0), []))"

text \<open>The exponent, consumed only if it has a digit.\<close>
definition scan_exponent :: "string \<Rightarrow> int \<times> string" where
  "scan_exponent s = (case s of [] \<Rightarrow> (0, s)
     | c # r \<Rightarrow> if c = CHR ''e'' \<or> c = CHR ''E'' then
           (let (neg, r') = scan_sign r in
            case scan_digits r' of None \<Rightarrow> (0, s) | Some (n, r'') \<Rightarrow> (if neg then - int n else int n, r''))
         else (0, s))"

definition scale10 :: "real \<Rightarrow> int \<Rightarrow> real" where
  "scale10 x e = (if 0 \<le> e then x * 10 ^ nat e else x / 10 ^ nat (- e))"

text \<open>%f\<close>
definition scan_float :: "string \<Rightarrow> (flt \<times> string) option" where
  "scan_float s =
    (let (neg, s) = scan_sign (skip_space s) in
     case scan_word ''infinity'' s of Some r \<Rightarrow> Some (if neg then NInf else PInf, r)
     | None \<Rightarrow> case scan_word ''inf'' s of Some r \<Rightarrow> Some (if neg then NInf else PInf, r)
     | None \<Rightarrow> case scan_word ''nan'' s of Some r \<Rightarrow> Some (NaN, r)
     | None \<Rightarrow> case scan_mantissa s of None \<Rightarrow> None
     | Some ((n, k), r) \<Rightarrow>
         (let (e, r) = scan_exponent r; x = scale10 (real n) (e - int k)
          in Some (Fin (if neg then - x else x), r)))"

text \<open>A character of the format that must be matched.\<close>
definition scan_char :: "char \<Rightarrow> string \<Rightarrow> string option" where
  "scan_char c s = (case s of [] \<Rightarrow> None | d # r \<Rightarrow> if d = c then Some r else None)"

text \<open>n times a comma and %f.\<close>
primrec scan_floats :: "nat \<Rightarrow> string \<Rightarrow> (flt list \<times> string) option" where
  "scan_floats 0 s = Some ([], s)"
| "scan_floats (Suc n) s = (case scan_char CHR '','' s of None \<Rightarrow> None
     | Some s \<Rightarrow> case scan_float s of None \<Rightarrow> None
     | Some (x, s) \<Rightarrow> map_option (\<lambda>(xs, r). (x # xs, r)) (scan_floats n s))"

end
