(* ===== verification/UsbCmd.thy ===== *)
theory UsbCmd
  imports Shared Scan "HOL-Library.Monad_Syntax"
begin

text \<open>
  The command line on the USB port (USBCmdThread of src/src/threads.cpp): the 64-byte line reader, the
  dispatch of a line and the commands.  What the file system, the flash and the CAN controller's
  registers answer is the argument env; the replies are values, a format's fixed text with the values
  printed into it.  The download loop may not end when a read never reports the end of the file, so
  the commands are partial: None is a command that does not return.  A print waits without a limit until
  the host takes it: LOG,get, whose theorem is that it returns, has that as an argument; the other
  commands are those of a host that takes what they print.
\<close>

section \<open>Environment and replies\<close>

datatype field = FInt int | FFlt flt | FStr string

datatype out = Line string "field list" | Raw bytes | Reset

record dir_entry =
  de_name :: string
  de_size :: nat
  de_is_dir :: bool

text \<open>The directory of the logs as f_readdir lists it (None when it cannot be opened), f_stat, f_open,
f_read from a position (None on an error) and f_unlink by path, the flash controller, the registers.
The host: whether it takes what is printed, and how many bytes it takes, in the two seconds it is given, of
the piece of a download that begins at a position.\<close>
record usb_env =
  ue_dir :: "dir_entry list option"
  ue_stat :: "string \<Rightarrow> nat option"
  ue_open :: "string \<Rightarrow> bool"
  ue_read :: "string \<Rightarrow> nat \<Rightarrow> bytes option"
  ue_unlink :: "string \<Rightarrow> bool"
  ue_erase_ok :: bool
  ue_prog_ok :: "nat \<Rightarrow> bool"
  ue_regs :: "nat \<Rightarrow> u32"
  ue_prints :: bool
  ue_taken :: "nat \<Rightarrow> nat"

definition starts :: "string \<Rightarrow> string \<Rightarrow> bool" where
  "starts p s = (take (length p) s = p)"

fun contains :: "string \<Rightarrow> string \<Rightarrow> bool" where
  "contains p [] = (p = [])"
| "contains p (c # s) = (starts p (c # s) \<or> contains p s)"

definition fbool :: "bool \<Rightarrow> field" where "fbool b = FInt (if b then 1 else 0)"
definition fnat :: "nat \<Rightarrow> field" where "fnat n = FInt (int n)"
definition fword :: "'a::len word \<Rightarrow> field" where "fword w = FInt (uint w)"

section \<open>Log files\<close>

text \<open>The path, cut to its buffer of 32 bytes.\<close>
definition logs_path :: "string \<Rightarrow> string" where
  "logs_path fname = take 31 (''/LOGS/'' @ fname)"

definition usb_log_list :: "usb_env \<Rightarrow> out list" where
  "usb_log_list env = (case ue_dir env of None \<Rightarrow> [Line ''LOG,ERR,no_sd'' []]
     | Some es \<Rightarrow> map (\<lambda>e. Line ''LOG,FILE,%s,%lu'' [FStr (de_name e), fnat (de_size e)]) (filter (\<lambda>e. \<not> de_is_dir e) es)
         @ [Line ''LOG,LIST,END'' []])"

text \<open>A line printed to the port: chprintf waits until it is taken.\<close>
definition usb_print :: "usb_env \<Rightarrow> out \<Rightarrow> out list option" where
  "usb_print env l = (if ue_prints env then Some [l] else None)"

text \<open>The download loop.  chnWriteTimeout hands over what the host takes of a piece in time; its result is
ignored and the loop goes on with the next piece.\<close>
partial_function (option) read_chunks :: "(nat \<Rightarrow> bytes option) \<Rightarrow> (nat \<Rightarrow> nat) \<Rightarrow> nat \<Rightarrow> out list option" where
  "read_chunks rd taken pos = (case rd pos of None \<Rightarrow> Some []
     | Some b \<Rightarrow> if b = [] then Some []
         else Option.bind (read_chunks rd taken (pos + length b)) (\<lambda>rest. Some (Raw (take (taken pos) b) # rest)))"

definition usb_log_get :: "usb_env \<Rightarrow> string \<Rightarrow> out list option" where
  "usb_log_get env fname =
    (let path = logs_path fname in
     case ue_stat env path of None \<Rightarrow> usb_print env (Line ''LOG,ERR,notfound'' [])
     | Some sz \<Rightarrow> if \<not> ue_open env path then usb_print env (Line ''LOG,ERR,open_failed'' [])
         else do {
           os \<leftarrow> usb_print env (Line ''LOG,SIZE,%lu'' [fnat sz]);
           chunks \<leftarrow> read_chunks (ue_read env path) (ue_taken env) 0;
           Some (os @ chunks) })"

text \<open>The name behind the last slash of a path.\<close>
definition base_name :: "string \<Rightarrow> string option" where
  "base_name p = (if CHR ''/'' \<in> set p then Some (rev (takeWhile (\<lambda>c. c \<noteq> CHR ''/'') (rev p))) else None)"

definition usb_log_erase :: "usb_env \<Rightarrow> logger \<Rightarrow> out list" where
  "usb_log_erase env lg =
    (let cur_fn = (case logger_path lg of None \<Rightarrow> None | Some p \<Rightarrow> base_name p) in
     case ue_dir env of None \<Rightarrow> [Line ''LOG,ERR,no_sd'' []]
     | Some es \<Rightarrow> [Line ''LOG,ERASED,%d'' [fnat (length (filter (\<lambda>e. \<not> de_is_dir e \<and> cur_fn \<noteq> Some (de_name e)
           \<and> ue_unlink env (logs_path (de_name e))) es))]])"

definition init_err_str :: "string list" where
  "init_err_str = [''not_tried'', ''sdcStart'', ''sdcConnect'', ''f_mount'', ''f_open'', ''ok'']"

definition usb_log_status :: "logger \<Rightarrow> out list" where
  "usb_log_status lg =
    (let e = lg_last_init_err lg; ff = lg_last_ff_err lg;
         es = (if e \<le> 5 then init_err_str ! unat e else ''unknown'')
     in if logger_is_ready lg then [Line ''LOG,STATUS,ready,file=%s'' [FStr (lg_current_path lg)]]
        else if ff \<noteq> 0 then [Line ''LOG,STATUS,not_ready,last_err=%u(%s),ff=%u'' [fword e, FStr es, fword ff]]
        else [Line ''LOG,STATUS,not_ready,last_err=%u(%s)'' [fword e, FStr es]])"

section \<open>Calibration\<close>

definition set_bias3 :: "nat \<Rightarrow> flt \<Rightarrow> flt \<Rightarrow> flt \<Rightarrow> u32 list \<Rightarrow> u32 list" where
  "set_bias3 i x y z w = w[3 * i := f32_bits x, 3 * i + 1 := f32_bits y, 3 * i + 2 := f32_bits z]"

definition usb_cal_set :: "string \<Rightarrow> sys \<Rightarrow> out list \<times> sys" where
  "usb_cal_set args s =
    (case scan_int args of None \<Rightarrow> ([Line ''CAL,ERR,bad_args'' []], s)
     | Some (idx, r) \<Rightarrow> case scan_floats 6 r of None \<Rightarrow> ([Line ''CAL,ERR,bad_args'' []], s)
     | Some (xs, r) \<Rightarrow> if idx < 0 \<or> 2 < idx then ([Line ''CAL,ERR,bad_args'' []], s)
         else let i = nat idx; d = sy_cal_stage s in
           ([Line ''CAL,SET,%d,OK'' [FInt idx]],
            s\<lparr>sy_cal_stage := d\<lparr>cal_gyro_bias := set_bias3 i (xs ! 0) (xs ! 1) (xs ! 2) (cal_gyro_bias d),
                cal_accel_bias := set_bias3 i (xs ! 3) (xs ! 4) (xs ! 5) (cal_accel_bias d)\<rparr>\<rparr>))"

definition usb_cal_commit :: "usb_env \<Rightarrow> sys \<Rightarrow> out list \<times> sys" where
  "usb_cal_commit env s =
    (let (ok, flash) = cal_save (ue_erase_ok env) (ue_prog_ok env) (sy_cal_stage s) (sy_flash s);
         s = s\<lparr>sy_flash := flash\<rparr>
     in if ok then ([Line ''CAL,OK'' []], s\<lparr>sy_cal := sy_cal_stage s, sy_cal_valid := True\<rparr>)
        else ([Line ''CAL,ERR,write_failed'' []], s))"

definition usb_cal_clear :: "usb_env \<Rightarrow> sys \<Rightarrow> out list \<times> sys" where
  "usb_cal_clear env s =
     ([Line ''CAL,OK'' []], s\<lparr>sy_flash := cal_clear (ue_erase_ok env) (sy_flash s), sy_cal := calib_zero,
        sy_cal_valid := False\<rparr>)"

definition usb_cal_query :: "sys \<Rightarrow> out list" where
  "usb_cal_query s =
    (let (valid, d) = (case cal_load (sy_flash s) of None \<Rightarrow> (False, calib_zero) | Some d \<Rightarrow> (True, d))
     in [Line ''CAL,DATA,%.6f*18,%d'' (map (\<lambda>w. FFlt (f32_of_bits w)) (cal_gyro_bias d)
           @ map (\<lambda>w. FFlt (f32_of_bits w)) (cal_accel_bias d) @ [fbool valid])])"

section \<open>Bus, motors, status\<close>

definition diag_line :: "string \<Rightarrow> can_diag \<Rightarrow> out" where
  "diag_line name d = Line name [fword (dg_total_rx d), fword (dg_dispatched d), fword (dg_last_sid d),
     fword (dg_last_dlc d), fword (dg_tx_ok d), fword (dg_tx_fail d), fword (dg_tec d), fword (dg_rec d),
     fword (dg_tec_peak d), fword (dg_rec_peak d), fword (dg_busoff_count d), fword (dg_rx_fifo_lost d)]"

definition usb_can_status :: "usb_env \<Rightarrow> out list" where
  "usb_can_status env = [Line ''CAN,STATUS,psr=0x%08x,ecr=0x%08x,rxf0s=0x%08x,cccr=0x%08x''
     [fword (ue_regs env 0x044), fword (ue_regs env 0x040), fword (ue_regs env 0x0A4), fword (ue_regs env 0x018)]]"

definition usb_can_diag :: "sys \<Rightarrow> out list" where
  "usb_can_diag s = (let c = ms_can (sy_ms s) in
     [diag_line ''CAN,DIAG,bus1'' (can_get_diag CAN_BUS_1 c), diag_line ''CAN,DIAG,bus2'' (can_get_diag CAN_BUS_2 c)])"

definition usb_scan_stop :: "sys \<Rightarrow> out list \<times> sys" where
  "usb_scan_stop s =
    (let c = can_scan_stop (ms_can (sy_ms s)) in
     (map (\<lambda>e. Line ''CAN,SCAN,id=%s0x%03lx,count=%lu'' [FStr (if sc_is_ext e then ''EXT:'' else []),
          fword (sc_id e), fword (sc_count e)]) (can_scan_get CAN_SCAN_MAX c) @ [Line ''CAN,SCAN,END'' []],
      set_can c s))"

definition usb_regdump :: "usb_env \<Rightarrow> out list" where
  "usb_regdump env = map (\<lambda>(n, v). Line ''CAN,REG,%s=0x%08lx'' [FStr n, fword v]) (can_read_regs (ue_regs env) 12)
     @ [Line ''CAN,REG,END'' []]"

definition usb_motor_status :: "sys \<Rightarrow> out list" where
  "usb_motor_status s = concat (map (\<lambda>i. case can_motor_get_state i (sy_ms s) of None \<Rightarrow> []
     | Some m \<Rightarrow> [Line ''MOTOR,%u,pos=%.3f,vel=%.3f,tq=%.3f,temp=%.1f,v=%d,tx_ok=%lu,tx_fail=%lu,rx=%lu''
         [fword i, FFlt (pos_rad m), FFlt (vel_rads m), FFlt (torque_Nm m), FFlt (temp_C m), fbool (mvalid m),
          fword (mtx_ok m), fword (mtx_fail m), fword (rx_count m)]]) [1, 2, 3, 4, 5, 6])"

text \<open>MOTOR,<id>,request: sscanf counts the number even if the text behind it does not match.\<close>
definition usb_motor_request :: "string \<Rightarrow> sys \<Rightarrow> out list \<times> sys" where
  "usb_motor_request args s =
    (case scan_uint args of None \<Rightarrow> ([Line ''MOTOR,ERR,bad_request'' []], s)
     | Some (i, r) \<Rightarrow> if i < 1 \<or> 6 < i then ([Line ''MOTOR,ERR,bad_request'' []], s)
         else let (ok, ms) = (if i \<le> 4 then can_motor_request_status (of_nat i) (sy_ms s)
                              else can_motor_request_encoder (of_nat i) (sy_ms s))
           in ([Line ''MOTOR,%u,REQUEST,%s'' [fnat i, FStr (if ok then ''OK'' else ''ERR'')]], s\<lparr>sy_ms := ms\<rparr>))"

definition usb_motor_test_stop :: "sys \<Rightarrow> out list \<times> sys" where
  "usb_motor_test_stop s = (let (ms, m) = motor_test_stop (sy_ms s) (sy_test s) in
     ([Line ''MOTOR,TEST,STOPPED'' []], s\<lparr>sy_ms := ms, sy_test := m\<rparr>))"

definition usb_motor_test_start :: "nat \<Rightarrow> sys \<Rightarrow> out list \<times> sys" where
  "usb_motor_test_start i s =
    (let (ok, ms, m) = motor_test_start (of_nat i) (sy_ms s) (sy_test s) in
     (Line ''MOTOR,TEST,%s,id=%u'' [FStr (if ok then ''STARTED'' else ''ERR''), fnat i]
        # (if ok then [Line ''MOTOR,TEST,NOTE,disarmed only -- arming stops the test automatically'' []] else []),
      s\<lparr>sy_ms := ms, sy_test := m\<rparr>))"

definition usb_motor_test :: "string \<Rightarrow> sys \<Rightarrow> out list \<times> sys" where
  "usb_motor_test rest s =
    (let other = (if rest = ''stop'' then usb_motor_test_stop s else ([Line ''MOTOR,TEST,ERR,unknown_cmd'' []], s)) in
     case scan_uint rest of None \<Rightarrow> other
     | Some (i, r) \<Rightarrow> if 1 \<le> i \<and> i \<le> 6 then usb_motor_test_start i s else other)"

definition usb_power_status :: "sys \<Rightarrow> out list" where
  "usb_power_status s = (let p = px_power (sy_power s) in
     [Line ''POWER,STATUS,valid=%d,node=%u,v=%.3f,i=%.3f''
        [fbool (pw_valid p), fword (pw_node_id p), FFlt (pw_voltage_V p), FFlt (pw_current_A p)]])"

definition usb_rc_status :: "sys \<Rightarrow> out list" where
  "usb_rc_status s = [Line ''RC,STATUS,frame_lost=%d,failsafe=%d,armed=%d,ch...''
     ([fbool (sb_frame_lost (sy_sbus s)), fbool (sb_failsafe (sy_sbus s)), fbool (sy_armed s)]
      @ map (\<lambda>ch. fword (sbus_channel (sy_sbus s) ch)) [0..<16])]"

definition mode_number :: "robot_mode \<Rightarrow> nat" where
  "mode_number m = (case m of ROBOT_IDLE \<Rightarrow> 0 | ROBOT_STANDING_UP \<Rightarrow> 1 | ROBOT_BALANCING \<Rightarrow> 2 | ROBOT_CAR \<Rightarrow> 3)"

definition mode_name :: "robot_mode \<Rightarrow> string" where
  "mode_name m = (case m of ROBOT_IDLE \<Rightarrow> ''IDLE'' | ROBOT_STANDING_UP \<Rightarrow> ''STANDING_UP''
     | ROBOT_BALANCING \<Rightarrow> ''BALANCING'' | ROBOT_CAR \<Rightarrow> ''CAR'')"

definition usb_tgt_status :: "sys \<Rightarrow> out list" where
  "usb_tgt_status s = (let i = sy_input s; mode = rsm_mode (sy_rsm s) in
     [Line ''TGT,STATUS,armed=%d,mode_sw=%.3f,mode=%d,mode_name=%s,vel_tgt=%.3f,yaw_tgt=%.3f,height_tgt=%.3f,lean_tgt=%.3f''
        [fbool (sy_armed s), FFlt (i ! IN_MODE_SW), fnat (mode_number mode), FStr (mode_name mode), FFlt (i ! IN_VEL_TGT),
         FFlt (i ! IN_YAW_STICK), FFlt (i ! IN_HEIGHT_SET), FFlt (i ! IN_LEANOVER)]])"

section \<open>Dispatch\<close>

definition usb_log_cmd :: "usb_env \<Rightarrow> string \<Rightarrow> sys \<Rightarrow> out list option" where
  "usb_log_cmd env rest s =
    (if rest = ''status'' then Some (usb_log_status (sy_logger s))
     else if rest = ''list'' then Some (usb_log_list env)
     else if starts ''get,'' rest then usb_log_get env (drop 4 rest)
     else if rest = ''erase'' then Some (usb_log_erase env (sy_logger s))
     else Some [Line ''LOG,ERR,unknown_cmd'' []])"

definition usb_cal_cmd :: "usb_env \<Rightarrow> string \<Rightarrow> sys \<Rightarrow> out list \<times> sys" where
  "usb_cal_cmd env rest s =
    (if starts ''set,'' rest then usb_cal_set (drop 4 rest) s
     else if rest = ''commit'' then usb_cal_commit env s
     else if rest = ''clear'' then usb_cal_clear env s
     else if rest = ''query'' then (usb_cal_query s, s)
     else ([Line ''CAL,ERR,unknown_cmd'' []], s))"

definition usb_cmd_dispatch :: "usb_env \<Rightarrow> string \<Rightarrow> sys \<Rightarrow> (out list \<times> sys) option" where
  "usb_cmd_dispatch env line s =
    (if line = ''BOOT'' then Some ([Line ''BOOT,OK'' [], Reset], s)
     else if starts ''LOG,'' line then map_option (\<lambda>os. (os, s)) (usb_log_cmd env (drop 4 line) s)
     else if starts ''CAL,'' line then Some (usb_cal_cmd env (drop 4 line) s)
     else if line = ''CAN,status'' then Some (usb_can_status env, s)
     else if line = ''CAN,diag'' then Some (usb_can_diag s, s)
     else if line = ''CAN,scan,start'' then
       Some ([Line ''CAN,SCAN,started'' []], set_can (can_scan_start (ms_can (sy_ms s))) s)
     else if line = ''CAN,scan,stop'' then Some (usb_scan_stop s)
     else if line = ''CAN,regdump'' then Some (usb_regdump env, s)
     else if line = ''MOTOR,status'' then Some (usb_motor_status s, s)
     else if starts ''MOTOR,'' line \<and> contains '',request'' line then Some (usb_motor_request (drop 6 line) s)
     else if starts ''MOTOR,test,'' line then Some (usb_motor_test (drop 11 line) s)
     else if line = ''POWER,status'' then Some (usb_power_status s, s)
     else if line = ''RC,status'' then Some (usb_rc_status s, s)
     else if line = ''TGT,status'' then Some (usb_tgt_status s, s)
     else Some ([], s))"

section \<open>The line reader\<close>

definition LINE_MAX :: nat where "LINE_MAX = 64"

text \<open>A byte either completes a line, which is handed to the dispatch as a C string, or goes into the
buffer; a byte that finds the buffer full empties it and is lost.\<close>
definition usb_reader :: "char \<Rightarrow> string \<Rightarrow> string option \<times> string" where
  "usb_reader c line =
    (if c = CHR 0x0A \<or> c = CHR 0x0D then
       if 0 < length line then (Some (takeWhile (\<lambda>c. c \<noteq> CHR 0x00) line), []) else (None, line)
     else if length line < LINE_MAX - 1 then (None, line @ [c])
     else (None, []))"

definition usb_byte :: "usb_env \<Rightarrow> char \<Rightarrow> sys \<Rightarrow> (out list \<times> sys) option" where
  "usb_byte env c s =
    (let (cmd, line) = usb_reader c (sy_line s); s = s\<lparr>sy_line := line\<rparr> in
     case cmd of None \<Rightarrow> Some ([], s) | Some l \<Rightarrow> usb_cmd_dispatch env l s)"

end
