(* ===== verification/ControlThreads.thy ===== *)
theory ControlThreads
  imports Shared
begin

text \<open>
  The two threads that drive the motors (ControlThread and WheelSendThread of src/src/threads.cpp).
  The control thread recomputes the torques on every n-th of its ticks, from one snapshot of state,
  inputs and arm switch, passes them through the actuator gate and holds them in between; the hips go
  out in one broadcast frame, the wheels in a thread of their own, as torques or as velocities.
\<close>

section \<open>The control thread\<close>

text \<open>Send ticks per compute tick, from the thread's period in system ticks of 0.1 ms.\<close>
definition compute_divisor :: "u32 \<Rightarrow> u32" where
  "compute_divisor period = (if 100 div period < 1 then 1 else 100 div period)"

text \<open>One evaluation of the control law: the bench test while it runs and the robot is disarmed,
the state machine otherwise, and the gate at the end.  The clocks are arguments.\<close>
definition control_compute :: "balance_ctrl \<Rightarrow> (nat \<Rightarrow> u32) \<Rightarrow> u32 \<Rightarrow> sys \<Rightarrow> flt list \<times> sys" where
  "control_compute cfg clk now s =
    (let (ts, ms, r, m) =
       (if mt_active (sy_test s) then
          if sy_armed s then
            let (ms, m) = motor_test_stop (sy_ms s) (sy_test s);
                (ts, ms, r) = rsm_update cfg clk (sy_state s) (sy_input s) (sy_armed s) (ms, sy_rsm s)
            in (ts, ms, r, m)
          else let (ts, m) = motor_test_update now (sy_ms s) (sy_test s) in (ts, sy_ms s, sy_rsm s, m)
        else let (ts, ms, r) = rsm_update cfg clk (sy_state s) (sy_input s) (sy_armed s) (sy_ms s, sy_rsm s)
          in (ts, ms, r, sy_test s))
     in (actuator_apply ms ts, s\<lparr>sy_ms := ms, sy_rsm := r, sy_test := m\<rparr>))"

definition control_tick :: "balance_ctrl \<Rightarrow> u32 \<Rightarrow> (nat \<Rightarrow> u32) \<Rightarrow> u32 \<Rightarrow> sys \<Rightarrow> sys" where
  "control_tick cfg period clk now s =
    (let ct = sy_ctl s;
         compute_tick = (ct_tick ct mod compute_divisor period = 0);
         (ts, s) = (if compute_tick then control_compute cfg clk now s else (ct_torques ct, s));
         ms = snd (can_motor_set_hip_torques_broadcast (take 4 ts) (sy_ms s));
         poll = ct_poll ct + 1;
         (ms, poll) = (if poll \<ge> 100 then (can_motor_poll_status_round_robin ms, 0) else (ms, poll))
     in s\<lparr>sy_ms := ms, sy_torques := ts,
          sy_ctl := \<lparr>ct_torques = ts, ct_tick = ct_tick ct + 1, ct_poll = poll\<rparr>\<rparr>)"

section \<open>The wheel thread\<close>

definition wheel_send_tick :: "balance_ctrl \<Rightarrow> sys \<Rightarrow> sys" where
  "wheel_send_tick cfg s =
    (let ms = sy_ms s; r = sy_rsm s; m = sy_test s;
         ms = (if rsm_wheel_velocity_mode cfg r
               then snd (can_motor_set_velocity 6 (rsm_wheel_vel_R r)
                   (snd (can_motor_set_velocity 5 (rsm_wheel_vel_L r) ms)))
               else snd (can_motor_set_torque 6 (sy_torques s ! 5)
                   (snd (can_motor_set_torque 5 (sy_torques s ! 4) ms))));
         ms = (if mt_active m \<and> \<not> mt_is_hip m
               then snd (can_motor_set_velocity (mt_motor_id m) (mt_vel_target m) ms) else ms)
     in s\<lparr>sy_ms := ms\<rparr>)"

end
