(* ===== verification/LogThread.thy ===== *)
theory LogThread
  imports Shared
begin

text \<open>
  The log thread (LogThread of src/src/threads.cpp): it retries the initialisation of the card until
  it succeeds, then writes eleven records a tick and drains the ring to the file.  The time stamp in
  milliseconds and what the card answers are arguments.
\<close>

section \<open>The records of a tick\<close>

definition log_msg50 :: "u8 \<Rightarrow> u64 \<Rightarrow> flt list \<Rightarrow> bytes \<Rightarrow> log_msg" where
  "log_msg50 i t_us fs bs = \<lparr>lm_id = i, lm_time_us = t_us, lm_rate_hz = 50, lm_floats = fs, lm_bytes = bs\<rparr>"

definition mode_byte :: "robot_mode \<Rightarrow> u8" where
  "mode_byte m = (case m of ROBOT_IDLE \<Rightarrow> 0 | ROBOT_STANDING_UP \<Rightarrow> 1 | ROBOT_BALANCING \<Rightarrow> 2 | ROBOT_CAR \<Rightarrow> 3)"

definition state_records :: "u64 \<Rightarrow> sys \<Rightarrow> log_msg list" where
  "state_records t_us s =
    (let st = sy_state s; inp = sy_input s; ts = sy_torques s in
     [log_msg50 LOG_MSG_ATT t_us [v3 (sy_euler s) 0, v3 (sy_euler s) 1, v3 (sy_euler s) 2,
        st ! 13, st ! 14, st ! 15, st ! 16, st ! 17, st ! 18] [],
      log_msg50 LOG_MSG_LIN t_us [st ! 0, st ! 1, st ! 2, st ! 3, st ! 4, st ! 5, st ! 6, st ! 7, st ! 8] [],
      log_msg50 LOG_MSG_RCIN t_us [inp ! IN_YAW_STICK, inp ! IN_VEL_TGT, inp ! IN_HEIGHT_SET, inp ! IN_LEANOVER]
        [if sy_armed s then 1 else 0, mode_byte (rsm_mode (sy_rsm s))],
      log_msg50 LOG_MSG_OUTP t_us [ts ! 0, ts ! 1, ts ! 2, ts ! 3] []])"

definition hip_records :: "u64 \<Rightarrow> sys \<Rightarrow> log_msg list" where
  "hip_records t_us s =
    (let hip = map (\<lambda>i. motor_snap i (sy_ms s)) [1, 2, 3, 4] in
     [log_msg50 LOG_MSG_HIPS t_us (map pos_rad hip @ map voltage_V hip) [],
      log_msg50 LOG_MSG_HERR t_us [] (map error_flags hip)])"

definition telemetry_records :: "u64 \<Rightarrow> telemetry \<Rightarrow> log_msg list" where
  "telemetry_records t_us t =
    (let l0 = tl_legs t ! 0; l1 = tl_legs t ! 1 in
     [log_msg50 LOG_MSG_LEGS t_us [ls_L0 l0, ls_L0_dot l0, ls_thL l0, ls_thL_dot l0,
        ls_L0 l1, ls_L0_dot l1, ls_thL l1, ls_thL_dot l1] [],
      log_msg50 LOG_MSG_LEGV t_us [ls_x_dot l0, ls_z_dot l0, ls_x_dot l1, ls_z_dot l1] [],
      log_msg50 LOG_MSG_MOTV t_us [tl_hip_vel t ! 0, tl_hip_vel t ! 1, tl_hip_vel t ! 2, tl_hip_vel t ! 3,
        tl_wheel_vel t ! 0, tl_wheel_vel t ! 1] [],
      log_msg50 LOG_MSG_PWR t_us [tl_battery_V t, tl_power_V t, tl_current_A t] [],
      log_msg50 LOG_MSG_VNED t_us [tl_x_dot t, tl_z_dot t] []])"

definition log_records :: "u64 \<Rightarrow> sys \<Rightarrow> log_msg list" where
  "log_records t_ms s = (let t_us = t_ms * 1000 in
     state_records t_us s @ hip_records t_us s @ telemetry_records t_us (sy_tel s))"

section \<open>The thread\<close>

text \<open>The attempts of the start, one per answer of the card.\<close>
fun log_start :: "sd_answers list \<Rightarrow> logger \<Rightarrow> logger" where
  "log_start [] l = l"
| "log_start (a # as) l = (let (ok, l) = logger_init a l in if ok then l else log_start as l)"

definition log_write_all :: "log_msg list \<Rightarrow> logger \<Rightarrow> logger" where
  "log_write_all ms l = fold (\<lambda>m l. snd (logger_write (lm_id m) (log_body m) l)) ms l"

definition log_step :: "u64 \<Rightarrow> bool \<times> nat \<Rightarrow> sys \<Rightarrow> logger \<Rightarrow> logger" where
  "log_step t_ms wr s l = logger_flush wr (log_write_all (log_records t_ms s) l)"

definition log_tick :: "u64 \<Rightarrow> bool \<times> nat \<Rightarrow> sys \<Rightarrow> sys" where
  "log_tick t_ms wr s = s\<lparr>sy_logger := log_step t_ms wr s (sy_logger s)\<rparr>"

section \<open>What reaches the file\<close>

text \<open>A record on the wire, and what is accepted so far: the file and what waits in the ring.\<close>
definition log_wire :: "log_msg \<Rightarrow> bytes" where
  "log_wire m = [0xA3, 0x95, lm_id m] @ log_body m"

definition log_total :: "logger \<Rightarrow> bytes" where
  "log_total l = lg_file l @ ring_contents (lg_ring l)"

definition log_ready :: "logger \<Rightarrow> bool" where
  "log_ready l \<longleftrightarrow> lg_open l \<and> ring_ok (lg_ring l)"

lemma kLogDefs_sizes: "map (\<lambda>d. (ld_msg_id d, ld_body_size d)) kLogDefs =
    [(LOG_MSG_ATT, 46), (LOG_MSG_LIN, 46), (LOG_MSG_RCIN, 28), (LOG_MSG_OUTP, 26), (LOG_MSG_HIPS, 42), (LOG_MSG_HERR, 14),
     (LOG_MSG_LEGS, 42), (LOG_MSG_LEGV, 26), (LOG_MSG_MOTV, 34), (LOG_MSG_PWR, 22), (LOG_MSG_VNED, 18)]"
  unfolding kLogDefs_def mk_log_def_def list.map log_def.select_convs ..

lemma log_msg50_sizes: "(lm_id (log_msg50 i t fs bs), length (log_body (log_msg50 i t fs bs))) =
    (i, 10 + 4 * length fs + length bs)"
  by (simp add: log_msg50_def length_log_body)

lemma record_lengths:
  "map (\<lambda>m. (lm_id m, length (log_body m))) (log_records t s) = map (\<lambda>d. (ld_msg_id d, ld_body_size d)) kLogDefs"
  unfolding kLogDefs_sizes log_records_def state_records_def hip_records_def telemetry_records_def Let_def
    append.simps list.map log_msg50_sizes list.size
  by simp

lemma put_bytes:
  assumes "ring_ok (lg_ring l)" "length (ring_contents (lg_ring l)) + length d \<le> 32767"
  shows "\<exists>l'. lg_ring_write d l = (True, l') \<and> log_total l' = log_total l @ d \<and> ring_ok (lg_ring l') \<and>
    length (ring_contents (lg_ring l')) = length (ring_contents (lg_ring l)) + length d \<and>
    lg_open l' = lg_open l \<and> lg_file l' = lg_file l"
proof -
  have fit: "length (ring_contents (lg_ring l)) + length d \<le> BUF_SIZE - 1" using assms(2) by (simp add: BUF_SIZE_def)
  note p = log_fifo.put_ok [OF assms(1) fit] log_fifo.put_invar [OF assms(1), of d]
  have "ring_write d (lg_ring l) = (True, snd (ring_write d (lg_ring l)))" using p(1) by (simp add: prod_eq_iff)
  then have "lg_ring_write d l = (True, l\<lparr>lg_ring := snd (ring_write d (lg_ring l))\<rparr>)"
    by (simp add: lg_ring_write_def case_prod_beta prod_eq_iff)
  then show ?thesis using p by (simp add: log_total_def)
qed

lemma logger_write_all:
  assumes "log_ready l"
    "length (ring_contents (lg_ring l)) + sum_list (map (\<lambda>m. 3 + length (log_body m)) ms) \<le> 32767"
  shows "log_ready (log_write_all ms l) \<and> log_total (log_write_all ms l) = log_total l @ concat (map log_wire ms) \<and>
    length (ring_contents (lg_ring (log_write_all ms l))) =
      length (ring_contents (lg_ring l)) + sum_list (map (\<lambda>m. 3 + length (log_body m)) ms) \<and>
    lg_file (log_write_all ms l) = lg_file l"
  using assms
proof (induction ms arbitrary: l)
  case (Cons m ms)
  have l: "lg_open l" "ring_ok (lg_ring l)" using Cons.prems(1) by (simp_all add: log_ready_def)
  have "length (ring_contents (lg_ring l)) + length [0xA3, 0x95, lm_id m] \<le> 32767" using Cons.prems(2) by simp
  from put_bytes [OF l(2) this] obtain l1 where l1: "lg_ring_write [0xA3, 0x95, lm_id m] l = (True, l1)"
    "log_total l1 = log_total l @ [0xA3, 0x95, lm_id m]" "ring_ok (lg_ring l1)"
    "length (ring_contents (lg_ring l1)) = length (ring_contents (lg_ring l)) + 3" "lg_open l1" "lg_file l1 = lg_file l"
    using l(1) by auto
  have "length (ring_contents (lg_ring l1)) + length (log_body m) \<le> 32767" using Cons.prems(2) l1(4) by simp
  from put_bytes [OF l1(3) this] obtain l2 where l2: "lg_ring_write (log_body m) l1 = (True, l2)"
    "log_total l2 = log_total l @ log_wire m" "ring_ok (lg_ring l2)"
    "length (ring_contents (lg_ring l2)) = length (ring_contents (lg_ring l)) + 3 + length (log_body m)"
    "lg_open l2" "lg_file l2 = lg_file l"
    using l1 by (auto simp: log_wire_def)
  have w: "snd (logger_write (lm_id m) (log_body m) l) = l2"
    using l(1) l1(1) l2(1) by (simp add: logger_write_def)
  have "log_ready l2" using l2 by (simp add: log_ready_def)
  from Cons.IH [OF this] Cons.prems(2) l2 show ?case by (simp add: log_write_all_def w)
qed (simp add: log_write_all_def)

lemma record_bytes: "sum_list (map (\<lambda>m. 3 + length (log_body m)) (log_records t s)) = 377"
proof -
  have "map (\<lambda>m. 3 + length (log_body m)) (log_records t s) =
      map (\<lambda>p. 3 + snd p) (map (\<lambda>m. (lm_id m, length (log_body m))) (log_records t s))" by simp
  then show ?thesis by (simp only: record_lengths kLogDefs_sizes list.map snd_conv) simp
qed

lemma flush_all:
  assumes "log_ready l" "ring_contents (lg_ring l) \<noteq> []" "length (ring_contents (lg_ring l)) \<le> 4096" "4096 \<le> n"
  shows "log_ready (logger_flush (True, n) l) \<and> log_total (logger_flush (True, n) l) = log_total l \<and>
    ring_contents (lg_ring (logger_flush (True, n) l)) = []"
proof -
  have l: "lg_open l" "ring_ok (lg_ring l)" using assms(1) by (simp_all add: log_ready_def)
  obtain c r where cr: "ring_read FLUSH_CHUNK (lg_ring l) = (c, r)" by (rule prod.exhaust)
  have "c = ring_contents (lg_ring l)" "ring_contents r = []" "ring_ok r"
    using log_fifo.get_spec [OF l(2), of FLUSH_CHUNK] log_fifo.get_invar [OF l(2), of FLUSH_CHUNK] cr assms(3)
    by (simp_all add: FLUSH_CHUNK_def)
  then show ?thesis using l(1) cr assms by (simp add: logger_flush_def Let_def log_ready_def log_total_def)
qed

lemma log_step_complete:
  assumes "log_ready l" "length (ring_contents (lg_ring l)) \<le> 3000" "4096 \<le> n"
  shows "log_ready (log_step t (True, n) s l) \<and> ring_contents (lg_ring (log_step t (True, n) s l)) = [] \<and>
    log_total (log_step t (True, n) s l) = log_total l @ concat (map log_wire (log_records t s))"
proof -
  have fit: "length (ring_contents (lg_ring l)) + sum_list (map (\<lambda>m. 3 + length (log_body m)) (log_records t s)) \<le> 32767"
    using assms(2) by (simp add: record_bytes)
  note w = logger_write_all [OF assms(1) fit, unfolded record_bytes]
  have "ring_contents (lg_ring (log_write_all (log_records t s) l)) \<noteq> []" using w by auto
  then show ?thesis using flush_all [OF _ _ _ assms(3), of "log_write_all (log_records t s) l"] w assms(2)
    by (simp add: log_step_def)
qed

text \<open>What a successful initialisation leaves in the ring.\<close>
lemma schema_header:
  assumes "log_ready l" "ring_contents (lg_ring l) = []" "lg_file l = []"
  shows "log_ready (snd (write_schema_header l)) \<and> length (ring_contents (lg_ring (snd (write_schema_header l)))) = 979 \<and>
    log_total (snd (write_schema_header l)) = concat (map fmt_record kLogDefs)"
proof -
  have "log_ready (fold (\<lambda>d l. snd (lg_ring_write (fmt_record d) l)) ds l) \<and>
      length (ring_contents (lg_ring (fold (\<lambda>d l. snd (lg_ring_write (fmt_record d) l)) ds l))) =
        length (ring_contents (lg_ring l)) + 89 * length ds \<and>
      log_total (fold (\<lambda>d l. snd (lg_ring_write (fmt_record d) l)) ds l) = log_total l @ concat (map fmt_record ds)"
    if "log_ready l" "length (ring_contents (lg_ring l)) + 89 * length ds \<le> 32767" for ds l
    using that
  proof (induction ds arbitrary: l)
    case (Cons d ds)
    have "length (ring_contents (lg_ring l)) + length (fmt_record d) \<le> 32767" using Cons.prems(2) by simp
    from put_bytes [OF _ this] obtain l1 where "lg_ring_write (fmt_record d) l = (True, l1)"
      "log_total l1 = log_total l @ fmt_record d" "log_ready l1"
      "length (ring_contents (lg_ring l1)) = length (ring_contents (lg_ring l)) + 89"
      using Cons.prems(1) by (auto simp: log_ready_def)
    then show ?case using Cons.IH [of l1] Cons.prems(2) by simp
  qed simp
  moreover have "length kLogDefs = 11" by (simp add: kLogDefs_def)
  ultimately show ?thesis using assms by (simp add: write_schema_header_def log_total_def)
qed

lemma logger_init_ready:
  assumes "logger_init a l0 = (True, l)" "ring_ok (lg_ring l0)"
  shows "log_ready l \<and> length (ring_contents (lg_ring l)) = 979 \<and> log_total l = concat (map fmt_record kLogDefs)"
proof -
  define l1 where "l1 = l0\<lparr>lg_ring := (lg_ring l0)\<lparr>rg_head := 0, rg_tail := 0\<rparr>, lg_sync_count := 0,
     lg_last_init_err := 5, lg_open := True, lg_current_path := find_next_log_index (sd_exists a), lg_file := []\<rparr>"
  have "l = snd (write_schema_header l1)"
    using assms(1) by (simp add: logger_init_def Let_def l1_def case_prod_beta split: if_splits)
  moreover have "ring_contents (lg_ring l1) = []" "ring_ok (lg_ring l1)" "lg_open l1" "lg_file l1 = []"
    using assms(2) by (simp_all add: l1_def ring_contents_def ring_ok_def)
  ultimately show ?thesis using schema_header [of l1] by (simp add: log_ready_def)
qed

section \<open>Properties\<close>

definition log_run :: "(u64 \<times> nat \<times> sys) list \<Rightarrow> logger \<Rightarrow> logger" where
  "log_run ticks l = fold (\<lambda>(t, n, s) l. log_step t (True, n) s l) ticks l"

text \<open>C27. Nothing is lost on the way to the card: after an initialisation that succeeds, however the
shared memory changes between the ticks of the log thread, as long as the card stores what it is given
the file holds, after every tick, the schema header and then all eleven records of every tick in order,
each the length its schema entry declares; nothing is refused by the ring and nothing stays behind.\<close>
theorem log_run_complete:
  assumes "logger_init a l0 = (True, l)" "ring_ok (lg_ring l0)" "\<forall>(t, n, s) \<in> set ticks. 4096 \<le> n" "ticks \<noteq> []"
  shows "lg_file (log_run ticks l) = concat (map fmt_record kLogDefs) @
      concat (map (\<lambda>(t, n, s). concat (map log_wire (log_records t s))) ticks) \<and> lg_open (log_run ticks l) \<and>
    (\<forall>(t, n, s) \<in> set ticks. map (\<lambda>m. (lm_id m, length (log_wire m))) (log_records t s) =
       map (\<lambda>d. (ld_msg_id d, 3 + ld_body_size d)) kLogDefs)"
proof -
  have run: "log_ready (log_run ts l) \<and> length (ring_contents (lg_ring (log_run ts l))) \<le> 979 \<and>
      (ts \<noteq> [] \<longrightarrow> ring_contents (lg_ring (log_run ts l)) = []) \<and>
      log_total (log_run ts l) = log_total l @ concat (map (\<lambda>(t, n, s). concat (map log_wire (log_records t s))) ts)"
    if "\<forall>(t, n, s) \<in> set ts. 4096 \<le> n" for ts
    using that
  proof (induction ts rule: rev_induct)
    case Nil
    then show ?case using logger_init_ready [OF assms(1,2)] by (simp add: log_run_def)
  next
    case (snoc x ts)
    obtain t n s where x: "x = (t, n, s)" by (rule prod_cases3)
    have "log_ready (log_run ts l)" "length (ring_contents (lg_ring (log_run ts l))) \<le> 3000" "4096 \<le> n"
      using snoc by (auto simp: x)
    from log_step_complete [OF this, of t s] snoc show ?case by (simp add: x log_run_def)
  qed
  have "map (\<lambda>m. (lm_id m, length (log_wire m))) (log_records t s) =
      map (\<lambda>p. (fst p, 3 + snd p)) (map (\<lambda>m. (lm_id m, length (log_body m))) (log_records t s))" for t s
    by (simp add: log_wire_def)
  then have "map (\<lambda>m. (lm_id m, length (log_wire m))) (log_records t s) =
      map (\<lambda>d. (ld_msg_id d, 3 + ld_body_size d)) kLogDefs" for t s
    by (simp only: record_lengths) simp
  then show ?thesis
    using run [OF assms(3)] assms(4) logger_init_ready [OF assms(1,2)] by (auto simp: log_total_def log_ready_def)
qed

definition good_card :: sd_answers where
  "good_card = \<lparr>sd_start_ok = True, sd_connect_ok = True, sd_mount_result = 0, sd_exists = (\<lambda>_. False), sd_open_ok = True\<rparr>"

theorem log_run_complete_witness:
  "length (lg_file (log_run [(7, 4096, start_up (\<lambda>_. True) [])] (snd (logger_init good_card logger_new)))) = 1356"
proof -
  have "fst (logger_init good_card logger_new)"
    by (simp add: good_card_def logger_init_def Let_def write_schema_header_def case_prod_beta)
  then have i: "logger_init good_card logger_new = (True, snd (logger_init good_card logger_new))"
    by (simp add: prod_eq_iff)
  have r: "ring_ok (lg_ring logger_new)" by (simp add: logger_new_def ring_new_ok)
  have "length (concat (map fmt_record ds)) = 89 * length ds" for ds by (induction ds) simp_all
  moreover have "length (concat (map log_wire ms)) = sum_list (map (\<lambda>m. 3 + length (log_body m)) ms)" for ms
    by (induction ms) (simp_all add: log_wire_def)
  moreover have "length kLogDefs = 11" by (simp add: kLogDefs_def)
  ultimately show ?thesis
    using log_run_complete [OF i r, of "[(7, 4096, start_up (\<lambda>_. True) [])]"] by (simp add: record_bytes)
qed

end
