(* ===== verification/MotorFrame.thy ===== *)
theory MotorFrame
  imports UsbCmd ControlThreads LogThread
begin

text \<open>
  What a motor command leaves alone: the registered motors, their readings, the torque scale and the
  handlers of the bus.  Every command of the driver only sends and counts.
\<close>

definition reading :: "motor_state \<Rightarrow> flt \<times> flt \<times> bool" where
  "reading m = (pos_rad m, vel_rads m, mvalid m)"

definition ms_keep :: "motorsys \<Rightarrow> motorsys \<Rightarrow> bool" where
  "ms_keep a b \<longleftrightarrow> ms_entries b = ms_entries a \<and> can_table (ms_can b) = can_table (ms_can a) \<and>
     ms_scale b = ms_scale a \<and> map reading (ms_motors b) = map reading (ms_motors a)"

named_theorems keeps \<open>motor commands that keep the readings\<close>

lemma ms_keep_refl [simp, keeps]: "ms_keep a a"
  by (simp add: ms_keep_def)

lemma ms_keep_trans: "ms_keep a b \<Longrightarrow> ms_keep b c \<Longrightarrow> ms_keep a c"
  by (simp add: ms_keep_def)

lemma keep_send [keeps]: "ms_keep a b \<Longrightarrow> ms_keep a (snd (ms_send sid d b))"
  by (simp add: ms_keep_def) (simp add: ms_send_def can_send_def Let_def case_prod_beta)

lemma keep_upd: "ms_keep a b \<Longrightarrow> (\<And>m. reading (f m) = reading m) \<Longrightarrow> ms_keep a (upd_motor k f b)"
proof -
  assume a: "ms_keep a b" and f: "\<And>m. reading (f m) = reading m"
  have "map reading ((ms_motors b)[k := f (ms_motors b ! k)]) = map reading (ms_motors b)"
    by (cases "k < length (ms_motors b)")
      (auto simp: f nth_list_update list_update_beyond intro!: nth_equalityI)
  then show ?thesis using a by (simp add: ms_keep_def upd_motor_def)
qed

lemma keep_record_tx [keeps]: "ms_keep a b \<Longrightarrow> ms_keep a (motor_record_tx k ok b)"
  by (simp add: motor_record_tx_def keep_upd reading_def)

lemma keep_record [keeps]: "ms_keep a (snd r) \<Longrightarrow> ms_keep a (record_after k r)"
  by (simp add: record_after_def keep_record_tx)

lemma keep_rmd [keeps]:
  "ms_keep a b \<Longrightarrow> ms_keep a (snd (rmd_send_torque i t b))" "ms_keep a b \<Longrightarrow> ms_keep a (snd (rmd_send_velocity i t b))"
  "ms_keep a b \<Longrightarrow> ms_keep a (snd (rmd_send_torque_broadcast r b))" "ms_keep a b \<Longrightarrow> ms_keep a (rmd_send_status_request i b)"
  by (simp_all add: rmd_send_torque_def rmd_send_torque_raw_def rmd_send_velocity_def rmd_send_torque_broadcast_def
      rmd_send_status_request_def Let_def keep_send)

lemma keep_odrive [keeps]:
  "ms_keep a b \<Longrightarrow> ms_keep a (snd (odrive_send_torque n t b))" "ms_keep a b \<Longrightarrow> ms_keep a (snd (odrive_send_velocity n v b))"
  "ms_keep a b \<Longrightarrow> ms_keep a (odrive_set_axis_state n x b)" "ms_keep a b \<Longrightarrow> ms_keep a (odrive_set_controller_mode n x y b)"
  by (simp_all add: odrive_send_torque_def odrive_send_velocity_def odrive_set_axis_state_def
      odrive_set_controller_mode_def Let_def keep_send)

lemma keep_set_torque [keeps]: "ms_keep a b \<Longrightarrow> ms_keep a (snd (can_motor_set_torque i t b))"
  by (auto simp: can_motor_set_torque_def sdc102_send_torque_def keep_record keep_rmd keep_odrive
      split: option.split can_motor_proto.split)

lemma keep_set_velocity [keeps]: "ms_keep a b \<Longrightarrow> ms_keep a (snd (can_motor_set_velocity i v b))"
  by (auto simp: can_motor_set_velocity_def sdc102_send_velocity_def keep_record keep_rmd keep_odrive Let_def
      case_prod_beta split: option.split can_motor_proto.split)

lemma keep_set_mode [keeps]: "ms_keep a b \<Longrightarrow> ms_keep a (snd (can_motor_set_odrive_mode i v b))"
  by (auto simp: can_motor_set_odrive_mode_def keep_odrive Let_def split: option.split)

lemma keep_broadcast [keeps]: "ms_keep a b \<Longrightarrow> ms_keep a (snd (can_motor_set_hip_torques_broadcast ts b))"
proof -
  assume a: "ms_keep a b"
  have "ms_keep a (fold (\<lambda>k. motor_record_tx k ok) ks c)" if "ms_keep a c" for c ok ks
    using that by (induction ks arbitrary: c) (simp_all add: keep_record_tx)
  then show ?thesis using a keep_rmd(3) [OF a]
    by (cases "rmd_entry b 1"; cases "rmd_entry b 2"; cases "rmd_entry b 3"; cases "rmd_entry b 4")
      (simp_all only: can_motor_set_hip_torques_broadcast_def option.simps(4,5) prod.case Let_def case_prod_beta
        fst_conv snd_conv)
qed

lemma keep_next: "ms_keep a b \<Longrightarrow> ms_keep a (b\<lparr>ms_next := n\<rparr>)"
  by (simp add: ms_keep_def)

lemma keep_poll [keeps]: "ms_keep a b \<Longrightarrow> ms_keep a (can_motor_poll_status_round_robin b)"
  by (auto simp: can_motor_poll_status_round_robin_def Let_def keep_rmd keep_next split: option.split)

lemma keep_request [keeps]:
  "ms_keep a b \<Longrightarrow> ms_keep a (snd (can_motor_request_status i b))"
  "ms_keep a b \<Longrightarrow> ms_keep a (snd (can_motor_request_encoder i b))"
proof -
  assume a: "ms_keep a b"
  then show "ms_keep a (snd (can_motor_request_status i b))"
    by (auto simp: can_motor_request_status_def keep_rmd split: option.split)
  have "ms_keep a (b\<lparr>ms_can := snd (can_send_rtr x y z (ms_can b))\<rparr>)" for x y z
    using a by (simp add: ms_keep_def can_send_rtr_def Let_def)
  then show "ms_keep a (snd (can_motor_request_encoder i b))"
    using a by (auto simp: can_motor_request_encoder_def Let_def case_prod_beta keep_record_tx split: option.split)
qed

lemma keep_switch [keeps]: "ms_keep a b \<Longrightarrow> ms_keep a (rsm_switch cfg p m b)"
  by (simp add: rsm_switch_def Let_def both_wheels_mode_def keep_set_mode)

lemma keep_test [keeps]:
  "ms_keep a b \<Longrightarrow> ms_keep a (fst (motor_test_stop b m))"
  "ms_keep a b \<Longrightarrow> ms_keep a (fst (snd (motor_test_start i b m)))"
  by (simp_all add: motor_test_stop_def motor_test_start_def Let_def keep_set_mode)

lemma keep_rsm_update [keeps]: "ms_keep a b \<Longrightarrow> ms_keep a (fst (snd (rsm_update cfg clk st inp armed (b, r))))"
  unfolding rsm_update_ms by (rule keep_switch)

text \<open>A kept table answers the same readings.\<close>
lemma keep_get_state:
  assumes "ms_keep a b" "length (ms_entries a) \<le> length (ms_motors a)"
  shows "map_option reading (can_motor_get_state i b) = map_option reading (can_motor_get_state i a)"
proof -
  have f: "find_entry b i = find_entry a i" using assms(1) by (simp add: ms_keep_def find_entry_def)
  have len: "length (ms_motors b) = length (ms_motors a)" using assms(1) by (metis ms_keep_def length_map)
  have "reading (ms_motors b ! k) = reading (ms_motors a ! k)" if "find_entry a i = Some k" for k
  proof -
    have "k < length (ms_entries a)" using that index_of_SomeD [of _ "ms_entries a" k] by (simp add: find_entry_def)
    then have k: "k < length (ms_motors a)" using assms(2) by simp
    have "map reading (ms_motors b) ! k = map reading (ms_motors a) ! k" using assms(1) by (simp only: ms_keep_def)
    then show ?thesis using k len by simp
  qed
  then show ?thesis by (cases "find_entry a i") (simp_all add: can_motor_get_state_def f)
qed

end
