(* ===== verification/System.thy ===== *)
theory System
  imports MotorFrame
begin

text \<open>
  The whole firmware as one system: the threads of src/src/threads.cpp take turns, in any order, on
  the shared memory, one loop iteration at a time, from the start-up of src/main.cpp.  The invariant
  says that everything that reaches the controllers and the motors is a finite number in its range.
\<close>

section \<open>Events\<close>

datatype event =
    E_spi "(vec3 \<times> vec3) option" "(vec3 \<times> vec3) option" "(vec3 \<times> vec3) option"
  | E_can "can_frame option" "u32 \<times> u32 \<times> u32" "can_frame option" "u32 \<times> u32 \<times> u32"
  | E_est
  | E_control "nat \<Rightarrow> u32" u32
  | E_wheel
  | E_radio bytes
  | E_usb usb_env char
  | E_log_init sd_answers
  | E_log u64 "bool \<times> nat"

text \<open>The periods main hands to the threads, in system ticks of 0.1 ms.\<close>
definition EST_PERIOD :: u32 where "EST_PERIOD = 20"
definition CONTROL_PERIOD :: u32 where "CONTROL_PERIOD = 100"

definition est_dt :: flt where "est_dt = flt_of_int (uint EST_PERIOD) / Fin 10000"

definition boot :: "(nat \<Rightarrow> bool) \<Rightarrow> bytes \<Rightarrow> sys" where
  "boot ans flash = spi_start (start_up ans flash)"

text \<open>A command that resets the controller starts it again with the flash as it is; a download that
never returns (its file never ends, or the host does not take its first line) leaves the memory as it was,
and the other threads go on.  That the port then takes no further byte is not required of a run.\<close>
definition usb_step :: "usb_env \<Rightarrow> char \<Rightarrow> sys \<Rightarrow> sys" where
  "usb_step env c s = (case usb_byte env c s of None \<Rightarrow> s
     | Some (os, s') \<Rightarrow> if Reset \<in> set os then boot (can_answer (ms_can (sy_ms s'))) (sy_flash s') else s')"

fun step :: "balance_ctrl \<Rightarrow> event \<Rightarrow> sys \<Rightarrow> sys" where
  "step cfg (E_spi r1 r2 r3) s = spi_tick r1 r2 r3 s"
| "step cfg (E_can rx1 regs1 rx2 regs2) s = can_tick rx1 regs1 rx2 regs2 s"
| "step cfg E_est s = est_thread_tick est_dt s"
| "step cfg (E_control clk now) s = control_tick cfg CONTROL_PERIOD clk now s"
| "step cfg E_wheel s = wheel_send_tick cfg s"
| "step cfg (E_radio rx) s = radio_tick rx s"
| "step cfg (E_usb env c) s = usb_step env c s"
| "step cfg (E_log_init a) s = s\<lparr>sy_logger := snd (logger_init a (sy_logger s))\<rparr>"
| "step cfg (E_log t wr) s = log_tick t wr s"

definition run :: "balance_ctrl \<Rightarrow> event list \<Rightarrow> sys \<Rightarrow> sys" where
  "run cfg es s = fold (step cfg) es s"

lemma run_simps [simp]: "run cfg [] s = s" "run cfg (e # es) s = run cfg es (step cfg e s)"
  "run cfg (es @ fs) s = run cfg fs (run cfg es s)"
  by (simp_all add: run_def)

section \<open>The invariant\<close>

definition motors_inv :: "motorsys \<Rightarrow> bool" where
  "motors_inv ms \<longleftrightarrow> ms_entries ms = main_entries \<and> length (ms_motors ms) = 8 \<and> isfin (ms_scale ms) \<and>
     (\<forall>m \<in> set (ms_motors ms). motor_fin m)"

definition imus_fin :: "imu_raw list \<Rightarrow> bool" where
  "imus_fin xs \<longleftrightarrow> length xs = 3 \<and> (\<forall>m \<in> set xs. fin3 (im_accel m) \<and> fin3 (im_gyro m))"

definition mocap_fin :: "mocap_raw \<Rightarrow> bool" where
  "mocap_fin m \<longleftrightarrow> fin3 (mc_xyz m) \<and> fin3 (mc_vel m)"

definition cal_fin :: "calib_data \<Rightarrow> bool" where
  "cal_fin d \<longleftrightarrow> (\<forall>i < 3. fin3 (cal_bias (cal_accel_bias d) i) \<and> fin3 (cal_bias (cal_gyro_bias d) i))"

definition test_ok :: "motor_test \<Rightarrow> bool" where
  "test_ok m \<longleftrightarrow> sweep_ok m \<and> pid_ok (mt_hip_pid m) \<and> isfin (mt_start_pos m) \<and> fin_le 1 (mt_vel_target m)"

definition torques_ok :: "flt list \<Rightarrow> bool" where
  "torques_ok ts \<longleftrightarrow> length ts = 6 \<and> (\<forall>t \<in> set ts. fin_le 9 t) \<and> fin_le 8 (ts ! 4) \<and> fin_le 8 (ts ! 5)"

definition sys_data :: "nat \<Rightarrow> sys \<Rightarrow> bool" where
  "sys_data n s \<longleftrightarrow> imus_fin (sy_imu s) \<and> imu_fin (sy_can_imu s) \<and> mocap_fin (sy_mocap s) \<and> cal_fin (sy_cal s) \<and>
     st_fin (sy_state s) \<and> inp_fin (sy_input s) \<and> est_inv n (sy_mgr s) \<and> rsm_ok (sy_rsm s) \<and> test_ok (sy_test s) \<and>
     torques_ok (ct_torques (sy_ctl s)) \<and> torques_ok (sy_torques s) \<and> motors_inv (sy_ms s)"

subsection \<open>Motors\<close>

lemma motors_inv_keep: "motors_inv a \<Longrightarrow> ms_keep a b \<Longrightarrow> motors_inv b"
proof -
  assume a: "motors_inv a" and k: "ms_keep a b"
  have "length (ms_motors b) = length (ms_motors a)" using k by (metis ms_keep_def length_map)
  moreover have "reading ` set (ms_motors b) = reading ` set (ms_motors a)" using k by (metis ms_keep_def set_map)
  moreover have "motor_fin m \<longleftrightarrow> isfin (fst (reading m)) \<and> isfin (fst (snd (reading m)))" for m
    by (simp add: motor_fin_def reading_def)
  ultimately show "motors_inv b" using a k unfolding motors_inv_def ms_keep_def by (metis image_iff)
qed

lemma motors_inv_get: "motors_inv ms \<Longrightarrow> can_motor_get_state i ms = Some m \<Longrightarrow> motor_fin m"
proof -
  assume ms: "motors_inv ms" and g: "can_motor_get_state i ms = Some m"
  then obtain k where k: "find_entry ms i = Some k" "m = ms_motors ms ! k" by (auto simp: can_motor_get_state_def)
  have "length (ms_entries ms) = 6" using ms by (simp add: motors_inv_def main_entries_def)
  then have "k < 8" using index_of_SomeD k(1) by (fastforce simp: find_entry_def)
  then show ?thesis using ms k(2) by (simp add: motors_inv_def)
qed

lemma motors_inv_fin: "motors_inv ms \<Longrightarrow> motors_fin ms"
  using motors_inv_get by (auto simp: motors_fin_def hips_fin_def wheels_fin_def motor_fin_def)

lemma motor_snap_fin: "motors_inv ms \<Longrightarrow> motor_fin (motor_snap i ms)"
  using motors_inv_get by (auto simp: motor_snap_def motor_state_zero_def motor_fin_def split: option.split)

lemma motors_inv_main: "motors_inv (main_motors (motorsys_new c))"
proof -
  have m: "ms_motors (main_motors (motorsys_new c)) = replicate 8 motor_state_zero"
    "ms_scale (main_motors (motorsys_new c)) = Fin 83.3"
    by (simp_all add: main_motors_def can_motor_register_def motorsys_new_def CAN_MOTOR_MAX_def Let_def ms_register_def
        odrive_init_axis_def odrive_set_axis_state_def odrive_set_controller_mode_def RMD_TORQUE_SCALE_DEFAULT_def)
  show ?thesis by (simp add: motors_inv_def m main_motors_new motor_fin_def motor_state_zero_def)
qed

subsection \<open>Control laws\<close>

lemma fin_le_mono: "fin_le a t \<Longrightarrow> a \<le> b \<Longrightarrow> fin_le b t"
  by (auto simp: fin_le_def cmd_le_def split: flt.splits)

lemma fin_leE: "fin_le b t \<Longrightarrow> (\<And>x. t = Fin x \<Longrightarrow> \<bar>x\<bar> \<le> b \<Longrightarrow> P) \<Longrightarrow> P"
  by (auto simp: fin_le_def elim: isfinE)

lemma gate_fin:
  assumes "motors_inv ms" "fin_le 9 t"
  shows "fin_le 9 (actuator_gate ms i t)" "4 \<le> i \<Longrightarrow> fin_le 8 (actuator_gate ms i t)"
proof -
  obtain q where q: "t = Fin q" "\<bar>q\<bar> \<le> 9" using assms(2) by (rule fin_leE)
  have w: "fin_le 8 (constrain_float (t * limit_scale (vel_rads m) (- AS_WHEEL_VEL_LIMIT_RADS) AS_WHEEL_VEL_LIMIT_RADS
        AS_WHEEL_VEL_SOFT_MARGIN_RADS t) (- AS_WHEEL_TORQUE_LIMIT_NM) AS_WHEEL_TORQUE_LIMIT_NM)"
    if "motor_fin m" for m
  proof -
    obtain v where v: "vel_rads m = Fin v" using \<open>motor_fin m\<close> by (auto simp: motor_fin_def elim: isfinE)
    show ?thesis unfolding q(1) v wheel_vel.factor_fac AS_WHEEL_TORQUE_LIMIT_NM_def
      by (simp add: clampr_def abs_le_iff)
  qed
  have "fin_le 9 (actuator_gate ms i t) \<and> (4 \<le> i \<longrightarrow> fin_le 8 (actuator_gate ms i t))"
  proof (cases "can_motor_get_state (MOTOR_IDS ! i) ms")
    case (Some m)
    note w = w [OF motors_inv_get [OF assms(1) Some]]
    then show ?thesis using Some assms(2) fin_le_mono [OF w] by (simp add: actuator_gate_def Let_def)
  qed (simp add: actuator_gate_def)
  then show "fin_le 9 (actuator_gate ms i t)" "4 \<le> i \<Longrightarrow> fin_le 8 (actuator_gate ms i t)" by simp_all
qed

lemma actuator_apply_ok:
  assumes "motors_inv ms" "length ts = 6" "\<forall>t \<in> set ts. fin_le 9 t"
  shows "torques_ok (actuator_apply ms ts)"
  using assms gate_fin by (auto simp: torques_ok_def actuator_apply_def)

lemma motor_test_update_ok:
  assumes "test_ok m" "motors_inv ms"
  shows "test_ok (snd (motor_test_update now ms m)) \<and> length (fst (motor_test_update now ms m)) = 6 \<and>
    (\<forall>t \<in> set (fst (motor_test_update now ms m)). fin_le 9 t)"
proof (cases "mt_active m")
  case True
  show ?thesis
  proof (cases "can_motor_get_state (mt_motor_id m) ms")
    case None
    then show ?thesis using assms(1) True by (simp add: motor_test_update_def Let_def)
  next
    case (Some st)
    have fin: "isfin (pos_rad st)" using motors_inv_get [OF assms(2) Some] by (simp add: motor_fin_def)
    note frame = motor_test_update_frame [of now ms m]
    have sw: "sweep_ok (snd (motor_test_update now ms m))" using assms(1) frame by (auto simp: test_ok_def sweep_ok_def)
    have dir: "mt_dir m = 1 \<or> mt_dir m = - 1" using assms(1) by (simp add: test_ok_def sweep_ok_def)
    show ?thesis
    proof (cases "mvalid st \<and> mt_is_hip m")
      case True
      define m1 where "m1 = (if fabsf (pos_rad st - sweep_target m) < HIP_SWEEP_ARRIVE_EPS_RAD
          then m\<lparr>mt_dir := - mt_dir m, mt_hip_pid := pid_reset (mt_hip_pid m)\<rparr> else m)"
      have hip: "hip_id (mt_motor_id m)" using assms(1) True \<open>mt_active m\<close>
        by (auto simp: test_ok_def sweep_ok_def hip_id_def word_le_nat_alt unat_gt_0 Suc_le_eq)
      have "mt_motor_id m1 = mt_motor_id m" by (simp add: m1_def)
      then have t: "isfin (sweep_target m1)" using hip_id_cases [OF hip]
        by (auto simp: sweep_target_def can_motor_hip_angle_max_def can_motor_hip_angle_min_def at_hip_def
            HIP_ANGLE_MAX_RAD_def HIP_ANGLE_MIN_RAD_def)
      have "isfin (sweep_target m1 - pos_rad st)" using t fin by (auto elim!: isfinE)
      moreover have "pid_ok (mt_hip_pid m1)" using assms(1) by (auto simp: m1_def test_ok_def)
      ultimately have p: "pid_ok (snd (pid_update now (sweep_target m1 - pos_rad st) (mt_hip_pid m1)))"
        "isfin (fst (pid_update now (sweep_target m1 - pos_rad st) (mt_hip_pid m1)))"
        using pid_update_fin by blast+
      have u: "motor_test_update now ms m =
          ((replicate 6 (Fin 0))[unat (mt_motor_id m1) - 1 :=
             constrain_float (fst (pid_update now (sweep_target m1 - pos_rad st) (mt_hip_pid m1)))
               (- HIP_SWEEP_TORQUE_LIMIT_NM) HIP_SWEEP_TORQUE_LIMIT_NM],
           m1\<lparr>mt_hip_pid := snd (pid_update now (sweep_target m1 - pos_rad st) (mt_hip_pid m1))\<rparr>)"
        using True \<open>mt_active m\<close> Some by (simp add: motor_test_update_def m1_def Let_def case_prod_beta)
      obtain y where y: "fst (pid_update now (sweep_target m1 - pos_rad st) (mt_hip_pid m1)) = Fin y"
        using p(2) by (auto elim: isfinE)
      have "fin_le 9 (constrain_float (Fin y) (- HIP_SWEEP_TORQUE_LIMIT_NM) HIP_SWEEP_TORQUE_LIMIT_NM)"
        by (simp add: HIP_SWEEP_TORQUE_LIMIT_NM_def clampr_def abs_le_iff)
      then have "\<forall>t \<in> set (fst (motor_test_update now ms m)). fin_le 9 t"
        unfolding u y by (auto dest!: set_update_subset_insert [THEN subsetD])
      moreover have "mt_start_pos m1 = mt_start_pos m" "mt_vel_target m1 = mt_vel_target m" by (simp_all add: m1_def)
      ultimately show ?thesis using sw p(1) assms(1) by (simp add: u test_ok_def)
    next
      case False
      then show ?thesis using \<open>mt_active m\<close> Some assms(1) sw fin dir
        by (auto simp: motor_test_update_def Let_def test_ok_def WHEEL_SWEEP_VEL_RADS_def)
    qed
  qed
next
  case False
  then show ?thesis using assms(1) by (simp add: motor_test_update_def Let_def)
qed

lemma motor_test_start_stop_ok:
  assumes "test_ok m" "motors_inv ms"
  shows "test_ok (snd (motor_test_stop ms m))" "test_ok (snd (snd (motor_test_start i ms m)))"
proof -
  show "test_ok (snd (motor_test_stop ms m))"
    using assms(1) by (simp add: motor_test_stop_def Let_def test_ok_def sweep_ok_def)
  have f: "isfin (case can_motor_get_state i ms of None \<Rightarrow> Fin 0 | Some s \<Rightarrow> if mvalid s then pos_rad s else Fin 0)"
    using motors_inv_get [OF assms(2)] by (auto simp: motor_fin_def split: option.split)
  show "test_ok (snd (snd (motor_test_start i ms m)))"
    using assms(1) f by (auto simp: motor_test_start_def Let_def test_ok_def sweep_ok_def not_less)
qed

end
