(* ===== verification/SystemInv.thy ===== *)
theory SystemInv
  imports System
begin

text \<open>
  Every event keeps the invariant of the system, and what follows for whole runs: bounded torques
  and a finite published state, whatever the order in which the threads take their turns.
\<close>

section \<open>Sensors\<close>

lemma v3_tuple [simp]: "v3 (a, b, c) 0 = a" "v3 (a, b, c) (Suc 0) = b" "v3 (a, b, c) 2 = c"
  by (simp_all add: v3_def)

lemma align_fin:
  "fin3 a \<Longrightarrow> fin3 (imu1_align a)" "fin3 a \<Longrightarrow> fin3 (imu2_align a)" "fin3 a \<Longrightarrow> fin3 (imu3_align a)"
  "fin3 a \<Longrightarrow> fin3 b \<Longrightarrow> fin3 (sub3 a b)"
  by (auto simp: fin3_def imu1_align_def imu2_align_def imu3_align_def sub3_def RS_def elim!: isfinE)

definition reading_fin :: "(vec3 \<times> vec3) option \<Rightarrow> bool" where
  "reading_fin r = (case r of None \<Rightarrow> True | Some (a, g) \<Rightarrow> fin3 a \<and> fin3 g)"

lemma publish_imu_ok:
  assumes "sys_data n s" "reading_fin r" "\<And>a. fin3 a \<Longrightarrow> fin3 (align a)" "i < 3"
  shows "sys_data n (publish_imu i align r s)"
proof (cases r)
  case None
  then show ?thesis using assms(1) by (simp add: publish_imu_def)
next
  case (Some ag)
  obtain a g where ag: "ag = (a, g)" by (rule prod.exhaust)
  define m where "m = \<lparr>im_accel = sub3 (align a) (cal_bias (cal_accel_bias (sy_cal s)) i),
      im_gyro = sub3 (align g) (cal_bias (cal_gyro_bias (sy_cal s)) i), im_valid = True\<rparr>"
  have "fin3 (im_accel m) \<and> fin3 (im_gyro m)"
    using assms Some by (simp add: m_def ag reading_fin_def sys_data_def cal_fin_def align_fin(4))
  then have "imus_fin ((sy_imu s)[i := m])"
    using assms(1) by (auto simp: sys_data_def imus_fin_def dest!: set_update_subset_insert [THEN subsetD])
  then show ?thesis using assms(1) Some by (simp add: publish_imu_def ag sys_data_def flip: m_def)
qed

lemma publish_imu_can [simp]: "sy_ms (publish_imu i align r s) = sy_ms s"
  by (simp add: publish_imu_def split: option.split prod.split)

lemma spi_tick_ok: "sys_data n s \<Longrightarrow> reading_fin r1 \<Longrightarrow> reading_fin r2 \<Longrightarrow> reading_fin r3 \<Longrightarrow>
    sys_data n (spi_tick r1 r2 r3 s)"
  unfolding spi_tick_def by (intro publish_imu_ok align_fin) simp_all

section \<open>Received frames\<close>

text \<open>The only floats that travel as such are the wheel drives' estimates.\<close>
definition frame_fin :: "can_frame \<Rightarrow> bool" where
  "frame_fin f \<longleftrightarrow> (ucast (std_sid f AND 0x1F) = ODRIVE_CMD_GET_ENCODER_EST \<longrightarrow>
     isfin (f32_read (fr_data f) 0) \<and> isfin (f32_read (fr_data f) 4))"

lemma motors_inv_upd:
  assumes "motors_inv ms" "k < 8 \<Longrightarrow> motor_fin (f (ms_motors ms ! k))"
  shows "motors_inv (upd_motor k f ms)"
  using assms
  by (cases "k < 8") (auto simp: motors_inv_def upd_motor_def list_update_beyond dest!: set_update_subset_insert [THEN subsetD])

lemma motors_inv_nth: "motors_inv ms \<Longrightarrow> k < 8 \<Longrightarrow> motor_fin (ms_motors ms ! k)"
  by (simp add: motors_inv_def)

lemma main_entry:
  "k < 6 \<Longrightarrow> me_proto (main_entries ! k) = CAN_MOTOR_RMD \<Longrightarrow> hip_id (me_id (main_entries ! k))"
  "k < 6 \<Longrightarrow> isfin (me_sign (main_entries ! k))"
proof -
  have c: "k = 0 \<or> k = 1 \<or> k = 2 \<or> k = 3 \<or> k = 4 \<or> k = 5" if "k < 6" using that by linarith
  show "k < 6 \<Longrightarrow> me_proto (main_entries ! k) = CAN_MOTOR_RMD \<Longrightarrow> hip_id (me_id (main_entries ! k))"
    by (drule c, elim disjE) (simp_all add: main_entries_def hip_id_def)
  show "k < 6 \<Longrightarrow> isfin (me_sign (main_entries ! k))"
    by (drule c, elim disjE) (simp_all add: main_entries_def)
qed

lemma motors_inv_cb:
  assumes "motors_inv ms" "cb_for main_entries cb" "frame_fin f"
  shows "motors_inv (run_motor_cb cb f ms)"
proof (cases cb)
  case (CB_RMD k)
  have len: "length main_entries = 6" by (simp add: main_entries_def)
  have hip: "hip_id (me_id (main_entries ! k))" using assms(2) CB_RMD len by (intro main_entry) (simp_all add: cb_for_def)
  define ms1 where "ms1 = upd_motor k (\<lambda>m. m\<lparr>rx_count := rx_count m + 1\<rparr>) ms"
  have ms1: "motors_inv ms1" unfolding ms1_def
    by (rule motors_inv_upd [OF assms(1)]) (use motors_inv_nth [OF assms(1)] in \<open>simp add: motor_fin_def\<close>)
  then have e: "ms_entries ms1 = main_entries" "isfin (ms_scale ms1)" by (simp_all add: motors_inv_def)
  have m: "motors_inv (upd_motor k (rmd_motion_update (ms_scale ms1) (me_id (main_entries ! k)) (fr_data f)) ms1)"
    by (rule motors_inv_upd [OF ms1]) (simp add: motor_fin_def rmd_motion_fin [OF hip e(2)])
  have st: "motors_inv (upd_motor k (rmd_status_update (fr_data f)) ms1)"
    by (rule motors_inv_upd [OF ms1]) (use motors_inv_nth [OF ms1] in \<open>simp add: motor_fin_def\<close>)
  have "rmd_rx_cb k f ms = (if fr_dlc f < 8 then ms
      else if fr_data f ! 0 = 0xA1 \<or> fr_data f ! 0 = 0xA2 then
        upd_motor k (rmd_motion_update (ms_scale ms1) (me_id (main_entries ! k)) (fr_data f)) ms1
      else if fr_data f ! 0 = 0x9A then upd_motor k (rmd_status_update (fr_data f)) ms1 else ms1)"
    by (simp add: rmd_rx_cb_def Let_def e(1) flip: ms1_def)
  then show ?thesis using assms(1) ms1 m st by (simp add: run_motor_cb_def CB_RMD)
next
  case (CB_ODRIVE k)
  have len: "length main_entries = 6" by (simp add: main_entries_def)
  have sg: "isfin (me_sign (main_entries ! k))" using assms(2) CB_ODRIVE len by (intro main_entry) (simp add: cb_for_def)
  define ms1 where "ms1 = upd_motor k (\<lambda>m. m\<lparr>rx_count := rx_count m + 1\<rparr>) ms"
  have ms1: "motors_inv ms1" unfolding ms1_def
    by (rule motors_inv_upd [OF assms(1)]) (use motors_inv_nth [OF assms(1)] in \<open>simp add: motor_fin_def\<close>)
  then have e: "ms_entries ms1 = main_entries" by (simp add: motors_inv_def)
  have m: "motors_inv (upd_motor k (odrive_estimate_update (me_sign (main_entries ! k)) (fr_data f)) ms1)"
    if "isfin (f32_read (fr_data f) 0)" "isfin (f32_read (fr_data f) 4)"
    by (rule motors_inv_upd [OF ms1])
      (use that sg in \<open>auto simp: motor_fin_def odrive_estimate_update_def Let_def PI_F_def ODRIVE_GEAR_RATIO_def elim!: isfinE\<close>)
  have hb: "motors_inv (upd_motor k (\<lambda>m. m\<lparr>mvalid := True\<rparr>) ms1)"
    by (rule motors_inv_upd [OF ms1]) (use motors_inv_nth [OF ms1] in \<open>simp add: motor_fin_def\<close>)
  have "odrive_rx_cb k f ms = (if fr_dlc f < 8 then ms
      else if ucast (std_sid f AND 0x1F) = ODRIVE_CMD_GET_ENCODER_EST then
        upd_motor k (odrive_estimate_update (me_sign (main_entries ! k)) (fr_data f)) ms1
      else if ucast (std_sid f AND 0x1F) = ODRIVE_CMD_HEARTBEAT then upd_motor k (\<lambda>m. m\<lparr>mvalid := True\<rparr>) ms1 else ms1)"
    by (simp add: odrive_rx_cb_def Let_def e flip: ms1_def)
  then show ?thesis using assms(1,3) ms1 m hb by (simp add: run_motor_cb_def CB_ODRIVE frame_fin_def)
qed (use assms(1) in \<open>simp_all add: run_motor_cb_def sdc102_rx_cb_def\<close>)

lemma run_cb_data: "sys_data n s \<Longrightarrow> cb_for main_entries cb \<Longrightarrow> frame_fin f \<Longrightarrow> sys_data n (run_cb cb f s)"
proof (cases cb)
  case CB_IMX5
  assume "sys_data n s"
  then show ?thesis using imx5.run_inv [OF TrueI, of "sy_can_imu s" f]
    by (simp add: CB_IMX5 run_cb_def sys_data_def)
next
  case CB_MATEK
  assume "sys_data n s"
  then show ?thesis by (simp add: CB_MATEK run_cb_def sys_data_def)
qed (simp_all add: run_cb_def sys_data_def motors_inv_cb)

definition run_cb_fin :: "can_cb \<Rightarrow> can_frame \<Rightarrow> sys \<Rightarrow> sys" where
  "run_cb_fin cb f s = (if frame_fin f then run_cb cb f s else s)"

interpretation rx: can_handlers run_cb_fin "cb_for main_entries" "sys_data n" for n
  by unfold_locales (simp add: run_cb_fin_def run_cb_data)

text \<open>The invariant together with that of the handler tables.\<close>
definition sys_inv :: "nat \<Rightarrow> sys \<Rightarrow> bool" where
  "sys_inv n s \<longleftrightarrow> sys_data n s \<and> rx.table_ok (ms_can (sy_ms s))"

lemma dispatch_fin: "frame_fin f \<Longrightarrow> can_dispatch run_cb_fin b f cs = can_dispatch run_cb b f cs"
proof -
  assume f: "frame_fin f"
  have "dispatch_loop run_cb_fin e i f devs ms = dispatch_loop run_cb e i f devs ms" for e i devs ms
    using f by (induction devs arbitrary: ms) (simp_all add: run_cb_fin_def)
  then show ?thesis by (simp add: can_dispatch_def)
qed

lemma set_can_inv: "sys_data n s \<Longrightarrow> rx.table_ok c \<Longrightarrow> sys_inv n (set_can c s)"
  by (simp add: sys_inv_def set_can_def sys_data_def motors_inv_def)

definition frame_opt_fin :: "can_frame option \<Rightarrow> bool" where
  "frame_opt_fin r = (case r of None \<Rightarrow> True | Some f \<Rightarrow> frame_fin f)"

lemma receive_inv: "sys_inv n s \<Longrightarrow> frame_opt_fin r \<Longrightarrow> sys_inv n (receive b r s)"
proof (cases r)
  case (Some f)
  assume s: "sys_inv n s" and "frame_opt_fin r"
  then have f: "frame_fin f" by (simp add: Some frame_opt_fin_def)
  obtain c s' where cs: "can_dispatch run_cb b f (ms_can (sy_ms s), s) = (c, s')" by (rule prod.exhaust)
  have "rx.table_ok c" "sys_data n s'"
    using rx.dispatch_inv [of "ms_can (sy_ms s)" n s b f] s f cs by (simp_all add: sys_inv_def dispatch_fin)
  then show ?thesis by (simp add: receive_def Some cs set_can_inv)
qed (simp add: receive_def)

lemma table_ok_same: "can_table c' = can_table c \<Longrightarrow> rx.table_ok c \<Longrightarrow> rx.table_ok c'"
  by (simp add: rx.table_ok_def)

lemma check_busoff_table [simp]: "can_table (snd (can_check_busoff b p e r c)) = can_table c"
  by (simp add: can_check_busoff_def Let_def)

lemma check_busoff_inv: "sys_inv n s \<Longrightarrow> sys_inv n (check_busoff b regs s)"
  by (cases regs) (auto simp: check_busoff_def sys_inv_def intro!: set_can_inv [unfolded sys_inv_def] intro: table_ok_same)

lemma can_tick_inv: "sys_inv n s \<Longrightarrow> frame_opt_fin r1 \<Longrightarrow> frame_opt_fin r2 \<Longrightarrow> sys_inv n (can_tick r1 g1 r2 g2 s)"
  unfolding can_tick_def by (intro check_busoff_inv receive_inv)

section \<open>The estimator and the radio\<close>

lemma take_can_imu_fin:
  assumes "imu_fin (sy_can_imu s)"
  shows "imu_fin (fst (take_can_imu s))"
    "\<exists>c t. imu_fin c \<and> snd (take_can_imu s) = s\<lparr>sy_can_imu := c, sy_can_stale := t\<rparr>"
proof -
  have fin: "imu_fin (sy_can_imu s\<lparr>ci_has_new_quat := a, ci_has_new_rates := b\<rparr>)"
    "imu_fin (sy_can_imu s\<lparr>ci_has_new_quat := a, ci_has_new_rates := b, ci_valid := v\<rparr>)"
    "imu_fin (sy_can_imu s\<lparr>ci_valid := v\<rparr>)" for a b v
    using assms by (simp_all add: imu_fin_def)
  show "imu_fin (fst (take_can_imu s))" using assms fin(3) by (simp add: take_can_imu_def Let_def)
  have "snd (take_can_imu s) =
     (if ci_has_new_quat (sy_can_imu s) \<or> ci_has_new_rates (sy_can_imu s)
      then s\<lparr>sy_can_imu := sy_can_imu s\<lparr>ci_has_new_quat := False, ci_has_new_rates := False\<rparr>, sy_can_stale := 0\<rparr>
      else if CAN_TIMEOUT_TICKS < sy_can_stale s + 1
      then s\<lparr>sy_can_imu := sy_can_imu s\<lparr>ci_has_new_quat := False, ci_has_new_rates := False, ci_valid := False\<rparr>,
             sy_can_stale := sy_can_stale s + 1\<rparr>
      else s\<lparr>sy_can_imu := sy_can_imu s\<lparr>ci_has_new_quat := False, ci_has_new_rates := False\<rparr>,
             sy_can_stale := sy_can_stale s + 1\<rparr>)"
    by (simp add: take_can_imu_def Let_def)
  note e = this
  show "\<exists>c t. imu_fin c \<and> snd (take_can_imu s) = s\<lparr>sy_can_imu := c, sy_can_stale := t\<rparr>"
  proof (cases "ci_has_new_quat (sy_can_imu s) \<or> ci_has_new_rates (sy_can_imu s)")
    case True
    show ?thesis unfolding e if_P [OF True] by (rule exI, rule exI, rule conjI [rotated], rule refl, rule fin(1))
  next
    case False
    show ?thesis unfolding e if_not_P [OF False]
    proof (cases "CAN_TIMEOUT_TICKS < sy_can_stale s + 1")
      case True
      show "\<exists>c t. imu_fin c \<and> (if CAN_TIMEOUT_TICKS < sy_can_stale s + 1
          then s\<lparr>sy_can_imu := sy_can_imu s\<lparr>ci_has_new_quat := False, ci_has_new_rates := False, ci_valid := False\<rparr>,
             sy_can_stale := sy_can_stale s + 1\<rparr>
          else s\<lparr>sy_can_imu := sy_can_imu s\<lparr>ci_has_new_quat := False, ci_has_new_rates := False\<rparr>,
             sy_can_stale := sy_can_stale s + 1\<rparr>) = s\<lparr>sy_can_imu := c, sy_can_stale := t\<rparr>"
        unfolding if_P [OF True] by (rule exI, rule exI, rule conjI [rotated], rule refl, rule fin(2))
    next
      case False
      show "\<exists>c t. imu_fin c \<and> (if CAN_TIMEOUT_TICKS < sy_can_stale s + 1
          then s\<lparr>sy_can_imu := sy_can_imu s\<lparr>ci_has_new_quat := False, ci_has_new_rates := False, ci_valid := False\<rparr>,
             sy_can_stale := sy_can_stale s + 1\<rparr>
          else s\<lparr>sy_can_imu := sy_can_imu s\<lparr>ci_has_new_quat := False, ci_has_new_rates := False\<rparr>,
             sy_can_stale := sy_can_stale s + 1\<rparr>) = s\<lparr>sy_can_imu := c, sy_can_stale := t\<rparr>"
        unfolding if_not_P [OF False] by (rule exI, rule exI, rule conjI [rotated], rule refl, rule fin(1))
    qed
  qed
qed

lemma est_thread_inv:
  assumes "sys_inv n s" "Suc n \<le> 9900000"
  shows "sys_inv (Suc n) (est_thread_tick est_dt s)"
proof -
  have d: "sys_data n s" and tab: "rx.table_ok (ms_can (sy_ms s))" using assms(1) by (simp_all add: sys_inv_def)
  have cf: "imu_fin (sy_can_imu s)" using d by (simp add: sys_data_def)
  obtain can s1 where t1: "take_can_imu s = (can, s1)" by (rule prod.exhaust)
  obtain c t where s1: "imu_fin c" "s1 = s\<lparr>sy_can_imu := c, sy_can_stale := t\<rparr>" and can: "imu_fin can"
    using take_can_imu_fin [OF cf] by (auto simp: t1)
  define s2 where "s2 = s1\<lparr>sy_mocap := (sy_mocap s1)\<lparr>mc_has_new := False\<rparr>\<rparr>"
  define hips where "hips = map (\<lambda>i. motor_snap i (sy_ms s)) [1, 2, 3, 4]"
  define wheels where "wheels = map (\<lambda>i. motor_snap i (sy_ms s)) [5, 6]"
  define i where "i = \<lparr>ei_dt = est_dt, ei_imu = sy_imu s, ei_can = can, ei_mocap = sy_mocap s, ei_hips = hips, ei_wheels = wheels\<rparr>"
  define mgr where "mgr = est_tick i (sy_mgr s)"
  have m: "motors_inv (sy_ms s)" using d by (simp add: sys_data_def)
  have "est_in_fin i"
    using d can motor_snap_fin [OF m]
    by (simp add: est_in_fin_def i_def hips_def wheels_def sys_data_def imus_fin_def mocap_fin_def est_dt_def EST_PERIOD_def)
  then have mgr: "est_inv (Suc n) mgr" unfolding mgr_def
    using est_tick_ok [of n "sy_mgr s" i] d assms(2) by (simp add: sys_data_def)
  have "est_thread_tick est_dt s = s2\<lparr>sy_mgr := mgr, sy_state := get_state mgr,
      sy_euler := (sm_roll mgr, sm_pitch mgr, sm_yaw mgr),
      sy_tel := telemetry_update (get_state mgr) mgr hips wheels (px_power (sy_power s))\<rparr>"
    by (simp add: est_thread_tick_def t1 take_mocap_def s2_def s1(2) mgr_def i_def est_tick_def hips_def wheels_def Let_def)
  then show ?thesis
    using d tab mgr get_state_fin [OF mgr] s1(1)
    by (simp add: sys_inv_def sys_data_def s2_def s1(2) mocap_fin_def)
qed

lemma radio_fin [simp]: "isfin (radio_yaw_stick sb)" "isfin (radio_vel_tgt sb)" "isfin (radio_height_set sb)"
  "isfin (radio_leanover sb)" "isfin (radio_mode_sw sb)"
  by (simp_all add: radio_yaw_stick_def radio_vel_tgt_def radio_height_set_def radio_leanover_def radio_mode_sw_def
      norm_axis_eq)

lemma radio_tick_input: "length (sy_input s) = 5 \<Longrightarrow> \<exists>sb h. sy_input (radio_tick rx s) =
    [radio_yaw_stick sb, radio_vel_tgt sb, if h then Fin 0 else radio_height_set sb, radio_leanover sb, radio_mode_sw sb]"
proof -
  assume len: "length (sy_input s) = 5"
  have upd: "xs[0 := a, 1 := b, 2 := c, 3 := d, 4 := e] = [a, b, c, d, e]" if "length xs = 5" for xs :: "flt list" and a b c d e
    using that by (auto simp: numeral_eq_Suc length_Suc_conv)
  show ?thesis unfolding radio_tick_def idx_defs
    by (simp add: Let_def case_prod_beta upd [OF len, unfolded One_nat_def]) blast
qed

lemma radio_tick_inv: "sys_inv n s \<Longrightarrow> sys_inv n (radio_tick rx s)"
proof -
  assume s: "sys_inv n s"
  then have len: "length (sy_input s) = 5" by (simp add: sys_inv_def sys_data_def inp_fin_def N_INPUTS_def)
  have i: "inp_fin (sy_input (radio_tick rx s))"
    using radio_tick_input [OF len, of rx] by (auto simp: inp_fin_def N_INPUTS_def)
  have f: "sy_imu (radio_tick rx s) = sy_imu s" "sy_can_imu (radio_tick rx s) = sy_can_imu s"
    "sy_mocap (radio_tick rx s) = sy_mocap s" "sy_cal (radio_tick rx s) = sy_cal s" "sy_state (radio_tick rx s) = sy_state s"
    "sy_mgr (radio_tick rx s) = sy_mgr s" "sy_rsm (radio_tick rx s) = sy_rsm s" "sy_test (radio_tick rx s) = sy_test s"
    "sy_ctl (radio_tick rx s) = sy_ctl s" "sy_torques (radio_tick rx s) = sy_torques s" "sy_ms (radio_tick rx s) = sy_ms s"
    by (simp_all add: radio_tick_def Let_def case_prod_beta)
  show ?thesis using s i unfolding sys_inv_def sys_data_def f by simp
qed

section \<open>The motors\<close>

lemma motors_keep_inv: "rx.table_ok (ms_can a) \<Longrightarrow> motors_inv a \<Longrightarrow> ms_keep a b \<Longrightarrow> rx.table_ok (ms_can b) \<and> motors_inv b"
  using motors_inv_keep table_ok_same by (metis ms_keep_def)

lemma rsm_update_ok:
  assumes "rsm_ok r" "motors_inv ms" "st_fin st" "inp_fin inp"
  shows "rsm_ok (snd (snd (rsm_update cfg clk st inp armed (ms, r)))) \<and>
    length (fst (rsm_update cfg clk st inp armed (ms, r))) = 6 \<and>
    (\<forall>t \<in> set (fst (rsm_update cfg clk st inp armed (ms, r))). fin_le 9 t)"
proof -
  define i where "i = (clk, ms, st, inp, armed)"
  have e: "rsm_step cfg i r = (fst (rsm_update cfg clk st inp armed (ms, r)), snd (snd (rsm_update cfg clk st inp armed (ms, r))))"
    by (simp add: rsm_step_def i_def case_prod_beta)
  have "rsm_in_fin i" using assms motors_inv_fin by (simp add: rsm_in_fin_def i_def tick_fin_def)
  from rsm_step_ok [OF assms(1) this, of cfg] rsm_step_six [of cfg i r] show ?thesis by (simp add: e)
qed

lemma control_compute_inv:
  assumes "sys_inv n s"
  shows "sys_inv n (snd (control_compute cfg clk now s)) \<and> torques_ok (fst (control_compute cfg clk now s))"
proof -
  have d: "sys_data n s" and tab: "rx.table_ok (ms_can (sy_ms s))" using assms by (simp_all add: sys_inv_def)
  then have s: "motors_inv (sy_ms s)" "rsm_ok (sy_rsm s)" "test_ok (sy_test s)" "st_fin (sy_state s)" "inp_fin (sy_input s)"
    by (simp_all add: sys_data_def)
  have "\<exists>ts ms r m. control_compute cfg clk now s = (actuator_apply ms ts, s\<lparr>sy_ms := ms, sy_rsm := r, sy_test := m\<rparr>) \<and>
      ms_keep (sy_ms s) ms \<and> rsm_ok r \<and> test_ok m \<and> length ts = 6 \<and> (\<forall>t \<in> set ts. fin_le 9 t)"
  proof -
    define ms1 where "ms1 = (if mt_active (sy_test s) then fst (motor_test_stop (sy_ms s) (sy_test s)) else sy_ms s)"
    define m1 where "m1 = (if mt_active (sy_test s) then snd (motor_test_stop (sy_ms s) (sy_test s)) else sy_test s)"
    have k: "ms_keep (sy_ms s) ms1" unfolding ms1_def using keep_test(1) [OF ms_keep_refl] by simp
    have m1: "test_ok m1" unfolding m1_def using motor_test_start_stop_ok(1) [OF s(3,1)] s(3) by simp
    define u where "u = rsm_update cfg clk (sy_state s) (sy_input s) (sy_armed s) (ms1, sy_rsm s)"
    have u: "rsm_ok (snd (snd u))" "length (fst u) = 6" "\<forall>t \<in> set (fst u). fin_le 9 t" "ms_keep (sy_ms s) (fst (snd u))"
      using rsm_update_ok [OF s(2) motors_inv_keep [OF s(1) k] s(4,5)] keep_rsm_update [OF k] by (simp_all add: u_def)
    define v where "v = motor_test_update now (sy_ms s) (sy_test s)"
    have v: "test_ok (snd v)" "length (fst v) = 6" "\<forall>t \<in> set (fst v). fin_le 9 t"
      using motor_test_update_ok [OF s(3,1), of now] by (simp_all add: v_def)
    have "control_compute cfg clk now s =
      (if mt_active (sy_test s) \<and> \<not> sy_armed s
       then (actuator_apply (sy_ms s) (fst v), s\<lparr>sy_ms := sy_ms s, sy_rsm := sy_rsm s, sy_test := snd v\<rparr>)
       else (actuator_apply (fst (snd u)) (fst u), s\<lparr>sy_ms := fst (snd u), sy_rsm := snd (snd u), sy_test := m1\<rparr>))"
      by (simp add: control_compute_def Let_def case_prod_beta u_def v_def ms1_def m1_def)
    then show ?thesis using u v m1 s(2) ms_keep_refl [of "sy_ms s"] by (cases "mt_active (sy_test s) \<and> \<not> sy_armed s") metis+
  qed
  then obtain ts ms r m where c: "control_compute cfg clk now s = (actuator_apply ms ts, s\<lparr>sy_ms := ms, sy_rsm := r, sy_test := m\<rparr>)"
    "ms_keep (sy_ms s) ms" "rsm_ok r" "test_ok m" "length ts = 6" "\<forall>t \<in> set ts. fin_le 9 t" by blast
  note mm = motors_keep_inv [OF tab s(1) c(2)]
  have "torques_ok (actuator_apply ms ts)" using mm c(5,6) by (intro actuator_apply_ok) auto
  then show ?thesis using d mm c by (simp add: sys_inv_def sys_data_def)
qed

lemma control_tick_inv: "sys_inv n s \<Longrightarrow> sys_inv n (control_tick cfg period clk now s)"
proof -
  assume s: "sys_inv n s"
  define c where "c = (if ct_tick (sy_ctl s) mod compute_divisor period = 0 then control_compute cfg clk now s
      else (ct_torques (sy_ctl s), s))"
  have c: "sys_inv n (snd c)" "torques_ok (fst c)"
    using control_compute_inv [OF s, of cfg clk now] s by (auto simp: c_def sys_inv_def sys_data_def)
  define ms1 where "ms1 = snd (can_motor_set_hip_torques_broadcast (take 4 (fst c)) (sy_ms (snd c)))"
  have k1: "ms_keep (sy_ms (snd c)) ms1"
    using keep_broadcast [OF ms_keep_refl [of "sy_ms (snd c)"]] by (simp add: ms1_def)
  have e: "control_tick cfg period clk now s = (let poll = ct_poll (sy_ctl s) + 1;
      (ms, poll) = (if poll \<ge> 100 then (can_motor_poll_status_round_robin ms1, 0) else (ms1, poll))
     in (snd c)\<lparr>sy_ms := ms, sy_torques := fst c,
          sy_ctl := \<lparr>ct_torques = fst c, ct_tick = ct_tick (sy_ctl s) + 1, ct_poll = poll\<rparr>\<rparr>)"
    by (simp add: control_tick_def Let_def case_prod_beta c_def ms1_def)
  have "\<exists>ms ct. control_tick cfg period clk now s = (snd c)\<lparr>sy_ms := ms, sy_torques := fst c, sy_ctl := ct\<rparr> \<and>
      ct_torques ct = fst c \<and> ms_keep (sy_ms (snd c)) ms"
  proof (cases "100 \<le> ct_poll (sy_ctl s) + 1")
    case True
    show ?thesis unfolding e using True k1 keep_poll [OF k1]
      by (intro exI [of _ "can_motor_poll_status_round_robin ms1"]
        exI [of _ "\<lparr>ct_torques = fst c, ct_tick = ct_tick (sy_ctl s) + 1, ct_poll = 0\<rparr>"]) simp
  next
    case False
    show ?thesis unfolding e using False k1
      by (intro exI [of _ ms1]
        exI [of _ "\<lparr>ct_torques = fst c, ct_tick = ct_tick (sy_ctl s) + 1, ct_poll = ct_poll (sy_ctl s) + 1\<rparr>"]) simp
  qed
  then obtain ms ct where t: "control_tick cfg period clk now s = (snd c)\<lparr>sy_ms := ms, sy_torques := fst c, sy_ctl := ct\<rparr>"
    "ct_torques ct = fst c" "ms_keep (sy_ms (snd c)) ms" by blast
  have "rx.table_ok (ms_can ms) \<and> motors_inv ms" using c(1) t(3) by (intro motors_keep_inv) (auto simp: sys_inv_def sys_data_def)
  then show ?thesis using c t by (simp add: sys_inv_def sys_data_def)
qed

lemma wheel_send_keep: "ms_keep (sy_ms s) (sy_ms (wheel_send_tick cfg s))"
  by (simp add: wheel_send_tick_def Let_def keep_set_torque keep_set_velocity)

lemma wheel_send_frame: "wheel_send_tick cfg s = s\<lparr>sy_ms := sy_ms (wheel_send_tick cfg s)\<rparr>"
  by (simp add: wheel_send_tick_def Let_def)

lemma set_ms_inv: "sys_inv n s \<Longrightarrow> ms_keep (sy_ms s) ms \<Longrightarrow> sys_inv n (s\<lparr>sy_ms := ms\<rparr>)"
  using motors_keep_inv [of "sy_ms s" ms] by (simp add: sys_inv_def sys_data_def)

lemma wheel_send_inv: "sys_inv n s \<Longrightarrow> sys_inv n (wheel_send_tick cfg s)"
  by (subst wheel_send_frame) (rule set_ms_inv [OF _ wheel_send_keep])

lemma logger_inv: "sys_inv n s \<Longrightarrow> sys_inv n (s\<lparr>sy_logger := l\<rparr>)"
  by (simp add: sys_inv_def sys_data_def)

end
