(* ===== verification/SystemRun.thy ===== *)
theory SystemRun
  imports SystemInv
begin

text \<open>
  Whole runs of the firmware: the commands of the USB port keep the invariant, the start-up
  establishes it, and so every interleaving of the threads does.  What follows for the torques, the
  published state, the arm switch and the bench test.
\<close>

section \<open>Commands\<close>

text \<open>What a command may touch: the motors' bus, the bench test and the calibration.\<close>
definition usb_keep :: "sys \<Rightarrow> sys \<Rightarrow> bool" where
  "usb_keep s s' \<longleftrightarrow> sy_imu s' = sy_imu s \<and> sy_can_imu s' = sy_can_imu s \<and> sy_mocap s' = sy_mocap s \<and>
     sy_state s' = sy_state s \<and> sy_input s' = sy_input s \<and> sy_mgr s' = sy_mgr s \<and> sy_rsm s' = sy_rsm s \<and>
     sy_ctl s' = sy_ctl s \<and> sy_torques s' = sy_torques s \<and> sy_armed s' = sy_armed s \<and> sy_sbus s' = sy_sbus s \<and>
     sy_radio s' = sy_radio s \<and> sy_line s' = sy_line s \<and> ms_keep (sy_ms s) (sy_ms s') \<and>
     (motors_inv (sy_ms s) \<longrightarrow> test_ok (sy_test s) \<longrightarrow> test_ok (sy_test s'))"

lemma usb_keep_refl [simp]: "usb_keep s s"
  by (simp add: usb_keep_def)

lemma usb_keep_stage: "usb_keep s (s\<lparr>sy_cal_stage := d\<rparr>)"
  "usb_keep s (s\<lparr>sy_flash := fl\<rparr>)" "usb_keep s (s\<lparr>sy_flash := fl, sy_cal := d, sy_cal_valid := v\<rparr>)"
  by (simp_all add: usb_keep_def)

lemma usb_keep_set: "usb_keep s (snd (usb_cal_set args s))"
  unfolding usb_cal_set_def Let_def by (simp add: usb_keep_stage split: option.split)

lemma usb_keep_commit: "usb_keep s (snd (usb_cal_commit env s))"
  unfolding usb_cal_commit_def Let_def by (simp add: usb_keep_stage split: prod.split)

lemma usb_keep_cal: "usb_keep s (snd (usb_cal_cmd env rest s))"
  unfolding usb_cal_cmd_def usb_cal_clear_def by (simp add: usb_keep_stage usb_keep_set usb_keep_commit)

lemma usb_keep_can: "can_table c = can_table (ms_can (sy_ms s)) \<Longrightarrow> usb_keep s (set_can c s)"
  by (simp add: usb_keep_def set_can_def ms_keep_def)

lemma usb_keep_scan: "usb_keep s (set_can (can_scan_start (ms_can (sy_ms s))) s)" "usb_keep s (snd (usb_scan_stop s))"
  by (simp_all add: usb_keep_can can_scan_start_def usb_scan_stop_def can_scan_stop_def Let_def)

lemma usb_keep_request: "usb_keep s (snd (usb_motor_request args s))"
  by (auto simp: usb_motor_request_def Let_def case_prod_beta usb_keep_def keep_request split: option.split)

lemma usb_keep_test_start: "usb_keep s (snd (usb_motor_test_start i s))"
  by (simp add: usb_motor_test_start_def Let_def case_prod_beta usb_keep_def keep_test motor_test_start_stop_ok)

lemma usb_keep_test_stop: "usb_keep s (snd (usb_motor_test_stop s))"
  by (simp add: usb_motor_test_stop_def Let_def case_prod_beta usb_keep_def keep_test motor_test_start_stop_ok)

lemma usb_keep_test: "usb_keep s (snd (usb_motor_test rest s))"
  by (auto simp: usb_motor_test_def Let_def usb_keep_test_start usb_keep_test_stop split: option.split)

lemma usb_dispatch_keep: "usb_cmd_dispatch env l s = Some (os, s') \<Longrightarrow> usb_keep s s'"
proof -
  have snd_keep: "r = (os, s') \<Longrightarrow> usb_keep s (snd r) \<Longrightarrow> usb_keep s s'" for r by simp
  show "usb_cmd_dispatch env l s = Some (os, s') \<Longrightarrow> usb_keep s s'"
    unfolding usb_cmd_dispatch_def
    by (auto split: if_splits intro: usb_keep_scan
        snd_keep [OF _ usb_keep_cal] snd_keep [OF _ usb_keep_request] snd_keep [OF _ usb_keep_test]
        snd_keep [OF _ usb_keep_scan(2)])
qed

lemma usb_keep_inv:
  assumes "sys_inv n s" "usb_keep s s'" "cal_fin (sy_cal s')"
  shows "sys_inv n s'"
  using assms motors_keep_inv [of "sy_ms s" "sy_ms s'"] by (simp add: sys_inv_def sys_data_def usb_keep_def)

lemma usb_byte_cases:
  assumes "usb_byte env c s = Some (os, s')"
  shows "usb_keep (s\<lparr>sy_line := snd (usb_reader c (sy_line s))\<rparr>) s'"
  using assms usb_dispatch_keep by (auto simp: usb_byte_def Let_def case_prod_beta split: option.splits)

section \<open>Start-up\<close>

lemma table_ok_sent: "rx.table_ok (ms_can ms) \<Longrightarrow> rx.table_ok (ms_can (odrive_init_axis i ms))"
  by (rule table_ok_same) (use keep_odrive(3,4) ms_keep_def in \<open>auto simp: odrive_init_axis_def Let_def\<close>)

lemma register_ok:
  assumes "rx.table_ok (ms_can ms)" "cb_for main_entries (CB_RMD (length (ms_entries ms))) \<or> proto \<noteq> CAN_MOTOR_RMD"
    "cb_for main_entries (CB_ODRIVE (length (ms_entries ms))) \<or> proto \<noteq> CAN_MOTOR_ODRIVE"
  shows "rx.table_ok (ms_can (can_motor_register i proto k sg ms))"
  using assms
  by (cases proto)
    (auto simp: can_motor_register_def Let_def ms_register_def cb_for_def intro!: rx.table_ok_register table_ok_sent)

lemma register_entries: "length (ms_entries ms) < 8 \<Longrightarrow>
    length (ms_entries (can_motor_register i proto k sg ms)) = Suc (length (ms_entries ms))"
proof -
  have "ms_entries (odrive_init_axis j ms') = ms_entries ms'" for j ms'
    using keep_odrive(3,4) by (auto simp: odrive_init_axis_def Let_def ms_keep_def)
  then show "length (ms_entries ms) < 8 \<Longrightarrow>
    length (ms_entries (can_motor_register i proto k sg ms)) = Suc (length (ms_entries ms))"
    by (simp add: can_motor_register_def Let_def CAN_MOTOR_MAX_def ms_register_def split: can_motor_proto.split)
qed

lemma main_motors_table: "rx.table_ok c \<Longrightarrow> rx.table_ok (ms_can (main_motors (motorsys_new c)))"
proof -
  assume c: "rx.table_ok c"
  have k: "cb_for main_entries (CB_RMD 0)" "cb_for main_entries (CB_RMD (Suc 0))" "cb_for main_entries (CB_RMD (Suc (Suc 0)))"
    "cb_for main_entries (CB_RMD (Suc (Suc (Suc 0))))" "cb_for main_entries (CB_ODRIVE (Suc (Suc (Suc (Suc 0)))))"
    "cb_for main_entries (CB_ODRIVE (Suc (Suc (Suc (Suc (Suc 0))))))"
    by (simp_all add: cb_for_def main_entries_def)
  show ?thesis unfolding main_motors_def
    by (intro register_ok) (use c k in \<open>simp_all add: register_entries motorsys_new_def\<close>)
qed

lemma cal_fin_zero: "cal_fin calib_zero"
proof -
  have "isfin (f32_of_bits 0)" by (simp add: f32_of_bits_def f32_sign_def f32_mag_def)
  then show ?thesis by (auto simp: cal_fin_def calib_zero_def cal_bias_def fin3_def numeral_3_eq_3 less_Suc_eq)
qed

lemma boot_inv: "cal_fin (sy_cal (boot ans flash)) \<Longrightarrow> sys_inv 0 (boot ans flash)"
proof -
  assume cal: "cal_fin (sy_cal (boot ans flash))"
  define c where "c = power_mon_init CB_MATEK (can_drv_init CB_IMX5 (can_new ans))"
  have "cb_for main_entries CB_IMX5" "cb_for main_entries CB_MATEK" by (simp_all add: cb_for_def)
  then have "rx.table_ok c" unfolding c_def power_mon_init_def can_drv_init_def Let_def
    by (intro rx.table_ok_register rx.table_ok_new)
  note tab = main_motors_table [OF this]
  have st: "st_fin (replicate ST_N (Fin 0))" "inp_fin (replicate N_INPUTS (Fin 0))"
    by (simp_all add: st_fin_def inp_fin_def)
  have tq: "torques_ok (replicate 6 (Fin 0))" by (simp add: torques_ok_def)
  have test: "test_ok motor_test_new"
    by (simp add: test_ok_def motor_test_new_def sweep_ok_def pid_new_ok)
  have "sys_inv 0 (start_up ans flash)" unfolding sys_inv_def sys_data_def
    using tab cal_fin_zero st tq test sm_init_inv [of sm_new] rsm_new_ok motors_inv_main [of c]
    by (simp add: start_up_def c_def imus_fin_def imu_zero_def can_imu_zero_def imu_fin_def mocap_fin_def fin3_def)
  then show ?thesis using cal
    by (simp add: boot_def spi_start_def sys_inv_def sys_data_def split: option.splits)
qed

lemma est_inv_mono: "est_inv n m \<Longrightarrow> n \<le> k \<Longrightarrow> est_inv k m"
proof -
  have s: "est_inv (Suc i) m" if "est_inv i m" for i
    using that run_inv_Suc by (auto simp: est_inv_def lane_ok_def)
  show "est_inv n m \<Longrightarrow> n \<le> k \<Longrightarrow> est_inv k m"
    by (rotate_tac 1, induction k rule: dec_induct) (simp_all add: s)
qed

lemma sys_inv_mono: "sys_inv n s \<Longrightarrow> n \<le> k \<Longrightarrow> sys_inv k s"
  using est_inv_mono [of n "sy_mgr s" k] by (simp add: sys_inv_def sys_data_def)

section \<open>Runs\<close>

text \<open>What is asked of the world: the sensors answer numbers, the wheel drives' estimates are
numbers, and so is the calibration in force.\<close>
fun event_ok :: "balance_ctrl \<Rightarrow> event \<Rightarrow> sys \<Rightarrow> bool" where
  "event_ok cfg (E_spi r1 r2 r3) s = (reading_fin r1 \<and> reading_fin r2 \<and> reading_fin r3)"
| "event_ok cfg (E_can r1 g1 r2 g2) s = (frame_opt_fin r1 \<and> frame_opt_fin r2)"
| "event_ok cfg (E_usb env c) s = cal_fin (sy_cal (usb_step env c s))"
| "event_ok cfg _ s = True"

fun run_ok :: "balance_ctrl \<Rightarrow> event list \<Rightarrow> sys \<Rightarrow> bool" where
  "run_ok cfg [] s = True"
| "run_ok cfg (e # es) s = (event_ok cfg e s \<and> run_ok cfg es (step cfg e s))"

definition est_ticks :: "event list \<Rightarrow> nat" where
  "est_ticks es = length (filter (\<lambda>e. e = E_est) es)"

lemma usb_step_inv: "sys_inv n s \<Longrightarrow> cal_fin (sy_cal (usb_step env c s)) \<Longrightarrow> sys_inv n (usb_step env c s)"
proof (cases "usb_byte env c s")
  case (Some p)
  assume s: "sys_inv n s" and cal: "cal_fin (sy_cal (usb_step env c s))"
  obtain os s' where p: "usb_byte env c s = Some (os, s')" using Some by (cases p) simp
  have s1: "sys_inv n (s\<lparr>sy_line := snd (usb_reader c (sy_line s))\<rparr>)"
    using s by (simp add: sys_inv_def sys_data_def)
  show ?thesis
  proof (cases "Reset \<in> set os")
    case True
    then have "usb_step env c s = boot (can_answer (ms_can (sy_ms s'))) (sy_flash s')" by (simp add: usb_step_def p)
    then show ?thesis using boot_inv cal sys_inv_mono by (metis le0)
  next
    case False
    then show ?thesis using usb_keep_inv [OF s1 usb_byte_cases [OF p]] cal by (simp add: usb_step_def p)
  qed
qed (simp add: usb_step_def)

lemma step_inv:
  assumes "sys_inv n s" "event_ok cfg e s" "n + est_ticks [e] \<le> 9900000"
  shows "sys_inv (n + est_ticks [e]) (step cfg e s)"
proof (cases e)
  case (E_spi r1 r2 r3)
  then show ?thesis using assms spi_tick_ok [of n s r1 r2 r3]
    by (simp add: est_ticks_def sys_inv_def spi_tick_def)
next
  case (E_can r1 g1 r2 g2)
  then show ?thesis using assms by (simp add: est_ticks_def can_tick_inv)
next
  case E_est
  then show ?thesis using assms est_thread_inv [of n s] by (simp add: est_ticks_def)
next
  case (E_control clk now)
  then show ?thesis using assms by (simp add: est_ticks_def control_tick_inv)
next
  case E_wheel
  then show ?thesis using assms by (simp add: est_ticks_def wheel_send_inv)
next
  case (E_radio rx)
  then show ?thesis using assms by (simp add: est_ticks_def radio_tick_inv)
next
  case (E_usb env c)
  then show ?thesis using assms by (simp add: est_ticks_def usb_step_inv)
next
  case (E_log_init a)
  then show ?thesis using assms by (simp add: est_ticks_def logger_inv)
next
  case (E_log t wr)
  then show ?thesis using assms by (simp add: est_ticks_def log_tick_def logger_inv)
qed

lemma est_ticks_Cons: "est_ticks (e # es) = est_ticks [e] + est_ticks es"
  by (simp add: est_ticks_def)

lemma sys_run_inv:
  "sys_inv n s \<Longrightarrow> run_ok cfg es s \<Longrightarrow> n + est_ticks es \<le> 9900000 \<Longrightarrow> sys_inv (n + est_ticks es) (run cfg es s)"
proof (induction es arbitrary: s n)
  case (Cons e es)
  note c = est_ticks_Cons [of e es]
  have "sys_inv (n + est_ticks [e]) (step cfg e s)" using Cons.prems c by (intro step_inv) simp_all
  from Cons.IH [OF this] Cons.prems c show ?case by (simp add: add.assoc)
qed (simp add: est_ticks_def)

section \<open>The radio link\<close>

text \<open>What only the radio thread writes.\<close>
definition link :: "sys \<Rightarrow> sbus \<times> radio_thr \<times> bool \<times> flt list" where
  "link s = (sy_sbus s, sy_radio s, sy_armed s, sy_input s)"

lemma link_callback: "link (run_cb cb f s) = link s"
  by (simp add: run_cb_def link_def split: can_cb.split)

lemma link_dispatch: "link (snd (can_dispatch run_cb b f (c, s))) = link s"
proof -
  have "link (fold (\<lambda>d. run_cb (dev_callback d) f) devs s) = link s" for devs :: "can_cb can_device list" and s
    by (induction devs arbitrary: s) (simp_all add: link_callback)
  then show ?thesis by (simp add: can_dispatch_sel)
qed

lemma link_set_can [simp]: "link (set_can c s) = link s"
  by (simp add: link_def set_can_def)

lemma link_receive: "link (receive b rx s) = link s"
  using link_dispatch by (auto simp: receive_def case_prod_beta split: option.split)

lemma link_can: "link (can_tick r1 g1 r2 g2 s) = link s"
  by (simp add: can_tick_def check_busoff_def link_receive case_prod_beta)

lemma link_spi: "link (spi_tick r1 r2 r3 s) = link s"
proof -
  have "link (publish_imu i al r s) = link s" for i al r s
    by (simp add: publish_imu_def link_def split: option.split prod.split)
  then show ?thesis by (simp add: spi_tick_def)
qed

lemma link_est: "link (est_thread_tick dt s) = link s"
proof -
  have "link (snd (take_can_imu s)) = link s"
    by (simp add: take_can_imu_def Let_def link_def)
  then show ?thesis by (simp add: est_thread_tick_def take_mocap_def Let_def case_prod_beta link_def)
qed

lemma link_compute: "link (snd (control_compute cfg clk now s)) = link s"
  by (simp add: control_compute_def Let_def case_prod_beta link_def)

lemma link_control: "link (control_tick cfg period clk now s) = link s"
  using link_compute [of cfg clk now s] by (simp add: control_tick_def Let_def case_prod_beta link_def)

lemma link_wheel: "link (wheel_send_tick cfg s) = link s"
  by (subst wheel_send_frame) (simp add: link_def)

lemma link_log: "link (s\<lparr>sy_logger := l\<rparr>) = link s"
  by (simp add: link_def)

lemma link_boot: "link (boot ans flash) =
    (sbus_new, \<lparr>rd_hold = True, rd_stale = 0\<rparr>, False, replicate N_INPUTS (Fin 0))"
  by (simp add: boot_def spi_start_def start_up_def link_def split: option.split)

lemma link_usb: "link (usb_step env c s) = link s \<or> link (usb_step env c s) = link (boot (\<lambda>_. True) [])"
proof (cases "usb_byte env c s")
  case (Some p)
  obtain os s' where p: "usb_byte env c s = Some (os, s')" using Some by (cases p) simp
  then have "link s' = link s" using usb_byte_cases [OF p] by (simp add: usb_keep_def link_def)
  then show ?thesis by (simp add: usb_step_def p link_boot)
qed (simp add: usb_step_def)

text \<open>Every other step leaves the link alone or restarts the controller.\<close>
lemma link_step:
  assumes "\<And>rx. e \<noteq> E_radio rx"
  shows "link (step cfg e s) = link s \<or> link (step cfg e s) = link (boot (\<lambda>_. True) [])"
proof (cases e)
  case (E_usb env c)
  then show ?thesis using link_usb by simp
qed (use assms in \<open>simp_all add: link_spi link_can link_est link_control link_wheel link_log log_tick_def\<close>)

lemma link_radio: "link (radio_tick rx s) =
   (let (sb, stale) = radio_watchdog (sbus_update rx (sy_sbus s)) (rd_stale (sy_radio s));
        hold = height_hold (radio_armed sb) (radio_height_set sb) (rd_hold (sy_radio s))
    in (sb, \<lparr>rd_hold = hold, rd_stale = stale\<rparr>, radio_armed sb,
        (sy_input s)[IN_YAW_STICK := radio_yaw_stick sb, IN_VEL_TGT := radio_vel_tgt sb,
            IN_HEIGHT_SET := (if hold then Fin 0 else radio_height_set sb), IN_LEANOVER := radio_leanover sb,
            IN_MODE_SW := radio_mode_sw sb]))"
  by (simp add: radio_tick_def link_def Let_def case_prod_beta)

text \<open>Without a frame the flag stays down, and a link silent for longer than the limit is marked lost.\<close>
definition lost :: "sys \<Rightarrow> bool" where
  "lost s \<longleftrightarrow> sb_frame_lost (sy_sbus s) \<and> sb_failsafe (sy_sbus s) \<and> \<not> sy_armed s"

definition link_inv :: "sys \<Rightarrow> bool" where
  "link_inv s \<longleftrightarrow> \<not> sb_frame_received (sy_sbus s) \<and> (50 < rd_stale (sy_radio s) \<longrightarrow> lost s) \<and>
     length (sy_input s) = 5"

lemma link_inv_cong: "link t = link s \<Longrightarrow> link_inv t = link_inv s" "link t = link s \<Longrightarrow> lost t = lost s"
  "link t = link s \<Longrightarrow> sy_radio t = sy_radio s" "link t = link s \<Longrightarrow> sy_armed t = sy_armed s"
  "link t = link s \<Longrightarrow> sy_input t = sy_input s" "link t = link s \<Longrightarrow> sy_sbus t = sy_sbus s"
  by (simp_all add: link_inv_def lost_def link_def)

lemma boot_link: "link_inv (boot ans flash)" "lost (boot ans flash)"
  using link_boot [of ans flash] by (auto simp: link_inv_def lost_def link_def sbus_new_def N_INPUTS_def)

lemma watchdog_cases: "radio_watchdog sb stale =
   (if sb_frame_received sb then (sb\<lparr>sb_frame_received := False\<rparr>, 0)
    else if 50 < stale + 1 then (sb\<lparr>sb_frame_lost := True, sb_failsafe := True, sb_frame_received := False\<rparr>, stale + 1)
    else (sb\<lparr>sb_frame_received := False\<rparr>, stale + 1))"
  by (simp add: radio_watchdog_def sbus_take_frame_received_def sbus_mark_stale_def SBUS_TIMEOUT_TICKS_def Let_def)

lemma radio_lost_disarmed: "sb_frame_lost sb \<Longrightarrow> \<not> radio_armed sb"
  by (simp add: radio_armed_def)

lemma radio_link_inv: "link_inv s \<Longrightarrow> link_inv (radio_tick rx s)"
  using link_radio [of rx s]
  by (auto simp: link_def link_inv_def lost_def watchdog_cases Let_def radio_lost_disarmed split: if_splits)

lemma step_link_inv: "link_inv s \<Longrightarrow> link_inv (step cfg e s)"
proof (cases "\<exists>rx. e = E_radio rx")
  case True
  then show "link_inv s \<Longrightarrow> link_inv (step cfg e s)" using radio_link_inv by auto
next
  case False
  then show "link_inv s \<Longrightarrow> link_inv (step cfg e s)"
    using link_step [of e cfg s] link_inv_cong(1) boot_link(1) by metis
qed

lemma run_link_inv: "link_inv s \<Longrightarrow> link_inv (run cfg es s)"
  by (induction es arbitrary: s) (simp_all add: step_link_inv)

text \<open>The count of silent ticks.\<close>
definition silent_for :: "nat \<Rightarrow> sys \<Rightarrow> bool" where
  "silent_for k s \<longleftrightarrow> link_inv s \<and> (lost s \<or> k \<le> unat (rd_stale (sy_radio s)) \<and> unat (rd_stale (sy_radio s)) \<le> 50)"

lemma silent_tick: "silent_for k s \<Longrightarrow> silent_for (Suc k) (radio_tick [] s)"
proof -
  assume a: "silent_for k s"
  then have l: "link_inv (radio_tick [] s)" using radio_link_inv by (simp add: silent_for_def)
  have r: "\<not> sb_frame_received (sy_sbus s)" using a by (simp add: silent_for_def link_inv_def)
  have u: "sbus_update [] sb = sb" for sb by (simp add: sbus_update_def)
  show ?thesis
  proof (cases "lost s")
    case True
    then have "lost (radio_tick [] s)" using link_radio [of "[]" s] r
      by (auto simp: link_def lost_def u watchdog_cases Let_def radio_lost_disarmed split: if_splits)
    then show ?thesis using l by (simp add: silent_for_def)
  next
    case False
    then have k: "k \<le> unat (rd_stale (sy_radio s))" "unat (rd_stale (sy_radio s)) \<le> 50"
      using a by (simp_all add: silent_for_def)
    then have w: "unat (rd_stale (sy_radio s) + 1) = Suc (unat (rd_stale (sy_radio s)))"
      by (subst unat_plus_simple [THEN iffD1]) (simp_all add: no_olen_add_nat)
    have "rd_stale (sy_radio (radio_tick [] s)) = rd_stale (sy_radio s) + 1"
      using link_radio [of "[]" s] r by (auto simp: link_def u watchdog_cases Let_def split: if_splits)
    moreover have "50 < rd_stale (sy_radio (radio_tick [] s)) \<longrightarrow> lost (radio_tick [] s)"
      using l by (simp add: link_inv_def)
    ultimately show ?thesis using l k w by (auto simp: silent_for_def word_less_nat_alt)
  qed
qed

lemma silent_other: "silent_for k s \<Longrightarrow> (\<And>rx. e \<noteq> E_radio rx) \<Longrightarrow> silent_for k (step cfg e s)"
  using link_step [of e cfg s] link_inv_cong [of "step cfg e s" s] link_inv_cong [of "step cfg e s" "boot (\<lambda>_. True) []"]
    boot_link by (metis silent_for_def)

definition radio_ticks :: "event list \<Rightarrow> nat" where
  "radio_ticks es = length (filter (\<lambda>e. \<exists>rx. e = E_radio rx) es)"

lemma silent_run: "silent_for k s \<Longrightarrow> \<forall>rx. E_radio rx \<in> set es \<longrightarrow> rx = [] \<Longrightarrow>
   silent_for (k + radio_ticks es) (run cfg es s)"
proof (induction es arbitrary: s k)
  case (Cons e es)
  have es: "\<forall>rx. E_radio rx \<in> set es \<longrightarrow> rx = []" using Cons.prems(2) by simp
  show ?case
  proof (cases "\<exists>rx. e = E_radio rx")
    case True
    then have e: "e = E_radio []" using Cons.prems(2) by auto
    have n: "radio_ticks (e # es) = Suc (radio_ticks es)" by (simp add: radio_ticks_def e)
    show ?thesis using Cons.IH [OF silent_tick [OF Cons.prems(1)] es] unfolding n by (simp add: e)
  next
    case False
    then have n: "radio_ticks (e # es) = radio_ticks es" by (simp add: radio_ticks_def)
    show ?thesis using Cons.IH [OF silent_other [OF Cons.prems(1)] es] False unfolding n by simp
  qed
qed (simp add: radio_ticks_def)

end
