(* ===== verification/ImuDrivers.thy ===== *)
theory ImuDrivers
  imports Shared
begin

text \<open>
  The drivers of the inertial units (src/src/coms/IMUs, src/src/coms/SPI.cpp).  A unit is what its
  driver keeps, the transfers sent to it so far, each with the clock it was sent with, and an
  arbitrary chip: the byte it shifts out at a position of a transfer may depend on everything it was
  sent before.  The four classes share their register access; ICM45686 is the one the board uses.
\<close>

section \<open>The bus\<close>

record spi_dev =
  dv_ready :: bool
  dv_whoami :: u8
  dv_bank :: u8
  dv_sent :: "(bool \<times> bytes) list"
  dv_reply :: "(bool \<times> bytes) list \<Rightarrow> bytes \<Rightarrow> nat \<Rightarrow> u8"

definition dev_new :: "((bool \<times> bytes) list \<Rightarrow> bytes \<Rightarrow> nat \<Rightarrow> u8) \<Rightarrow> spi_dev" where
  "dev_new reply = \<lparr>dv_ready = False, dv_whoami = 0, dv_bank = 0xFF, dv_sent = [], dv_reply = reply\<rparr>"

text \<open>One selection of the chip, with the fast clock or the initial one.\<close>
definition spi_exchange :: "bool \<Rightarrow> bytes \<Rightarrow> spi_dev \<Rightarrow> bytes \<times> spi_dev" where
  "spi_exchange fast tx d = (map (dv_reply d (dv_sent d) tx) [0..<length tx], d\<lparr>dv_sent := dv_sent d @ [(fast, tx)]\<rparr>)"

definition reg_read :: "u8 \<Rightarrow> spi_dev \<Rightarrow> u8 \<times> spi_dev" where
  "reg_read reg d = (let (rx, d) = spi_exchange False [reg OR 0x80, 0xFF] d in (rx ! 1, d))"

definition reg_write :: "u8 \<Rightarrow> u8 \<Rightarrow> spi_dev \<Rightarrow> spi_dev" where
  "reg_write reg v d = snd (spi_exchange False [reg AND 0x7F, v] d)"

definition burst_read :: "u8 \<Rightarrow> nat \<Rightarrow> spi_dev \<Rightarrow> bytes \<times> spi_dev" where
  "burst_read reg n d = (let (rx, d) = spi_exchange True ((reg OR 0x80) # replicate n 0xFF) d in (take n (drop 1 rx), d))"

definition reg_writes :: "(u8 \<times> u8) list \<Rightarrow> spi_dev \<Rightarrow> spi_dev" where
  "reg_writes rs d = fold (\<lambda>(r, v). reg_write r v) rs d"

section \<open>Units\<close>

definition GYRO_SCALE :: flt where "GYRO_SCALE = (Fin 1 / Fin 16.4) * (Fin 3.14159265 / Fin 180)"
definition ACCEL_SCALE :: flt where "ACCEL_SCALE = (Fin 1 / Fin 2048) * Fin 9.80665"

definition be16 :: "bytes \<Rightarrow> nat \<Rightarrow> u16" where
  "be16 d i = push_bit 8 (ucast (d ! i)) OR ucast (d ! (i + 1))"

definition be16s :: "bytes \<Rightarrow> nat \<Rightarrow> flt" where
  "be16s d i = flt_of_int (sint (be16 d i))"

text \<open>Three signed words from a position, in the unit's byte order and scale.\<close>
definition axes :: "(bytes \<Rightarrow> nat \<Rightarrow> flt) \<Rightarrow> flt \<Rightarrow> bytes \<Rightarrow> nat \<Rightarrow> vec3" where
  "axes word16 scale raw i = (word16 raw i * scale, word16 raw (i + 2) * scale, word16 raw (i + 4) * scale)"

section \<open>ICM-45686\<close>

definition ICM45686_ID :: u8 where "ICM45686_ID = 0xE9"

definition icm45686_setup :: "(u8 \<times> u8) list" where
  "icm45686_setup = [(0x10, 0x0F), (0x1C, 0x16), (0x1B, 0x16), (0x21, 0x00), (0x1D, 0x00), (0x20, 0x80), (0x20, 0x00),
     (0x21, 0x06), (0x1D, 0x87), (0x21, 0x07)]"

definition icm45686_init :: "spi_dev \<Rightarrow> bool \<times> spi_dev" where
  "icm45686_init d =
    (let (w, d) = reg_read 0x72 (d\<lparr>dv_ready := False\<rparr>); d = d\<lparr>dv_whoami := w\<rparr>
     in if w \<noteq> ICM45686_ID then (False, d) else (True, (reg_writes icm45686_setup d)\<lparr>dv_ready := True\<rparr>))"

definition icm45686_read :: "spi_dev \<Rightarrow> (vec3 \<times> vec3) option \<times> spi_dev" where
  "icm45686_read d =
    (if \<not> dv_ready d then (None, d)
     else let (cnt, d) = burst_read 0x12 2 d; n = (ucast (cnt ! 0) :: u16) OR push_bit 8 (ucast (cnt ! 1)) in
       if n = 0 then (None, d)
       else let (pkt, d) = burst_read 0x14 16 d in
         if pkt ! 0 AND 0x60 \<noteq> 0x60 then (None, d)
         else (Some (axes le16s ACCEL_SCALE pkt 1, axes le16s GYRO_SCALE pkt 7), d))"

section \<open>ICM-42688\<close>

definition ICM42688_ID :: u8 where "ICM42688_ID = 0x47"

definition icm42688_init :: "spi_dev \<Rightarrow> bool \<times> spi_dev" where
  "icm42688_init d =
    (let (w, d) = reg_read 0x75 (d\<lparr>dv_ready := False\<rparr>); d = d\<lparr>dv_whoami := w\<rparr>
     in if w \<noteq> ICM42688_ID then (False, d)
        else (True, (reg_writes [(0x4E, 0x0F), (0x4F, 0x06), (0x50, 0x06)] d)\<lparr>dv_ready := True\<rparr>))"

definition icm42688_read :: "spi_dev \<Rightarrow> (vec3 \<times> vec3) option \<times> spi_dev" where
  "icm42688_read d =
    (if \<not> dv_ready d then (None, d)
     else let (raw, d) = burst_read 0x1F 12 d in (Some (axes be16s ACCEL_SCALE raw 0, axes be16s GYRO_SCALE raw 6), d))"

section \<open>ICM-20602\<close>

definition ICM20602_ID :: u8 where "ICM20602_ID = 0x12"

definition icm20602_init :: "spi_dev \<Rightarrow> bool \<times> spi_dev" where
  "icm20602_init d =
    (let (w, d) = reg_read 0x75 (d\<lparr>dv_ready := False\<rparr>); d = d\<lparr>dv_whoami := w\<rparr>
     in if w \<noteq> ICM20602_ID then (False, d)
        else (True, (reg_writes [(0x6B, 0x80), (0x6B, 0x01), (0x19, 0x00), (0x1A, 0x01), (0x1B, 0x18), (0x1C, 0x18),
           (0x1D, 0x01)] d)\<lparr>dv_ready := True\<rparr>))"

definition icm20602_read :: "spi_dev \<Rightarrow> (vec3 \<times> vec3) option \<times> spi_dev" where
  "icm20602_read d =
    (if \<not> dv_ready d then (None, d)
     else let (raw, d) = burst_read 0x3B 14 d in (Some (axes be16s ACCEL_SCALE raw 0, axes be16s GYRO_SCALE raw 8), d))"

section \<open>ICM-20948\<close>

definition ICM20948_ID :: u8 where "ICM20948_ID = 0xEA"

text \<open>The register bank, selected only when it changes.\<close>
definition set_bank :: "u8 \<Rightarrow> spi_dev \<Rightarrow> spi_dev" where
  "set_bank bank d = (if bank = dv_bank d then d
     else (snd (spi_exchange False [0x7F AND 0x7F, push_bit 4 bank] d))\<lparr>dv_bank := bank\<rparr>)"

definition icm20948_init :: "spi_dev \<Rightarrow> bool \<times> spi_dev" where
  "icm20948_init d =
    (let (w, d) = reg_read 0x00 (set_bank 0 (d\<lparr>dv_bank := 0xFF, dv_ready := False\<rparr>)); d = d\<lparr>dv_whoami := w\<rparr>
     in if w \<noteq> ICM20948_ID then (False, d)
        else let d = reg_writes [(0x06, 0xC1), (0x06, 0x01), (0x03, 0x10)] d;
                 d = reg_writes [(0x00, 0x00), (0x01, 0x07), (0x10, 0x00), (0x11, 0x00), (0x14, 0x19)] (set_bank 2 d)
             in (True, (set_bank 0 d)\<lparr>dv_ready := True\<rparr>))"

definition icm20948_read :: "spi_dev \<Rightarrow> (vec3 \<times> vec3) option \<times> spi_dev" where
  "icm20948_read d =
    (if \<not> dv_ready d then (None, d)
     else let (raw, d) = burst_read 0x2D 12 (set_bank 0 d)
       in (Some (axes be16s ACCEL_SCALE raw 0, axes be16s GYRO_SCALE raw 6), d))"

section \<open>The three units of the board\<close>

definition spi_drv_init :: "spi_dev \<times> spi_dev \<times> spi_dev \<Rightarrow> spi_dev \<times> spi_dev \<times> spi_dev" where
  "spi_drv_init ds = (case ds of (d1, d2, d3) \<Rightarrow> (snd (icm45686_init d1), snd (icm45686_init d2), snd (icm45686_init d3)))"

text \<open>An iteration of the SPI thread with the units in the loop.\<close>
definition spi_thread_tick :: "(spi_dev \<times> spi_dev \<times> spi_dev) \<times> sys \<Rightarrow> (spi_dev \<times> spi_dev \<times> spi_dev) \<times> sys" where
  "spi_thread_tick x = (case x of ((d1, d2, d3), s) \<Rightarrow>
     let (r1, d1) = icm45686_read d1; (r2, d2) = icm45686_read d2; (r3, d3) = icm45686_read d3
     in ((d1, d2, d3), spi_tick r1 r2 r3 s))"

section \<open>Transfers\<close>

lemma spi_exchange_sel [simp]:
  "length (fst (spi_exchange fast tx d)) = length tx"
  "k < length tx \<Longrightarrow> fst (spi_exchange fast tx d) ! k = dv_reply d (dv_sent d) tx k"
  "dv_sent (snd (spi_exchange fast tx d)) = dv_sent d @ [(fast, tx)]"
  "dv_ready (snd (spi_exchange fast tx d)) = dv_ready d" "dv_whoami (snd (spi_exchange fast tx d)) = dv_whoami d"
  "dv_bank (snd (spi_exchange fast tx d)) = dv_bank d" "dv_reply (snd (spi_exchange fast tx d)) = dv_reply d"
  by (simp_all add: spi_exchange_def)

lemma reg_read_sel [simp]:
  "fst (reg_read r d) = dv_reply d (dv_sent d) [r OR 0x80, 0xFF] 1"
  "dv_sent (snd (reg_read r d)) = dv_sent d @ [(False, [r OR 0x80, 0xFF])]"
  "dv_ready (snd (reg_read r d)) = dv_ready d"
  by (simp_all add: reg_read_def case_prod_beta)

lemma reg_writes_sent: "dv_sent (reg_writes rs d) = dv_sent d @ map (\<lambda>(r, v). (False, [r AND 0x7F, v])) rs"
  by (induction rs arbitrary: d) (simp_all add: reg_writes_def reg_write_def case_prod_beta)

lemma burst_read_sel [simp]:
  "k < n \<Longrightarrow> fst (burst_read r n d) ! k = dv_reply d (dv_sent d) ((r OR 0x80) # replicate n 0xFF) (Suc k)"
  "dv_sent (snd (burst_read r n d)) = dv_sent d @ [(True, (r OR 0x80) # replicate n 0xFF)]"
  "dv_ready (snd (burst_read r n d)) = dv_ready d" "dv_reply (snd (burst_read r n d)) = dv_reply d"
  by (simp_all add: burst_read_def case_prod_beta)

section \<open>Readings\<close>

text \<open>The two bytes of a word, low byte first.\<close>
definition le2 :: "u16 \<Rightarrow> bytes" where
  "le2 w = [ucast w, ucast (drop_bit 8 w)]"

lemma join_bytes: "(ucast (ucast w :: u8) :: u16) OR push_bit 8 (ucast (ucast (drop_bit 8 w) :: u8)) = w"
  by (rule bit_word_eqI) (auto simp: bit_simps dest: bit_imp_le_length)

lemma axis_scales: "GYRO_SCALE = Fin (1 / 16.4 * (3.14159265 / 180))" "ACCEL_SCALE = Fin (1 / 2048 * 9.80665)"
  by (simp_all add: GYRO_SCALE_def ACCEL_SCALE_def)

lemma sint_u16_bound: "\<bar>real_of_int (sint (w :: u16))\<bar> \<le> 32768"
proof -
  have "- 32768 \<le> sint w \<and> sint w < 32768" using sint_ge [of w] sint_lt [of w] by simp
  then show ?thesis by linarith
qed

text \<open>A word read as an axis: finite and in range.\<close>
definition axis_ok :: "real \<Rightarrow> flt \<Rightarrow> bool" where
  "axis_ok b x \<longleftrightarrow> (\<exists>r. x = Fin r \<and> \<bar>r\<bar> \<le> b)"

lemma axes_ok:
  assumes "\<And>d i. \<exists>w :: u16. word16 d i = flt_of_int (sint w)" "0 \<le> c" "k < 3"
  shows "axis_ok (32768 * c) (v3 (axes word16 (Fin c) raw i) k)"
proof -
  have "axis_ok (32768 * c) (word16 d j * Fin c)" for d j
  proof -
    obtain w :: u16 where w: "word16 d j = flt_of_int (sint w)" using assms(1) by blast
    have "\<bar>real_of_int (sint w) * c\<bar> \<le> 32768 * c"
      using sint_u16_bound [of w] assms(2) by (simp add: abs_mult mult_right_mono)
    then show ?thesis by (simp add: w axis_ok_def)
  qed
  moreover have "k = 0 \<or> k = 1 \<or> k = 2" using assms(3) by linarith
  ultimately show ?thesis by (auto simp: axes_def v3_def)
qed

lemma word_readers: "\<exists>w :: u16. le16s d i = flt_of_int (sint w)" "\<exists>w :: u16. be16s d i = flt_of_int (sint w)"
  by (auto simp: le16s_def be16s_def)

lemmas read_defs = icm45686_read_def icm42688_read_def icm20602_read_def icm20948_read_def

text \<open>What any of the drivers delivers.\<close>
definition imu_reading_ok :: "(vec3 \<times> vec3) option \<Rightarrow> bool" where
  "imu_reading_ok r = (case r of None \<Rightarrow> True
     | Some (a, g) \<Rightarrow> (\<forall>k < 3. axis_ok 156.9064 (v3 a k)) \<and> (\<forall>k < 3. axis_ok 34.9 (v3 g k)))"

lemma drivers_ok:
  "imu_reading_ok (fst (icm45686_read d))" "imu_reading_ok (fst (icm42688_read d))"
  "imu_reading_ok (fst (icm20602_read d))" "imu_reading_ok (fst (icm20948_read d))"
proof -
  have mono: "axis_ok b x \<Longrightarrow> b \<le> c \<Longrightarrow> axis_ok c x" for b c x by (auto simp: axis_ok_def)
  have a: "\<forall>k < 3. axis_ok 156.9064 (v3 (axes w ACCEL_SCALE raw i) k)" "\<forall>k < 3. axis_ok 34.9 (v3 (axes w GYRO_SCALE raw i) k)"
    if "\<And>d i. \<exists>x :: u16. w d i = flt_of_int (sint x)" for w raw i
    unfolding axis_scales by (intro allI impI, rule mono [OF axes_ok [OF that]]; simp)+
  note a = a [of le16s, OF word_readers(1)] a [of be16s, OF word_readers(2)]
  show "imu_reading_ok (fst (icm45686_read d))" "imu_reading_ok (fst (icm42688_read d))"
  "imu_reading_ok (fst (icm20602_read d))" "imu_reading_ok (fst (icm20948_read d))"
    unfolding read_defs imu_reading_ok_def Let_def case_prod_beta using a by simp_all
qed

section \<open>Properties\<close>

text \<open>A packet of the unit's FIFO: the header, the six words, and three bytes of temperature and time.\<close>
definition fifo_packet :: "u8 \<Rightarrow> u16 list \<Rightarrow> bytes \<Rightarrow> bytes" where
  "fifo_packet h ws trail = h # concat (map le2 ws) @ trail"

text \<open>Three consecutive words in a unit.\<close>
definition counts :: "real \<Rightarrow> u16 list \<Rightarrow> nat \<Rightarrow> vec3" where
  "counts c ws k = (Fin (c * sint (ws ! k)), Fin (c * sint (ws ! (k + 1))), Fin (c * sint (ws ! (k + 2))))"

lemma packet_words:
  assumes "length ws = 6" "k < 6" "\<And>j. j < 16 \<Longrightarrow> pkt ! j = fifo_packet h ws trail ! j"
  shows "le16s pkt (2 * k + 1) = Fin (sint (ws ! k))"
proof -
  obtain a b c d e f where ws: "ws = [a, b, c, d, e, f]" using assms(1) by (auto simp: numeral_eq_Suc length_Suc_conv)
  have k: "k = 0 \<or> k = 1 \<or> k = 2 \<or> k = 3 \<or> k = 4 \<or> k = 5" using assms(2) by linarith
  have "pkt ! (2 * k + 1) = ucast (ws ! k) \<and> pkt ! (2 * k + 2) = ucast (drop_bit 8 (ws ! k))"
    using k by (elim disjE) (simp_all add: assms(3) ws fifo_packet_def le2_def)
  then have "le16 pkt (2 * k + 1) = ws ! k" by (simp add: le16_def join_bytes)
  then show ?thesis by (simp add: le16s_def)
qed

text \<open>C7. A unit is read exactly: with n packets waiting in the FIFO and the packet at its head made of
the header h and the six signed words of acceleration and rate, low byte first, a read sends the two
transfers of the count and the packet and delivers the words times 9.80665 / 2048 and
1 / 16.4 degrees, each a finite number within the range of the unit (16 g, 1998 degrees per second);
it delivers nothing, and leaves the packet alone, if the FIFO is empty, and nothing if the header does
not announce both sensors.\<close>
theorem icm45686_read_exact:
  assumes "dv_ready d" "length ws = 6"
    "\<forall>k < 2. dv_reply d (dv_sent d) [0x92, 0xFF, 0xFF] (Suc k) = le2 n ! k"
    "\<forall>k < 16. dv_reply d (dv_sent d @ [(True, [0x92, 0xFF, 0xFF])]) (0x94 # replicate 16 0xFF) (Suc k) = fifo_packet h ws trail ! k"
  shows "(let (r, d') = icm45686_read d in
    if n = 0 then r = None \<and> dv_sent d' = dv_sent d @ [(True, [0x92, 0xFF, 0xFF])]
    else dv_sent d' = dv_sent d @ [(True, [0x92, 0xFF, 0xFF]), (True, 0x94 # replicate 16 0xFF)] \<and>
      r = (if h AND 0x60 = 0x60
        then Some (counts (1 / 2048 * 9.80665) ws 0, counts (1 / 16.4 * (3.14159265 / 180)) ws 3) else None)) \<and>
    imu_reading_ok (fst (icm45686_read d))"
proof -
  have r2: "replicate 2 (0xFF :: u8) = [0xFF, 0xFF]" by (simp add: numeral_2_eq_2)
  obtain cnt d1 where c: "burst_read 0x12 2 d = (cnt, d1)" by (rule prod.exhaust)
  have "cnt ! 0 = le2 n ! 0" "cnt ! 1 = le2 n ! 1"
    using assms(3) burst_read_sel(1) [of 0 2 "0x12" d] burst_read_sel(1) [of 1 2 "0x12" d] by (simp_all add: c r2)
  then have n: "(ucast (cnt ! 0) :: u16) OR push_bit 8 (ucast (cnt ! 1)) = n" by (simp add: le2_def join_bytes)
  have d1: "dv_sent d1 = dv_sent d @ [(True, [0x92, 0xFF, 0xFF])]" "dv_reply d1 = dv_reply d"
    using burst_read_sel(2,4) [of "0x12" 2 d] by (simp_all add: c r2)
  obtain pkt d2 where p: "burst_read 0x14 16 d1 = (pkt, d2)" by (rule prod.exhaust)
  have pk: "pkt ! k = fifo_packet h ws trail ! k" if "k < 16" for k
    using assms(4) that burst_read_sel(1) [OF that, of "0x14" d1] by (simp add: p d1)
  have d2: "dv_sent d2 = dv_sent d @ [(True, [0x92, 0xFF, 0xFF]), (True, 0x94 # replicate 16 0xFF)]"
    using burst_read_sel(2) [of "0x14" 16 d1] by (simp add: p d1)
  note w = packet_words [OF assms(2) _ pk]
  have "axes le16s ACCEL_SCALE pkt 1 = counts (1 / 2048 * 9.80665) ws 0"
    using w [of 0] w [of 1] w [of 2] by (simp add: axes_def counts_def axis_scales flip: numeral_2_eq_2 numeral_3_eq_3)
  moreover have "axes le16s GYRO_SCALE pkt 7 = counts (1 / 16.4 * (3.14159265 / 180)) ws 3"
    using w [of 3] w [of 4] w [of 5] by (simp add: axes_def counts_def axis_scales flip: numeral_2_eq_2 numeral_3_eq_3)
  moreover have "pkt ! 0 = h" using pk [of 0] by (simp add: fifo_packet_def)
  ultimately show ?thesis using assms(1) drivers_ok(1) [of d]
    by (simp add: icm45686_read_def c n [unfolded One_nat_def] p d1 d2)
qed

text \<open>A chip with one packet waiting.\<close>
definition demo_chip :: spi_dev where
  "demo_chip = (dev_new (\<lambda>log tx k. if hd tx = 0x92 then (0 # le2 1) ! k
     else (0 # fifo_packet 0x68 [2048, 0, 0, 0, 0, 164] [0, 0, 0]) ! k))\<lparr>dv_ready := True\<rparr>"

theorem icm45686_read_exact_witness:
  "\<exists>g. fst (icm45686_read demo_chip) = Some ((Fin 9.80665, Fin 0, Fin 0), g)"
proof -
  have r: "dv_ready demo_chip" by (simp add: demo_chip_def dev_new_def)
  have l: "length [2048, 0, 0, 0, 0, 164 :: u16] = 6" by simp
  have c: "\<forall>k < 2. dv_reply demo_chip (dv_sent demo_chip) [0x92, 0xFF, 0xFF] (Suc k) = le2 1 ! k"
    by (simp add: demo_chip_def dev_new_def)
  have p: "\<forall>k < 16. dv_reply demo_chip (dv_sent demo_chip @ [(True, [0x92, 0xFF, 0xFF])]) (0x94 # replicate 16 0xFF) (Suc k) =
      fifo_packet 0x68 [2048, 0, 0, 0, 0, 164] [0, 0, 0] ! k"
    by (simp add: demo_chip_def dev_new_def)
  have s: "sint (2048 :: u16) = 2048" by simp
  show ?thesis using icm45686_read_exact [OF r l c p]
    by (auto simp: Let_def case_prod_beta counts_def s)
qed

text \<open>A chip that is not the expected one is left alone: if the answer to the identity register is
another than the driver's, its initialisation fails having sent that one read (the ICM-20948 selects
its bank before), no later read of the unit succeeds or sends anything, and the unit is not tried
again; the identities are 0xE9, 0x47, 0x12 and 0xEA.  If it is the expected one the ICM-45686 is sent
exactly its ten settings, in order, and is ready.\<close>
theorem imu_wrong_chip:
  assumes "dv_sent d = []"
    "id45 = dv_reply d [] [0xF2, 0xFF] 1" "id42 = dv_reply d [] [0xF5, 0xFF] 1"
    "id209 = dv_reply d [(False, [0x7F, 0])] [0x80, 0xFF] 1"
  shows "(id45 \<noteq> 0xE9 \<longrightarrow> (let (ok, d') = icm45686_init d in \<not> ok \<and> dv_sent d' = [(False, [0xF2, 0xFF])] \<and> icm45686_read d' = (None, d'))) \<and>
    (id42 \<noteq> 0x47 \<longrightarrow> (let (ok, d') = icm42688_init d in \<not> ok \<and> dv_sent d' = [(False, [0xF5, 0xFF])] \<and> icm42688_read d' = (None, d'))) \<and>
    (id42 \<noteq> 0x12 \<longrightarrow> (let (ok, d') = icm20602_init d in \<not> ok \<and> dv_sent d' = [(False, [0xF5, 0xFF])] \<and> icm20602_read d' = (None, d'))) \<and>
    (id209 \<noteq> 0xEA \<longrightarrow> (let (ok, d') = icm20948_init d in \<not> ok \<and>
       dv_sent d' = [(False, [0x7F, 0]), (False, [0x80, 0xFF])] \<and> icm20948_read d' = (None, d'))) \<and>
    (id45 = 0xE9 \<longrightarrow> (let (ok, d') = icm45686_init d in ok \<and> dv_ready d' \<and> dv_sent d' = (False, [0xF2, 0xFF]) #
       map (\<lambda>(r, v). (False, [r, v])) [(0x10, 0x0F), (0x1C, 0x16), (0x1B, 0x16), (0x21, 0x00), (0x1D, 0x00), (0x20, 0x80),
         (0x20, 0x00), (0x21, 0x06), (0x1D, 0x87), (0x21, 0x07)]))"
proof (intro conjI impI)
  show "let (ok, d') = icm45686_init d in \<not> ok \<and> dv_sent d' = [(False, [0xF2, 0xFF])] \<and> icm45686_read d' = (None, d')" if "id45 \<noteq> 0xE9"
    using that assms(1,2) by (simp add: icm45686_init_def icm45686_read_def ICM45686_ID_def Let_def case_prod_beta)
  show "let (ok, d') = icm42688_init d in \<not> ok \<and> dv_sent d' = [(False, [0xF5, 0xFF])] \<and> icm42688_read d' = (None, d')" if "id42 \<noteq> 0x47"
    using that assms(1,3) by (simp add: icm42688_init_def icm42688_read_def ICM42688_ID_def Let_def case_prod_beta)
  show "let (ok, d') = icm20602_init d in \<not> ok \<and> dv_sent d' = [(False, [0xF5, 0xFF])] \<and> icm20602_read d' = (None, d')" if "id42 \<noteq> 0x12"
    using that assms(1,3) by (simp add: icm20602_init_def icm20602_read_def ICM20602_ID_def Let_def case_prod_beta)
  show "let (ok, d') = icm20948_init d in \<not> ok \<and> dv_sent d' = [(False, [0x7F, 0]), (False, [0x80, 0xFF])] \<and> icm20948_read d' = (None, d')"
    if "id209 \<noteq> 0xEA"
    using that assms(1,4) by (simp add: icm20948_init_def icm20948_read_def ICM20948_ID_def set_bank_def Let_def case_prod_beta)
  show "let (ok, d') = icm45686_init d in ok \<and> dv_ready d' \<and> dv_sent d' = (False, [0xF2, 0xFF]) #
       map (\<lambda>(r, v). (False, [r, v])) [(0x10, 0x0F), (0x1C, 0x16), (0x1B, 0x16), (0x21, 0x00), (0x1D, 0x00), (0x20, 0x80),
         (0x20, 0x00), (0x21, 0x06), (0x1D, 0x87), (0x21, 0x07)]" if "id45 = 0xE9"
    using that assms(1,2)
    by (simp add: icm45686_init_def ICM45686_ID_def Let_def case_prod_beta reg_writes_sent icm45686_setup_def)
qed

text \<open>A bus with nothing on it reads as ones.\<close>
theorem imu_wrong_chip_witness:
  "icm45686_read (snd (icm45686_init (dev_new (\<lambda>_ _ _. 0xFF)))) = (None, snd (icm45686_init (dev_new (\<lambda>_ _ _. 0xFF))))"
proof -
  have s: "dv_sent (dev_new (\<lambda>_ _ _. 0xFF)) = []" by (simp add: dev_new_def)
  have n: "dv_reply (dev_new (\<lambda>_ _ _. 0xFF)) [] [0xF2, 0xFF] 1 \<noteq> 0xE9" by (simp add: dev_new_def)
  show ?thesis using imu_wrong_chip [OF s refl refl refl] n by (auto simp: Let_def case_prod_beta)
qed

end
