(* ===== verification/SystemProps.thy ===== *)
theory SystemProps
  imports SystemRun ImuDrivers
begin

text \<open>
  The safety properties of the whole firmware, over every interleaving of its threads: bounds on what
  reaches the motors, the loss of the radio link, the height interlock and a unit that stops answering.
\<close>

lemma fin_leD: "fin_le b t \<Longrightarrow> \<exists>x. t = Fin x \<and> \<bar>x\<bar> \<le> b"
  by (auto elim: fin_leE)

text \<open>C1. Bounded for every interleaving: from power-up, in whatever order the threads take their
turns and whatever arrives on the buses, the radio and the USB port, as long as the sensors and the
calibration are numbers and the estimator has run at most 9 900 000 times, the six published torques
are finite numbers of at most 9 Nm, those of the wheels at most 8, the wheel speeds offered to the
wheel thread at most 55 rad/s, and every entry of the published state and every input is finite.\<close>
theorem system_bounded:
  assumes "cal_fin (sy_cal (boot ans flash))" "run_ok cfg es (boot ans flash)" "est_ticks es \<le> 9900000"
    "s = run cfg es (boot ans flash)"
  shows "length (sy_torques s) = 6 \<and> (\<forall>i < 6. \<exists>x. sy_torques s ! i = Fin x \<and> \<bar>x\<bar> \<le> (if i < 4 then 9 else 8)) \<and>
    (\<exists>x y. rsm_wheel_vel_L (sy_rsm s) = Fin x \<and> rsm_wheel_vel_R (sy_rsm s) = Fin y \<and> \<bar>x\<bar> \<le> 55 \<and> \<bar>y\<bar> \<le> 55) \<and>
    length (sy_state s) = ST_N \<and> (\<forall>x \<in> set (sy_state s). isfin x) \<and> (\<forall>x \<in> set (sy_input s). isfin x)"
proof -
  have "sys_inv (0 + est_ticks es) s"
    unfolding assms(4) by (rule sys_run_inv [OF boot_inv]) (use assms(1-3) in simp_all)
  then have s: "torques_ok (sy_torques s)" "rsm_ok (sy_rsm s)" "st_fin (sy_state s)" "inp_fin (sy_input s)"
    by (simp_all add: sys_inv_def sys_data_def)
  have w: "fin_le 8 (sy_torques s ! i)" if "\<not> i < 4" "i < 6" for i
  proof -
    have "i = 4 \<or> i = 5" using that by linarith
    then show ?thesis using s(1) by (auto simp: torques_ok_def)
  qed
  have "fin_le (if i < 4 then 9 else 8) (sy_torques s ! i)" if "i < 6" for i
    using that w [of i] s(1) by (simp add: torques_ok_def)
  then have t: "\<forall>i < 6. \<exists>x. sy_torques s ! i = Fin x \<and> \<bar>x\<bar> \<le> (if i < 4 then 9 else 8)" using fin_leD by blast
  have "fin_le 55 (rsm_wheel_vel_L (sy_rsm s))" "fin_le 55 (rsm_wheel_vel_R (sy_rsm s))"
    using s(2) by (cases "rsm_mode (sy_rsm s)"; simp add: rsm_ok_def rsm_wheel_vel_L_def rsm_wheel_vel_R_def)+
  then have "\<exists>x y. rsm_wheel_vel_L (sy_rsm s) = Fin x \<and> rsm_wheel_vel_R (sy_rsm s) = Fin y \<and> \<bar>x\<bar> \<le> 55 \<and> \<bar>y\<bar> \<le> 55"
    using fin_leD by metis
  then show ?thesis using t s by (simp add: torques_ok_def st_fin_def inp_fin_def)
qed

definition demo_run :: "event list" where
  "demo_run = [E_spi (Some ((Fin 0, Fin 0, Fin 9.81), zero3)) None None, E_radio [], E_est, E_can None (0, 0, 0) None (0, 0, 0),
     E_control (\<lambda>_. 0) 0, E_wheel]"

definition erased :: bytes where "erased = replicate 128 0xFF"

lemma boot_erased: "sy_cal (boot ans erased) = calib_zero"
proof -
  have "le_word32 (replicate 128 0xFF) 0 = 0xFFFFFFFF" by (simp add: le_word32_def)
  then have "cal_load erased = None" by (simp add: cal_load_def calib_read_def CAL_MAGIC_def Let_def erased_def)
  then show ?thesis by (simp add: boot_def spi_start_def start_up_def)
qed

theorem system_bounded_witness:
  "est_ticks demo_run = 1 \<and> length (sy_torques (run BALANCE_CTRL_LQR demo_run (boot (\<lambda>_. True) erased))) = 6"
proof -
  have c: "cal_fin (sy_cal (boot (\<lambda>_. True) erased))" unfolding boot_erased by (rule cal_fin_zero)
  have "run_ok BALANCE_CTRL_LQR demo_run (boot (\<lambda>_. True) erased)"
    by (simp add: demo_run_def reading_fin_def fin3_def frame_opt_fin_def)
  moreover have "est_ticks demo_run = 1" by (simp add: demo_run_def est_ticks_def)
  ultimately show ?thesis using system_bounded [OF c _ _ refl] by simp
qed

section \<open>The radio link\<close>

text \<open>C2. Losing the radio stops the robot: once 51 iterations of the radio thread have passed without
a byte, whatever the other threads did before, meanwhile and in between, the robot is disarmed, and
unless a bench test is running the next iteration of the control thread publishes six zero torques,
leaves the state machine idle and the wheels out of velocity mode.\<close>
theorem link_loss_stops:
  assumes "51 \<le> radio_ticks es" "\<forall>rx. E_radio rx \<in> set es \<longrightarrow> rx = []"
    "s = run cfg (before @ es) (boot ans flash)" "s' = step cfg (E_control clk now) s"
  shows "\<not> sy_armed s \<and> sb_failsafe (sy_sbus s) \<and>
    (mt_active (sy_test s) \<or> (sy_torques s' = replicate 6 (Fin 0) \<and> rsm_mode (sy_rsm s') = ROBOT_IDLE \<and>
       \<not> rsm_wheel_velocity_mode cfg (sy_rsm s')))"
proof -
  define s0 where "s0 = run cfg before (boot ans flash)"
  have l0: "link_inv s0" unfolding s0_def by (rule run_link_inv [OF boot_link(1)])
  have "lost s0 \<or> unat (rd_stale (sy_radio s0)) \<le> 50"
    using l0 by (auto simp: link_inv_def word_less_nat_alt)
  then have "silent_for 0 s0" using l0 by (simp add: silent_for_def)
  from silent_run [OF this assms(2), of cfg] have "silent_for (radio_ticks es) s" by (simp add: assms(3) s0_def)
  then have lost: "lost s" using assms(1) by (auto simp: silent_for_def)
  have z: "actuator_apply ms (replicate 6 (Fin 0)) = replicate 6 (Fin 0)" for ms
  proof -
    have "actuator_gate ms i (Fin 0) = Fin 0" for i
      by (simp add: actuator_gate_def limit_scale_def AS_WHEEL_TORQUE_LIMIT_NM_def clampr_def Let_def split: option.split)
    then have "map (\<lambda>i. actuator_gate ms i (replicate 6 (Fin 0) ! i)) [0..<6] = map (\<lambda>i. Fin 0) [0..<6]"
      by (intro map_cong) auto
    then show ?thesis by (simp add: actuator_apply_def map_replicate_const)
  qed
  have d: "compute_divisor CONTROL_PERIOD = 1" by (simp add: compute_divisor_def CONTROL_PERIOD_def)
  have "sy_torques s' = replicate 6 (Fin 0) \<and> sy_rsm s' = (sy_rsm s)\<lparr>rsm_mode := ROBOT_IDLE\<rparr>"
    if "\<not> mt_active (sy_test s)"
    using that lost z unfolding assms(4)
    by (simp add: control_tick_def control_compute_def d lost_def rsm_update_disarmed Let_def case_prod_beta)
  then show ?thesis using lost
    by (auto simp: lost_def rsm_wheel_velocity_mode_def wants_wheel_velocity_def)
qed

theorem link_loss_stops_witness:
  "\<not> sy_armed (run BALANCE_CTRL_LQR ([E_est] @ replicate 51 (E_radio [])) (boot (\<lambda>_. True) []))"
proof -
  have r: "51 \<le> radio_ticks (replicate 51 (E_radio []))" by (simp add: radio_ticks_def)
  have e: "\<forall>rx. E_radio rx \<in> set (replicate 51 (E_radio [])) \<longrightarrow> rx = []" by simp
  show ?thesis using link_loss_stops [OF r e refl refl] by blast
qed

text \<open>C3. The height interlock: whenever the controllers see a height target other than zero, there
was a moment at which the robot was armed with the height stick at zero, and it has been armed without
a break from then on; so a stick left off centre while arming never moves the legs.\<close>
theorem height_hold_interlock:
  assumes "sy_input (run cfg es (boot ans flash)) ! IN_HEIGHT_SET \<noteq> Fin 0"
  shows "\<exists>i \<le> length es. radio_height_set (sy_sbus (run cfg (take i es) (boot ans flash))) = Fin 0 \<and>
    (\<forall>j. i \<le> j \<and> j \<le> length es \<longrightarrow> sy_armed (run cfg (take j es) (boot ans flash)))"
proof -
  define st where "st j = run cfg (take j es) (boot ans flash)" for j
  define seen where "seen n \<longleftrightarrow> (\<exists>i \<le> n. radio_height_set (sy_sbus (st i)) = Fin 0 \<and> (\<forall>j. i \<le> j \<and> j \<le> n \<longrightarrow> sy_armed (st j)))" for n
  have "(rd_hold (sy_radio (st n)) \<longrightarrow> sy_input (st n) ! IN_HEIGHT_SET = Fin 0) \<and> (\<not> rd_hold (sy_radio (st n)) \<longrightarrow> seen n)"
    if "n \<le> length es" for n
    using that
  proof (induction n)
    case 0
    then show ?case using link_boot [of ans flash] by (simp add: st_def link_def N_INPUTS_def idx_defs)
  next
    case (Suc n)
    have nx: "st (Suc n) = step cfg (es ! n) (st n)" using Suc.prems by (simp add: st_def take_Suc_conv_app_nth)
    have IH: "rd_hold (sy_radio (st n)) \<longrightarrow> sy_input (st n) ! IN_HEIGHT_SET = Fin 0" "\<not> rd_hold (sy_radio (st n)) \<longrightarrow> seen n"
      using Suc by simp_all
    have len: "length (sy_input (st n)) = 5"
      using run_link_inv [OF boot_link(1)] by (simp add: st_def link_inv_def)
    have grow: "seen n \<Longrightarrow> sy_armed (st (Suc n)) \<Longrightarrow> seen (Suc n)"
      unfolding seen_def by (metis le_Suc_eq)
    have armed: "seen n \<Longrightarrow> sy_armed (st n)" by (auto simp: seen_def)
    show ?case
    proof (cases "\<exists>rx. es ! n = E_radio rx")
      case True
      then obtain rx where rx: "st (Suc n) = radio_tick rx (st n)" by (auto simp: nx)
      obtain sb stale where w: "radio_watchdog (sbus_update rx (sy_sbus (st n))) (rd_stale (sy_radio (st n))) = (sb, stale)"
        by (rule prod.exhaust)
      define h where "h = height_hold (radio_armed sb) (radio_height_set sb) (rd_hold (sy_radio (st n)))"
      have n: "sy_sbus (st (Suc n)) = sb" "rd_hold (sy_radio (st (Suc n))) = h" "sy_armed (st (Suc n)) = radio_armed sb"
        "h \<longrightarrow> sy_input (st (Suc n)) ! IN_HEIGHT_SET = Fin 0"
        using link_radio [of rx "st n"] len by (simp_all add: rx w h_def link_def Let_def idx_defs)
      have "seen (Suc n)" if "\<not> h"
      proof (cases "rd_hold (sy_radio (st n))")
        case True
        then have "radio_armed sb" "radio_height_set sb = Fin 0" using that by (auto simp: h_def height_hold_def split: if_splits)
        then show ?thesis unfolding seen_def using n by (intro exI [of _ "Suc n"]) auto
      next
        case False
        then show ?thesis using that IH(2) n grow by (auto simp: h_def height_hold_def split: if_splits)
      qed
      then show ?thesis using n by blast
    next
      case False
      then have "link (st (Suc n)) = link (st n) \<or> link (st (Suc n)) = link (boot (\<lambda>_. True) [])"
        unfolding nx by (intro link_step) auto
      then show ?thesis
      proof
        assume "link (st (Suc n)) = link (st n)"
        then show ?thesis using IH grow armed link_inv_cong(3,4,5) by metis
      next
        assume "link (st (Suc n)) = link (boot (\<lambda>_. True) [])"
        then show ?thesis unfolding link_boot by (simp add: link_def N_INPUTS_def idx_defs)
      qed
    qed
  qed
  from this [of "length es"] have "seen (length es)" using assms by (auto simp: st_def)
  then show ?thesis by (simp add: seen_def st_def)
qed

text \<open>A run in which the height target moves: an arming frame with the height stick centred, then one
with the stick up.\<close>
definition stick_channels :: "u16 \<Rightarrow> u16 list" where
  "stick_channels h = [992, 992, h, 992, 200, 992, 992] @ replicate 9 992"

definition stick_frame :: "u16 \<Rightarrow> bytes" where
  "stick_frame h = 0x0F # sbus_pack (stick_channels h) @ [0, 0]"

lemma stick_update:
  assumes "sb_state sb = WAIT_START" "length (sb_buf sb) = 25" "h < 2048"
  shows "let sb' = sbus_update (stick_frame h) sb in sb_state sb' = WAIT_START \<and> length (sb_buf sb') = 25 \<and>
    sb_ch sb' = stick_channels h \<and> sb_frame_received sb' \<and> \<not> sb_frame_lost sb' \<and> \<not> sb_failsafe sb'"
proof -
  have "\<forall>n < 16. stick_channels h ! n < 2048"
    using assms(3) by (simp add: stick_channels_def nth_append nth_Cons split: nat.split)
  then have "sbus_unpack (sbus_pack (stick_channels h) @ [0, 0]) = stick_channels h"
    by (intro nth_equalityI) (simp_all add: sbus_unpack_def sbus_unpack1_pack, simp add: stick_channels_def)
  then show ?thesis using assms(1,2) by (simp add: stick_frame_def sbus_frame Let_def)
qed

lemma stick_tick:
  assumes "sb_state (sy_sbus s) = WAIT_START" "length (sb_buf (sy_sbus s)) = 25" "h < 2048" "s' = radio_tick (stick_frame h) s"
  shows "sb_state (sy_sbus s') = WAIT_START" "length (sb_buf (sy_sbus s')) = 25"
    "radio_height_set (sy_sbus s') = norm_axis h" "sy_armed s'"
    "rd_hold (sy_radio s') = (rd_hold (sy_radio s) \<and> norm_axis h \<noteq> Fin 0)"
    "length (sy_input s) = 5 \<Longrightarrow> sy_input s' ! 2 = (if rd_hold (sy_radio s') then Fin 0 else norm_axis h)"
proof -
  define sb where "sb = sbus_update (stick_frame h) (sy_sbus s)"
  have sb: "sb_state sb = WAIT_START" "length (sb_buf sb) = 25" "sb_ch sb = stick_channels h" "sb_frame_received sb"
    "\<not> sb_frame_lost sb" "\<not> sb_failsafe sb"
    using stick_update [OF assms(1-3)] by (simp_all add: sb_def Let_def)
  have ch: "sbus_channel (sb\<lparr>sb_frame_received := False\<rparr>) 2 = h" "sbus_channel (sb\<lparr>sb_frame_received := False\<rparr>) 4 = 200"
    using sb(3) by (simp_all add: sbus_channel_def stick_channels_def)
  have a: "radio_armed (sb\<lparr>sb_frame_received := False\<rparr>)" "radio_height_set (sb\<lparr>sb_frame_received := False\<rparr>) = norm_axis h"
    using sb ch by (simp_all add: radio_armed_def radio_height_set_def)
  show "sb_state (sy_sbus s') = WAIT_START" "length (sb_buf (sy_sbus s')) = 25"
    "radio_height_set (sy_sbus s') = norm_axis h" "sy_armed s'"
    "rd_hold (sy_radio s') = (rd_hold (sy_radio s) \<and> norm_axis h \<noteq> Fin 0)"
    "length (sy_input s) = 5 \<Longrightarrow> sy_input s' ! 2 = (if rd_hold (sy_radio s') then Fin 0 else norm_axis h)"
    using a sb by (auto simp: assms(4) radio_tick_def watchdog_cases Let_def height_hold_def idx_defs simp flip: sb_def)
qed

theorem height_hold_interlock_witness:
  "\<exists>i \<le> 2. radio_height_set (sy_sbus (run BALANCE_CTRL_LQR (take i [E_radio (stick_frame 992), E_radio (stick_frame 1800)])
     (boot (\<lambda>_. True) erased))) = Fin 0"
proof -
  define s0 where "s0 = boot (\<lambda>_. True) erased"
  define s1 where "s1 = radio_tick (stick_frame 992) s0"
  define s2 where "s2 = radio_tick (stick_frame 1800) s1"
  have n: "norm_axis 992 = Fin 0" "norm_axis 1800 \<noteq> Fin 0" by (simp_all add: norm_axis_eq axis_real_def sgn_if)
  have s0: "sb_state (sy_sbus s0) = WAIT_START" "length (sb_buf (sy_sbus s0)) = 25" "length (sy_input s0) = 5"
    using link_boot [of "\<lambda>_. True" erased] by (simp_all add: s0_def link_def sbus_new_def N_INPUTS_def)
  have i1: "length (sy_input s1) = 5" using s0(3) by (simp add: s1_def radio_tick_def Let_def case_prod_beta)
  note t1 = stick_tick [OF s0(1,2) _ s1_def, simplified]
  note t2 = stick_tick [OF t1(1,2) _ s2_def, simplified]
  have "sy_input s2 ! 2 \<noteq> Fin 0" using t2(6) [OF i1] t2(5) t1(5) n by simp
  then have "sy_input (run BALANCE_CTRL_LQR [E_radio (stick_frame 992), E_radio (stick_frame 1800)]
      (boot (\<lambda>_. True) erased)) ! IN_HEIGHT_SET \<noteq> Fin 0"
    by (simp add: s2_def s1_def s0_def idx_defs)
  from height_hold_interlock [OF this] obtain i where
    i: "i \<le> length [E_radio (stick_frame 992), E_radio (stick_frame 1800)]"
    "radio_height_set (sy_sbus (run BALANCE_CTRL_LQR (take i [E_radio (stick_frame 992), E_radio (stick_frame 1800)])
       (boot (\<lambda>_. True) erased))) = Fin 0" by blast
  show ?thesis
  proof (intro exI conjI)
    show "i \<le> 2" using i(1) by simp
  qed (rule i(2))
qed

section \<open>The units in the loop\<close>

text \<open>An iteration of the SPI thread with the drivers in the loop is an event of the system, and whatever
the chips answer it meets what a run asks of the sensors.\<close>
lemma imu_reading_fin: "imu_reading_ok r \<Longrightarrow> reading_fin r"
proof -
  have fin: "axis_ok b x \<Longrightarrow> isfin x" for b x by (auto simp: axis_ok_def)
  have "fin3 a" if "\<forall>k < 3. axis_ok b (v3 a k)" for a b
    using that [rule_format, of 0] that [rule_format, of 1] that [rule_format, of 2]
    unfolding fin3_def by (auto intro: fin)
  then show "imu_reading_ok r \<Longrightarrow> reading_fin r" by (auto simp: imu_reading_ok_def reading_fin_def split: option.splits)
qed

lemma spi_thread_event:
  "\<exists>r1 r2 r3. snd (spi_thread_tick (ds, s)) = step cfg (E_spi r1 r2 r3) s \<and> event_ok cfg (E_spi r1 r2 r3) s"
proof -
  obtain d1 d2 d3 where ds: "ds = (d1, d2, d3)" by (rule prod_cases3)
  show ?thesis using imu_reading_fin [OF drivers_ok(1)]
    by (intro exI [of _ "fst (icm45686_read d1)"] exI [of _ "fst (icm45686_read d2)"] exI [of _ "fst (icm45686_read d3)"])
      (simp add: ds spi_thread_tick_def Let_def case_prod_beta)
qed

section \<open>A sensor that stops\<close>

lemma imu_callback: "sy_imu (run_cb cb f s) = sy_imu s"
  by (simp add: run_cb_def split: can_cb.split)

lemma imu_receive: "sy_imu (receive b rx s) = sy_imu s"
proof -
  have "sy_imu (fold (\<lambda>d. run_cb (dev_callback d) f) devs s) = sy_imu s" for f and devs :: "can_cb can_device list" and s
    by (induction devs arbitrary: s) (simp_all add: imu_callback)
  then show ?thesis
    by (auto simp: receive_def set_can_def can_dispatch_sel case_prod_beta split: option.split)
qed

lemma mgr_receive: "sy_mgr (receive b rx s) = sy_mgr s"
proof -
  have "sy_mgr (run_cb cb f s) = sy_mgr s" for cb f s by (simp add: run_cb_def split: can_cb.split)
  then have "sy_mgr (fold (\<lambda>d. run_cb (dev_callback d) f) devs s) = sy_mgr s" for f and devs :: "can_cb can_device list" and s
    by (induction devs arbitrary: s) simp_all
  then show ?thesis
    by (auto simp: receive_def set_can_def can_dispatch_sel case_prod_beta split: option.split)
qed

lemma imu_publish: "k \<noteq> i \<or> r = None \<Longrightarrow> sy_imu (publish_imu k al r s) ! i = sy_imu s ! i"
  by (auto simp: publish_imu_def split: option.split)

lemma imu_spi: "i < 3 \<Longrightarrow> [r1, r2, r3] ! i = None \<Longrightarrow> sy_imu (spi_tick r1 r2 r3 s) ! i = sy_imu s ! i"
proof -
  assume i: "i < 3" and r: "[r1, r2, r3] ! i = None"
  have "0 \<noteq> i \<or> r1 = None" "1 \<noteq> i \<or> r2 = None" "2 \<noteq> i \<or> r3 = None" using r by (cases i; force)+
  then show ?thesis unfolding spi_tick_def by (simp only: imu_publish)
qed

lemma imu_compute: "sy_imu (snd (control_compute cfg clk now s)) = sy_imu s"
  by (simp add: control_compute_def Let_def case_prod_beta)

text \<open>A command that restarts the controller: the state it leaves is that of a boot.\<close>
definition restarts :: "event \<Rightarrow> sys \<Rightarrow> bool" where
  "restarts e s = (case e of E_usb env c \<Rightarrow>
     (case usb_byte env c s of None \<Rightarrow> False | Some (os, s') \<Rightarrow> Reset \<in> set os) | _ \<Rightarrow> False)"

fun restart_free :: "balance_ctrl \<Rightarrow> event list \<Rightarrow> sys \<Rightarrow> bool" where
  "restart_free cfg [] s = True"
| "restart_free cfg (e # es) s = (\<not> restarts e s \<and> restart_free cfg es (step cfg e s))"

definition silent_unit :: "nat \<Rightarrow> event \<Rightarrow> bool" where
  "silent_unit i e = (case e of E_spi r1 r2 r3 \<Rightarrow> [r1, r2, r3] ! i = None | _ \<Rightarrow> True)"

text \<open>A command writes neither the readings nor the estimator.\<close>
lemma usb_step_frame: "\<not> restarts (E_usb env c) s \<Longrightarrow>
  sy_imu (usb_step env c s) = sy_imu s \<and> sy_mgr (usb_step env c s) = sy_mgr s"
proof (cases "usb_byte env c s")
  case (Some p)
  assume n: "\<not> restarts (E_usb env c) s"
  obtain os s' where p: "usb_byte env c s = Some (os, s')" using Some by (cases p) simp
  have "Reset \<notin> set os" using n by (simp add: restarts_def p)
  then show ?thesis using usb_byte_cases [OF p] by (simp add: usb_step_def p usb_keep_def)
qed (simp add: usb_step_def)

text \<open>Only the SPI thread writes the readings, and only the estimator's thread the estimator.\<close>
lemma imu_step:
  assumes "\<not> restarts e s" "\<forall>r1 r2 r3. e \<noteq> E_spi r1 r2 r3"
  shows "sy_imu (step cfg e s) = sy_imu s"
proof (cases e)
  case (E_can r1 g1 r2 g2)
  then show ?thesis by (simp add: can_tick_def check_busoff_def set_can_def imu_receive case_prod_beta)
next
  case E_est
  have "sy_imu (snd (take_can_imu s)) = sy_imu s" by (simp add: take_can_imu_def Let_def)
  then show ?thesis by (simp add: E_est est_thread_tick_def take_mocap_def Let_def case_prod_beta)
next
  case (E_control clk now)
  then show ?thesis using imu_compute by (simp add: control_tick_def Let_def case_prod_beta)
next
  case E_wheel
  then show ?thesis by (simp, subst wheel_send_frame) simp
next
  case (E_usb env c)
  then show ?thesis using assms(1) usb_step_frame by simp
qed (use assms in \<open>simp_all add: radio_tick_def log_tick_def Let_def case_prod_beta\<close>)

lemma mgr_step:
  assumes "\<not> restarts e s" "e \<noteq> E_est"
  shows "sy_mgr (step cfg e s) = sy_mgr s"
proof (cases e)
  case (E_spi r1 r2 r3)
  have "sy_mgr (publish_imu k al r s) = sy_mgr s" for k al r s
    by (simp add: publish_imu_def split: option.split prod.split)
  then show ?thesis by (simp add: E_spi spi_tick_def)
next
  case (E_can r1 g1 r2 g2)
  then show ?thesis by (simp add: can_tick_def check_busoff_def set_can_def mgr_receive case_prod_beta)
next
  case (E_control clk now)
  then show ?thesis by (simp add: control_tick_def control_compute_def Let_def case_prod_beta)
next
  case E_wheel
  then show ?thesis by (simp, subst wheel_send_frame) simp
next
  case (E_usb env c)
  then show ?thesis using assms(1) usb_step_frame by simp
qed (use assms in \<open>simp_all add: radio_tick_def log_tick_def Let_def case_prod_beta\<close>)

text \<open>A reading once valid stays valid, and it stays the same while its unit is silent.\<close>
lemma reading_step:
  assumes "i < 3" "\<not> restarts e s" "length (sy_imu s) = 3"
  shows "length (sy_imu (step cfg e s)) = 3" "im_valid (sy_imu s ! i) \<Longrightarrow> im_valid (sy_imu (step cfg e s) ! i)"
    "silent_unit i e \<Longrightarrow> sy_imu (step cfg e s) ! i = sy_imu s ! i"
proof -
  have v: "im_valid (xs ! i) \<Longrightarrow> im_valid m \<Longrightarrow> im_valid (xs[k := m] ! i)" for xs m and k :: nat
    by (cases "k < length xs"; cases "i = k") (auto simp: list_update_beyond)
  have p: "length (sy_imu (publish_imu k al r t)) = length (sy_imu t)"
    "im_valid (sy_imu t ! i) \<Longrightarrow> im_valid (sy_imu (publish_imu k al r t) ! i)" for k al r t
    by (auto simp: publish_imu_def intro!: v split: option.split prod.split)
  have spi: "length (sy_imu (spi_tick r1 r2 r3 s)) = 3 \<and>
      (im_valid (sy_imu s ! i) \<longrightarrow> im_valid (sy_imu (spi_tick r1 r2 r3 s) ! i))" for r1 r2 r3
    unfolding spi_tick_def using p assms(3) by simp
  have "length (sy_imu (step cfg e s)) = 3 \<and> (im_valid (sy_imu s ! i) \<longrightarrow> im_valid (sy_imu (step cfg e s) ! i)) \<and>
      (silent_unit i e \<longrightarrow> sy_imu (step cfg e s) ! i = sy_imu s ! i)"
  proof (cases "\<exists>r1 r2 r3. e = E_spi r1 r2 r3")
    case True
    then obtain r1 r2 r3 where "e = E_spi r1 r2 r3" by blast
    then show ?thesis using spi imu_spi [OF assms(1)] by (simp add: silent_unit_def)
  next
    case False
    then show ?thesis using imu_step [OF assms(2)] assms(3) by simp
  qed
  then show "length (sy_imu (step cfg e s)) = 3" "im_valid (sy_imu s ! i) \<Longrightarrow> im_valid (sy_imu (step cfg e s) ! i)"
    "silent_unit i e \<Longrightarrow> sy_imu (step cfg e s) ! i = sy_imu s ! i" by blast+
qed

lemma reading_run:
  assumes "i < 3" "restart_free cfg es s" "length (sy_imu s) = 3" "im_valid (sy_imu s ! i)"
  shows "im_valid (sy_imu (run cfg es s) ! i) \<and>
    (list_all (silent_unit i) es \<longrightarrow> sy_imu (run cfg es s) ! i = sy_imu s ! i)"
  using assms(2-4)
proof (induction es arbitrary: s)
  case (Cons e es)
  note r = reading_step [OF assms(1) _ Cons.prems(2), of e cfg]
  have "im_valid (sy_imu (run cfg es (step cfg e s)) ! i) \<and>
    (list_all (silent_unit i) es \<longrightarrow> sy_imu (run cfg es (step cfg e s)) ! i = sy_imu (step cfg e s) ! i)"
    by (rule Cons.IH) (use Cons.prems r in simp_all)
  then show ?case using r Cons.prems(1) by simp
qed simp

text \<open>What else a tick of the estimator's thread does to a lane after its prediction and its gravity
measurement: the external attitude, the motion capture, the legs and wheels (Q is the pitch rate).\<close>
definition lane_fix :: "sys \<Rightarrow> flt \<Rightarrow> ekf \<Rightarrow> ekf" where
  "lane_fix s Q e =
    (let can = fst (take_can_imu s);
         hips = map (\<lambda>i. motor_snap i (sy_ms s)) [1, 2, 3, 4];
         wheels = map (\<lambda>i. motor_snap i (sy_ms s)) [5, 6];
         e = (if ci_valid can \<and> ci_has_new_quat can
           then ekf_update_quaternion (mk_quat (ci_q0 can) (ci_q1 can) (ci_q2 can) (ci_q3 can)) R_QUAT e else e)
     in hd (fuse_wheels (map (leg_fk hips) [0, 1]) wheels Q (sm_mocap (sy_mocap s) [e])))"

definition lanes_up :: "sys \<Rightarrow> bool" where
  "lanes_up s \<longleftrightarrow> sg_init (sy_mgr s) \<and> length (sg_lanes (sy_mgr s)) = NUM_LANES"

lemma fuse_wheels_nth: "i < length ls \<Longrightarrow> fuse_wheels legs wheels Q ls ! i = hd (fuse_wheels legs wheels Q [ls ! i])"
  by (simp add: fuse_wheels_def case_prod_beta)

lemma sm_mocap_nth: "i < length ls \<Longrightarrow> sm_mocap mc ls ! i = hd (sm_mocap mc [ls ! i])"
  by (simp add: sm_mocap_def)

lemma sm_mocap_single: "[hd (sm_mocap mc [e])] = sm_mocap mc [e]"
  by (simp add: sm_mocap_def)

lemma fuse_wheels_length: "length (fuse_wheels legs wheels Q ls) = length ls"
  by (simp add: fuse_wheels_def case_prod_beta)

lemma sm_mocap_length: "length (sm_mocap mc ls) = length ls"
  by (simp add: sm_mocap_def)

lemma sm_predict_nth:
  assumes "i < NUM_LANES" "im_valid (imu ! i)"
  shows "sm_predict dt imu can ls ! i =
    (if ci_valid can \<and> ci_has_new_quat can
     then ekf_update_quaternion (mk_quat (ci_q0 can) (ci_q1 can) (ci_q2 can) (ci_q3 can)) R_QUAT else id)
      (ekf_update_gravity (im_accel (imu ! i)) R_GRAVITY (ekf_predict dt (im_accel (imu ! i)) (im_gyro (imu ! i)) (ls ! i)))"
  using assms by (simp add: sm_predict_def Let_def)

lemma sm_predict_length: "length (sm_predict dt imu can ls) = NUM_LANES"
  by (simp add: sm_predict_def Let_def)

lemma average_legs_keep: "sg_lanes (average_legs l s) = sg_lanes s" "sg_rates (average_legs l s) = sg_rates s"
  "sg_init (average_legs l s) = sg_init s"
  by (simp_all add: average_legs_def Let_def case_prod_beta)

lemma sm_update_lanes: "sg_init s \<Longrightarrow>
  sg_lanes (sm_update dt imu can mc s) = sm_mocap mc (sm_predict dt imu can (sg_lanes s)) \<and> sg_init (sm_update dt imu can mc s)"
  by (simp add: sm_update_def Let_def case_prod_beta)

lemma est_tick_lanes:
  assumes "lanes_up s"
  shows "lanes_up (est_thread_tick dt s)"
    "i < NUM_LANES \<Longrightarrow> im_valid (sy_imu s ! i) \<Longrightarrow> sg_lanes (sy_mgr (est_thread_tick dt s)) ! i =
      lane_fix s (v3 (sg_rates (sy_mgr (est_thread_tick dt s))) 1)
        (ekf_update_gravity (im_accel (sy_imu s ! i)) R_GRAVITY
          (ekf_predict dt (im_accel (sy_imu s ! i)) (im_gyro (sy_imu s ! i)) (sg_lanes (sy_mgr s) ! i)))"
proof -
  define can where "can = fst (take_can_imu s)"
  define hips where "hips = map (\<lambda>i. motor_snap i (sy_ms s)) [1, 2, 3, 4]"
  define wheels where "wheels = map (\<lambda>i. motor_snap i (sy_ms s)) [5, 6]"
  define up where "up = sm_update dt (sy_imu s) can (sy_mocap s) (sy_mgr s)"
  have t: "sy_imu (snd (take_can_imu s)) = sy_imu s" "sy_ms (snd (take_can_imu s)) = sy_ms s"
    "sy_mocap (snd (take_can_imu s)) = sy_mocap s" "sy_mgr (snd (take_can_imu s)) = sy_mgr s"
    by (simp_all add: take_can_imu_def Let_def)
  have m: "sy_mgr (est_thread_tick dt s) = sm_legs_and_wheels hips wheels up"
    by (simp add: est_thread_tick_def take_mocap_def Let_def case_prod_beta t hips_def wheels_def up_def can_def)
  have up: "sg_lanes up = sm_mocap (sy_mocap s) (sm_predict dt (sy_imu s) can (sg_lanes (sy_mgr s)))" "sg_init up"
    using sm_update_lanes assms by (simp_all add: up_def lanes_up_def)
  have l: "sg_lanes (sy_mgr (est_thread_tick dt s)) =
      fuse_wheels (map (leg_fk hips) [0, 1]) wheels (v3 (sg_rates (sy_mgr (est_thread_tick dt s))) 1) (sg_lanes up)"
    by (simp add: m sm_legs_and_wheels_def Let_def average_legs_keep)
  show "lanes_up (est_thread_tick dt s)"
    unfolding lanes_up_def l by (simp add: fuse_wheels_length up sm_mocap_length sm_predict_length)
      (simp add: m sm_legs_and_wheels_def Let_def average_legs_keep up)
  assume i: "i < NUM_LANES" and v: "im_valid (sy_imu s ! i)"
  show "sg_lanes (sy_mgr (est_thread_tick dt s)) ! i =
      lane_fix s (v3 (sg_rates (sy_mgr (est_thread_tick dt s))) 1)
        (ekf_update_gravity (im_accel (sy_imu s ! i)) R_GRAVITY
          (ekf_predict dt (im_accel (sy_imu s ! i)) (im_gyro (sy_imu s ! i)) (sg_lanes (sy_mgr s) ! i)))"
    unfolding l lane_fix_def Let_def can_def [symmetric] hips_def [symmetric] wheels_def [symmetric]
    using i by (subst fuse_wheels_nth) (simp_all add: up sm_mocap_length sm_predict_length sm_mocap_nth sm_mocap_single sm_predict_nth [OF i v])
qed

lemma lanes_up_run: "lanes_up (run cfg es (boot ans flash))"
proof -
  have b: "lanes_up (boot a f)" for a f
    by (simp add: lanes_up_def boot_def spi_start_def start_up_def sm_init_def split: option.split)
  have st: "lanes_up (step cfg e s)" if "lanes_up s" for e s
  proof (cases "restarts e s")
    case True
    then show ?thesis
      by (auto simp: restarts_def usb_step_def b split: event.splits option.splits)
  next
    case False
    then show ?thesis
    proof (cases "e = E_est")
      case True
      then show ?thesis using est_tick_lanes(1) that by simp
    next
      case e: False
      then show ?thesis using mgr_step [OF False e] that by (simp add: lanes_up_def)
    qed
  qed
  have "lanes_up s \<Longrightarrow> lanes_up (run cfg es s)" for s
    by (induction es arbitrary: s) (simp_all add: st)
  then show ?thesis using b by blast
qed

lemma imu_length_run: "length (sy_imu (run cfg es (boot ans flash))) = 3"
proof -
  have b: "length (sy_imu (boot a f)) = 3" for a f
    by (simp add: boot_def spi_start_def start_up_def split: option.split)
  have "length (sy_imu (step cfg e s)) = 3" if "length (sy_imu s) = 3" for e s
  proof (cases "restarts e s")
    case True
    then show ?thesis by (auto simp: restarts_def usb_step_def b split: event.splits option.splits)
  next
    case False
    show ?thesis by (rule reading_step(1) [OF _ False that, of 0]) simp
  qed
  then have "length (sy_imu s) = 3 \<Longrightarrow> length (sy_imu (run cfg es s)) = 3" for s
    by (induction es arbitrary: s) simp_all
  then show ?thesis using b by blast
qed

text \<open>C6. A unit that stops answering is never noticed.  The SPI thread sets the valid flag of an
inertial unit at its first successful reading, and no interleaving of the threads that does not restart
the controller ever clears it, whatever the other sensors, the radio, the buses and the USB port do.  If
every read of unit i fails from then on, its last reading stays in place, however long the run goes on,
and at any moment the next tick of the estimator's thread still predicts lane i with that old
acceleration and rate and takes that old acceleration for a gravity measurement, before the other
measurements of the tick.\<close>
theorem imu_frozen_reading:
  assumes "i < 3" "im_valid (sy_imu (run cfg es (boot ans flash)) ! i)"
    "restart_free cfg later (run cfg es (boot ans flash))"
    "m = sy_imu (run cfg es (boot ans flash)) ! i" "s = run cfg (es @ later) (boot ans flash)"
  shows "im_valid (sy_imu s ! i) \<and>
    (list_all (silent_unit i) later \<longrightarrow> sy_imu s ! i = m \<and>
       sg_lanes (sy_mgr (step cfg E_est s)) ! i =
         lane_fix s (v3 (sg_rates (sy_mgr (step cfg E_est s))) 1)
           (ekf_update_gravity (im_accel m) R_GRAVITY
             (ekf_predict est_dt (im_accel m) (im_gyro m) (sg_lanes (sy_mgr s) ! i))))"
proof -
  have r: "im_valid (sy_imu s ! i) \<and> (list_all (silent_unit i) later \<longrightarrow> sy_imu s ! i = m)"
    unfolding assms(4,5) run_simps by (rule reading_run [OF assms(1,3) imu_length_run assms(2)])
  have "lanes_up s" unfolding assms(5) by (rule lanes_up_run)
  note t = est_tick_lanes(2) [OF this, of i est_dt]
  show ?thesis using r t assms(1) by simp
qed

text \<open>Unit 0 answers once, at rest; then only unit 1 does.\<close>
theorem imu_frozen_reading_witness:
  "sy_imu (run BALANCE_CTRL_LQR ([E_spi (Some (zero3, zero3)) None None] @
     [E_est, E_spi None (Some (zero3, zero3)) None, E_radio [], E_wheel]) (boot (\<lambda>_. True) erased)) ! 0 =
   sy_imu (run BALANCE_CTRL_LQR [E_spi (Some (zero3, zero3)) None None] (boot (\<lambda>_. True) erased)) ! 0"
proof -
  let ?es = "[E_spi (Some (zero3, zero3)) None None]"
  let ?l = "[E_est, E_spi None (Some (zero3, zero3)) None, E_radio [], E_wheel]"
  have v: "im_valid (sy_imu (run BALANCE_CTRL_LQR ?es (boot (\<lambda>_. True) erased)) ! 0)"
    by (simp add: spi_tick_def publish_imu_def boot_def spi_start_def start_up_def split: option.split prod.split)
  have f: "restart_free BALANCE_CTRL_LQR ?l (run BALANCE_CTRL_LQR ?es (boot (\<lambda>_. True) erased))"
    by (simp add: restarts_def)
  have "list_all (silent_unit 0) ?l" by (simp add: silent_unit_def)
  moreover have "(0::nat) < 3" by simp
  ultimately show ?thesis using imu_frozen_reading [OF _ v f refl refl] by blast
qed

end
