(* ===== verification/UsbProps.thy ===== *)
theory UsbProps
  imports SystemRun
begin

text \<open>
  Properties of the USB command line: which part of a line is seen, that a download ends, that a
  committed calibration is the one in force after a restart, and two commands that do not do what the
  tools expect of them.
\<close>

section \<open>The line reader\<close>

text \<open>The commands a stream of bytes completes, and what stays in the buffer.\<close>
fun usb_lines :: "string \<Rightarrow> string \<Rightarrow> string list \<times> string" where
  "usb_lines [] b = ([], b)"
| "usb_lines (c # cs) b =
    (let (l, b) = usb_reader c b; (ls, b) = usb_lines cs b
     in ((case l of None \<Rightarrow> ls | Some x \<Rightarrow> x # ls), b))"

definition is_eol :: "char \<Rightarrow> bool" where
  "is_eol c \<longleftrightarrow> c = CHR 0x0A \<or> c = CHR 0x0D"

text \<open>What is left of a line: its last length mod 64 characters, up to the first NUL.\<close>
definition line_tail :: "string \<Rightarrow> string list" where
  "line_tail l = (if length l mod 64 = 0 then []
     else [takeWhile (\<lambda>c. c \<noteq> CHR 0x00) (drop (64 * (length l div 64)) l)])"

lemma usb_lines_append: "usb_lines (xs @ ys) b =
    (let (ls, b1) = usb_lines xs b; (ms, b2) = usb_lines ys b1 in (ls @ ms, b2))"
  by (induction xs arbitrary: b) (simp_all add: Let_def case_prod_beta split: option.split)

text \<open>Characters of a line from a buffer with room.\<close>
lemma usb_lines_room:
  "\<forall>c \<in> set xs. \<not> is_eol c \<Longrightarrow> length b + length xs \<le> 63 \<Longrightarrow> usb_lines xs b = ([], b @ xs)"
  by (induction xs arbitrary: b) (auto simp: usb_reader_def is_eol_def LINE_MAX_def Let_def)

lemma usb_lines_full:
  assumes "\<forall>c \<in> set xs. \<not> is_eol c" "length xs = 64"
  shows "usb_lines xs [] = ([], [])"
proof -
  obtain ys c where xs: "xs = ys @ [c]" using assms(2) by (cases xs rule: rev_cases) auto
  then have "usb_lines ys [] = ([], ys)" using usb_lines_room [of ys "[]"] assms by simp
  then show ?thesis using assms by (simp add: xs usb_lines_append usb_reader_def is_eol_def LINE_MAX_def)
qed

lemma usb_lines_body:
  "\<forall>c \<in> set l. \<not> is_eol c \<Longrightarrow> usb_lines l [] = ([], drop (64 * (length l div 64)) l)"
proof (induction l rule: length_induct)
  case (1 l)
  show ?case
  proof (cases "length l < 64")
    case True
    then show ?thesis using usb_lines_room [of l "[]"] 1(2) by simp
  next
    case False
    have IH: "usb_lines (drop 64 l) [] = ([], drop (64 * (length (drop 64 l) div 64)) (drop 64 l))"
      using 1(2) False by (intro 1(1) [rule_format]) (auto dest: in_set_dropD)
    have "length l div 64 = Suc (length (drop 64 l) div 64)" using False by (simp add: le_div_geq)
    moreover have "usb_lines (take 64 l) [] = ([], [])"
      using 1(2) False by (intro usb_lines_full) (auto dest: in_set_takeD)
    ultimately show ?thesis using usb_lines_append [of "take 64 l" "drop 64 l" "[]"] IH by (simp add: add.commute)
  qed
qed

definition line_end :: "string \<Rightarrow> bool" where
  "line_end e \<longleftrightarrow> e \<noteq> [] \<and> (\<forall>c \<in> set e. is_eol c)"

lemma usb_lines_eols: "\<forall>c \<in> set e. is_eol c \<Longrightarrow> usb_lines e [] = ([], [])"
  by (induction e) (auto simp: usb_reader_def is_eol_def)

lemma usb_lines_line: "\<forall>c \<in> set l. \<not> is_eol c \<Longrightarrow> line_end e \<Longrightarrow> usb_lines (l @ e) [] = (line_tail l, [])"
proof -
  assume l: "\<forall>c \<in> set l. \<not> is_eol c" and "line_end e"
  then obtain c cs where e: "e = c # cs" "is_eol c" "\<forall>c \<in> set cs. is_eol c" by (cases e) (auto simp: line_end_def)
  have n: "length (drop (64 * (length l div 64)) l) = length l mod 64" by (simp add: minus_div_mult_eq_mod [symmetric] mult.commute)
  have "usb_reader c b = (if b = [] then None else Some (takeWhile (\<lambda>c. c \<noteq> CHR 0x00) b), [])" for b
    using e(2) by (simp add: usb_reader_def is_eol_def)
  then show ?thesis using n usb_lines_body [OF l] usb_lines_eols [OF e(3)]
    by (auto simp: e(1) usb_lines_append line_tail_def Let_def simp flip: length_0_conv)
qed

text \<open>C36. What the command line sees of a stream of lines, however they are ended (CR, LF or both):
of each line exactly the characters behind its last full block of 64, as a C string, and nothing of a
line whose length is a multiple of 64; in particular a line of up to 63 characters arrives whole, no
line disturbs the next one, and the buffer is empty at the end.\<close>
theorem usb_stream_lines:
  assumes "\<forall>(l, e) \<in> set ls. line_end e \<and> (\<forall>c \<in> set l. c \<noteq> CHR 0x0A \<and> c \<noteq> CHR 0x0D)"
  shows "usb_lines (concat (map (\<lambda>(l, e). l @ e) ls)) [] = (concat (map (\<lambda>(l, e). line_tail l) ls), []) \<and>
    (\<forall>(l, e) \<in> set ls. l \<noteq> [] \<and> length l < 64 \<and> CHR 0x00 \<notin> set l \<longrightarrow> line_tail l = [l])"
proof
  show "usb_lines (concat (map (\<lambda>(l, e). l @ e) ls)) [] = (concat (map (\<lambda>(l, e). line_tail l) ls), [])"
    using assms
  proof (induction ls)
    case (Cons x ls)
    obtain l e where x: "x = (l, e)" by (rule prod.exhaust)
    have "usb_lines (l @ e) [] = (line_tail l, [])"
      using Cons.prems by (intro usb_lines_line) (auto simp: x is_eol_def)
    then show ?case using Cons usb_lines_append [of "l @ e"] by (simp add: x)
  qed simp
  have "takeWhile (\<lambda>c. c \<noteq> CHR 0x00) l = l" if "CHR 0x00 \<notin> set l" for l
    using that by (auto simp: takeWhile_eq_all_conv)
  then show "\<forall>(l, e) \<in> set ls. l \<noteq> [] \<and> length l < 64 \<and> CHR 0x00 \<notin> set l \<longrightarrow> line_tail l = [l]"
    by (auto simp: line_tail_def)
qed

theorem usb_stream_lines_witness:
  "fst (usb_lines (''CAL,query'' @ [CHR 0x0D, CHR 0x0A] @ ''BOOT'' @ [CHR 0x0A]) []) = [''CAL,query'', ''BOOT'']"
proof -
  have "\<forall>(l, e) \<in> set [(''CAL,query'', [CHR 0x0D, CHR 0x0A]), (''BOOT'', [CHR 0x0A])].
      line_end e \<and> (\<forall>c \<in> set l. c \<noteq> CHR 0x0A \<and> c \<noteq> CHR 0x0D)"
    by (simp add: line_end_def is_eol_def)
  from usb_stream_lines [OF this] show ?thesis by (simp add: line_tail_def)
qed

section \<open>A lost calibration line\<close>

text \<open>The effect of a stream of bytes on the whole memory, and the replies.\<close>
fun usb_feed :: "usb_env \<Rightarrow> string \<Rightarrow> sys \<Rightarrow> (out list \<times> sys) option" where
  "usb_feed env [] s = Some ([], s)"
| "usb_feed env (c # cs) s = Option.bind (usb_byte env c s)
     (\<lambda>(os, s). map_option (\<lambda>(os', s). (os @ os', s)) (usb_feed env cs s))"

lemma usb_feed_append: "usb_feed env (xs @ ys) s = Option.bind (usb_feed env xs s)
    (\<lambda>(os, s). map_option (\<lambda>(os', s). (os @ os', s)) (usb_feed env ys s))"
  by (induction xs arbitrary: s)
    (auto simp: map_option_case split: Option.bind_splits option.split prod.split)

lemma usb_feed_body: "usb_lines xs (sy_line s) = ([], b) \<Longrightarrow> usb_feed env xs s = Some ([], s\<lparr>sy_line := b\<rparr>)"
proof (induction xs arbitrary: s)
  case (Cons c xs)
  obtain l b1 where r: "usb_reader c (sy_line s) = (l, b1)" by (rule prod.exhaust)
  have l: "l = None" "usb_lines xs b1 = ([], b)"
    using Cons.prems by (auto simp: r Let_def case_prod_beta prod_eq_iff split: option.splits)
  have "usb_byte env c s = Some ([], s\<lparr>sy_line := b1\<rparr>)" by (simp add: usb_byte_def r l(1))
  then show ?case using Cons.IH [of "s\<lparr>sy_line := b1\<rparr>"] l(2) by simp
qed simp

lemma usb_feed_line:
  assumes "\<forall>c \<in> set l. \<not> is_eol c" "sy_line s = []"
  shows "usb_feed env (l @ [CHR 0x0A]) s =
    (case line_tail l of [] \<Rightarrow> Some ([], s) | x # xs \<Rightarrow> usb_cmd_dispatch env x s)"
proof -
  define b where "b = drop (64 * (length l div 64)) l"
  have s: "s\<lparr>sy_line := []\<rparr> = s" using assms(2) by simp
  have n: "length b = length l mod 64" by (simp add: b_def minus_div_mult_eq_mod [symmetric] mult.commute)
  have body: "usb_feed env l s = Some ([], s\<lparr>sy_line := b\<rparr>)"
    using usb_lines_body [OF assms(1)] assms(2) by (intro usb_feed_body) (simp add: b_def)
  have "usb_byte env (CHR 0x0A) (s\<lparr>sy_line := b\<rparr>) =
      (if b = [] then Some ([], s) else usb_cmd_dispatch env (takeWhile (\<lambda>c. c \<noteq> CHR 0x00) b) s)"
    by (simp add: usb_byte_def usb_reader_def s)
  then have "usb_feed env (l @ [CHR 0x0A]) s =
      (if b = [] then Some ([], s) else usb_cmd_dispatch env (takeWhile (\<lambda>c. c \<noteq> CHR 0x00) b) s)"
    by (simp add: usb_feed_append body option.map_id option.map_comp comp_def flip: id_def case_prod_beta)
  moreover have "line_tail l = (if b = [] then [] else [takeWhile (\<lambda>c. c \<noteq> CHR 0x00) b])"
    using n by (simp add: line_tail_def b_def flip: length_0_conv)
  ultimately show ?thesis by simp
qed

text \<open>A command that starts with none of the letters in use is ignored.\<close>
lemma usb_dispatch_ignored: "l = [] \<or> hd l \<notin> set ''BLCMPRT'' \<Longrightarrow> usb_cmd_dispatch env l s = Some ([], s)"
proof (cases l)
  case (Cons c r)
  assume "l = [] \<or> hd l \<notin> set ''BLCMPRT''"
  then have c: "c \<noteq> CHR ''B''" "c \<noteq> CHR ''L''" "c \<noteq> CHR ''C''" "c \<noteq> CHR ''M''" "c \<noteq> CHR ''P''" "c \<noteq> CHR ''R''" "c \<noteq> CHR ''T''"
    using Cons by simp_all
  show ?thesis unfolding usb_cmd_dispatch_def starts_def Cons using c by (simp del: contains.simps)
qed (simp add: usb_cmd_dispatch_def starts_def)

lemma sum_lengths:
  fixes fs :: "'a list list"
  shows "\<forall>f \<in> set fs. 8 \<le> length f \<and> length f \<le> 18 \<Longrightarrow>
     8 * length fs \<le> sum_list (map length fs) \<and> sum_list (map length fs) \<le> 18 * length fs"
  "\<forall>f \<in> set fs. 8 \<le> length f \<and> length f \<le> 18 \<Longrightarrow> sum_list (map length fs) \<le> 8 * length fs \<Longrightarrow> f \<in> set fs \<Longrightarrow> length f = 8"
proof -
  have lo: "8 * length fs \<le> sum_list (map length fs) \<and> sum_list (map length fs) \<le> 18 * length fs"
    if "\<forall>f \<in> set fs. 8 \<le> length f \<and> length f \<le> 18" for fs :: "'a list list"
    using that by (induction fs) simp_all
  then show "\<forall>f \<in> set fs. 8 \<le> length f \<and> length f \<le> 18 \<Longrightarrow>
     8 * length fs \<le> sum_list (map length fs) \<and> sum_list (map length fs) \<le> 18 * length fs" .
  show "\<forall>f \<in> set fs. 8 \<le> length f \<and> length f \<le> 18 \<Longrightarrow> sum_list (map length fs) \<le> 8 * length fs \<Longrightarrow> f \<in> set fs \<Longrightarrow> length f = 8"
  proof -
    assume a: "\<forall>f \<in> set fs. 8 \<le> length f \<and> length f \<le> 18" "sum_list (map length fs) \<le> 8 * length fs" and "f \<in> set fs"
    then obtain xs ys where fs: "fs = xs @ f # ys" by (meson split_list)
    have "8 * length xs \<le> sum_list (map length xs)" "8 * length ys \<le> sum_list (map length ys)" "8 \<le> length f"
      using lo [of xs] lo [of ys] a(1) by (simp_all add: fs)
    then show "length f = 8" using a(2) by (simp add: fs)
  qed
qed

lemma usb_cal_set_dispatch: "usb_cmd_dispatch env (''CAL,set,'' @ args) s = Some (usb_cal_set args s)"
  by (simp add: usb_cmd_dispatch_def usb_cal_cmd_def starts_def)

text \<open>A save without an error of the controller succeeds.\<close>
lemma cal_save_succeeds: "fst (cal_save True (\<lambda>_. True) d fl)"
proof -
  have p: "fst (cal_program (\<lambda>_. True) ws img fl)" for ws img fl
    by (induction ws arbitrary: fl) (simp_all add: b2_program_word_def)
  show ?thesis by (simp only: cal_save_def b2_erase_def Let_def case_prod_conv if_True p)
qed

lemma cal_set_line:
  assumes "length fs = 6" "\<forall>f \<in> set fs. set f \<subseteq> set ''-.0123456789'' \<and> 8 \<le> length f \<and> length f \<le> 18" "is_digit u"
    "line = ''CAL,set,'' @ u # concat (map (\<lambda>f. CHR '','' # f) fs)" "sy_line s = []"
  shows "usb_feed env (line @ [CHR 0x0A]) s =
    (if \<forall>f \<in> set fs. length f = 8 then Some (usb_cal_set (u # concat (map (\<lambda>f. CHR '','' # f) fs)) s) else Some ([], s))"
proof -
  define body where "body = concat (map (\<lambda>f. CHR '','' # f) fs)"
  have line: "line = ''CAL,set,'' @ u # body" using assms(4) by (simp add: body_def)
  have "length body = length fs + sum_list (map length fs)" unfolding body_def by (induction fs) simp_all
  then have len: "length line = 15 + sum_list (map length fs)" using assms(1) by (simp add: line)
  have lens: "\<forall>f \<in> set fs. 8 \<le> length f \<and> length f \<le> 18" using assms(2) by blast
  have sum: "48 \<le> sum_list (map length fs)" "sum_list (map length fs) \<le> 108"
    "sum_list (map length fs) \<le> 48 \<longrightarrow> (\<forall>f \<in> set fs. length f = 8)"
    using sum_lengths [OF lens] assms(1) by simp_all
  define A where "A = set '',-.0123456789''"
  have A: "CHR '','' \<in> A" "set ''-.0123456789'' \<subseteq> A" "CHR 0x0A \<notin> A" "CHR 0x0D \<notin> A" "CHR 0x00 \<notin> A" "A \<inter> set ''BLCMPRT'' = {}"
    by (simp_all add: A_def)
  have "set (CHR '','' # f) \<subseteq> A" if "f \<in> set fs" for f
    using assms(2) that A(1,2) by (simp only: list.set(2) insert_subset) blast
  then have chars: "set body \<subseteq> A" unfolding body_def by (simp only: set_concat set_map UN_subset_iff ball_simps) blast
  have u: "u \<noteq> CHR 0x0A" "u \<noteq> CHR 0x0D" "u \<noteq> CHR 0x00" using assms(3) by (auto simp: is_digit_def)
  have eol: "\<forall>c \<in> set line. \<not> is_eol c" "CHR 0x00 \<notin> set line" using chars u A(3,4,5) by (auto simp: line is_eol_def)
  show ?thesis
  proof (cases "\<forall>f \<in> set fs. length f = 8")
    case True
    then have "map length fs = replicate 6 8" using assms(1) by (simp add: list_eq_iff_nth_eq)
    then have "length line = 63" by (simp add: len sum_list_replicate)
    moreover have "takeWhile (\<lambda>c. c \<noteq> CHR 0x00) line = line" using eol(2) by (auto simp: takeWhile_eq_all_conv)
    ultimately have "line_tail line = [line]" by (simp add: line_tail_def)
    then show ?thesis using True usb_feed_line [OF eol(1) assms(5)] usb_cal_set_dispatch [of env "u # body" s]
      by (simp add: line flip: body_def)
  next
    case False
    then have "\<not> sum_list (map length fs) \<le> 48" using sum(3) by blast
    then have l: "length line div 64 = 1" using sum(2) len by (intro div_nat_eqI) simp_all
    have "drop 64 line = drop 55 body" by (simp add: line)
    then have d: "set (drop 64 line) \<subseteq> A" using chars set_drop_subset [of 55 body] by (metis order_trans)
    have "usb_cmd_dispatch env x s = Some ([], s)" if "line_tail line = x # xs" for x xs
    proof (rule usb_dispatch_ignored)
      have "set x \<subseteq> set (drop 64 line)" using that l
        by (auto simp: line_tail_def dest: set_takeWhileD split: if_splits)
      then have "set x \<subseteq> A" using d by blast
      then show "x = [] \<or> hd x \<notin> set ''BLCMPRT''" using A(6) by (metis disjoint_iff hd_in_set subsetD)
    qed
    then show ?thesis unfolding if_not_P [OF False] using usb_feed_line [OF eol(1) assms(5)] by (simp split: list.split)
  qed
qed

text \<open>C37. A calibration line with a negative bias is lost: the line the calibration tool sends, CAL,set
with the unit and six biases printed with six decimals (eight characters each, one more with a sign),
is handed to the command only when all six are printed in eight characters; if one of them is longer
the line overruns the reader's buffer, no reply is sent and nothing changes.  Then the CAL,commit that
follows, if the flash controller erases and programs without an error, reports success, and what is in force
and in the flash page afterwards are the biases staged before the lost line.\<close>
theorem cal_set_negative_lost:
  assumes "length fs = 6" "\<forall>f \<in> set fs. set f \<subseteq> set ''-.0123456789'' \<and> 8 \<le> length f \<and> length f \<le> 18" "is_digit u"
    "line = ''CAL,set,'' @ u # concat (map (\<lambda>f. CHR '','' # f) fs)" "sy_line s = []"
  shows "usb_feed env (line @ [CHR 0x0A]) s =
    (if \<forall>f \<in> set fs. length f = 8 then Some (usb_cal_set (u # concat (map (\<lambda>f. CHR '','' # f) fs)) s) else Some ([], s)) \<and>
    ((\<exists>f \<in> set fs. length f \<noteq> 8) \<and> ue_erase_ok env \<and> (\<forall>k. ue_prog_ok env k) \<longrightarrow>
      usb_feed env ((line @ [CHR 0x0A]) @ ''CAL,commit'' @ [CHR 0x0A]) s = Some ([Line ''CAL,OK'' []],
        s\<lparr>sy_flash := snd (cal_save True (\<lambda>_. True) (sy_cal_stage s) (sy_flash s)), sy_cal := sy_cal_stage s, sy_cal_valid := True\<rparr>))"
proof -
  have set_line: "usb_feed env (line @ [CHR 0x0A]) s =
    (if \<forall>f \<in> set fs. length f = 8 then Some (usb_cal_set (u # concat (map (\<lambda>f. CHR '','' # f) fs)) s) else Some ([], s))"
    by (rule cal_set_line [OF assms])
  have "usb_feed env ((line @ [CHR 0x0A]) @ ''CAL,commit'' @ [CHR 0x0A]) s = Some ([Line ''CAL,OK'' []],
        s\<lparr>sy_flash := snd (cal_save True (\<lambda>_. True) (sy_cal_stage s) (sy_flash s)), sy_cal := sy_cal_stage s, sy_cal_valid := True\<rparr>)"
    if "\<exists>f \<in> set fs. length f \<noteq> 8" "ue_erase_ok env" "\<forall>k. ue_prog_ok env k"
  proof -
    have "ue_prog_ok env = (\<lambda>_. True)" using that(3) by auto
    then have "usb_cal_commit env s = ([Line ''CAL,OK'' []],
        s\<lparr>sy_flash := snd (cal_save True (\<lambda>_. True) (sy_cal_stage s) (sy_flash s)), sy_cal := sy_cal_stage s, sy_cal_valid := True\<rparr>)"
      using that(2) cal_save_succeeds [of "sy_cal_stage s" "sy_flash s"] by (simp add: usb_cal_commit_def Let_def case_prod_beta)
    then have "usb_feed env (''CAL,commit'' @ [CHR 0x0A]) s = Some ([Line ''CAL,OK'' []],
        s\<lparr>sy_flash := snd (cal_save True (\<lambda>_. True) (sy_cal_stage s) (sy_flash s)), sy_cal := sy_cal_stage s, sy_cal_valid := True\<rparr>)"
      using usb_feed_line [of "''CAL,commit''" s env] assms(5)
      by (simp add: is_eol_def line_tail_def usb_cmd_dispatch_def usb_cal_cmd_def starts_def)
    moreover have "usb_feed env (line @ [CHR 0x0A]) s = Some ([], s)" unfolding set_line by (rule if_not_P) (use that(1) in blast)
    ultimately show ?thesis unfolding usb_feed_append [of env "line @ [CHR 0x0A]"] by simp
  qed
  with set_line show ?thesis by blast
qed

definition demo_env :: usb_env where
  "demo_env = \<lparr>ue_dir = None, ue_stat = (\<lambda>_. None), ue_open = (\<lambda>_. False), ue_read = (\<lambda>_ _. None),
     ue_unlink = (\<lambda>_. False), ue_erase_ok = True, ue_prog_ok = (\<lambda>_. True), ue_regs = (\<lambda>_. 0), ue_prints = True,
     ue_taken = (\<lambda>_. 2048)\<rparr>"

theorem cal_set_negative_lost_witness:
  "sy_cal (snd (the (usb_feed demo_env ((''CAL,set,0,-0.012345,0.001000,0.002000,0.030000,0.040000,0.050000'' @ [CHR 0x0A])
     @ ''CAL,commit'' @ [CHR 0x0A]) (start_up (\<lambda>_. True) [])))) = calib_zero"
proof -
  define fs where "fs = [''-0.012345'', ''0.001000'', ''0.002000'', ''0.030000'', ''0.040000'', ''0.050000'']"
  have l: "length fs = 6" by (simp add: fs_def)
  have f: "\<forall>f \<in> set fs. set f \<subseteq> set ''-.0123456789'' \<and> 8 \<le> length f \<and> length f \<le> 18" by (simp add: fs_def)
  have u: "is_digit (CHR ''0'')" by (simp add: is_digit_def)
  have s: "sy_line (start_up (\<lambda>_. True) []) = []" by (simp add: start_up_def)
  have n: "(\<exists>f \<in> set fs. length f \<noteq> 8) \<and> ue_erase_ok demo_env \<and> (\<forall>k. ue_prog_ok demo_env k)" by (simp add: fs_def demo_env_def)
  have e: "''CAL,set,0,-0.012345,0.001000,0.002000,0.030000,0.040000,0.050000'' =
      ''CAL,set,'' @ CHR ''0'' # concat (map (\<lambda>f. CHR '','' # f) fs)" by (simp add: fs_def)
  have "sy_cal_stage (start_up (\<lambda>_. True) []) = calib_zero" by (simp add: start_up_def)
  then show ?thesis using cal_set_negative_lost [OF l f u e s, of demo_env, THEN conjunct2, rule_format, OF n] by simp
qed

section \<open>Downloads end\<close>

text \<open>What a host that takes so many bytes of the piece at each position gets of a list of pieces.\<close>
fun taken_of :: "(nat \<Rightarrow> nat) \<Rightarrow> nat \<Rightarrow> bytes list \<Rightarrow> bytes list" where
  "taken_of taken pos [] = []"
| "taken_of taken pos (b # bs) = take (taken pos) b # taken_of taken (pos + length b) bs"

lemma taken_all: "\<forall>b \<in> set bs. length b \<le> n \<Longrightarrow> \<forall>pos. n \<le> taken pos \<Longrightarrow> taken_of taken pos bs = bs"
  by (induction bs arbitrary: pos) (auto intro: le_trans)

text \<open>The loop ends and hands over the taken part of every piece.\<close>
lemma read_chunks_ends:
  assumes "\<And>pos. rd pos = None \<or> rd pos = Some (take 2048 (drop pos file))"
  shows "\<exists>bs rest. read_chunks rd taken pos = Some (map Raw (taken_of taken pos bs)) \<and> drop pos file = concat bs @ rest \<and>
    (\<forall>b \<in> set bs. b \<noteq> [] \<and> length b \<le> 2048) \<and> ((\<forall>pos. rd pos \<noteq> None) \<longrightarrow> rest = [])"
proof (induction "length file - pos" arbitrary: pos rule: less_induct)
  case less
  show ?case
  proof (cases "rd pos = None")
    case True
    then have "read_chunks rd taken pos = Some (map Raw (taken_of taken pos []))" by (simp add: read_chunks.simps)
    then show ?thesis using True by fastforce
  next
    case False
    then have r: "rd pos = Some (take 2048 (drop pos file))" using assms [of pos] by (cases "rd pos") simp_all
    show ?thesis
    proof (cases "length file \<le> pos")
      case True
      then have "read_chunks rd taken pos = Some (map Raw (taken_of taken pos []))" using r by (simp add: read_chunks.simps)
      moreover have "drop pos file = concat [] @ []" using True by simp
      ultimately show ?thesis by fastforce
    next
      case False
      define b where "b = take 2048 (drop pos file)"
      have b: "b \<noteq> []" "length b \<le> 2048" using False by (simp_all add: b_def)
      then have "length file - (pos + length b) < length file - pos" using False by (cases b) auto
      from less [OF this] obtain bs rest where bs: "read_chunks rd taken (pos + length b) = Some (map Raw (taken_of taken (pos + length b) bs))"
        "drop (pos + length b) file = concat bs @ rest" "\<forall>b \<in> set bs. b \<noteq> [] \<and> length b \<le> 2048"
        "(\<forall>pos. rd pos \<noteq> None) \<longrightarrow> rest = []" by blast
      have "xs = take 2048 xs @ drop (length (take 2048 xs)) xs" for xs :: bytes by (cases "length xs \<le> 2048") simp_all
      then have "drop pos file = b @ drop (length b) (drop pos file)" unfolding b_def .
      then have "drop pos file = concat (b # bs) @ rest" using bs(2) by (simp add: add.commute)
      moreover have "read_chunks rd taken pos = Some (map Raw (taken_of taken pos (b # bs)))"
        using r b bs(1) by (subst read_chunks.simps) (simp flip: b_def)
      ultimately show ?thesis using bs(3,4) b by (intro exI [of _ "b # bs"] exI [of _ rest]) simp
    qed
  qed
qed

text \<open>C39. A download ends, even on a slow host.  Suppose the host takes what is printed (a print waits for it
without a limit), and the file system reads at every position what the file holds there, up to the 2048
bytes of the buffer, or fails.  Then LOG,get returns.  It answers one line, and unless that is an error it
goes through the file in non-empty pieces of at most 2048 bytes that make up a prefix of the file, all of it if no
read fails, and of each piece the host gets what it takes in the two seconds it is given: if that is
always the whole piece, the host gets the prefix without a gap, otherwise the rest of the piece is lost
and the next piece follows.\<close>
theorem usb_log_get_ends:
  assumes "ue_prints env"
    "\<forall>pos. ue_read env (logs_path f) pos = None \<or> ue_read env (logs_path f) pos = Some (take 2048 (drop pos file))"
  shows "usb_log_get env f = Some [Line ''LOG,ERR,notfound'' []] \<or> usb_log_get env f = Some [Line ''LOG,ERR,open_failed'' []] \<or>
    (\<exists>sz bs rest. usb_log_get env f = Some (Line ''LOG,SIZE,%lu'' [fnat sz] # map Raw (taken_of (ue_taken env) 0 bs)) \<and>
      file = concat bs @ rest \<and> (\<forall>b \<in> set bs. b \<noteq> [] \<and> length b \<le> 2048) \<and>
      ((\<forall>pos. ue_read env (logs_path f) pos \<noteq> None) \<longrightarrow> rest = []) \<and>
      ((\<forall>pos. 2048 \<le> ue_taken env pos) \<longrightarrow> taken_of (ue_taken env) 0 bs = bs))"
proof -
  obtain bs rest where bs: "read_chunks (ue_read env (logs_path f)) (ue_taken env) 0 = Some (map Raw (taken_of (ue_taken env) 0 bs))"
    "file = concat bs @ rest" "\<forall>b \<in> set bs. b \<noteq> [] \<and> length b \<le> 2048"
    "(\<forall>pos. ue_read env (logs_path f) pos \<noteq> None) \<longrightarrow> rest = []"
    using read_chunks_ends [of "ue_read env (logs_path f)" "file", OF assms(2) [rule_format], where pos = 0 and taken = "ue_taken env"]
    by auto
  have whole: "(\<forall>pos. 2048 \<le> ue_taken env pos) \<longrightarrow> taken_of (ue_taken env) 0 bs = bs" using taken_all [of bs 2048] bs(3) by blast
  show ?thesis
  proof (cases "ue_stat env (logs_path f)")
    case None
    then show ?thesis using assms(1) by (simp add: usb_log_get_def usb_print_def)
  next
    case (Some sz)
    show ?thesis
    proof (cases "ue_open env (logs_path f)")
      case True
      then have "usb_log_get env f = Some (Line ''LOG,SIZE,%lu'' [fnat sz] # map Raw (taken_of (ue_taken env) 0 bs))"
        using Some bs(1) assms(1) by (simp add: usb_log_get_def usb_print_def)
      then show ?thesis using bs(2-4) whole by blast
    next
      case False
      then show ?thesis using Some assms(1) by (simp add: usb_log_get_def usb_print_def)
    qed
  qed
qed

text \<open>A file of three bytes, of which the host takes two in time: the third is lost.\<close>
definition file_env :: usb_env where
  "file_env = demo_env\<lparr>ue_stat := (\<lambda>_. Some 3), ue_open := (\<lambda>_. True), ue_read := (\<lambda>_ pos. Some (take 2048 (drop pos [1, 2, 3]))),
     ue_taken := (\<lambda>_. 2)\<rparr>"

theorem usb_log_get_ends_witness:
  "\<exists>bs. usb_log_get file_env ''a.bin'' = Some (Line ''LOG,SIZE,%lu'' [fnat 3] # map Raw (taken_of (\<lambda>_. 2) 0 bs)) \<and>
     concat bs = [1, 2, 3]"
proof -
  have p: "ue_prints file_env" by (simp add: file_env_def demo_env_def)
  have "\<forall>pos. ue_read file_env (logs_path ''a.bin'') pos = None \<or>
      ue_read file_env (logs_path ''a.bin'') pos = Some (take 2048 (drop pos [1, 2, 3]))" by (simp add: file_env_def)
  note e = usb_log_get_ends [OF p this]
  have "ue_stat file_env (logs_path ''a.bin'') = Some 3" "ue_open file_env (logs_path ''a.bin'')"
    "\<forall>pos. ue_read file_env (logs_path ''a.bin'') pos \<noteq> None" "ue_taken file_env = (\<lambda>_. 2)"
    by (simp_all add: file_env_def)
  then show ?thesis using e p by (auto simp: usb_log_get_def usb_print_def Let_def split: Option.bind_splits)
qed

section \<open>A stop that starts\<close>

text \<open>MOTOR,test with a number starts the test whatever follows the number: the format asks sscanf
for the number and then the word start, but only the number is counted, so that MOTOR,test,5,stop (or
any other text behind the 5) starts the sweep of motor 5; only MOTOR,test,stop without a number
stops it.\<close>
theorem usb_test_stop_starts:
  assumes "1 \<le> i" "i \<le> 6" "rest = [] \<or> \<not> is_digit (hd rest)" "\<not> contains '',request'' (''MOTOR,test,'' @ char_of (48 + i) # rest)"
  shows "usb_cmd_dispatch env (''MOTOR,test,'' @ char_of (48 + i) # rest) s = Some (usb_motor_test_start i s) \<and>
    usb_cmd_dispatch env ''MOTOR,test,stop'' s = Some (usb_motor_test_stop s)"
proof -
  define c :: char where "c = char_of (48 + i)"
  have "48 + i < 256" using assms(2) by simp
  then have cv: "(of_char c :: nat) = 48 + i" by (simp add: c_def)
  then have d: "is_digit c" using assms(1,2) by (simp add: is_digit_def)
  have ne: "\<not> is_space c" "c \<noteq> CHR ''-''" "c \<noteq> CHR ''+''" "c \<noteq> CHR ''s''"
    using cv assms(1,2) by (auto simp: is_space_def)
  have "takeWhile is_digit (c # rest) = [c]" "dropWhile is_digit (c # rest) = rest"
    using d assms(3) by (cases rest; simp)+
  then have "scan_digits (c # rest) = Some (i, rest)" by (simp add: scan_digits_def digits_val_def cv)
  then have u: "scan_uint (c # rest) = Some (i, rest)"
    using ne assms(2) by (simp add: scan_uint_def skip_space_def scan_sign_def)
  have "usb_motor_test (c # rest) s = usb_motor_test_start i s"
    using u ne(4) assms(1,2) by (simp add: usb_motor_test_def Let_def)
  moreover have "usb_motor_test ''stop'' s = usb_motor_test_stop s"
    by (simp add: usb_motor_test_def Let_def scan_uint_def skip_space_def is_space_def scan_sign_def scan_digits_def is_digit_def)
  moreover have "\<not> contains '',request'' ''MOTOR,test,stop''" by (simp add: starts_def)
  ultimately show ?thesis using assms(4)
    by (simp add: usb_cmd_dispatch_def starts_def del: contains.simps flip: c_def)
qed

theorem usb_test_stop_starts_witness:
  "usb_cmd_dispatch demo_env ''MOTOR,test,5,stop'' (start_up (\<lambda>_. True) []) = Some (usb_motor_test_start 5 (start_up (\<lambda>_. True) []))"
proof -
  have d: "'',stop'' = [] \<or> \<not> is_digit (hd '',stop'')" by (simp add: is_digit_def)
  have "char_of (48 + 5 :: nat) = CHR ''5''" by (simp add: char_of_def bit_0)
  then have l: "''MOTOR,test,'' @ char_of (48 + 5 :: nat) # '',stop'' = ''MOTOR,test,5,stop''" by simp
  have r: "\<not> contains '',request'' (''MOTOR,test,'' @ char_of (48 + 5 :: nat) # '',stop'')" unfolding l by (simp add: starts_def)
  show ?thesis using usb_test_stop_starts [OF _ _ d r, of demo_env "start_up (\<lambda>_. True) []"] unfolding l by simp
qed

section \<open>The calibration after a restart\<close>

text \<open>C38. A committed calibration is the one in force after a restart: if CAL,commit answers OK then,
whatever happens to the memory afterwards, starting again from that flash page loads exactly the
biases that were staged, bit for bit, marked valid, which are also the biases in force until then.\<close>
theorem cal_commit_restart:
  assumes "calib_ok (sy_cal_stage s)" "length (sy_flash s) = 128"
    "usb_cmd_dispatch env ''CAL,commit'' s = Some ([Line ''CAL,OK'' []], s')"
  shows "sy_cal_valid (boot ans (sy_flash s')) \<and>
    cal_gyro_bias (sy_cal (boot ans (sy_flash s'))) = cal_gyro_bias (sy_cal_stage s) \<and>
    cal_accel_bias (sy_cal (boot ans (sy_flash s'))) = cal_accel_bias (sy_cal_stage s) \<and>
    sy_cal s' = sy_cal_stage s \<and> sy_cal_valid s'"
proof -
  obtain ok flash where sv: "cal_save (ue_erase_ok env) (ue_prog_ok env) (sy_cal_stage s) (sy_flash s) = (ok, flash)"
    by (rule prod.exhaust)
  have "usb_cmd_dispatch env ''CAL,commit'' s = Some (usb_cal_commit env s)"
    by (simp add: usb_cmd_dispatch_def usb_cal_cmd_def starts_def)
  then have ok: ok "s' = s\<lparr>sy_flash := flash, sy_cal := sy_cal_stage s, sy_cal_valid := True\<rparr>"
    using assms(3) by (auto simp: usb_cal_commit_def sv Let_def split: if_splits)
  obtain d where d: "cal_load flash = Some d" "cal_gyro_bias d = cal_gyro_bias (sy_cal_stage s)"
    "cal_accel_bias d = cal_accel_bias (sy_cal_stage s)"
    using cal_save_load [OF assms(1,2), of "ue_erase_ok env" "ue_prog_ok env" flash] sv ok(1) by auto
  then show ?thesis by (simp add: ok(2) boot_def spi_start_def start_up_def)
qed

theorem cal_commit_restart_witness:
  "sy_cal_valid (boot (\<lambda>_. True) (sy_flash (snd (the (usb_cmd_dispatch demo_env ''CAL,commit'' (start_up (\<lambda>_. True) (replicate 128 0)))))))"
proof -
  define s where "s = start_up (\<lambda>_. True) (replicate 128 0)"
  have c: "calib_ok (sy_cal_stage s)" "length (sy_flash s) = 128"
    by (simp_all add: s_def start_up_def calib_ok_def calib_zero_def)
  have "fst (usb_cal_commit demo_env s) = [Line ''CAL,OK'' []]"
    using cal_save_succeeds by (simp add: usb_cal_commit_def Let_def case_prod_beta demo_env_def)
  then have "usb_cmd_dispatch demo_env ''CAL,commit'' s = Some ([Line ''CAL,OK'' []], snd (usb_cal_commit demo_env s))"
    by (simp add: usb_cmd_dispatch_def usb_cal_cmd_def starts_def prod_eq_iff)
  from cal_commit_restart [OF c this] this show ?thesis by (simp flip: s_def)
qed

end
