(* ===== verification/ToolCan.thy ===== *)
theory ToolCan
  imports Can Float32
begin

text \<open>
  The CAN driver of the bench program (src/Motor_tool/src/CAN.cpp), a cut-down copy of the robot's:
  both buses read by polling the receive FIFO, subscribers that see every frame, a scanner on a chosen
  bus, the live monitor's ring that overwrites its oldest frames, and the loop-back self-test.  Clock
  readings, register values and the frames found by polling are arguments; as in theory Can the frames
  handed to the driver are recorded and its answers are an oracle of the state.  A subscriber is a value
  of a type the clients choose, run by an interpreter argument.  A pop that the receive thread interrupts
  half-way is not modelled.
\<close>

section \<open>An interface: a bounded queue that drops its oldest entries\<close>

text \<open>What a queue of at most cap entries answers: Some offers an entry, None takes the oldest one.\<close>
fun lossy_answers :: "nat \<Rightarrow> 'a option list \<Rightarrow> 'a list \<Rightarrow> 'a option list" where
  "lossy_answers cap [] q = []"
| "lossy_answers cap (Some x # ops) q = lossy_answers cap ops (drop (Suc (length q) - cap) (q @ [x]))"
| "lossy_answers cap (None # ops) [] = None # lossy_answers cap ops []"
| "lossy_answers cap (None # ops) (x # q) = Some x # lossy_answers cap ops q"

locale lossy_queue =
  fixes contents :: "'s \<Rightarrow> 'a list"
    and push :: "'a \<Rightarrow> 's \<Rightarrow> 's"
    and pop :: "'s \<Rightarrow> ('a \<times> 's) option"
    and invar :: "'s \<Rightarrow> bool"
    and cap :: nat
  assumes push_invar: "invar s \<Longrightarrow> invar (push x s)"
    and push_contents: "invar s \<Longrightarrow> contents (push x s) = drop (Suc (length (contents s)) - cap) (contents s @ [x])"
    and pop_empty: "invar s \<Longrightarrow> contents s = [] \<Longrightarrow> pop s = None"
    and pop_oldest: "invar s \<Longrightarrow> contents s = x # q \<Longrightarrow> \<exists>t. pop s = Some (x, t) \<and> invar t \<and> contents t = q"
begin

primrec answers :: "'a option list \<Rightarrow> 's \<Rightarrow> 'a option list" where
  "answers [] s = []"
| "answers (p # ops) s = (case p of Some x \<Rightarrow> answers ops (push x s)
     | None \<Rightarrow> (case pop s of None \<Rightarrow> None # answers ops s | Some (x, t) \<Rightarrow> Some x # answers ops t))"

lemma answers_eq: "invar s \<Longrightarrow> answers ops s = lossy_answers cap ops (contents s)"
proof (induction ops arbitrary: s)
  case (Cons p ops)
  show ?case
  proof (cases p)
    case (Some x)
    then show ?thesis using Cons push_invar [of s x] push_contents [of s x] by simp
  next
    case None
    show ?thesis
    proof (cases "contents s")
      case Nil
      then show ?thesis using Cons None pop_empty [of s] by simp
    next
      case (Cons x q)
      then obtain t where "pop s = Some (x, t)" "invar t" "contents t = q"
        using pop_oldest [OF Cons.prems] by blast
      then show ?thesis using Cons None Cons.IH [of t] by simp
    qed
  qed
qed simp

end

section \<open>State\<close>

definition TOOL_SCAN_MAX :: nat where "TOOL_SCAN_MAX = 64"
definition MON_RING_SIZE :: nat where "MON_RING_SIZE = 64"
definition MAX_SUBSCRIBERS :: nat where "MAX_SUBSCRIBERS = 8"
definition SELFTEST_SID :: u32 where "SELFTEST_SID = 0x555"

record tool_diag =
  td_total_rx :: u32
  td_last_sid :: u32
  td_last_eid :: u32
  td_last_eff :: u8
  td_last_dlc :: u8
  td_last_data :: bytes

record mon_frame =
  mf_t_ms :: u32
  mf_bus :: u8
  mf_id :: u32
  mf_is_ext :: bool
  mf_dlc :: u8
  mf_data :: bytes

text \<open>The ring; both indices count without bound, modulo two to the 32.\<close>
record monitor =
  mn_ring :: "mon_frame list"
  mn_head :: u32
  mn_tail :: u32
  mn_active :: bool

record 'cb tcan =
  tc_subs :: "'cb list"
  tc_diag :: "canbus \<Rightarrow> tool_diag"
  tc_scan_active :: bool
  tc_scan_bus :: canbus
  tc_scan :: "can_scan_entry list"
  tc_mon :: monitor
  tc_selftest :: "canbus option"
  tc_tx :: "(canbus \<times> can_frame) list"
  tc_answer :: "nat \<Rightarrow> bool"

definition tool_diag_zero :: tool_diag where
  "tool_diag_zero = \<lparr>td_total_rx = 0, td_last_sid = 0, td_last_eid = 0, td_last_eff = 0, td_last_dlc = 0,
     td_last_data = replicate 8 0\<rparr>"

definition mon_frame_zero :: mon_frame where
  "mon_frame_zero = \<lparr>mf_t_ms = 0, mf_bus = 0, mf_id = 0, mf_is_ext = False, mf_dlc = 0, mf_data = replicate 8 0\<rparr>"

definition monitor_new :: monitor where
  "monitor_new = \<lparr>mn_ring = replicate MON_RING_SIZE mon_frame_zero, mn_head = 0, mn_tail = 0, mn_active = False\<rparr>"

definition tcan_new :: "(nat \<Rightarrow> bool) \<Rightarrow> 'cb tcan" where
  "tcan_new ans = \<lparr>tc_subs = [], tc_diag = (\<lambda>b. tool_diag_zero), tc_scan_active = False, tc_scan_bus = CAN_BUS_1,
     tc_scan = [], tc_mon = monitor_new, tc_selftest = None, tc_tx = [], tc_answer = ans\<rparr>"

definition can_subscribe :: "'cb \<Rightarrow> 'cb tcan \<Rightarrow> 'cb tcan" where
  "can_subscribe cb c = (if length (tc_subs c) < MAX_SUBSCRIBERS then c\<lparr>tc_subs := tc_subs c @ [cb]\<rparr> else c)"

section \<open>The receive FIFO\<close>

text \<open>An element of the message RAM: identifier word with the flags XTD and RTR, the word that holds the
length, and two words of data.\<close>
definition frame_of_words :: "u32 \<Rightarrow> u32 \<Rightarrow> u32 \<Rightarrow> u32 \<Rightarrow> can_frame" where
  "frame_of_words h0 h1 d0 d1 = \<lparr>fr_xtd = bit h0 30, fr_rtr = bit h0 29, fr_id = h0 AND 0x1FFFFFFF,
     fr_dlc = ucast (drop_bit 16 h1 AND 0xF), fr_data = le_bytes32 d0 @ le_bytes32 d1\<rparr>"

definition FDCAN_RXF0S_F0FL :: u32 where "FDCAN_RXF0S_F0FL = 0x7F"
definition FDCAN_RXF0S_F0GI :: u32 where "FDCAN_RXF0S_F0GI = 0x3F00"

text \<open>The frame and the element index that is written back to RXF0A to free it.\<close>
definition poll_fifo0 :: "u32 \<Rightarrow> (nat \<Rightarrow> u32) \<Rightarrow> (can_frame \<times> u32) option" where
  "poll_fifo0 rxf0s ram =
    (if rxf0s AND FDCAN_RXF0S_F0FL = 0 then None
     else let gi = drop_bit 8 (rxf0s AND FDCAN_RXF0S_F0GI); elem = unat gi * 18
       in Some (frame_of_words (ram elem) (ram (elem + 1)) (ram (elem + 2)) (ram (elem + 3)), gi))"

section \<open>The scanner\<close>

definition tool_scan_start :: "canbus \<Rightarrow> 'cb tcan \<Rightarrow> 'cb tcan" where
  "tool_scan_start b c = c\<lparr>tc_scan_bus := b, tc_scan := [], tc_scan_active := True\<rparr>"

definition tool_scan_stop :: "'cb tcan \<Rightarrow> 'cb tcan" where
  "tool_scan_stop c = c\<lparr>tc_scan_active := False\<rparr>"

definition tool_scan_get :: "nat \<Rightarrow> 'cb tcan \<Rightarrow> can_scan_entry list" where
  "tool_scan_get mx c = take (if length (tc_scan c) < mx then length (tc_scan c) else mx) (tc_scan c)"

definition tool_scan_note :: "u32 \<Rightarrow> bool \<Rightarrow> can_scan_entry list \<Rightarrow> can_scan_entry list" where
  "tool_scan_note i ext es =
    (let (found, es') = scan_bump i ext es in
     if \<not> found \<and> length es' < TOOL_SCAN_MAX
     then es' @ [\<lparr>sc_id = i, sc_count = 1, sc_is_ext = ext\<rparr>] else es')"

section \<open>The live monitor\<close>

definition can_monitor_start :: "monitor \<Rightarrow> monitor" where
  "can_monitor_start m = m\<lparr>mn_tail := 0, mn_head := 0, mn_active := True\<rparr>"

definition can_monitor_stop :: "monitor \<Rightarrow> monitor" where
  "can_monitor_stop m = m\<lparr>mn_active := False\<rparr>"

definition can_monitor_pop :: "monitor \<Rightarrow> (mon_frame \<times> monitor) option" where
  "can_monitor_pop m =
    (if mn_tail m = mn_head m then None
     else Some (mn_ring m ! (unat (mn_tail m) mod MON_RING_SIZE), m\<lparr>mn_tail := mn_tail m + 1\<rparr>))"

definition bus_number :: "canbus \<Rightarrow> nat" where
  "bus_number b = (case b of CAN_BUS_1 \<Rightarrow> 0 | CAN_BUS_2 \<Rightarrow> 1)"

definition mon_frame_of :: "u32 \<Rightarrow> canbus \<Rightarrow> can_frame \<Rightarrow> mon_frame" where
  "mon_frame_of now b f = \<lparr>mf_t_ms = now, mf_bus = of_nat (bus_number b),
     mf_id = (if fr_xtd f then ext_eid f else std_sid f), mf_is_ext = fr_xtd f, mf_dlc = fr_dlc f,
     mf_data = take 8 (fr_data f)\<rparr>"

definition mon_push :: "mon_frame \<Rightarrow> monitor \<Rightarrow> monitor" where
  "mon_push x m =
    (let m = m\<lparr>mn_ring := (mn_ring m)[unat (mn_head m) mod MON_RING_SIZE := x], mn_head := mn_head m + 1\<rparr>
     in if of_nat MON_RING_SIZE < mn_head m - mn_tail m
        then m\<lparr>mn_tail := mn_head m - of_nat MON_RING_SIZE\<rparr> else m)"

section \<open>Dispatch\<close>

definition tool_note_frame :: "can_frame \<Rightarrow> tool_diag \<Rightarrow> tool_diag" where
  "tool_note_frame f d = d\<lparr>td_total_rx := td_total_rx d + 1, td_last_sid := std_sid f,
     td_last_eff := (if fr_xtd f then 1 else 0), td_last_eid := (if fr_xtd f then ext_eid f else 0),
     td_last_dlc := fr_dlc f, td_last_data := take 8 (fr_data f)\<rparr>"

text \<open>The counters, the scanner and the monitor.\<close>
definition tool_note :: "u32 \<Rightarrow> canbus \<Rightarrow> can_frame \<Rightarrow> 'cb tcan \<Rightarrow> 'cb tcan" where
  "tool_note now b f c =
    (let is_ext = fr_xtd f; match = (if is_ext then ext_eid f else std_sid f);
         c = c\<lparr>tc_diag := (tc_diag c)(b := tool_note_frame f (tc_diag c b))\<rparr>;
         c = (if tc_scan_active c \<and> b = tc_scan_bus c
              then c\<lparr>tc_scan := tool_scan_note match is_ext (tc_scan c)\<rparr> else c)
     in if mn_active (tc_mon c) then c\<lparr>tc_mon := mon_push (mon_frame_of now b f) (tc_mon c)\<rparr> else c)"

definition tool_dispatch ::
  "(u32 \<Rightarrow> 'cb \<Rightarrow> canbus \<Rightarrow> can_frame \<Rightarrow> 's \<Rightarrow> 's) \<Rightarrow> u32 \<Rightarrow> canbus \<Rightarrow> can_frame \<Rightarrow> 'cb tcan \<times> 's \<Rightarrow> 'cb tcan \<times> 's"
where
  "tool_dispatch run now b f cs =
    (let c = tool_note now b f (fst cs) in (c, fold (\<lambda>cb. run now cb b f) (tc_subs c) (snd cs)))"

section \<open>Transmission\<close>

definition tool_can_send :: "canbus \<Rightarrow> u32 \<Rightarrow> bytes \<Rightarrow> u8 \<Rightarrow> 'cb tcan \<Rightarrow> bool \<times> 'cb tcan" where
  "tool_can_send b sid data dlc c =
    (let n = (if dlc > 8 then 8 else dlc);
         txf = \<lparr>fr_xtd = False, fr_rtr = False, fr_id = std_id_word sid, fr_dlc = dlc AND 0xF,
                fr_data = take (unat n) data @ replicate (8 - unat n) 0\<rparr>
     in (tc_answer c (length (tc_tx c)), c\<lparr>tc_tx := tc_tx c @ [(b, txf)]\<rparr>))"

section \<open>The self-test\<close>

record selftest_result =
  sr_tx_accepted :: bool
  sr_rx_matched :: bool
  sr_before :: u32
  sr_after :: u32

definition is_selftest_frame :: "can_frame \<Rightarrow> bool" where
  "is_selftest_frame f = (\<not> fr_xtd f \<and> std_sid f = SELFTEST_SID)"

text \<open>The loop over the polls, each a clock reading with the frame it found; it ends at the first match.\<close>
primrec selftest_polls ::
  "(u32 \<Rightarrow> 'cb \<Rightarrow> canbus \<Rightarrow> can_frame \<Rightarrow> 's \<Rightarrow> 's) \<Rightarrow> canbus \<Rightarrow> (u32 \<times> can_frame option) list \<Rightarrow> 'cb tcan \<times> 's \<Rightarrow>
    bool \<times> 'cb tcan \<times> 's"
where
  "selftest_polls run b [] cs = (False, cs)"
| "selftest_polls run b (p # ps) cs =
    (case snd p of None \<Rightarrow> selftest_polls run b ps cs
     | Some f \<Rightarrow> (let cs = tool_dispatch run (fst p) b f cs in
         if is_selftest_frame f then (True, cs) else selftest_polls run b ps cs))"

definition can_selftest ::
  "(u32 \<Rightarrow> 'cb \<Rightarrow> canbus \<Rightarrow> can_frame \<Rightarrow> 's \<Rightarrow> 's) \<Rightarrow> canbus \<Rightarrow> (u32 \<times> can_frame option) list \<Rightarrow> 'cb tcan \<times> 's \<Rightarrow>
    selftest_result \<times> 'cb tcan \<times> 's"
where
  "can_selftest run b polls cs =
    (let (c, s) = cs;
         before = td_total_rx (tc_diag c b);
         c = c\<lparr>tc_selftest := Some b\<rparr>;
         (tx_ok, c) = tool_can_send b SELFTEST_SID [0xDE, 0xAD, 0xBE, 0xEF, 0, 0, 0, 0] 8 c;
         (rx_matched, c, s) = selftest_polls run b (take 100 polls) (c, s);
         after = td_total_rx (tc_diag c b);
         c = c\<lparr>tc_selftest := None\<rparr>
     in (\<lparr>sr_tx_accepted = tx_ok, sr_rx_matched = rx_matched, sr_before = before, sr_after = after\<rparr>, c, s))"

section \<open>One round of the receive thread\<close>

text \<open>Whether CCCR.INIT is cleared to start the recovery.\<close>
definition tool_check_busoff :: "u32 \<Rightarrow> bool" where
  "tool_check_busoff psr = (psr AND FDCAN_PSR_BO \<noteq> 0)"

text \<open>One bus: nothing while the self-test owns it, else a polled frame and the bus-off check.\<close>
definition can_rx_bus ::
  "(u32 \<Rightarrow> 'cb \<Rightarrow> canbus \<Rightarrow> can_frame \<Rightarrow> 's \<Rightarrow> 's) \<Rightarrow> u32 \<Rightarrow> canbus \<Rightarrow> can_frame option \<Rightarrow> u32 \<Rightarrow> 'cb tcan \<times> 's \<Rightarrow>
    bool \<times> 'cb tcan \<times> 's"
where
  "can_rx_bus run now b polled psr cs =
    (if tc_selftest (fst cs) = Some b then (False, cs)
     else (tool_check_busoff psr,
       case polled of None \<Rightarrow> cs | Some f \<Rightarrow> tool_dispatch run now b f cs))"

definition can_rx_round ::
  "(u32 \<Rightarrow> 'cb \<Rightarrow> canbus \<Rightarrow> can_frame \<Rightarrow> 's \<Rightarrow> 's) \<Rightarrow> u32 \<Rightarrow> (canbus \<Rightarrow> can_frame option) \<Rightarrow> (canbus \<Rightarrow> u32) \<Rightarrow>
    'cb tcan \<times> 's \<Rightarrow> bool \<times> bool \<times> 'cb tcan \<times> 's"
where
  "can_rx_round run now polled psr cs =
    (let (r1, cs) = can_rx_bus run now CAN_BUS_1 (polled CAN_BUS_1) (psr CAN_BUS_1) cs;
         (r2, cs) = can_rx_bus run now CAN_BUS_2 (polled CAN_BUS_2) (psr CAN_BUS_2) cs
     in (r1, r2, cs))"

section \<open>The monitor's ring as a queue\<close>

definition mon_ok :: "monitor \<Rightarrow> bool" where
  "mon_ok m \<longleftrightarrow> length (mn_ring m) = MON_RING_SIZE \<and> unat (mn_head m - mn_tail m) \<le> MON_RING_SIZE"

text \<open>What the ring holds, the oldest frame first.\<close>
definition mon_contents :: "monitor \<Rightarrow> mon_frame list" where
  "mon_contents m = map (\<lambda>k. mn_ring m ! ((unat (mn_tail m) + k) mod MON_RING_SIZE)) [0..<unat (mn_head m - mn_tail m)]"

lemma unat_add_mod_ring: "unat (x + y :: u32) mod MON_RING_SIZE = (unat x + unat y) mod MON_RING_SIZE"
  by (simp add: unat_word_ariths MON_RING_SIZE_def mod_mod_cancel)

lemma mon_slot: "(unat (mn_tail m) + unat (mn_head m - mn_tail m)) mod MON_RING_SIZE = unat (mn_head m) mod MON_RING_SIZE"
  using unat_add_mod_ring [of "mn_tail m" "mn_head m - mn_tail m"] by simp

lemma mon_push_ok:
  assumes "mon_ok m"
  shows "mon_ok (mon_push x m) \<and>
    mon_contents (mon_push x m) = drop (Suc (length (mon_contents m)) - MON_RING_SIZE) (mon_contents m @ [x])"
proof -
  define n where "n = unat (mn_head m - mn_tail m)"
  define t where "t = unat (mn_tail m)"
  define r where "r = (mn_ring m)[(t + n) mod MON_RING_SIZE := x]"
  have n: "n \<le> 64" "length (mn_ring m) = 64" using assms by (simp_all add: mon_ok_def n_def MON_RING_SIZE_def)
  have slot: "unat (mn_head m) mod 64 = (t + n) mod 64" using mon_slot [of m] by (simp add: n_def t_def MON_RING_SIZE_def)
  have d: "mn_head m + 1 - mn_tail m = (mn_head m - mn_tail m) + 1" by simp
  have n1: "unat (mn_head m + 1 - mn_tail m) = Suc n"
    unfolding d using n(1) by (simp add: n_def unat_word_ariths)
  have old: "r ! ((t + k) mod 64) = mn_ring m ! ((t + k) mod 64)" if "k < n" "n < 64 + k" for k
  proof -
    have "(t + k) mod 64 \<noteq> (t + n) mod 64" using mod_shift_inj [of 0 "n - k" 64 "t + k"] that by simp
    then show ?thesis by (metis r_def MON_RING_SIZE_def nth_list_update_neq)
  qed
  have new: "r ! ((t + n) mod 64) = x" using n(2) by (simp add: r_def MON_RING_SIZE_def)
  have c: "mon_contents m = map (\<lambda>k. mn_ring m ! ((t + k) mod 64)) [0..<n]"
    by (simp add: mon_contents_def t_def n_def MON_RING_SIZE_def)
  show ?thesis
  proof (cases "n = 64")
    case False
    then have "n < 64" using n(1) by simp
    then have p: "mon_push x m = m\<lparr>mn_ring := r, mn_head := mn_head m + 1\<rparr>"
      using n1 by (simp add: mon_push_def slot r_def MON_RING_SIZE_def word_less_nat_alt)
    have "map (\<lambda>k. r ! ((t + k) mod 64)) [0..<n] = map (\<lambda>k. mn_ring m ! ((t + k) mod 64)) [0..<n]"
      using \<open>n < 64\<close> by (auto intro!: old)
    then have "mon_contents (mon_push x m) = mon_contents m @ [x]"
      unfolding c p by (simp add: mon_contents_def n1 new MON_RING_SIZE_def flip: t_def)
    then show ?thesis using \<open>n < 64\<close> n n1 by (simp add: p c mon_ok_def MON_RING_SIZE_def r_def)
  next
    case True
    have tl: "mn_head m - 63 = mn_tail m + 1"
    proof -
      have "mn_head m - mn_tail m = 64" using True by (simp add: n_def word_unat_eq_iff)
      then show ?thesis by (simp add: algebra_simps)
    qed
    have p: "mon_push x m = m\<lparr>mn_ring := r, mn_head := mn_head m + 1, mn_tail := mn_tail m + 1\<rparr>"
    proof -
      have "(64 :: u32) < mn_head m + 1 - mn_tail m" using n1 True by (simp add: word_less_nat_alt)
      then show ?thesis by (simp add: mon_push_def slot r_def MON_RING_SIZE_def tl)
    qed
    have len: "unat (mn_head m + 1 - (mn_tail m + 1)) = 64" using True by (simp add: n_def)
    have t1: "(unat (mn_tail m + 1) + k) mod 64 = (t + Suc k) mod 64" for k
      using unat_add_mod_ring [of "mn_tail m" 1] by (simp add: t_def MON_RING_SIZE_def mod_simps) (metis add_Suc mod_add_left_eq)
    have "mon_contents (mon_push x m) = map (\<lambda>k. r ! ((t + Suc k) mod 64)) [0..<64]"
      using len t1 by (simp add: p mon_contents_def MON_RING_SIZE_def)
    also have "\<dots> = map (\<lambda>k. r ! ((t + k) mod 64)) [1..<65]"
      by (rule nth_equalityI) simp_all
    also have "\<dots> = map (\<lambda>k. r ! ((t + k) mod 64)) [1..<64] @ [x]"
      using new True upt_Suc [of 1 64] by simp
    also have "map (\<lambda>k. r ! ((t + k) mod 64)) [1..<64] = map (\<lambda>k. mn_ring m ! ((t + k) mod 64)) [1..<64]"
      using True by (auto intro!: old)
    also have "\<dots> = drop 1 (mon_contents m)" by (simp add: c True drop_map)
    finally show ?thesis using n len True by (simp add: p mon_ok_def c MON_RING_SIZE_def r_def)
  qed
qed

lemma mon_pop_ok:
  assumes "mon_ok m" "mon_contents m = x # q"
  shows "\<exists>m'. can_monitor_pop m = Some (x, m') \<and> mon_ok m' \<and> mon_contents m' = q"
proof -
  define n where "n = unat (mn_head m - mn_tail m)"
  have ne: "mn_tail m \<noteq> mn_head m" using assms(2) by (auto simp: mon_contents_def)
  then have "0 < n" by (simp add: n_def unat_gt_0)
  then obtain k where k: "n = Suc k" by (cases n) auto
  have "mn_head m - (mn_tail m + 1) = (mn_head m - mn_tail m) - 1" by simp
  then have len: "unat (mn_head m - (mn_tail m + 1)) = k"
    using k n_def by (metis One_nat_def diff_Suc_1 unat_minus_one unat_eq_zero nat.distinct(1))
  have t1: "(unat (mn_tail m + 1) + j) mod MON_RING_SIZE = (unat (mn_tail m) + Suc j) mod MON_RING_SIZE" for j
    using unat_add_mod_ring [of "mn_tail m" 1] by simp (metis add_Suc mod_add_left_eq)
  have x: "x = mn_ring m ! (unat (mn_tail m) mod MON_RING_SIZE)"
    "q = map (\<lambda>j. mn_ring m ! ((unat (mn_tail m) + Suc j) mod MON_RING_SIZE)) [0..<k]"
    using assms(2) k unfolding mon_contents_def n_def [symmetric] by (auto simp: map_upt_Suc simp del: upt_Suc)
  have "mon_contents (m\<lparr>mn_tail := mn_tail m + 1\<rparr>) = q"
    by (simp add: mon_contents_def len x(2) t1)
  moreover have "mon_ok (m\<lparr>mn_tail := mn_tail m + 1\<rparr>)" using assms(1) k by (simp add: mon_ok_def len n_def)
  ultimately show ?thesis using ne x(1) by (simp add: can_monitor_pop_def)
qed

interpretation live: lossy_queue mon_contents mon_push can_monitor_pop mon_ok MON_RING_SIZE
proof
  fix s x q assume s: "mon_ok s"
  show "mon_ok (mon_push x s)" using mon_push_ok [OF s] by simp
  show "mon_contents (mon_push x s) = drop (Suc (length (mon_contents s)) - MON_RING_SIZE) (mon_contents s @ [x])"
    using mon_push_ok [OF s] by simp
  show "mon_contents s = [] \<Longrightarrow> can_monitor_pop s = None"
    by (simp add: mon_contents_def can_monitor_pop_def unat_eq_0)
  show "mon_contents s = x # q \<Longrightarrow> \<exists>t. can_monitor_pop s = Some (x, t) \<and> mon_ok t \<and> mon_contents t = q"
    using mon_pop_ok [OF s] by simp
qed

end
