(* ===== verification/ToolMotors.thy ===== *)
theory ToolMotors
  imports ToolCan CanMotor
begin

text \<open>
  The motor drivers of the bench program (src/Motor_tool/src): RmdMotor.cpp, GimMotor.cpp, OdriveMotor.cpp,
  and the IMX5 decoder of Imx5.cpp.  Each driver keeps a table of states indexed by identifier, the bus its
  commands go to and its scaling; its commands send one frame, its subscriber decodes the replies.  The
  torque clamps, frame bodies and the remainder function that the files share with the robot's driver, text
  for text, are the definitions of theory CanMotor.
\<close>

section \<open>State\<close>

record rmd_state =
  rs_pos :: flt
  rs_vel :: flt
  rs_torque :: flt
  rs_temp :: flt
  rs_volt :: flt
  rs_err :: u8
  rs_valid :: bool
  rs_ms :: u32

record rmd_drv =
  rd_state :: "rmd_state list"
  rd_bus :: canbus
  rd_scale :: flt

record gim_state =
  gs_pos :: flt
  gs_vel :: flt
  gs_torque :: flt
  gs_temp :: flt
  gs_fault :: u8
  gs_indicator :: flt
  gs_indicator_id :: u8
  gs_enabled :: bool
  gs_valid :: bool
  gs_ms :: u32

record gim_drv =
  gd_state :: "gim_state list"
  gd_bus :: canbus
  gd_reply_id :: "u8 list"
  gd_kt :: flt
  gd_gear :: flt
  gd_limit :: flt

record odrive_state =
  os_error :: u32
  os_axis :: u8
  os_pos :: flt
  os_vel :: flt
  os_valid :: bool
  os_ms :: u32

record odrive_drv =
  od_state :: "odrive_state list"
  od_bus :: canbus
  od_gear :: flt
  od_limit :: flt

record imx5_state =
  xs_q0 :: flt
  xs_q1 :: flt
  xs_q2 :: flt
  xs_q3 :: flt
  xs_p :: flt
  xs_q :: flt
  xs_r :: flt
  xs_ax :: flt
  xs_ay :: flt
  xs_az :: flt
  xs_valid :: bool
  xs_quat_ms :: u32
  xs_rate_ms :: u32

record drivers =
  dr_rmd :: rmd_drv
  dr_gim :: gim_drv
  dr_odr :: odrive_drv
  dr_imx :: imx5_state

datatype tool_cb = TCB_RMD | TCB_GIM | TCB_ODRIVE | TCB_IMX5

text \<open>The program's memory: the CAN driver, the motor drivers and the command shell's variables (active
bus, last byte from the host, the watchdog's last stop, the line being read).\<close>
record tool =
  tl_can :: "tool_cb tcan"
  tl_drv :: drivers
  tl_bus :: canbus
  tl_host_ms :: u32
  tl_stop_ms :: u32
  tl_line :: string

definition RMD_ID_MAX :: nat where "RMD_ID_MAX = 32"
definition GIM_ID_MAX :: nat where "GIM_ID_MAX = 32"
definition ODRIVE_ID_MAX :: nat where "ODRIVE_ID_MAX = 63"
definition GIM_DEFAULT_TORQUE_LIMIT_NM :: flt where "GIM_DEFAULT_TORQUE_LIMIT_NM = Fin 3.3"
definition ODRIVE_DEFAULT_TORQUE_LIMIT_NM :: flt where "ODRIVE_DEFAULT_TORQUE_LIMIT_NM = Fin 8"

definition rmd_state_zero :: rmd_state where
  "rmd_state_zero = \<lparr>rs_pos = Fin 0, rs_vel = Fin 0, rs_torque = Fin 0, rs_temp = Fin 0, rs_volt = Fin 0,
     rs_err = 0, rs_valid = False, rs_ms = 0\<rparr>"

definition gim_state_zero :: gim_state where
  "gim_state_zero = \<lparr>gs_pos = Fin 0, gs_vel = Fin 0, gs_torque = Fin 0, gs_temp = Fin 0, gs_fault = 0,
     gs_indicator = Fin 0, gs_indicator_id = 0, gs_enabled = False, gs_valid = False, gs_ms = 0\<rparr>"

definition odrive_state_zero :: odrive_state where
  "odrive_state_zero = \<lparr>os_error = 0, os_axis = 0, os_pos = Fin 0, os_vel = Fin 0, os_valid = False, os_ms = 0\<rparr>"

definition imx5_state_zero :: imx5_state where
  "imx5_state_zero = \<lparr>xs_q0 = Fin 0, xs_q1 = Fin 0, xs_q2 = Fin 0, xs_q3 = Fin 0, xs_p = Fin 0, xs_q = Fin 0,
     xs_r = Fin 0, xs_ax = Fin 0, xs_ay = Fin 0, xs_az = Fin 0, xs_valid = False, xs_quat_ms = 0, xs_rate_ms = 0\<rparr>"

text \<open>A frame on a bus; what the drivers send has eight bytes.\<close>
definition tool_send :: "canbus \<Rightarrow> u32 \<Rightarrow> bytes \<Rightarrow> tool \<Rightarrow> bool \<times> tool" where
  "tool_send b sid data t =
    (let (ok, c) = tool_can_send b sid data 8 (tl_can t) in (ok, t\<lparr>tl_can := c\<rparr>))"

definition upd_drv :: "(drivers \<Rightarrow> drivers) \<Rightarrow> tool \<Rightarrow> tool" where
  "upd_drv f t = t\<lparr>tl_drv := f (tl_drv t)\<rparr>"

section \<open>RMD motors\<close>

definition rmd_set_bus :: "canbus \<Rightarrow> rmd_drv \<Rightarrow> rmd_drv" where
  "rmd_set_bus b d = d\<lparr>rd_bus := b\<rparr>"

definition rmd_set_torque_scale :: "flt \<Rightarrow> rmd_drv \<Rightarrow> rmd_drv" where
  "rmd_set_torque_scale r d = d\<lparr>rd_scale := r\<rparr>"

definition rmd_id_ok :: "u8 \<Rightarrow> bool" where
  "rmd_id_ok i = (1 \<le> i \<and> unat i \<le> RMD_ID_MAX)"

definition rmd_send_cmd :: "u8 \<Rightarrow> bytes \<Rightarrow> tool \<Rightarrow> bool \<times> tool" where
  "rmd_send_cmd i data t =
    (if \<not> rmd_id_ok i then (False, t) else tool_send (rd_bus (dr_rmd (tl_drv t))) (0x140 + ucast i) data t)"

definition rmd_torque_raw :: "u8 \<Rightarrow> u16 \<Rightarrow> tool \<Rightarrow> bool \<times> tool" where
  "rmd_torque_raw i ratio = rmd_send_cmd i (rmd_torque_data (rmd_ratio_clamp ratio))"

definition rmd_torque :: "u8 \<Rightarrow> flt \<Rightarrow> tool \<Rightarrow> bool \<times> tool" where
  "rmd_torque i torque t =
    (let ratio = cast_i16 (clampf (torque * rd_scale (dr_rmd (tl_drv t))) (flt_of_int (- RMD_TORQUE_RATIO_MAX))
                   (flt_of_int RMD_TORQUE_RATIO_MAX))
     in rmd_torque_raw i ratio t)"

definition rmd_velocity :: "u8 \<Rightarrow> flt \<Rightarrow> tool \<Rightarrow> bool \<times> tool" where
  "rmd_velocity i vel = rmd_send_cmd i ([0xA2, 0, 0, 0] @ le_bytes32 (rmd_velocity_lsb vel))"

definition rmd_position :: "u8 \<Rightarrow> flt \<Rightarrow> flt \<Rightarrow> tool \<Rightarrow> bool \<times> tool" where
  "rmd_position i angle maxspeed =
    (let maxspeed_dps = cast_u16 (maxspeed * (Fin 180 / PI_F));
         angle_lsb = cast_i32 (angle * (Fin 180 / PI_F) * Fin 100)
     in rmd_send_cmd i ([0xA4, 0] @ le_bytes16 maxspeed_dps @ le_bytes32 angle_lsb))"

definition rmd_position_single_turn :: "u8 \<Rightarrow> flt \<Rightarrow> flt \<Rightarrow> bool \<Rightarrow> tool \<Rightarrow> bool \<times> tool" where
  "rmd_position_single_turn i angle maxspeed cw =
    (let angle = fmodf angle (Fin 2 * PI_F);
         angle = (if angle < Fin 0 then angle + Fin 2 * PI_F else angle);
         maxspeed_dps = cast_u16 (maxspeed * (Fin 180 / PI_F));
         angle_lsb = cast_u32 (angle * (Fin 180 / PI_F) * Fin 100)
     in rmd_send_cmd i ([0xA6, if cw then 0 else 1] @ le_bytes16 maxspeed_dps @ le_bytes32 angle_lsb))"

definition rmd_increment_position :: "u8 \<Rightarrow> flt \<Rightarrow> tool \<Rightarrow> bool \<times> tool" where
  "rmd_increment_position i delta =
    (let angle_lsb = cast_i32 (delta * (Fin 180 / PI_F) * Fin 100)
     in rmd_send_cmd i ([0xA7, 0, 0, 0] @ le_bytes32 angle_lsb))"

text \<open>A command without parameters.\<close>
definition rmd_plain :: "u8 \<Rightarrow> bytes" where "rmd_plain cmd = [cmd, 0, 0, 0, 0, 0, 0, 0]"

definition rmd_stop :: "u8 \<Rightarrow> tool \<Rightarrow> bool \<times> tool" where "rmd_stop i = rmd_send_cmd i (rmd_plain 0x81)"
definition rmd_off :: "u8 \<Rightarrow> tool \<Rightarrow> bool \<times> tool" where "rmd_off i = rmd_send_cmd i (rmd_plain 0x80)"
definition rmd_resume :: "u8 \<Rightarrow> tool \<Rightarrow> bool \<times> tool" where "rmd_resume i = rmd_send_cmd i (rmd_plain 0x88)"
definition rmd_request_status :: "u8 \<Rightarrow> tool \<Rightarrow> bool \<times> tool" where
  "rmd_request_status i = rmd_send_cmd i (rmd_plain 0x9A)"
definition rmd_clear_error :: "u8 \<Rightarrow> tool \<Rightarrow> bool \<times> tool" where "rmd_clear_error i = rmd_send_cmd i (rmd_plain 0x9B)"
definition rmd_read_encoder :: "u8 \<Rightarrow> tool \<Rightarrow> bool \<times> tool" where "rmd_read_encoder i = rmd_send_cmd i (rmd_plain 0x90)"

definition rmd_get_state :: "nat \<Rightarrow> drivers \<Rightarrow> rmd_state option" where
  "rmd_get_state i d = (if rmd_id_ok (of_nat i) then Some (rd_state (dr_rmd d) ! i) else None)"

definition rmd_stop_all :: "tool \<Rightarrow> tool" where
  "rmd_stop_all t = fold (\<lambda>i t. if rs_valid (rd_state (dr_rmd (tl_drv t)) ! i) then snd (rmd_stop (of_nat i) t) else t)
     [1..<Suc RMD_ID_MAX] t"

definition rmd_decode_motion :: "flt \<Rightarrow> u32 \<Rightarrow> bytes \<Rightarrow> rmd_state \<Rightarrow> rmd_state" where
  "rmd_decode_motion scale now d st =
    (let raw_iq = le16s d 2; raw_speed = le16s d 4; raw_enc = flt_of_int (uint (le16 d 6))
     in st\<lparr>rs_torque := (if Fin 0 < scale then raw_iq / scale else Fin 0),
           rs_vel := raw_speed * (PI_F / Fin 180), rs_pos := raw_enc * (PI_F / Fin 32768),
           rs_temp := flt_of_int (uint (d ! 1)), rs_valid := True, rs_ms := now\<rparr>)"

definition rmd_decode_status :: "u32 \<Rightarrow> bytes \<Rightarrow> rmd_state \<Rightarrow> rmd_state" where
  "rmd_decode_status now d st =
     st\<lparr>rs_temp := flt_of_int (sint (d ! 1)), rs_volt := flt_of_int (uint (le16 d 2)) * Fin 0.01,
        rs_err := d ! 7, rs_valid := True, rs_ms := now\<rparr>"

definition rmd_decode_encoder :: "u32 \<Rightarrow> bytes \<Rightarrow> rmd_state \<Rightarrow> rmd_state" where
  "rmd_decode_encoder now d st =
     st\<lparr>rs_pos := flt_of_int (uint (le16 d 2)) * (Fin 2 * PI_F / Fin 65536), rs_valid := True, rs_ms := now\<rparr>"

definition rmd_rx :: "u32 \<Rightarrow> canbus \<Rightarrow> can_frame \<Rightarrow> rmd_drv \<Rightarrow> rmd_drv" where
  "rmd_rx now b f dv =
    (let sid = std_sid f in
     if b \<noteq> rd_bus dv \<or> fr_xtd f \<or> fr_dlc f < 8 then dv
     else if sid \<le> 0x140 \<or> 0x140 + of_nat RMD_ID_MAX < sid then dv
     else let i = unat (sid - 0x140); d = fr_data f; cmd = d ! 0;
              upd = (\<lambda>g. dv\<lparr>rd_state := (rd_state dv)[i := g (rd_state dv ! i)]\<rparr>)
       in if cmd \<in> {0xA1, 0xA2, 0xA3, 0xA4, 0xA6, 0xA7} then upd (rmd_decode_motion (rd_scale dv) now d)
          else if cmd = 0x9A then upd (rmd_decode_status now d)
          else if cmd = 0x90 then upd (rmd_decode_encoder now d)
          else dv)"

section \<open>GIM motors\<close>

definition gim_set_torque_limit :: "flt \<Rightarrow> gim_drv \<Rightarrow> gim_drv" where
  "gim_set_torque_limit l d = d\<lparr>gd_limit := (if l < Fin 0 then Fin 0 else l)\<rparr>"

definition gim_id_ok :: "u8 \<Rightarrow> bool" where
  "gim_id_ok i = (1 \<le> i \<and> unat i \<le> GIM_ID_MAX)"

definition gim_set_reply_id :: "u8 \<Rightarrow> u8 \<Rightarrow> gim_drv \<Rightarrow> gim_drv" where
  "gim_set_reply_id i reply d = (if gim_id_ok i then d\<lparr>gd_reply_id := (gd_reply_id d)[unat i := reply]\<rparr> else d)"

definition gim_get_reply_id :: "u8 \<Rightarrow> gim_drv \<Rightarrow> u8" where
  "gim_get_reply_id i d = (if \<not> gim_id_ok i then i
     else if gd_reply_id d ! unat i \<noteq> 0 then gd_reply_id d ! unat i else i)"

definition gim_send :: "u8 \<Rightarrow> bytes \<Rightarrow> tool \<Rightarrow> bool \<times> tool" where
  "gim_send i data t = tool_send (gd_bus (dr_gim (tl_drv t))) (ucast i) data t"

definition gim_send_simple :: "u8 \<Rightarrow> u8 \<Rightarrow> tool \<Rightarrow> bool \<times> tool" where
  "gim_send_simple i cmd t = (if \<not> gim_id_ok i then (False, t) else gim_send i [cmd, 0, 0, 0, 0, 0, 0, 0] t)"

definition gim_set_enabled :: "u8 \<Rightarrow> bool \<Rightarrow> tool \<Rightarrow> tool" where
  "gim_set_enabled i e = upd_drv (\<lambda>d. d\<lparr>dr_gim := (dr_gim d)\<lparr>gd_state := (gd_state (dr_gim d))[unat i :=
     (gd_state (dr_gim d) ! unat i)\<lparr>gs_enabled := e\<rparr>]\<rparr>\<rparr>)"

definition gim_start :: "u8 \<Rightarrow> tool \<Rightarrow> bool \<times> tool" where
  "gim_start i t = (let (ok, t) = gim_send_simple i 0x91 t in (ok, if ok then gim_set_enabled i True t else t))"

definition gim_stop :: "u8 \<Rightarrow> tool \<Rightarrow> bool \<times> tool" where
  "gim_stop i t = (let (ok, t) = gim_send_simple i 0x92 t in (ok, if ok then gim_set_enabled i False t else t))"

definition gim_pause :: "u8 \<Rightarrow> tool \<Rightarrow> bool \<times> tool" where "gim_pause i = gim_send_simple i 0x97"

text \<open>A float and the low 24 bits of a duration behind the command.\<close>
definition gim_motion_data :: "u8 \<Rightarrow> flt \<Rightarrow> u32 \<Rightarrow> bytes" where
  "gim_motion_data cmd x dur = cmd # f32_bytes x @ take 3 (le_bytes32 dur)"

definition gim_refused :: "u8 \<Rightarrow> tool \<Rightarrow> bool" where
  "gim_refused i t = (\<not> gim_id_ok i \<or> \<not> gs_enabled (gd_state (dr_gim (tl_drv t)) ! unat i))"

definition gim_torque :: "u8 \<Rightarrow> flt \<Rightarrow> u32 \<Rightarrow> tool \<Rightarrow> bool \<times> tool" where
  "gim_torque i torque dur t =
    (let l = gd_limit (dr_gim (tl_drv t)) in
     if gim_refused i t then (False, t) else gim_send i (gim_motion_data 0x93 (clampf torque (- l) l) dur) t)"

definition gim_velocity :: "u8 \<Rightarrow> flt \<Rightarrow> u32 \<Rightarrow> tool \<Rightarrow> bool \<times> tool" where
  "gim_velocity i vel dur t =
    (if gim_refused i t then (False, t)
     else gim_send i (gim_motion_data 0x94 (vel * (Fin 60 / (Fin 2 * PI_F))) dur) t)"

definition gim_position :: "u8 \<Rightarrow> flt \<Rightarrow> u32 \<Rightarrow> tool \<Rightarrow> bool \<times> tool" where
  "gim_position i pos dur t = (if gim_refused i t then (False, t) else gim_send i (gim_motion_data 0x95 pos dur) t)"

definition gim_get_fault :: "u8 \<Rightarrow> tool \<Rightarrow> bool \<times> tool" where "gim_get_fault i = gim_send_simple i 0xB2"
definition gim_ack_fault :: "u8 \<Rightarrow> tool \<Rightarrow> bool \<times> tool" where "gim_ack_fault i = gim_send_simple i 0xB3"

definition gim_get_indicator :: "u8 \<Rightarrow> u8 \<Rightarrow> tool \<Rightarrow> bool \<times> tool" where
  "gim_get_indicator i ind t = (if \<not> gim_id_ok i then (False, t) else gim_send i [0xB4, ind, 0, 0, 0, 0, 0, 0] t)"

definition gim_get_state :: "nat \<Rightarrow> drivers \<Rightarrow> gim_state option" where
  "gim_get_state i d = (if gim_id_ok (of_nat i) then Some (gd_state (dr_gim d) ! i) else None)"

definition gim_stop_all :: "tool \<Rightarrow> tool" where
  "gim_stop_all t = fold (\<lambda>i t. let st = gd_state (dr_gim (tl_drv t)) ! i in
       if gs_enabled st \<or> gs_valid st then snd (gim_stop (of_nat i) t) else t) [1..<Suc GIM_ID_MAX] t"

text \<open>Position in 16 bits, speed and torque in twelve each.\<close>
definition decode_control_response :: "flt \<Rightarrow> flt \<Rightarrow> u32 \<Rightarrow> bytes \<Rightarrow> gim_state \<Rightarrow> gim_state" where
  "decode_control_response kt gear now d st =
    (let pos_raw = le16 d 3;
         speed_raw = (push_bit 4 (ucast (d ! 5)) :: u16) OR ucast (drop_bit 4 (d ! 6));
         torque_raw = (push_bit 8 (ucast (d ! 6 AND 0x0F)) :: u16) OR ucast (d ! 7);
         kt_gear = kt * gear
     in st\<lparr>gs_pos := flt_of_int (uint pos_raw) * (Fin 25 / Fin 65535) - Fin 12.5,
           gs_vel := flt_of_int (uint speed_raw) * (Fin 130 / Fin 4095) - Fin 65,
           gs_torque := flt_of_int (uint torque_raw) * (Fin 450 * kt_gear / Fin 4095) - Fin 225 * kt_gear,
           gs_temp := flt_of_int (uint (d ! 2)), gs_valid := True, gs_ms := now\<rparr>)"

definition gim_rx :: "u32 \<Rightarrow> canbus \<Rightarrow> can_frame \<Rightarrow> gim_drv \<Rightarrow> gim_drv" where
  "gim_rx now b f dv =
    (if b \<noteq> gd_bus dv \<or> fr_xtd f \<or> fr_dlc f < 8 then dv
     else case find (\<lambda>k. ucast (gim_get_reply_id (of_nat k) dv) = std_sid f) [1..<Suc GIM_ID_MAX] of None \<Rightarrow> dv
     | Some i \<Rightarrow>
         (let d = fr_data f; cmd = d ! 0;
              upd = (\<lambda>g. dv\<lparr>gd_state := (gd_state dv)[i := g (gd_state dv ! i)]\<rparr>)
          in if cmd = 0x91 then upd (\<lambda>st. st\<lparr>gs_enabled := (d ! 1 = 0), gs_valid := True, gs_ms := now\<rparr>)
             else if cmd = 0x92 then upd (\<lambda>st. st\<lparr>gs_enabled := False, gs_valid := True, gs_ms := now\<rparr>)
             else if cmd \<in> {0x93, 0x94, 0x95} then upd (decode_control_response (gd_kt dv) (gd_gear dv) now d)
             else if cmd = 0xB2 then upd (\<lambda>st. st\<lparr>gs_fault := d ! 2, gs_valid := True, gs_ms := now\<rparr>)
             else if cmd = 0xB3 then upd (\<lambda>st. st\<lparr>gs_valid := True, gs_ms := now\<rparr>)
             else if cmd = 0xB4 then upd (\<lambda>st. st\<lparr>gs_indicator := f32_read d 4, gs_indicator_id := d ! 1,
                    gs_valid := True, gs_ms := now\<rparr>)
             else dv))"

section \<open>ODrive axes\<close>

definition odrive_set_torque_limit :: "flt \<Rightarrow> odrive_drv \<Rightarrow> odrive_drv" where
  "odrive_set_torque_limit l d = d\<lparr>od_limit := (if l < Fin 0 then Fin 0 else l)\<rparr>"

definition odrive_id_ok :: "u8 \<Rightarrow> bool" where
  "odrive_id_ok i = (unat i \<le> ODRIVE_ID_MAX)"

definition odrive_send :: "u8 \<Rightarrow> u8 \<Rightarrow> bytes \<Rightarrow> tool \<Rightarrow> bool \<times> tool" where
  "odrive_send i cmd data t =
    (if \<not> odrive_id_ok i then (False, t) else tool_send (od_bus (dr_odr (tl_drv t))) (odrive_arb_id i cmd) data t)"

definition odrive_set_mode :: "u8 \<Rightarrow> bool \<Rightarrow> tool \<Rightarrow> bool \<times> tool" where
  "odrive_set_mode i velocity_mode = odrive_send i ODRIVE_CMD_SET_CONTROLLER_MODE
     (le_bytes32 (if velocity_mode then ODRIVE_CONTROL_MODE_VELOCITY else ODRIVE_CONTROL_MODE_TORQUE)
       @ le_bytes32 ODRIVE_INPUT_MODE_PASSTHROUGH)"

definition tool_axis_state :: "u8 \<Rightarrow> u32 \<Rightarrow> tool \<Rightarrow> bool \<times> tool" where
  "tool_axis_state i st = odrive_send i ODRIVE_CMD_SET_AXIS_STATE (le_bytes32 st @ [0, 0, 0, 0])"

definition odrive_start :: "u8 \<Rightarrow> tool \<Rightarrow> bool \<times> tool" where
  "odrive_start i t =
    (let (mode_ok, t) = odrive_set_mode i False t;
         (state_ok, t) = tool_axis_state i ODRIVE_AXIS_STATE_CLOSED_LOOP t
     in (mode_ok \<and> state_ok, t))"

definition odrive_idle :: "u8 \<Rightarrow> tool \<Rightarrow> bool \<times> tool" where "odrive_idle i = tool_axis_state i ODRIVE_AXIS_STATE_IDLE"

definition odrive_torque :: "u8 \<Rightarrow> flt \<Rightarrow> tool \<Rightarrow> bool \<times> tool" where
  "odrive_torque i torque t =
    (let dv = dr_odr (tl_drv t); torque = clampf torque (- od_limit dv) (od_limit dv)
     in odrive_send i ODRIVE_CMD_SET_INPUT_TORQUE (f32_bytes (torque / od_gear dv) @ [0, 0, 0, 0]) t)"

definition odrive_velocity :: "u8 \<Rightarrow> flt \<Rightarrow> tool \<Rightarrow> bool \<times> tool" where
  "odrive_velocity i vel t =
     odrive_send i ODRIVE_CMD_SET_INPUT_VEL (f32_bytes (vel * od_gear (dr_odr (tl_drv t))) @ f32_bytes (Fin 0)) t"

definition odrive_get_state :: "nat \<Rightarrow> drivers \<Rightarrow> odrive_state option" where
  "odrive_get_state i d = (if odrive_id_ok (of_nat i) then Some (od_state (dr_odr d) ! i) else None)"

definition odrive_list_seen :: "u32 \<Rightarrow> nat \<Rightarrow> u32 \<Rightarrow> odrive_drv \<Rightarrow> nat list" where
  "odrive_list_seen now mx max_age dv =
     take mx (filter (\<lambda>i. os_valid (od_state dv ! i) \<and> now - os_ms (od_state dv ! i) \<le> max_age) [0..<Suc ODRIVE_ID_MAX])"

definition odrive_stop_all :: "tool \<Rightarrow> tool" where
  "odrive_stop_all t = fold (\<lambda>i t. if os_valid (od_state (dr_odr (tl_drv t)) ! i) then snd (odrive_idle (of_nat i) t) else t)
     [0..<Suc ODRIVE_ID_MAX] t"

definition odrive_rx :: "u32 \<Rightarrow> canbus \<Rightarrow> can_frame \<Rightarrow> odrive_drv \<Rightarrow> odrive_drv" where
  "odrive_rx now b f dv =
    (if b \<noteq> od_bus dv \<or> fr_xtd f \<or> fr_dlc f < 8 then dv
     else let sid = std_sid f; cmd = ucast (sid AND 0x1F) :: u8; i = unat (ucast (drop_bit 5 sid) :: u8);
              d = fr_data f; g = od_gear dv;
              upd = (\<lambda>h. dv\<lparr>od_state := (od_state dv)[i := h (od_state dv ! i)]\<rparr>)
       in if cmd = ODRIVE_CMD_HEARTBEAT then
            upd (\<lambda>st. st\<lparr>os_error := le_word32 d 0, os_axis := d ! 4, os_valid := True, os_ms := now\<rparr>)
          else if cmd = ODRIVE_CMD_GET_ENCODER_EST then
            upd (\<lambda>st. st\<lparr>os_pos := f32_read d 0 * (Fin 2 * PI_F) / g, os_vel := f32_read d 4 * (Fin 2 * PI_F) / g\<rparr>)
          else dv)"

section \<open>The IMX5 unit\<close>

definition imx5_rx :: "u32 \<Rightarrow> canbus \<Rightarrow> can_frame \<Rightarrow> imx5_state \<Rightarrow> imx5_state" where
  "imx5_rx now b f s =
    (if b \<noteq> CAN_BUS_2 \<or> fr_xtd f \<or> fr_dlc f < 8 then s
     else let d = fr_data f; sid = std_sid f in
       if sid = 0x01 then
         s\<lparr>xs_q0 := le16s d 0 * (Fin 1 / Fin 10000), xs_q1 := le16s d 2 * (Fin 1 / Fin 10000),
           xs_q2 := le16s d 4 * (Fin 1 / Fin 10000), xs_q3 := le16s d 6 * (Fin 1 / Fin 10000),
           xs_valid := True, xs_quat_ms := now\<rparr>
       else if sid = 0x02 then
         s\<lparr>xs_p := le16s d 0 * (Fin 1 / Fin 1000), xs_ax := le16s d 2 * (Fin 1 / Fin 100), xs_valid := True,
           xs_rate_ms := now\<rparr>
       else if sid = 0x03 then s\<lparr>xs_q := le16s d 0 * (Fin 1 / Fin 1000), xs_ay := le16s d 2 * (Fin 1 / Fin 100)\<rparr>
       else if sid = 0x04 then s\<lparr>xs_r := le16s d 0 * (Fin 1 / Fin 1000), xs_az := le16s d 2 * (Fin 1 / Fin 100)\<rparr>
       else s)"

definition imx5_get_state :: "imx5_state \<Rightarrow> imx5_state option" where
  "imx5_get_state s = (if xs_valid s then Some s else None)"

definition imx5_quat_to_euler :: "flt \<Rightarrow> flt \<Rightarrow> flt \<Rightarrow> flt \<Rightarrow> flt \<times> flt \<times> flt" where
  "imx5_quat_to_euler q0 q1 q2 q3 =
    (let two = Fin 2; one = Fin 1 in
     (atan2f (two * (q0 * q1 + q2 * q3)) (one - two * (q1 * q1 + q2 * q2)),
      asinf (fmaxf (- one) (fminf one (two * (q0 * q2 - q3 * q1)))),
      atan2f (two * (q0 * q3 + q1 * q2)) (one - two * (q2 * q2 + q3 * q3))))"

section \<open>The subscribers and the initial state\<close>

definition run_tool_cb :: "u32 \<Rightarrow> tool_cb \<Rightarrow> canbus \<Rightarrow> can_frame \<Rightarrow> drivers \<Rightarrow> drivers" where
  "run_tool_cb now cb b f d =
    (case cb of TCB_RMD \<Rightarrow> d\<lparr>dr_rmd := rmd_rx now b f (dr_rmd d)\<rparr>
     | TCB_GIM \<Rightarrow> d\<lparr>dr_gim := gim_rx now b f (dr_gim d)\<rparr>
     | TCB_ODRIVE \<Rightarrow> d\<lparr>dr_odr := odrive_rx now b f (dr_odr d)\<rparr>
     | TCB_IMX5 \<Rightarrow> d\<lparr>dr_imx := imx5_rx now b f (dr_imx d)\<rparr>)"

text \<open>A frame received on a bus.\<close>
definition tool_receive :: "u32 \<Rightarrow> canbus \<Rightarrow> can_frame \<Rightarrow> tool \<Rightarrow> tool" where
  "tool_receive now b f t =
    (let (c, d) = tool_dispatch run_tool_cb now b f (tl_can t, tl_drv t) in t\<lparr>tl_can := c, tl_drv := d\<rparr>)"

definition rmd_init :: "tool \<Rightarrow> tool" where
  "rmd_init t = (upd_drv (\<lambda>d. d\<lparr>dr_rmd := (dr_rmd d)\<lparr>rd_state := replicate (Suc RMD_ID_MAX) rmd_state_zero\<rparr>\<rparr>) t)
     \<lparr>tl_can := can_subscribe TCB_RMD (tl_can t)\<rparr>"

definition gim_init :: "tool \<Rightarrow> tool" where
  "gim_init t = (upd_drv (\<lambda>d. d\<lparr>dr_gim := (dr_gim d)\<lparr>gd_state := replicate (Suc GIM_ID_MAX) gim_state_zero,
     gd_reply_id := replicate (Suc GIM_ID_MAX) 0\<rparr>\<rparr>) t)\<lparr>tl_can := can_subscribe TCB_GIM (tl_can t)\<rparr>"

definition odrive_init :: "tool \<Rightarrow> tool" where
  "odrive_init t = (upd_drv (\<lambda>d. d\<lparr>dr_odr := (dr_odr d)\<lparr>od_state := replicate (Suc ODRIVE_ID_MAX) odrive_state_zero\<rparr>\<rparr>) t)
     \<lparr>tl_can := can_subscribe TCB_ODRIVE (tl_can t)\<rparr>"

definition imx5_init :: "tool \<Rightarrow> tool" where
  "imx5_init t = (upd_drv (\<lambda>d. d\<lparr>dr_imx := imx5_state_zero\<rparr>) t)\<lparr>tl_can := can_subscribe TCB_IMX5 (tl_can t)\<rparr>"

text \<open>The static initial values.\<close>
definition tool_static :: "(nat \<Rightarrow> bool) \<Rightarrow> tool" where
  "tool_static ans = \<lparr>tl_can = tcan_new ans,
     tl_drv = \<lparr>dr_rmd = \<lparr>rd_state = replicate 33 rmd_state_zero, rd_bus = CAN_BUS_1, rd_scale = RMD_TORQUE_SCALE_DEFAULT\<rparr>,
       dr_gim = \<lparr>gd_state = replicate 33 gim_state_zero, gd_bus = CAN_BUS_1, gd_reply_id = replicate 33 0,
         gd_kt = Fin 1, gd_gear = Fin 1, gd_limit = GIM_DEFAULT_TORQUE_LIMIT_NM\<rparr>,
       dr_odr = \<lparr>od_state = replicate 64 odrive_state_zero, od_bus = CAN_BUS_1, od_gear = Fin 8,
         od_limit = ODRIVE_DEFAULT_TORQUE_LIMIT_NM\<rparr>,
       dr_imx = imx5_state_zero\<rparr>,
     tl_bus = CAN_BUS_1, tl_host_ms = 0, tl_stop_ms = 0, tl_line = []\<rparr>"

text \<open>main, up to the start of the shell.\<close>
definition tool_boot :: "(nat \<Rightarrow> bool) \<Rightarrow> tool" where
  "tool_boot ans = imx5_init (odrive_init (gim_init (rmd_init (tool_static ans))))"

end
