(* ===== verification/ToolShell.thy ===== *)
theory ToolShell
  imports ToolMotors UsbCmd
begin

text \<open>
  The command shell of the bench program (src/Motor_tool/src/CmdShell.cpp): the line reader, every command,
  the stream of the live monitor, the watchdog that stops the motors when the host is silent, and the
  program's steps.  A reply is a value as in theory UsbCmd: the format's fixed text with the values printed
  into it, without the line end.  The clock, the register files and the frames the self-test polls are the
  argument env.
\<close>

record tool_env =
  te_now :: u32
  te_regs :: "canbus \<Rightarrow> nat \<Rightarrow> u32"
  te_polls :: "(u32 \<times> can_frame option) list"

definition fok :: "bool \<Rightarrow> field" where "fok ok = FStr (if ok then ''OK'' else ''ERR'')"

text \<open>The answer to a command for one motor.\<close>
definition answer :: "string \<Rightarrow> nat \<Rightarrow> bool \<times> tool \<Rightarrow> out list \<times> tool" where
  "answer fmt i r = ([Line fmt [fnat i, fok (fst r)]], snd r)"

definition tool_set_can :: "tool_cb tcan \<Rightarrow> tool \<Rightarrow> tool" where "tool_set_can c t = t\<lparr>tl_can := c\<rparr>"
definition tool_set_mon :: "monitor \<Rightarrow> tool \<Rightarrow> tool" where "tool_set_mon m t = tool_set_can ((tl_can t)\<lparr>tc_mon := m\<rparr>) t"
definition upd_rmd :: "(rmd_drv \<Rightarrow> rmd_drv) \<Rightarrow> tool \<Rightarrow> tool" where
  "upd_rmd f = upd_drv (\<lambda>d. d\<lparr>dr_rmd := f (dr_rmd d)\<rparr>)"
definition upd_gim :: "(gim_drv \<Rightarrow> gim_drv) \<Rightarrow> tool \<Rightarrow> tool" where
  "upd_gim f = upd_drv (\<lambda>d. d\<lparr>dr_gim := f (dr_gim d)\<rparr>)"
definition upd_odr :: "(odrive_drv \<Rightarrow> odrive_drv) \<Rightarrow> tool \<Rightarrow> tool" where
  "upd_odr f = upd_drv (\<lambda>d. d\<lparr>dr_odr := f (dr_odr d)\<rparr>)"

section \<open>Watchdog\<close>

definition touch_watchdog :: "u32 \<Rightarrow> tool \<Rightarrow> tool" where "touch_watchdog now t = t\<lparr>tl_host_ms := now\<rparr>"

definition tool_stop_all :: "tool \<Rightarrow> tool" where "tool_stop_all t = odrive_stop_all (gim_stop_all (rmd_stop_all t))"

definition WD_TIMEOUT_MS :: u32 where "WD_TIMEOUT_MS = 500"
definition RESEND_PERIOD_MS :: u32 where "RESEND_PERIOD_MS = 100"

text \<open>One round of the watchdog thread.\<close>
definition watchdog_round :: "u32 \<Rightarrow> tool \<Rightarrow> tool" where
  "watchdog_round now t =
    (if WD_TIMEOUT_MS < now - tl_host_ms t \<and> RESEND_PERIOD_MS < now - tl_stop_ms t
     then (tool_stop_all t)\<lparr>tl_stop_ms := now\<rparr> else t)"

section \<open>Conversions\<close>

definition hex_val :: "char \<Rightarrow> nat option" where
  "hex_val c = (let n = of_char c :: nat in
     if 48 \<le> n \<and> n \<le> 57 then Some (n - 48) else if 65 \<le> n \<and> n \<le> 70 then Some (n - 55)
     else if 97 \<le> n \<and> n \<le> 102 then Some (n - 87) else None)"

definition is_hex :: "char \<Rightarrow> bool" where "is_hex c = (hex_val c \<noteq> None)"

definition hex_digits_val :: "string \<Rightarrow> nat" where
  "hex_digits_val ds = fold (\<lambda>c n. 16 * n + (case hex_val c of None \<Rightarrow> 0 | Some d \<Rightarrow> d)) ds 0"

text \<open>The prefix 0x, if a digit follows it.\<close>
definition skip_hex_prefix :: "string \<Rightarrow> string" where
  "skip_hex_prefix s = (case s of a # b # c # r \<Rightarrow> if a = CHR ''0'' \<and> (b = CHR ''x'' \<or> b = CHR ''X'') \<and> is_hex c then c # r else s
     | _ \<Rightarrow> s)"

text \<open>%x\<close>
definition scan_hex :: "string \<Rightarrow> (nat \<times> string) option" where
  "scan_hex s =
    (let (neg, s) = scan_sign (skip_space s); s = skip_hex_prefix s; ds = takeWhile is_hex s; n = hex_digits_val ds in
     if ds = [] then None
     else Some (if 2 ^ 32 \<le> n then 2 ^ 32 - 1 else if neg then (2 ^ 32 - n) mod 2 ^ 32 else n, dropWhile is_hex s))"

text \<open>n times a comma and %x.\<close>
primrec scan_hexes :: "nat \<Rightarrow> string \<Rightarrow> (nat list \<times> string) option" where
  "scan_hexes 0 s = Some ([], s)"
| "scan_hexes (Suc n) s = (case scan_char CHR '','' s of None \<Rightarrow> None
     | Some s \<Rightarrow> case scan_hex s of None \<Rightarrow> None
     | Some (x, s) \<Rightarrow> map_option (\<lambda>(xs, r). (x # xs, r)) (scan_hexes n s))"

text \<open>The conversion of a single number; what follows it is ignored.\<close>
definition one_float :: "string \<Rightarrow> flt option" where "one_float s = map_option fst (scan_float s)"
definition one_uint :: "string \<Rightarrow> nat option" where "one_uint s = map_option fst (scan_uint s)"
definition one_int :: "string \<Rightarrow> int option" where "one_int s = map_option fst (scan_int s)"

text \<open>A comma and a number, if they are there.\<close>
definition comma :: "(string \<Rightarrow> 'a option) \<Rightarrow> string \<Rightarrow> 'a option" where
  "comma conv s = Option.bind (scan_char CHR '','' s) conv"

text \<open>%f,%f with what follows; %f,%u with the default of the second.\<close>
definition two_floats :: "string \<Rightarrow> (flt \<times> flt \<times> string) option" where
  "two_floats s = Option.bind (scan_float s) (\<lambda>(a, r). Option.bind (scan_char CHR '','' r)
     (\<lambda>r. map_option (\<lambda>(b, r). (a, b, r)) (scan_float r)))"

definition float_and_duration :: "string \<Rightarrow> (flt \<times> u32) option" where
  "float_and_duration s = map_option (\<lambda>(v, r). (v, of_nat (case comma one_uint r of None \<Rightarrow> 1000 | Some d \<Rightarrow> d))) (scan_float s)"

text \<open>The identifier at the front of a motor command, and the text behind its comma.\<close>
definition motor_id :: "nat \<Rightarrow> nat \<Rightarrow> string \<Rightarrow> (nat \<times> string) option" where
  "motor_id lo hi rest = (case scan_uint rest of None \<Rightarrow> None
     | Some (i, p) \<Rightarrow> if i < lo \<or> hi < i then None else Some (i, if starts '','' p then drop 1 p else p))"

section \<open>CAN commands\<close>

definition handle_can_send :: "string \<Rightarrow> tool \<Rightarrow> out list \<times> tool" where
  "handle_can_send rest t =
    (let bad = ([Line ''CAN,SEND,ERR,bad_args'' []], t) in
     case scan_hex rest of None \<Rightarrow> bad
     | Some (i, r) \<Rightarrow> case scan_char CHR '','' r of None \<Rightarrow> bad
     | Some r \<Rightarrow> case scan_uint r of None \<Rightarrow> bad
     | Some (ext, r) \<Rightarrow> case scan_hexes 8 r of None \<Rightarrow> bad
     | Some (bs, r) \<Rightarrow>
         (let (ok, t) = tool_send (tl_bus t) (of_nat i) (map of_nat bs) t
          in ([Line ''CAN,SEND,%s'' [fok ok]], t)))"

definition reg_line :: "tool_env \<Rightarrow> canbus \<Rightarrow> out" where
  "reg_line env b = Line ''CAN,STATUS,bus=%d,psr=0x%08x,ecr=0x%08x,rxf0s=0x%08x,cccr=0x%08x''
     (fnat (Suc (bus_number b)) # map (\<lambda>off. fword (te_regs env b off)) [0x044, 0x040, 0x0A4, 0x018])"

definition tool_diag_line :: "canbus \<Rightarrow> tool \<Rightarrow> out" where
  "tool_diag_line b t = (let d = tc_diag (tl_can t) b in
     Line ''CAN,DIAG,bus=%d,total_rx=%lu,last_sid=0x%03x,last_dlc=%u''
       [fnat (Suc (bus_number b)), fword (td_total_rx d), fword (td_last_sid d), fword (td_last_dlc d)])"

definition scan_lines :: "tool \<Rightarrow> out list" where
  "scan_lines t = map (\<lambda>e. Line ''CAN,SCAN,id=%s0x%03lx,count=%lu'' [FStr (if sc_is_ext e then ''EXT:'' else []),
     fword (sc_id e), fword (sc_count e)]) (tool_scan_get TOOL_SCAN_MAX (tl_can t)) @ [Line ''CAN,SCAN,END'' []]"

definition handle_selftest :: "tool_env \<Rightarrow> tool \<Rightarrow> out list \<times> tool" where
  "handle_selftest env t =
    (let b = tl_bus t; (r, c, d) = can_selftest run_tool_cb b (te_polls env) (tl_can t, tl_drv t)
     in ([Line ''CAN,SELFTEST,%s,bus=%d,tx_accepted=%d,rx_matched=%d,rx_total=%lu->%lu''
          [FStr (if sr_rx_matched r then ''PASS'' else ''FAIL''), fnat (Suc (bus_number b)), fbool (sr_tx_accepted r),
           fbool (sr_rx_matched r), fword (sr_before r), fword (sr_after r)]],
        t\<lparr>tl_can := c, tl_drv := d\<rparr>))"

definition handle_can :: "tool_env \<Rightarrow> string \<Rightarrow> tool \<Rightarrow> out list \<times> tool" where
  "handle_can env rest t =
    (if rest = ''status'' then ([reg_line env CAN_BUS_1, reg_line env CAN_BUS_2], t)
     else if rest = ''diag'' then ([tool_diag_line CAN_BUS_1 t, tool_diag_line CAN_BUS_2 t], t)
     else if rest = ''scan,start'' then
       ([Line ''CAN,SCAN,started,bus=%d'' [fnat (Suc (bus_number (tl_bus t)))]], tool_set_can (tool_scan_start (tl_bus t) (tl_can t)) t)
     else if rest = ''scan,stop'' then (let t = tool_set_can (tool_scan_stop (tl_can t)) t in (scan_lines t, t))
     else if rest = ''monitor,start'' then
       ([Line ''CAN,MONITOR,started'' []], tool_set_mon (can_monitor_start (tc_mon (tl_can t))) t)
     else if rest = ''monitor,stop'' then
       ([Line ''CAN,MONITOR,stopped'' []], tool_set_mon (can_monitor_stop (tc_mon (tl_can t))) t)
     else if starts ''send,'' rest then handle_can_send (drop 5 rest) t
     else if rest = ''selftest'' then handle_selftest env t
     else ([Line ''CAN,ERR,unknown_cmd'' []], t))"

section \<open>RMD commands\<close>

text \<open>A command whose arguments may not convert; then nothing is sent.\<close>
definition with_arg :: "'a option \<Rightarrow> ('a \<Rightarrow> tool \<Rightarrow> bool \<times> tool) \<Rightarrow> tool \<Rightarrow> bool \<times> tool" where
  "with_arg arg f t = (case arg of None \<Rightarrow> (False, t) | Some x \<Rightarrow> f x t)"

definition rmd_command :: "nat \<Rightarrow> string \<Rightarrow> tool \<Rightarrow> out list \<times> tool" where
  "rmd_command n p t =
    (let i = of_nat n :: u8 in
     if starts ''TORQUERAW,'' p then
       answer ''RMD,%u,TORQUERAW,%s'' n (with_arg (one_int (drop 10 p)) (\<lambda>v. rmd_torque_raw i (of_int v)) t)
     else if starts ''TORQUE,'' p then
       answer ''RMD,%u,TORQUE,%s'' n (with_arg (one_float (drop 7 p)) (rmd_torque i) t)
     else if starts ''VELOCITY,'' p then
       answer ''RMD,%u,VELOCITY,%s'' n (with_arg (one_float (drop 9 p)) (rmd_velocity i) t)
     else if starts ''POSITION,'' p then
       answer ''RMD,%u,POSITION,%s'' n (with_arg (two_floats (drop 9 p)) (\<lambda>(a, s, r). rmd_position i a s) t)
     else if starts ''INCREMENT,'' p then
       answer ''RMD,%u,INCREMENT,%s'' n (with_arg (one_float (drop 10 p)) (rmd_increment_position i) t)
     else if starts ''SINGLETURN,'' p then
       answer ''RMD,%u,SINGLETURN,%s'' n (with_arg (two_floats (drop 11 p)) (\<lambda>(a, s, r).
         rmd_position_single_turn i a s (case comma one_int r of None \<Rightarrow> True | Some dir \<Rightarrow> dir \<noteq> 0)) t)
     else if p = ''STOP'' then answer ''RMD,%u,STOP,%s'' n (rmd_stop i t)
     else if p = ''OFF'' then answer ''RMD,%u,OFF,%s'' n (rmd_off i t)
     else if p = ''RESUME'' then answer ''RMD,%u,RESUME,%s'' n (rmd_resume i t)
     else if p = ''STATUS'' then answer ''RMD,%u,STATUS,%s'' n (rmd_request_status i t)
     else if p = ''CLEARERR'' then answer ''RMD,%u,CLEARERR,%s'' n (rmd_clear_error i t)
     else if p = ''ENCODER'' then answer ''RMD,%u,ENCODER,%s'' n (rmd_read_encoder i t)
     else ([Line ''RMD,%u,ERR,unknown_cmd'' [fnat n]], t))"

definition handle_rmd :: "string \<Rightarrow> tool \<Rightarrow> out list \<times> tool" where
  "handle_rmd rest t =
    (if starts ''SCALE,'' rest then
       (case one_float (drop 6 rest) of
          Some v \<Rightarrow> ([Line ''RMD,SCALE,OK,%.3f'' [FFlt v]], upd_rmd (rmd_set_torque_scale v) t)
        | None \<Rightarrow> ([Line ''RMD,SCALE,%.3f'' [FFlt (rd_scale (dr_rmd (tl_drv t)))]], t))
     else case motor_id 1 RMD_ID_MAX rest of None \<Rightarrow> ([Line ''RMD,ERR,bad_id'' []], t)
       | Some (n, p) \<Rightarrow> rmd_command n p (upd_rmd (rmd_set_bus (tl_bus t)) t))"

section \<open>GIM commands\<close>

definition gim_answer :: "string \<Rightarrow> nat \<Rightarrow> bool \<times> tool \<Rightarrow> out list \<times> tool" where
  "gim_answer fmt n r = ([Line fmt [fnat n, FStr (if fst r then ''OK'' else ''ERR,not_started_or_bad_args'')]], snd r)"

definition gim_command :: "nat \<Rightarrow> string \<Rightarrow> tool \<Rightarrow> out list \<times> tool" where
  "gim_command n p t =
    (let i = of_nat n :: u8 in
     if p = ''START'' then answer ''GIM,%u,START,%s'' n (gim_start i t)
     else if p = ''STOP'' then answer ''GIM,%u,STOP,%s'' n (gim_stop i t)
     else if p = ''PAUSE'' then answer ''GIM,%u,PAUSE,%s'' n (gim_pause i t)
     else if starts ''TORQUE,'' p then
       gim_answer ''GIM,%u,TORQUE,%s'' n (with_arg (float_and_duration (drop 7 p)) (\<lambda>(v, dur). gim_torque i v dur) t)
     else if starts ''VELOCITY,'' p then
       gim_answer ''GIM,%u,VELOCITY,%s'' n (with_arg (float_and_duration (drop 9 p)) (\<lambda>(v, dur). gim_velocity i v dur) t)
     else if starts ''POSITION,'' p then
       gim_answer ''GIM,%u,POSITION,%s'' n (with_arg (float_and_duration (drop 9 p)) (\<lambda>(v, dur). gim_position i v dur) t)
     else if p = ''FAULT'' then answer ''GIM,%u,FAULT,%s'' n (gim_get_fault i t)
     else if p = ''ACKFAULT'' then answer ''GIM,%u,ACKFAULT,%s'' n (gim_ack_fault i t)
     else if starts ''IND,'' p then
       answer ''GIM,%u,IND,%s'' n (with_arg (one_uint (drop 4 p)) (\<lambda>ind. gim_get_indicator i (of_nat ind)) t)
     else if starts ''MASTERID,'' p then
       (let t = (case one_uint (drop 9 p) of None \<Rightarrow> t | Some reply \<Rightarrow> upd_gim (gim_set_reply_id i (of_nat reply)) t)
        in ([Line ''GIM,%u,MASTERID,%u'' [fnat n, fword (gim_get_reply_id i (dr_gim (tl_drv t)))]], t))
     else ([Line ''GIM,%u,ERR,unknown_cmd'' [fnat n]], t))"

definition handle_gim :: "string \<Rightarrow> tool \<Rightarrow> out list \<times> tool" where
  "handle_gim rest t =
    (if starts ''LIMIT,'' rest then
       (case one_float (drop 6 rest) of
          Some v \<Rightarrow> (let t = upd_gim (gim_set_torque_limit v) t in ([Line ''GIM,LIMIT,OK,%.3f'' [FFlt (gd_limit (dr_gim (tl_drv t)))]], t))
        | None \<Rightarrow> ([Line ''GIM,LIMIT,%.3f'' [FFlt (gd_limit (dr_gim (tl_drv t)))]], t))
     else if starts ''KT,'' rest then
       (let t = (case one_float (drop 3 rest) of None \<Rightarrow> t | Some v \<Rightarrow> upd_gim (\<lambda>d. d\<lparr>gd_kt := v\<rparr>) t)
        in ([Line ''GIM,KT,%.4f'' [FFlt (gd_kt (dr_gim (tl_drv t)))]], t))
     else if starts ''GEAR,'' rest then
       (let t = (case one_float (drop 5 rest) of None \<Rightarrow> t | Some v \<Rightarrow> upd_gim (\<lambda>d. d\<lparr>gd_gear := v\<rparr>) t)
        in ([Line ''GIM,GEAR,%.4f'' [FFlt (gd_gear (dr_gim (tl_drv t)))]], t))
     else case motor_id 1 GIM_ID_MAX rest of None \<Rightarrow> ([Line ''GIM,ERR,bad_id'' []], t)
       | Some (n, p) \<Rightarrow> gim_command n p (upd_gim (\<lambda>d. d\<lparr>gd_bus := tl_bus t\<rparr>) t))"

section \<open>ODrive commands\<close>

definition odrive_list_lines :: "u32 \<Rightarrow> tool \<Rightarrow> out list" where
  "odrive_list_lines now t = (let dv = dr_odr (tl_drv t) in
     map (\<lambda>i. let st = od_state dv ! i in Line ''ODRIVE,LIST,id=%u,axis_state=%u,axis_error=0x%08lx,age_ms=%lu''
         [fnat i, fword (os_axis st), fword (os_error st), fword (now - os_ms st)])
       (odrive_list_seen now (Suc ODRIVE_ID_MAX) 2000 dv) @ [Line ''ODRIVE,LIST,END'' []])"

definition odrive_command :: "nat \<Rightarrow> string \<Rightarrow> tool \<Rightarrow> out list \<times> tool" where
  "odrive_command n p t =
    (let i = of_nat n :: u8 in
     if p = ''START'' then answer ''ODRIVE,%u,START,%s'' n (odrive_start i t)
     else if p = ''IDLE'' \<or> p = ''STOP'' then answer ''ODRIVE,%u,IDLE,%s'' n (odrive_idle i t)
     else if starts ''MODE,'' p then
       (let m = drop 5 p; known = (m = ''TORQUE'' \<or> m = ''VELOCITY'')
        in answer ''ODRIVE,%u,MODE,%s'' n (if known then odrive_set_mode i (m = ''VELOCITY'') t else (False, t)))
     else if starts ''TORQUE,'' p then
       answer ''ODRIVE,%u,TORQUE,%s'' n (with_arg (one_float (drop 7 p)) (odrive_torque i) t)
     else if starts ''VELOCITY,'' p then
       answer ''ODRIVE,%u,VELOCITY,%s'' n (with_arg (one_float (drop 9 p)) (odrive_velocity i) t)
     else ([Line ''ODRIVE,%u,ERR,unknown_cmd'' [fnat n]], t))"

definition handle_odrive :: "u32 \<Rightarrow> string \<Rightarrow> tool \<Rightarrow> out list \<times> tool" where
  "handle_odrive now rest t =
    (if rest = ''LIST'' then (odrive_list_lines now t, t)
     else if starts ''GEAR,'' rest then
       (let t = (case one_float (drop 5 rest) of None \<Rightarrow> t | Some v \<Rightarrow> upd_odr (\<lambda>d. d\<lparr>od_gear := v\<rparr>) t)
        in ([Line ''ODRIVE,GEAR,%.4f'' [FFlt (od_gear (dr_odr (tl_drv t)))]], t))
     else if starts ''LIMIT,'' rest then
       (let t = (case one_float (drop 6 rest) of None \<Rightarrow> t | Some v \<Rightarrow> upd_odr (odrive_set_torque_limit v) t)
        in ([Line ''ODRIVE,LIMIT,%.3f'' [FFlt (od_limit (dr_odr (tl_drv t)))]], t))
     else case motor_id 0 ODRIVE_ID_MAX rest of None \<Rightarrow> ([Line ''ODRIVE,ERR,bad_id'' []], t)
       | Some (n, p) \<Rightarrow> odrive_command n p (upd_odr (\<lambda>d. d\<lparr>od_bus := tl_bus t\<rparr>) t))"

section \<open>IMU and status\<close>

definition imu_line :: "u32 \<Rightarrow> tool \<Rightarrow> out" where
  "imu_line now t = (case imx5_get_state (dr_imx (tl_drv t)) of None \<Rightarrow> Line ''IMU,STATUS,valid=0'' []
     | Some s \<Rightarrow> (let (roll, pitch, yaw) = imx5_quat_to_euler (xs_q0 s) (xs_q1 s) (xs_q2 s) (xs_q3 s); k = Fin 57.2958 in
         Line ''IMU,STATUS,valid=1,rpy_deg=%.2f,%.2f,%.2f,pqr=%.4f,%.4f,%.4f,accel=%.3f,%.3f,%.3f,quat_age_ms=%lu,rate_age_ms=%lu''
           (map FFlt [roll * k, pitch * k, yaw * k, xs_p s, xs_q s, xs_r s, xs_ax s, xs_ay s, xs_az s]
            @ [fword (now - xs_quat_ms s), fword (now - xs_rate_ms s)])))"

definition handle_imu :: "u32 \<Rightarrow> string \<Rightarrow> tool \<Rightarrow> out list" where
  "handle_imu now rest t = (if rest = ''status'' then [imu_line now t] else [Line ''IMU,ERR,unknown_cmd'' []])"

definition rmd_status_line :: "u32 \<Rightarrow> drivers \<Rightarrow> nat \<Rightarrow> out list" where
  "rmd_status_line now d i = (case rmd_get_state i d of None \<Rightarrow> [] | Some s \<Rightarrow> if \<not> rs_valid s then [] else
     [Line ''STATUS,RMD,%u,pos=%.3f,vel=%.3f,tq=%.3f,temp=%.1f,volt=%.1f,err=0x%02x,age_ms=%lu''
       (fnat i # map FFlt [rs_pos s, rs_vel s, rs_torque s, rs_temp s, rs_volt s] @ [fword (rs_err s), fword (now - rs_ms s)])])"

definition gim_status_line :: "u32 \<Rightarrow> drivers \<Rightarrow> nat \<Rightarrow> out list" where
  "gim_status_line now d i = (case gim_get_state i d of None \<Rightarrow> [] | Some s \<Rightarrow> if \<not> gs_valid s \<and> \<not> gs_enabled s then [] else
     [Line ''STATUS,GIM,%u,pos=%.3f,vel=%.3f,tq=%.3f,temp=%.1f,fault=0x%02x,ind%u=%.3f,enabled=%d,valid=%d,age_ms=%lu''
       (fnat i # map FFlt [gs_pos s, gs_vel s, gs_torque s, gs_temp s] @ [fword (gs_fault s), fword (gs_indicator_id s),
        FFlt (gs_indicator s), fbool (gs_enabled s), fbool (gs_valid s), fword (now - gs_ms s)])])"

definition odrive_status_line :: "u32 \<Rightarrow> drivers \<Rightarrow> nat \<Rightarrow> out list" where
  "odrive_status_line now d i = (case odrive_get_state i d of None \<Rightarrow> [] | Some s \<Rightarrow> if \<not> os_valid s then [] else
     [Line ''STATUS,ODRIVE,%u,pos=%.3f,vel=%.3f,axis_state=%u,axis_error=0x%08lx,age_ms=%lu''
       [fnat i, FFlt (os_pos s), FFlt (os_vel s), fword (os_axis s), fword (os_error s), fword (now - os_ms s)]])"

definition handle_status :: "u32 \<Rightarrow> tool \<Rightarrow> out list" where
  "handle_status now t = (let d = tl_drv t in
     [Line ''STATUS,BUS,%d'' [fnat (Suc (bus_number (tl_bus t)))], imu_line now t]
     @ concat (map (rmd_status_line now d) [1..<Suc RMD_ID_MAX]) @ concat (map (gim_status_line now d) [1..<Suc GIM_ID_MAX])
     @ concat (map (odrive_status_line now d) [0..<Suc ODRIVE_ID_MAX]) @ [Line ''STATUS,END'' []])"

section \<open>Dispatch\<close>

definition kHelp :: "string list" where
  "kHelp = [''Motor_tool commands:'',
     ''  HELP                                  this text'',
     ''  PING                                  -> PONG'',
     ''  BOOT                                  reset into bootloader'',
     ''  BUS,<1|2>                             select CAN bus for RMD/GIM/scan cmds'',
     ''  STATUS                                dump state of all seen motors'',
     ''  STOP,ALL                              zero/disable every motor immediately'',
     ''  CAN,status                            FDCAN1+2 register snapshot'',
     ''  CAN,diag                              per-bus RX counters'',
     ''  CAN,scan,start / CAN,scan,stop        ID scanner on the active bus'',
     ''  CAN,monitor,start / CAN,monitor,stop  live raw frame dump (both buses)'',
     ''  CAN,selftest                          internal-loopback test of the active bus (no wiring needed)'',
     ''  CAN,send,<id_hex>,<ext0|1>,b0..b7     inject a raw 8-byte frame'',
     ''  RMD,<id>,TORQUE,<Nm>                  MG8016E-i6: torque command (Nm, unverified scale)'',
     ''  RMD,<id>,TORQUERAW,<ratio>            MG8016E-i6: torque command (raw -2000..2000, confirmed)'',
     ''  RMD,SCALE,<ratio_per_Nm>               get/set the TORQUE Nm->ratio scale'',
     ''  RMD,<id>,VELOCITY,<rad/s>             MG8016E-i6: velocity-loop command'',
     ''  RMD,<id>,POSITION,<rad>,<maxspd>      MG8016E-i6: position command, ABSOLUTE multi-turn target (0xA4)'',
     ''  RMD,<id>,SINGLETURN,<rad>,<maxspd>[,<cw0/1>] MG8016E-i6: position command, ABSOLUTE single-turn 0..360deg (0xA6, default cw=1)'',
     ''  RMD,<id>,INCREMENT,<rad>              MG8016E-i6: position command, RELATIVE to current position (0xA7)'',
     ''  RMD,<id>,STOP|OFF|RESUME              MG8016E-i6: zero out / disable / re-enable'',
     ''  RMD,<id>,STATUS                       MG8016E-i6: request status1 (temp/errors)'',
     ''  RMD,<id>,CLEARERR                     MG8016E-i6: clear latched error flags'',
     ''  RMD,<id>,ENCODER                      MG8016E-i6: request current encoder position (confirmed, motor-side, 16-bit)'',
     ''  GIM,<id>,START|STOP|PAUSE              GIM6010-6: enter/exit running state / pause current command'',
     ''  GIM,<id>,TORQUE,<Nm>[,<duration_ms>]   GIM6010-6: torque command (real Nm, confirmed)'',
     ''  GIM,<id>,VELOCITY,<rad/s>[,<duration_ms>] GIM6010-6: velocity command'',
     ''  GIM,<id>,POSITION,<rad>[,<duration_ms>]   GIM6010-6: position command'',
     ''  GIM,<id>,FAULT | ACKFAULT              GIM6010-6: request/clear fault status'',
     ''  GIM,<id>,IND,<ind_id>                  GIM6010-6: request one runtime indicator (0=bus V, 2=motor temp, ...)'',
     ''  GIM,<id>,MASTERID,<reply_id>           GIM6010-6: set the SID this id's replies actually arrive on (Host/Master CAN ID)'',
     ''  GIM,LIMIT,<Nm>                        set/query the GIM torque clamp'',
     ''  GIM,KT,<Nm_per_A> / GIM,GEAR,<ratio>  set the constants used to decode GIM torque feedback'',
     ''  ODRIVE,LIST                           list node_ids seen via Heartbeat -- the GDS68 scanner (no probing needed)'',
     ''  ODRIVE,<id>,START                     GDS68/ODrive: torque-control mode + closed-loop (0x0B+0x07)'',
     ''  ODRIVE,<id>,IDLE|STOP                 GDS68/ODrive: Set_Axis_State(IDLE) (0x07)'',
     ''  ODRIVE,<id>,MODE,TORQUE|VELOCITY      GDS68/ODrive: Set_Controller_Mode (0x0B)'',
     ''  ODRIVE,<id>,TORQUE,<Nm>                GDS68/ODrive: Set_Input_Torque, output-referenced (0x0E)'',
     ''  ODRIVE,<id>,VELOCITY,<rad/s>           GDS68/ODrive: Set_Input_Vel, output-referenced (0x0D)'',
     ''  ODRIVE,GEAR,<ratio>                    get/set the GIM6010-8 gear ratio used for scaling/decode'',
     ''  ODRIVE,LIMIT,<Nm>                      get/set the ODrive torque clamp'',
     ''  IMU,status                            IMX5 INS decode (bus 2, known-good reference device)'']"

definition tool_cmd :: "tool_env \<Rightarrow> string \<Rightarrow> tool \<Rightarrow> out list \<times> tool" where
  "tool_cmd env line t =
    (let now = te_now env in
     if line = ''HELP'' then (map (\<lambda>l. Line ''%s'' [FStr l]) kHelp, t)
     else if line = ''PING'' then ([Line ''PONG'' []], t)
     else if line = ''BOOT'' then ([Line ''BOOT,OK'' [], Reset], t)
     else if line = ''BUS,1'' then ([Line ''BUS,OK,1'' []], t\<lparr>tl_bus := CAN_BUS_1\<rparr>)
     else if line = ''BUS,2'' then ([Line ''BUS,OK,2'' []], t\<lparr>tl_bus := CAN_BUS_2\<rparr>)
     else if line = ''STATUS'' then (handle_status now t, t)
     else if line = ''STOP,ALL'' then ([Line ''STOP,ALL,OK'' []], tool_stop_all t)
     else if starts ''CAN,'' line then handle_can env (drop 4 line) t
     else if starts ''RMD,'' line then handle_rmd (drop 4 line) t
     else if starts ''GIM,'' line then handle_gim (drop 4 line) t
     else if starts ''ODRIVE,'' line then handle_odrive now (drop 7 line) t
     else if starts ''IMU,'' line then (handle_imu now (drop 4 line) t, t)
     else if line \<noteq> [] then ([Line ''ERR,unknown_cmd'' []], t)
     else ([], t))"

section \<open>The threads' rounds\<close>

text \<open>At most so many frames of the monitor.\<close>
fun drain_loop :: "nat \<Rightarrow> monitor \<Rightarrow> out list \<times> monitor" where
  "drain_loop 0 m = ([], m)"
| "drain_loop (Suc budget) m = (case can_monitor_pop m of None \<Rightarrow> ([], m)
     | Some (f, m) \<Rightarrow>
         (let l = Line ''MON,%lu,%u,0x%03lx,%u,%u'' ([fword (mf_t_ms f), FInt (uint (mf_bus f) + 1), fword (mf_id f),
                fbool (mf_is_ext f), fword (mf_dlc f)] @ map fword (take (min (unat (mf_dlc f)) 8) (mf_data f)));
              (ls, m) = drain_loop budget m
          in (l # ls, m)))"

definition drain_monitor :: "tool \<Rightarrow> out list \<times> tool" where
  "drain_monitor t = (let m = tc_mon (tl_can t) in
     if \<not> mn_active m then ([], t) else (let (ls, m) = drain_loop 16 m in (ls, tool_set_mon m t)))"

definition TOOL_LINE_MAX :: nat where "TOOL_LINE_MAX = 96"

text \<open>A byte completes a line, which is handed to the dispatch as a C string, or goes into the buffer; a
byte that finds the buffer full empties it and is lost.\<close>
definition tool_reader :: "char \<Rightarrow> string \<Rightarrow> string option \<times> string" where
  "tool_reader c line =
    (if c = CHR 0x0A \<or> c = CHR 0x0D then
       if 0 < length line then (Some (takeWhile (\<lambda>c. c \<noteq> CHR 0x00) line), []) else (None, line)
     else if length line < TOOL_LINE_MAX - 1 then (None, line @ [c])
     else (None, []))"

text \<open>One round of the command thread; None is a read that timed out.\<close>
definition cmd_round :: "tool_env \<Rightarrow> char option \<Rightarrow> tool \<Rightarrow> out list \<times> tool" where
  "cmd_round env byte t =
    (let (os, t) = (case byte of None \<Rightarrow> ([], t)
         | Some c \<Rightarrow> (let t = touch_watchdog (te_now env) t; (cmd, line) = tool_reader c (tl_line t); t = t\<lparr>tl_line := line\<rparr>
             in case cmd of None \<Rightarrow> ([], t) | Some l \<Rightarrow> tool_cmd env l t));
         (ms, t) = drain_monitor t
     in (os @ ms, t))"

text \<open>A round of one of the three threads: the command thread, the receive thread with what it polls on each
bus and the status registers, the watchdog.\<close>
datatype tool_event = ToolCmd tool_env "char option"
  | ToolRx u32 "canbus \<Rightarrow> can_frame option" "canbus \<Rightarrow> u32"
  | ToolWatch u32

definition tool_step :: "tool_event \<Rightarrow> tool \<Rightarrow> tool" where
  "tool_step e t = (case e of ToolCmd env byte \<Rightarrow> snd (cmd_round env byte t)
     | ToolRx now polled psr \<Rightarrow>
         (let (r1, r2, c, d) = can_rx_round run_tool_cb now polled psr (tl_can t, tl_drv t) in t\<lparr>tl_can := c, tl_drv := d\<rparr>)
     | ToolWatch now \<Rightarrow> watchdog_round now t)"

definition tool_run :: "tool_event list \<Rightarrow> tool \<Rightarrow> tool" where "tool_run es t = fold tool_step es t"

definition cmd_shell_start :: "u32 \<Rightarrow> tool \<Rightarrow> tool" where "cmd_shell_start now t = touch_watchdog now t"

end
