(* ===== verification/ToolProps.thy ===== *)
theory ToolProps
  imports ToolShell
begin

text \<open>
  Properties of the bench program: the live monitor as a queue, exactly which motors a stop reaches, the
  watchdog's promise while the host is silent, the memory's invariant over every run, and two commands that
  do to a motor what was not asked for.
\<close>

section \<open>Sending\<close>

lemma tool_send_sel [simp]:
  "length data = 8 \<Longrightarrow> tl_can (snd (tool_send b sid data t)) = (tl_can t)\<lparr>tc_tx := tc_tx (tl_can t) @ [(b, data_frame sid data)]\<rparr>"
  "tl_drv (snd (tool_send b sid data t)) = tl_drv t" "tl_bus (snd (tool_send b sid data t)) = tl_bus t"
  "tl_host_ms (snd (tool_send b sid data t)) = tl_host_ms t" "tl_stop_ms (snd (tool_send b sid data t)) = tl_stop_ms t"
  "tl_line (snd (tool_send b sid data t)) = tl_line t"
  by (simp_all add: tool_send_def tool_can_send_def data_frame_def Let_def)

text \<open>The frames that stop every motor the drivers know of.\<close>
definition rmd_stop_frames :: "rmd_drv \<Rightarrow> (canbus \<times> can_frame) list" where
  "rmd_stop_frames d = map (\<lambda>i. (rd_bus d, data_frame (0x140 + of_nat i) [0x81, 0, 0, 0, 0, 0, 0, 0]))
     (filter (\<lambda>i. rs_valid (rd_state d ! i)) [1..<33])"

definition gim_stop_frames :: "gim_drv \<Rightarrow> (canbus \<times> can_frame) list" where
  "gim_stop_frames d = map (\<lambda>i. (gd_bus d, data_frame (of_nat i) [0x92, 0, 0, 0, 0, 0, 0, 0]))
     (filter (\<lambda>i. gs_enabled (gd_state d ! i) \<or> gs_valid (gd_state d ! i)) [1..<33])"

definition odrive_stop_frames :: "odrive_drv \<Rightarrow> (canbus \<times> can_frame) list" where
  "odrive_stop_frames d = map (\<lambda>i. (od_bus d, data_frame (of_nat (32 * i + 7)) [1, 0, 0, 0, 0, 0, 0, 0]))
     (filter (\<lambda>i. os_valid (od_state d ! i)) [0..<64])"

definition stop_frames :: "drivers \<Rightarrow> (canbus \<times> can_frame) list" where
  "stop_frames d = rmd_stop_frames (dr_rmd d) @ gim_stop_frames (dr_gim d) @ odrive_stop_frames (dr_odr d)"

abbreviation sent :: "tool \<Rightarrow> (canbus \<times> can_frame) list" where "sent t \<equiv> tc_tx (tl_can t)"

lemma small_id: "k < 256 \<Longrightarrow> unat (of_nat k :: u8) = k" "k < 256 \<Longrightarrow> (ucast (of_nat k :: u8) :: u32) = of_nat k"
  by (simp add: unat_of_nat_u8) (simp add: word_unat_eq_iff unat_of_nat_u8 unat_of_nat_u32 unsigned_ucast_eq take_bit_nat_eq_self_iff)

text \<open>A round of stops over a driver's table that the stops do not change.\<close>
lemma stop_loop:
  assumes "\<And>i t. i \<in> set ids \<Longrightarrow> tl_drv (snd (stp i t)) = tl_drv t"
    "\<And>i t. i \<in> set ids \<Longrightarrow> tl_can (snd (stp i t)) = (tl_can t)\<lparr>tc_tx := sent t @ [fr i (tl_drv t)]\<rparr>"
    "\<And>i t. i \<in> set ids \<Longrightarrow> tl_bus (snd (stp i t)) = tl_bus t \<and> tl_host_ms (snd (stp i t)) = tl_host_ms t \<and>
       tl_stop_ms (snd (stp i t)) = tl_stop_ms t \<and> tl_line (snd (stp i t)) = tl_line t"
  shows "fold (\<lambda>i t. if P i (tl_drv t) then snd (stp i t) else t) ids t =
    t\<lparr>tl_can := (tl_can t)\<lparr>tc_tx := sent t @ map (\<lambda>i. fr i (tl_drv t)) (filter (\<lambda>i. P i (tl_drv t)) ids)\<rparr>\<rparr>"
  using assms
proof (induction ids arbitrary: t)
  case (Cons i ids)
  have "snd (stp i t) = t\<lparr>tl_can := (tl_can t)\<lparr>tc_tx := sent t @ [fr i (tl_drv t)]\<rparr>\<rparr>"
    using Cons.prems [of i t] by (intro tool.equality) simp_all
  then show ?case using Cons.IH Cons.prems by simp
qed simp

lemma rmd_stop_all_eq: "rmd_stop_all t =
    t\<lparr>tl_can := (tl_can t)\<lparr>tc_tx := sent t @ rmd_stop_frames (dr_rmd (tl_drv t))\<rparr>\<rparr>"
  unfolding rmd_stop_all_def rmd_stop_frames_def RMD_ID_MAX_def
proof (subst stop_loop [where P = "\<lambda>i d. rs_valid (rd_state (dr_rmd d) ! i)" and stp = "\<lambda>i. rmd_stop (of_nat i)"
      and fr = "\<lambda>i d. (rd_bus (dr_rmd d), data_frame (0x140 + of_nat i) [0x81, 0, 0, 0, 0, 0, 0, 0])"])
  fix i t assume "i \<in> set [1..<Suc 32]"
  then have "rmd_stop (of_nat i) t = tool_send (rd_bus (dr_rmd (tl_drv t))) (0x140 + of_nat i) [0x81, 0, 0, 0, 0, 0, 0, 0] t"
    by (simp add: rmd_stop_def rmd_send_cmd_def rmd_id_ok_def RMD_ID_MAX_def small_id rmd_plain_def word_le_nat_alt)
  then show "tl_drv (snd (rmd_stop (of_nat i) t)) = tl_drv t"
    "tl_can (snd (rmd_stop (of_nat i) t)) = (tl_can t)\<lparr>tc_tx := sent t @
       [(rd_bus (dr_rmd (tl_drv t)), data_frame (0x140 + of_nat i) [0x81, 0, 0, 0, 0, 0, 0, 0])]\<rparr>"
    "tl_bus (snd (rmd_stop (of_nat i) t)) = tl_bus t \<and> tl_host_ms (snd (rmd_stop (of_nat i) t)) = tl_host_ms t \<and>
       tl_stop_ms (snd (rmd_stop (of_nat i) t)) = tl_stop_ms t \<and> tl_line (snd (rmd_stop (of_nat i) t)) = tl_line t"
    by simp_all
qed simp

lemma arb_number: "i < 64 \<Longrightarrow> odrive_arb_id (of_nat i) ODRIVE_CMD_SET_AXIS_STATE = of_nat (32 * i + 7)"
proof -
  assume i: "i < 64"
  have "bit (mask 3 :: u32) n \<longleftrightarrow> n < 3" for n by (auto simp: bit_mask_iff)
  then have b: "bit (7 :: u32) n \<longleftrightarrow> n < 3" for n by (simp add: mask_eq_exp_minus_1)
  have a: "(push_bit 5 (of_nat i :: u32)) AND 7 = 0"
  proof (rule bit_word_eqI)
    show "bit (push_bit 5 (of_nat i :: u32) AND 7) n = bit (0 :: u32) n" for n
      by (cases "n < 3") (simp_all only: bit_and_iff bit_push_bit_iff b bit_0_eq bot_apply bot_bool_def simp_thms, simp)
  qed
  have "push_bit 5 (of_nat i :: u32) OR 7 = push_bit 5 (of_nat i) + 7"
    using disjunctive_add_eq_or [OF a] by (rule sym)
  then show ?thesis using i by (simp add: odrive_arb_id_def ODRIVE_CMD_SET_AXIS_STATE_def small_id push_bit_eq_mult mult.commute)
qed

lemma odrive_stop_all_eq: "odrive_stop_all t =
    t\<lparr>tl_can := (tl_can t)\<lparr>tc_tx := sent t @ odrive_stop_frames (dr_odr (tl_drv t))\<rparr>\<rparr>"
  unfolding odrive_stop_all_def odrive_stop_frames_def ODRIVE_ID_MAX_def
proof (subst stop_loop [where P = "\<lambda>i d. os_valid (od_state (dr_odr d) ! i)" and stp = "\<lambda>i. odrive_idle (of_nat i)"
      and fr = "\<lambda>i d. (od_bus (dr_odr d), data_frame (of_nat (32 * i + 7)) [1, 0, 0, 0, 0, 0, 0, 0])"])
  fix i t assume i: "i \<in> set [0..<Suc 63]"
  have "le_bytes32 1 = [1, 0, 0, 0]" by (simp add: le_bytes32_def)
  then have "odrive_idle (of_nat i) t = tool_send (od_bus (dr_odr (tl_drv t))) (of_nat (32 * i + 7)) [1, 0, 0, 0, 0, 0, 0, 0] t"
    using i arb_number [of i]
    by (simp add: odrive_idle_def tool_axis_state_def odrive_send_def odrive_id_ok_def ODRIVE_ID_MAX_def small_id
        ODRIVE_AXIS_STATE_IDLE_def del: of_nat_add of_nat_mult)
  then show "tl_drv (snd (odrive_idle (of_nat i) t)) = tl_drv t"
    "tl_can (snd (odrive_idle (of_nat i) t)) = (tl_can t)\<lparr>tc_tx := sent t @
       [(od_bus (dr_odr (tl_drv t)), data_frame (of_nat (32 * i + 7)) [1, 0, 0, 0, 0, 0, 0, 0])]\<rparr>"
    "tl_bus (snd (odrive_idle (of_nat i) t)) = tl_bus t \<and> tl_host_ms (snd (odrive_idle (of_nat i) t)) = tl_host_ms t \<and>
       tl_stop_ms (snd (odrive_idle (of_nat i) t)) = tl_stop_ms t \<and> tl_line (snd (odrive_idle (of_nat i) t)) = tl_line t"
    by simp_all
qed simp

text \<open>The GIM driver also notes the motor as stopped, if the frame was accepted; what it noted of the motors
still to come is untouched.\<close>
definition gim_known :: "drivers \<Rightarrow> nat \<Rightarrow> bool" where
  "gim_known d i = (gs_enabled (gd_state (dr_gim d) ! i) \<or> gs_valid (gd_state (dr_gim d) ! i))"

definition gim_aside :: "nat set \<Rightarrow> tool \<Rightarrow> tool \<Rightarrow> bool" where
  "gim_aside js t t' \<longleftrightarrow> dr_rmd (tl_drv t') = dr_rmd (tl_drv t) \<and> dr_odr (tl_drv t') = dr_odr (tl_drv t) \<and>
     dr_imx (tl_drv t') = dr_imx (tl_drv t) \<and> gd_bus (dr_gim (tl_drv t')) = gd_bus (dr_gim (tl_drv t)) \<and>
     gd_reply_id (dr_gim (tl_drv t')) = gd_reply_id (dr_gim (tl_drv t)) \<and>
     length (gd_state (dr_gim (tl_drv t'))) = length (gd_state (dr_gim (tl_drv t))) \<and>
     (\<forall>j \<in> js. gd_state (dr_gim (tl_drv t')) ! j = gd_state (dr_gim (tl_drv t)) ! j) \<and>
     (tl_can t')\<lparr>tc_tx := []\<rparr> = (tl_can t)\<lparr>tc_tx := []\<rparr> \<and> tl_bus t' = tl_bus t \<and> tl_host_ms t' = tl_host_ms t \<and>
     tl_stop_ms t' = tl_stop_ms t \<and> tl_line t' = tl_line t"

lemma gim_aside_trans: "gim_aside js t t1 \<Longrightarrow> gim_aside js t1 t2 \<Longrightarrow> gim_aside js t t2"
  by (simp add: gim_aside_def)

lemma gim_stop_one:
  assumes "1 \<le> i" "i < 33"
  shows "sent (snd (gim_stop (of_nat i) t)) = sent t @ [(gd_bus (dr_gim (tl_drv t)), data_frame (of_nat i) [0x92, 0, 0, 0, 0, 0, 0, 0])] \<and>
    gim_aside (- {i}) t (snd (gim_stop (of_nat i) t))"
proof -
  have "gim_send_simple (of_nat i) 0x92 t = tool_send (gd_bus (dr_gim (tl_drv t))) (of_nat i) [0x92, 0, 0, 0, 0, 0, 0, 0] t"
    using assms by (simp add: gim_send_simple_def gim_send_def gim_id_ok_def GIM_ID_MAX_def small_id word_le_nat_alt)
  then show ?thesis using assms
    by (simp add: gim_stop_def Let_def case_prod_beta gim_set_enabled_def upd_drv_def gim_aside_def small_id)
qed

lemma gim_stop_loop:
  assumes "distinct ids" "\<forall>i \<in> set ids. 1 \<le> i \<and> i < 33"
  shows "let t' = fold (\<lambda>i t. if gim_known (tl_drv t) i then snd (gim_stop (of_nat i) t) else t) ids t in
    sent t' = sent t @ map (\<lambda>i. (gd_bus (dr_gim (tl_drv t)), data_frame (of_nat i) [0x92, 0, 0, 0, 0, 0, 0, 0]))
      (filter (gim_known (tl_drv t)) ids) \<and> gim_aside (- set ids) t t'"
  using assms
proof (induction ids arbitrary: t)
  case Nil
  then show ?case by (simp add: gim_aside_def)
next
  case (Cons i ids)
  define t1 where "t1 = (if gim_known (tl_drv t) i then snd (gim_stop (of_nat i) t) else t)"
  define t2 where "t2 = fold (\<lambda>i t. if gim_known (tl_drv t) i then snd (gim_stop (of_nat i) t) else t) ids t1"
  have one: "sent t1 = sent t @ (if gim_known (tl_drv t) i then
      [(gd_bus (dr_gim (tl_drv t)), data_frame (of_nat i) [0x92, 0, 0, 0, 0, 0, 0, 0])] else [])" "gim_aside (- {i}) t t1"
    using gim_stop_one [of i t] Cons.prems(2) by (auto simp: t1_def) (simp add: gim_aside_def)
  have IH: "sent t2 = sent t1 @ map (\<lambda>i. (gd_bus (dr_gim (tl_drv t1)), data_frame (of_nat i) [0x92, 0, 0, 0, 0, 0, 0, 0]))
      (filter (gim_known (tl_drv t1)) ids)" "gim_aside (- set ids) t1 t2"
    using Cons.IH [of t1] Cons.prems by (simp_all add: t2_def Let_def)
  have "gd_state (dr_gim (tl_drv t1)) ! j = gd_state (dr_gim (tl_drv t)) ! j" if "j \<in> set ids" for j
    using one(2) that Cons.prems(1) by (auto simp: gim_aside_def)
  then have "filter (gim_known (tl_drv t1)) ids = filter (gim_known (tl_drv t)) ids"
    by (intro filter_cong) (simp_all add: gim_known_def)
  moreover have "gd_bus (dr_gim (tl_drv t1)) = gd_bus (dr_gim (tl_drv t))" using one(2) by (simp add: gim_aside_def)
  moreover have "gim_aside (- set (i # ids)) t t2"
    by (rule gim_aside_trans [of _ _ t1]) (use one(2) IH(2) in \<open>auto simp: gim_aside_def\<close>)
  ultimately show ?case using one(1) IH(1) by (simp add: Let_def flip: t1_def t2_def)
qed

lemma gim_stop_all_eq: "sent (gim_stop_all t) = sent t @ gim_stop_frames (dr_gim (tl_drv t)) \<and> gim_aside {} t (gim_stop_all t)"
proof -
  have "gim_stop_all t = fold (\<lambda>i t. if gim_known (tl_drv t) i then snd (gim_stop (of_nat i) t) else t) [1..<33] t"
    by (simp add: gim_stop_all_def gim_known_def GIM_ID_MAX_def Let_def)
  moreover have "filter (gim_known (tl_drv t)) [1..<33] = filter (\<lambda>i. gs_enabled (gd_state (dr_gim (tl_drv t)) ! i) \<or>
      gs_valid (gd_state (dr_gim (tl_drv t)) ! i)) [1..<33]" by (intro filter_cong) (simp_all add: gim_known_def)
  ultimately show ?thesis using gim_stop_loop [of "[1..<33]" t] by (simp add: Let_def gim_stop_frames_def) (simp add: gim_aside_def)
qed

lemma stop_all_sent: "sent (tool_stop_all t) = sent t @ stop_frames (tl_drv t) \<and> gim_aside {} t (tool_stop_all t)"
  using gim_stop_all_eq [of "rmd_stop_all t"]
  by (simp add: tool_stop_all_def odrive_stop_all_eq rmd_stop_all_eq stop_frames_def) (simp add: gim_aside_def)

text \<open>Of what the drivers know, a stop clears the started flag of GIM motors and changes nothing else.\<close>
definition only_stopped :: "drivers \<Rightarrow> drivers \<Rightarrow> bool" where
  "only_stopped d d' \<longleftrightarrow> d' = d\<lparr>dr_gim := (dr_gim d)\<lparr>gd_state := gd_state (dr_gim d')\<rparr>\<rparr> \<and>
     list_all2 (\<lambda>x y. y = x \<or> y = x\<lparr>gs_enabled := False\<rparr>) (gd_state (dr_gim d)) (gd_state (dr_gim d'))"

lemma only_stopped_refl [simp]: "only_stopped d d"
  by (simp add: only_stopped_def list_all2_refl)

lemma only_stopped_trans:
  assumes "only_stopped a b" "only_stopped b c"
  shows "only_stopped a c"
proof -
  have "list_all2 (\<lambda>x y. y = x \<or> y = x\<lparr>gs_enabled := False\<rparr>) (gd_state (dr_gim a)) (gd_state (dr_gim c))"
    by (rule list_all2_trans [OF _ conjunct2 [OF assms(1) [unfolded only_stopped_def]]
          conjunct2 [OF assms(2) [unfolded only_stopped_def]]]) auto
  moreover have "c = a\<lparr>dr_gim := (dr_gim a)\<lparr>gd_state := gd_state (dr_gim c)\<rparr>\<rparr>"
    using assms by (cases a; cases b; cases c; cases "dr_gim a"; cases "dr_gim b"; cases "dr_gim c")
      (auto simp: only_stopped_def)
  ultimately show ?thesis unfolding only_stopped_def by blast
qed

lemma gim_stop_only: "only_stopped (tl_drv t) (tl_drv (snd (gim_stop i t)))"
proof -
  have s: "tl_drv (snd (gim_send_simple i x t)) = tl_drv t" for x
    by (simp add: gim_send_simple_def gim_send_def tool_send_def case_prod_beta Let_def)
  have "list_all2 (\<lambda>x y. y = x \<or> y = x\<lparr>gs_enabled := False\<rparr>) xs (xs[k := (xs ! k)\<lparr>gs_enabled := False\<rparr>])" for xs k
    by (cases "k < length xs") (auto simp: list_all2_conv_all_nth nth_list_update list_update_beyond)
  then show ?thesis
    by (auto simp: gim_stop_def Let_def case_prod_beta gim_set_enabled_def upd_drv_def s only_stopped_def list_all2_refl)
qed

lemma stop_all_only: "only_stopped (tl_drv t) (tl_drv (tool_stop_all t))"
proof -
  have f: "only_stopped (tl_drv u) (tl_drv (fold (\<lambda>i t. let st = gd_state (dr_gim (tl_drv t)) ! i in
      if gs_enabled st \<or> gs_valid st then snd (gim_stop (of_nat i) t) else t) ids u))" for ids u
  proof (induction ids arbitrary: u)
    case (Cons i ids)
    have "only_stopped (tl_drv u) (tl_drv (let st = gd_state (dr_gim (tl_drv u)) ! i in
      if gs_enabled st \<or> gs_valid st then snd (gim_stop (of_nat i) u) else u))" by (simp add: gim_stop_only Let_def)
    from only_stopped_trans [OF this Cons.IH] show ?case by simp
  qed simp
  show ?thesis using f [of "rmd_stop_all t"]
    by (simp add: tool_stop_all_def odrive_stop_all_eq rmd_stop_all_eq gim_stop_all_def)
qed

section \<open>What a stop reaches\<close>

text \<open>C23. STOP,ALL sends exactly these frames, in this order: a stop to every RMD motor that has ever
replied, a stop to every GIM motor that was started or has ever replied, the idle state to every ODrive
node whose heartbeat was ever seen, each group on the one bus its last command selected.  In particular an
RMD motor or an ODrive node that was commanded but has never replied is sent nothing, nor is a motor that
sits on the other bus, whatever it is doing, and the reply is OK all the same.  Of what the drivers know
nothing changes, the motors' readings included, except that the started flag of a GIM motor may be
cleared.\<close>
theorem stop_all_exact:
  "let (os, t') = tool_cmd env ''STOP,ALL'' t; d = tl_drv t in
     os = [Line ''STOP,ALL,OK'' []] \<and>
     tc_tx (tl_can t') = tc_tx (tl_can t)
       @ map (\<lambda>i. (rd_bus (dr_rmd d), data_frame (0x140 + of_nat i) [0x81, 0, 0, 0, 0, 0, 0, 0]))
           (filter (\<lambda>i. rs_valid (rd_state (dr_rmd d) ! i)) [1..<33])
       @ map (\<lambda>i. (gd_bus (dr_gim d), data_frame (of_nat i) [0x92, 0, 0, 0, 0, 0, 0, 0]))
           (filter (\<lambda>i. gs_enabled (gd_state (dr_gim d) ! i) \<or> gs_valid (gd_state (dr_gim d) ! i)) [1..<33])
       @ map (\<lambda>i. (od_bus (dr_odr d), data_frame (of_nat (32 * i + 7)) [1, 0, 0, 0, 0, 0, 0, 0]))
           (filter (\<lambda>i. os_valid (od_state (dr_odr d) ! i)) [0..<64]) \<and>
     tl_drv t' = d\<lparr>dr_gim := (dr_gim d)\<lparr>gd_state := gd_state (dr_gim (tl_drv t'))\<rparr>\<rparr> \<and>
     list_all2 (\<lambda>x y. y = x \<or> y = x\<lparr>gs_enabled := False\<rparr>) (gd_state (dr_gim d)) (gd_state (dr_gim (tl_drv t')))"
proof -
  have "tool_cmd env ''STOP,ALL'' t = ([Line ''STOP,ALL,OK'' []], tool_stop_all t)" by (simp add: tool_cmd_def)
  then show ?thesis using stop_all_sent [of t] stop_all_only [of t] unfolding only_stopped_def
    by (simp add: stop_frames_def rmd_stop_frames_def gim_stop_frames_def odrive_stop_frames_def Let_def)
qed

section \<open>The live monitor\<close>

text \<open>The live monitor is a queue of 64 frames that drops its oldest: whatever the order and number of
received frames and reads after it is started, each read answers the oldest frame still held, or nothing
when there is none, and a frame is lost only when 64 newer ones arrive before it is read; the indices'
wrap-around at two to the 32 shows nowhere.\<close>
theorem monitor_drops_oldest:
  assumes "length (mn_ring m) = 64"
  shows "lossy_queue.answers mon_push can_monitor_pop ops (can_monitor_start m) = lossy_answers 64 ops []"
proof -
  have "mon_ok (can_monitor_start m)" using assms by (simp add: can_monitor_start_def mon_ok_def MON_RING_SIZE_def)
  moreover have "mon_contents (can_monitor_start m) = []" by (simp add: mon_contents_def can_monitor_start_def)
  ultimately show ?thesis using live.answers_eq [of "can_monitor_start m" ops] by (simp add: MON_RING_SIZE_def)
qed

theorem monitor_drops_oldest_witness:
  "lossy_queue.answers mon_push can_monitor_pop [None, Some mon_frame_zero, None] (can_monitor_start monitor_new) =
     [None, Some mon_frame_zero]"
proof -
  have "length (mn_ring monitor_new) = 64" by (simp add: monitor_new_def MON_RING_SIZE_def)
  from monitor_drops_oldest [OF this, of "[None, Some mon_frame_zero, None]"] show ?thesis by simp
qed

section \<open>The watchdog\<close>

lemma upd_keeps: "P (xs ! j) \<Longrightarrow> (\<And>x. P x \<Longrightarrow> P (g x)) \<Longrightarrow> P (xs[i := g (xs ! i)] ! j)"
  by (cases "i < length xs") (auto simp: nth_list_update list_update_beyond)

lemma rmd_rx_valid: "rs_valid (rd_state d ! j) \<Longrightarrow> rs_valid (rd_state (rmd_rx now b f d) ! j)"
  by (auto simp: rmd_rx_def Let_def rmd_decode_motion_def rmd_decode_status_def rmd_decode_encoder_def
      intro!: upd_keeps [where P = rs_valid])

lemma gim_rx_valid: "gs_enabled (gd_state d ! j) \<or> gs_valid (gd_state d ! j) \<Longrightarrow>
    gs_enabled (gd_state (gim_rx now b f d) ! j) \<or> gs_valid (gd_state (gim_rx now b f d) ! j)"
proof -
  define P where "P x = (gs_enabled x \<or> gs_valid x)" for x :: gim_state
  assume "gs_enabled (gd_state d ! j) \<or> gs_valid (gd_state d ! j)"
  then have a: "P (gd_state d ! j)" by (simp add: P_def)
  have v: "P x" if "gs_valid x" for x using that by (simp add: P_def)
  have "P ((gd_state d)[i := g (gd_state d ! i)] ! j)" if "\<And>x. gs_valid (g x)" for i g
    using upd_keeps [where P = P, OF a] v that by blast
  from this [of "\<lambda>x. x\<lparr>gs_enabled := _, gs_valid := True, gs_ms := _\<rparr>"] this [of "\<lambda>x. x\<lparr>gs_fault := _, gs_valid := True, gs_ms := _\<rparr>"]
    this [of "\<lambda>x. x\<lparr>gs_valid := True, gs_ms := _\<rparr>"] this [of "decode_control_response _ _ _ _"]
    this [of "\<lambda>x. x\<lparr>gs_indicator := _, gs_indicator_id := _, gs_valid := True, gs_ms := _\<rparr>"]
  have "P (gd_state (gim_rx now b f d) ! j)"
    using a by (simp add: gim_rx_def Let_def decode_control_response_def split: option.split)
  then show ?thesis by (simp add: P_def)
qed

lemma odrive_rx_valid: "os_valid (od_state d ! j) \<Longrightarrow> os_valid (od_state (odrive_rx now b f d) ! j)"
  by (auto simp: odrive_rx_def Let_def intro!: upd_keeps [where P = os_valid])

lemma rx_bus: "rd_bus (rmd_rx now b f d) = rd_bus d" "gd_bus (gim_rx now b f g) = gd_bus g" "od_bus (odrive_rx now b f e) = od_bus e"
  by (auto simp: rmd_rx_def gim_rx_def odrive_rx_def Let_def split: option.split)

lemma stop_frames_grow: "set (stop_frames d) \<subseteq> set (stop_frames (run_tool_cb now cb b f d))"
proof (cases cb)
  case TCB_RMD
  then show ?thesis using rmd_rx_valid
    by (auto simp: run_tool_cb_def stop_frames_def rmd_stop_frames_def rx_bus)
next
  case TCB_GIM
  then show ?thesis using gim_rx_valid
    by (fastforce simp: run_tool_cb_def stop_frames_def gim_stop_frames_def rx_bus)
next
  case TCB_ODRIVE
  then show ?thesis using odrive_rx_valid
    by (auto simp: run_tool_cb_def stop_frames_def odrive_stop_frames_def rx_bus)
qed (simp add: run_tool_cb_def stop_frames_def)

lemma note_sel [simp]: "tc_tx (tool_note now b f c) = tc_tx c" "tc_subs (tool_note now b f c) = tc_subs c"
  "tc_selftest (tool_note now b f c) = tc_selftest c" "tc_answer (tool_note now b f c) = tc_answer c"
  by (simp_all add: tool_note_def Let_def)

lemma dispatch_grow:
  "tc_tx (fst (tool_dispatch run_tool_cb now b f cs)) = tc_tx (fst cs) \<and>
   set (stop_frames (snd cs)) \<subseteq> set (stop_frames (snd (tool_dispatch run_tool_cb now b f cs)))"
proof -
  have "set (stop_frames d) \<subseteq> set (stop_frames (fold (\<lambda>cb. run_tool_cb now cb b f) cbs d))" for cbs d
    by (induction cbs arbitrary: d) (simp, use stop_frames_grow in \<open>simp, blast intro: subset_trans\<close>)
  then show ?thesis by (simp add: tool_dispatch_def Let_def)
qed

lemma rx_bus_grow:
  "tc_tx (fst (snd (can_rx_bus run_tool_cb now b p psr cs))) = tc_tx (fst cs) \<and>
   set (stop_frames (snd cs)) \<subseteq> set (stop_frames (snd (snd (can_rx_bus run_tool_cb now b p psr cs))))"
  using dispatch_grow by (simp add: can_rx_bus_def split: option.split)

definition host_silent :: "tool_event \<Rightarrow> bool" where
  "host_silent e \<longleftrightarrow> (case e of ToolCmd env byte \<Rightarrow> byte = None | _ \<Rightarrow> True)"

text \<open>A round without a byte from the host: nothing is sent and the known motors stay known, or all of them
are stopped.\<close>
lemma silent_round:
  assumes "host_silent e"
  shows "tl_host_ms (tool_step e t) = tl_host_ms t \<and> (\<exists>xs. sent (tool_step e t) = sent t @ xs \<and>
    (tl_stop_ms (tool_step e t) = tl_stop_ms t \<and> set (stop_frames (tl_drv t)) \<subseteq> set (stop_frames (tl_drv (tool_step e t)))
     \<or> set (stop_frames (tl_drv t)) \<subseteq> set xs))"
proof (cases e)
  case (ToolCmd env byte)
  then show ?thesis using assms
    by (simp add: tool_step_def cmd_round_def host_silent_def drain_monitor_def Let_def case_prod_beta tool_set_mon_def tool_set_can_def)
next
  case (ToolRx now polled psr)
  define cs1 where "cs1 = snd (can_rx_bus run_tool_cb now CAN_BUS_1 (polled CAN_BUS_1) (psr CAN_BUS_1) (tl_can t, tl_drv t))"
  define cs2 where "cs2 = snd (can_rx_bus run_tool_cb now CAN_BUS_2 (polled CAN_BUS_2) (psr CAN_BUS_2) cs1)"
  have "tool_step e t = t\<lparr>tl_can := fst cs2, tl_drv := snd cs2\<rparr>"
    by (simp add: ToolRx tool_step_def can_rx_round_def cs1_def cs2_def Let_def case_prod_beta)
  moreover have "tc_tx (fst cs2) = sent t" "set (stop_frames (tl_drv t)) \<subseteq> set (stop_frames (snd cs2))"
    using rx_bus_grow [of now CAN_BUS_1 "polled CAN_BUS_1" "psr CAN_BUS_1" "(tl_can t, tl_drv t)"]
      rx_bus_grow [of now CAN_BUS_2 "polled CAN_BUS_2" "psr CAN_BUS_2" cs1] by (auto simp: cs1_def cs2_def)
  ultimately show ?thesis by simp
next
  case (ToolWatch now)
  then show ?thesis using stop_all_sent [of t]
    by (simp add: tool_step_def watchdog_round_def) (simp add: gim_aside_def)
qed

lemma unat_sum: "unat (x :: u32) + unat y < 4294967296 \<Longrightarrow> unat (x + y) = unat x + unat y"
  by (simp add: unat_word_ariths)

lemma silent_rounds:
  assumes "\<forall>e \<in> set es. host_silent e"
  shows "tl_host_ms (tool_run es t) = tl_host_ms t \<and> (\<exists>xs. sent (tool_run es t) = sent t @ xs \<and>
    (tl_stop_ms (tool_run es t) = tl_stop_ms t \<and> set (stop_frames (tl_drv t)) \<subseteq> set (stop_frames (tl_drv (tool_run es t)))
     \<or> set (stop_frames (tl_drv t)) \<subseteq> set xs))"
  using assms
proof (induction es arbitrary: t)
  case (Cons e es)
  obtain xs ys where
    "tl_host_ms (tool_step e t) = tl_host_ms t" "sent (tool_step e t) = sent t @ xs"
    "tl_stop_ms (tool_step e t) = tl_stop_ms t \<and> set (stop_frames (tl_drv t)) \<subseteq> set (stop_frames (tl_drv (tool_step e t)))
       \<or> set (stop_frames (tl_drv t)) \<subseteq> set xs"
    "tl_host_ms (tool_run es (tool_step e t)) = tl_host_ms (tool_step e t)"
    "sent (tool_run es (tool_step e t)) = sent (tool_step e t) @ ys"
    "tl_stop_ms (tool_run es (tool_step e t)) = tl_stop_ms (tool_step e t) \<and>
       set (stop_frames (tl_drv (tool_step e t))) \<subseteq> set (stop_frames (tl_drv (tool_run es (tool_step e t))))
       \<or> set (stop_frames (tl_drv (tool_step e t))) \<subseteq> set ys"
    using silent_round [of e t] Cons.IH [of "tool_step e t"] Cons.prems by auto
  moreover have "tool_run (e # es) t = tool_run es (tool_step e t)" by (simp add: tool_run_def)
  ultimately show ?case by auto
qed (simp add: tool_run_def)

text \<open>C21. The watchdog keeps its promise.  Take any stretch of the program's rounds, received frames
included, in which no byte comes from the host, from one round of the watchdog to a later one, where both
read a distance of more than 500 ms to the last byte and the later one a distance of more than 100 ms to
the first: within the stretch a stop is handed to the CAN driver for every motor the drivers know of at
its beginning (RMD motors and ODrive nodes that have replied, GIM motors started or heard).  Distances are
those the code computes, differences of two readings of its clock modulo two to the 32.  Every distance
between the two rounds is allowed but the last hundred values below two to the 32, so the stretch may also
lie across the place where the kernel's millisecond clock falls back to zero, after 429496730, and the
code reads a distance of more than 3.8 billion.\<close>
theorem watchdog_stops:
  assumes "\<forall>e \<in> set mid. host_silent e"
    "500 < now1 - tl_host_ms t" "500 < now2 - tl_host_ms t" "100 < now2 - now1" "now2 - now1 < 4294967196"
  shows "\<exists>xs. tc_tx (tl_can (tool_run (ToolWatch now1 # mid @ [ToolWatch now2]) t)) = tc_tx (tl_can t) @ xs \<and>
    set (stop_frames (tl_drv t)) \<subseteq> set xs"
proof -
  define t1 where "t1 = tool_step (ToolWatch now1) t"
  define t2 where "t2 = tool_run mid t1"
  have run: "tool_run (ToolWatch now1 # mid @ [ToolWatch now2]) t = tool_step (ToolWatch now2) t2"
    by (simp add: tool_run_def t1_def t2_def)
  obtain zs where last: "sent (tool_step (ToolWatch now2) t2) = sent t2 @ zs"
    using silent_round [of "ToolWatch now2" t2] by (auto simp: host_silent_def)
  obtain ys where mid: "tl_host_ms t2 = tl_host_ms t1" "sent t2 = sent t1 @ ys"
    "tl_stop_ms t2 = tl_stop_ms t1 \<and> set (stop_frames (tl_drv t1)) \<subseteq> set (stop_frames (tl_drv t2)) \<or>
       set (stop_frames (tl_drv t1)) \<subseteq> set ys"
    using silent_rounds [OF assms(1), of t1] by (auto simp: t2_def)
  show ?thesis
  proof (cases "100 < now1 - tl_stop_ms t")
    case True
    then have "sent t1 = sent t @ stop_frames (tl_drv t)"
      using assms(2) stop_all_sent [of t] by (simp add: t1_def tool_step_def watchdog_round_def WD_TIMEOUT_MS_def RESEND_PERIOD_MS_def)
    then show ?thesis unfolding run last mid(2) by auto
  next
    case False
    then have t1: "t1 = t" by (simp add: t1_def tool_step_def watchdog_round_def RESEND_PERIOD_MS_def)
    have "now2 - tl_stop_ms t = (now2 - now1) + (now1 - tl_stop_ms t)" by simp
    then have "unat (now2 - tl_stop_ms t) = unat (now2 - now1) + unat (now1 - tl_stop_ms t)"
      using unat_sum [of "now2 - now1" "now1 - tl_stop_ms t"] assms(5) False by (simp only: word_less_nat_alt) simp
    then have due: "100 < now2 - tl_stop_ms t" using assms(4) by (simp add: word_less_nat_alt)
    have "sent (tool_step (ToolWatch now2) t2) = sent t2 @ stop_frames (tl_drv t2)" if "tl_stop_ms t2 = tl_stop_ms t"
      using that due assms(3) mid(1) t1 stop_all_sent [of t2]
      by (simp add: tool_step_def watchdog_round_def WD_TIMEOUT_MS_def RESEND_PERIOD_MS_def)
    then show ?thesis using mid t1 last unfolding run by auto
  qed
qed

lemma data_frame_sel [simp]: "fr_xtd (data_frame sid d) = False" "fr_dlc (data_frame sid d) = 8" "fr_data (data_frame sid d) = d"
  by (simp_all add: data_frame_def)

lemma tool_boot_eq:
  "tool_boot ans = (tool_static ans)\<lparr>tl_can := (tcan_new ans)\<lparr>tc_subs := [TCB_RMD, TCB_GIM, TCB_ODRIVE, TCB_IMX5]\<rparr>\<rparr>"
  by (simp add: tool_boot_def rmd_init_def gim_init_def odrive_init_def imx5_init_def upd_drv_def can_subscribe_def
      tool_static_def tcan_new_def MAX_SUBSCRIBERS_def RMD_ID_MAX_def GIM_ID_MAX_def ODRIVE_ID_MAX_def)

text \<open>An RMD motor's reply, received half a second before the host goes silent.\<close>
definition demo_tool :: tool where
  "demo_tool = tool_receive 0 CAN_BUS_1 (data_frame 0x143 (rmd_plain 0x9A)) (tool_boot (\<lambda>_. True))"

lemma demo_tool_valid: "rs_valid (rd_state (dr_rmd (tl_drv demo_tool)) ! 3)" "rd_bus (dr_rmd (tl_drv demo_tool)) = CAN_BUS_1"
  "tl_host_ms demo_tool = 0" "tc_tx (tl_can demo_tool) = []"
  by (simp_all add: demo_tool_def tool_receive_def tool_dispatch_def Let_def tool_boot_eq run_tool_cb_def rmd_rx_def rmd_plain_def
        std_sid_data_frame rmd_decode_status_def RMD_ID_MAX_def tool_static_def tcan_new_def)

theorem watchdog_stops_witness:
  "(CAN_BUS_1, data_frame 0x143 [0x81, 0, 0, 0, 0, 0, 0, 0]) \<in>
     set (tc_tx (tl_can (tool_run [ToolWatch 520, ToolWatch 640] demo_tool)))"
proof -
  have "\<exists>xs. tc_tx (tl_can (tool_run (ToolWatch 520 # [] @ [ToolWatch 640]) demo_tool)) = tc_tx (tl_can demo_tool) @ xs \<and>
      set (stop_frames (tl_drv demo_tool)) \<subseteq> set xs"
    by (rule watchdog_stops) (simp_all add: demo_tool_valid)
  moreover have "(CAN_BUS_1, data_frame 0x143 [0x81, 0, 0, 0, 0, 0, 0, 0]) \<in> set (stop_frames (tl_drv demo_tool))"
    using demo_tool_valid by (auto simp: stop_frames_def rmd_stop_frames_def image_iff intro!: exI [of _ 3])
  ultimately show ?thesis by auto
qed

section \<open>The memory's invariant\<close>

text \<open>The tables have their sizes, the scanner and the line buffer fit theirs, the monitor's indices are at
most a ring apart, the four subscribers are registered and no self-test is left open.\<close>
definition tcan_ok :: "tool_cb tcan \<Rightarrow> bool" where
  "tcan_ok c \<longleftrightarrow> mon_ok (tc_mon c) \<and> length (tc_scan c) \<le> 64 \<and> tc_subs c = [TCB_RMD, TCB_GIM, TCB_ODRIVE, TCB_IMX5]"

definition tables_ok :: "drivers \<Rightarrow> bool" where
  "tables_ok d \<longleftrightarrow> length (rd_state (dr_rmd d)) = 33 \<and> length (gd_state (dr_gim d)) = 33 \<and>
     length (gd_reply_id (dr_gim d)) = 33 \<and> length (od_state (dr_odr d)) = 64"

definition tool_ok :: "tool \<Rightarrow> bool" where
  "tool_ok t \<longleftrightarrow> tcan_ok (tl_can t) \<and> tc_selftest (tl_can t) = None \<and> tables_ok (tl_drv t) \<and> length (tl_line t) < 96"

named_theorems tool_keeps \<open>operations that keep the invariant\<close>

lemma keep_tool_send [tool_keeps]: "tool_ok t \<Longrightarrow> tool_ok (snd (tool_send b sid data t))"
  by (simp add: tool_ok_def tcan_ok_def tool_send_def tool_can_send_def Let_def)

lemma keep_drv: "tool_ok t \<Longrightarrow> (tables_ok (tl_drv t) \<Longrightarrow> tables_ok (f (tl_drv t))) \<Longrightarrow> tool_ok (upd_drv f t)"
  by (simp add: tool_ok_def upd_drv_def)

lemma keep_rmd_cmds [tool_keeps]:
  assumes "tool_ok t"
  shows "tool_ok (snd (rmd_torque_raw i r t))" "tool_ok (snd (rmd_torque i x t))" "tool_ok (snd (rmd_velocity i x t))"
    "tool_ok (snd (rmd_position i x y t))" "tool_ok (snd (rmd_position_single_turn i x y cw t))"
    "tool_ok (snd (rmd_increment_position i x t))" "tool_ok (snd (rmd_stop i t))" "tool_ok (snd (rmd_off i t))"
    "tool_ok (snd (rmd_resume i t))" "tool_ok (snd (rmd_request_status i t))" "tool_ok (snd (rmd_clear_error i t))"
    "tool_ok (snd (rmd_read_encoder i t))"
proof -
  have "tool_ok (snd (rmd_send_cmd i d t))" for d using assms by (simp add: rmd_send_cmd_def keep_tool_send)
  then show "tool_ok (snd (rmd_torque_raw i r t))" "tool_ok (snd (rmd_torque i x t))" "tool_ok (snd (rmd_velocity i x t))"
    "tool_ok (snd (rmd_position i x y t))" "tool_ok (snd (rmd_position_single_turn i x y cw t))"
    "tool_ok (snd (rmd_increment_position i x t))" "tool_ok (snd (rmd_stop i t))" "tool_ok (snd (rmd_off i t))"
    "tool_ok (snd (rmd_resume i t))" "tool_ok (snd (rmd_request_status i t))" "tool_ok (snd (rmd_clear_error i t))"
    "tool_ok (snd (rmd_read_encoder i t))"
    by (simp_all add: rmd_torque_raw_def rmd_torque_def rmd_velocity_def rmd_position_def rmd_position_single_turn_def
        rmd_increment_position_def rmd_stop_def rmd_off_def rmd_resume_def rmd_request_status_def rmd_clear_error_def
        rmd_read_encoder_def Let_def)
qed

lemma keep_gim_send [tool_keeps]: "tool_ok t \<Longrightarrow> tool_ok (snd (gim_send i d t))"
  "tool_ok t \<Longrightarrow> tool_ok (snd (gim_send_simple i cmd t))"
  by (simp_all add: gim_send_def gim_send_simple_def keep_tool_send)

lemma keep_gim_cmds [tool_keeps]:
  assumes "tool_ok t"
  shows "tool_ok (snd (gim_start i t))" "tool_ok (snd (gim_stop i t))" "tool_ok (snd (gim_pause i t))"
    "tool_ok (snd (gim_torque i x dur t))" "tool_ok (snd (gim_velocity i x dur t))" "tool_ok (snd (gim_position i x dur t))"
    "tool_ok (snd (gim_get_fault i t))" "tool_ok (snd (gim_ack_fault i t))" "tool_ok (snd (gim_get_indicator i k t))"
proof -
  have "tool_ok (gim_set_enabled i e t')" if "tool_ok t'" for e t'
    unfolding gim_set_enabled_def by (rule keep_drv [OF that]) (simp add: tables_ok_def)
  then show "tool_ok (snd (gim_start i t))" "tool_ok (snd (gim_stop i t))" "tool_ok (snd (gim_pause i t))"
    "tool_ok (snd (gim_torque i x dur t))" "tool_ok (snd (gim_velocity i x dur t))" "tool_ok (snd (gim_position i x dur t))"
    "tool_ok (snd (gim_get_fault i t))" "tool_ok (snd (gim_ack_fault i t))" "tool_ok (snd (gim_get_indicator i k t))"
    using assms by (simp_all add: gim_start_def gim_stop_def gim_pause_def gim_torque_def gim_velocity_def gim_position_def
        gim_get_fault_def gim_ack_fault_def gim_get_indicator_def Let_def case_prod_beta keep_gim_send)
qed

lemma keep_odrive_cmds [tool_keeps]:
  assumes "tool_ok t"
  shows "tool_ok (snd (odrive_set_mode i v t))" "tool_ok (snd (odrive_start i t))" "tool_ok (snd (odrive_idle i t))"
    "tool_ok (snd (odrive_torque i x t))" "tool_ok (snd (odrive_velocity i x t))"
proof -
  have "tool_ok (snd (odrive_send i cmd d t'))" if "tool_ok t'" for cmd d t'
    using that by (simp add: odrive_send_def keep_tool_send)
  then show "tool_ok (snd (odrive_set_mode i v t))" "tool_ok (snd (odrive_start i t))" "tool_ok (snd (odrive_idle i t))"
    "tool_ok (snd (odrive_torque i x t))" "tool_ok (snd (odrive_velocity i x t))"
    using assms by (simp_all add: odrive_set_mode_def odrive_start_def odrive_idle_def odrive_torque_def odrive_velocity_def
        tool_axis_state_def Let_def case_prod_beta)
qed

lemma keep_stop_all [tool_keeps]: "tool_ok t \<Longrightarrow> tool_ok (tool_stop_all t)"
proof -
  assume t: "tool_ok t"
  have a: "gim_aside {} t (tool_stop_all t)" using stop_all_sent by blast
  then have "(tl_can (tool_stop_all t))\<lparr>tc_tx := []\<rparr> = (tl_can t)\<lparr>tc_tx := []\<rparr>" by (simp add: gim_aside_def)
  then have "tc_mon (tl_can (tool_stop_all t)) = tc_mon (tl_can t)" "tc_scan (tl_can (tool_stop_all t)) = tc_scan (tl_can t)"
    "tc_subs (tl_can (tool_stop_all t)) = tc_subs (tl_can t)" "tc_selftest (tl_can (tool_stop_all t)) = tc_selftest (tl_can t)"
    by (metis tcan.select_convs tcan.surjective tcan.update_convs)+
  then show ?thesis using t a by (simp add: tool_ok_def tcan_ok_def tables_ok_def gim_aside_def)
qed

lemma keep_answers:
  "snd (answer fmt n r) = snd r" "snd (gim_answer fmt n r) = snd r"
  by (simp_all add: answer_def gim_answer_def)

lemma keep_with_arg: "tool_ok t \<Longrightarrow> (\<And>x. tool_ok (snd (f x t))) \<Longrightarrow> tool_ok (snd (with_arg a f t))"
  by (simp add: with_arg_def split: option.split)

lemma keep_rmd_command: "tool_ok t \<Longrightarrow> tool_ok (snd (rmd_command n p t))"
  by (simp add: rmd_command_def Let_def keep_answers keep_with_arg keep_rmd_cmds case_prod_beta)

lemma keep_gim_command: "tool_ok t \<Longrightarrow> tool_ok (snd (gim_command n p t))"
proof -
  assume t: "tool_ok t"
  have "tool_ok (upd_gim (gim_set_reply_id i r) t)" for i r
    unfolding upd_gim_def by (rule keep_drv [OF t]) (simp add: tables_ok_def gim_set_reply_id_def)
  then show ?thesis using t
    by (simp add: gim_command_def Let_def keep_answers keep_with_arg keep_gim_cmds case_prod_beta split: option.split)
qed

lemma keep_odrive_command: "tool_ok t \<Longrightarrow> tool_ok (snd (odrive_command n p t))"
  by (simp add: odrive_command_def Let_def keep_answers keep_with_arg keep_odrive_cmds)

lemma keep_settings:
  assumes "tool_ok t"
  shows "tool_ok (upd_rmd (rmd_set_torque_scale x) t)" "tool_ok (upd_rmd (rmd_set_bus b) t)"
    "tool_ok (upd_gim (gim_set_torque_limit x) t)" "tool_ok (upd_gim (\<lambda>d. d\<lparr>gd_kt := x\<rparr>) t)"
    "tool_ok (upd_gim (\<lambda>d. d\<lparr>gd_gear := x\<rparr>) t)" "tool_ok (upd_gim (\<lambda>d. d\<lparr>gd_bus := b\<rparr>) t)"
    "tool_ok (upd_odr (odrive_set_torque_limit x) t)" "tool_ok (upd_odr (\<lambda>d. d\<lparr>od_gear := x\<rparr>) t)"
    "tool_ok (upd_odr (\<lambda>d. d\<lparr>od_bus := b\<rparr>) t)"
  unfolding upd_rmd_def upd_gim_def upd_odr_def
  by (rule keep_drv [OF assms], simp add: tables_ok_def rmd_set_torque_scale_def rmd_set_bus_def gim_set_torque_limit_def
      odrive_set_torque_limit_def)+

lemma keep_handle_rmd: "tool_ok t \<Longrightarrow> tool_ok (snd (handle_rmd r t))"
  by (simp add: handle_rmd_def keep_settings keep_rmd_command split: option.split)

lemma keep_handle_gim: "tool_ok t \<Longrightarrow> tool_ok (snd (handle_gim r t))"
  by (simp add: handle_gim_def Let_def keep_settings keep_gim_command split: option.split)

lemma keep_handle_odrive: "tool_ok t \<Longrightarrow> tool_ok (snd (handle_odrive now r t))"
  by (simp add: handle_odrive_def Let_def keep_settings keep_odrive_command split: option.split)

lemma scan_bump_size: "length (snd (scan_bump i ext es)) = length es"
  by (induction es) (simp_all add: Let_def case_prod_beta)

lemma note_ok: "tcan_ok c \<Longrightarrow> tcan_ok (tool_note now b f c)"
proof -
  assume c: "tcan_ok c"
  have "length (tool_scan_note i ext es) \<le> 64" if "length es \<le> 64" for i ext es
    using that scan_bump_size [of i ext es]
    by (simp add: tool_scan_note_def Let_def case_prod_beta TOOL_SCAN_MAX_def)
  then show ?thesis using c mon_push_ok [of "tc_mon c"] by (simp add: tool_note_def Let_def tcan_ok_def)
qed

lemma rx_tables: "tables_ok d \<Longrightarrow> tables_ok (run_tool_cb now cb b f d)"
  by (cases cb) (auto simp: run_tool_cb_def tables_ok_def rmd_rx_def gim_rx_def odrive_rx_def Let_def split: option.split)

lemma dispatch_ok:
  "tcan_ok (fst cs) \<and> tables_ok (snd cs) \<Longrightarrow> tcan_ok (fst (tool_dispatch run_tool_cb now b f cs)) \<and>
    tables_ok (snd (tool_dispatch run_tool_cb now b f cs)) \<and> tc_selftest (fst (tool_dispatch run_tool_cb now b f cs)) = tc_selftest (fst cs)"
proof -
  have "tables_ok (fold (\<lambda>cb. run_tool_cb now cb b f) cbs d)" if "tables_ok d" for cbs d
    using that by (induction cbs arbitrary: d) (simp_all add: rx_tables)
  then show "tcan_ok (fst cs) \<and> tables_ok (snd cs) \<Longrightarrow> ?thesis" by (simp add: tool_dispatch_def Let_def note_ok)
qed

lemma selftest_polls_ok:
  "tcan_ok (fst cs) \<and> tables_ok (snd cs) \<Longrightarrow>
    tcan_ok (fst (snd (selftest_polls run_tool_cb b ps cs))) \<and> tables_ok (snd (snd (selftest_polls run_tool_cb b ps cs)))"
  by (induction ps arbitrary: cs) (simp_all add: Let_def dispatch_ok split: option.split)

lemma keep_selftest: "tool_ok t \<Longrightarrow> tool_ok (snd (handle_selftest env t))"
proof -
  assume t: "tool_ok t"
  define c1 where "c1 = snd (tool_can_send (tl_bus t) SELFTEST_SID [0xDE, 0xAD, 0xBE, 0xEF, 0, 0, 0, 0] 8
    ((tl_can t)\<lparr>tc_selftest := Some (tl_bus t)\<rparr>))"
  define cs where "cs = snd (selftest_polls run_tool_cb (tl_bus t) (take 100 (te_polls env)) (c1, tl_drv t))"
  have "tcan_ok c1" using t by (simp add: c1_def tool_ok_def tcan_ok_def tool_can_send_def Let_def)
  then have "tcan_ok (fst cs) \<and> tables_ok (snd cs)"
    using selftest_polls_ok [of "(c1, tl_drv t)"] t by (simp add: cs_def tool_ok_def)
  moreover have "snd (handle_selftest env t) = t\<lparr>tl_can := (fst cs)\<lparr>tc_selftest := None\<rparr>, tl_drv := snd cs\<rparr>"
    by (simp add: handle_selftest_def can_selftest_def Let_def case_prod_beta cs_def c1_def)
  ultimately show ?thesis using t by (simp add: tool_ok_def tcan_ok_def)
qed

lemma keep_handle_can: "tool_ok t \<Longrightarrow> tool_ok (snd (handle_can env r t))"
proof -
  assume t: "tool_ok t"
  have "tool_ok (snd (handle_can_send r t))" for r
    using t by (simp add: handle_can_send_def Let_def case_prod_beta keep_tool_send split: option.split)
  moreover have "mon_ok (can_monitor_start m)" "mon_ok (can_monitor_stop m)" if "mon_ok m" for m
    using that by (simp_all add: mon_ok_def can_monitor_start_def can_monitor_stop_def)
  ultimately show ?thesis using t keep_selftest [OF t]
    by (simp add: handle_can_def Let_def)
      (simp add: tool_ok_def tcan_ok_def tool_set_can_def tool_set_mon_def tool_scan_start_def tool_scan_stop_def)
qed

lemma keep_tool_cmd: "tool_ok t \<Longrightarrow> tool_ok (snd (tool_cmd env l t))"
  by (simp add: tool_cmd_def Let_def keep_handle_can keep_handle_rmd keep_handle_gim keep_handle_odrive keep_stop_all)
    (simp add: tool_ok_def)

lemma drain_ok: "mon_ok m \<Longrightarrow> mon_ok (snd (drain_loop n m))"
proof (induction n arbitrary: m)
  case (Suc n)
  have "mon_ok m'" if "can_monitor_pop m = Some (f, m')" for f m'
    using that Suc.prems mon_pop_ok [of m] live.pop_empty [of m] by (cases "mon_contents m") auto
  then show ?case using Suc by (simp add: Let_def case_prod_beta split: option.split)
qed simp

lemma keep_cmd_round: "tool_ok t \<Longrightarrow> tool_ok (snd (cmd_round env byte t))"
proof -
  assume t: "tool_ok t"
  have d: "tool_ok (snd (drain_monitor t'))" if "tool_ok t'" for t'
    using that drain_ok [of "tc_mon (tl_can t')"]
    by (simp add: drain_monitor_def Let_def case_prod_beta tool_set_mon_def tool_set_can_def tool_ok_def tcan_ok_def)
  have "length (snd (tool_reader c (tl_line t))) < 96" for c
    using t by (simp add: tool_reader_def TOOL_LINE_MAX_def tool_ok_def)
  then have "tool_ok ((touch_watchdog now t)\<lparr>tl_line := snd (tool_reader c (tl_line (touch_watchdog now t)))\<rparr>)" for now c
    using t by (simp add: tool_ok_def touch_watchdog_def)
  then show ?thesis using t d keep_tool_cmd
    by (simp add: cmd_round_def Let_def case_prod_beta split: option.split)
qed

lemma rx_bus_ok:
  "tcan_ok (fst cs) \<and> tables_ok (snd cs) \<Longrightarrow> tcan_ok (fst (snd (can_rx_bus run_tool_cb now b p psr cs))) \<and>
    tables_ok (snd (snd (can_rx_bus run_tool_cb now b p psr cs))) \<and>
    tc_selftest (fst (snd (can_rx_bus run_tool_cb now b p psr cs))) = tc_selftest (fst cs)"
  using dispatch_ok [of cs] by (simp add: can_rx_bus_def split: option.split)

lemma keep_tool_step: "tool_ok t \<Longrightarrow> tool_ok (tool_step e t)"
proof (cases e)
  case (ToolCmd env byte)
  assume "tool_ok t"
  then show ?thesis by (simp add: ToolCmd tool_step_def keep_cmd_round)
next
  case (ToolRx now polled psr)
  assume t: "tool_ok t"
  define cs1 where "cs1 = snd (can_rx_bus run_tool_cb now CAN_BUS_1 (polled CAN_BUS_1) (psr CAN_BUS_1) (tl_can t, tl_drv t))"
  define cs2 where "cs2 = snd (can_rx_bus run_tool_cb now CAN_BUS_2 (polled CAN_BUS_2) (psr CAN_BUS_2) cs1)"
  have "tool_step e t = t\<lparr>tl_can := fst cs2, tl_drv := snd cs2\<rparr>"
    by (simp add: ToolRx tool_step_def can_rx_round_def cs1_def cs2_def Let_def case_prod_beta)
  moreover have "tcan_ok (fst cs2) \<and> tables_ok (snd cs2) \<and> tc_selftest (fst cs2) = None"
    using t rx_bus_ok [of "(tl_can t, tl_drv t)"] rx_bus_ok [of cs1] by (simp add: cs1_def cs2_def tool_ok_def)
  ultimately show ?thesis using t by (simp add: tool_ok_def)
next
  case (ToolWatch now)
  assume "tool_ok t"
  then show ?thesis using keep_stop_all [of t] by (simp add: ToolWatch tool_step_def watchdog_round_def) (simp add: tool_ok_def)
qed

lemma keep_tool_run: "tool_ok t \<Longrightarrow> tool_ok (tool_run es t)"
  by (induction es arbitrary: t) (simp_all add: tool_run_def keep_tool_step)

lemma tool_boot_ok: "tool_ok (cmd_shell_start now (tool_boot ans))"
  by (simp add: cmd_shell_start_def touch_watchdog_def tool_boot_eq tool_ok_def tcan_ok_def tables_ok_def tool_static_def
      tcan_new_def monitor_new_def mon_ok_def MON_RING_SIZE_def)

text \<open>C26. The bench program's memory stays within its arrays: after any run from its start, whatever bytes,
frames, polls and clock readings it gets, the motor tables have their sizes, the index of every node a
standard identifier can name is inside the ODrive table, the line buffer has room for its terminator, the
scanner holds at most 64 entries, the monitor's indices are at most one ring apart, the four decoders are
still subscribed, and no self-test has been left open, so the receive thread serves both buses.\<close>
theorem tool_memory_safe:
  "let t = tool_run es (cmd_shell_start now (tool_boot ans)); d = tl_drv t; c = tl_can t in
     length (rd_state (dr_rmd d)) = 33 \<and> length (gd_state (dr_gim d)) = 33 \<and> length (gd_reply_id (dr_gim d)) = 33 \<and>
     length (od_state (dr_odr d)) = 64 \<and> (\<forall>f. unat (ucast (drop_bit 5 (std_sid f)) :: u8) < length (od_state (dr_odr d))) \<and>
     length (tl_line t) \<le> 95 \<and> length (tc_scan c) \<le> 64 \<and> length (mn_ring (tc_mon c)) = 64 \<and>
     unat (mn_head (tc_mon c) - mn_tail (tc_mon c)) \<le> 64 \<and> tc_subs c = [TCB_RMD, TCB_GIM, TCB_ODRIVE, TCB_IMX5] \<and>
     tc_selftest c = None"
proof -
  define t where "t = tool_run es (cmd_shell_start now (tool_boot ans))"
  have t: "tool_ok t" unfolding t_def by (intro keep_tool_run tool_boot_ok)
  have "unat (ucast (drop_bit 5 (std_sid f)) :: u8) < 64" for f
  proof -
    have "unat (std_sid f) < 2 ^ 11"
      unfolding std_sid_def and_0x7FF unsigned_take_bit_eq by (rule take_bit_nat_less_exp)
    then have "unat (drop_bit 5 (std_sid f)) < 64" by (subst unsigned_drop_bit_eq) (simp add: drop_bit_eq_div take_bit_nat_eq_self)
    then show ?thesis by (simp add: unsigned_ucast_eq) (metis mod_less_eq_dividend order_le_less_trans take_bit_eq_mod)
  qed
  then show ?thesis using t unfolding Let_def t_def [symmetric]
    by (simp add: tool_ok_def tcan_ok_def tables_ok_def mon_ok_def MON_RING_SIZE_def less_Suc_eq_le [symmetric])
qed

section \<open>Two surprises\<close>

text \<open>C25. An RMD motor's reply makes an ODrive node of itself, and STOP,ALL then writes to another RMD
motor: in any reachable state in which the drivers are on the bus of the frame, a reply of RMD motor 1
(identifier 0x141, whatever is in it) marks ODrive node 10 as seen, and the STOP,ALL that follows sends the
idle command of node 10, which is a frame to the identifier of RMD motor 7.\<close>
theorem rmd_reply_forges_odrive:
  assumes "t = tool_run es (cmd_shell_start start (tool_boot ans))" "\<not> fr_xtd f" "8 \<le> fr_dlc f" "std_sid f = 0x140 + 1"
    "b = od_bus (dr_odr (tl_drv t))"
  shows "let t1 = tool_receive now b f t; t2 = snd (tool_cmd env ''STOP,ALL'' t1) in
    os_valid (od_state (dr_odr (tl_drv t1)) ! 10) \<and>
    (b, data_frame (0x140 + 7) [1, 0, 0, 0, 0, 0, 0, 0]) \<in> set (drop (length (tc_tx (tl_can t1))) (tc_tx (tl_can t2)))"
proof -
  define t1 where "t1 = tool_receive now b f t"
  have t: "tool_ok t" unfolding assms(1) by (intro keep_tool_run tool_boot_ok)
  have odr: "dr_odr (tl_drv t1) = odrive_rx now b f (dr_odr (tl_drv t))"
    using t by (simp add: t1_def tool_receive_def tool_dispatch_def Let_def tool_ok_def tcan_ok_def run_tool_cb_def)
  have valid: "os_valid (od_state (dr_odr (tl_drv t1)) ! 10)" "od_bus (dr_odr (tl_drv t1)) = b"
    using t assms(2,4,5) leD [OF assms(3)] by (simp_all add: odr odrive_rx_def Let_def ODRIVE_CMD_HEARTBEAT_def tool_ok_def tables_ok_def)
  have "(b, data_frame (of_nat (32 * 10 + 7)) [1, 0, 0, 0, 0, 0, 0, 0]) \<in> set (odrive_stop_frames (dr_odr (tl_drv t1)))"
    using valid unfolding odrive_stop_frames_def set_map by (intro image_eqI [of _ _ 10]) simp_all
  then have "(b, data_frame (0x140 + 7) [1, 0, 0, 0, 0, 0, 0, 0]) \<in> set (stop_frames (tl_drv t1))" by (simp add: stop_frames_def)
  moreover have "snd (tool_cmd env ''STOP,ALL'' t1) = tool_stop_all t1" by (simp add: tool_cmd_def)
  ultimately show ?thesis using valid stop_all_sent [of t1] by (simp add: Let_def flip: t1_def)
qed

theorem rmd_reply_forges_odrive_witness:
  "\<forall>env. (CAN_BUS_1, data_frame 0x147 [1, 0, 0, 0, 0, 0, 0, 0]) \<in> set (tc_tx (tl_can (snd (tool_cmd env ''STOP,ALL''
     (tool_receive 7 CAN_BUS_1 (data_frame 0x141 (rmd_plain 0xA1)) (tool_run [] (cmd_shell_start 0 (tool_boot (\<lambda>_. True)))))))))"
proof
  fix env
  have "od_bus (dr_odr (tl_drv (tool_run [] (cmd_shell_start 0 (tool_boot (\<lambda>_. True)))))) = CAN_BUS_1"
    by (simp add: tool_run_def cmd_shell_start_def touch_watchdog_def tool_boot_eq tool_static_def)
  moreover have "std_sid (data_frame 0x141 (rmd_plain 0xA1)) = 0x140 + 1" by (simp add: std_sid_data_frame)
  ultimately show "(CAN_BUS_1, data_frame 0x147 [1, 0, 0, 0, 0, 0, 0, 0]) \<in> set (tc_tx (tl_can (snd (tool_cmd env ''STOP,ALL''
     (tool_receive 7 CAN_BUS_1 (data_frame 0x141 (rmd_plain 0xA1)) (tool_run [] (cmd_shell_start 0 (tool_boot (\<lambda>_. True)))))))))"
    using rmd_reply_forges_odrive [where es = "[]" and start = 0 and ans = "\<lambda>_. True" and f = "data_frame 0x141 (rmd_plain 0xA1)"
        and b = CAN_BUS_1 and now = 7 and env = env, OF refl]
    by (simp add: Let_def) (meson in_set_dropD)
qed

text \<open>C24. A raw torque request is cut to sixteen bits before it is limited: whatever integer v the line
RMD,<id>,TORQUERAW,<v> carries, one frame is sent to that motor on the active bus with the ratio that v
modulo two to the 16, read as signed, is limited to; so a request from 32768 to 63488, which asks for more
than full torque forwards, sends full torque backwards.  The reply says nothing of it: it is OK if the CAN
driver takes the frame and an error if it does not, whatever v is.\<close>
theorem torqueraw_wraps:
  assumes "motor_id 1 RMD_ID_MAX rest = Some (n, ''TORQUERAW,'' @ ds)" "scan_int ds = Some (v, r)"
  shows "\<exists>ratio. tc_tx (tl_can (snd (tool_cmd env (''RMD,'' @ rest) t))) =
      tc_tx (tl_can t) @ [(tl_bus t, data_frame (0x140 + of_nat n) (rmd_torque_data ratio))] \<and>
    sint ratio = max (- 2048) (min 2048 ((v + 32768) mod 65536 - 32768)) \<and>
    (32768 \<le> v \<and> v \<le> 63488 \<longrightarrow> sint ratio = - 2048) \<and>
    fst (tool_cmd env (''RMD,'' @ rest) t) =
      [Line ''RMD,%u,TORQUERAW,%s'' [fnat n, fok (tc_answer (tl_can t) (length (tc_tx (tl_can t))))]]"
proof (intro exI conjI)
  have n: "1 \<le> n" "n \<le> 32" using assms(1) by (auto simp: motor_id_def RMD_ID_MAX_def split: option.splits prod.splits if_splits)
  have "\<not> starts ''SCALE,'' rest"
  proof
    assume "starts ''SCALE,'' rest"
    then have "scan_uint rest = None"
      by (cases rest) (auto simp: starts_def scan_uint_def skip_space_def is_space_def scan_sign_def scan_digits_def is_digit_def)
    then show False using assms(1) by (simp add: motor_id_def)
  qed
  then have cmd: "tool_cmd env (''RMD,'' @ rest) t =
      answer ''RMD,%u,TORQUERAW,%s'' n (rmd_torque_raw (of_nat n) (of_int v) (upd_rmd (rmd_set_bus (tl_bus t)) t))"
    using assms by (simp add: tool_cmd_def starts_def handle_rmd_def rmd_command_def with_arg_def one_int_def Let_def)
  show "tc_tx (tl_can (snd (tool_cmd env (''RMD,'' @ rest) t))) =
      tc_tx (tl_can t) @ [(tl_bus t, data_frame (0x140 + of_nat n) (rmd_torque_data (rmd_ratio_clamp (of_int v))))]"
    using n unfolding cmd
    by (simp add: answer_def rmd_torque_raw_def rmd_send_cmd_def rmd_id_ok_def RMD_ID_MAX_def small_id word_le_nat_alt
        upd_rmd_def upd_drv_def rmd_set_bus_def rmd_torque_data_def)
  show "fst (tool_cmd env (''RMD,'' @ rest) t) =
      [Line ''RMD,%u,TORQUERAW,%s'' [fnat n, fok (tc_answer (tl_can t) (length (tc_tx (tl_can t))))]]"
    using n unfolding cmd
    by (simp add: answer_def rmd_torque_raw_def rmd_send_cmd_def rmd_id_ok_def RMD_ID_MAX_def small_id word_le_nat_alt
        upd_rmd_def upd_drv_def rmd_set_bus_def tool_send_def tool_can_send_def Let_def)
  have w: "sint (of_int v :: u16) = (v + 32768) mod 65536 - 32768"
    by (simp add: signed_of_int signed_take_bit_eq_take_bit_shift take_bit_eq_mod)
  show s: "sint (rmd_ratio_clamp (of_int v)) = max (- 2048) (min 2048 ((v + 32768) mod 65536 - 32768))"
    unfolding w [symmetric] by (simp add: rmd_ratio_clamp_def RMD_TORQUE_RATIO_MAX_def Let_def)
  show "32768 \<le> v \<and> v \<le> 63488 \<longrightarrow> sint (rmd_ratio_clamp (of_int v)) = - 2048"
  proof
    assume "32768 \<le> v \<and> v \<le> 63488"
    moreover from this have "(v + 32768) mod 65536 = v - 32768"
      using minus_mod_self2 [of "v + 32768" 65536] by (simp add: mod_pos_pos_trivial)
    ultimately have "(v + 32768) mod 65536 - 32768 \<le> - 2048" by simp
    then show "sint (rmd_ratio_clamp (of_int v)) = - 2048" by (simp add: s)
  qed
qed

theorem torqueraw_wraps_witness:
  "\<forall>env. (CAN_BUS_1, data_frame 0x143 [0xA1, 0, 0, 0, 0x00, 0xF8, 0, 0]) \<in>
     set (tc_tx (tl_can (snd (tool_cmd env ''RMD,3,TORQUERAW,40000'' (tool_boot (\<lambda>_. True))))))"
proof
  fix env
  have "motor_id 1 RMD_ID_MAX ''3,TORQUERAW,40000'' = Some (3, ''TORQUERAW,'' @ ''40000'')"
    by (simp add: motor_id_def scan_uint_def skip_space_def is_space_def scan_sign_def scan_digits_def is_digit_def digits_val_def
        starts_def RMD_ID_MAX_def)
  moreover have "scan_int ''40000'' = Some (40000, [])"
    by (simp add: scan_int_def skip_space_def is_space_def scan_sign_def scan_digits_def is_digit_def digits_val_def)
  ultimately obtain ratio where r: "tc_tx (tl_can (snd (tool_cmd env (''RMD,'' @ ''3,TORQUERAW,40000'') (tool_boot (\<lambda>_. True))))) =
      tc_tx (tl_can (tool_boot (\<lambda>_. True))) @ [(tl_bus (tool_boot (\<lambda>_. True)), data_frame (0x140 + of_nat 3) (rmd_torque_data ratio))]"
    "sint ratio = - 2048"
    using torqueraw_wraps [of "''3,TORQUERAW,40000''" 3 "''40000''" 40000 "[]" env "tool_boot (\<lambda>_. True)"] by auto
  have "of_int (sint ratio) = ratio" by simp
  then have "ratio = 0xF800" unfolding r(2) by simp
  then have "rmd_torque_data ratio = [0xA1, 0, 0, 0, 0x00, 0xF8, 0, 0]" by (simp only:) code_simp
  moreover have "tl_bus (tool_boot (\<lambda>_. True)) = CAN_BUS_1" by (simp add: tool_boot_eq tool_static_def)
  ultimately show "(CAN_BUS_1, data_frame 0x143 [0xA1, 0, 0, 0, 0x00, 0xF8, 0, 0]) \<in>
     set (tc_tx (tl_can (snd (tool_cmd env ''RMD,3,TORQUERAW,40000'' (tool_boot (\<lambda>_. True))))))" using r(1) by simp
qed

end
