(* ===== verification/DebugThread.thy ===== *)
theory DebugThread
  imports UsbCmd
begin

text \<open>
  The telemetry of the debug build (DebugThread of src/src/threads.cpp and the lines of StateEstThread
  under BPRL_DEBUG), the heartbeat light and the table of threads.  A line is a value: the format's fixed
  text with the values printed into it; the buffers of 320 and 256 bytes that could cut a printed line are
  not modelled, nor is a line dropped because the port is busy or cut short because the host is slow.
\<close>

definition ST_W :: nat where "ST_W = 5"
definition ST_P :: nat where "ST_P = 13"
definition ST_R :: nat where "ST_R = 15"
definition ST_LEG_L_DOT :: nat where "ST_LEG_L_DOT = 20"

section \<open>Counters and lane copies\<close>

text \<open>The counters of the unit's frames and the copies of the lanes that the estimator's thread keeps for the
telemetry; the debug thread's own variables.\<close>
record dbg =
  db_quat_cnt :: u32
  db_rate_cnt :: u32
  db_lane_euler :: "vec3 list"
  db_lane_pqr :: "vec3 list"
  db_primary :: nat
  db_prev_quat :: u32
  db_prev_rate :: u32
  db_quat_hz :: u32
  db_rate_hz :: u32
  db_tick :: nat

definition dbg_new :: dbg where
  "dbg_new = \<lparr>db_quat_cnt = 0, db_rate_cnt = 0, db_lane_euler = replicate 3 zero3, db_lane_pqr = replicate 3 zero3,
     db_primary = 0, db_prev_quat = 0, db_prev_rate = 0, db_quat_hz = 0, db_rate_hz = 0, db_tick = 0\<rparr>"

text \<open>What an iteration of the estimator's thread notes, from its copy of the unit's frame and its estimate.\<close>
definition debug_note :: "can_imu \<Rightarrow> state_mgr \<Rightarrow> dbg \<Rightarrow> dbg" where
  "debug_note can mgr d =
    (let d = (if ci_has_new_quat can then d\<lparr>db_quat_cnt := db_quat_cnt d + 1\<rparr> else d);
         d = (if ci_has_new_rates can then d\<lparr>db_rate_cnt := db_rate_cnt d + 1\<rparr> else d)
     in d\<lparr>db_lane_euler := map (\<lambda>li. get_lane_euler (int li) mgr) [0..<NUM_LANES],
          db_lane_pqr := map (\<lambda>li. get_lane_pqr (int li) mgr) [0..<NUM_LANES],
          db_primary := sg_primary mgr\<rparr>)"

text \<open>Every tenth iteration: the frames since the last time.\<close>
definition debug_rates :: "dbg \<Rightarrow> dbg" where
  "debug_rates d =
    (let d = d\<lparr>db_tick := Suc (db_tick d)\<rparr> in
     if 10 \<le> db_tick d then
       (let qc = db_quat_cnt d; rc = db_rate_cnt d in
        d\<lparr>db_quat_hz := qc - db_prev_quat d, db_rate_hz := rc - db_prev_rate d, db_prev_quat := qc, db_prev_rate := rc,
          db_tick := 0\<rparr>)
     else d)"

section \<open>The lines\<close>

definition DEG :: flt where "DEG = Fin 57.2958"

definition vec_fields :: "vec3 \<Rightarrow> field list" where
  "vec_fields v = [FFlt (v3 v 0), FFlt (v3 v 1), FFlt (v3 v 2)]"

definition imu_fields :: "imu_raw \<Rightarrow> field list" where
  "imu_fields g = vec_fields (im_accel g) @ vec_fields (im_gyro g) @ [fbool (im_valid g)]"

definition debug_imu_line :: "u32 \<Rightarrow> sys \<Rightarrow> out" where
  "debug_imu_line now s =
    (let can = sy_can_imu s in
     Line ''$IMU'' ([fword now] @ imu_fields (sy_imu s ! 0) @ imu_fields (sy_imu s ! 1) @ imu_fields (sy_imu s ! 2)
       @ [FFlt (ci_p can), FFlt (ci_q can), FFlt (ci_r can), fbool (ci_valid can)]))"

definition valid_fields :: "sys \<Rightarrow> field list" where
  "valid_fields s = [fbool (im_valid (sy_imu s ! 0)), fbool (im_valid (sy_imu s ! 1)), fbool (im_valid (sy_imu s ! 2)),
     fbool (ci_valid (sy_can_imu s))]"

definition debug_tel_line :: "u32 \<Rightarrow> sys \<Rightarrow> dbg \<Rightarrow> out" where
  "debug_tel_line now s d =
    (let e = sy_euler s; st = sy_state s; inp = sy_input s in
     Line ''$TEL'' ([fword now, FFlt (v3 e 0 * DEG), FFlt (v3 e 1 * DEG), FFlt (v3 e 2 * DEG),
        FFlt (st ! ST_P), FFlt (st ! ST_Q), FFlt (st ! ST_R),
        FFlt (inp ! IN_VEL_TGT), FFlt (inp ! IN_HEIGHT_SET), FFlt (inp ! IN_LEANOVER), FFlt (inp ! IN_YAW_STICK),
        fbool (sy_armed s)] @ valid_fields s @ [fword (db_quat_hz d), fword (db_rate_hz d),
        FFlt (st ! ST_LEG_L), FFlt (st ! ST_LEG_L_DOT), FFlt (st ! ST_LEG_PITCH * DEG), FFlt (st ! ST_LEG_PITCH_DOT),
        FFlt (tl_wheel_vel (sy_tel s) ! 0), FFlt (tl_wheel_vel (sy_tel s) ! 1), FFlt (st ! ST_U), FFlt (st ! ST_W)]))"

text \<open>The unit's attitude, by the same formulas as everywhere.\<close>
definition can_euler :: "can_imu \<Rightarrow> vec3" where
  "can_euler c =
    (let w = ci_q0 c; x = ci_q1 c; y = ci_q2 c; z = ci_q3 c; two = Fin 2; one = Fin 1 in
     (atan2f (two * (w * x + y * z)) (one - two * (x * x + y * y)),
      asinf (fmaxf (- one) (fminf one (two * (w * y - z * x)))),
      atan2f (two * (w * z + x * y)) (one - two * (y * y + z * z))))"

definition lane_fields :: "vec3 \<Rightarrow> vec3 \<Rightarrow> field list" where
  "lane_fields e pqr = [FFlt (v3 e 0 * DEG), FFlt (v3 e 1 * DEG), FFlt (v3 e 2 * DEG)] @ vec_fields pqr"

definition debug_ekfl_line :: "u32 \<Rightarrow> sys \<Rightarrow> dbg \<Rightarrow> out" where
  "debug_ekfl_line now s d =
    (let can = sy_can_imu s in
     Line ''$EKFL'' ([fword now, fnat (db_primary d)]
       @ lane_fields (db_lane_euler d ! 0) (db_lane_pqr d ! 0) @ lane_fields (db_lane_euler d ! 1) (db_lane_pqr d ! 1)
       @ lane_fields (db_lane_euler d ! 2) (db_lane_pqr d ! 2) @ lane_fields (can_euler can) (ci_p can, ci_q can, ci_r can)
       @ valid_fields s))"

text \<open>One iteration of the debug thread.\<close>
definition debug_tick :: "u32 \<Rightarrow> sys \<Rightarrow> dbg \<Rightarrow> out list \<times> dbg" where
  "debug_tick now s d = (let d = debug_rates d in
     ([debug_imu_line now s, debug_tel_line now s d, debug_ekfl_line now s d], d))"

section \<open>The heartbeat and the thread table\<close>

text \<open>The light after an iteration; the tick counts iterations.\<close>
definition heartbeat_tick :: "u32 \<Rightarrow> bool \<Rightarrow> bool" where
  "heartbeat_tick tick led =
    (let led = (if tick mod 10 = 0 then True else led) in if tick mod 10 = 1 then False else led)"

datatype thread = SPIThread | CANThread | StateEstThread | ControlThread | WheelSendThread | RadioThread | HeartbeatThread
  | DebugThread | USBCmdThread | LogThread

text \<open>The threads in the order of their creation, with their priorities above the normal one.\<close>
definition threads_start :: "bool \<Rightarrow> (thread \<times> int) list" where
  "threads_start bprl_debug =
     [(SPIThread, 30), (CANThread, 28), (StateEstThread, 25), (ControlThread, 20), (WheelSendThread, 18), (RadioThread, 10),
      (HeartbeatThread, - 5)] @ (if bprl_debug then [(DebugThread, - 10)] else []) @ [(USBCmdThread, - 20), (LogThread, - 15)]"

section \<open>Facts\<close>

text \<open>The printed rates are the numbers of frames between the last two tenth iterations: after ten
iterations of the debug thread from the start of a window, between which the estimator's thread notes any
frames, they count exactly the frames noted before the tenth.\<close>
definition debug_window :: "(can_imu \<times> state_mgr) list list \<Rightarrow> dbg \<Rightarrow> dbg" where
  "debug_window nss d = fold (\<lambda>ns d. debug_rates (fold (\<lambda>(c, m). debug_note c m) ns d)) nss d"

lemma debug_note_counts:
  "db_quat_cnt (fold (\<lambda>(c, m). debug_note c m) ns d) = db_quat_cnt d + of_nat (length (filter (\<lambda>(c, m). ci_has_new_quat c) ns))"
  "db_prev_quat (fold (\<lambda>(c, m). debug_note c m) ns d) = db_prev_quat d"
  "db_tick (fold (\<lambda>(c, m). debug_note c m) ns d) = db_tick d"
  by (induction ns arbitrary: d) (auto simp: debug_note_def Let_def)

lemma debug_window_open:
  "db_tick d + length nss < 10 \<Longrightarrow> db_tick (debug_window nss d) = db_tick d + length nss \<and>
     db_prev_quat (debug_window nss d) = db_prev_quat d \<and>
     db_quat_cnt (debug_window nss d) = db_quat_cnt d + of_nat (length (filter (\<lambda>(c, m). ci_has_new_quat c) (concat nss)))"
proof (induction nss arbitrary: d)
  case (Cons ns nss)
  define d1 where "d1 = debug_rates (fold (\<lambda>(c, m). debug_note c m) ns d)"
  have "db_tick d1 = Suc (db_tick d)" "db_prev_quat d1 = db_prev_quat d"
    "db_quat_cnt d1 = db_quat_cnt d + of_nat (length (filter (\<lambda>(c, m). ci_has_new_quat c) ns))"
    using Cons.prems debug_note_counts [of ns d] by (simp_all add: d1_def debug_rates_def Let_def)
  then show ?case using Cons by (simp add: debug_window_def flip: d1_def)
qed (simp add: debug_window_def)

lemma debug_rates_exact:
  assumes "length nss = 10" "db_tick d = 0" "db_prev_quat d = db_quat_cnt d"
  shows "db_quat_hz (debug_window nss d) = of_nat (length (filter (\<lambda>(c, m). ci_has_new_quat c) (concat nss)))"
proof -
  obtain nss' ns where n: "nss = nss' @ [ns]" "length nss' = 9" using assms(1) by (cases nss rule: rev_cases) auto
  define d1 where "d1 = debug_window nss' d"
  have "db_tick d1 = 9" "db_prev_quat d1 = db_quat_cnt d"
    "db_quat_cnt d1 = db_quat_cnt d + of_nat (length (filter (\<lambda>(c, m). ci_has_new_quat c) (concat nss')))"
    using debug_window_open [of d nss'] n(2) assms(2,3) by (simp_all add: d1_def)
  moreover have "debug_window nss d = debug_rates (fold (\<lambda>(c, m). debug_note c m) ns d1)"
    by (simp add: n(1) d1_def debug_window_def)
  ultimately show ?thesis using debug_note_counts [of ns d1] n(1) by (simp add: debug_rates_def Let_def)
qed

text \<open>The wheels' sender has a higher priority than the command line, whatever the comment at its rate says.\<close>
lemma wheel_send_above_usb:
  "map_of (threads_start dbg) USBCmdThread = Some p \<Longrightarrow> map_of (threads_start dbg) WheelSendThread = Some q \<Longrightarrow> p < q"
  by (simp add: threads_start_def split: if_splits)

end
