(* ===== verification/UsbSerial.thy ===== *)
theory UsbSerial
  imports Prelude
begin

text \<open>
  The USB serial port's descriptors and callbacks: src/src/usb_serial.cpp and the bench program's copy of
  it, src/Motor_tool/src/usb_serial.cpp, which differs in the product string only.  The macros that lay a
  descriptor out, the constants and the driver's hooks belong to ChibiOS and are arguments; what is relied
  on is their documented layout, usb_macros_ok.
\<close>

datatype product = Robot | Bench

text \<open>The macros USB_DESC_DEVICE, ..., each with the list of its arguments, the three descriptor types, and the
kernel's version.\<close>
record usb_macros =
  um_device :: "nat list \<Rightarrow> bytes"
  um_configuration :: "nat list \<Rightarrow> bytes"
  um_interface :: "nat list \<Rightarrow> bytes"
  um_endpoint :: "nat list \<Rightarrow> bytes"
  um_byte :: "nat \<Rightarrow> bytes"
  um_word :: "nat \<Rightarrow> bytes"
  um_bcd :: "nat \<Rightarrow> bytes"
  um_type_device :: nat
  um_type_configuration :: nat
  um_type_string :: nat
  um_version :: "nat \<times> nat \<times> nat"

definition byte_pair :: "nat \<Rightarrow> bytes" where "byte_pair w = [of_nat w, of_nat (w div 256)]"

text \<open>The layout of the USB specification: length, type, then the fields, words low byte first.\<close>
definition usb_macros_ok :: "usb_macros \<Rightarrow> bool" where
  "usb_macros_ok M \<longleftrightarrow>
     (\<forall>xs. \<exists>r. um_device M xs = [18, 1] @ r \<and> length r = 16) \<and>
     (\<forall>n xs. \<exists>r. um_configuration M (n # xs) = [9, 2] @ byte_pair n @ r \<and> length r = 5) \<and>
     (\<forall>xs. \<exists>r. um_interface M xs = [9, 4] @ r \<and> length r = 7) \<and>
     (\<forall>xs. \<exists>r. um_endpoint M xs = [7, 5] @ r \<and> length r = 5) \<and>
     (\<forall>b. um_byte M b = [of_nat b]) \<and> (\<forall>w. um_word M w = byte_pair w) \<and> (\<forall>w. um_bcd M w = byte_pair w) \<and>
     um_type_device M = 1 \<and> um_type_configuration M = 2 \<and> um_type_string M = 3"

definition USB_DATA_EP :: nat where "USB_DATA_EP = 1"
definition USB_INTR_EP :: nat where "USB_INTR_EP = 2"

section \<open>Descriptors\<close>

definition vcom_device_descriptor_data :: "usb_macros \<Rightarrow> bytes" where
  "vcom_device_descriptor_data M = um_device M [0x0200, 0x02, 0x00, 0x00, 0x40, 0x0483, 0x5740, 0x0200, 1, 2, 3, 1]"

definition vcom_configuration_descriptor_data :: "usb_macros \<Rightarrow> bytes" where
  "vcom_configuration_descriptor_data M =
     um_configuration M [67, 0x02, 0x01, 0, 0xC0, 50]
     @ um_interface M [0x00, 0x00, 0x01, 0x02, 0x02, 0x01, 0]
     @ um_byte M 5 @ um_byte M 0x24 @ um_byte M 0x00 @ um_bcd M 0x0110
     @ um_byte M 5 @ um_byte M 0x24 @ um_byte M 0x01 @ um_byte M 0x00 @ um_byte M 0x01
     @ um_byte M 4 @ um_byte M 0x24 @ um_byte M 0x02 @ um_byte M 0x02
     @ um_byte M 5 @ um_byte M 0x24 @ um_byte M 0x06 @ um_byte M 0x00 @ um_byte M 0x01
     @ um_endpoint M [USB_INTR_EP + 0x80, 0x03, 0x0010, 0xFF]
     @ um_interface M [0x01, 0x00, 0x02, 0x0A, 0x00, 0x00, 0x00]
     @ um_endpoint M [USB_DATA_EP, 0x02, 0x0040, 0x00]
     @ um_endpoint M [USB_DATA_EP + 0x80, 0x02, 0x0040, 0x00]"

text \<open>Each character with a zero byte behind it.\<close>
definition utf16 :: "string \<Rightarrow> bytes" where
  "utf16 s = concat (map (\<lambda>c. [of_char c, 0]) s)"

definition vcom_string0 :: "usb_macros \<Rightarrow> bytes" where
  "vcom_string0 M = um_byte M 4 @ um_byte M (um_type_string M) @ um_word M 0x0409"

definition vcom_string1 :: "usb_macros \<Rightarrow> bytes" where
  "vcom_string1 M = um_byte M 14 @ um_byte M (um_type_string M) @ utf16 ''BPRL-F''"

definition vcom_string2 :: "product \<Rightarrow> usb_macros \<Rightarrow> bytes" where
  "vcom_string2 p M = um_byte M 32 @ um_byte M (um_type_string M)
     @ (case p of Robot \<Rightarrow> utf16 ''BPRL Debug USB'' | Bench \<Rightarrow> utf16 ''BPRL Motor Tool'')"

definition vcom_string3 :: "usb_macros \<Rightarrow> bytes" where
  "vcom_string3 M = (let (major, minor, patch) = um_version M in
     um_byte M 8 @ um_byte M (um_type_string M)
     @ [48 + of_nat major, 0] @ [48 + of_nat minor, 0] @ [48 + of_nat patch, 0])"

definition vcom_strings :: "product \<Rightarrow> usb_macros \<Rightarrow> bytes list" where
  "vcom_strings p M = [vcom_string0 M, vcom_string1 M, vcom_string2 p M, vcom_string3 M]"

text \<open>The answer to a request for a descriptor; its size is the length.\<close>
definition get_descriptor :: "product \<Rightarrow> usb_macros \<Rightarrow> nat \<Rightarrow> nat \<Rightarrow> bytes option" where
  "get_descriptor p M dtype dindex =
    (if dtype = um_type_device M then Some (vcom_device_descriptor_data M)
     else if dtype = um_type_configuration M then Some (vcom_configuration_descriptor_data M)
     else if dtype = um_type_string M then (if dindex < 4 then Some (vcom_strings p M ! dindex) else None)
     else None)"

section \<open>Endpoints\<close>

datatype ep_mode = USB_EP_MODE_TYPE_BULK | USB_EP_MODE_TYPE_INTR

datatype ep_callback = sduDataTransmitted | sduDataReceived | sduInterruptTransmitted

record ep_config =
  ec_mode :: ep_mode
  ec_in_cb :: "ep_callback option"
  ec_out_cb :: "ep_callback option"
  ec_in_maxsize :: nat
  ec_out_maxsize :: nat
  ec_has_out_state :: bool
  ec_in_multiplier :: nat

definition ep1config :: ep_config where
  "ep1config = \<lparr>ec_mode = USB_EP_MODE_TYPE_BULK, ec_in_cb = Some sduDataTransmitted, ec_out_cb = Some sduDataReceived,
     ec_in_maxsize = 0x40, ec_out_maxsize = 0x40, ec_has_out_state = True, ec_in_multiplier = 2\<rparr>"

definition ep2config :: ep_config where
  "ep2config = \<lparr>ec_mode = USB_EP_MODE_TYPE_INTR, ec_in_cb = Some sduInterruptTransmitted, ec_out_cb = None,
     ec_in_maxsize = 0x10, ec_out_maxsize = 0, ec_has_out_state = False, ec_in_multiplier = 1\<rparr>"

section \<open>Events\<close>

datatype usbevent = USB_EVENT_RESET | USB_EVENT_ADDRESS | USB_EVENT_CONFIGURED | USB_EVENT_UNCONFIGURED
  | USB_EVENT_SUSPEND | USB_EVENT_WAKEUP | USB_EVENT_STALLED

text \<open>The driver's operations on its own state.\<close>
record 's usb_hooks =
  uh_init_endpoint :: "nat \<Rightarrow> ep_config \<Rightarrow> 's \<Rightarrow> 's"
  uh_configure :: "'s \<Rightarrow> 's"
  uh_suspend :: "'s \<Rightarrow> 's"
  uh_wakeup :: "'s \<Rightarrow> 's"
  uh_active :: "'s \<Rightarrow> bool"
  uh_sof :: "'s \<Rightarrow> 's"

definition usb_event :: "'s usb_hooks \<Rightarrow> usbevent \<Rightarrow> 's \<Rightarrow> 's" where
  "usb_event H e s = (case e of
     USB_EVENT_CONFIGURED \<Rightarrow>
       (let s = uh_init_endpoint H USB_DATA_EP ep1config s; s = uh_init_endpoint H USB_INTR_EP ep2config s in uh_configure H s)
   | USB_EVENT_RESET \<Rightarrow> uh_suspend H s
   | USB_EVENT_UNCONFIGURED \<Rightarrow> uh_suspend H s
   | USB_EVENT_SUSPEND \<Rightarrow> uh_suspend H s
   | USB_EVENT_WAKEUP \<Rightarrow> (let s = uh_wakeup H s in if uh_active H s then uh_configure H s else s)
   | _ \<Rightarrow> s)"

definition sof_handler :: "'s usb_hooks \<Rightarrow> 's \<Rightarrow> 's" where "sof_handler H s = uh_sof H s"

section \<open>Initialisation\<close>

text \<open>The calls of usb_serial_init; the serial driver is given its three endpoints.\<close>
datatype usb_call = RccEnableOTG_FS | UsbDisconnectBus | SleepMilliseconds nat | SduObjectInit | SduStart nat nat nat
  | UsbStart | UsbConnectBus

definition usb_serial_init :: "usb_call list" where
  "usb_serial_init = [RccEnableOTG_FS, UsbDisconnectBus, SleepMilliseconds 5, SduObjectInit,
     SduStart USB_DATA_EP USB_DATA_EP USB_INTR_EP, UsbStart, UsbConnectBus]"

text \<open>Milliseconds since the bus was disconnected, None while it is connected; is the driver started only
after the host has been gone for at least ms?\<close>
fun starts_unplugged :: "nat \<Rightarrow> nat option \<Rightarrow> usb_call list \<Rightarrow> bool" where
  "starts_unplugged ms c [] = True"
| "starts_unplugged ms c (UsbDisconnectBus # xs) = starts_unplugged ms (Some 0) xs"
| "starts_unplugged ms c (SleepMilliseconds n # xs) = starts_unplugged ms (map_option ((+) n) c) xs"
| "starts_unplugged ms c (UsbConnectBus # xs) = starts_unplugged ms None xs"
| "starts_unplugged ms c (UsbStart # xs) = ((case c of None \<Rightarrow> False | Some t \<Rightarrow> ms \<le> t) \<and> starts_unplugged ms c xs)"
| "starts_unplugged ms c (_ # xs) = starts_unplugged ms c xs"

text \<open>The promise of the comment: the bus is disconnected for 5 ms before the driver starts, whatever the
boot loader left.\<close>
lemma usb_starts_unplugged: "starts_unplugged 5 c usb_serial_init"
  by (simp add: usb_serial_init_def)

text \<open>The endpoints of the configuration descriptor are those the driver initialises, with the same packet sizes.\<close>
lemma endpoints_described:
  "\<exists>a b. vcom_configuration_descriptor_data M = a
     @ um_endpoint M [USB_INTR_EP + 0x80, 3, ec_in_maxsize ep2config, 0xFF] @ b
     @ um_endpoint M [USB_DATA_EP, 2, ec_out_maxsize ep1config, 0] @ um_endpoint M [USB_DATA_EP + 0x80, 2, ec_in_maxsize ep1config, 0]"
proof -
  have "vcom_configuration_descriptor_data M = (um_configuration M [67, 0x02, 0x01, 0, 0xC0, 50]
     @ um_interface M [0x00, 0x00, 0x01, 0x02, 0x02, 0x01, 0]
     @ um_byte M 5 @ um_byte M 0x24 @ um_byte M 0x00 @ um_bcd M 0x0110
     @ um_byte M 5 @ um_byte M 0x24 @ um_byte M 0x01 @ um_byte M 0x00 @ um_byte M 0x01
     @ um_byte M 4 @ um_byte M 0x24 @ um_byte M 0x02 @ um_byte M 0x02
     @ um_byte M 5 @ um_byte M 0x24 @ um_byte M 0x06 @ um_byte M 0x00 @ um_byte M 0x01)
     @ um_endpoint M [USB_INTR_EP + 0x80, 3, ec_in_maxsize ep2config, 0xFF] @ um_interface M [0x01, 0x00, 0x02, 0x0A, 0x00, 0x00, 0x00]
     @ um_endpoint M [USB_DATA_EP, 2, ec_out_maxsize ep1config, 0] @ um_endpoint M [USB_DATA_EP + 0x80, 2, ec_in_maxsize ep1config, 0]"
    by (simp add: vcom_configuration_descriptor_data_def ep1config_def ep2config_def)
  then show ?thesis by blast
qed

section \<open>Are the descriptors well formed?\<close>

text \<open>The descriptors a configuration consists of, each a length byte followed by the rest.\<close>
fun desc_walk :: "nat \<Rightarrow> bytes \<Rightarrow> bytes list option" where
  "desc_walk 0 d = (if d = [] then Some [] else None)"
| "desc_walk (Suc n) d = (case d of [] \<Rightarrow> Some []
     | b # _ \<Rightarrow> if 2 \<le> unat b \<and> unat b \<le> length d
         then map_option (\<lambda>ds. take (unat b) d # ds) (desc_walk n (drop (unat b) d)) else None)"

definition desc_ok :: "nat \<Rightarrow> bytes \<Rightarrow> bool" where
  "desc_ok ty d \<longleftrightarrow> 2 \<le> length d \<and> d ! 1 = of_nat ty \<and>
     (if ty = 2 then d ! 0 = 9 \<and> [d ! 2, d ! 3] = byte_pair (length d) else unat (d ! 0) = length d)"

lemma length_utf16: "length (utf16 s) = 2 * length s"
  by (induction s) (simp_all add: utf16_def)

lemma macro_facts:
  assumes "usb_macros_ok M"
  shows "um_byte M b = [of_nat b]" "um_word M w = byte_pair w" "um_bcd M w = byte_pair w"
    "um_type_device M = 1" "um_type_configuration M = 2" "um_type_string M = 3"
  using assms by (simp_all add: usb_macros_ok_def)

lemma list_of_5: "length r = 5 \<Longrightarrow> \<exists>a b c d e. r = [a, b, c, d, e]"
  by (auto simp: numeral_eq_Suc length_Suc_conv)

lemma list_of_7: "length r = 7 \<Longrightarrow> \<exists>a b c d e f g. r = [a, b, c, d, e, f, g]"
  by (auto simp: numeral_eq_Suc length_Suc_conv)

lemma desc_walk_concat:
  "\<forall>d \<in> set ds. 2 \<le> length d \<and> unat (hd d) = length d \<Longrightarrow> length ds \<le> n \<Longrightarrow> desc_walk n (concat ds) = Some ds"
proof (induction ds arbitrary: n)
  case Nil
  then show ?case by (cases n) simp_all
next
  case (Cons d ds)
  then obtain b x m where "d = b # x" "n = Suc m" by (cases d; cases n) auto
  then show ?case using Cons by simp
qed

lemma configuration_layout:
  assumes "usb_macros_ok M"
  shows "desc_ok 2 (vcom_configuration_descriptor_data M) \<and> (\<exists>ds. desc_walk 20 (vcom_configuration_descriptor_data M) = Some ds \<and>
    map length ds = [9, 9, 5, 5, 4, 5, 7, 9, 7, 7])"
proof -
  have cfg: "\<exists>a b c d e. um_configuration M (n # xs) = [9, 2] @ byte_pair n @ [a, b, c, d, e]" for n xs
    using assms list_of_5 unfolding usb_macros_ok_def by metis
  have ep: "\<exists>a b c d e. um_endpoint M xs = [7, 5, a, b, c, d, e]" for xs
  proof -
    obtain r where "um_endpoint M xs = [7, 5] @ r" "length r = 5" using assms unfolding usb_macros_ok_def by blast
    then show ?thesis using list_of_5 [of r] by auto
  qed
  have "\<exists>a b c d e f g. um_interface M xs = [9, 4, a, b, c, d, e, f, g]" for xs
  proof -
    obtain r where "um_interface M xs = [9, 4] @ r" "length r = 7" using assms unfolding usb_macros_ok_def by blast
    then show ?thesis using list_of_7 [of r] by auto
  qed
  note ifc = this
  obtain c1 c2 c3 c4 c5 where c: "um_configuration M [67, 2, 1, 0, 192, 50] = [9, 2] @ byte_pair 67 @ [c1, c2, c3, c4, c5]"
    using cfg by blast
  obtain i1 i2 i3 i4 i5 i6 i7 where i: "um_interface M [0, 0, 1, 2, 2, 1, 0] = [9, 4, i1, i2, i3, i4, i5, i6, i7]" using ifc by blast
  obtain j1 j2 j3 j4 j5 j6 j7 where j: "um_interface M [1, 0, 2, 10, 0, 0, 0] = [9, 4, j1, j2, j3, j4, j5, j6, j7]" using ifc by blast
  obtain e1 e2 e3 e4 e5 where e: "um_endpoint M [USB_INTR_EP + 128, 3, 16, 255] = [7, 5, e1, e2, e3, e4, e5]" using ep by blast
  obtain f1 f2 f3 f4 f5 where f: "um_endpoint M [USB_DATA_EP, 2, 64, 0] = [7, 5, f1, f2, f3, f4, f5]" using ep by blast
  obtain g1 g2 g3 g4 g5 where g: "um_endpoint M [USB_DATA_EP + 128, 2, 64, 0] = [7, 5, g1, g2, g3, g4, g5]" using ep by blast
  note parts = c i j e f g macro_facts [OF assms]
  define ds :: "bytes list" where "ds = [[9, 2] @ byte_pair 67 @ [c1, c2, c3, c4, c5], [9, 4, i1, i2, i3, i4, i5, i6, i7],
    [5, 0x24, 0, 0x10, 1], [5, 0x24, 1, 0, 1], [4, 0x24, 2, 2], [5, 0x24, 6, 0, 1], [7, 5, e1, e2, e3, e4, e5],
    [9, 4, j1, j2, j3, j4, j5, j6, j7], [7, 5, f1, f2, f3, f4, f5], [7, 5, g1, g2, g3, g4, g5]]"
  have "vcom_configuration_descriptor_data M = concat ds"
    unfolding vcom_configuration_descriptor_data_def ds_def parts byte_pair_def by simp
  moreover have "desc_walk 20 (concat ds) = Some ds" "map length ds = [9, 9, 5, 5, 4, 5, 7, 9, 7, 7]"
    by (intro desc_walk_concat, simp_all add: ds_def byte_pair_def)
  ultimately have "\<exists>ds. desc_walk 20 (vcom_configuration_descriptor_data M) = Some ds \<and> map length ds = [9, 9, 5, 5, 4, 5, 7, 9, 7, 7]"
    by metis
  moreover have "desc_ok 2 (vcom_configuration_descriptor_data M)"
    unfolding vcom_configuration_descriptor_data_def parts byte_pair_def by (simp add: desc_ok_def byte_pair_def)
  ultimately show ?thesis by blast
qed

text \<open>Every descriptor the device answers with starts with its own length and its type, and the
configuration's total length is its size and divides into the ten descriptors it consists of, with one
exception: the product string of the robot says 32 and has 30 bytes (32 is right for the fifteen
characters of the bench program's).\<close>
theorem usb_descriptors_sound:
  assumes "usb_macros_ok M" "get_descriptor p M ty i = Some d"
  shows "(desc_ok ty d \<longleftrightarrow> \<not> (p = Robot \<and> ty = 3 \<and> i = 2)) \<and>
    (p = Robot \<and> ty = 3 \<and> i = 2 \<longrightarrow> unat (d ! 0) = 32 \<and> length d = 30) \<and>
    (ty = 2 \<longrightarrow> (\<exists>ds. desc_walk 20 d = Some ds \<and> map length ds = [9, 9, 5, 5, 4, 5, 7, 9, 7, 7]))"
proof -
  note M = macro_facts [OF assms(1)]
  consider "ty = 1" "d = vcom_device_descriptor_data M" | "ty = 2" "d = vcom_configuration_descriptor_data M"
    | "ty = 3" "i < 4" "d = vcom_strings p M ! i"
    using assms(2) M by (auto simp: get_descriptor_def split: if_splits)
  then show ?thesis
  proof cases
    case 1
    obtain r where "d = [18, 1] @ r" "length r = 16"
      using assms(1) 1(2) unfolding usb_macros_ok_def vcom_device_descriptor_data_def by blast
    then show ?thesis using 1(1) by (simp add: desc_ok_def)
  next
    case 2
    then show ?thesis using configuration_layout [OF assms(1)] by simp
  next
    case 3
    then consider "i = 0" | "i = 1" | "i = 2" | "i = 3" by linarith
    then show ?thesis
      using 3 by cases (cases p; simp add: desc_ok_def vcom_strings_def vcom_string0_def vcom_string1_def vcom_string2_def
          vcom_string3_def M length_utf16 byte_pair_def case_prod_beta)+
  qed
qed

text \<open>Macros with the layout of the specification.\<close>
definition plain_macros :: usb_macros where
  "plain_macros = \<lparr>um_device = (\<lambda>_. [18, 1] @ replicate 16 0), um_configuration = (\<lambda>xs. [9, 2] @ byte_pair (hd xs) @ replicate 5 0),
     um_interface = (\<lambda>_. [9, 4] @ replicate 7 0), um_endpoint = (\<lambda>_. [7, 5] @ replicate 5 0), um_byte = (\<lambda>b. [of_nat b]),
     um_word = byte_pair, um_bcd = byte_pair, um_type_device = 1, um_type_configuration = 2, um_type_string = 3,
     um_version = (7, 0, 4)\<rparr>"

theorem usb_descriptors_sound_witness:
  "\<not> desc_ok 3 (vcom_string2 Robot plain_macros) \<and> desc_ok 3 (vcom_string2 Bench plain_macros)"
proof -
  have ok: "usb_macros_ok plain_macros" by (simp add: usb_macros_ok_def plain_macros_def)
  have d: "get_descriptor p plain_macros 3 2 = Some (vcom_string2 p plain_macros)" for p
    by (simp add: get_descriptor_def vcom_strings_def plain_macros_def numeral_eq_Suc)
  show ?thesis using usb_descriptors_sound [OF ok d [of Robot]] usb_descriptors_sound [OF ok d [of Bench]] by simp
qed

end
