(* ===== verification/FlashRegs.thy ===== *)
theory FlashRegs
  imports CalFlash "HOL-Library.Monad_Syntax"
begin

text \<open>
  The flash controller under CalFlash (src/src/coms/CalFlash.cpp, the b2_ functions): every access to a
  register and every store to the flash, in the code's order.  The controller is arbitrary: the values its
  status and control registers read as are two sequences.  The names of the register bits come from the
  processor's header, which is not part of the repository, and are arguments.  A wait that never sees
  the controller ready does not return (None).
\<close>

section \<open>The controller\<close>

datatype flash_reg = KEYR2 | CR2 | CCR2

datatype flash_access = Store flash_reg u32 | Program u32 u32

record flash_bits =
  fb_busy :: u32
  fb_lock :: u32
  fb_ser :: u32
  fb_snb_pos :: nat
  fb_psize1 :: u32
  fb_start :: u32
  fb_pg :: u32
  fb_fw :: u32

record flash_dev =
  fd_sr :: "nat \<Rightarrow> u32"
  fd_cr :: "nat \<Rightarrow> u32"
  fd_nsr :: nat
  fd_ncr :: nat
  fd_out :: "flash_access list"

definition read_sr :: "flash_dev \<Rightarrow> u32 \<times> flash_dev" where
  "read_sr d = (fd_sr d (fd_nsr d), d\<lparr>fd_nsr := Suc (fd_nsr d)\<rparr>)"

definition read_cr :: "flash_dev \<Rightarrow> u32 \<times> flash_dev" where
  "read_cr d = (fd_cr d (fd_ncr d), d\<lparr>fd_ncr := Suc (fd_ncr d)\<rparr>)"

definition emit :: "flash_access list \<Rightarrow> flash_dev \<Rightarrow> flash_dev" where
  "emit xs d = d\<lparr>fd_out := fd_out d @ xs\<rparr>"

section \<open>The code\<close>

definition CAL_ADDR :: u32 where "CAL_ADDR = 0x081E0000"
definition KEY1 :: u32 where "KEY1 = 0x45670123"
definition KEY2 :: u32 where "KEY2 = 0xCDEF89AB"
definition SR_ERR_MASK :: u32 where "SR_ERR_MASK = 0x7EEA0000"

partial_function (option) b2_wait :: "flash_bits \<Rightarrow> flash_dev \<Rightarrow> flash_dev option" where
  "b2_wait B d = (let (v, d) = read_sr d in if v AND fb_busy B \<noteq> 0 then b2_wait B d else Some d)"

definition b2_unlock :: "flash_bits \<Rightarrow> flash_dev \<Rightarrow> flash_dev" where
  "b2_unlock B d =
    (let (v, d) = read_cr d in if v AND fb_lock B \<noteq> 0 then emit [Store KEYR2 KEY1, Store KEYR2 KEY2] d else d)"

text \<open>CR2 |= bits.\<close>
definition cr_or :: "u32 \<Rightarrow> flash_dev \<Rightarrow> flash_dev" where
  "cr_or bits d = (let (v, d) = read_cr d in emit [Store CR2 (v OR bits)] d)"

definition b2_lock :: "flash_bits \<Rightarrow> flash_dev \<Rightarrow> flash_dev" where
  "b2_lock B d = cr_or (fb_lock B) d"

definition b2_clear_errors :: "flash_dev \<Rightarrow> flash_dev" where
  "b2_clear_errors d = emit [Store CCR2 SR_ERR_MASK] d"

text \<open>The end of both operations: wait, read the status, put the control register back.\<close>
definition b2_finish :: "flash_bits \<Rightarrow> flash_dev \<Rightarrow> (bool \<times> flash_dev) option" where
  "b2_finish B d = do {
     d \<leftarrow> b2_wait B d;
     let (v, d) = read_sr d;
     Some (v AND SR_ERR_MASK = 0, emit [Store CR2 0] d) }"

definition b2_erase_sector7 :: "flash_bits \<Rightarrow> flash_dev \<Rightarrow> (bool \<times> flash_dev) option" where
  "b2_erase_sector7 B d = do {
     d \<leftarrow> b2_wait B d;
     let d = b2_clear_errors d;
     let d = emit [Store CR2 (fb_ser B OR push_bit (fb_snb_pos B) 7 OR fb_psize1 B)] d;
     b2_finish B (cr_or (fb_start B) d) }"

definition b2_program_regs :: "flash_bits \<Rightarrow> u32 \<Rightarrow> u32 list \<Rightarrow> flash_dev \<Rightarrow> (bool \<times> flash_dev) option" where
  "b2_program_regs B addr src d = do {
     d \<leftarrow> b2_wait B d;
     let d = b2_clear_errors d;
     let d = emit [Store CR2 (fb_pg B OR fb_psize1 B)] d;
     let d = emit (map (\<lambda>i. Program (addr + of_nat (4 * i)) (src ! i)) [0..<8]) d;
     b2_finish B (cr_or (fb_fw B) d) }"

text \<open>The loop over the flash words, left at the first failure.\<close>
fun program_words :: "flash_bits \<Rightarrow> nat list \<Rightarrow> u32 list \<Rightarrow> flash_dev \<Rightarrow> (bool \<times> flash_dev) option" where
  "program_words B [] src d = Some (True, d)"
| "program_words B (w # ws) src d = do {
     (ok, d) \<leftarrow> b2_program_regs B (CAL_ADDR + of_nat (w * 32)) (drop (w * 8) src) d;
     if ok then program_words B ws src d else Some (False, d) }"

text \<open>The record that is saved, as the 32-bit words it is programmed in.\<close>
definition calib_words :: "calib_data \<Rightarrow> u32 list" where
  "calib_words d = map (\<lambda>i. le_word32 (calib_bytes d) (4 * i)) [0..<32]"

definition cal_save_regs :: "flash_bits \<Rightarrow> calib_data \<Rightarrow> flash_dev \<Rightarrow> (bool \<times> flash_dev) option" where
  "cal_save_regs B c d = do {
     (ok, d) \<leftarrow> b2_erase_sector7 B (b2_unlock B d);
     (ok, d) \<leftarrow> (if ok then program_words B [0..<128 div 32] (calib_words (cal_stamp c)) d else Some (False, d));
     Some (ok, b2_lock B d) }"

definition cal_clear_regs :: "flash_bits \<Rightarrow> flash_dev \<Rightarrow> flash_dev option" where
  "cal_clear_regs B d = do {
     (_, d) \<leftarrow> b2_erase_sector7 B (b2_unlock B d);
     Some (b2_lock B d) }"

section \<open>Waiting\<close>

text \<open>The controller becomes ready again and again.\<close>
definition ready_often :: "flash_bits \<Rightarrow> (nat \<Rightarrow> u32) \<Rightarrow> bool" where
  "ready_often B sr \<longleftrightarrow> (\<forall>k. \<exists>n\<ge>k. sr n AND fb_busy B = 0)"

lemma access_sel [simp]:
  "fd_out (snd (read_sr d)) = fd_out d" "fd_out (snd (read_cr d)) = fd_out d" "fd_out (emit xs d) = fd_out d @ xs"
  "fd_sr (snd (read_sr d)) = fd_sr d" "fd_sr (snd (read_cr d)) = fd_sr d" "fd_sr (emit xs d) = fd_sr d"
  "fst (read_sr d) = fd_sr d (fd_nsr d)" "fd_nsr (snd (read_sr d)) = Suc (fd_nsr d)"
  by (simp_all add: read_sr_def read_cr_def emit_def)

lemma cr_or_sel [simp]:
  "fd_sr (cr_or b d) = fd_sr d" "\<exists>v. fd_out (cr_or b d) = fd_out d @ [Store CR2 (v OR b)]"
  by (auto simp: cr_or_def case_prod_beta)

lemma b2_wait_step: "b2_wait B d = (if fd_sr d (fd_nsr d) AND fb_busy B \<noteq> 0 then b2_wait B (snd (read_sr d)) else Some (snd (read_sr d)))"
  by (subst b2_wait.simps) (simp add: case_prod_beta)

lemma b2_wait_until: "fd_nsr d \<le> n \<Longrightarrow> fd_sr d n AND fb_busy B = 0 \<Longrightarrow>
   \<exists>d'. b2_wait B d = Some d' \<and> fd_out d' = fd_out d \<and> fd_sr d' = fd_sr d"
proof (induction "n - fd_nsr d" arbitrary: d)
  case 0
  then have "n = fd_nsr d" by simp
  then show ?case using 0 by (simp add: b2_wait_step [of B d])
next
  case (Suc m)
  show ?case
  proof (cases "fd_sr d (fd_nsr d) AND fb_busy B = 0")
    case True
    then show ?thesis by (simp add: b2_wait_step [of B d])
  next
    case False
    have "m = n - fd_nsr (snd (read_sr d))" "fd_nsr (snd (read_sr d)) \<le> n" using Suc.hyps(2) by simp_all
    then show ?thesis using Suc.hyps(1) [of "snd (read_sr d)"] Suc.prems(2) False by (simp add: b2_wait_step [of B d])
  qed
qed

lemma b2_wait_returns:
  assumes "ready_often B (fd_sr d)"
  obtains d' where "b2_wait B d = Some d'" "fd_out d' = fd_out d" "fd_sr d' = fd_sr d"
  using assms b2_wait_until [of d _ B] unfolding ready_often_def by blast

section \<open>The operations' accesses\<close>

lemma b2_finish_returns:
  assumes "ready_often B (fd_sr d)"
  obtains ok d' where "b2_finish B d = Some (ok, d')" "fd_out d' = fd_out d @ [Store CR2 0]" "fd_sr d' = fd_sr d"
proof (rule b2_wait_returns [OF assms])
  fix d1 assume "b2_wait B d = Some d1" "fd_out d1 = fd_out d" "fd_sr d1 = fd_sr d"
  then show thesis
    by (intro that [of "fd_sr d1 (fd_nsr d1) AND SR_ERR_MASK = 0" "emit [Store CR2 0] (snd (read_sr d1))"])
      (simp_all add: b2_finish_def case_prod_beta)
qed

lemma b2_erase_returns:
  assumes "ready_often B (fd_sr d)"
  obtains ok d' v where "b2_erase_sector7 B d = Some (ok, d')" "fd_sr d' = fd_sr d"
    "fd_out d' = fd_out d @ [Store CCR2 SR_ERR_MASK, Store CR2 (fb_ser B OR push_bit (fb_snb_pos B) 7 OR fb_psize1 B),
       Store CR2 (v OR fb_start B), Store CR2 0]"
proof (rule b2_wait_returns [OF assms])
  fix d1 assume w: "b2_wait B d = Some d1" "fd_out d1 = fd_out d" "fd_sr d1 = fd_sr d"
  define d2 where "d2 = emit [Store CR2 (fb_ser B OR push_bit (fb_snb_pos B) 7 OR fb_psize1 B)] (b2_clear_errors d1)"
  obtain v where v: "fd_out (cr_or (fb_start B) d2) = fd_out d2 @ [Store CR2 (v OR fb_start B)]" using cr_or_sel(2) by blast
  have "ready_often B (fd_sr (cr_or (fb_start B) d2))" using assms w(3) by (simp add: d2_def b2_clear_errors_def)
  then show thesis
  proof (rule b2_finish_returns)
    fix ok d3 assume f: "b2_finish B (cr_or (fb_start B) d2) = Some (ok, d3)"
      "fd_out d3 = fd_out (cr_or (fb_start B) d2) @ [Store CR2 0]" "fd_sr d3 = fd_sr (cr_or (fb_start B) d2)"
    show thesis
      by (rule that [of ok d3 v]) (use f w v in \<open>simp_all add: b2_erase_sector7_def d2_def b2_clear_errors_def\<close>)
  qed
qed

lemma b2_program_returns:
  assumes "ready_often B (fd_sr d)"
  obtains ok d' v where "b2_program_regs B a src d = Some (ok, d')" "fd_sr d' = fd_sr d"
    "fd_out d' = fd_out d @ [Store CCR2 SR_ERR_MASK, Store CR2 (fb_pg B OR fb_psize1 B)]
       @ map (\<lambda>i. Program (a + of_nat (4 * i)) (src ! i)) [0..<8] @ [Store CR2 (v OR fb_fw B), Store CR2 0]"
proof (rule b2_wait_returns [OF assms])
  fix d1 assume w: "b2_wait B d = Some d1" "fd_out d1 = fd_out d" "fd_sr d1 = fd_sr d"
  define d2 where "d2 = emit (map (\<lambda>i. Program (a + of_nat (4 * i)) (src ! i)) [0..<8])
    (emit [Store CR2 (fb_pg B OR fb_psize1 B)] (b2_clear_errors d1))"
  obtain v where v: "fd_out (cr_or (fb_fw B) d2) = fd_out d2 @ [Store CR2 (v OR fb_fw B)]" using cr_or_sel(2) by blast
  have "ready_often B (fd_sr (cr_or (fb_fw B) d2))" using assms w(3) by (simp add: d2_def b2_clear_errors_def)
  then show thesis
  proof (rule b2_finish_returns)
    fix ok d3 assume f: "b2_finish B (cr_or (fb_fw B) d2) = Some (ok, d3)"
      "fd_out d3 = fd_out (cr_or (fb_fw B) d2) @ [Store CR2 0]" "fd_sr d3 = fd_sr (cr_or (fb_fw B) d2)"
    show thesis
      by (rule that [of ok d3 v]) (use f w v in \<open>simp_all add: b2_program_regs_def d2_def b2_clear_errors_def Let_def\<close>)
  qed
qed

section \<open>A whole save\<close>

text \<open>The stores to the flash among the accesses.\<close>
fun programs :: "flash_access list \<Rightarrow> (u32 \<times> u32) list" where
  "programs [] = []"
| "programs (Program a v # xs) = (a, v) # programs xs"
| "programs (Store r v # xs) = programs xs"

text \<open>Is the flash stored to only while the last control word enables programming?\<close>
fun under_pg :: "u32 \<Rightarrow> u32 \<Rightarrow> flash_access list \<Rightarrow> bool" where
  "under_pg pg cr [] = True"
| "under_pg pg cr (Store CR2 v # xs) = under_pg pg v xs"
| "under_pg pg cr (Store r v # xs) = under_pg pg cr xs"
| "under_pg pg cr (Program a v # xs) \<longleftrightarrow> cr = pg \<and> under_pg pg cr xs"

lemma programs_append [simp]: "programs (xs @ ys) = programs xs @ programs ys"
  by (induction xs rule: programs.induct) simp_all

lemma programs_map [simp]: "programs (map (\<lambda>i. Program (f i) (g i)) is') = map (\<lambda>i. (f i, g i)) is'"
  by (induction is') simp_all

lemma under_pg_map: "under_pg pg cr (map (\<lambda>i. Program (f i) (g i)) is' @ xs) \<longleftrightarrow> (is' \<noteq> [] \<longrightarrow> cr = pg) \<and> under_pg pg cr xs"
  by (induction is') auto

text \<open>The stores of one flash word, and of the record.\<close>
definition word_stores :: "u32 list \<Rightarrow> nat \<Rightarrow> (u32 \<times> u32) list" where
  "word_stores src w = map (\<lambda>i. (CAL_ADDR + of_nat (w * 32) + of_nat (4 * i), drop (w * 8) src ! i)) [0..<8]"

lemma program_words_returns:
  "ready_often B (fd_sr d) \<Longrightarrow> \<exists>ok d' out k. program_words B ws src d = Some (ok, d') \<and> fd_sr d' = fd_sr d \<and>
     fd_out d' = fd_out d @ out \<and> k \<le> length ws \<and> (ok \<longrightarrow> k = length ws) \<and>
     programs out = concat (map (word_stores src) (take k ws)) \<and> (\<forall>cr. under_pg (fb_pg B OR fb_psize1 B) cr out)"
proof (induction ws arbitrary: d)
  case Nil
  then show ?case by (intro exI [of _ True] exI [of _ d] exI [of _ "[]"] exI [of _ 0]) simp
next
  case (Cons w ws)
  show ?case
  proof (rule b2_program_returns [OF Cons.prems, of "CAL_ADDR + of_nat (w * 32)" "drop (w * 8) src"])
    fix ok d1 v
    assume p: "b2_program_regs B (CAL_ADDR + of_nat (w * 32)) (drop (w * 8) src) d = Some (ok, d1)" "fd_sr d1 = fd_sr d"
    define out1 where "out1 = [Store CCR2 SR_ERR_MASK, Store CR2 (fb_pg B OR fb_psize1 B)]
       @ map (\<lambda>i. Program (CAL_ADDR + of_nat (w * 32) + of_nat (4 * i)) (drop (w * 8) src ! i)) [0..<8]
       @ [Store CR2 (v OR fb_fw B), Store CR2 0]"
    assume "fd_out d1 = fd_out d @ [Store CCR2 SR_ERR_MASK, Store CR2 (fb_pg B OR fb_psize1 B)]
       @ map (\<lambda>i. Program (CAL_ADDR + of_nat (w * 32) + of_nat (4 * i)) (drop (w * 8) src ! i)) [0..<8]
       @ [Store CR2 (v OR fb_fw B), Store CR2 0]"
    then have o: "fd_out d1 = fd_out d @ out1" by (simp add: out1_def)
    have pr: "programs out1 = word_stores src w" "\<And>cr. under_pg (fb_pg B OR fb_psize1 B) cr (out1 @ xs) = under_pg (fb_pg B OR fb_psize1 B) 0 xs" for xs
      by (simp_all add: out1_def word_stores_def under_pg_map del: upt_Suc)
    show ?thesis
    proof (cases ok)
      case False
      then show ?thesis using p o pr(1) pr(2) [of _ "[]"]
        by (intro exI [of _ False] exI [of _ d1] exI [of _ out1] exI [of _ 1]) simp
    next
      case True
      obtain ok' d' out k where r: "program_words B ws src d1 = Some (ok', d')" "fd_sr d' = fd_sr d1"
        "fd_out d' = fd_out d1 @ out" "k \<le> length ws" "ok' \<longrightarrow> k = length ws"
        "programs out = concat (map (word_stores src) (take k ws))" "\<forall>cr. under_pg (fb_pg B OR fb_psize1 B) cr out"
        using Cons.IH [of d1] Cons.prems p(2) by auto
      show ?thesis
        by (intro exI [of _ ok'] exI [of _ d'] exI [of _ "out1 @ out"] exI [of _ "Suc k"]) (use True p o pr r in simp)
    qed
  qed
qed

text \<open>The record as its words, and where they belong.\<close>
definition record_stores :: "calib_data \<Rightarrow> (u32 \<times> u32) list" where
  "record_stores d = map (\<lambda>i. (CAL_ADDR + of_nat (4 * i), calib_words d ! i)) [0..<32]"

lemma word_stores_record: "concat (map (word_stores (calib_words d)) (take k [0..<4])) = take (8 * k) (record_stores d)" if "k \<le> 4"
proof -
  have w: "word_stores (calib_words d) w = map (\<lambda>i. (CAL_ADDR + of_nat (4 * i), calib_words d ! i)) [8 * w..<8 * w + 8]"
    if "w < 4" for w
  proof -
    have "length (calib_words d) = 32" by (simp add: calib_words_def)
    then show ?thesis using that
      by (intro nth_equalityI) (simp_all add: word_stores_def algebra_simps)
  qed
  show ?thesis using that
  proof (induction k)
    case (Suc k)
    then have "take (Suc k) [0..<4] = take k [0..<4] @ [k]" by (simp add: take_Suc_conv_app_nth)
    moreover have "take (8 * Suc k) (record_stores d) = take (8 * k) (record_stores d) @ word_stores (calib_words d) k"
      using Suc.prems upt_add_eq_append [of 0 "8 * k" 8] by (simp add: w record_stores_def take_map min_def add.commute)
    ultimately show ?case using Suc by simp
  qed simp
qed

lemma join_words: "concat (map (\<lambda>i. le_bytes32 (le_word32 m (4 * i))) [0..<n]) = m" if "length m = 4 * n"
  using that
proof (induction n arbitrary: m)
  case (Suc n)
  define m0 m1 where "m0 = take 4 m" and "m1 = drop 4 m"
  have m: "m = m0 @ m1" "length m0 = 4" "length m1 = 4 * n" using Suc.prems by (simp_all add: m0_def m1_def)
  have beyond: "\<not> bit (x :: u8) n" if "8 \<le> n" for x n using bit_imp_le_length [of x n] that by auto
  obtain a b c e where "m0 = [a, b, c, e]" using m(2) by (auto simp: length_Suc_conv numeral_eq_Suc)
  then have "le_bytes32 (le_word32 (m0 @ m1) 0) = m0"
    by (simp add: le_bytes32_def le_word32_def and_0xFF) (auto intro!: bit_word_eqI simp: bit_simps beyond)
  moreover have "le_word32 (m0 @ m1) (4 * Suc i) = le_word32 m1 (4 * i)" if "i < n" for i
    using m(2,3) that by (simp add: le_word32_def nth_append add.commute)
  then have "map (\<lambda>i. le_bytes32 (le_word32 (m0 @ m1) (4 * i))) (map Suc [0..<n]) = map (\<lambda>i. le_bytes32 (le_word32 m1 (4 * i))) [0..<n]"
    by simp
  moreover have "[0..<Suc n] = 0 # map Suc [0..<n]" by (simp add: upt_conv_Cons map_Suc_upt del: upt_Suc)
  ultimately show ?case using Suc.IH [OF m(3)] unfolding m(1)
    by (simp only: list.map concat.simps mult_0_right)
qed simp

text \<open>C31. Saving a calibration record, at the level of the flash controller's registers.  Whatever the status
and control registers read as, as long as the controller becomes ready again and again: cal_save returns;
the words it stores to the flash are the record's first 8 k words in order, at their places from CAL_ADDR
on, each while the control register enables programming and nothing else; success means that all 32 words
were stored, and they are the bytes cal_load reads back; the last access sets the lock bit.\<close>
theorem cal_save_registers:
  assumes "ready_often B (fd_sr dev)" "calib_ok c"
  shows "\<exists>ok dev' out k. cal_save_regs B c dev = Some (ok, dev') \<and> fd_out dev' = fd_out dev @ out \<and>
     k \<le> 4 \<and> programs out = take (8 * k) (record_stores (cal_stamp c)) \<and> under_pg (fb_pg B OR fb_psize1 B) 0 out \<and>
     (ok \<longrightarrow> k = 4 \<and> concat (map (le_bytes32 \<circ> snd) (programs out)) = calib_bytes (cal_stamp c)) \<and>
     (\<exists>v. last out = Store CR2 (v OR fb_lock B))"
proof -
  define d0 where "d0 = b2_unlock B dev"
  obtain u where u: "fd_out d0 = fd_out dev @ u" "programs u = []" "\<And>xs. under_pg (fb_pg B OR fb_psize1 B) 0 (u @ xs) = under_pg (fb_pg B OR fb_psize1 B) 0 xs"
    "fd_sr d0 = fd_sr dev"
    by (cases "fst (read_cr dev) AND fb_lock B = 0") (auto simp: d0_def b2_unlock_def case_prod_beta)
  have "ready_often B (fd_sr d0)" using assms(1) u(4) by simp
  then obtain ok1 d1 v where e: "b2_erase_sector7 B d0 = Some (ok1, d1)" "fd_sr d1 = fd_sr d0"
    "fd_out d1 = fd_out d0 @ [Store CCR2 SR_ERR_MASK, Store CR2 (fb_ser B OR push_bit (fb_snb_pos B) 7 OR fb_psize1 B),
       Store CR2 (v OR fb_start B), Store CR2 0]" by (rule b2_erase_returns)
  obtain ok d2 out k where w: "(if ok1 then program_words B [0..<4] (calib_words (cal_stamp c)) d1 else Some (False, d1)) = Some (ok, d2)"
    "fd_out d2 = fd_out d1 @ out" "k \<le> 4" "ok \<longrightarrow> k = 4" "under_pg (fb_pg B OR fb_psize1 B) 0 out"
    "programs out = take (8 * k) (record_stores (cal_stamp c))"
  proof (cases ok1)
    case True
    have "ready_often B (fd_sr d1)" using assms(1) u(4) e(2) by simp
    then obtain ok d2 out k where w: "program_words B [0..<4] (calib_words (cal_stamp c)) d1 = Some (ok, d2)"
      "fd_out d2 = fd_out d1 @ out" "k \<le> length [0..<4::nat]" "ok \<longrightarrow> k = length [0..<4::nat]"
      "programs out = concat (map (word_stores (calib_words (cal_stamp c))) (take k [0..<4]))"
      "\<forall>cr. under_pg (fb_pg B OR fb_psize1 B) cr out"
      using program_words_returns [of B d1 "[0..<4]" "calib_words (cal_stamp c)"] by metis
    have "k \<le> 4" "ok \<longrightarrow> k = 4" using w(3,4) by simp_all
    then show ?thesis using that [of ok d2 out k] w(1,2,5,6) word_stores_record [of k "cal_stamp c"] True by (simp del: upt_Suc)
  next
    case False
    then show ?thesis using that [of False d1 "[]" 0] by simp
  qed
  obtain x where x: "fd_out (b2_lock B d2) = fd_out d2 @ [Store CR2 (x OR fb_lock B)]"
    using cr_or_sel(2) unfolding b2_lock_def by blast
  define all where "all = u @ [Store CCR2 SR_ERR_MASK, Store CR2 (fb_ser B OR push_bit (fb_snb_pos B) 7 OR fb_psize1 B),
       Store CR2 (v OR fb_start B), Store CR2 0] @ out @ [Store CR2 (x OR fb_lock B)]"
  have s: "cal_save_regs B c dev = Some (ok, b2_lock B d2)"
    using e(1) w(1) by (cases ok1) (simp_all add: cal_save_regs_def flip: d0_def)
  have "under_pg pg cr (xs @ [Store CR2 y]) = under_pg pg cr xs" for pg cr xs y
    by (induction pg cr xs rule: under_pg.induct) simp_all
  then have "under_pg (fb_pg B OR fb_psize1 B) 0 all =
      under_pg (fb_pg B OR fb_psize1 B) 0 (u @ [Store CCR2 SR_ERR_MASK,
        Store CR2 (fb_ser B OR push_bit (fb_snb_pos B) 7 OR fb_psize1 B), Store CR2 (v OR fb_start B), Store CR2 0] @ out)"
    unfolding all_def by (metis append_assoc)
  then have "under_pg (fb_pg B OR fb_psize1 B) 0 all" using w(5) unfolding u(3) by simp
  moreover have "length (calib_bytes (cal_stamp c)) = 4 * 32"
    using assms(2) by (simp add: length_calib_bytes cal_stamp_facts)
  then have "concat (map (le_bytes32 \<circ> snd) (record_stores (cal_stamp c))) = calib_bytes (cal_stamp c)"
  proof -
    assume l: "length (calib_bytes (cal_stamp c)) = 4 * 32"
    have "map (le_bytes32 \<circ> snd) (record_stores (cal_stamp c))
        = map (\<lambda>i. le_bytes32 (le_word32 (calib_bytes (cal_stamp c)) (4 * i))) [0..<32]"
      by (rule nth_equalityI) (simp_all add: record_stores_def calib_words_def)
    then show ?thesis using join_words [OF l] by simp
  qed
  moreover have "programs all = programs out" using u(2) by (simp add: all_def)
  moreover have "length (record_stores (cal_stamp c)) = 32" by (simp add: record_stores_def)
  moreover have "fd_out (b2_lock B d2) = fd_out dev @ all" using u(1) e(3) w(2) x by (simp add: all_def)
  ultimately show ?thesis using s w(3,4,6)
    by (intro exI [of _ ok] exI [of _ "b2_lock B d2"] exI [of _ all] exI [of _ k]) (auto simp: all_def)
qed

text \<open>A device that is always ready and reports no error, and one that reports a programming-sequence error.\<close>
definition plain_bits :: flash_bits where
  "plain_bits = \<lparr>fb_busy = 0x7, fb_lock = 0x1, fb_ser = 0x4, fb_snb_pos = 8, fb_psize1 = 0x20, fb_start = 0x80, fb_pg = 0x2,
     fb_fw = 0x40\<rparr>"

definition status_dev :: "u32 \<Rightarrow> flash_dev" where
  "status_dev v = \<lparr>fd_sr = \<lambda>_. v, fd_cr = \<lambda>_. 1, fd_nsr = 0, fd_ncr = 0, fd_out = []\<rparr>"

theorem cal_save_registers_witness:
  "\<exists>ok dev' k. cal_save_regs plain_bits demo_cal (status_dev 0) = Some (ok, dev') \<and> k \<le> 4 \<and>
     programs (fd_out dev') = take (8 * k) (record_stores (cal_stamp demo_cal))"
proof -
  have "ready_often plain_bits (fd_sr (status_dev 0))" by (auto simp: ready_often_def status_dev_def)
  then obtain ok dev' out k where "cal_save_regs plain_bits demo_cal (status_dev 0) = Some (ok, dev')"
    "fd_out dev' = fd_out (status_dev 0) @ out" "k \<le> 4" "programs out = take (8 * k) (record_stores (cal_stamp demo_cal))"
    using cal_save_registers [OF _ demo_cal_ok, of plain_bits "status_dev 0"] by blast
  then show ?thesis by (intro exI [of _ ok] exI [of _ dev'] exI [of _ k]) (simp add: status_dev_def)
qed

section \<open>Which errors are seen\<close>

lemma steady_finish: "\<forall>n. fd_sr d n = v \<Longrightarrow> v AND fb_busy B = 0 \<Longrightarrow>
   \<exists>d'. b2_finish B d = Some (v AND SR_ERR_MASK = 0, d') \<and> fd_sr d' = fd_sr d"
  by (simp add: b2_finish_def b2_wait_step [of B d] case_prod_beta)

lemma steady_erase: "\<forall>n. fd_sr d n = v \<Longrightarrow> v AND fb_busy B = 0 \<Longrightarrow>
   \<exists>d'. b2_erase_sector7 B d = Some (v AND SR_ERR_MASK = 0, d') \<and> fd_sr d' = fd_sr d"
  using steady_finish [of "cr_or (fb_start B) (emit [Store CR2 (fb_ser B OR push_bit (fb_snb_pos B) 7 OR fb_psize1 B)]
     (b2_clear_errors (snd (read_sr d))))" v B]
  by (simp add: b2_erase_sector7_def b2_wait_step [of B d] b2_clear_errors_def)

lemma steady_program: "\<forall>n. fd_sr d n = v \<Longrightarrow> v AND fb_busy B = 0 \<Longrightarrow>
   \<exists>d'. b2_program_regs B a src d = Some (v AND SR_ERR_MASK = 0, d') \<and> fd_sr d' = fd_sr d"
  using steady_finish [of "cr_or (fb_fw B) (emit (map (\<lambda>i. Program (a + of_nat (4 * i)) (src ! i)) [0..<8])
     (emit [Store CR2 (fb_pg B OR fb_psize1 B)] (b2_clear_errors (snd (read_sr d)))))" v B]
  by (simp add: b2_program_regs_def b2_wait_step [of B d] b2_clear_errors_def Let_def del: upt_Suc upt_rec_numeral)

lemma steady_words: "\<forall>n. fd_sr d n = v \<Longrightarrow> v AND fb_busy B = 0 \<Longrightarrow> v AND SR_ERR_MASK = 0 \<Longrightarrow>
   \<exists>d'. program_words B ws src d = Some (True, d')"
proof (induction ws arbitrary: d)
  case (Cons w ws)
  then show ?case using steady_program [of d v B "CAL_ADDR + of_nat (w * 32)" "drop (w * 8) src"] by fastforce
qed simp

text \<open>C32. The status bits a save looks at.  If the controller's status register reads v after every
operation, with the busy flags clear, cal_save answers success exactly if v has none of the bits 17, 19, 21
to 23, 25 to 30.  Bits 18 and 24 are not among them: the comment at SR_ERR_MASK lists PGSERR and RDSERR, which
the processor's manual puts at 18 and 24, so a programming-sequence error is reported as success; bits 28 to
30, which are not error flags, fail a good save.\<close>
theorem flash_errors_seen:
  assumes "\<forall>n. fd_sr dev n = v" "v AND fb_busy B = 0"
  shows "\<exists>dev'. cal_save_regs B c dev =
     Some (\<not> (\<exists>i \<in> {17, 19, 21, 22, 23, 25, 26, 27, 28, 29, 30}. bit v i), dev')"
proof -
  have mask: "bit SR_ERR_MASK i \<longleftrightarrow> i \<in> {17, 19, 21, 22, 23, 25, 26, 27, 28, 29, 30}" if "i < 32" for i
  proof -
    have "\<forall>i \<in> set [0..<32]. bit SR_ERR_MASK i \<longleftrightarrow> i \<in> {17, 19, 21, 22, 23, 25, 26, 27, 28, 29, 30}"
      by (simp add: SR_ERR_MASK_def upt_rec)
    then show ?thesis using that by auto
  qed
  have "v AND SR_ERR_MASK = 0 \<longleftrightarrow> \<not> (\<exists>i \<in> {17, 19, 21, 22, 23, 25, 26, 27, 28, 29, 30}. bit v i)"
  proof -
    have "v AND SR_ERR_MASK = 0 \<longleftrightarrow> (\<forall>i<32. \<not> (bit v i \<and> bit SR_ERR_MASK i))"
      by (auto simp: bit_eq_iff bit_simps dest: bit_imp_le_length)
    also have "\<dots> \<longleftrightarrow> (\<forall>i<32. \<not> (bit v i \<and> i \<in> {17, 19, 21, 22, 23, 25, 26, 27, 28, 29, 30}))" using mask by blast
    also have "\<dots> \<longleftrightarrow> \<not> (\<exists>i \<in> {17, 19, 21, 22, 23, 25, 26, 27, 28, 29, 30}. bit v i)"
    proof -
      have "\<forall>i \<in> {17, 19, 21, 22, 23, 25, 26, 27, 28, 29, 30}. i < (32 :: nat)" by simp
      then show ?thesis by blast
    qed
    finally show ?thesis .
  qed
  moreover have "\<exists>dev'. cal_save_regs B c dev = Some (v AND SR_ERR_MASK = 0, dev')"
  proof -
    have "fd_sr (b2_unlock B dev) = fd_sr dev" by (simp add: b2_unlock_def case_prod_beta)
    then obtain d1 where e: "b2_erase_sector7 B (b2_unlock B dev) = Some (v AND SR_ERR_MASK = 0, d1)" "\<forall>n. fd_sr d1 n = v"
      using steady_erase [of "b2_unlock B dev" v B] assms by auto
    show ?thesis
    proof (cases "v AND SR_ERR_MASK = 0")
      case True
      then show ?thesis using e steady_words [OF e(2) assms(2), of "[0..<128 div 32]" "calib_words (cal_stamp c)"]
        by (auto simp: cal_save_regs_def simp del: upt_rec_numeral)
    qed (use e in \<open>simp add: cal_save_regs_def\<close>)
  qed
  ultimately show ?thesis by simp
qed

theorem flash_errors_seen_witness:
  "\<exists>dev'. cal_save_regs plain_bits demo_cal (status_dev (push_bit 18 1)) = Some (True, dev')"
proof -
  have "(push_bit 18 1 :: u32) AND fb_busy plain_bits = 0" by (simp add: plain_bits_def)
  then show ?thesis
    using flash_errors_seen [of "status_dev (push_bit 18 1)" "push_bit 18 1" plain_bits demo_cal]
    by (simp add: status_dev_def bit_simps)
qed

end
