(* ===== verification/Board.thy ===== *)
theory Board
  imports Prelude
begin

text \<open>
  The pins of the board: src/boards/CubeOrangePlus/board.h (the names of the lines) and board.c (boardInit,
  the calls to the pin driver in their order), with the chip selects of src/src/coms/SPI.cpp.  A pin has the
  mode it was last given and the output latch palSetPad and palClearLine write; the latch drives the pin
  once its mode is an output.
\<close>

section \<open>Lines\<close>

datatype port = GPIOA | GPIOB | GPIOC | GPIOD | GPIOE | GPIOG

type_synonym line = "port \<times> nat"

text \<open>The names board.h gives to lines.\<close>
datatype line_name = LED_ACTIVITY | UART3_TX | UART3_RX | SENSOR_PWR_EN | SPI1_SCK | SPI1_MISO | SPI1_MOSI | IMU1_CS
  | SPI4_SCK | SPI4_MISO | SPI4_MOSI | IMU2_CS | IMU3_CS | BARO_CS | BARO_EXT_CS | IMU1_DRDY | IMU2_DRDY
  | CAN1_TX | CAN1_RX | CAN2_TX | CAN2_RX | SDMMC1_D0 | SDMMC1_D1 | SDMMC1_D2 | SDMMC1_D3 | SDMMC1_CK | SDMMC1_CMD
  | I2C1_SCL | I2C1_SDA | I2C2_SCL | I2C2_SDA | FMU_CH1 | FMU_CH2 | FMU_CH3 | FMU_CH4 | PERIPH_5V_EN | PWM_VOLT_SEL
  | RC_INPUT

fun LINE :: "line_name \<Rightarrow> line" where
  "LINE LED_ACTIVITY = (GPIOB, 0)"
| "LINE UART3_TX = (GPIOD, 8)"
| "LINE UART3_RX = (GPIOD, 9)"
| "LINE SENSOR_PWR_EN = (GPIOE, 3)"
| "LINE SPI1_SCK = (GPIOA, 5)"
| "LINE SPI1_MISO = (GPIOA, 6)"
| "LINE SPI1_MOSI = (GPIOA, 7)"
| "LINE IMU1_CS = (GPIOC, 2)"
| "LINE SPI4_SCK = (GPIOE, 2)"
| "LINE SPI4_MISO = (GPIOE, 5)"
| "LINE SPI4_MOSI = (GPIOE, 6)"
| "LINE IMU2_CS = (GPIOE, 4)"
| "LINE IMU3_CS = (GPIOC, 13)"
| "LINE BARO_CS = (GPIOD, 7)"
| "LINE BARO_EXT_CS = (GPIOC, 14)"
| "LINE IMU1_DRDY = (GPIOD, 15)"
| "LINE IMU2_DRDY = (GPIOD, 10)"
| "LINE CAN1_TX = (GPIOD, 1)"
| "LINE CAN1_RX = (GPIOD, 0)"
| "LINE CAN2_TX = (GPIOB, 6)"
| "LINE CAN2_RX = (GPIOB, 12)"
| "LINE SDMMC1_D0 = (GPIOC, 8)"
| "LINE SDMMC1_D1 = (GPIOC, 9)"
| "LINE SDMMC1_D2 = (GPIOC, 10)"
| "LINE SDMMC1_D3 = (GPIOC, 11)"
| "LINE SDMMC1_CK = (GPIOC, 12)"
| "LINE SDMMC1_CMD = (GPIOD, 2)"
| "LINE I2C1_SCL = (GPIOB, 8)"
| "LINE I2C1_SDA = (GPIOB, 9)"
| "LINE I2C2_SCL = (GPIOB, 10)"
| "LINE I2C2_SDA = (GPIOB, 11)"
| "LINE FMU_CH1 = (GPIOE, 9)"
| "LINE FMU_CH2 = (GPIOE, 11)"
| "LINE FMU_CH3 = (GPIOE, 13)"
| "LINE FMU_CH4 = (GPIOE, 14)"
| "LINE PERIPH_5V_EN = (GPIOA, 8)"
| "LINE PWM_VOLT_SEL = (GPIOB, 4)"
| "LINE RC_INPUT = (GPIOD, 9)"

section \<open>The pin driver's calls\<close>

datatype pin_mode = OUTPUT_PUSHPULL | ALTERNATE nat

datatype pin_flag = OSPEED_LOWEST | OSPEED_HIGHEST | PUPDR_PULLUP

datatype pin_op = SetPadMode line pin_mode "pin_flag list" | SetPad line | ClearPad line

record pin =
  pn_mode :: "(pin_mode \<times> pin_flag list) option"
  pn_latch :: bool

definition pin_step :: "pin_op \<Rightarrow> (line \<Rightarrow> pin) \<Rightarrow> line \<Rightarrow> pin" where
  "pin_step x s = (case x of
     SetPadMode l m fs \<Rightarrow> s(l := (s l)\<lparr>pn_mode := Some (m, fs)\<rparr>)
   | SetPad l \<Rightarrow> s(l := (s l)\<lparr>pn_latch := True\<rparr>)
   | ClearPad l \<Rightarrow> s(l := (s l)\<lparr>pn_latch := False\<rparr>))"

definition pin_run :: "pin_op list \<Rightarrow> (line \<Rightarrow> pin) \<Rightarrow> line \<Rightarrow> pin" where
  "pin_run = fold pin_step"

section \<open>boardInit\<close>

text \<open>The rails, the light, the buses; each group as in the source.\<close>
definition board_power :: "pin_op list" where
  "board_power =
    [SetPadMode (GPIOA, 8) OUTPUT_PUSHPULL [OSPEED_LOWEST], ClearPad (LINE PERIPH_5V_EN),
     SetPadMode (GPIOB, 4) OUTPUT_PUSHPULL [OSPEED_LOWEST], SetPad (LINE PWM_VOLT_SEL),
     SetPadMode (GPIOE, 3) OUTPUT_PUSHPULL [OSPEED_HIGHEST], SetPad (LINE SENSOR_PWR_EN),
     SetPadMode (GPIOB, 0) OUTPUT_PUSHPULL [OSPEED_LOWEST], ClearPad (LINE LED_ACTIVITY)]"

text \<open>A chip select: high before it becomes an output.\<close>
definition idle_select :: "line \<Rightarrow> pin_op list" where
  "idle_select l = [SetPad l, SetPadMode l OUTPUT_PUSHPULL [OSPEED_HIGHEST]]"

definition board_spi1 :: "pin_op list" where
  "board_spi1 =
    [SetPadMode (GPIOA, 5) (ALTERNATE 5) [OSPEED_HIGHEST], SetPadMode (GPIOA, 6) (ALTERNATE 5) [PUPDR_PULLUP],
     SetPadMode (GPIOA, 7) (ALTERNATE 5) [OSPEED_HIGHEST]]
    @ idle_select (GPIOG, 1) @ idle_select (GPIOC, 2) @ idle_select (GPIOC, 1) @ idle_select (GPIOD, 7)"

definition board_spi4 :: "pin_op list" where
  "board_spi4 =
    [SetPadMode (GPIOE, 2) (ALTERNATE 5) [OSPEED_HIGHEST], SetPadMode (GPIOE, 5) (ALTERNATE 5) [PUPDR_PULLUP],
     SetPadMode (GPIOE, 6) (ALTERNATE 5) [OSPEED_HIGHEST]]
    @ idle_select (GPIOC, 15) @ idle_select (GPIOC, 14) @ idle_select (GPIOC, 13) @ idle_select (GPIOE, 4)"

definition board_serial :: "pin_op list" where
  "board_serial =
    [SetPadMode (GPIOD, 5) (ALTERNATE 7) [OSPEED_HIGHEST], SetPadMode (GPIOD, 6) (ALTERNATE 7) [PUPDR_PULLUP],
     SetPadMode (GPIOD, 8) (ALTERNATE 7) [OSPEED_HIGHEST], SetPadMode (GPIOD, 9) (ALTERNATE 7) [PUPDR_PULLUP],
     SetPadMode (GPIOA, 11) (ALTERNATE 10) [OSPEED_HIGHEST], SetPadMode (GPIOA, 12) (ALTERNATE 10) [OSPEED_HIGHEST]]"

definition board_can :: "pin_op list" where
  "board_can =
    [SetPadMode (GPIOD, 1) (ALTERNATE 9) [OSPEED_HIGHEST], SetPadMode (GPIOD, 0) (ALTERNATE 9) [PUPDR_PULLUP],
     SetPadMode (GPIOB, 6) (ALTERNATE 9) [OSPEED_HIGHEST], SetPadMode (GPIOB, 12) (ALTERNATE 9) [PUPDR_PULLUP]]"

definition board_sdmmc :: "pin_op list" where
  "board_sdmmc =
    [SetPadMode (GPIOC, 8) (ALTERNATE 12) [OSPEED_HIGHEST, PUPDR_PULLUP],
     SetPadMode (GPIOC, 9) (ALTERNATE 12) [OSPEED_HIGHEST, PUPDR_PULLUP],
     SetPadMode (GPIOC, 10) (ALTERNATE 12) [OSPEED_HIGHEST, PUPDR_PULLUP],
     SetPadMode (GPIOC, 11) (ALTERNATE 12) [OSPEED_HIGHEST, PUPDR_PULLUP],
     SetPadMode (GPIOC, 12) (ALTERNATE 12) [OSPEED_HIGHEST],
     SetPadMode (GPIOD, 2) (ALTERNATE 12) [OSPEED_HIGHEST, PUPDR_PULLUP]]"

definition board_init :: "pin_op list" where
  "board_init = board_power @ board_spi1 @ board_spi4 @ board_serial @ board_can @ board_sdmmc"

text \<open>The pads the three inertial units are selected by (ssport and sspad of SPI.cpp).\<close>
definition imu_select :: "line list" where
  "imu_select = [(GPIOG, 1), (GPIOC, 15), (GPIOC, 13)]"

text \<open>Every chip select on the two SPI buses.\<close>
definition spi_selects :: "line list" where
  "spi_selects = [(GPIOG, 1), (GPIOC, 2), (GPIOC, 1), (GPIOD, 7), (GPIOC, 15), (GPIOC, 14), (GPIOC, 13), (GPIOE, 4)]"

definition driven_low :: "pin \<Rightarrow> bool" where
  "driven_low p = (case pn_mode p of Some (OUTPUT_PUSHPULL, fs) \<Rightarrow> \<not> pn_latch p | _ \<Rightarrow> False)"

section \<open>One pin at a time\<close>

text \<open>What a call does to one line.\<close>
definition pin_local :: "line \<Rightarrow> pin_op \<Rightarrow> pin \<Rightarrow> pin" where
  "pin_local l x p = (case x of
     SetPadMode l' m fs \<Rightarrow> if l' = l then p\<lparr>pn_mode := Some (m, fs)\<rparr> else p
   | SetPad l' \<Rightarrow> if l' = l then p\<lparr>pn_latch := True\<rparr> else p
   | ClearPad l' \<Rightarrow> if l' = l then p\<lparr>pn_latch := False\<rparr> else p)"

lemma pin_local_simps:
  "pin_local l (SetPadMode l' m fs) p = (if l' = l then p\<lparr>pn_mode := Some (m, fs)\<rparr> else p)"
  "pin_local l (SetPad l') p = (if l' = l then p\<lparr>pn_latch := True\<rparr> else p)"
  "pin_local l (ClearPad l') p = (if l' = l then p\<lparr>pn_latch := False\<rparr> else p)"
  by (simp_all add: pin_local_def)

lemma pin_run_local: "pin_run ops s l = fold (pin_local l) ops (s l)"
proof (induction ops arbitrary: s)
  case (Cons x xs)
  have "pin_step x s l = pin_local l x (s l)" by (simp add: pin_step_def pin_local_def split: pin_op.split)
  then show ?case using Cons by (simp add: pin_run_def)
qed (simp add: pin_run_def)

text \<open>The calls that concern a line.\<close>
fun op_line :: "pin_op \<Rightarrow> line" where
  "op_line (SetPadMode l m fs) = l"
| "op_line (SetPad l) = l"
| "op_line (ClearPad l) = l"

text \<open>A line that is driven low at no point of a sequence of calls.\<close>
fun stays_high :: "line \<Rightarrow> pin_op list \<Rightarrow> pin \<Rightarrow> bool" where
  "stays_high l [] p \<longleftrightarrow> \<not> driven_low p"
| "stays_high l (x # xs) p \<longleftrightarrow> \<not> driven_low p \<and> stays_high l xs (pin_local l x p)"

lemma stays_high_skip: "op_line x \<noteq> l \<Longrightarrow> pin_local l x p = p"
  by (cases x) (simp_all add: pin_local_simps)

lemma stays_high_relevant: "stays_high l (filter (\<lambda>x. op_line x = l) ops) p \<Longrightarrow> stays_high l ops p"
proof (induction ops arbitrary: p)
  case (Cons x xs)
  have "\<not> driven_low p" using Cons.prems by (cases "filter (\<lambda>x. op_line x = l) (x # xs)") auto
  then show ?case using Cons by (cases "op_line x = l") (simp_all add: stays_high_skip)
qed simp

lemma stays_high_take: "stays_high l ops p \<Longrightarrow> \<not> driven_low (fold (pin_local l) (take n ops) p)"
  by (induction l ops p arbitrary: n rule: stays_high.induct) (auto simp: take_Cons split: nat.split)

text \<open>The modes a sequence gives, in order.\<close>
fun modes :: "pin_op list \<Rightarrow> (line \<times> pin_mode \<times> pin_flag list) list" where
  "modes [] = []"
| "modes (SetPadMode l m fs # xs) = (l, m, fs) # modes xs"
| "modes (_ # xs) = modes xs"

lemma modes_once:
  "distinct (map fst (modes ops)) \<Longrightarrow>
   pn_mode (pin_run ops s l) = (case map_of (modes ops) l of Some m \<Rightarrow> Some m | None \<Rightarrow> pn_mode (s l))"
  unfolding pin_run_local
proof (induction ops arbitrary: s)
  case (Cons x xs)
  have keep: "pn_mode (fold (pin_local l) ys p) = (case map_of (modes ys) l of Some m \<Rightarrow> Some m | None \<Rightarrow> pn_mode p)"
    if "distinct (map fst (modes ys))" "ys = xs" for ys p
    using Cons.IH [of "\<lambda>_. p"] that by simp
  show ?case
  proof (cases x)
    case (SetPadMode l' m fs)
    then have "distinct (map fst (modes xs))" "l' \<notin> fst ` set (modes xs)" using Cons.prems by auto
    moreover have "map_of (modes xs) l' = None" using calculation(2) by (simp add: map_of_eq_None_iff)
    ultimately show ?thesis using SetPadMode keep [of xs] by (auto simp: pin_local_simps)
  next
    case (SetPad l')
    then show ?thesis using Cons.prems keep [of xs] by (auto simp: pin_local_simps split: option.split)
  next
    case (ClearPad l')
    then show ?thesis using Cons.prems keep [of xs] by (auto simp: pin_local_simps split: option.split)
  qed
qed simp

lemmas board_defs = board_init_def board_power_def board_spi1_def board_spi4_def board_serial_def board_can_def
  board_sdmmc_def idle_select_def

lemma board_modes_distinct: "distinct (map fst (modes board_init))"
  by (simp add: board_defs)

lemma pin_run_relevant: "pin_run ops s l = fold (pin_local l) (filter (\<lambda>x. op_line x = l) ops) (s l)"
proof -
  have "fold (pin_local l) ops p = fold (pin_local l) (filter (\<lambda>x. op_line x = l) ops) p" for p
  proof (induction ops arbitrary: p)
    case (Cons x xs)
    then show ?case by (cases x) (simp_all add: pin_local_simps)
  qed simp
  then show ?thesis by (simp add: pin_run_local)
qed

lemma select_calls: "l \<in> set spi_selects \<Longrightarrow> filter (\<lambda>x. op_line x = l) board_init = idle_select l"
proof -
  have "\<forall>l \<in> set spi_selects. filter (\<lambda>x. op_line x = l) board_init = idle_select l" by code_simp
  then show "l \<in> set spi_selects \<Longrightarrow> filter (\<lambda>x. op_line x = l) board_init = idle_select l" by blast
qed

lemma select_final: "l \<in> set spi_selects \<Longrightarrow>
   pin_run board_init s l = (s l)\<lparr>pn_mode := Some (OUTPUT_PUSHPULL, [OSPEED_HIGHEST]), pn_latch := True\<rparr>"
  by (simp add: pin_run_relevant select_calls idle_select_def pin_local_simps)

text \<open>The pins of the buses, with the alternate function that connects them.\<close>
definition bus_pins :: "(line_name \<times> nat) list" where
  "bus_pins = [(SPI1_SCK, 5), (SPI1_MISO, 5), (SPI1_MOSI, 5), (SPI4_SCK, 5), (SPI4_MISO, 5), (SPI4_MOSI, 5),
     (UART3_TX, 7), (UART3_RX, 7), (RC_INPUT, 7), (CAN1_TX, 9), (CAN1_RX, 9), (CAN2_TX, 9), (CAN2_RX, 9),
     (SDMMC1_D0, 12), (SDMMC1_D1, 12), (SDMMC1_D2, 12), (SDMMC1_D3, 12), (SDMMC1_CK, 12), (SDMMC1_CMD, 12)]"

text \<open>The pins after start-up.  Whatever state the pins were in: every bus pin named in board.h has its
alternate function; the pads the inertial units are selected by are outputs with a high latch; the
peripheral rail's active-low switch is driven low; and every line that is neither in boardInit's table nor
touched by it keeps its mode, the lines named for I2C, servo outputs and data-ready interrupts among them.
The names IMU1_CS and IMU2_CS are stale: no unit is selected by those lines.\<close>
theorem board_pins:
  "(\<forall>n f. (n, f) \<in> set bus_pins \<longrightarrow> (\<exists>fs. pn_mode (pin_run board_init s (LINE n)) = Some (ALTERNATE f, fs))) \<and>
   (\<forall>l \<in> set imu_select. (\<exists>fs. pn_mode (pin_run board_init s l) = Some (OUTPUT_PUSHPULL, fs)) \<and> pn_latch (pin_run board_init s l)) \<and>
   driven_low (pin_run board_init s (LINE PERIPH_5V_EN)) \<and>
   (\<forall>n \<in> {I2C1_SCL, I2C1_SDA, I2C2_SCL, I2C2_SDA, FMU_CH1, FMU_CH2, FMU_CH3, FMU_CH4, IMU1_DRDY, IMU2_DRDY}.
      pin_run board_init s (LINE n) = s (LINE n)) \<and>
   (\<forall>l. l \<notin> fst ` set (modes board_init) \<longrightarrow> pn_mode (pin_run board_init s l) = pn_mode (s l)) \<and>
   LINE IMU1_CS \<notin> set imu_select \<and> LINE IMU2_CS \<notin> set imu_select"
proof (intro conjI)
  show "\<forall>n f. (n, f) \<in> set bus_pins \<longrightarrow> (\<exists>fs. pn_mode (pin_run board_init s (LINE n)) = Some (ALTERNATE f, fs))"
    unfolding modes_once [OF board_modes_distinct] by (auto simp: bus_pins_def board_defs)
  show "\<forall>l \<in> set imu_select. (\<exists>fs. pn_mode (pin_run board_init s l) = Some (OUTPUT_PUSHPULL, fs)) \<and> pn_latch (pin_run board_init s l)"
  proof -
    have "set imu_select \<subseteq> set spi_selects" by code_simp
    then have "\<forall>l \<in> set imu_select. l \<in> set spi_selects" by blast
    then show ?thesis by (simp add: select_final)
  qed
  show "driven_low (pin_run board_init s (LINE PERIPH_5V_EN))"
  proof -
    have "filter (\<lambda>x. op_line x = LINE PERIPH_5V_EN) board_init =
        [SetPadMode (LINE PERIPH_5V_EN) OUTPUT_PUSHPULL [OSPEED_LOWEST], ClearPad (LINE PERIPH_5V_EN)]" by code_simp
    then show ?thesis by (simp add: pin_run_relevant pin_local_simps driven_low_def del: LINE.simps)
  qed
  show "\<forall>n \<in> {I2C1_SCL, I2C1_SDA, I2C2_SCL, I2C2_SDA, FMU_CH1, FMU_CH2, FMU_CH3, FMU_CH4, IMU1_DRDY, IMU2_DRDY}.
      pin_run board_init s (LINE n) = s (LINE n)"
  proof -
    have "\<forall>n \<in> {I2C1_SCL, I2C1_SDA, I2C2_SCL, I2C2_SDA, FMU_CH1, FMU_CH2, FMU_CH3, FMU_CH4, IMU1_DRDY, IMU2_DRDY}.
        filter (\<lambda>x. op_line x = LINE n) board_init = []" by code_simp
    then show ?thesis by (simp add: pin_run_relevant del: LINE.simps)
  qed
  show "\<forall>l. l \<notin> fst ` set (modes board_init) \<longrightarrow> pn_mode (pin_run board_init s l) = pn_mode (s l)"
    unfolding modes_once [OF board_modes_distinct] by (metis map_of_eq_None_iff option.simps(4))
qed (simp_all add: imu_select_def)

text \<open>No chip select glitches.  Started with no pin an output, boardInit drives none of the eight selects of
the two SPI buses low at any point between two of its calls, and leaves all of them high.\<close>
theorem board_selects_high:
  assumes "\<forall>l. pn_mode (s l) = None" "l \<in> set spi_selects"
  shows "\<not> driven_low (pin_run (take n board_init) s l) \<and>
     (\<exists>fs. pn_mode (pin_run board_init s l) = Some (OUTPUT_PUSHPULL, fs)) \<and> pn_latch (pin_run board_init s l)"
proof -
  have "stays_high l board_init p" if "pn_mode p = None" for p
  proof -
    have "stays_high l (filter (\<lambda>x. op_line x = l) board_init) p"
      using that by (simp add: select_calls [OF assms(2)] idle_select_def pin_local_simps driven_low_def)
    then show ?thesis by (simp add: stays_high_relevant)
  qed
  then have "\<not> driven_low (pin_run (take n board_init) s l)"
    unfolding pin_run_local using assms(1) stays_high_take by blast
  moreover have "(\<exists>fs. pn_mode (pin_run board_init s l) = Some (OUTPUT_PUSHPULL, fs)) \<and> pn_latch (pin_run board_init s l)"
    by (simp add: select_final [OF assms(2)])
  ultimately show ?thesis by blast
qed

theorem board_selects_high_witness:
  "\<not> driven_low (pin_run (take 12 board_init) (\<lambda>_. \<lparr>pn_mode = None, pn_latch = False\<rparr>) (GPIOG, 1))"
  using board_selects_high [of "\<lambda>_. \<lparr>pn_mode = None, pn_latch = False\<rparr>" "(GPIOG, 1)" 12] by (simp add: spi_selects_def)

theorem board_pins_witness:
  "driven_low (pin_run board_init (\<lambda>_. \<lparr>pn_mode = None, pn_latch = True\<rparr>) (GPIOA, 8)) \<and>
   (\<exists>fs. pn_mode (pin_run board_init (\<lambda>_. \<lparr>pn_mode = None, pn_latch = True\<rparr>) (GPIOB, 12)) = Some (ALTERNATE 9, fs))"
proof -
  have "(CAN2_RX, 9) \<in> set bus_pins" by (simp add: bus_pins_def)
  then show ?thesis using board_pins [of "\<lambda>_. \<lparr>pn_mode = None, pn_latch = True\<rparr>"] by fastforce
qed

end
