(* ===== verification/Clocks.thy ===== *)
theory Clocks
  imports Board
begin

text \<open>
  Clocks, rates and configuration: the clock tree and the enabled peripherals of src/cfg/mcuconf.h, the
  driver switches of halconf.h, the tick of chconf.h, the bus configurations of src/src/coms/CAN.cpp, SPI.cpp,
  SBUS.cpp and src/Motor_tool/src/CAN.cpp, and the thread rates of src/main.cpp.  How a register word splits
  into fields and how a divider acts is what the comments beside the constants and the processor's manual
  say; the time conversions of ChibiOS are arguments whose documented law is named.
\<close>

section \<open>The clock tree\<close>

definition HSECLK :: nat where "HSECLK = 24000000"

record pll =
  pl_divm :: nat
  pl_divn :: nat
  pl_divp :: nat
  pl_divq :: nat
  pl_divr :: nat

definition PLL1 :: pll where "PLL1 = \<lparr>pl_divm = 3, pl_divn = 100, pl_divp = 2, pl_divq = 16, pl_divr = 8\<rparr>"
definition PLL2 :: pll where "PLL2 = \<lparr>pl_divm = 3, pl_divn = 100, pl_divp = 40, pl_divq = 10, pl_divr = 8\<rparr>"
definition PLL3 :: pll where "PLL3 = \<lparr>pl_divm = 3, pl_divn = 100, pl_divp = 8, pl_divq = 8, pl_divr = 8\<rparr>"

datatype clock = PLL1_Q | PLL2_P | PLL2_Q | HCLK | PCLK1 | PCLK2 | PCLK4 | HSE | LSI | HSI48

definition vco :: "pll \<Rightarrow> nat" where "vco p = HSECLK div pl_divm p * pl_divn p"

text \<open>The selections STM32_SW, D1CPRE, D1HPRE, D2PPRE1, D2PPRE2 and D3PPRE4.\<close>
definition sysclk :: nat where "sysclk = vco PLL1 div pl_divp PLL1 div 1"
definition hclk :: nat where "hclk = sysclk div 2"
definition pclk1 :: nat where "pclk1 = hclk div 2"
definition pclk2 :: nat where "pclk2 = hclk div 2"
definition pclk4 :: nat where "pclk4 = hclk div 2"

fun freq :: "clock \<Rightarrow> nat" where
  "freq PLL1_Q = vco PLL1 div pl_divq PLL1"
| "freq PLL2_P = vco PLL2 div pl_divp PLL2"
| "freq PLL2_Q = vco PLL2 div pl_divq PLL2"
| "freq HCLK = hclk"
| "freq PCLK1 = pclk1"
| "freq PCLK2 = pclk2"
| "freq PCLK4 = pclk4"
| "freq HSE = HSECLK"
| "freq LSI = 32000"
| "freq HSI48 = 48000000"

datatype consumer = CKPER_KERNEL | SDMMC_KERNEL | QSPI_KERNEL | FMC_KERNEL | SWP_KERNEL | FDCAN_KERNEL
  | DFSDM1_KERNEL | SPDIF_KERNEL | SPI45_KERNEL | SPI123_KERNEL | SAI23_KERNEL | SAI1_KERNEL
  | LPTIM1_KERNEL | CEC_KERNEL | USB_KERNEL | I2C123_KERNEL | RNG_KERNEL | USART16_KERNEL
  | USART234578_KERNEL | SPI6_KERNEL | SAI4B_KERNEL | SAI4A_KERNEL | ADC_KERNEL | LPTIM345_KERNEL | LPTIM2_KERNEL

text \<open>The STM32_..._SEL selections, in the order of the file.\<close>
fun kernel_clock :: "consumer \<Rightarrow> clock" where
  "kernel_clock CKPER_KERNEL = HSE"
| "kernel_clock SDMMC_KERNEL = PLL1_Q"
| "kernel_clock QSPI_KERNEL = HCLK"
| "kernel_clock FMC_KERNEL = HCLK"
| "kernel_clock SWP_KERNEL = PCLK1"
| "kernel_clock FDCAN_KERNEL = PLL2_Q"
| "kernel_clock DFSDM1_KERNEL = PCLK2"
| "kernel_clock SPDIF_KERNEL = PLL1_Q"
| "kernel_clock SPI45_KERNEL = PCLK2"
| "kernel_clock SPI123_KERNEL = PLL1_Q"
| "kernel_clock SAI23_KERNEL = PLL1_Q"
| "kernel_clock SAI1_KERNEL = PLL1_Q"
| "kernel_clock LPTIM1_KERNEL = PCLK1"
| "kernel_clock CEC_KERNEL = LSI"
| "kernel_clock USB_KERNEL = HSI48"
| "kernel_clock I2C123_KERNEL = PCLK1"
| "kernel_clock RNG_KERNEL = HSI48"
| "kernel_clock USART16_KERNEL = PCLK2"
| "kernel_clock USART234578_KERNEL = PCLK1"
| "kernel_clock SPI6_KERNEL = PCLK4"
| "kernel_clock SAI4B_KERNEL = PLL1_Q"
| "kernel_clock SAI4A_KERNEL = PLL1_Q"
| "kernel_clock ADC_KERNEL = PLL2_P"
| "kernel_clock LPTIM345_KERNEL = PCLK4"
| "kernel_clock LPTIM2_KERNEL = PCLK4"

section \<open>CAN bit timing\<close>

datatype cccr_flag = CCCR_DAR | CCCR_TEST | CCCR_MON

record can_config =
  cc_nbtp :: u32
  cc_dbtp :: u32
  cc_cccr :: "cccr_flag list"
  cc_loopback :: bool
  cc_rxgfc :: u32

definition can_cfg_bus1 :: can_config where
  "can_cfg_bus1 = \<lparr>cc_nbtp = 0x02090C01, cc_dbtp = 0, cc_cccr = [CCCR_DAR], cc_loopback = False, cc_rxgfc = 0\<rparr>"

definition can_cfg_bus2 :: can_config where
  "can_cfg_bus2 = \<lparr>cc_nbtp = 0x02040C01, cc_dbtp = 0, cc_cccr = [CCCR_DAR], cc_loopback = False, cc_rxgfc = 0\<rparr>"

text \<open>The bench program, on both buses, and its self-test.\<close>
definition tool_can_cfg :: can_config where
  "tool_can_cfg = \<lparr>cc_nbtp = 0x00040C01, cc_dbtp = 0, cc_cccr = [CCCR_DAR], cc_loopback = False, cc_rxgfc = 0\<rparr>"

definition tool_can_cfg_loopback :: can_config where
  "tool_can_cfg_loopback = \<lparr>cc_nbtp = 0x00040C01, cc_dbtp = 0, cc_cccr = [CCCR_TEST, CCCR_MON], cc_loopback = True, cc_rxgfc = 0\<rparr>"

text \<open>The fields of NBTP, each one less than the number it stands for.\<close>
definition nsjw :: "u32 \<Rightarrow> nat" where "nsjw w = unat (drop_bit 25 w AND 0x7F)"
definition nbrp :: "u32 \<Rightarrow> nat" where "nbrp w = unat (drop_bit 16 w AND 0x1FF)"
definition ntseg1 :: "u32 \<Rightarrow> nat" where "ntseg1 w = unat (drop_bit 8 w AND 0xFF)"
definition ntseg2 :: "u32 \<Rightarrow> nat" where "ntseg2 w = unat (w AND 0x7F)"

text \<open>Time quanta of a bit: the synchronisation segment and the two others; the sample point lies between them.\<close>
definition bit_quanta :: "can_config \<Rightarrow> nat" where
  "bit_quanta c = 1 + (ntseg1 (cc_nbtp c) + 1) + (ntseg2 (cc_nbtp c) + 1)"

text \<open>Kernel clock cycles of a bit, and the bit rate.\<close>
definition bit_cycles :: "can_config \<Rightarrow> nat" where
  "bit_cycles c = (nbrp (cc_nbtp c) + 1) * bit_quanta c"

definition bit_rate :: "can_config \<Rightarrow> nat" where
  "bit_rate c = freq (kernel_clock FDCAN_KERNEL) div bit_cycles c"

section \<open>SPI and the receiver's port\<close>

record spi_config =
  sc_select :: line
  sc_divisor :: nat
  sc_dsize :: nat
  sc_cfg2 :: u32

definition imu1_init :: spi_config where "imu1_init = \<lparr>sc_select = (GPIOG, 1), sc_divisor = 64, sc_dsize = 7, sc_cfg2 = 0\<rparr>"
definition imu1_fast :: spi_config where "imu1_fast = \<lparr>sc_select = (GPIOG, 1), sc_divisor = 8, sc_dsize = 7, sc_cfg2 = 0\<rparr>"
definition imu2_init :: spi_config where "imu2_init = \<lparr>sc_select = (GPIOC, 15), sc_divisor = 128, sc_dsize = 7, sc_cfg2 = 0\<rparr>"
definition imu2_fast :: spi_config where "imu2_fast = \<lparr>sc_select = (GPIOC, 15), sc_divisor = 16, sc_dsize = 7, sc_cfg2 = 0\<rparr>"
definition imu3_init :: spi_config where "imu3_init = \<lparr>sc_select = (GPIOC, 13), sc_divisor = 128, sc_dsize = 7, sc_cfg2 = 0\<rparr>"
definition imu3_fast :: spi_config where "imu3_fast = \<lparr>sc_select = (GPIOC, 13), sc_divisor = 16, sc_dsize = 7, sc_cfg2 = 0\<rparr>"

datatype usart_flag = CR1_PCE | CR1_M0 | CR2_STOP_1 | CR2_STOP_0 | CR2_RXINV

record serial_config =
  se_speed :: nat
  se_cr1 :: "usart_flag list"
  se_cr2 :: "usart_flag list"

definition kSbusSerialCfg :: serial_config where
  "kSbusSerialCfg = \<lparr>se_speed = 100000, se_cr1 = [CR1_PCE, CR1_M0], se_cr2 = [CR2_STOP_1, CR2_STOP_0, CR2_RXINV]\<rparr>"

text \<open>Stop bits, in halves, by the two bits of the STOP field; and the half bits of a byte on the wire: the start
bit, eight or nine bits (the parity bit is one of them), the stop bits.\<close>
definition stop_half_bits :: "serial_config \<Rightarrow> nat" where
  "stop_half_bits c = (if CR2_STOP_1 \<in> set (se_cr2 c) then if CR2_STOP_0 \<in> set (se_cr2 c) then 3 else 4
     else if CR2_STOP_0 \<in> set (se_cr2 c) then 1 else 2)"

definition byte_half_bits :: "serial_config \<Rightarrow> nat" where
  "byte_half_bits c = 2 + (if CR1_M0 \<in> set (se_cr1 c) then 18 else 16) + stop_half_bits c"

definition SERIAL_BUFFERS_SIZE :: nat where "SERIAL_BUFFERS_SIZE = 128"

section \<open>Drivers and peripherals that are switched on\<close>

datatype hal_driver = PAL | ADC | CAN | CRY | DAC | EFL | GPT | I2C | I2S | ICU | MAC | MMC_SPI | PWM | RTC | SDC
  | SERIAL | SERIAL_USB | SIO | SPI | TRNG | UART | USB | WDG | WSPI

fun HAL_USE :: "hal_driver \<Rightarrow> bool" where
  "HAL_USE PAL = True" | "HAL_USE ADC = False" | "HAL_USE CAN = True" | "HAL_USE CRY = False"
| "HAL_USE DAC = False" | "HAL_USE EFL = False" | "HAL_USE GPT = False" | "HAL_USE I2C = False"
| "HAL_USE I2S = False" | "HAL_USE ICU = False" | "HAL_USE MAC = False" | "HAL_USE MMC_SPI = False"
| "HAL_USE PWM = False" | "HAL_USE RTC = False" | "HAL_USE SDC = True" | "HAL_USE SERIAL = True"
| "HAL_USE SERIAL_USB = True" | "HAL_USE SIO = False" | "HAL_USE SPI = True" | "HAL_USE TRNG = False"
| "HAL_USE UART = False" | "HAL_USE USB = True" | "HAL_USE WDG = False" | "HAL_USE WSPI = False"

text \<open>The units each driver may use, by the STM32_..._USE_... switches that are TRUE; every other one is FALSE.\<close>
datatype periph = FDCAN1 | FDCAN2 | I2C2 | SDMMC1 | USART2 | USART3 | SPI1 | SPI4 | OTG1

definition can_units :: "periph list" where "can_units = [FDCAN1, FDCAN2]"
definition i2c_units :: "periph list" where "i2c_units = [I2C2]"
definition sdc_units :: "periph list" where "sdc_units = [SDMMC1]"
definition serial_units :: "periph list" where "serial_units = [USART2, USART3]"
definition spi_units :: "periph list" where "spi_units = [SPI1, SPI4]"
definition usb_units :: "periph list" where "usb_units = [OTG1]"

definition units :: "hal_driver \<Rightarrow> periph list" where
  "units h = (case h of CAN \<Rightarrow> can_units | I2C \<Rightarrow> i2c_units | SDC \<Rightarrow> sdc_units | SERIAL \<Rightarrow> serial_units
     | SPI \<Rightarrow> spi_units | USB \<Rightarrow> usb_units | _ \<Rightarrow> [])"

section \<open>Time\<close>

definition CH_CFG_ST_FREQUENCY :: nat where "CH_CFG_ST_FREQUENCY = 10000"
definition CH_CFG_ST_TIMEDELTA :: nat where "CH_CFG_ST_TIMEDELTA = 2"

record thread_rates =
  tr_spi :: u32
  tr_est :: u32
  tr_control :: u32
  tr_wheel_send :: u32
  tr_radio :: u32
  tr_heartbeat :: u32
  tr_debug :: u32
  tr_log :: u32

definition kRates :: "(nat \<Rightarrow> u32) \<Rightarrow> (nat \<Rightarrow> u32) \<Rightarrow> thread_rates" where
  "kRates us2i ms2i = \<lparr>tr_spi = us2i 1000, tr_est = us2i 2000, tr_control = us2i 10000, tr_wheel_send = us2i 10000,
     tr_radio = ms2i 10, tr_heartbeat = ms2i 200, tr_debug = ms2i 100, tr_log = ms2i 20\<rparr>"

text \<open>The documented law of TIME_US2I, TIME_MS2I (per = 1000000, 1000 units a second) and of their inverses: rounded up.\<close>
definition to_ticks :: "nat \<Rightarrow> (nat \<Rightarrow> u32) \<Rightarrow> bool" where
  "to_ticks per f \<longleftrightarrow> (\<forall>x. f x = of_nat ((x * CH_CFG_ST_FREQUENCY + (per - 1)) div per))"

definition from_ticks :: "nat \<Rightarrow> (u32 \<Rightarrow> u32) \<Rightarrow> bool" where
  "from_ticks per f \<longleftrightarrow> (\<forall>t. f t = of_nat ((unat t * per + (CH_CFG_ST_FREQUENCY - 1)) div CH_CFG_ST_FREQUENCY))"

section \<open>Facts\<close>

lemmas clock_defs = sysclk_def hclk_def pclk1_def pclk2_def vco_def PLL1_def PLL2_def HSECLK_def

lemma clock_tree: "sysclk = 400000000" "hclk = 200000000" "freq PLL1_Q = 50000000" "freq PLL2_Q = 80000000"
  "freq PLL2_P = 20000000" "freq PCLK1 = 100000000" "freq PCLK2 = 100000000"
  by (simp_all add: clock_defs)

lemmas timing_defs = bit_rate_def bit_cycles_def bit_quanta_def nbrp_def ntseg1_def ntseg2_def nsjw_def can_cfg_bus1_def
  can_cfg_bus2_def tool_can_cfg_def tool_can_cfg_loopback_def

text \<open>Every bus samples its bits at 14 of 16 quanta and divides its clock evenly.\<close>
lemma can_bit_shape:
  assumes "c \<in> {can_cfg_bus1, can_cfg_bus2, tool_can_cfg, tool_can_cfg_loopback}"
  shows "bit_quanta c = 16 \<and> 1 + (ntseg1 (cc_nbtp c) + 1) = 14 \<and> nsjw (cc_nbtp c) \<le> ntseg2 (cc_nbtp c) \<and>
    bit_rate c * bit_cycles c = freq (kernel_clock FDCAN_KERNEL)"
  using assms clock_tree(4) by (auto simp: timing_defs simp del: freq.simps)

text \<open>The bit rates.  From the kernel clock of the CAN controllers and the timing words the two programs
configure: the robot's motor bus runs at 500 kbit/s, its second bus at 1 Mbit/s, the bench program both
buses, and its self-test, at 1 Mbit/s.  So whatever rate the motors of bus 1 are set to, one of the two
programs cannot talk to them; the bench program's comment says its configuration is the robot's.\<close>
theorem can_bit_rates:
  "bit_rate can_cfg_bus1 = 500000 \<and> bit_rate can_cfg_bus2 = 1000000 \<and> bit_rate tool_can_cfg = 1000000 \<and>
   bit_rate tool_can_cfg_loopback = 1000000 \<and>
   (\<forall>r. \<not> (bit_rate can_cfg_bus1 = r \<and> bit_rate tool_can_cfg = r)) \<and>
   CCCR_DAR \<in> set (cc_cccr can_cfg_bus1) \<inter> set (cc_cccr can_cfg_bus2) \<inter> set (cc_cccr tool_can_cfg)"
  using clock_tree(4) by (simp add: timing_defs del: freq.simps)

text \<open>The units are addressed at 781.25 kHz during initialisation and at 6.25 MHz afterwards, each by one select.\<close>
lemma spi_rates:
  "freq (kernel_clock SPI123_KERNEL) = 781250 * sc_divisor imu1_init" "freq (kernel_clock SPI123_KERNEL) = 6250000 * sc_divisor imu1_fast"
  "c \<in> {imu2_init, imu3_init} \<Longrightarrow> freq (kernel_clock SPI45_KERNEL) = 781250 * sc_divisor c"
  "c \<in> {imu2_fast, imu3_fast} \<Longrightarrow> freq (kernel_clock SPI45_KERNEL) = 6250000 * sc_divisor c"
  "map sc_select [imu1_init, imu2_init, imu3_init] = imu_select" "map sc_select [imu1_fast, imu2_fast, imu3_fast] = imu_select"
  by (auto simp: clock_defs imu1_init_def imu1_fast_def imu2_init_def imu2_fast_def imu3_init_def imu3_fast_def imu_select_def)

text \<open>The receiver's port is set to one and a half stop bits, where the comments say two; its baud rate divides
the port's clock evenly.\<close>
lemma sbus_port: "stop_half_bits kSbusSerialCfg = 3" "byte_half_bits kSbusSerialCfg = 23"
  "freq (kernel_clock USART234578_KERNEL) = 1000 * se_speed kSbusSerialCfg"
  by (simp_all add: stop_half_bits_def byte_half_bits_def kSbusSerialCfg_def clock_defs)

text \<open>The bytes that can arrive in a time fit the port's buffer, for up to 14.6 ms between two polls.\<close>
lemma sbus_buffer_fits:
  assumes "us \<le> 14720"
  shows "2 * se_speed kSbusSerialCfg * us \<le> byte_half_bits kSbusSerialCfg * 1000000 * SERIAL_BUFFERS_SIZE"
proof -
  have "se_speed kSbusSerialCfg = 100000" by (simp add: kSbusSerialCfg_def)
  then show ?thesis using assms by (simp add: sbus_port(2) SERIAL_BUFFERS_SIZE_def)
qed

text \<open>Every unit of a driver that is switched on, except the USB port's clock pins, has its pins connected; the
units a switched-off driver may use (I2C2) do not matter.\<close>
definition unit_pins :: "periph \<Rightarrow> (line \<times> nat) list" where
  "unit_pins p = (case p of
     FDCAN1 \<Rightarrow> [(LINE CAN1_TX, 9), (LINE CAN1_RX, 9)] | FDCAN2 \<Rightarrow> [(LINE CAN2_TX, 9), (LINE CAN2_RX, 9)]
   | I2C2 \<Rightarrow> [(LINE I2C2_SCL, 4), (LINE I2C2_SDA, 4)]
   | SDMMC1 \<Rightarrow> map (\<lambda>n. (LINE n, 12)) [SDMMC1_D0, SDMMC1_D1, SDMMC1_D2, SDMMC1_D3, SDMMC1_CK, SDMMC1_CMD]
   | USART2 \<Rightarrow> [((GPIOD, 5), 7), ((GPIOD, 6), 7)] | USART3 \<Rightarrow> [(LINE UART3_TX, 7), (LINE UART3_RX, 7)]
   | SPI1 \<Rightarrow> map (\<lambda>n. (LINE n, 5)) [SPI1_SCK, SPI1_MISO, SPI1_MOSI]
   | SPI4 \<Rightarrow> map (\<lambda>n. (LINE n, 5)) [SPI4_SCK, SPI4_MISO, SPI4_MOSI]
   | OTG1 \<Rightarrow> [((GPIOA, 11), 10), ((GPIOA, 12), 10)])"

lemma units_connected:
  assumes "HAL_USE h" "p \<in> set (units h)" "(l, f) \<in> set (unit_pins p)"
  shows "\<exists>fs. pn_mode (pin_run board_init s l) = Some (ALTERNATE f, fs)"
proof -
  have "\<forall>p \<in> {FDCAN1, FDCAN2, SDMMC1, USART2, USART3, SPI1, SPI4, OTG1}. \<forall>(l, f) \<in> set (unit_pins p).
      case map_of (modes board_init) l of Some (m, fs) \<Rightarrow> m = ALTERNATE f | None \<Rightarrow> False" by code_simp
  moreover have "p \<in> {FDCAN1, FDCAN2, SDMMC1, USART2, USART3, SPI1, SPI4, OTG1}"
    using assms(1,2) by (cases h) (auto simp: units_def can_units_def i2c_units_def sdc_units_def serial_units_def spi_units_def usb_units_def)
  ultimately show ?thesis
    unfolding modes_once [OF board_modes_distinct] using assms(3) by (fastforce split: option.splits)
qed

text \<open>The thread periods.  If the kernel converts times to ticks as documented (rounded up to ticks of 0.1 ms),
every period of the thread table is exact, 10, 20, 100, 100, 100, 2000, 1000 and 200 ticks, and none is shorter
than the two ticks below which the kernel rounds a timeout.  So the control thread and the wheel sender
both run at 100 Hz, where the comments in threads.hpp say 200 Hz and 300 Hz.\<close>
theorem thread_periods:
  assumes "to_ticks 1000000 us2i" "to_ticks 1000 ms2i"
  shows "kRates us2i ms2i = \<lparr>tr_spi = 10, tr_est = 20, tr_control = 100, tr_wheel_send = 100, tr_radio = 100,
      tr_heartbeat = 2000, tr_debug = 1000, tr_log = 200\<rparr> \<and>
    (\<forall>r \<in> {tr_spi, tr_est, tr_control, tr_wheel_send, tr_radio, tr_heartbeat, tr_debug, tr_log}.
      CH_CFG_ST_TIMEDELTA \<le> unat (r (kRates us2i ms2i)))"
proof -
  have "us2i 1000 = 10" "us2i 2000 = 20" "us2i 10000 = 100" "ms2i 10 = 100" "ms2i 200 = 2000" "ms2i 100 = 1000" "ms2i 20 = 200"
    using assms by (simp_all add: to_ticks_def CH_CFG_ST_FREQUENCY_def)
  then show ?thesis by (simp add: kRates_def CH_CFG_ST_TIMEDELTA_def)
qed

theorem thread_periods_witness:
  "tr_control (kRates (\<lambda>x. of_nat ((x * 10000 + 999999) div 1000000)) (\<lambda>x. of_nat ((x * 10000 + 999) div 1000))) = 100"
  using thread_periods [of "\<lambda>x. of_nat ((x * 10000 + 999999) div 1000000)" "\<lambda>x. of_nat ((x * 10000 + 999) div 1000)"]
  by (simp add: to_ticks_def CH_CFG_ST_FREQUENCY_def)

end
