(* ===== verification/Boot.thy ===== *)
theory Boot
  imports Clocks UsbSerial
begin

text \<open>
  The two main functions (src/main.cpp, src/Motor_tool/main.cpp) as the sequence of what they do: the writes to
  the independent watchdog, the light, the busy waits, the sleeps and the start-up calls in their order, and
  the endless loop that feeds the watchdog.  How long a call or a turn of a busy wait takes is an argument.
  The start-up calls themselves are modelled where they belong (start_up, main_motors, threads_start,
  tool_boot, cmd_shell_start, usb_serial_init, board_init).
\<close>

datatype boot_call = HalInit | ChSysInit | UsbSerialInit | CanDrvInit | PowerMonInit | MotorRegister nat | RadioInputInit
  | ThreadsStart | RmdDrvInit | GimDrvInit | OdriveDrvInit | Imx5DrvInit | CmdShellStart

datatype boot_act = Iwdg_KR u16 | Iwdg_PR u16 | Iwdg_RLR u16 | Led bool | Busy nat | Sleep_ms nat | Call boot_call

definition BLINK_TICK :: nat where "BLINK_TICK = 4000000"
definition BLINK_GAP :: nat where "BLINK_GAP = 400000"

definition iwdg_start :: "boot_act list" where
  "iwdg_start = [Iwdg_KR 0x5555, Iwdg_PR 0x06, Iwdg_RLR 0xFFF, Iwdg_KR 0xCCCC, Iwdg_KR 0xAAAA]"

definition blink_fast :: "boot_act list" where
  "blink_fast = concat (replicate 3 [Led True, Busy BLINK_TICK, Led False, Busy BLINK_GAP])"

definition blink_slow :: "boot_act list" where
  "blink_slow = concat (replicate 5 [Led True, Sleep_ms 400, Led False, Sleep_ms 100])"

text \<open>From the light to the last start-up call.\<close>
definition robot_boot :: "boot_act list" where
  "robot_boot = blink_fast @ [Call ChSysInit] @ blink_slow @ [Call UsbSerialInit, Sleep_ms 1500, Call CanDrvInit, Call PowerMonInit]
     @ map (Call \<circ> MotorRegister) [1, 2, 3, 4, 5, 6] @ [Call RadioInputInit, Call ThreadsStart]"

definition tool_boot_acts :: "boot_act list" where
  "tool_boot_acts = blink_fast @ [Call ChSysInit] @ blink_slow @ [Call UsbSerialInit, Sleep_ms 1500, Call CanDrvInit, Call RmdDrvInit,
     Call GimDrvInit, Call OdriveDrvInit, Call Imx5DrvInit, Call CmdShellStart]"

definition robot_main :: "boot_act list" where "robot_main = [Call HalInit] @ iwdg_start @ robot_boot"

definition robot_loop :: "boot_act list" where
  "robot_loop = [Iwdg_KR 0xAAAA, Sleep_ms 1000]"

definition tool_main :: "boot_act list" where "tool_main = [Call HalInit] @ iwdg_start @ tool_boot_acts"

text \<open>A turn of the loop; the light changes with every turn.\<close>
definition tool_loop :: "nat \<Rightarrow> boot_act list" where
  "tool_loop tick = [Iwdg_KR 0xAAAA, Led (tick mod 2 = 0), Sleep_ms 200]"

section \<open>The watchdog\<close>

text \<open>The independent watchdog as the processor's manual describes it: 0x5555 unlocks the prescaler and the reload
register, 0xCCCC starts the counter, 0xAAAA reloads it; times are in milliseconds, lsi in hertz.\<close>
record wdg =
  wd_unlocked :: bool
  wd_running :: bool
  wd_pr :: u16
  wd_rlr :: u16
  wd_age :: real

definition wd_reset :: wdg where
  "wd_reset = \<lparr>wd_unlocked = False, wd_running = False, wd_pr = 0, wd_rlr = 0xFFF, wd_age = 0\<rparr>"

definition wd_timeout :: "real \<Rightarrow> wdg \<Rightarrow> real" where
  "wd_timeout lsi w = 1000 * (4 * 2 ^ unat (wd_pr w) * (unat (wd_rlr w) + 1)) / lsi"

text \<open>An action that takes d milliseconds; None is the reset.\<close>
definition wd_step :: "real \<Rightarrow> boot_act \<times> real \<Rightarrow> wdg \<Rightarrow> wdg option" where
  "wd_step lsi x w = (case x of (a, d) \<Rightarrow>
     let w = (if wd_running w then w\<lparr>wd_age := wd_age w + d\<rparr> else w) in
     if wd_running w \<and> wd_timeout lsi w \<le> wd_age w then None
     else Some (case a of
         Iwdg_KR k \<Rightarrow> if k = 0x5555 then w\<lparr>wd_unlocked := True\<rparr>
           else if k = 0xAAAA then w\<lparr>wd_unlocked := False, wd_age := 0\<rparr>
           else if k = 0xCCCC then w\<lparr>wd_unlocked := False, wd_running := True, wd_age := 0\<rparr> else w\<lparr>wd_unlocked := False\<rparr>
       | Iwdg_PR v \<Rightarrow> if wd_unlocked w then w\<lparr>wd_pr := v\<rparr> else w
       | Iwdg_RLR v \<Rightarrow> if wd_unlocked w then w\<lparr>wd_rlr := v\<rparr> else w
       | _ \<Rightarrow> w))"

fun wd_run :: "real \<Rightarrow> (boot_act \<times> real) list \<Rightarrow> wdg \<Rightarrow> wdg option" where
  "wd_run lsi [] w = Some w"
| "wd_run lsi (x # xs) w = Option.bind (wd_step lsi x w) (wd_run lsi xs)"

text \<open>How long an action may take: a turn of a busy wait 100 ns (forty cycles), a sleep half a second more than
asked, a start-up call half a second.\<close>
fun limit :: "boot_act \<Rightarrow> real" where
  "limit (Busy n) = real n / 10000"
| "limit (Sleep_ms n) = real n + 500"
| "limit (Call c) = 500"
| "limit _ = 0"

definition timely :: "(boot_act \<times> real) list \<Rightarrow> bool" where
  "timely xs \<longleftrightarrow> (\<forall>(a, d) \<in> set xs. 0 \<le> d \<and> d \<le> limit a)"

lemma wd_run_append: "wd_run lsi (xs @ ys) w = Option.bind (wd_run lsi xs w) (wd_run lsi ys)"
proof (induction xs arbitrary: w)
  case (Cons x xs)
  then show ?case by (cases "wd_step lsi x w") simp_all
qed simp

text \<open>Actions that do not write to the watchdog.\<close>
fun quiet :: "boot_act \<Rightarrow> bool" where
  "quiet (Iwdg_KR k) = False"
| "quiet (Iwdg_PR v) = False"
| "quiet (Iwdg_RLR v) = False"
| "quiet _ = True"

text \<open>The running watchdog as both programs set it up.\<close>
definition wd_set :: "real \<Rightarrow> wdg" where
  "wd_set age = \<lparr>wd_unlocked = False, wd_running = True, wd_pr = 6, wd_rlr = 0xFFF, wd_age = age\<rparr>"

lemma wd_timeout_set: "0 < lsi \<Longrightarrow> lsi \<le> 47000 \<Longrightarrow> 22300 < wd_timeout lsi (wd_set age)"
  by (simp add: wd_timeout_def wd_set_def pos_less_divide_eq)

lemma wd_quiet_step: "quiet a \<Longrightarrow> age + d < wd_timeout lsi (wd_set age') \<Longrightarrow> wd_step lsi (a, d) (wd_set age) = Some (wd_set (age + d))"
  by (cases a) (simp_all add: wd_step_def wd_set_def wd_timeout_def)

lemma wd_quiet_run:
  assumes "0 < lsi" "lsi \<le> 47000"
  shows "timely xs \<Longrightarrow> \<forall>a \<in> set (map fst xs). quiet a \<Longrightarrow> age + (\<Sum>a\<leftarrow>map fst xs. limit a) \<le> 22300 \<Longrightarrow>
    \<exists>age' \<le> age + (\<Sum>a\<leftarrow>map fst xs. limit a). wd_run lsi xs (wd_set age) = Some (wd_set age')"
proof (induction xs arbitrary: age)
  case (Cons x xs)
  obtain a d where x: "x = (a, d)" by (cases x)
  have nonneg: "0 \<le> (\<Sum>a\<leftarrow>map fst xs. limit a)"
  proof -
    have "0 \<le> limit b" for b by (cases b) simp_all
    then show ?thesis by (intro sum_list_nonneg) auto
  qed
  have d: "d \<le> limit a" "timely xs" using Cons.prems(1) by (auto simp: timely_def x)
  then have "age + d < wd_timeout lsi (wd_set age)"
    using Cons.prems(3) nonneg wd_timeout_set [OF assms, of age] by (simp add: x)
  then have "wd_step lsi x (wd_set age) = Some (wd_set (age + d))" using Cons.prems(2) wd_quiet_step by (simp add: x)
  moreover obtain age' where a: "age' \<le> (age + d) + (\<Sum>a\<leftarrow>map fst xs. limit a)" "wd_run lsi xs (wd_set (age + d)) = Some (wd_set age')"
    using Cons.IH [of "age + d"] Cons.prems(2,3) d by (auto simp: x)
  ultimately show ?case using d(1) by (intro exI [of _ age']) (simp add: x)
qed auto

lemma wd_feed: "0 < lsi \<Longrightarrow> lsi \<le> 47000 \<Longrightarrow> age \<le> 22300 \<Longrightarrow> wd_step lsi (Iwdg_KR 0xAAAA, 0) (wd_set age) = Some (wd_set 0)"
  using wd_timeout_set [of lsi age] by (simp add: wd_step_def wd_set_def wd_timeout_def)

text \<open>The loop from any age, given turns that begin with a feed.\<close>
lemma wd_loop_run:
  assumes "0 < lsi" "lsi \<le> 47000" "\<forall>q \<in> set qs. (\<forall>a \<in> set q. quiet a) \<and> (\<Sum>a\<leftarrow>q. limit a) \<le> 22300"
  shows "timely xs \<Longrightarrow> map fst xs = concat (map ((#) (Iwdg_KR 0xAAAA)) qs) \<Longrightarrow> age \<le> 22300 \<Longrightarrow> wd_run lsi xs (wd_set age) \<noteq> None"
  using assms(3)
proof (induction qs arbitrary: xs age)
  case (Cons q qs)
  obtain d ys zs where xs: "xs = (Iwdg_KR 0xAAAA, d) # ys @ zs" "map fst ys = q" "map fst zs = concat (map ((#) (Iwdg_KR 0xAAAA)) qs)"
    using Cons.prems(2) by (auto simp: map_eq_Cons_conv map_eq_append_conv)
  have t: "d = 0" "timely ys" "timely zs" using Cons.prems(1) by (auto simp: timely_def xs(1))
  obtain age' where "age' \<le> 0 + (\<Sum>a\<leftarrow>q. limit a)" "wd_run lsi ys (wd_set 0) = Some (wd_set age')"
    using wd_quiet_run [OF assms(1,2) t(2), of 0] Cons.prems(4) xs(2) by auto
  moreover from this have "age' \<le> 22300" using Cons.prems(4) by fastforce
  ultimately show ?case
    using Cons.IH [OF t(3) xs(3), of age'] Cons.prems(3,4) by (simp add: xs(1) t(1) wd_feed [OF assms(1,2)] wd_run_append)
qed simp

text \<open>The set-up, whatever the clock initialisation before it took.\<close>
lemma wd_start_run:
  assumes "0 < lsi" "lsi \<le> 47000" "timely xs" "map fst xs = Call HalInit # iwdg_start"
  shows "wd_run lsi xs wd_reset = Some (wd_set 0)"
proof -
  obtain d0 d1 d2 d3 d4 d5 where xs: "xs = [(Call HalInit, d0), (Iwdg_KR 0x5555, d1), (Iwdg_PR 0x06, d2), (Iwdg_RLR 0xFFF, d3),
      (Iwdg_KR 0xCCCC, d4), (Iwdg_KR 0xAAAA, d5)]"
    using assms(4) by (auto simp: iwdg_start_def map_eq_Cons_conv)
  have "d5 = 0" using assms(3) by (auto simp: timely_def xs)
  then show ?thesis using assms(1)
    by (simp add: xs wd_step_def wd_reset_def wd_set_def wd_timeout_def)
qed

lemma map_eq_appendE:
  assumes "map f xs = as @ bs"
  obtains us vs where "xs = us @ vs" "map f us = as" "map f vs = bs"
proof
  show "xs = take (length as) xs @ drop (length as) xs" by simp
  show "map f (take (length as) xs) = as" "map f (drop (length as) xs) = bs" using assms by (simp_all flip: take_map drop_map)
qed

lemma wd_main_run:
  assumes "0 < lsi" "lsi \<le> 47000" "timely xs"
    "map fst xs = (Call HalInit # iwdg_start) @ q @ concat (map ((#) (Iwdg_KR 0xAAAA)) qs)"
    "\<forall>q \<in> set (q # qs). (\<forall>a \<in> set q. quiet a) \<and> (\<Sum>a\<leftarrow>q. limit a) \<le> 22300"
  shows "wd_run lsi xs wd_reset \<noteq> None"
proof -
  obtain us rest where u: "xs = us @ rest" "map fst us = Call HalInit # iwdg_start"
    "map fst rest = q @ concat (map ((#) (Iwdg_KR 0xAAAA)) qs)"
    by (rule map_eq_appendE [OF assms(4)])
  obtain vs ws where "rest = vs @ ws" "map fst vs = q" "map fst ws = concat (map ((#) (Iwdg_KR 0xAAAA)) qs)"
    by (rule map_eq_appendE [OF u(3)])
  with u have xs: "xs = us @ vs @ ws" "map fst us = Call HalInit # iwdg_start" "map fst vs = q"
    "map fst ws = concat (map ((#) (Iwdg_KR 0xAAAA)) qs)" by simp_all
  have t: "timely us" "timely vs" "timely ws" using assms(3) by (auto simp: timely_def xs(1))
  obtain age where a: "age \<le> 0 + (\<Sum>a\<leftarrow>q. limit a)" "wd_run lsi vs (wd_set 0) = Some (wd_set age)"
    using wd_quiet_run [OF assms(1,2) t(2), of 0] assms(5) xs(3) by auto
  then have "age \<le> 22300" using assms(5) by fastforce
  moreover have "\<forall>q \<in> set qs. (\<forall>a \<in> set q. quiet a) \<and> (\<Sum>a\<leftarrow>q. limit a) \<le> 22300" using assms(5) by simp
  ultimately show ?thesis
    using wd_loop_run [OF assms(1,2) _ t(3) xs(4), of age] wd_start_run [OF assms(1,2) t(1) xs(2)] a(2)
    by (simp add: xs(1) wd_run_append)
qed

lemma boot_quiet:
  "(\<forall>a \<in> set robot_boot. quiet a) \<and> (\<Sum>a\<leftarrow>robot_boot. limit a) \<le> 22300"
  "(\<forall>a \<in> set tool_boot_acts. quiet a) \<and> (\<Sum>a\<leftarrow>tool_boot_acts. limit a) \<le> 22300"
proof -
  have r: "replicate 3 y = [y, y, y]" "replicate 5 y = [y, y, y, y, y]" for y :: "boot_act list"
    by (simp_all add: numeral_eq_Suc)
  show "(\<forall>a \<in> set robot_boot. quiet a) \<and> (\<Sum>a\<leftarrow>robot_boot. limit a) \<le> 22300"
    "(\<forall>a \<in> set tool_boot_acts. quiet a) \<and> (\<Sum>a\<leftarrow>tool_boot_acts. limit a) \<le> 22300"
    by (simp_all add: robot_boot_def tool_boot_acts_def blink_fast_def blink_slow_def BLINK_TICK_def BLINK_GAP_def r)
qed

text \<open>C40. The independent watchdog does not bite while the main threads run.  With its oscillator, nominally 32 kHz,
at no more than 47 kHz, and as long as a turn of a busy wait takes
at most 100 ns, a start-up call at most half a second and a sleep at most half a second longer than asked, no
run of either program's main, through its start-up and any number of turns of its loop, is reset.\<close>
theorem watchdog_fed:
  assumes "0 < lsi" "lsi \<le> 47000" "timely xs"
    "map fst xs = robot_main @ concat (replicate n robot_loop) \<or> map fst xs = tool_main @ concat (map tool_loop [0..<n])"
  shows "wd_run lsi xs wd_reset \<noteq> None"
  using assms(4)
proof
  assume "map fst xs = robot_main @ concat (replicate n robot_loop)"
  then have "map fst xs = (Call HalInit # iwdg_start) @ robot_boot @ concat (map ((#) (Iwdg_KR 0xAAAA)) (replicate n [Sleep_ms 1000]))"
    by (simp add: robot_main_def robot_loop_def)
  then show ?thesis by (rule wd_main_run [OF assms(1-3)]) (use boot_quiet(1) in auto)
next
  have tool_loop: "tool_loop = (\<lambda>tick. [Iwdg_KR 0xAAAA, Led (tick mod 2 = 0), Sleep_ms 200])"
    by (simp add: fun_eq_iff tool_loop_def)
  assume "map fst xs = tool_main @ concat (map tool_loop [0..<n])"
  then have "map fst xs = (Call HalInit # iwdg_start) @ tool_boot_acts
      @ concat (map ((#) (Iwdg_KR 0xAAAA)) (map (\<lambda>tick. [Led (tick mod 2 = 0), Sleep_ms 200]) [0..<n]))"
    by (simp add: tool_main_def tool_loop comp_def)
  then show ?thesis by (rule wd_main_run [OF assms(1-3)]) (use boot_quiet(2) in auto)
qed

theorem watchdog_fed_witness:
  "wd_run 32000 (map (\<lambda>a. (a, limit a)) (robot_main @ concat (replicate 5 robot_loop))) wd_reset \<noteq> None"
proof (rule watchdog_fed)
  have "0 \<le> limit a" for a by (cases a) simp_all
  then show "timely (map (\<lambda>a. (a, limit a)) (robot_main @ concat (replicate 5 robot_loop)))" by (auto simp: timely_def)
  show "map fst (map (\<lambda>a. (a, limit a)) (robot_main @ concat (replicate 5 robot_loop))) = robot_main @ concat (replicate 5 robot_loop) \<or>
      map fst (map (\<lambda>a. (a, limit a)) (robot_main @ concat (replicate 5 robot_loop))) = tool_main @ concat (map tool_loop [0..<5])"
    by (simp only: map_map comp_def fst_conv map_ident) simp
qed simp_all

end
