(* ===== verification/Timekeeping.thy ===== *)
theory Timekeeping
  imports Clocks ToolProps Pid
begin

text \<open>
  The two clocks the programs read, TIME_I2US and TIME_I2MS of the kernel's 32-bit tick counter, and what
  their wrap-around does to the code that subtracts two readings: the PID controllers (src/src/controllers/PID.cpp,
  now_us) and the bench program's watchdog (src/Motor_tool/src/CmdShell.cpp, WatchdogThread).
\<close>

section \<open>Microseconds\<close>

text \<open>A tick is 100 microseconds, so the conversion commutes with the wrap-around of both words.\<close>
lemma us_clock: "from_ticks 1000000 i2us \<Longrightarrow> i2us t = 100 * t"
proof -
  assume "from_ticks 1000000 i2us"
  then have "i2us t = of_nat ((unat t * 1000000 + 9999) div 10000)" by (simp add: from_ticks_def CH_CFG_ST_FREQUENCY_def)
  also have "(unat t * 1000000 + 9999) div 10000 = unat t * 100" by simp
  finally show ?thesis by simp
qed

text \<open>The controllers' time step is the time between the two samples, whenever that is below 71 minutes, across
the wrap-around of the tick counter and of the microsecond clock alike.\<close>
lemma pid_time_step:
  assumes "from_ticks 1000000 i2us" "unat d \<le> 42949672"
  shows "pid_dt (i2us (t + d)) (pid_start (i2us t) e p) = real (unat d) / 10000"
proof -
  have "i2us (t + d) - i2us t = 100 * d" by (simp add: us_clock [OF assms(1)] algebra_simps)
  moreover have "unat (100 * d) = 100 * unat d"
    using assms(2) by (simp add: unat_word_ariths)
  ultimately show ?thesis by (simp add: pid_dt_def pid_start_def)
qed

section \<open>Milliseconds\<close>

lemma tick_bound: "(unat t + 9) div 10 \<le> 429496730" for t :: u32
proof -
  have "unat t < 4294967296" using unsigned_less [of t, where 'a = nat] by simp
  then have "(unat t + 9) div 10 < 429496731" by (intro less_mult_imp_div_less) linarith
  then show ?thesis by simp
qed

lemma ms_clock: "from_ticks 1000 i2ms \<Longrightarrow> unat (i2ms t) = (unat t + 9) div 10"
proof -
  assume "from_ticks 1000 i2ms"
  then have "i2ms t = of_nat ((unat t * 1000 + 9999) div 10000)" by (simp add: from_ticks_def CH_CFG_ST_FREQUENCY_def)
  moreover have "(unat t * 1000 + 9999) div 10000 = (unat t + 9) div 10"
  proof -
    have "(unat t * 1000 + 9999) div 10000 = ((unat t * 1000 + 9999) div 1000) div 10" by (simp flip: div_mult2_eq)
    also have "(unat t * 1000 + 9999) div 1000 = unat t + 9" by simp
    finally show ?thesis .
  qed
  moreover have "unat (word_of_nat ((unat t + 9) div 10) :: u32) = (unat t + 9) div 10"
    using tick_bound [of t] by (simp only: unsigned_of_nat) (simp add: take_bit_nat_eq_self)
  ultimately show ?thesis by simp
qed

text \<open>The millisecond clock starts again from 0 at 429496730, not at the end of its word.\<close>
lemma ms_clock_bound: "from_ticks 1000 i2ms \<Longrightarrow> unat (i2ms t) \<le> 429496730"
  using tick_bound [of t] by (simp add: ms_clock)

lemma unat_minus_back: "a < b \<Longrightarrow> unat (a - b) = 2 ^ 32 + unat a - unat b" for a b :: u32
proof -
  assume "a < b"
  then have "unat a < unat b" by (simp add: word_less_nat_alt)
  then show ?thesis using unsigned_less [of b, where 'a = nat] by (simp add: unat_sub_if')
qed

text \<open>C22. The bench program's watchdog and its clock.  Take the kernel's conversion of ticks to milliseconds as
documented; a byte came from the host at tick h, and a round of the watchdog that reads tick r finds the last
stop more than 100 ms back.  If r is h or up to 500 ms later without a wrap-around in between, the round does
nothing, as meant.  But whenever the round's reading is below the byte's, every motor is stopped: that is the
first round after the tick counter has wrapped (every 119 hours), however short the silence, because the
millisecond clock does not wrap at the end of its word; and a round that read the clock just before the
command thread, which has the higher priority, took a byte of the next millisecond.\<close>
theorem watchdog_false_alarm:
  assumes "from_ticks 1000 i2ms" "tl_host_ms t = i2ms h" "RESEND_PERIOD_MS < i2ms r - tl_stop_ms t"
  shows "(h \<le> r \<and> unat r - unat h \<le> 5000 \<longrightarrow> watchdog_round (i2ms r) t = t) \<and>
    (i2ms r < i2ms h \<longrightarrow> tc_tx (tl_can (watchdog_round (i2ms r) t)) = tc_tx (tl_can t) @ stop_frames (tl_drv t))"
proof (intro conjI impI)
  assume r: "h \<le> r \<and> unat r - unat h \<le> 5000"
  then have "unat h \<le> unat r" by (simp add: word_le_nat_alt)
  then have m: "unat (i2ms h) \<le> unat (i2ms r)" "unat (i2ms r) - unat (i2ms h) \<le> 500"
    using r by (simp_all add: ms_clock [OF assms(1)] div_le_mono) linarith
  then have "unat (i2ms r - i2ms h) \<le> 500" by (simp add: unat_sub word_le_nat_alt)
  then have "\<not> WD_TIMEOUT_MS < i2ms r - tl_host_ms t" by (simp add: assms(2) WD_TIMEOUT_MS_def word_less_nat_alt)
  then show "watchdog_round (i2ms r) t = t" by (simp add: watchdog_round_def)
next
  assume "i2ms r < i2ms h"
  then have "unat (i2ms r - i2ms h) = 2 ^ 32 + unat (i2ms r) - unat (i2ms h)" by (rule unat_minus_back)
  then have "WD_TIMEOUT_MS < i2ms r - tl_host_ms t"
    using ms_clock_bound [OF assms(1), of h] by (simp add: assms(2) WD_TIMEOUT_MS_def word_less_nat_alt)
  then show "tc_tx (tl_can (watchdog_round (i2ms r) t)) = tc_tx (tl_can t) @ stop_frames (tl_drv t)"
    using assms(3) stop_all_sent [of t] by (simp add: watchdog_round_def)
qed

text \<open>The host spoke 100 ms before the wrap-around, the round comes 200 ms after it: motor 3 is stopped.\<close>
theorem watchdog_false_alarm_witness:
  "(CAN_BUS_1, data_frame 0x143 [0x81, 0, 0, 0, 0, 0, 0, 0]) \<in>
     set (tc_tx (tl_can (watchdog_round 200 (demo_tool\<lparr>tl_host_ms := 429496630, tl_stop_ms := 429400000\<rparr>))))"
proof -
  define i2ms :: "u32 \<Rightarrow> u32" where "i2ms t = of_nat ((unat t * 1000 + 9999) div 10000)" for t
  have law: "from_ticks 1000 i2ms" by (simp add: from_ticks_def i2ms_def CH_CFG_ST_FREQUENCY_def)
  have i: "i2ms 4294966296 = 429496630" "i2ms 2000 = 200" by (simp_all add: i2ms_def)
  have "tc_tx (tl_can (watchdog_round 200 (demo_tool\<lparr>tl_host_ms := 429496630, tl_stop_ms := 429400000\<rparr>))) =
      tc_tx (tl_can demo_tool) @ stop_frames (tl_drv demo_tool)"
    using watchdog_false_alarm [OF law, of "demo_tool\<lparr>tl_host_ms := 429496630, tl_stop_ms := 429400000\<rparr>" 4294966296 2000]
    by (simp add: i RESEND_PERIOD_MS_def)
  moreover have "(CAN_BUS_1, data_frame 0x143 [0x81, 0, 0, 0, 0, 0, 0, 0]) \<in> set (stop_frames (tl_drv demo_tool))"
    using demo_tool_valid by (auto simp: stop_frames_def rmd_stop_frames_def image_iff intro!: exI [of _ 3])
  ultimately show ?thesis by simp
qed

end
