(* ===== verification/Locks.thy ===== *)
theory Locks
  imports DebugThread
begin

text \<open>
  The mutexes of the firmware and the shared variables they guard, at the granularity of single lock
  operations and single accesses: an abstraction of every thread of src/src/threads.cpp, with the functions
  it calls in coms/CANMotor.cpp, coms/CAN.cpp, coms/CANPower.cpp, RobotTelemetry.cpp and logging/Logger.cpp, to the sequences of
  locks and accesses its critical sections consist of.  A thread runs its sequences in any order and any number of
  times, which covers every path through its loop; the threads interleave after every operation.
  fatfs_lock is the lock the file system takes in each of its calls, as FF_FS_REENTRANT in cfg/ffconf.h asks it to.
\<close>

datatype mutex = state_mtx | imu_mtx | can_imu_mtx | mocap_mtx | motor_state_mtx | power_mtx | telemetry_mtx | usb_write_mtx
  | fatfs_lock

datatype shared_var = GState | GEuler | GInput | GArmed | GMotorTorques | GImu | GCanImu | GMocap | GMotors | GPower
  | GTelemetry | GLanes | UsbOut | Volume | GCal | Flash | RobotSm | GMotorTest | GSbus | GLogger | CanDiag | CanScan | QuatCount

text \<open>A failing TryLock skips the given number of operations.\<close>
datatype lock_op = Lock mutex | Unlock mutex | TryLock mutex nat | Rd shared_var | Wr shared_var

section \<open>Interleaved execution\<close>

record 't lock_state =
  ls_owner :: "mutex \<Rightarrow> 't option"
  ls_todo :: "'t \<Rightarrow> lock_op list"

text \<open>One operation of a thread; None when it has to wait.\<close>
fun lock_exec :: "'t \<Rightarrow> 't lock_state \<Rightarrow> 't lock_state option" where
  "lock_exec t s = (case ls_todo s t of
     [] \<Rightarrow> None
   | Lock m # xs \<Rightarrow> (if ls_owner s m = None
       then Some \<lparr>ls_owner = (ls_owner s)(m := Some t), ls_todo = (ls_todo s)(t := xs)\<rparr> else None)
   | Unlock m # xs \<Rightarrow> Some \<lparr>ls_owner = (ls_owner s)(m := None), ls_todo = (ls_todo s)(t := xs)\<rparr>
   | TryLock m k # xs \<Rightarrow> (if ls_owner s m = None
       then Some \<lparr>ls_owner = (ls_owner s)(m := Some t), ls_todo = (ls_todo s)(t := xs)\<rparr>
       else Some (s\<lparr>ls_todo := (ls_todo s)(t := drop k xs)\<rparr>))
   | Rd v # xs \<Rightarrow> Some (s\<lparr>ls_todo := (ls_todo s)(t := xs)\<rparr>)
   | Wr v # xs \<Rightarrow> Some (s\<lparr>ls_todo := (ls_todo s)(t := xs)\<rparr>))"

definition lock_new :: "'t lock_state" where
  "lock_new = \<lparr>ls_owner = (\<lambda>_. None), ls_todo = (\<lambda>_. [])\<rparr>"

inductive lock_reach :: "('t \<Rightarrow> lock_op list set) \<Rightarrow> 't lock_state \<Rightarrow> bool" for scripts where
  lr_new: "lock_reach scripts lock_new"
| lr_begin: "lock_reach scripts s \<Longrightarrow> ls_todo s t = [] \<Longrightarrow> seg \<in> scripts t \<Longrightarrow>
    lock_reach scripts (s\<lparr>ls_todo := (ls_todo s)(t := seg)\<rparr>)"
| lr_exec: "lock_reach scripts s \<Longrightarrow> lock_exec t s = Some s' \<Longrightarrow> lock_reach scripts s'"

section \<open>The discipline\<close>

text \<open>Mutexes are taken in ascending rank and given back in the opposite order; the USB port's is the lowest,
since MOTOR,status asks for motor states, and LOG,get reads the file, while it holds it.\<close>
fun mutex_rank :: "mutex \<Rightarrow> nat" where
  "mutex_rank usb_write_mtx = 0"
| "mutex_rank _ = 1"

fun guard :: "shared_var \<Rightarrow> mutex option" where
  "guard GState = Some state_mtx"
| "guard GEuler = Some state_mtx"
| "guard GInput = Some state_mtx"
| "guard GArmed = Some state_mtx"
| "guard GMotorTorques = Some state_mtx"
| "guard GImu = Some imu_mtx"
| "guard GCanImu = Some can_imu_mtx"
| "guard GMocap = Some mocap_mtx"
| "guard GMotors = Some motor_state_mtx"
| "guard GPower = Some power_mtx"
| "guard GTelemetry = Some telemetry_mtx"
| "guard GLanes = Some state_mtx"
| "guard UsbOut = Some usb_write_mtx"
| "guard Volume = Some fatfs_lock"
| "guard _ = None"

text \<open>What a thread that holds a list of mutexes, the last taken first, may do next.  A guarded variable is
accessed under its guard, except that the only thread that writes it may read it freely.\<close>
function seg_ok :: "(shared_var \<Rightarrow> bool) \<Rightarrow> mutex list \<Rightarrow> lock_op list \<Rightarrow> bool" where
  "seg_ok sole hs [] \<longleftrightarrow> hs = []"
| "seg_ok sole hs (Lock m # xs) \<longleftrightarrow> (\<forall>h \<in> set hs. mutex_rank h < mutex_rank m) \<and> seg_ok sole (m # hs) xs"
| "seg_ok sole hs (Unlock m # xs) \<longleftrightarrow> hs \<noteq> [] \<and> hd hs = m \<and> seg_ok sole (tl hs) xs"
| "seg_ok sole hs (TryLock m k # xs) \<longleftrightarrow> (\<forall>h \<in> set hs. mutex_rank h < mutex_rank m) \<and> seg_ok sole (m # hs) xs \<and>
     seg_ok sole hs (drop k xs)"
| "seg_ok sole hs (Rd v # xs) \<longleftrightarrow> (case guard v of None \<Rightarrow> True | Some g \<Rightarrow> g \<in> set hs \<or> sole v) \<and> seg_ok sole hs xs"
| "seg_ok sole hs (Wr v # xs) \<longleftrightarrow> (case guard v of None \<Rightarrow> True | Some g \<Rightarrow> g \<in> set hs) \<and> seg_ok sole hs xs"
  by pat_completeness auto
termination by (relation "measure (\<lambda>(_, _, xs). length xs)") auto

locale lock_discipline =
  fixes scripts :: "'t \<Rightarrow> lock_op list set"
    and sole :: "'t \<Rightarrow> shared_var \<Rightarrow> bool"
  assumes segs_ok: "seg \<in> scripts t \<Longrightarrow> seg_ok (sole t) [] seg"
    and sole_writer: "sole t v \<Longrightarrow> seg \<in> scripts u \<Longrightarrow> Wr v \<in> set seg \<Longrightarrow> u = t"
begin

definition holds :: "'t lock_state \<Rightarrow> 't \<Rightarrow> mutex list \<Rightarrow> bool" where
  "holds s t hs \<longleftrightarrow> distinct hs \<and> set hs = {m. ls_owner s m = Some t}"

definition inv :: "'t lock_state \<Rightarrow> bool" where
  "inv s \<longleftrightarrow> (\<forall>t. (\<exists>hs. holds s t hs \<and> seg_ok (sole t) hs (ls_todo s t)) \<and>
     (\<forall>v. Wr v \<in> set (ls_todo s t) \<longrightarrow> (\<exists>seg \<in> scripts t. Wr v \<in> set seg)))"

lemma inv_owner: "inv s \<Longrightarrow> \<exists>hs. holds s t hs \<and> seg_ok (sole t) hs (ls_todo s t)"
  by (simp add: inv_def)

lemma inv_step:
  assumes "inv s" "holds s t hs" "seg_ok (sole t) hs' xs" "holds s' t hs'"
    and "\<And>u m. u \<noteq> t \<Longrightarrow> ls_owner s' m = Some u \<longleftrightarrow> ls_owner s m = Some u"
    and "ls_todo s' = (ls_todo s)(t := xs)" "set xs \<subseteq> set (ls_todo s t)"
  shows "inv s'"
  unfolding inv_def
proof (intro allI conjI impI)
  fix u
  show "\<exists>hs. holds s' u hs \<and> seg_ok (sole u) hs (ls_todo s' u)"
  proof (cases "u = t")
    case True
    then show ?thesis using assms(3,4,6) by auto
  next
    case False
    then obtain ks where "holds s u ks" "seg_ok (sole u) ks (ls_todo s u)" using inv_owner [OF assms(1)] by blast
    then show ?thesis using False assms(5,6) by (intro exI [of _ ks]) (simp add: holds_def)
  qed
next
  fix u v assume "Wr v \<in> set (ls_todo s' u)"
  then have "Wr v \<in> set (ls_todo s u)" using assms(6,7) by (auto split: if_splits)
  then show "\<exists>seg \<in> scripts u. Wr v \<in> set seg" using assms(1) by (auto simp: inv_def)
qed

lemma inv_exec:
  assumes "inv s" "lock_exec t s = Some s'"
  shows "inv s'"
proof -
  obtain hs where h: "holds s t hs" "seg_ok (sole t) hs (ls_todo s t)" using inv_owner [OF assms(1)] by blast
  show ?thesis
  proof (cases "ls_todo s t")
    case Nil
    then show ?thesis using assms(2) by simp
  next
    case (Cons x xs)
    show ?thesis
    proof (cases x)
      case (Lock m)
      then have free: "ls_owner s m = None" and s': "s' = \<lparr>ls_owner = (ls_owner s)(m := Some t), ls_todo = (ls_todo s)(t := xs)\<rparr>"
        using assms(2) Cons by (auto split: if_splits)
      then have "m \<notin> set hs" using h(1) by (auto simp: holds_def)
      then show ?thesis
        by (intro inv_step [OF assms(1) h(1), of "m # hs" xs]) (use h Cons Lock free in \<open>auto simp: s' holds_def\<close>)
    next
      case (Unlock m)
      then have s': "s' = \<lparr>ls_owner = (ls_owner s)(m := None), ls_todo = (ls_todo s)(t := xs)\<rparr>" using assms(2) Cons by simp
      obtain hs' where hs: "hs = m # hs'" using h(2) Cons Unlock by (cases hs) auto
      then have "ls_owner s m = Some t" using h(1) by (auto simp: holds_def)
      then show ?thesis
        by (intro inv_step [OF assms(1) h(1), of hs' xs]) (use h Cons Unlock hs in \<open>auto simp: s' holds_def\<close>)
    next
      case (TryLock m k)
      show ?thesis
      proof (cases "ls_owner s m = None")
        case True
        then have s': "s' = \<lparr>ls_owner = (ls_owner s)(m := Some t), ls_todo = (ls_todo s)(t := xs)\<rparr>"
          using assms(2) Cons TryLock by simp
        then have "m \<notin> set hs" using h(1) True by (auto simp: holds_def)
        then show ?thesis
          by (intro inv_step [OF assms(1) h(1), of "m # hs" xs]) (use h Cons TryLock True in \<open>auto simp: s' holds_def\<close>)
      next
        case False
        then have s': "s' = s\<lparr>ls_todo := (ls_todo s)(t := drop k xs)\<rparr>" using assms(2) Cons TryLock by (auto split: if_splits)
        then show ?thesis
          by (intro inv_step [OF assms(1) h(1), of hs "drop k xs"])
            (use h Cons TryLock in \<open>auto simp: s' holds_def dest: in_set_dropD\<close>)
      qed
    next
      case (Rd v)
      then have s': "s' = s\<lparr>ls_todo := (ls_todo s)(t := xs)\<rparr>" using assms(2) Cons by simp
      then show ?thesis
        by (intro inv_step [OF assms(1) h(1), of hs xs]) (use h Cons Rd in \<open>auto simp: s' holds_def\<close>)
    next
      case (Wr v)
      then have s': "s' = s\<lparr>ls_todo := (ls_todo s)(t := xs)\<rparr>" using assms(2) Cons by simp
      then show ?thesis
        by (intro inv_step [OF assms(1) h(1), of hs xs]) (use h Cons Wr in \<open>auto simp: s' holds_def\<close>)
    qed
  qed
qed

lemma inv_begin:
  assumes "inv s" "ls_todo s t = []" "seg \<in> scripts t"
  shows "inv (s\<lparr>ls_todo := (ls_todo s)(t := seg)\<rparr>)"
proof -
  have "\<exists>hs. holds (s\<lparr>ls_todo := (ls_todo s)(t := seg)\<rparr>) u hs \<and> seg_ok (sole u) hs (ls_todo (s\<lparr>ls_todo := (ls_todo s)(t := seg)\<rparr>) u)" for u
  proof -
    obtain hs where h: "holds s u hs" "seg_ok (sole u) hs (ls_todo s u)" using inv_owner [OF assms(1)] by blast
    have "u = t \<Longrightarrow> hs = []" using h(2) assms(2) by simp
    then show ?thesis using h segs_ok [OF assms(3)] by (intro exI [of _ hs]) (auto simp: holds_def)
  qed
  moreover have "\<exists>seg \<in> scripts u. Wr v \<in> set seg"
    if "Wr v \<in> set (ls_todo (s\<lparr>ls_todo := (ls_todo s)(t := seg)\<rparr>) u)" for u v
    using that assms by (cases "u = t") (auto simp: inv_def)
  ultimately show ?thesis by (simp add: inv_def)
qed

lemma reach_inv: "lock_reach scripts s \<Longrightarrow> inv s"
proof (induction rule: lock_reach.induct)
  case lr_new
  have "holds lock_new t []" for t by (simp add: holds_def lock_new_def)
  then show ?case by (auto simp: inv_def lock_new_def intro!: exI [of _ "[]"])
qed (auto intro: inv_exec inv_begin)

text \<open>A waiting thread waits for a thread that can go on, or that waits for a mutex of higher rank.\<close>
lemma waiting_leads_on:
  "inv s \<Longrightarrow> ls_todo s t = Lock m # xs \<Longrightarrow> ls_owner s m \<noteq> None \<Longrightarrow> \<exists>u. ls_todo s u \<noteq> [] \<and> lock_exec u s \<noteq> None"
proof (induction "1 - mutex_rank m" arbitrary: t m xs rule: less_induct)
  case less
  obtain u where u: "ls_owner s m = Some u" using less.prems(3) by blast
  obtain hs where h: "holds s u hs" "seg_ok (sole u) hs (ls_todo s u)" using inv_owner [OF less.prems(1)] by blast
  have m: "m \<in> set hs" using h(1) u by (auto simp: holds_def)
  then have busy: "ls_todo s u \<noteq> []" using h(2) by auto
  show ?case
  proof (cases "lock_exec u s")
    case None
    then obtain m' ys where w: "ls_todo s u = Lock m' # ys" "ls_owner s m' \<noteq> None"
      using busy by (cases "ls_todo s u"; cases "hd (ls_todo s u)") (auto split: if_splits)
    then have "mutex_rank m < mutex_rank m'" using h(2) m by auto
    moreover have "mutex_rank m' \<le> 1" by (cases m') simp_all
    ultimately have "1 - mutex_rank m' < 1 - mutex_rank m" by linarith
    then show ?thesis using less.hyps w less.prems(1) by blast
  qed (use busy in blast)
qed

lemma no_deadlock:
  assumes "lock_reach scripts s" "ls_todo s t \<noteq> []"
  shows "\<exists>u. ls_todo s u \<noteq> [] \<and> lock_exec u s \<noteq> None"
proof (cases "lock_exec t s")
  case None
  then obtain m xs where "ls_todo s t = Lock m # xs" "ls_owner s m \<noteq> None"
    using assms(2) by (cases "ls_todo s t"; cases "hd (ls_todo s t)") (auto split: if_splits)
  then show ?thesis using waiting_leads_on reach_inv [OF assms(1)] by blast
qed (use assms(2) in blast)

lemma no_race:
  assumes "lock_reach scripts s" "t \<noteq> u" "ls_todo s t = Wr v # xs" "ls_todo s u = Rd v # ys \<or> ls_todo s u = Wr v # ys"
  shows "guard v = None"
proof (rule ccontr)
  assume "guard v \<noteq> None"
  then obtain g where g: "guard v = Some g" by blast
  note i = reach_inv [OF assms(1)]
  obtain hs where h: "holds s t hs" "seg_ok (sole t) hs (ls_todo s t)" using inv_owner [OF i] by blast
  obtain ks where k: "holds s u ks" "seg_ok (sole u) ks (ls_todo s u)" using inv_owner [OF i] by blast
  have "ls_owner s g = Some t" using h g assms(3) by (auto simp: holds_def)
  moreover have "g \<in> set ks \<or> sole u v" using k(2) g assms(4) by auto
  moreover obtain seg where "seg \<in> scripts t" "Wr v \<in> set seg"
  proof -
    have "Wr v \<in> set (ls_todo s t)" using assms(3) by simp
    then show thesis using i that unfolding inv_def by blast
  qed
  ultimately show False using k(1) sole_writer assms(2) by (auto simp: holds_def)
qed

end

section \<open>The threads of the firmware\<close>

text \<open>A critical section.\<close>
definition sec :: "mutex \<Rightarrow> lock_op list \<Rightarrow> lock_op list" where
  "sec m xs = Lock m # xs @ [Unlock m]"

text \<open>The critical sections and unguarded accesses of a thread, and of the functions it calls.\<close>
definition spi_locks :: "lock_op list list" where
  "spi_locks = [[Rd Flash, Wr GCal], sec imu_mtx [Rd GCal, Wr GImu]]"

definition can_locks :: "lock_op list list" where
  "can_locks = [[Rd CanDiag, Wr CanDiag], [Rd CanScan, Wr CanScan], sec can_imu_mtx [Wr GCanImu],
     sec motor_state_mtx [Wr GMotors], sec power_mtx [Wr GPower]]"

definition est_locks :: "lock_op list list" where
  "est_locks = [sec can_imu_mtx [Rd GCanImu, Wr GCanImu], sec can_imu_mtx [Wr GCanImu], sec imu_mtx [Rd GImu],
     sec mocap_mtx [Rd GMocap, Wr GMocap], sec motor_state_mtx [Rd GMotors], [Rd QuatCount, Wr QuatCount],
     sec state_mtx [Wr GState, Wr GEuler, Wr GLanes], [Rd GState], sec power_mtx [Rd GPower], sec telemetry_mtx [Wr GTelemetry]]"

definition control_locks :: "lock_op list list" where
  "control_locks = [sec state_mtx [Rd GState, Rd GInput, Rd GArmed], [Rd GMotorTest, Wr GMotorTest], [Rd RobotSm, Wr RobotSm],
     sec motor_state_mtx [Rd GMotors], sec motor_state_mtx [Rd GMotors, Wr GMotors], [Rd CanDiag, Wr CanDiag],
     sec state_mtx [Wr GMotorTorques]]"

definition wheel_send_locks :: "lock_op list list" where
  "wheel_send_locks = [[Rd RobotSm], sec state_mtx [Rd GMotorTorques], [Rd CanDiag, Wr CanDiag],
     sec motor_state_mtx [Rd GMotors, Wr GMotors], [Rd GMotorTest]]"

definition radio_locks :: "lock_op list list" where
  "radio_locks = [[Rd GSbus, Wr GSbus], sec state_mtx [Rd GSbus, Wr GInput, Wr GArmed]]"

definition debug_locks :: "lock_op list list" where
  "debug_locks = [[Rd QuatCount], sec state_mtx [Rd GEuler, Rd GState, Rd GInput, Rd GArmed, Rd GLanes],
     sec telemetry_mtx [Rd GTelemetry], sec imu_mtx [Rd GImu], sec can_imu_mtx [Rd GCanImu],
     [TryLock usb_write_mtx 2, Wr UsbOut, Unlock usb_write_mtx]]"

text \<open>MOTOR,status reads the six motors while it holds the port; the commands without a nested lock.\<close>
definition usb_locks :: "lock_op list list" where
  "usb_locks = [sec usb_write_mtx [Wr UsbOut],
     [Rd GLogger], sec usb_write_mtx [Rd GLogger, Wr UsbOut], sec fatfs_lock [Rd Volume], sec fatfs_lock [Rd Volume, Wr Volume],
     [Rd Flash, Wr Flash], [Wr GCal],
     [Rd CanDiag], sec usb_write_mtx [Wr UsbOut, Rd CanDiag, Wr UsbOut], [Rd CanScan, Wr CanScan],
     sec usb_write_mtx (concat (replicate 6 (sec motor_state_mtx [Rd GMotors] @ [Wr UsbOut]))),
     [Rd CanDiag, Wr CanDiag], sec motor_state_mtx [Rd GMotors, Wr GMotors], sec motor_state_mtx [Rd GMotors],
     [Rd GMotorTest, Wr GMotorTest],
     sec power_mtx [Rd GPower], sec state_mtx [Rd GInput, Rd GArmed], sec usb_write_mtx [Rd GSbus, Wr UsbOut], [Rd RobotSm]]"

text \<open>LOG,get sends a file of n pieces and reads them while it holds the port.\<close>
definition download_locks :: "nat \<Rightarrow> lock_op list" where
  "download_locks n = sec usb_write_mtx (Wr UsbOut # concat (replicate n (sec fatfs_lock [Rd Volume] @ [Wr UsbOut])))"

definition log_locks :: "lock_op list list" where
  "log_locks = [[Rd GLogger, Wr GLogger], sec fatfs_lock [Rd Volume, Wr Volume],
     sec state_mtx [Rd GEuler, Rd GState, Rd GInput, Rd GMotorTorques, Rd GArmed], [Rd RobotSm],
     sec motor_state_mtx [Rd GMotors], sec telemetry_mtx [Rd GTelemetry]]"

text \<open>The sections of fixed length, and all.\<close>
definition fixed_locks :: "thread \<Rightarrow> lock_op list list" where
  "fixed_locks t = (case t of SPIThread \<Rightarrow> spi_locks | CANThread \<Rightarrow> can_locks | StateEstThread \<Rightarrow> est_locks
     | ControlThread \<Rightarrow> control_locks | WheelSendThread \<Rightarrow> wheel_send_locks | RadioThread \<Rightarrow> radio_locks
     | HeartbeatThread \<Rightarrow> [] | DebugThread \<Rightarrow> debug_locks | USBCmdThread \<Rightarrow> usb_locks | LogThread \<Rightarrow> log_locks)"

definition thread_locks :: "thread \<Rightarrow> lock_op list set" where
  "thread_locks t = set (fixed_locks t) \<union> (if t = USBCmdThread then range download_locks else {})"

text \<open>Does a thread alone write a variable?\<close>
definition sole_writer_of :: "thread \<Rightarrow> shared_var \<Rightarrow> bool" where
  "sole_writer_of t v = (t = StateEstThread \<and> v = GState)"

definition all_threads :: "thread list" where
  "all_threads = [SPIThread, CANThread, StateEstThread, ControlThread, WheelSendThread, RadioThread, HeartbeatThread,
     DebugThread, USBCmdThread, LogThread]"

lemma all_threads: "t \<in> set all_threads"
  by (cases t) (simp_all add: all_threads_def)

lemma seg_ok_pieces:
  "seg_ok sole [usb_write_mtx] (concat (replicate n (sec fatfs_lock [Rd Volume] @ [Wr UsbOut])) @ [Unlock usb_write_mtx])"
  by (induction n) (simp_all add: sec_def)

lemma seg_ok_download: "seg_ok sole [] (download_locks n)"
  using seg_ok_pieces [of sole n] by (simp add: download_locks_def sec_def)

lemma download_writes: "Wr v \<in> set (download_locks n) \<Longrightarrow> v = UsbOut"
  by (auto simp: download_locks_def sec_def split: if_splits)

interpretation robot: lock_discipline thread_locks sole_writer_of
proof
  have "\<forall>t \<in> set all_threads. \<forall>seg \<in> set (fixed_locks t). seg_ok (sole_writer_of t) [] seg" by code_simp
  then show "seg \<in> thread_locks t \<Longrightarrow> seg_ok (sole_writer_of t) [] seg" for seg t
    using all_threads seg_ok_download by (auto simp: thread_locks_def split: if_splits)
  have "\<forall>u \<in> set all_threads. \<forall>seg \<in> set (fixed_locks u). Wr GState \<in> set seg \<longrightarrow> u = StateEstThread" by code_simp
  then show "sole_writer_of t v \<Longrightarrow> seg \<in> thread_locks u \<Longrightarrow> Wr v \<in> set seg \<Longrightarrow> u = t" for t v seg u
    using all_threads by (auto simp: sole_writer_of_def thread_locks_def dest: download_writes split: if_splits)
qed

text \<open>C4. The mutexes cannot deadlock.  In every state the ten threads can reach, interleaved after every single
lock operation and access, if some thread is inside one of its sections then some such thread can take its
next step; the only nestings, the motor states and the file read while the USB port is held, have one order.\<close>
theorem locks_no_deadlock:
  assumes "lock_reach thread_locks s" "ls_todo s t \<noteq> []"
  shows "\<exists>u. ls_todo s u \<noteq> [] \<and> lock_exec u s \<noteq> None"
  by (rule robot.no_deadlock [OF assms])

text \<open>The command thread inside MOTOR,status, waiting for the motor states the CAN thread holds.\<close>
definition status_waits :: "thread lock_state" where
  "status_waits = \<lparr>ls_owner = (\<lambda>_. None)(motor_state_mtx := Some CANThread, usb_write_mtx := Some USBCmdThread),
     ls_todo = (\<lambda>_. [])(CANThread := [Wr GMotors, Unlock motor_state_mtx],
       USBCmdThread := tl (sec usb_write_mtx (concat (replicate 6 (sec motor_state_mtx [Rd GMotors] @ [Wr UsbOut])))))\<rparr>"

text \<open>A thread between two sections begins one and takes its first step.\<close>
lemma lock_reach_enter:
  assumes "lock_reach scripts s" "ls_todo s t = []" "Lock m # xs \<in> scripts t" "ls_owner s m = None"
  shows "lock_reach scripts \<lparr>ls_owner = (ls_owner s)(m := Some t), ls_todo = (ls_todo s)(t := xs)\<rparr>"
  by (rule lr_exec [OF lr_begin [OF assms(1-3)], of t]) (simp add: assms(4))

lemma status_waits_reached: "lock_reach thread_locks status_waits"
proof -
  let ?c = "\<lparr>ls_owner = (\<lambda>_. None)(motor_state_mtx := Some CANThread),
    ls_todo = (\<lambda>_. [])(CANThread := [Wr GMotors, Unlock motor_state_mtx])\<rparr>"
  have "lock_reach thread_locks ?c"
    using lock_reach_enter [OF lr_new, of CANThread motor_state_mtx "[Wr GMotors, Unlock motor_state_mtx]" thread_locks]
    by (simp add: lock_new_def thread_locks_def fixed_locks_def can_locks_def sec_def)
  from lock_reach_enter [OF this, of USBCmdThread usb_write_mtx
      "tl (sec usb_write_mtx (concat (replicate 6 (sec motor_state_mtx [Rd GMotors] @ [Wr UsbOut]))))"]
  show ?thesis by (simp add: status_waits_def thread_locks_def fixed_locks_def usb_locks_def sec_def)
qed

theorem locks_no_deadlock_witness:
  "lock_exec USBCmdThread status_waits = None \<and> (\<exists>u. ls_todo status_waits u \<noteq> [] \<and> lock_exec u status_waits \<noteq> None)"
proof
  show "lock_exec USBCmdThread status_waits = None"
    by (simp add: status_waits_def sec_def numeral_eq_Suc)
  show "\<exists>u. ls_todo status_waits u \<noteq> [] \<and> lock_exec u status_waits \<noteq> None"
    by (rule locks_no_deadlock [OF status_waits_reached, of CANThread]) (simp add: status_waits_def)
qed

text \<open>C5. Which shared variables are free of races.  In every reachable state, when a thread is about to write a
variable and another one to read or write it, the variable is one of nine that no mutex guards: the calibration
and its flash page, the state machine, the motor test, the receiver, the logger's state, the CAN counters and scan, a debug counter.\<close>
theorem locks_no_race:
  assumes "lock_reach thread_locks s" "t \<noteq> u" "ls_todo s t = Wr v # xs" "ls_todo s u = Rd v # ys \<or> ls_todo s u = Wr v # ys"
  shows "v \<in> {GCal, Flash, RobotSm, GMotorTest, GSbus, GLogger, CanDiag, CanScan, QuatCount}"
  using robot.no_race [OF assms] by (cases v) simp_all

text \<open>A CAL,commit on USB while the IMU thread applies the calibration.\<close>
definition cal_race :: "thread lock_state" where
  "cal_race = \<lparr>ls_owner = (\<lambda>_. None)(imu_mtx := Some SPIThread),
     ls_todo = (\<lambda>_. [])(SPIThread := [Rd GCal, Wr GImu, Unlock imu_mtx], USBCmdThread := [Wr GCal])\<rparr>"

lemma cal_race_reached: "lock_reach thread_locks cal_race"
proof -
  have "lock_reach thread_locks \<lparr>ls_owner = (\<lambda>_. None)(imu_mtx := Some SPIThread),
      ls_todo = (\<lambda>_. [])(SPIThread := [Rd GCal, Wr GImu, Unlock imu_mtx])\<rparr>"
    using lock_reach_enter [OF lr_new, of SPIThread imu_mtx "[Rd GCal, Wr GImu, Unlock imu_mtx]" thread_locks]
    by (simp add: lock_new_def thread_locks_def fixed_locks_def spi_locks_def sec_def)
  from lr_begin [OF this, of USBCmdThread "[Wr GCal]"]
  show ?thesis by (simp add: cal_race_def thread_locks_def fixed_locks_def usb_locks_def)
qed

theorem locks_no_race_witness:
  "lock_reach thread_locks cal_race \<and> ls_todo cal_race USBCmdThread = [Wr GCal] \<and>
   hd (ls_todo cal_race SPIThread) = Rd GCal \<and> GCal \<in> {GCal, Flash, RobotSm, GMotorTest, GSbus, GLogger, CanDiag, CanScan, QuatCount}"
proof (intro conjI)
  show "GCal \<in> {GCal, Flash, RobotSm, GMotorTest, GSbus, GLogger, CanDiag, CanScan, QuatCount}"
    by (rule locks_no_race [OF cal_race_reached, of USBCmdThread SPIThread _ "[]" "[Wr GImu, Unlock imu_mtx]"])
      (simp_all add: cal_race_def)
qed (simp_all add: cal_race_def cal_race_reached [unfolded cal_race_def])

end
