(* ===== verification/TestRace.thy ===== *)
theory TestRace
  imports System
begin

text \<open>
  The start of a bench test (MotorTest::start of src/src/controllers/MotorTest.cpp) cut at the sleeps of
  can_motor_set_odrive_mode, as USBCmdThread runs it: the control and the wheel thread, of higher priority, run in
  between and see a test that is active already and has the start position of the one before.
\<close>

section \<open>The start in pieces\<close>

definition start_fields :: "u8 \<Rightarrow> sys \<Rightarrow> sys" where
  "start_fields i s = s\<lparr>sy_test := (sy_test s)\<lparr>mt_active := True, mt_motor_id := i, mt_is_hip := (i \<le> 4), mt_dir := 1,
     mt_hip_pid := pid_reset (mt_hip_pid (sy_test s))\<rparr>\<rparr>"

text \<open>The three frames of the mode change; a sleep of 50 ms follows each.\<close>
definition mode_frame :: "(u8 \<Rightarrow> motorsys \<Rightarrow> motorsys) \<Rightarrow> u8 \<Rightarrow> sys \<Rightarrow> sys" where
  "mode_frame send i s = s\<lparr>sy_ms := (case find_entry (sy_ms s) i of None \<Rightarrow> sy_ms s
     | Some k \<Rightarrow> if me_proto (entry (sy_ms s) k) \<noteq> CAN_MOTOR_ODRIVE then sy_ms s
       else send (me_node_id (entry (sy_ms s) k)) (sy_ms s))\<rparr>"

definition mode_idle :: "u8 \<Rightarrow> sys \<Rightarrow> sys" where
  "mode_idle = mode_frame (\<lambda>n. odrive_set_axis_state n ODRIVE_AXIS_STATE_IDLE)"

definition mode_velocity :: "u8 \<Rightarrow> sys \<Rightarrow> sys" where
  "mode_velocity = mode_frame (\<lambda>n. odrive_set_controller_mode n ODRIVE_CONTROL_MODE_VELOCITY ODRIVE_INPUT_MODE_PASSTHROUGH)"

definition mode_closed_loop :: "u8 \<Rightarrow> sys \<Rightarrow> sys" where
  "mode_closed_loop = mode_frame (\<lambda>n. odrive_set_axis_state n ODRIVE_AXIS_STATE_CLOSED_LOOP)"

definition start_position :: "u8 \<Rightarrow> sys \<Rightarrow> sys" where
  "start_position i s = s\<lparr>sy_test := (sy_test s)\<lparr>mt_start_pos := (case can_motor_get_state i (sy_ms s) of None \<Rightarrow> Fin 0
     | Some m \<Rightarrow> if mvalid m then pos_rad m else Fin 0)\<rparr>\<rparr>"

text \<open>The start of a wheel's test with the threads' iterations that run during its three sleeps.\<close>
definition start_wheel_test :: "balance_ctrl \<Rightarrow> event list \<Rightarrow> event list \<Rightarrow> event list \<Rightarrow> u8 \<Rightarrow> sys \<Rightarrow> sys" where
  "start_wheel_test cfg as bs cs i s =
    start_position i (run cfg cs (mode_closed_loop i (run cfg bs (mode_velocity i (run cfg as (mode_idle i (start_fields i s)))))))"

text \<open>Undisturbed, it is the start the command line runs.\<close>
lemma start_undisturbed:
  assumes "i \<in> {5, 6}"
  shows "start_wheel_test cfg [] [] [] i s =
    s\<lparr>sy_ms := fst (snd (motor_test_start i (sy_ms s) (sy_test s))), sy_test := snd (snd (motor_test_start i (sy_ms s) (sy_test s)))\<rparr>"
proof -
  have i: "\<not> i < 1" "\<not> 6 < i" "\<not> i \<le> 4" using assms by auto
  define b where "b n = odrive_set_axis_state n ODRIVE_AXIS_STATE_IDLE (sy_ms s)" for n
  define c where "c n = odrive_set_controller_mode n ODRIVE_CONTROL_MODE_VELOCITY ODRIVE_INPUT_MODE_PASSTHROUGH (b n)" for n
  have "ms_keep (sy_ms s) (b n)" "ms_keep (sy_ms s) (c n)" for n by (simp_all add: b_def c_def keep_odrive)
  then have "find_entry (b n) j = find_entry (sy_ms s) j" "entry (b n) k = entry (sy_ms s) k"
    "find_entry (c n) j = find_entry (sy_ms s) j" "entry (c n) k = entry (sy_ms s) k" for n j k
    by (simp_all add: ms_keep_def find_entry_def entry_def)
  then show ?thesis using i
    by (cases "find_entry (sy_ms s) i")
      (simp_all add: start_wheel_test_def motor_test_start_def start_fields_def mode_idle_def mode_velocity_def
        mode_closed_loop_def mode_frame_def start_position_def can_motor_set_odrive_mode_def Let_def flip: b_def c_def)
qed

section \<open>Disturbed\<close>

text \<open>A running test of a wheel, with its direction and the position its turn is counted from.\<close>
definition sweeping :: "u8 \<Rightarrow> int \<Rightarrow> flt \<Rightarrow> sys \<Rightarrow> bool" where
  "sweeping i d x s \<longleftrightarrow> mt_active (sy_test s) \<and> mt_motor_id (sy_test s) = i \<and> \<not> mt_is_hip (sy_test s) \<and>
     mt_dir (sy_test s) = d \<and> mt_start_pos (sy_test s) = x \<and> \<not> sy_armed s"

text \<open>The wheel's reading, and a table that can be read.\<close>
definition reads :: "u8 \<Rightarrow> real \<Rightarrow> sys \<Rightarrow> bool" where
  "reads i p s \<longleftrightarrow> length (ms_entries (sy_ms s)) \<le> length (ms_motors (sy_ms s)) \<and>
     (\<exists>m. can_motor_get_state i (sy_ms s) = Some m \<and> mvalid m \<and> pos_rad m = Fin p)"

lemma keep_reads:
  assumes "ms_keep (sy_ms s) (sy_ms s')" "reads i p s"
  shows "reads i p s'"
proof -
  obtain m where m: "can_motor_get_state i (sy_ms s) = Some m" "mvalid m" "pos_rad m = Fin p" using assms(2) by (auto simp: reads_def)
  have "map_option reading (can_motor_get_state i (sy_ms s')) = Some (reading m)"
    using keep_get_state [OF assms(1), of i] assms(2) m(1) by (simp add: reads_def)
  then obtain m' where "can_motor_get_state i (sy_ms s') = Some m'" "reading m' = reading m" by auto
  moreover have "length (ms_entries (sy_ms s')) \<le> length (ms_motors (sy_ms s'))"
    using assms by (metis reads_def ms_keep_def length_map)
  ultimately show ?thesis using m by (auto simp: reads_def reading_def)
qed

lemma control_every_tick: "n mod compute_divisor CONTROL_PERIOD = 0"
  by (simp add: compute_divisor_def CONTROL_PERIOD_def)

lemma control_sweep:
  assumes "sweeping i d x s" "reads i p s"
    and "turned = (Fin (2 * 3.14159265) \<le> fabsf (Fin p - x))"
    and "s' = control_tick cfg CONTROL_PERIOD clk now s"
  shows "sweeping i (if turned then - d else d) (if turned then Fin p else x) s' \<and> reads i p s' \<and>
    mt_vel_target (sy_test s') = flt_of_int (if turned then - d else d) * WHEEL_SWEEP_VEL_RADS"
proof -
  obtain m where m: "can_motor_get_state i (sy_ms s) = Some m" "mvalid m" "pos_rad m = Fin p" using assms(2) by (auto simp: reads_def)
  have c: "sy_ms (snd (control_compute cfg clk now s)) = sy_ms s"
    "sweeping i (if turned then - d else d) (if turned then Fin p else x) (snd (control_compute cfg clk now s))"
    "mt_vel_target (sy_test (snd (control_compute cfg clk now s))) = flt_of_int (if turned then - d else d) * WHEEL_SWEEP_VEL_RADS"
    using assms(1) m by (auto simp: sweeping_def assms(3) control_compute_def motor_test_update_def Let_def case_prod_beta)
  have "sy_test s' = sy_test (snd (control_compute cfg clk now s))" "sy_armed s' = sy_armed (snd (control_compute cfg clk now s))"
    "ms_keep (sy_ms s) (sy_ms s')"
    using c(1) by (auto simp: assms(4) control_tick_def control_every_tick Let_def case_prod_beta keep_poll keep_broadcast)
  then show ?thesis using c keep_reads [OF _ assms(2)] by (simp add: sweeping_def)
qed

lemma wheel_sweep: "sweeping i d x s \<Longrightarrow> reads i p s \<Longrightarrow> sweeping i d x (wheel_send_tick cfg s) \<and> reads i p (wheel_send_tick cfg s)"
proof -
  have "ms_keep (sy_ms s) (sy_ms (wheel_send_tick cfg s))"
    by (simp add: wheel_send_tick_def Let_def keep_set_velocity keep_set_torque)
  then show "sweeping i d x s \<Longrightarrow> reads i p s \<Longrightarrow> ?thesis"
    using keep_reads by (auto simp: sweeping_def wheel_send_tick_def Let_def)
qed

text \<open>The iterations that can run while the command thread sleeps in the start, and whether one computes.\<close>
fun sends :: "event \<Rightarrow> bool" where
  "sends (E_control clk now) = True" | "sends E_wheel = True" | "sends _ = False"

fun computes :: "event \<Rightarrow> bool" where
  "computes (E_control clk now) = True" | "computes _ = False"

text \<open>At rest, the first computation may turn the direction; no later one does.\<close>
lemma run_sweep:
  assumes "sweeping i d x s" "reads i p s" "list_all sends es"
  defines "turned \<equiv> Fin (2 * 3.14159265) \<le> fabsf (Fin p - x) \<and> list_ex computes es"
  shows "sweeping i (if turned then - d else d) (if turned then Fin p else x) (run cfg es s) \<and> reads i p (run cfg es s)"
  using assms(1-3) unfolding turned_def
proof (induction es arbitrary: s d x)
  case (Cons e es)
  show ?case
  proof (cases e)
    case (E_control clk now)
    note c = control_sweep [OF Cons.prems(1,2) refl refl, of cfg clk now]
    have "\<not> Fin (2 * 3.14159265) \<le> fabsf (Fin p - Fin p)" by simp
    then show ?thesis using Cons.IH [of _ _ "control_tick cfg CONTROL_PERIOD clk now s"] c Cons.prems(3) E_control
      by (cases "Fin (2 * 3.14159265) \<le> fabsf (Fin p - x)") (force+)
  next
    case E_wheel
    note w = wheel_sweep [OF Cons.prems(1,2), of cfg]
    show ?thesis using Cons.IH [OF conjunct1 [OF w] conjunct2 [OF w]] Cons.prems(3) E_wheel by simp
  qed (use Cons.prems(3) in simp_all)
qed simp

text \<open>A frame of the mode change disturbs neither the test nor the reading.\<close>
lemma mode_sweep:
  assumes "sweeping i d x s" "reads i p s" "\<And>n ms. ms_keep ms (send n ms)"
  shows "sweeping i d x (mode_frame send i s) \<and> reads i p (mode_frame send i s)"
proof -
  have "ms_keep (sy_ms s) (sy_ms (mode_frame send i s))" using assms(3) by (auto simp: mode_frame_def split: option.split)
  then show ?thesis using assms(1) keep_reads [OF _ assms(2)] by (simp add: sweeping_def mode_frame_def)
qed

lemma mode_sweeps:
  assumes "sweeping i d x s" "reads i p s"
  shows "sweeping i d x (mode_idle i s) \<and> reads i p (mode_idle i s)"
    "sweeping i d x (mode_velocity i s) \<and> reads i p (mode_velocity i s)"
    "sweeping i d x (mode_closed_loop i s) \<and> reads i p (mode_closed_loop i s)"
  unfolding mode_idle_def mode_velocity_def mode_closed_loop_def
  by (rule mode_sweep [OF assms]; simp add: keep_odrive)+

text \<open>C14. A wheel's test that is started while the control thread runs.  The wheel, motor 5 or 6, is at rest with valid
feedback, the robot disarmed.  Whatever iterations of the control and the wheel thread fall into the three
sleeps of the start, the first velocity the test then commands is +1 rad/s, as meant, only if no
iteration of the control thread does, or the wheel is within a turn of where its last sweep began;
otherwise that iteration compares with the old start position and turns the direction, and the
sweep sets out backwards.  The sleeps take 150 ms and the control thread runs every 10 ms.\<close>
theorem test_start_preempted:
  assumes "i \<in> {5, 6}" "reads i p s" "\<not> sy_armed s" "list_all sends (as @ bs @ cs)"
  shows "mt_vel_target (sy_test (control_tick cfg CONTROL_PERIOD clk now (start_wheel_test cfg as bs cs i s))) =
    (if Fin (2 * 3.14159265) \<le> fabsf (Fin p - mt_start_pos (sy_test s)) \<and> list_ex computes (as @ bs @ cs)
     then Fin (- 1) else Fin 1)"
proof -
  let ?far = "\<lambda>x. Fin (2 * 3.14159265) \<le> fabsf (Fin p - x)"
  let ?x = "mt_start_pos (sy_test s)"
  have here: "\<not> ?far (Fin p)" by simp
  have n: "\<not> i \<le> 4" using assms(1) by auto
  define sw where "sw e t \<longleftrightarrow> sweeping i (if ?far ?x \<and> e then - 1 else 1) (if ?far ?x \<and> e then Fin p else ?x) t \<and> reads i p t" for e t
  have run: "sw (e \<or> list_ex computes es) (run cfg es t)" if "sw e t" "list_all sends es" for e es t
  proof -
    let ?d = "if ?far ?x \<and> e then - 1 else 1 :: int" and ?y = "if ?far ?x \<and> e then Fin p else ?x"
    have "sweeping i ?d ?y t" "reads i p t" using that(1) unfolding sw_def by blast+
    note t = run_sweep [OF this that(2), of cfg]
    show ?thesis using t here by (cases "?far ?x"; cases e; cases "list_ex computes es") (simp_all add: sw_def)
  qed
  have mode: "sw e (mode_idle i t)" "sw e (mode_velocity i t)" "sw e (mode_closed_loop i t)" if "sw e t" for e t
    using that mode_sweeps unfolding sw_def by blast+
  have e: "list_all sends as" "list_all sends bs" "list_all sends cs" using assms(4) by simp_all
  have s0: "sw False (start_fields i s)"
    using assms(2,3) n by (simp add: sw_def sweeping_def reads_def start_fields_def)
  define r where
    "r = run cfg cs (mode_closed_loop i (run cfg bs (mode_velocity i (run cfg as (mode_idle i (start_fields i s))))))"
  have "sw (((False \<or> list_ex computes as) \<or> list_ex computes bs) \<or> list_ex computes cs) r"
    unfolding r_def by (rule run [OF mode(3) [OF run [OF mode(2) [OF run [OF mode(1) [OF s0] e(1)]] e(2)]] e(3)])
  then have r: "sw (list_ex computes (as @ bs @ cs)) r" by (simp add: disj_assoc)
  then have "sweeping i (if ?far ?x \<and> list_ex computes (as @ bs @ cs) then - 1 else 1) (Fin p) (start_position i r) \<and>
      reads i p (start_position i r)"
    by (auto simp: sw_def sweeping_def reads_def start_position_def)
  then show ?thesis
    using control_sweep [of i _ "Fin p" "start_position i r" p False _ cfg clk now] here
    by (auto simp: start_wheel_test_def r_def [symmetric] WHEEL_SWEEP_VEL_RADS_def)
qed

text \<open>The left wheel has rolled ten radians since start-up; its first test sets out backwards.\<close>
definition rolled :: sys where
  "rolled = (boot (\<lambda>_. True) [])\<lparr>sy_armed := False, sy_test := motor_test_new, sy_ms := demo_ms\<lparr>
     ms_entries := [\<lparr>me_id = 5, me_proto = CAN_MOTOR_ODRIVE, me_registered = True, me_node_id = 2, me_sign = Fin (- 1)\<rparr>],
     ms_motors := replicate 8 (hip_state 10 0)\<rparr>\<rparr>"

theorem test_start_preempted_witness:
  "mt_vel_target (sy_test (control_tick BALANCE_CTRL_LQR CONTROL_PERIOD (\<lambda>_. 0) 0
     (start_wheel_test BALANCE_CTRL_LQR [E_control (\<lambda>_. 0) 0, E_wheel] [] [] 5 rolled))) = Fin (- 1)"
proof -
  have "reads 5 10 rolled"
    by (simp add: rolled_def reads_def can_motor_get_state_def find_entry_def hip_state_def)
  moreover have "\<not> sy_armed rolled" "mt_start_pos (sy_test rolled) = Fin 0" by (simp_all add: rolled_def motor_test_new_def)
  ultimately show ?thesis
    using test_start_preempted [of 5 10 rolled "[E_control (\<lambda>_. 0) 0, E_wheel]" "[]" "[]" BALANCE_CTRL_LQR "\<lambda>_. 0" 0] by simp
qed

end
