(* ===== verification/TestStop.thy ===== *)
theory TestStop
  imports SystemProps UsbProps
begin

text \<open>
  MotorTest::stop (src/src/controllers/MotorTest.cpp) sent from the command line while the robot drives its
  wheels by velocity: over whole runs of the firmware, the controller mode it leaves the wheel in.
\<close>

section \<open>What the threads do to the mode of the wheels\<close>

lemma main_entries_boot: "ms_entries (sy_ms (boot ans flash)) = main_entries"
  by (simp add: boot_def spi_start_def start_up_def main_motors_new split: option.split)

lemma receive_silent: "mode_silent (sy_ms s) (sy_ms (receive b rx s))"
proof (cases rx)
  case (Some f)
  have cb: "mode_silent (sy_ms s) (sy_ms (run_cb cb f s))" for cb s
    using rx_silent by (simp add: run_cb_def split: can_cb.split)
  have "mode_silent (sy_ms t) (sy_ms (fold (\<lambda>d. run_cb (dev_callback d) f) devs t))"
    for devs :: "can_cb can_device list" and t
  proof (induction devs arbitrary: t)
    case (Cons d devs)
    show ?case using mode_silent_trans [OF cb Cons.IH] by simp
  qed simp
  then have "mode_silent (sy_ms s) (sy_ms (snd (can_dispatch run_cb b f (ms_can (sy_ms s), s))))"
    by (simp add: can_dispatch_sel)
  then show ?thesis
    by (simp add: Some receive_def set_can_def case_prod_beta mode_silent_def can_dispatch_sel)
qed (simp add: receive_def)

lemma busoff_silent: "mode_silent (sy_ms s) (sy_ms (check_busoff b regs s))"
  by (simp add: check_busoff_def set_can_def case_prod_beta mode_silent_def can_check_busoff_def Let_def)

lemma can_tick_silent: "mode_silent (sy_ms s) (sy_ms (can_tick r1 g1 r2 g2 s))"
  unfolding can_tick_def using receive_silent busoff_silent mode_silent_trans by meson

lemma test_receive: "sy_test (receive b rx s) = sy_test s \<and> sy_rsm (receive b rx s) = sy_rsm s"
proof -
  have "sy_test (run_cb cb f s) = sy_test s \<and> sy_rsm (run_cb cb f s) = sy_rsm s" for cb f s
    by (simp add: run_cb_def split: can_cb.split)
  then have "sy_test (fold (\<lambda>d. run_cb (dev_callback d) f) devs s) = sy_test s \<and>
      sy_rsm (fold (\<lambda>d. run_cb (dev_callback d) f) devs s) = sy_rsm s"
    for f and devs :: "can_cb can_device list" and s
    by (induction devs arbitrary: s) simp_all
  then show ?thesis
    by (auto simp: receive_def set_can_def can_dispatch_sel case_prod_beta split: option.split)
qed

text \<open>A drive whose last order was torque mode, and no test that could order it back.\<close>
definition stranded :: "u8 \<Rightarrow> sys \<Rightarrow> bool" where
  "stranded n s \<longleftrightarrow> ms_entries (sy_ms s) = main_entries \<and> \<not> mt_active (sy_test s) \<and>
     drive_mode n (can_tx (ms_can (sy_ms s))) = Some False"

text \<open>A byte on the USB port that completes a command line.\<close>
definition commands :: "event \<Rightarrow> sys \<Rightarrow> bool" where
  "commands e s = (case e of E_usb env c \<Rightarrow> fst (usb_reader c (sy_line s)) \<noteq> None | _ \<Rightarrow> False)"

fun command_free :: "balance_ctrl \<Rightarrow> event list \<Rightarrow> sys \<Rightarrow> bool" where
  "command_free cfg [] s = True"
| "command_free cfg (e # es) s = (\<not> commands e s \<and> command_free cfg es (step cfg e s))"

definition by_velocity :: "balance_ctrl \<Rightarrow> sys \<Rightarrow> bool" where
  "by_velocity cfg s = rsm_wheel_velocity_mode cfg (sy_rsm s)"

lemma stranded_silent: "wheel_node n \<Longrightarrow> stranded n s \<Longrightarrow> mode_silent (sy_ms s) (sy_ms s') \<Longrightarrow>
    sy_test s' = sy_test s \<Longrightarrow> stranded n s'"
  by (simp add: stranded_def mode_silent_def)

text \<open>The control thread, from one velocity mode to another, orders no mode.\<close>
lemma compute_silent:
  assumes "\<not> mt_active (sy_test s)" "by_velocity cfg s" "by_velocity cfg (snd (control_compute cfg clk now s))"
  shows "sy_ms (snd (control_compute cfg clk now s)) = sy_ms s \<and> sy_test (snd (control_compute cfg clk now s)) = sy_test s"
proof -
  let ?u = "rsm_update cfg clk (sy_state s) (sy_input s) (sy_armed s) (sy_ms s, sy_rsm s)"
  let ?m = "rsm_next_mode (sy_state s) (sy_input s) (sy_armed s) (sy_rsm s)"
  have c: "snd (control_compute cfg clk now s) = s\<lparr>sy_ms := fst (snd ?u), sy_rsm := snd (snd ?u)\<rparr>"
    using assms(1) by (simp add: control_compute_def Let_def case_prod_beta)
  have "wants_wheel_velocity cfg ?m" using assms(3) unfolding c
    by (simp add: by_velocity_def rsm_wheel_velocity_mode_def rsm_update_mode)
  then have "rsm_switch cfg (rsm_mode (sy_rsm s)) ?m (sy_ms s) = sy_ms s"
    using assms(2) by (simp add: by_velocity_def rsm_wheel_velocity_mode_def rsm_switch_def)
  then show ?thesis unfolding c by (simp add: rsm_update_ms)
qed

lemma control_stranded:
  assumes "wheel_node n" "stranded n s" "by_velocity cfg s" "by_velocity cfg (control_tick cfg period clk now s)"
  shows "stranded n (control_tick cfg period clk now s)"
proof -
  define cs where "cs = (if ct_tick (sy_ctl s) mod compute_divisor period = 0 then control_compute cfg clk now s
    else (ct_torques (sy_ctl s), s))"
  define ms where "ms = snd (can_motor_set_hip_torques_broadcast (take 4 (fst cs)) (sy_ms (snd cs)))"
  have t: "sy_ms (control_tick cfg period clk now s) =
      (if 100 \<le> ct_poll (sy_ctl s) + 1 then can_motor_poll_status_round_robin ms else ms) \<and>
    sy_test (control_tick cfg period clk now s) = sy_test (snd cs) \<and>
    sy_rsm (control_tick cfg period clk now s) = sy_rsm (snd cs)"
    by (simp add: control_tick_def Let_def case_prod_beta cs_def ms_def)
  have "by_velocity cfg (snd cs)" using assms(4) t by (simp add: by_velocity_def)
  then have s: "sy_ms (snd cs) = sy_ms s" "sy_test (snd cs) = sy_test s"
    using compute_silent [of s cfg clk now] assms(2,3) unfolding cs_def stranded_def
    by (simp_all split: if_splits)
  have b: "mode_silent (sy_ms s) ms" unfolding ms_def s(1) by (rule broadcast_silent)
  then have "ms_entries ms = main_entries" using assms(2) by (simp add: mode_silent_def stranded_def)
  from mode_silent_trans [OF b poll_silent [OF this]] b
  have "mode_silent (sy_ms s) (sy_ms (control_tick cfg period clk now s))" using t by simp
  then show ?thesis using stranded_silent [OF assms(1,2)] t s(2) by simp
qed

lemma wheel_tick_silent:
  assumes "ms_entries (sy_ms s) = main_entries" "\<not> mt_active (sy_test s)"
  shows "mode_silent (sy_ms s) (sy_ms (wheel_send_tick cfg s))"
proof -
  have v: "mode_silent (sy_ms s) (snd (can_motor_set_velocity 6 b (snd (can_motor_set_velocity 5 a (sy_ms s)))))" for a b
    using set_velocity_silent [OF assms(1), of 5 a] set_velocity_silent [of _ 6 b] mode_silent_trans
    by (metis assms(1) mode_silent_def)
  have t: "mode_silent (sy_ms s) (snd (can_motor_set_torque 6 b (snd (can_motor_set_torque 5 a (sy_ms s)))))" for a b
    using set_torque_silent [OF assms(1), of 5 a] set_torque_silent [of _ 6 b] mode_silent_trans
    by (metis assms(1) mode_silent_def)
  show ?thesis using v t assms(2) by (simp add: wheel_send_tick_def Let_def)
qed

lemma stranded_step:
  assumes "wheel_node n" "stranded n s" "by_velocity cfg s" "by_velocity cfg (step cfg e s)" "\<not> commands e s"
  shows "stranded n (step cfg e s)"
proof (cases e)
  case (E_spi r1 r2 r3)
  have "sy_ms (publish_imu k al r t) = sy_ms t \<and> sy_test (publish_imu k al r t) = sy_test t" for k al r t
    by (simp add: publish_imu_def split: option.split prod.split)
  then show ?thesis using stranded_silent [OF assms(1,2)] by (simp add: E_spi spi_tick_def)
next
  case (E_can r1 g1 r2 g2)
  have "sy_test (check_busoff b regs t) = sy_test t" for b regs t
    by (simp add: check_busoff_def set_can_def case_prod_beta)
  then have "sy_test (can_tick r1 g1 r2 g2 s) = sy_test s" using test_receive by (simp add: can_tick_def)
  then show ?thesis using stranded_silent [OF assms(1,2) can_tick_silent] by (simp add: E_can)
next
  case E_est
  have "sy_ms (snd (take_can_imu s)) = sy_ms s" "sy_test (snd (take_can_imu s)) = sy_test s"
    by (simp_all add: take_can_imu_def Let_def)
  then show ?thesis using stranded_silent [OF assms(1,2)]
    by (simp add: E_est est_thread_tick_def take_mocap_def Let_def case_prod_beta)
next
  case (E_control clk now)
  then show ?thesis using control_stranded [OF assms(1-3)] assms(4) by simp
next
  case E_wheel
  have "sy_test (wheel_send_tick cfg s) = sy_test s" by (simp add: wheel_send_tick_def Let_def)
  then show ?thesis
    using stranded_silent [OF assms(1,2) wheel_tick_silent] assms(2) E_wheel by (simp add: stranded_def)
next
  case (E_usb env c)
  then have "fst (usb_reader c (sy_line s)) = None" using assms(5) by (simp add: commands_def)
  then have "usb_step env c s = s\<lparr>sy_line := snd (usb_reader c (sy_line s))\<rparr>"
    by (simp add: usb_step_def usb_byte_def Let_def case_prod_beta)
  then show ?thesis using stranded_silent [OF assms(1,2)] by (simp add: E_usb)
qed (use stranded_silent [OF assms(1,2)] in \<open>simp_all add: radio_tick_def log_tick_def Let_def case_prod_beta\<close>)

lemma stranded_run:
  assumes "wheel_node n" "stranded n s" "command_free cfg es s"
    "\<forall>k \<le> length es. by_velocity cfg (run cfg (take k es) s)"
  shows "stranded n (run cfg es s)"
  using assms(2-4)
proof (induction es arbitrary: s)
  case (Cons e es)
  have v: "by_velocity cfg s" "by_velocity cfg (step cfg e s)"
    using Cons.prems(3) [rule_format, of 0] Cons.prems(3) [rule_format, of 1] by simp_all
  have "\<forall>k \<le> length es. by_velocity cfg (run cfg (take k es) (step cfg e s))"
    using Cons.prems(3) by (metis Suc_le_mono length_Cons run_simps(2) take_Suc_Cons)
  with Cons.IH [OF stranded_step [OF assms(1) Cons.prems(1) v]] Cons.prems(2) show ?case by simp
qed simp

section \<open>The motor table over whole runs\<close>

lemma keep_entries: "ms_keep a b \<Longrightarrow> ms_entries b = ms_entries a"
  by (simp add: ms_keep_def)

lemma control_keep: "ms_keep (sy_ms s) (sy_ms (control_tick cfg period clk now s))"
proof -
  have c: "ms_keep (sy_ms s) (sy_ms (snd (control_compute cfg clk now s)))"
    by (simp add: control_compute_def Let_def case_prod_beta keeps)
  define cs where "cs = (if ct_tick (sy_ctl s) mod compute_divisor period = 0 then control_compute cfg clk now s
    else (ct_torques (sy_ctl s), s))"
  have "ms_keep (sy_ms s) (sy_ms (snd cs))" using c by (simp add: cs_def)
  then show ?thesis by (simp add: control_tick_def Let_def case_prod_beta keeps flip: cs_def)
qed

lemma entries_step:
  assumes "ms_entries (sy_ms s) = main_entries"
  shows "ms_entries (sy_ms (step cfg e s)) = main_entries"
proof (cases e)
  case (E_spi r1 r2 r3)
  have "sy_ms (publish_imu k al r t) = sy_ms t" for k al r t
    by (simp add: publish_imu_def split: option.split prod.split)
  then show ?thesis using assms by (simp add: E_spi spi_tick_def)
next
  case (E_can r1 g1 r2 g2)
  then show ?thesis using assms can_tick_silent [of s r1 g1 r2 g2] by (simp add: mode_silent_def)
next
  case E_est
  then show ?thesis using assms by (simp add: est_thread_tick_def take_mocap_def take_can_imu_def Let_def case_prod_beta)
next
  case (E_control clk now)
  then show ?thesis using assms keep_entries [OF control_keep] by simp
next
  case E_wheel
  then show ?thesis using assms keep_entries [OF wheel_send_keep] by simp
next
  case (E_usb env c)
  show ?thesis
  proof (cases "usb_byte env c s")
    case (Some p)
    obtain os s' where p: "usb_byte env c s = Some (os, s')" using Some by (cases p) simp
    have "ms_keep (sy_ms s) (sy_ms s')" using usb_byte_cases [OF p] by (simp add: usb_keep_def)
    then have "ms_entries (sy_ms s') = main_entries" using keep_entries assms by simp
    then show ?thesis by (simp add: E_usb usb_step_def p main_entries_boot)
  qed (use assms E_usb in \<open>simp add: usb_step_def\<close>)
qed (use assms in \<open>simp_all add: radio_tick_def log_tick_def Let_def case_prod_beta\<close>)

lemma entries_run: "ms_entries (sy_ms (run cfg es (boot ans flash))) = main_entries"
proof -
  have "ms_entries (sy_ms s) = main_entries \<Longrightarrow> ms_entries (sy_ms (run cfg es s)) = main_entries" for s
    by (induction es arbitrary: s) (simp_all add: entries_step)
  then show ?thesis using main_entries_boot by blast
qed

section \<open>The stop\<close>

lemma stop_dispatch: "usb_cmd_dispatch env ''MOTOR,test,stop'' s = Some (usb_motor_test_stop s)"
  by (rule usb_test_stop_starts [of 5 "[]", THEN conjunct2])
    (simp_all add: starts_def char_of_def bit_0)

lemma stop_strands:
  assumes "ms_entries (sy_ms s) = main_entries" "\<not> mt_is_hip (sy_test s)"
    "mt_motor_id (sy_test s) = 5 \<and> n = 2 \<or> mt_motor_id (sy_test s) = 6 \<and> n = 3"
  shows "stranded n (snd (usb_motor_test_stop s))"
proof -
  have n: "wheel_node n" using assms(3) by (auto simp: wheel_node_def)
  have "can_tx (ms_can (fst (motor_test_stop (sy_ms s) (sy_test s)))) = can_tx (ms_can (sy_ms s)) @ mode_frames n False"
    using assms(2,3) main_find [OF assms(1)] by (auto simp: motor_test_stop_def Let_def set_mode_tx)
  then have "drive_mode n (can_tx (ms_can (fst (motor_test_stop (sy_ms s) (sy_test s))))) = Some False"
    using drive_mode_frames [OF n n] by simp
  moreover have "ms_entries (fst (motor_test_stop (sy_ms s) (sy_test s))) = main_entries"
    using keep_entries [OF keep_test(1) [OF ms_keep_refl]] assms(1) by simp
  ultimately show ?thesis
    by (simp add: stranded_def usb_motor_test_stop_def Let_def case_prod_beta) (simp add: motor_test_stop_def Let_def)
qed

lemma wheel_tick_velocities:
  assumes "ms_entries (sy_ms s) = main_entries" "\<not> mt_active (sy_test s)" "by_velocity cfg s"
  shows "\<exists>d2 d3. can_tx (ms_can (sy_ms (wheel_send_tick cfg s))) = can_tx (ms_can (sy_ms s)) @
    [(CAN_BUS_1, data_frame (odrive_arb_id 2 ODRIVE_CMD_SET_INPUT_VEL) d2),
     (CAN_BUS_1, data_frame (odrive_arb_id 3 ODRIVE_CMD_SET_INPUT_VEL) d3)]"
proof -
  have v: "\<exists>d. can_tx (ms_can (snd (can_motor_set_velocity i v ms))) =
      can_tx (ms_can ms) @ [(CAN_BUS_1, data_frame (odrive_arb_id n ODRIVE_CMD_SET_INPUT_VEL) d)]"
    if "ms_entries ms = main_entries" "i = 5 \<and> n = 2 \<or> i = 6 \<and> n = 3" for i n v ms
    using that(2) main_find [OF that(1)]
    by (auto simp: can_motor_set_velocity_def odrive_send_velocity_def Let_def)
  define ms1 where "ms1 = snd (can_motor_set_velocity 5 (rsm_wheel_vel_L (sy_rsm s)) (sy_ms s))"
  have e1: "ms_entries ms1 = main_entries"
    using keep_entries [OF keep_set_velocity [OF ms_keep_refl]] assms(1) by (simp add: ms1_def)
  have "sy_ms (wheel_send_tick cfg s) = snd (can_motor_set_velocity 6 (rsm_wheel_vel_R (sy_rsm s)) ms1)"
    using assms(2,3) by (simp add: wheel_send_tick_def Let_def by_velocity_def ms1_def)
  then show ?thesis
    using v [OF assms(1), of 5 2 "rsm_wheel_vel_L (sy_rsm s)"] v [OF e1, of 6 3 "rsm_wheel_vel_R (sy_rsm s)"]
    by (auto simp flip: ms1_def)
qed

text \<open>C13. A stop of the bench test strands a wheel.  Take any run of the firmware since its start in which the
last motor tested was a wheel and no test is running any more (arming ends a test, and the number of the motor
stays), and let MOTOR,test,stop come in on the USB port.  It orders that wheel's drive into torque mode whatever
mode the robot is in.  If the state machine drives the wheels by velocity, then for as long as it does and no
other command line is completed, whatever the sensors, the buses, the radio and the threads do, the drive's last
order stays torque mode, although the wheel thread goes on sending it a velocity at every tick.  (The three
frames of the order go out as one step; between them the code sleeps.)\<close>
theorem motor_test_stop_strands:
  assumes "s = run cfg es (boot ans flash)" "\<not> mt_active (sy_test s)" "\<not> mt_is_hip (sy_test s)"
    "mt_motor_id (sy_test s) = 5 \<and> n = 2 \<or> mt_motor_id (sy_test s) = 6 \<and> n = 3"
    "usb_cmd_dispatch env ''MOTOR,test,stop'' s = Some (os, s1)" "command_free cfg later s1"
    "\<forall>k \<le> length later. by_velocity cfg (run cfg (take k later) s1)" "s2 = run cfg later s1"
  shows "drive_mode n (can_tx (ms_can (sy_ms s1))) = Some False \<and> drive_mode n (can_tx (ms_can (sy_ms s2))) = Some False \<and>
    (\<exists>d2 d3. can_tx (ms_can (sy_ms (step cfg E_wheel s2))) = can_tx (ms_can (sy_ms s2)) @
      [(CAN_BUS_1, data_frame (odrive_arb_id 2 ODRIVE_CMD_SET_INPUT_VEL) d2),
       (CAN_BUS_1, data_frame (odrive_arb_id 3 ODRIVE_CMD_SET_INPUT_VEL) d3)])"
proof -
  have n: "wheel_node n" using assms(4) by (auto simp: wheel_node_def)
  have s1: "s1 = snd (usb_motor_test_stop s)" using assms(5) by (simp add: stop_dispatch)
  have st: "stranded n s1" unfolding s1 by (rule stop_strands [OF _ assms(3,4)]) (simp add: assms(1) entries_run)
  have st2: "stranded n s2" unfolding assms(8) by (rule stranded_run [OF n st assms(6,7)])
  have "by_velocity cfg s2" using assms(7) [rule_format, of "length later"] assms(8) by simp
  then show ?thesis using st st2 wheel_tick_velocities [of s2 cfg] by (simp add: stranded_def)
qed

section \<open>Such a run\<close>

lemma type_line:
  assumes "list_all (\<lambda>c. c \<noteq> CHR 0x0A \<and> c \<noteq> CHR 0x0D) l" "length (sy_line s) + length l < LINE_MAX"
  shows "run cfg (map (E_usb env) l) s = s\<lparr>sy_line := sy_line s @ l\<rparr>"
  using assms
proof (induction l arbitrary: s)
  case (Cons c l)
  have "usb_step env c s = s\<lparr>sy_line := sy_line s @ [c]\<rparr>"
    using Cons.prems by (simp add: usb_step_def usb_byte_def usb_reader_def)
  then show ?case using Cons by simp
qed simp

lemma type_command:
  assumes "sy_line s = []" "l \<noteq> []" "list_all (\<lambda>c. c \<noteq> CHR 0x0A \<and> c \<noteq> CHR 0x0D \<and> c \<noteq> CHR 0x00) l" "length l < LINE_MAX"
    "usb_cmd_dispatch env l s = Some (os, s')" "Reset \<notin> set os"
  shows "run cfg (map (E_usb env) (l @ [CHR 0x0A])) s = s'"
proof -
  have l: "takeWhile (\<lambda>c. c \<noteq> CHR 0x00) l = l" "list_all (\<lambda>c. c \<noteq> CHR 0x0A \<and> c \<noteq> CHR 0x0D) l"
    using assms(3) by (auto simp: takeWhile_eq_all_conv list_all_iff)
  have s: "s\<lparr>sy_line := []\<rparr> = s" using assms(1) by simp
  have "usb_step env (CHR 0x0A) (s\<lparr>sy_line := l\<rparr>) = s'"
    using assms(2,5,6) by (simp add: usb_step_def usb_byte_def usb_reader_def l(1) s)
  moreover have "run cfg (map (E_usb env) l) s = s\<lparr>sy_line := l\<rparr>"
    using type_line [OF l(2), of s cfg env] assms(1,4) by simp
  ultimately show ?thesis by simp
qed

definition car_channels :: "u16 list" where
  "car_channels = [992, 992, 992, 992, 200, 992, 200] @ replicate 9 992"

definition car_frame :: bytes where
  "car_frame = 0x0F # sbus_pack car_channels @ [0, 0]"

lemma car_radio:
  assumes "sb_state (sy_sbus s) = WAIT_START" "length (sb_buf (sy_sbus s)) = 25" "length (sy_input s) = 5"
  shows "sy_armed (radio_tick car_frame s)" "sy_input (radio_tick car_frame s) ! IN_MODE_SW < Fin 0"
proof -
  have "\<forall>n < 16. car_channels ! n < 2048"
    by (simp add: car_channels_def nth_append nth_Cons split: nat.split)
  then have "sbus_unpack (sbus_pack car_channels @ [0, 0]) = car_channels"
    by (intro nth_equalityI) (simp_all add: sbus_unpack_def sbus_unpack1_pack, simp add: car_channels_def)
  then have sb: "sb_ch (sbus_update car_frame (sy_sbus s)) = car_channels" "sb_frame_received (sbus_update car_frame (sy_sbus s))"
    "\<not> sb_frame_lost (sbus_update car_frame (sy_sbus s))" "\<not> sb_failsafe (sbus_update car_frame (sy_sbus s))"
    using assms(1,2) by (simp_all add: car_frame_def sbus_frame Let_def)
  have n: "norm_axis 200 < Fin 0" by (simp add: norm_axis_eq axis_real_def sgn_if)
  show "sy_armed (radio_tick car_frame s)" "sy_input (radio_tick car_frame s) ! IN_MODE_SW < Fin 0"
    using sb n assms(3) by (auto simp: radio_tick_def watchdog_cases Let_def radio_armed_def radio_mode_sw_def
      sbus_channel_def car_channels_def idx_defs)
qed

lemma car_control:
  assumes "sy_armed s" "sy_input s ! IN_MODE_SW < Fin 0" "s' = control_tick cfg CONTROL_PERIOD clk now s"
  shows "by_velocity cfg s'" "\<not> mt_active (sy_test s')" "mt_motor_id (sy_test s') = mt_motor_id (sy_test s)"
    "mt_is_hip (sy_test s') = mt_is_hip (sy_test s)" "sy_armed s'" "sy_input s' = sy_input s"
proof -
  have d: "n mod compute_divisor CONTROL_PERIOD = 0" for n by (simp add: compute_divisor_def CONTROL_PERIOD_def)
  have e: "sy_rsm s' = sy_rsm (snd (control_compute cfg clk now s))" "sy_test s' = sy_test (snd (control_compute cfg clk now s))"
    "sy_armed s' = sy_armed (snd (control_compute cfg clk now s))" "sy_input s' = sy_input (snd (control_compute cfg clk now s))"
    by (simp_all add: assms(3) control_tick_def Let_def case_prod_beta d)
  show "by_velocity cfg s'" using assms(1,2)
    by (simp add: by_velocity_def rsm_wheel_velocity_mode_def e control_compute_def Let_def case_prod_beta
        rsm_update_mode rsm_next_mode_def wants_wheel_velocity_def)
  show "\<not> mt_active (sy_test s')" "mt_motor_id (sy_test s') = mt_motor_id (sy_test s)"
    "mt_is_hip (sy_test s') = mt_is_hip (sy_test s)" "sy_armed s'" "sy_input s' = sy_input s"
    using assms(1) by (simp_all add: e control_compute_def motor_test_stop_def Let_def case_prod_beta)
qed

text \<open>Wheel 5 is tested, the pilot arms and drives off with the mode switch down, which ends the test; then the
ground station makes sure of it with a stop.\<close>
definition drive_off :: "event list" where
  "drive_off = map (E_usb demo_env) (''MOTOR,test,5'' @ [CHR 0x0A]) @ [E_radio car_frame, E_control (\<lambda>_. 0) 0]"

definition stopped :: sys where
  "stopped = snd (usb_motor_test_stop (run BALANCE_CTRL_LQR drive_off (boot (\<lambda>_. True) erased)))"

theorem motor_test_stop_strands_witness:
  "drive_mode 2 (can_tx (ms_can (sy_ms (run BALANCE_CTRL_LQR [E_control (\<lambda>_. 0) 10, E_wheel] stopped)))) = Some False"
proof -
  let ?cfg = BALANCE_CTRL_LQR
  define s0 where "s0 = boot (\<lambda>_. True) erased"
  define s1 where "s1 = snd (usb_motor_test_start 5 s0)"
  define s2 where "s2 = radio_tick car_frame s1"
  define s3 where "s3 = control_tick ?cfg CONTROL_PERIOD (\<lambda>_. 0) 0 s2"
  have l: "sy_line s0 = []" "sb_state (sy_sbus s0) = WAIT_START" "length (sb_buf (sy_sbus s0)) = 25" "length (sy_input s0) = 5"
    by (simp_all add: s0_def boot_def spi_start_def start_up_def sbus_new_def N_INPUTS_def split: option.split)
  have r: "run ?cfg (map (E_usb demo_env) (''MOTOR,test,5'' @ [CHR 0x0A])) s0 = s1"
  proof (rule type_command [OF l(1)])
    have c: "char_of (48 + 5 :: nat) = CHR ''5''" by (simp add: char_of_def bit_0)
    have "usb_cmd_dispatch demo_env (''MOTOR,test,'' @ char_of (48 + 5 :: nat) # []) s0 = Some (usb_motor_test_start 5 s0)"
      by (rule usb_test_stop_starts [THEN conjunct1]) (simp_all add: starts_def c)
    then show "usb_cmd_dispatch demo_env ''MOTOR,test,5'' s0 = Some (fst (usb_motor_test_start 5 s0), s1)"
      by (simp add: c [simplified] s1_def)
    show "Reset \<notin> set (fst (usb_motor_test_start 5 s0))" by (simp add: usb_motor_test_start_def Let_def case_prod_beta)
  qed (simp_all add: LINE_MAX_def)
  have t1: "mt_motor_id (sy_test s1) = 5" "\<not> mt_is_hip (sy_test s1)" "sy_sbus s1 = sy_sbus s0" "sy_input s1 = sy_input s0"
    by (simp_all add: s1_def usb_motor_test_start_def motor_test_start_def Let_def case_prod_beta)
  have t2: "sy_armed s2" "sy_input s2 ! IN_MODE_SW < Fin 0" "sy_test s2 = sy_test s1"
    using car_radio [of s1] l t1 by (simp_all add: s2_def) (simp add: radio_tick_def Let_def case_prod_beta)
  note t3 = car_control [OF t2(1,2) s3_def]
  have run3: "s3 = run ?cfg drive_off (boot (\<lambda>_. True) erased)"
    using r by (simp add: drive_off_def s3_def s2_def s0_def)
  have st: "stopped = snd (usb_motor_test_stop s3)" by (simp add: stopped_def run3)
  have keep: "sy_armed (snd (usb_motor_test_stop t)) = sy_armed t" "sy_input (snd (usb_motor_test_stop t)) = sy_input t"
    "sy_rsm (snd (usb_motor_test_stop t)) = sy_rsm t" for t
    by (simp_all add: usb_motor_test_stop_def Let_def case_prod_beta)
  have k: "sy_armed stopped" "sy_input stopped = sy_input s3" "sy_rsm stopped = sy_rsm s3"
    unfolding st keep using t3(5) by blast+
  have v: "by_velocity ?cfg (control_tick ?cfg CONTROL_PERIOD (\<lambda>_. 0) 10 stopped)"
    by (rule car_control(1) [OF k(1) _ refl]) (use k(2) t3(6) t2(2) in simp)
  have w: "by_velocity ?cfg (wheel_send_tick ?cfg t) = by_velocity ?cfg t" for t
    by (simp add: by_velocity_def wheel_send_tick_def Let_def)
  have vel: "by_velocity ?cfg (run ?cfg (take j [E_control (\<lambda>_. 0) 10, E_wheel]) stopped)" if "j \<le> 2" for j
  proof -
    have "by_velocity ?cfg stopped" using t3(1) unfolding by_velocity_def k(3) .
    moreover have "j = 0 \<or> j = 1 \<or> j = 2" using that by arith
    ultimately show ?thesis using v w by (elim disjE) (simp_all only: take_0 run_simps take_Suc_Cons One_nat_def numeral_2_eq_2 step.simps)
  qed
  have hip: "\<not> mt_is_hip (sy_test s3)" and i: "mt_motor_id (sy_test s3) = 5 \<and> 2 = 2 \<or> mt_motor_id (sy_test s3) = 6 \<and> 2 = (3 :: u8)"
    using t1(1,2) t2(3) t3(3,4) by simp_all
  have d: "usb_cmd_dispatch demo_env ''MOTOR,test,stop'' s3 = Some (fst (usb_motor_test_stop s3), stopped)"
    by (simp only: stop_dispatch st prod.collapse)
  have f: "command_free ?cfg [E_control (\<lambda>_. 0) 10, E_wheel] stopped"
    by (simp only: command_free.simps commands_def event.case simp_thms)
  have vs: "\<forall>j \<le> length [E_control (\<lambda>_. 0) 10, E_wheel]. by_velocity ?cfg (run ?cfg (take j [E_control (\<lambda>_. 0) 10, E_wheel]) stopped)"
    using vel by simp
  show ?thesis
    by (rule motor_test_stop_strands [OF run3 t3(2) hip i d f vs refl, THEN conjunct2, THEN conjunct1])
qed

end
