(* ===== verification/Spec2Isabelle.thy ===== *)
theory Spec2Isabelle
  imports Radio CanPower CalFlash Logger DriveMode LegRamp EkfProps EstProps SystemProps UsbProps ToolProps DebugThread
    UsbSerial FlashRegs Boot Timekeeping Locks TestRace TestStop
begin

text \<open>
  A verification library for the firmware of a wheeled biped robot on a CubeOrange+ board (src/main.cpp,
  src/src) and for the bench program that drives its CAN motors by hand (src/Motor_tool).

  The robot.  Three inertial units on SPI, an IMX5 unit and a power monitor on CAN bus 2, six motors on
  CAN bus 1 (four RMD hips, two ODrive wheels), an SBUS receiver, an SD card, a calibration page in flash
  and a USB command line.  Ten threads share the memory: the SPI and CAN threads bring measurements in,
  the estimator (500 Hz) runs three Kalman filter lanes and publishes a state vector, the radio thread
  publishes inputs and the arm switch, the control thread (100 Hz) runs the mode machine and its balance
  controller, gates the six torques and sends the hips, a thread of its own sends the wheels, and the log,
  USB, debug and heartbeat threads follow.  The bench program has a receive thread, a command shell and a
  watchdog that stops the motors when the host falls silent.

  Theories, from the bottom (each opens with what it holds).
    Prelude, Flt, Float32, Scan: lists and words; the float model; its 32-bit patterns; sscanf.
    MathLib, Pid: src/src/math, controllers/PID.cpp.
    FltMatrix, RealMatrix: matrix loops as sums, positive semidefinite forms (no code of their own).
    SoftLimit, TorqueSource: the contracts of the soft limit and of a torque controller, as locales.
    Sbus, Radio: coms/SBUS.cpp, coms/Radio.cpp.
    Can, CanPower, CanMotor, HipGate: coms/CAN.cpp, coms/CANPower.cpp, coms/CANMotor.cpp and its guarantees.
    CalFlash, FlashRegs, LogRing, Logger: coms/CalFlash.cpp (its data, then every register access),
      logging/Logger.cpp and LogMessages.hpp.
    ImuDrivers: coms/IMUs and coms/SPI.cpp.
    FiveBar, HipLock, WheelLqr, Balance, LegRamp, Actuators, StateMachine, DriveMode: kinematics and
      controllers; DriveMode follows the mode of the wheel drives through the frames sent.
    Ekf, EkfLoops, GaussJordan, EkfUpdate, EkfSafe, EkfPredict, EkfRun, Pivot, EkfProps: state_estimator/EKF.cpp;
      Pivot settles when an update is skipped.
    StateMgr, EstRun, EstProps: state_estimator/StateManager.cpp, RobotTelemetry.cpp.
    Shared, ControlThreads, UsbCmd, LogThread, DebugThread: the threads of threads.cpp, one loop iteration
      one definition (spi_tick, can_tick, est_thread_tick, radio_tick, control_tick, wheel_send_tick,
      usb_byte, log_tick, debug_tick, heartbeat_tick) on the record sys of all shared variables.
    System, SystemInv, SystemRun, SystemProps, UsbProps, MotorFrame: the threads' iterations as events of
      one machine, its invariant, and the properties of every interleaving.
    Locks: the critical sections of every thread, interleaved after every single lock operation or access.
    TestRace: the start of a bench test cut at its sleeps, with the iterations of other threads inside.
    TestStop: a stop of the bench test while the robot drives its wheels by velocity, over whole runs.
    Board, Clocks, Boot: boards/CubeOrangePlus, the settings of src/cfg that rates and pins depend on, both main
      functions with the independent watchdog.
    UsbSerial: usb_serial.cpp of both programs.
    ToolCan, ToolMotors, ToolShell, ToolProps, Timekeeping: the bench program, and the clocks of both.

  Correspondence.  A class or group of static variables is a record, a method or function a definition of
  the same name (a suffix or prefix where names clash), its guards and early returns in the code's order;
  an output parameter is a component of the result, a failing call answers None or False.  Integers are
  words of the code's width and wrap around; float is flt: exact reals with the infinities and NaN of IEEE
  754, so that every comparison, clamp and cast treats special values as the code does, while rounding,
  overflow to infinity and the sign of zero are idealised.  Bytes that carry floats are encoded by the
  32-bit patterns of Float32.  Function pointers are values of a datatype run by an interpreter.  What
  hardware, the clock, the file system and ChibiOS answer is an argument (for CAN transmissions an oracle
  in the state), unrestricted unless a theorem names a hypothesis; frames handed to the driver are recorded.
  The build option BALANCE_CONTROLLER is the parameter cfg, and theorems hold for both settings.

  What the groups of lemmas show.
    Safety of the motors: no torque above its limit reaches a hip or wheel in any interleaving, the hip gate
      lets nothing push past an end stop, losing the radio link stops the motors, the height switch must be
      seen at rest after arming, standing up precedes balancing, the drives' mode agrees with the machine;
      what an interrupted start and a belated stop of a bench test do.
    Estimation: the Kalman update is the textbook one on finite data, covariances stay symmetric and
      positive semidefinite over runs, the state published stays finite; what a dead unit does.
    Kinematics and control: forward kinematics close the linkage, inverse kinematics invert them, the
      gain schedule, the leg ramps.
    Data: frame parsers are safe and invert their encoders, the ring is a queue, the log holds every record
      of every tick, the calibration survives a restart and a damaged one is refused, the line reader.
    The bench program: its memory invariant, the watchdog, exactly which motors a stop reaches, the live
      monitor as a queue that drops its oldest, two commands that do the unexpected, a false alarm.
    The ground they stand on: the mutexes cannot deadlock and which shared variables are free of races; what
      a save does to the flash controller, register by register; which chip selects, pins, clocks and bit
      rates the board is started with; that neither main lets the independent watchdog bite.
  Some properties state a defect (they are listed as findings of the manifest): theorems about what the
  code does, not about what it should do.

  Bounds and fuel.  The positive-definiteness of the covariance is shown until process noise could have
  reached the ceilings of constrain_variances: 9.9 million predictions, five and a half hours at 500 Hz.
  desc_walk, drain_loop and the polls of the self-test take the code's own bounds as fuel; the download loop
  and b2_wait are partial (None does not return) and are shown to end when reads reach the end of the file (and
  the host takes the size line) and when the flash controller becomes ready.

  Not modelled.  The values computed when threads interleave inside a loop iteration (System interleaves whole
  iterations, in which a command that sleeps runs to its end; TestRace cuts the one whose sleeps matter; Locks
  interleaves single accesses without their values), timing beyond the clock readings a loop takes and
  the bounds Boot names, rounding of floats, the text printf makes of a number,
  a host that stops taking what a command prints (it is modelled in LOG,get only), and the settings under src/cfg that concern the
  inside of ChibiOS and FatFS only (interrupt priorities, DMA streams, kernel options).  The Python tools and the
  MATLAB controls are other programs.
\<close>

end
